(* ===== verification/Vss_Prelude.thy ===== *)
theory Vss_Prelude
  imports Main "HOL-Library.Word" "HOL-Library.Monad_Syntax"
begin

text \<open>
  The vocabulary every component shares: the machine integers and byte buffers of the C code,
  checked accesses to a buffer (\<open>None\<close> is an access outside the array, which C leaves
  undefined), the byte sequences of a word in network and in host order, the contract a
  fixed-width field of a message satisfies (locale \<open>wire_field\<close>), and the collections the
  component proofs use.

  A \<open>char *\<close> into an array is the suffix of the array that starts at it, so pointer
  arithmetic is \<open>drop\<close> and the bytes behind a pointer that may be read are the suffix.
  A C string is the list of its bytes before the terminating NUL.
\<close>

unbundle bit_operations_syntax

named_theorems wire \<open>accessors of the wire format, unfolded to buffer reads and writes\<close>
named_theorems vssi_consts \<open>numeric values of result codes and modes\<close>

type_synonym u8 = "8 word"
type_synonym u16 = "16 word"
type_synonym u32 = "32 word"
type_synonym u64 = "64 word"
type_synonym buffer = "u8 list"

section \<open>Checked accesses to a buffer\<close>

definition rd_bytes :: "buffer \<Rightarrow> nat \<Rightarrow> nat \<Rightarrow> buffer option" where
  "rd_bytes b off n = (if off + n \<le> length b then Some (take n (drop off b)) else None)"

definition wr_bytes :: "buffer \<Rightarrow> nat \<Rightarrow> buffer \<Rightarrow> buffer option" where
  "wr_bytes b off bs =
     (if off + length bs \<le> length b
      then Some (take off b @ bs @ drop (off + length bs) b) else None)"

definition ptr_at :: "buffer \<Rightarrow> nat \<Rightarrow> buffer option" where
  "ptr_at b off = (if off \<le> length b then Some (drop off b) else None)"

definition memcpy_at :: "buffer \<Rightarrow> nat \<Rightarrow> buffer \<Rightarrow> nat \<Rightarrow> buffer option" where
  "memcpy_at dst off src n = do { bs \<leftarrow> rd_bytes src 0 n; wr_bytes dst off bs }"

definition get_u8 :: "buffer \<Rightarrow> nat \<Rightarrow> u8 option" where
  "get_u8 b off = (if off < length b then Some (b ! off) else None)"

definition put_u8 :: "buffer \<Rightarrow> nat \<Rightarrow> u8 \<Rightarrow> buffer option" where
  "put_u8 b off v = (if off < length b then Some (b[off := v]) else None)"

lemma rd_bytes_append_left [simp]:
  "off + n \<le> length b \<Longrightarrow> rd_bytes (b @ c) off n = rd_bytes b off n"
  by (simp add: rd_bytes_def)

lemma rd_bytes_append_right [simp]:
  "length b \<le> off \<Longrightarrow> rd_bytes (b @ c) off n = rd_bytes c (off - length b) n"
  by (auto simp: rd_bytes_def)

lemma rd_bytes_all [simp]: "n = length b \<Longrightarrow> rd_bytes b 0 n = Some b"
  by (simp add: rd_bytes_def)

lemma rd_bytes_length: "rd_bytes b off n = Some bs \<Longrightarrow> length bs = n"
  by (auto simp: rd_bytes_def split: if_splits)

lemma rd_bytes_prefix: "rd_bytes (bs @ c) 0 (length bs) = Some bs"
  by (simp add: rd_bytes_def)

lemma wr_bytes_length: "wr_bytes b off bs = Some b' \<Longrightarrow> length b' = length b"
  by (auto simp: wr_bytes_def split: if_splits)

lemma wr_bytes_None_iff: "wr_bytes b off bs = None \<longleftrightarrow> length b < off + length bs"
  by (auto simp: wr_bytes_def)

lemma rd_wr_bytes_same: "wr_bytes b off bs = Some b' \<Longrightarrow> rd_bytes b' off (length bs) = Some bs"
  by (auto simp: wr_bytes_def rd_bytes_def split: if_splits)

lemma rd_wr_bytes_disjoint:
  assumes "wr_bytes b off bs = Some b'" and "off' + n \<le> off \<or> off + length bs \<le> off'"
  shows "rd_bytes b' off' n = rd_bytes b off' n"
proof -
  from assms(1) have fits: "off + length bs \<le> length b"
    and b': "b' = take off b @ bs @ drop (off + length bs) b"
    by (auto simp: wr_bytes_def split: if_splits)
  have len: "length b' = length b" using fits b' by simp
  have "take n (drop off' b') = take n (drop off' b)" if "off' + n \<le> length b"
  proof (rule nth_equalityI)
    show "length (take n (drop off' b')) = length (take n (drop off' b))" by (simp add: len)
    fix i assume "i < length (take n (drop off' b'))"
    with that fits assms(2) show "take n (drop off' b') ! i = take n (drop off' b) ! i"
      by (auto simp: b' nth_append)
  qed
  then show ?thesis by (simp add: rd_bytes_def len)
qed

lemma put_u8_eq_wr: "put_u8 b off v = wr_bytes b off [v]"
  by (simp add: put_u8_def wr_bytes_def upd_conv_take_nth_drop)

lemma get_u8_eq_rd: "get_u8 b off = map_option hd (rd_bytes b off 1)"
  by (simp add: get_u8_def rd_bytes_def hd_drop_conv_nth take_Suc Suc_le_eq)

section \<open>Words as bytes\<close>

text \<open>Most significant byte first (network order), least significant first (the host's).\<close>

definition be_enc :: "nat \<Rightarrow> 'a::len word \<Rightarrow> buffer" where
  "be_enc n v = map (\<lambda>i. ucast (drop_bit (8 * i) v)) (rev [0..<n])"

definition be_dec :: "buffer \<Rightarrow> 'a::len word" where
  "be_dec bs = foldl (\<lambda>acc b. push_bit 8 acc OR ucast b) 0 bs"

definition host_enc :: "nat \<Rightarrow> 'a::len word \<Rightarrow> buffer" where
  "host_enc n v = map (\<lambda>i. ucast (drop_bit (8 * i) v)) [0..<n]"

definition host_dec :: "buffer \<Rightarrow> 'a::len word" where
  "host_dec bs = foldr (\<lambda>b acc. ucast b OR push_bit 8 acc) bs 0"

lemma length_be_enc [simp]: "length (be_enc n v) = n"
  by (simp add: be_enc_def)

lemma length_host_enc [simp]: "length (host_enc n v) = n"
  by (simp add: host_enc_def)

lemma host_enc_rev: "host_enc n v = rev (be_enc n v)"
  by (simp add: host_enc_def be_enc_def rev_map)

lemma host_dec_rev: "host_dec bs = be_dec (rev bs)"
  by (simp add: host_dec_def be_dec_def foldl_conv_foldr or.commute)

lemma be_enc_Suc: "be_enc (Suc n) v = ucast (drop_bit (8 * n) v) # be_enc n v"
  by (simp add: be_enc_def)

lemma be_enc_Suc_snoc: "be_enc (Suc n) v = be_enc n (drop_bit 8 v) @ [ucast v]"
proof (induction n)
  case 0
  show ?case by (simp add: be_enc_def)
next
  case (Suc n)
  then show ?case
    by (simp add: be_enc_Suc [of "Suc n"] be_enc_Suc [of n "drop_bit 8 v"] add.commute)
qed

lemma be_dec_snoc: "be_dec (bs @ [b]) = (push_bit 8 (be_dec bs) OR ucast b)"
  by (simp add: be_dec_def)

lemma be_dec_enc_take: "be_dec (be_enc n v) = take_bit (8 * n) v"
proof (induction n arbitrary: v)
  case 0
  show ?case by (simp add: be_dec_def be_enc_def)
next
  case (Suc n)
  have "be_dec (be_enc (Suc n) v) = push_bit 8 (take_bit (8 * n) (drop_bit 8 v)) OR ucast (ucast v :: u8)"
    by (simp add: be_enc_Suc_snoc be_dec_snoc Suc.IH)
  also have "\<dots> = take_bit (8 * Suc n) v"
    by (rule bit_word_eqI) (auto simp: bit_simps)
  finally show ?case .
qed

lemma be_dec_enc: "8 * n = LENGTH('a) \<Longrightarrow> be_dec (be_enc n v) = (v :: 'a::len word)"
  by (simp add: be_dec_enc_take)

lemma be_enc_cong: "(\<And>i. i < 8 * n \<Longrightarrow> bit v i = bit w i) \<Longrightarrow> be_enc n v = be_enc n w"
  by (auto simp: be_enc_def intro!: bit_word_eqI simp: bit_simps)

lemma be_enc_dec: "8 * length bs \<le> LENGTH('a) \<Longrightarrow> be_enc (length bs) (be_dec bs :: 'a::len word) = bs"
proof (induction bs rule: rev_induct)
  case Nil
  show ?case by (simp add: be_enc_def)
next
  case (snoc b bs)
  let ?d = "be_dec bs :: 'a word"
  have "be_enc (length bs) (drop_bit 8 (push_bit 8 ?d OR ucast b)) = be_enc (length bs) ?d"
    using snoc.prems by (intro be_enc_cong) (auto simp: bit_simps dest: bit_imp_le_length)
  moreover have "ucast (push_bit 8 ?d OR ucast b) = b"
    using snoc.prems by (intro bit_word_eqI) (auto simp: bit_simps)
  ultimately show ?case
    using snoc by (simp add: be_enc_Suc_snoc be_dec_snoc)
qed

lemma be_dec_enc_net [simp]:
  "be_dec (be_enc 2 v2) = (v2 :: u16)"
  "be_dec (be_enc 4 v4) = (v4 :: u32)"
  "be_dec (be_enc 8 v8) = (v8 :: u64)"
  by (simp_all add: be_dec_enc)

lemma host_dec_enc_words [simp]:
  "host_dec (host_enc 2 v2) = (v2 :: u16)"
  "host_dec (host_enc 4 v4) = (v4 :: u32)"
  "host_dec (host_enc 8 v8) = (v8 :: u64)"
  by (simp_all add: host_enc_rev host_dec_rev)

section \<open>Loads and stores of words in host order\<close>

definition get_host16 :: "buffer \<Rightarrow> nat \<Rightarrow> u16 option" where
  "get_host16 b off = map_option host_dec (rd_bytes b off 2)"

definition get_host32 :: "buffer \<Rightarrow> nat \<Rightarrow> u32 option" where
  "get_host32 b off = map_option host_dec (rd_bytes b off 4)"

definition get_host64 :: "buffer \<Rightarrow> nat \<Rightarrow> u64 option" where
  "get_host64 b off = map_option host_dec (rd_bytes b off 8)"

definition put_host16 :: "buffer \<Rightarrow> nat \<Rightarrow> u16 \<Rightarrow> buffer option" where
  "put_host16 b off v = wr_bytes b off (host_enc 2 v)"

definition put_host32 :: "buffer \<Rightarrow> nat \<Rightarrow> u32 \<Rightarrow> buffer option" where
  "put_host32 b off v = wr_bytes b off (host_enc 4 v)"

definition put_host64 :: "buffer \<Rightarrow> nat \<Rightarrow> u64 \<Rightarrow> buffer option" where
  "put_host64 b off v = wr_bytes b off (host_enc 8 v)"

section \<open>The contract of a fixed-width field\<close>

text \<open>
  Every accessor pair of the wire format promises the same: a store succeeds exactly when the
  field lies inside the buffer, it keeps the buffer's length and every byte outside the field,
  and the load gives back the value stored.
\<close>

locale wire_field =
  fixes rd :: "buffer \<Rightarrow> nat \<Rightarrow> 'v option"
    and wr :: "buffer \<Rightarrow> nat \<Rightarrow> 'v \<Rightarrow> buffer option"
    and width :: nat
  assumes wr_defined: "wr b off v \<noteq> None \<longleftrightarrow> off + width \<le> length b"
    and wr_keeps_length: "wr b off v = Some b' \<Longrightarrow> length b' = length b"
    and wr_frame: "wr b off v = Some b' \<Longrightarrow> n + k \<le> off \<or> off + width \<le> n \<Longrightarrow>
                     rd_bytes b' n k = rd_bytes b n k"
    and rd_wr: "wr b off v = Some b' \<Longrightarrow> rd b' off = Some v"
    and rd_local: "rd_bytes b off width = rd_bytes b' off' width \<Longrightarrow> rd b off = rd b' off'"
begin

lemma wr_total: "off + width \<le> length b \<Longrightarrow> \<exists>b'. wr b off v = Some b'"
  using wr_defined by blast

lemma rd_wr_total: "off + width \<le> length b \<Longrightarrow> (wr b off v \<bind> (\<lambda>b'. rd b' off)) = Some v"
  using wr_total [of off b v] rd_wr by fastforce

lemma rd_keeps:
  "wr b off v = Some b' \<Longrightarrow> off' + width \<le> off \<or> off + width \<le> off' \<Longrightarrow> rd b' off' = rd b off'"
  by (rule rd_local) (rule wr_frame)

lemma wr_twice_frame:
  assumes "wr b o1 v1 = Some b1" and "wr b1 o2 v2 = Some b2"
    and "o1 + width \<le> o2 \<or> o2 + width \<le> o1"
  shows "rd b2 o1 = Some v1 \<and> rd b2 o2 = Some v2"
  using assms rd_keeps [of b1 o2 v2 b2 o1] rd_wr by metis

end

text \<open>A field given by an encoding of its values as byte strings of one length.\<close>

lemma encoded_wire_field:
  assumes enc: "\<And>v. length (enc v) = w" and dec: "\<And>v. dec (enc v) = v"
    and rd: "\<And>b off. rd b off = map_option dec (rd_bytes b off w)"
    and wr: "\<And>b off v. wr b off v = wr_bytes b off (enc v)"
  shows "wire_field rd wr w"
proof
  show "(wr b off v \<noteq> None) = (off + w \<le> length b)" for b off v
    by (auto simp: wr enc wr_bytes_def)
  show "wr b off v = Some b' \<Longrightarrow> length b' = length b" for b off v b'
    by (auto simp: wr dest: wr_bytes_length)
  show "wr b off v = Some b' \<Longrightarrow> n + k \<le> off \<or> off + w \<le> n \<Longrightarrow>
      rd_bytes b' n k = rd_bytes b n k" for b off v b' n k
    using rd_wr_bytes_disjoint [of b off "enc v" b' n k] by (simp add: wr enc)
  show "wr b off v = Some b' \<Longrightarrow> rd b' off = Some v" for b off v b'
    using rd_wr_bytes_same [of b off "enc v" b'] by (simp add: wr rd enc dec)
  show "rd_bytes b off w = rd_bytes b' off' w \<Longrightarrow> rd b off = rd b' off'" for b off b' off'
    by (simp add: rd)
qed

interpretation u8_field: wire_field get_u8 put_u8 1
  by (rule encoded_wire_field [where enc = "\<lambda>v. [v]" and dec = hd])
    (simp_all add: get_u8_eq_rd put_u8_eq_wr)

interpretation host32_field: wire_field get_host32 put_host32 4
  by (rule encoded_wire_field [where enc = "host_enc 4" and dec = host_dec])
    (simp_all add: get_host32_def put_host32_def)

section \<open>Generic facts on option binds\<close>

lemma bind_eq_SomeE:
  assumes "(m \<bind> f) = Some y"
  obtains x where "m = Some x" and "f x = Some y"
  using assms by (cases m) auto

lemma bind_not_None: "(m \<bind> f) \<noteq> None \<longleftrightarrow> (\<exists>x. m = Some x \<and> f x \<noteq> None)"
  by (cases m) auto

end
