(* ===== verification/Csl_Bigint.thy ===== *)
theory Csl_Bigint
  imports Vss_Prelude "HOL-Library.Monad_Syntax"
begin

text \<open>
  Multiple precision integers (\<open>csl/src/integer_math.c\<close>, \<open>integer_math.h\<close>): numbers as arrays of 32-bit
  digits, the least significant first.

  A function that takes an array and its number of digits takes the list of these digits; where the
  code works inside a larger array (\<open>res\<close>, \<open>cc\<close>) the positions are explicit. The arrays on the stack
  have \<open>MAX_BIGINT_DIGITS\<close> or twice that many digits, and a call that would go beyond them is \<open>None\<close>.
  A result array that a branch does not write keeps what it held, so it is an argument, too; where
  the code may read its own arrays before it writes them their old contents are arguments.
\<close>

unbundle bit_operations_syntax

type_synonym bigint_digit = u32
type_synonym bigint_half_digit = u16
type_synonym bigint = "bigint_digit list"

definition BIGINT_DIGIT_BITS :: nat where [simp]: "BIGINT_DIGIT_BITS = 32"
definition BIGINT_HALF_DIGIT_BITS :: nat where [simp]: "BIGINT_HALF_DIGIT_BITS = 16"
definition BIGINT_DIGIT_BYTES :: nat where [simp]: "BIGINT_DIGIT_BYTES = 4"
definition MAX_BIGINT_DIGIT :: bigint_digit where [simp]: "MAX_BIGINT_DIGIT = 0xffffffff"
definition LOW_MASK :: bigint_digit where [simp]: "LOW_MASK = 0x0000ffff"
definition MAX_BIGINT_DIGITS :: nat where [simp]: "MAX_BIGINT_DIGITS = (512 + 4 - 1) div 4 + 1"
definition MAX_ECC_DIGITS :: nat where [simp]: "MAX_ECC_DIGITS = 8"

definition LOWER_HALF :: "bigint_digit \<Rightarrow> bigint_digit" where
  "LOWER_HALF x = x AND LOW_MASK"

definition HIGHER_HALF :: "bigint_digit \<Rightarrow> bigint_digit" where
  "HIGHER_HALF x = drop_bit BIGINT_HALF_DIGIT_BITS x AND LOW_MASK"

definition TO_HIGHER_HALF :: "bigint_digit \<Rightarrow> bigint_digit" where
  "TO_HIGHER_HALF x = push_bit BIGINT_HALF_DIGIT_BITS x"

definition BIGINT_DIGIT_2MSBS :: "bigint_digit \<Rightarrow> bigint_digit" where
  "BIGINT_DIGIT_2MSBS x = drop_bit (BIGINT_DIGIT_BITS - 2) x AND 3"

section \<open>Digits\<close>

definition bigint_digit_mult :: "bigint_digit \<Rightarrow> bigint_digit \<Rightarrow> bigint_digit \<times> bigint_digit" where
  "bigint_digit_mult b c =
     (let llres = (ucast b :: u64) * ucast c
      in (ucast (llres AND 0xffffffff), ucast (drop_bit 32 llres)))"

text \<open>The loops go over the digits of \<open>b\<close> and \<open>d\<close>; \<open>a\<close> is what they write.\<close>

fun add_digit_mult :: "bigint_digit \<Rightarrow> bigint_digit \<Rightarrow> bigint \<Rightarrow> bigint \<Rightarrow> bigint \<times> bigint_digit" where
  "add_digit_mult c carry (b # bs) (d # ds) =
     (let (t0, t1) = bigint_digit_mult c d;
          a = b + carry;
          carry = (if a < carry then 1 else 0);
          a = a + t0;
          carry = (if a < t0 then carry + 1 else carry);
          (as, out) = add_digit_mult c (carry + t1) bs ds
      in (a # as, out))"
| "add_digit_mult c carry _ _ = ([], carry)"

definition bigint_add_digit_mult ::
  "bigint \<Rightarrow> bigint \<Rightarrow> bigint_digit \<Rightarrow> bigint \<Rightarrow> bigint \<times> bigint_digit" where
  "bigint_add_digit_mult a b c d = (if c = 0 then (a, 0) else add_digit_mult c 0 b d)"

fun sub_digit_mult :: "bigint_digit \<Rightarrow> bigint_digit \<Rightarrow> bigint \<Rightarrow> bigint \<Rightarrow> bigint \<times> bigint_digit" where
  "sub_digit_mult c borrow (b # bs) (d # ds) =
     (let (t0, t1) = bigint_digit_mult c d;
          a = b - borrow;
          borrow = (if a > MAX_BIGINT_DIGIT - borrow then 1 else 0);
          a = a - t0;
          borrow = (if a > MAX_BIGINT_DIGIT - t0 then borrow + 1 else borrow);
          (as, out) = sub_digit_mult c (borrow + t1) bs ds
      in (a # as, out))"
| "sub_digit_mult c borrow _ _ = ([], borrow)"

definition bigint_sub_digit_mult ::
  "bigint \<Rightarrow> bigint \<Rightarrow> bigint_digit \<Rightarrow> bigint \<Rightarrow> bigint \<times> bigint_digit" where
  "bigint_sub_digit_mult a b c d = (if c = 0 then (a, 0) else sub_digit_mult c 0 b d)"

text \<open>\<open>n\<close> turns are left of the loop.\<close>

fun digit_bits :: "nat \<Rightarrow> bigint_digit \<Rightarrow> nat" where
  "digit_bits 0 a = 0"
| "digit_bits (Suc n) a = (if a = 0 then 0 else Suc (digit_bits n (drop_bit 1 a)))"

definition bigint_digit_bits :: "bigint_digit \<Rightarrow> nat" where
  "bigint_digit_bits a = digit_bits BIGINT_DIGIT_BITS a"

text \<open>
  A pair of digits by a digit. The pair is \<open>(t0, t1)\<close>; the two loops correct the estimates of the two
  halves of the quotient.
\<close>

partial_function (option) correct_high ::
  "bigint_half_digit \<Rightarrow> bigint_half_digit \<Rightarrow> bigint_half_digit \<Rightarrow> bigint_digit \<Rightarrow> bigint_digit \<Rightarrow>
    (bigint_half_digit \<times> bigint_digit \<times> bigint_digit) option" where
  "correct_high c_high c_low a_high t0 t1 =
     (if t1 > ucast c_high \<or> (t1 = ucast c_high \<and> t0 \<ge> TO_HIGHER_HALF (ucast c_low))
      then (let t0' = t0 - TO_HIGHER_HALF (ucast c_low);
                t1' = (if t0' > MAX_BIGINT_DIGIT - TO_HIGHER_HALF (ucast c_low) then t1 - 1 else t1)
            in correct_high c_high c_low (a_high + 1) t0' (t1' - ucast c_high))
      else Some (a_high, t0, t1))"

partial_function (option) correct_low ::
  "bigint_digit \<Rightarrow> bigint_half_digit \<Rightarrow> bigint_digit \<Rightarrow> bigint_digit \<Rightarrow> bigint_half_digit option" where
  "correct_low c a_low t0 t1 =
     (if t1 > 0 \<or> (t1 = 0 \<and> t0 \<ge> c)
      then (let t0' = t0 - c; t1' = (if t0' > MAX_BIGINT_DIGIT - c then t1 - 1 else t1)
            in correct_low c (a_low + 1) t0' t1')
      else Some a_low)"

definition bigint_digit_div :: "bigint_digit \<Rightarrow> bigint_digit \<Rightarrow> bigint_digit \<Rightarrow> bigint_digit option" where
  "bigint_digit_div b0 b1 c =
     (let c_high = ucast (HIGHER_HALF c) :: u16; c_low = ucast (LOWER_HALF c) :: u16;
          a_high = (if ucast c_high = LOW_MASK then ucast (HIGHER_HALF b1)
                    else ucast (b1 div (ucast c_high + 1))) :: u16;
          u = ucast a_high * ucast c_low :: bigint_digit; v = ucast a_high * ucast c_high;
          t0 = b0 - TO_HIGHER_HALF u;
          t1 = (if t0 > MAX_BIGINT_DIGIT - TO_HIGHER_HALF u then b1 - 1 else b1) - HIGHER_HALF u - v
      in do {
        (a_high, t0, t1) \<leftarrow> correct_high c_high c_low a_high t0 t1;
        let a_low = (if ucast c_high = LOW_MASK then ucast (LOWER_HALF t1)
                     else ucast ((TO_HIGHER_HALF t1 + HIGHER_HALF t0) div (ucast c_high + 1)) :: u16);
        let u = ucast a_low * ucast c_low;
        let v = ucast a_low * ucast c_high;
        let t0' = t0 - u;
        let t1' = (if t0' > MAX_BIGINT_DIGIT - u then t1 - 1 else t1);
        let t0'' = t0' - TO_HIGHER_HALF v;
        let t1'' = (if t0'' > MAX_BIGINT_DIGIT - TO_HIGHER_HALF v then t1' - 1 else t1') - HIGHER_HALF v;
        a_low \<leftarrow> correct_low c a_low t0'' t1'';
        Some (TO_HIGHER_HALF (ucast a_high) + ucast a_low) })"

section \<open>Arrays of digits\<close>

definition bigint_copy :: "bigint \<Rightarrow> bigint" where
  "bigint_copy b = b"

definition bigint_zero :: "nat \<Rightarrow> bigint" where
  "bigint_zero digits = replicate digits 0"

definition BIGINT_ASSIGN_DIGIT :: "bigint_digit \<Rightarrow> nat \<Rightarrow> bigint" where
  "BIGINT_ASSIGN_DIGIT b digits = (bigint_zero digits)[0 := b]"

fun add_digits :: "bigint_digit \<Rightarrow> bigint \<Rightarrow> bigint \<Rightarrow> bigint \<times> bigint_digit" where
  "add_digits carry (b # bs) (c # cs) =
     (let ai = b + carry;
          (ai, carry) = (if ai < carry then (c, carry)
                         else let ai = ai + c in (ai, if ai < c then 1 else 0));
          (as, out) = add_digits carry bs cs
      in (ai # as, out))"
| "add_digits carry _ _ = ([], carry)"

definition bigint_add :: "bigint \<Rightarrow> bigint \<Rightarrow> bigint \<times> bigint_digit" where
  "bigint_add b c = add_digits 0 b c"

fun sub_digits :: "bigint_digit \<Rightarrow> bigint \<Rightarrow> bigint \<Rightarrow> bigint \<times> bigint_digit" where
  "sub_digits borrow (b # bs) (c # cs) =
     (let ai = b - borrow;
          (ai, borrow) = (if ai > MAX_BIGINT_DIGIT - borrow then (MAX_BIGINT_DIGIT - c, borrow)
                          else let ai = ai - c in (ai, if ai > MAX_BIGINT_DIGIT - c then 1 else 0));
          (as, out) = sub_digits borrow bs cs
      in (ai # as, out))"
| "sub_digits borrow _ _ = ([], borrow)"

definition bigint_sub :: "bigint \<Rightarrow> bigint \<Rightarrow> bigint \<times> bigint_digit" where
  "bigint_sub b c = sub_digits 0 b c"

text \<open>The loops that start at the most significant digit: \<open>digits\<close> are left.\<close>

fun bigint_digits :: "bigint \<Rightarrow> nat \<Rightarrow> nat" where
  "bigint_digits a 0 = 0"
| "bigint_digits a (Suc i) = (if a ! i \<noteq> 0 then Suc i else bigint_digits a i)"

fun bigint_cmp :: "bigint \<Rightarrow> bigint \<Rightarrow> nat \<Rightarrow> int" where
  "bigint_cmp a b 0 = 0"
| "bigint_cmp a b (Suc i) = (if a ! i > b ! i then 1 else if a ! i < b ! i then - 1 else bigint_cmp a b i)"

definition bigint_iszero :: "bigint \<Rightarrow> bool" where
  "bigint_iszero a = list_all (\<lambda>d. d = 0) a"

fun left_shift :: "nat \<Rightarrow> bigint_digit \<Rightarrow> bigint \<Rightarrow> bigint \<times> bigint_digit" where
  "left_shift c carry (b # bs) =
     (let (as, out) = left_shift c (if c \<noteq> 0 then drop_bit (BIGINT_DIGIT_BITS - c) b else 0) bs
      in ((push_bit c b OR carry) # as, out))"
| "left_shift c carry [] = ([], carry)"

definition bigint_left_shift :: "bigint \<Rightarrow> bigint \<Rightarrow> nat \<Rightarrow> bigint \<times> bigint_digit" where
  "bigint_left_shift a b c = (if c \<ge> BIGINT_DIGIT_BITS then (a, 0) else left_shift c 0 b)"

text \<open>From the top: the digits in reverse.\<close>

fun right_shift :: "nat \<Rightarrow> bigint_digit \<Rightarrow> bigint \<Rightarrow> bigint" where
  "right_shift c carry (b # bs) =
     (drop_bit c b OR carry) # right_shift c (if c \<noteq> 0 then push_bit (BIGINT_DIGIT_BITS - c) b else 0) bs"
| "right_shift c carry [] = []"

definition bigint_right_shift :: "bigint \<Rightarrow> bigint \<Rightarrow> nat \<Rightarrow> bigint" where
  "bigint_right_shift a b c = (if c \<ge> BIGINT_DIGIT_BITS then a else rev (right_shift c 0 (rev b)))"

text \<open>The digits from \<open>i\<close> on, and putting them there.\<close>

definition digits_at :: "bigint \<Rightarrow> nat \<Rightarrow> nat \<Rightarrow> bigint" where
  "digits_at a i n = take n (drop i a)"

definition put_digits :: "bigint \<Rightarrow> nat \<Rightarrow> bigint \<Rightarrow> bigint" where
  "put_digits a i b = take i a @ b @ drop (i + length b) a"

section \<open>Multiplication\<close>

text \<open>Row \<open>i\<close> adds \<open>b[i] * c\<close> at position \<open>i\<close>.\<close>

fun mult_rows :: "bigint \<Rightarrow> bigint \<Rightarrow> nat \<Rightarrow> bigint \<Rightarrow> bigint" where
  "mult_rows c (b # bs) i res =
     (let w = digits_at res i (length c); (r, carry) = bigint_add_digit_mult w w b c;
          res = put_digits res i r
      in mult_rows c bs (Suc i) (res[i + length c := res ! (i + length c) + carry]))"
| "mult_rows c [] i res = res"

definition bigint_mult :: "bigint \<Rightarrow> bigint \<Rightarrow> nat \<Rightarrow> bigint option" where
  "bigint_mult b c digits =
     (if MAX_BIGINT_DIGITS < digits then None
      else let b_digits = bigint_digits b digits; c_digits = bigint_digits c digits
           in Some (bigint_copy (mult_rows (take c_digits c) (take b_digits b) 0 (bigint_zero (2 * digits)))))"

section \<open>Division\<close>

text \<open>Correcting a digit of the quotient: \<open>cc\<close> is the dividend, at position \<open>i\<close>.\<close>

partial_function (option) correct_digit ::
  "bigint \<Rightarrow> nat \<Rightarrow> bigint_digit \<Rightarrow> bigint \<Rightarrow> (bigint_digit \<times> bigint) option" where
  "correct_digit dd i ai cc =
     (if cc ! (i + length dd) \<noteq> 0 \<or> bigint_cmp (digits_at cc i (length dd)) dd (length dd) \<ge> 0
      then (let (w, borrow) = bigint_sub (digits_at cc i (length dd)) dd; cc = put_digits cc i w
            in correct_digit dd i (ai + 1) (cc[i + length dd := cc ! (i + length dd) - borrow]))
      else Some (ai, cc))"

definition quotient_digit :: "bigint \<Rightarrow> nat \<Rightarrow> bigint \<Rightarrow> (bigint_digit \<times> bigint) option" where
  "quotient_digit dd i cc = do {
     let n = length dd; let t = dd ! (n - 1);
     ai \<leftarrow> (if t = MAX_BIGINT_DIGIT then Some (cc ! (i + n))
           else bigint_digit_div (cc ! (i + n - 1)) (cc ! (i + n)) (t + 1));
     let w = digits_at cc i n; let (w, borrow) = bigint_sub_digit_mult w w ai dd;
     let cc = put_digits cc i w;
     correct_digit dd i ai (cc[i + n := cc ! (i + n) - borrow]) }"

fun div_loop :: "bigint \<Rightarrow> nat \<Rightarrow> bigint \<Rightarrow> bigint \<Rightarrow> (bigint \<times> bigint) option" where
  "div_loop dd 0 a cc = Some (a, cc)"
| "div_loop dd (Suc i) a cc = do {
     (ai, cc) \<leftarrow> quotient_digit dd i cc;
     div_loop dd i (a[i := ai]) cc }"

text \<open>The quotient and the remainder; \<open>a\<close> and \<open>b\<close> are kept when \<open>d\<close> is zero.\<close>

definition bigint_div :: "bigint \<Rightarrow> bigint \<Rightarrow> bigint \<Rightarrow> bigint \<Rightarrow> (bigint \<times> bigint) option" where
  "bigint_div a b c d =
     (let c_digits = length c; d_digits = length d; dd_digits = bigint_digits d d_digits
      in if dd_digits = 0 then Some (a, b)
         else if 2 * MAX_BIGINT_DIGITS < c_digits \<or> MAX_BIGINT_DIGITS < dd_digits then None
         else let shift = BIGINT_DIGIT_BITS - bigint_digit_bits (d ! (dd_digits - 1));
                  cc = bigint_zero (max dd_digits (c_digits + 1));
                  (w, carry) = bigint_left_shift (take c_digits cc) c shift;
                  cc = (put_digits cc 0 w)[c_digits := carry];
                  dd = fst (bigint_left_shift (bigint_zero dd_digits) (take dd_digits d) shift)
              in do {
                (a, cc) \<leftarrow> div_loop dd (c_digits + 1 - dd_digits) (bigint_zero c_digits) cc;
                Some (a, put_digits (bigint_zero d_digits) 0
                  (bigint_right_shift (bigint_zero dd_digits) (take dd_digits cc) shift)) })"

definition bigint_mod :: "bigint \<Rightarrow> bigint \<Rightarrow> bigint \<Rightarrow> bigint option" where
  "bigint_mod a b c = map_option snd (bigint_div [] a b c)"

definition bigint_mod_mult :: "bigint \<Rightarrow> bigint \<Rightarrow> bigint \<Rightarrow> bigint \<Rightarrow> bigint option" where
  "bigint_mod_mult a b c d = do {
     t \<leftarrow> bigint_mult b c (length d);
     bigint_mod a t d }"

section \<open>Modular powers\<close>

text \<open>
  How often each pair of bits occurs, in the lowest digit of the exponent; \<open>n\<close> pairs are left.
\<close>

fun count_pairs :: "nat \<Rightarrow> bigint_digit \<Rightarrow> u32 list \<Rightarrow> u32 list" where
  "count_pairs 0 e need = need"
| "count_pairs (Suc n) e need =
     (let set_bits = unat (e AND 3) in count_pairs n (drop_bit 2 e) (need[set_bits := need ! set_bits + 1]))"

definition needed_powers :: "bigint_digit \<Rightarrow> u32 list" where
  "needed_powers e = (let need = count_pairs 16 e [1, 1, 0, 0] in if need ! 3 > 0 then need[2 := 1] else need)"

partial_function (option) skip_zero_pairs :: "bigint_digit \<Rightarrow> nat \<Rightarrow> (bigint_digit \<times> nat) option" where
  "skip_zero_pairs ci ci_bits =
     (if BIGINT_DIGIT_2MSBS ci = 0 then skip_zero_pairs (push_bit 2 ci) (ci_bits - 2) else Some (ci, ci_bits))"

text \<open>\<open>n\<close> pairs of bits of the digit are left.\<close>

fun exp_pairs :: "bigint list \<Rightarrow> bigint \<Rightarrow> nat \<Rightarrow> bigint_digit \<Rightarrow> bigint \<Rightarrow> bigint option" where
  "exp_pairs b_power d 0 ci tt = Some tt"
| "exp_pairs b_power d (Suc n) ci tt = do {
     tt \<leftarrow> bigint_mod_mult tt tt tt d;
     tt \<leftarrow> bigint_mod_mult tt tt tt d;
     let s = unat (BIGINT_DIGIT_2MSBS ci);
     tt \<leftarrow> (if s \<noteq> 0 then bigint_mod_mult tt tt (b_power ! (s - 1)) d else Some tt);
     exp_pairs b_power d n (push_bit 2 ci) tt }"

fun exp_digits :: "bigint list \<Rightarrow> bigint \<Rightarrow> bigint \<Rightarrow> nat \<Rightarrow> nat \<Rightarrow> bigint \<Rightarrow> bigint option" where
  "exp_digits b_power d c c_digits 0 tt = Some tt"
| "exp_digits b_power d c c_digits (Suc i) tt = do {
     (ci, ci_bits) \<leftarrow> (if Suc i = c_digits then skip_zero_pairs (c ! i) BIGINT_DIGIT_BITS
                        else Some (c ! i, BIGINT_DIGIT_BITS));
     tt \<leftarrow> exp_pairs b_power d (ci_bits div 2) ci tt;
     exp_digits b_power d c c_digits i tt }"

text \<open>\<open>stack\<close> is what the three arrays of powers hold at first.\<close>

definition bigint_mod_exp :: "bigint list \<Rightarrow> bigint \<Rightarrow> bigint \<Rightarrow> bigint \<Rightarrow> bigint option" where
  "bigint_mod_exp stack b c d =
     (if MAX_BIGINT_DIGITS < length d then None
      else do {
        let need = needed_powers (c ! 0);
        let p0 = bigint_copy b;
        p1 \<leftarrow> (if need ! 2 > 0 then bigint_mod_mult (stack ! 1) p0 b d else Some (stack ! 1));
        p2 \<leftarrow> (if need ! 3 > 0 then bigint_mod_mult (stack ! 2) p1 b d else Some (stack ! 2));
        let c_digits = bigint_digits c (length c);
        tt \<leftarrow> exp_digits [p0, p1, p2] d c c_digits c_digits (BIGINT_ASSIGN_DIGIT 1 (length d));
        Some (bigint_copy tt) })"

section \<open>Modular inverse\<close>

partial_function (option) inv_loop ::
  "bigint \<Rightarrow> bigint \<Rightarrow> bigint \<Rightarrow> bigint \<Rightarrow> int \<Rightarrow> (bigint \<times> int) option" where
  "inv_loop u1 v1 u3 v3 u1_sign =
     (if bigint_iszero v3 then Some (u1, u1_sign)
      else Option.bind (bigint_div [] [] u3 v3) (\<lambda>(q, t3).
        Option.bind (bigint_mult q v1 (length v3)) (\<lambda>w.
          let t1 = fst (bigint_add u1 (take (length v3) w))
          in inv_loop (bigint_copy v1) (bigint_copy t1) (bigint_copy v3) (bigint_copy t3) (- u1_sign))))"

definition bigint_mod_inv :: "bigint \<Rightarrow> bigint \<Rightarrow> bigint option" where
  "bigint_mod_inv b c =
     (let digits = length c
      in if MAX_ECC_DIGITS < digits then None
         else do {
           (u1, u1_sign) \<leftarrow> inv_loop (BIGINT_ASSIGN_DIGIT 1 digits) (bigint_zero digits) (bigint_copy b) (bigint_copy c) 1;
           Some (if u1_sign < 0 then fst (bigint_sub c u1) else bigint_copy u1) })"

section \<open>Octet strings\<close>

text \<open>\<open>convrsa.c\<close>. The strings are read from their ends; \<open>u\<close> is the shift.\<close>

fun or_octets :: "nat \<Rightarrow> bigint_digit \<Rightarrow> buffer \<Rightarrow> bigint_digit" where
  "or_octets u t [] = t"
| "or_octets u t (b # bs) = or_octets (u + 8) (t OR push_bit u (ucast b)) bs"

fun os2ip_digits :: "nat \<Rightarrow> buffer \<Rightarrow> bigint" where
  "os2ip_digits 0 bs = []"
| "os2ip_digits (Suc n) bs = or_octets 0 0 (take 4 bs) # os2ip_digits n (drop 4 bs)"

definition OS2IP :: "nat \<Rightarrow> buffer \<Rightarrow> bigint" where
  "OS2IP digits b = os2ip_digits digits (rev b)"

definition digit_octets :: "bigint_digit \<Rightarrow> buffer" where
  "digit_octets t = map (\<lambda>u. ucast (drop_bit u t)) [0, 8, 16, 24]"

definition I2OSP :: "nat \<Rightarrow> bigint \<Rightarrow> buffer" where
  "I2OSP len b = rev (take len (concat (map digit_octets b) @ replicate len 0))"

end
