(* ===== verification/Csl_Bigint_Correct.thy ===== *)
theory Csl_Bigint_Correct
  imports Csl_Bigint
begin

text \<open>
  What the arrays of digits stand for, and that the loops of \<open>Csl_Bigint\<close> add, subtract, multiply,
  shift and compare these numbers, carries and borrows included.
\<close>

section \<open>The value of a number\<close>

fun bigval :: "bigint \<Rightarrow> nat" where
  "bigval [] = 0"
| "bigval (d # ds) = unat d + 2 ^ 32 * bigval ds"

lemma unat_digit: "unat (d :: u32) < 2 ^ 32"
  using unsigned_less [of d] by simp

lemma bigval_append: "bigval (a @ b) = bigval a + 2 ^ (32 * length a) * bigval b"
  by (induction a) (simp_all add: algebra_simps power_add)

lemma bigval_less: "bigval a < 2 ^ (32 * length a)"
proof (induction a)
  case (Cons d a)
  have "unat d + 2 ^ 32 * bigval a < 2 ^ 32 * (bigval a + 1)" using unat_digit [of d] by simp
  also have "\<dots> \<le> 2 ^ 32 * 2 ^ (32 * length a)" using Cons by (intro mult_le_mono2) simp
  finally show ?case by (simp add: power_add)
qed simp

lemma bigval_zeros [simp]: "bigval (replicate n 0) = 0"
  by (induction n) simp_all

lemma bigval_take_drop: "bigval a = bigval (take n a) + 2 ^ (32 * min n (length a)) * bigval (drop n a)"
  using bigval_append [of "take n a" "drop n a"] by (simp add: min.commute)

lemma bigval_inject: "length a = length b \<Longrightarrow> bigval a = bigval b \<longleftrightarrow> a = b"
proof (induction a b rule: list_induct2)
  case (Cons x a y b)
  have "unat x = unat y \<and> bigval a = bigval b" if "bigval (x # a) = bigval (y # b)"
  proof -
    have "(unat x + 2 ^ 32 * bigval a) mod 2 ^ 32 = (unat y + 2 ^ 32 * bigval b) mod 2 ^ 32" using that by simp
    then have "unat x = unat y" using unat_digit [of x] unat_digit [of y] by simp
    then show ?thesis using that by simp
  qed
  then show ?case using Cons by (auto simp: word_unat_eq_iff)
qed simp

section \<open>Carries\<close>

lemma unat_add_carry:
  fixes a b :: u32
  shows "unat a + unat b = unat (a + b) + 2 ^ 32 * (if a + b < b then 1 else 0)"
proof -
  have "unat (a + b) = (unat a + unat b) mod 2 ^ 32" by (simp add: unat_word_ariths)
  moreover have "(unat a + unat b) mod 2 ^ 32 = (if unat a + unat b < 2 ^ 32 then unat a + unat b else unat a + unat b - 2 ^ 32)"
    using unat_digit [of a] unat_digit [of b] by (simp add: le_mod_geq)
  ultimately show ?thesis using unat_digit [of a] unat_digit [of b] by (auto simp: word_less_nat_alt split: if_splits)
qed

lemma unat_sub_borrow:
  fixes a b :: u32
  shows "unat (a - b) + unat b = unat a + 2 ^ 32 * (if a - b > MAX_BIGINT_DIGIT - b then 1 else 0)"
proof -
  have m: "unat (MAX_BIGINT_DIGIT - b) = 2 ^ 32 - 1 - unat b"
    using unat_digit [of b] by (subst unat_sub) (simp_all add: word_le_nat_alt)
  show ?thesis
  proof (cases "b \<le> a")
    case True
    then show ?thesis using unat_sub [OF True] m unat_digit [of a] unat_digit [of b]
      by (simp add: word_le_nat_alt word_less_nat_alt del: MAX_BIGINT_DIGIT_def)
  next
    case False
    then have "unat (a - b) = 2 ^ 32 + unat a - unat b"
      using unat_digit [of a] unat_digit [of b] by (simp add: unat_sub_if' word_le_nat_alt)
    then show ?thesis using False m unat_digit [of a] unat_digit [of b]
      by (simp add: word_le_nat_alt word_less_nat_alt del: MAX_BIGINT_DIGIT_def)
  qed
qed

lemma unat_ucast_digit: "unat (ucast (d :: u32) :: u64) = unat d"
  using unat_digit [of d] by (simp add: unsigned_ucast_eq take_bit_nat_eq_self)

lemma bigint_digit_mult_value:
  assumes "bigint_digit_mult b c = (t0, t1)"
  shows "unat t0 + 2 ^ 32 * unat t1 = unat b * unat c"
proof -
  define l where "l = (ucast b :: u64) * ucast c"
  have lt: "unat b * unat c < 2 ^ 64"
    using mult_strict_mono' [OF unat_digit [of b] unat_digit [of c]] by simp
  then have l: "unat l = unat b * unat c"
    by (simp add: l_def unat_word_ariths unat_ucast_digit)
  have "l AND 0xffffffff = take_bit 32 l" by (simp add: take_bit_eq_mask mask_numeral)
  then have "t0 = ucast (take_bit 32 l)" using assms by (simp add: bigint_digit_mult_def Let_def l_def)
  then have "unat t0 = unat l mod 2 ^ 32"
    by (simp add: unsigned_ucast_eq unsigned_take_bit_eq take_bit_nat_def)
  moreover have "t1 = ucast (drop_bit 32 l)" using assms by (simp add: bigint_digit_mult_def Let_def l_def)
  then have "unat t1 = take_bit 32 (unat l div 2 ^ 32)"
    using lt l by (simp only: unsigned_ucast_eq unsigned_drop_bit_eq drop_bit_nat_def) (simp add: take_bit_nat_eq_self)
  then have "unat t1 = unat l div 2 ^ 32" using lt l by (simp add: take_bit_nat_eq_self less_mult_imp_div_less)
  ultimately show ?thesis using l by simp
qed

section \<open>Adding and subtracting\<close>

lemma small_carry: "carry \<in> {0, 1} \<Longrightarrow> unat (carry :: u32) \<le> 1"
  by auto

text \<open>One digit: what the two ways of computing it have in common.\<close>

lemma add_digit_value:
  fixes b c carry :: u32
  assumes "carry \<in> {0, 1}" and "(ai, carry') = (if b + carry < carry then (c, carry)
    else (b + carry + c, if b + carry + c < c then 1 else 0))"
  shows "unat ai + 2 ^ 32 * unat carry' = unat b + unat c + unat carry" and "carry' \<in> {0, 1}"
  using assms unat_add_carry [of b carry] unat_add_carry [of "b + carry" c]
  by (auto split: if_splits)

lemma add_digits_value:
  assumes "length b = length c" and "carry \<in> {0, 1}" and "add_digits carry b c = (a, out)"
  shows "bigval a + 2 ^ (32 * length b) * unat out = bigval b + bigval c + unat carry \<and>
    length a = length b \<and> out \<in> {0, 1}"
  using assms
proof (induction b c arbitrary: carry a out rule: list_induct2)
  case (Cons x b y c)
  obtain ai carry' as where ai: "(ai, carry') = (if x + carry < carry then (y, carry)
      else (x + carry + y, if x + carry + y < y then 1 else 0))" "add_digits carry' b c = (as, out)" "a = ai # as"
    using Cons.prems(2) by (auto simp: Let_def split: prod.splits if_splits)
  note d = add_digit_value [OF _ ai(1)]
  show ?case using Cons.IH [OF d(2) [OF Cons.prems(1)] ai(2)] d(1) [OF Cons.prems(1)] ai(3)
    by (simp add: power_add algebra_simps)
qed simp_all

lemma sub_digit_value:
  fixes b c borrow :: u32
  assumes "borrow \<in> {0, 1}" and "(ai, borrow') = (if b - borrow > MAX_BIGINT_DIGIT - borrow then (MAX_BIGINT_DIGIT - c, borrow)
    else (b - borrow - c, if b - borrow - c > MAX_BIGINT_DIGIT - c then 1 else 0))"
  shows "unat ai + unat c + unat borrow = unat b + 2 ^ 32 * unat borrow'" and "borrow' \<in> {0, 1}"
proof -
  have m: "unat (MAX_BIGINT_DIGIT - c) + unat c = 2 ^ 32 - 1"
    using unat_digit [of c] by (subst unat_sub) (simp_all add: word_le_nat_alt)
  show "unat ai + unat c + unat borrow = unat b + 2 ^ 32 * unat borrow'" and "borrow' \<in> {0, 1}"
    using assms m unat_digit [of "b - borrow"] unat_sub_borrow [of b borrow] unat_sub_borrow [of "b - borrow" c]
    by (auto simp del: MAX_BIGINT_DIGIT_def split: if_splits)
qed

lemma sub_digits_value:
  assumes "length b = length c" and "borrow \<in> {0, 1}" and "sub_digits borrow b c = (a, out)"
  shows "bigval a + bigval c + unat borrow = bigval b + 2 ^ (32 * length b) * unat out \<and>
    length a = length b \<and> out \<in> {0, 1}"
  using assms
proof (induction b c arbitrary: borrow a out rule: list_induct2)
  case (Cons x b y c)
  obtain ai borrow' as where ai: "(ai, borrow') = (if x - borrow > MAX_BIGINT_DIGIT - borrow then (MAX_BIGINT_DIGIT - y, borrow)
      else (x - borrow - y, if x - borrow - y > MAX_BIGINT_DIGIT - y then 1 else 0))"
    "sub_digits borrow' b c = (as, out)" "a = ai # as"
    using Cons.prems(2) by (auto simp: Let_def simp del: MAX_BIGINT_DIGIT_def split: prod.splits if_splits)
  note d = sub_digit_value [OF _ ai(1)]
  show ?case using Cons.IH [OF d(2) [OF Cons.prems(1)] ai(2)] d(1) [OF Cons.prems(1)] ai(3)
    by (simp add: power_add algebra_simps)
qed simp_all

section \<open>Adding and subtracting a multiple\<close>

text \<open>The carry of a row is a digit, and no sum of carries wraps.\<close>

lemma add_digit_mult_step:
  fixes b d c carry t0 t1 :: u32
  assumes m: "unat t0 + 2 ^ 32 * unat t1 = unat c * unat d"
  defines "k \<equiv> (if b + carry < carry then 1 else 0 :: u32)" and "a \<equiv> b + carry + t0"
  defines "k' \<equiv> (if a < t0 then k + 1 else k)"
  shows "unat a + 2 ^ 32 * unat (k' + t1) = unat b + unat c * unat d + unat carry"
proof -
  have k: "unat k' \<le> 2" "unat a + 2 ^ 32 * unat k' = unat b + unat carry + unat t0"
    using unat_add_carry [of b carry] unat_add_carry [of "b + carry" t0]
    by (auto simp: k_def k'_def a_def split: if_splits)
  then have s: "unat a + 2 ^ 32 * (unat k' + unat t1) = unat b + unat c * unat d + unat carry"
    using m by (simp add: algebra_simps)
  have "unat c * unat d \<le> (2 ^ 32 - 1) * (2 ^ 32 - 1)"
    using unat_digit [of c] unat_digit [of d] by (intro mult_le_mono) simp_all
  then have "unat b + unat c * unat d + unat carry < 2 ^ 32 * 2 ^ 32"
    using unat_digit [of b] unat_digit [of carry] by simp
  then have "2 ^ 32 * (unat k' + unat t1) < 2 ^ 32 * 2 ^ 32" using s by linarith
  then have "unat k' + unat t1 < 2 ^ 32" by simp
  then have "unat (k' + t1) = unat k' + unat t1" by (subst unat_add_lem [THEN iffD1]) simp_all
  then show ?thesis using s by simp
qed

lemma add_digit_mult_value:
  assumes "length b = length d" and "add_digit_mult c carry b d = (a, out)"
  shows "bigval a + 2 ^ (32 * length b) * unat out = bigval b + unat c * bigval d + unat carry \<and> length a = length b"
  using assms
proof (induction b d arbitrary: carry a out rule: list_induct2)
  case (Cons x b y d)
  obtain t0 t1 where t: "bigint_digit_mult c y = (t0, t1)" by (cases "bigint_digit_mult c y")
  define k where "k = (if x + carry < carry then 1 else 0 :: u32)"
  define k' where "k' = (if x + carry + t0 < t0 then k + 1 else k)"
  obtain as where as: "add_digit_mult c (k' + t1) b d = (as, out)" "a = (x + carry + t0) # as"
    using Cons.prems t unfolding k'_def k_def by (auto simp: Let_def split: prod.splits)
  have "unat (x + carry + t0) + 2 ^ 32 * unat (k' + t1) = unat x + unat c * unat y + unat carry"
    unfolding k'_def k_def by (rule add_digit_mult_step [OF bigint_digit_mult_value [OF t]])
  then show ?case using Cons.IH [OF as(1)] as(2) by (simp add: power_add algebra_simps)
qed simp

lemma sub_digit_mult_step:
  fixes b d c borrow t0 t1 :: u32
  assumes m: "unat t0 + 2 ^ 32 * unat t1 = unat c * unat d"
  defines "k \<equiv> (if b - borrow > MAX_BIGINT_DIGIT - borrow then 1 else 0 :: u32)" and "a \<equiv> b - borrow - t0"
  defines "k' \<equiv> (if a > MAX_BIGINT_DIGIT - t0 then k + 1 else k)"
  shows "unat a + unat c * unat d + unat borrow = unat b + 2 ^ 32 * unat (k' + t1)"
proof -
  have k: "unat k' \<le> 2" "unat a + unat borrow + unat t0 = unat b + 2 ^ 32 * unat k'"
    using unat_sub_borrow [of b borrow] unat_sub_borrow [of "b - borrow" t0]
    by (auto simp: k_def k'_def a_def simp del: MAX_BIGINT_DIGIT_def split: if_splits)
  then have s: "unat a + unat c * unat d + unat borrow = unat b + 2 ^ 32 * (unat k' + unat t1)"
    using m by (simp add: algebra_simps)
  have "unat c * unat d \<le> (2 ^ 32 - 1) * (2 ^ 32 - 1)"
    using unat_digit [of c] unat_digit [of d] by (intro mult_le_mono) simp_all
  then have "unat a + unat c * unat d + unat borrow < 2 ^ 32 * 2 ^ 32"
    using unat_digit [of a] unat_digit [of borrow] by simp
  then have "2 ^ 32 * (unat k' + unat t1) < 2 ^ 32 * 2 ^ 32" using s by linarith
  then have "unat k' + unat t1 < 2 ^ 32" by simp
  then have "unat (k' + t1) = unat k' + unat t1" by (subst unat_add_lem [THEN iffD1]) simp_all
  then show ?thesis using s by simp
qed

lemma sub_digit_mult_value:
  assumes "length b = length d" and "sub_digit_mult c borrow b d = (a, out)"
  shows "bigval a + unat c * bigval d + unat borrow = bigval b + 2 ^ (32 * length b) * unat out \<and> length a = length b"
  using assms
proof (induction b d arbitrary: borrow a out rule: list_induct2)
  case (Cons x b y d)
  obtain t0 t1 where t: "bigint_digit_mult c y = (t0, t1)" by (cases "bigint_digit_mult c y")
  define k where "k = (if x - borrow > MAX_BIGINT_DIGIT - borrow then 1 else 0 :: u32)"
  define k' where "k' = (if x - borrow - t0 > MAX_BIGINT_DIGIT - t0 then k + 1 else k)"
  obtain as where as: "sub_digit_mult c (k' + t1) b d = (as, out)" "a = (x - borrow - t0) # as"
    using Cons.prems t unfolding k'_def k_def by (auto simp: Let_def simp del: MAX_BIGINT_DIGIT_def split: prod.splits)
  have "unat (x - borrow - t0) + unat c * unat y + unat borrow = unat x + 2 ^ 32 * unat (k' + t1)"
    unfolding k'_def k_def by (rule sub_digit_mult_step [OF bigint_digit_mult_value [OF t]])
  then show ?case using Cons.IH [OF as(1)] as(2) by (simp add: power_add algebra_simps)
qed simp

lemma bigint_add_digit_mult_value:
  assumes "length b = length d" and "bigint_add_digit_mult b b c d = (a, out)"
  shows "bigval a + 2 ^ (32 * length b) * unat out = bigval b + unat c * bigval d" (is ?A) and "length a = length b" (is ?B)
proof -
  have "(c = 0 \<and> a = b \<and> out = 0) \<or> add_digit_mult c 0 b d = (a, out)"
    using assms(2) by (auto simp: bigint_add_digit_mult_def split: if_splits)
  then show ?A and ?B using add_digit_mult_value [OF assms(1), of c 0 a out] by auto
qed

lemma bigint_sub_digit_mult_value:
  assumes "length b = length d" and "bigint_sub_digit_mult b b c d = (a, out)"
  shows "bigval a + unat c * bigval d = bigval b + 2 ^ (32 * length b) * unat out" (is ?A) and "length a = length b" (is ?B)
proof -
  have "(c = 0 \<and> a = b \<and> out = 0) \<or> sub_digit_mult c 0 b d = (a, out)"
    using assms(2) by (auto simp: bigint_sub_digit_mult_def split: if_splits)
  then show ?A and ?B using sub_digit_mult_value [OF assms(1), of c 0 a out] by auto
qed

lemma bigint_add_value:
  assumes "length b = length c" and "bigint_add b c = (a, out)"
  shows "bigval a + 2 ^ (32 * length b) * unat out = bigval b + bigval c" and "length a = length b"
  using add_digits_value [OF assms(1), of 0 a out] assms(2) by (simp_all add: bigint_add_def)

lemma bigint_sub_value:
  assumes "length b = length c" and "bigint_sub b c = (a, out)"
  shows "bigval a + bigval c = bigval b + 2 ^ (32 * length b) * unat out" and "length a = length b"
  using sub_digits_value [OF assms(1), of 0 a out] assms(2) by (simp_all add: bigint_sub_def)

section \<open>The leading digit, comparing\<close>

lemma bigint_digits_le: "bigint_digits a n \<le> n"
  by (induction n) simp_all

lemma bigint_digits_top: "bigint_digits a n = Suc k \<Longrightarrow> a ! k \<noteq> 0"
  by (induction n) (auto split: if_splits)

lemma take_Suc_bigval: "i < length a \<Longrightarrow> bigval (take (Suc i) a) = bigval (take i a) + 2 ^ (32 * i) * unat (a ! i)"
  by (simp add: take_Suc_conv_app_nth bigval_append)

lemma bigint_digits_value: "n \<le> length a \<Longrightarrow> bigval (take (bigint_digits a n) a) = bigval (take n a)"
  by (induction n) (simp_all add: take_Suc_bigval)

lemma bigint_digits_zero: "n \<le> length a \<Longrightarrow> bigint_digits a n = 0 \<longleftrightarrow> bigval (take n a) = 0"
  by (induction n) (auto simp: take_Suc_bigval unat_eq_zero)

lemma bigint_iszero_value: "bigint_iszero a \<longleftrightarrow> bigval a = 0"
  by (induction a) (auto simp: bigint_iszero_def unat_eq_zero)

lemma bigint_cmp_value:
  assumes "n \<le> length a" and "n \<le> length b"
  shows "bigint_cmp a b n = (if bigval (take n a) > bigval (take n b) then 1
    else if bigval (take n a) < bigval (take n b) then - 1 else 0)"
  using assms
proof (induction n)
  case (Suc n)
  let ?A = "bigval (take n a)" and ?B = "bigval (take n b)"
  have lt: "?A < 2 ^ (32 * n)" "?B < 2 ^ (32 * n)"
    using bigval_less [of "take n a"] bigval_less [of "take n b"] Suc.prems by simp_all
  have less: "x + 2 ^ (32 * n) * u < y + 2 ^ (32 * n) * v" if "u < v" "x < 2 ^ (32 * n)" for u v x y :: nat
  proof -
    have "x + 2 ^ (32 * n) * u < 2 ^ (32 * n) * Suc u" using that(2) by simp
    also have "\<dots> \<le> 2 ^ (32 * n) * v" using that(1) by (intro mult_le_mono2) simp
    finally show ?thesis by simp
  qed
  have v: "bigval (take (Suc n) a) = ?A + 2 ^ (32 * n) * unat (a ! n)" "bigval (take (Suc n) b) = ?B + 2 ^ (32 * n) * unat (b ! n)"
    using Suc.prems by (simp_all add: take_Suc_bigval)
  consider "a ! n < b ! n" | "a ! n > b ! n" | "a ! n = b ! n" by (rule linorder_cases)
  then show ?case
  proof cases
    case 1
    then show ?thesis using less [of "unat (a ! n)" "unat (b ! n)" ?A ?B] lt v by (simp add: word_less_nat_alt)
  next
    case 2
    then show ?thesis using less [of "unat (b ! n)" "unat (a ! n)" ?B ?A] lt v by (simp add: word_less_nat_alt)
  next
    case 3
    then show ?thesis using Suc v by simp
  qed
qed simp

section \<open>Multiplication\<close>

lemma mult_rows_value:
  assumes "length w = length c" and "length bs \<le> k"
  shows "bigval (mult_rows c bs (length p) (p @ w @ replicate k 0)) =
      bigval p + 2 ^ (32 * length p) * (bigval w + bigval bs * bigval c) \<and>
    length (mult_rows c bs (length p) (p @ w @ replicate k 0)) = length p + length c + k"
  using assms
proof (induction bs arbitrary: p w k)
  case Nil
  then show ?case by (simp add: bigval_append)
next
  case (Cons b bs)
  then obtain k' where k: "k = Suc k'" by (cases k) auto
  obtain r carry where r: "bigint_add_digit_mult w w b c = (r, carry)" by (cases "bigint_add_digit_mult w w b c")
  note v = bigint_add_digit_mult_value [OF Cons.prems(1) r]
  obtain x w' where x: "r @ [carry] = x # w'" by (cases "r @ [carry]") auto
  have w': "length w' = length c" using arg_cong [OF x, of length] v(2) Cons.prems(1) by simp
  have row: "(put_digits (p @ w @ replicate k 0) (length p) r)[length p + length c :=
      put_digits (p @ w @ replicate k 0) (length p) r ! (length p + length c) + carry] = (p @ [x]) @ w' @ replicate k' 0"
  proof -
    have "put_digits (p @ w @ replicate k 0) (length p) r = (p @ r) @ 0 # replicate k' 0"
      using v(2) k by (simp add: put_digits_def)
    moreover have "length (p @ r) = length p + length c" using v(2) Cons.prems(1) by simp
    ultimately have "(put_digits (p @ w @ replicate k 0) (length p) r)[length p + length c :=
      put_digits (p @ w @ replicate k 0) (length p) r ! (length p + length c) + carry] = p @ (r @ [carry]) @ replicate k' 0"
      by (simp add: list_update_append nth_append)
    then show ?thesis using x by simp
  qed
  have "bigval (x # w') = bigval w + unat b * bigval c"
    using v Cons.prems(1) bigval_append [of r "[carry]"] by (simp add: x)
  then have "2 ^ (32 * length p) * bigval (x # w') = 2 ^ (32 * length p) * (bigval w + unat b * bigval c)" by simp
  then have val: "bigval p + 2 ^ (32 * length p) * (bigval w + bigval (b # bs) * bigval c) =
      bigval (p @ [x]) + 2 ^ (32 * length (p @ [x])) * (bigval w' + bigval bs * bigval c)"
    by (simp add: bigval_append power_add algebra_simps)
  have "mult_rows c (b # bs) (length p) (p @ w @ replicate k 0) =
      mult_rows c bs (length (p @ [x])) ((p @ [x]) @ w' @ replicate k' 0)"
    using r row Cons.prems(1) by (simp add: digits_at_def Let_def)
  then show ?case using Cons.IH [OF w', of k' "p @ [x]"] Cons.prems k val by simp
qed

lemma bigint_mult_value:
  assumes "length b = n" and "length c = n" and "n \<le> MAX_BIGINT_DIGITS"
  obtains a where "bigint_mult b c n = Some a" and "bigval a = bigval b * bigval c" and "length a = 2 * n"
proof -
  let ?b = "take (bigint_digits b n) b" and ?c = "take (bigint_digits c n) c"
  have le: "bigint_digits b n \<le> n" "bigint_digits c n \<le> n" by (rule bigint_digits_le)+
  have v: "bigval ?b = bigval b" "bigval ?c = bigval c" using bigint_digits_value assms by simp_all
  have "bigint_zero (2 * n) = [] @ replicate (length ?c) 0 @ replicate (2 * n - length ?c) 0"
    using le assms by (simp add: bigint_zero_def replicate_add [symmetric])
  then show thesis
    using mult_rows_value [of "replicate (length ?c) 0" ?c ?b "2 * n - length ?c" "[]"] le v assms
    by (intro that [of "mult_rows ?c ?b 0 (bigint_zero (2 * n))"]) (simp_all add: bigint_mult_def bigint_copy_def)
qed

section \<open>Shifts\<close>

lemma push_or_nat: "y < 2 ^ c \<Longrightarrow> push_bit c x OR y = x * 2 ^ c + (y :: nat)"
proof -
  assume "y < 2 ^ c"
  then have "y = take_bit c y" by (simp add: take_bit_nat_eq_self)
  moreover have "push_bit c x AND take_bit c y = 0" by (rule bit_eqI) (auto simp: bit_simps)
  ultimately have "push_bit c x AND y = 0" by simp
  then show ?thesis by (simp add: disjunctive_add_eq_or [symmetric] push_bit_nat_def)
qed

lemma digit_shift:
  fixes b carry :: u32
  assumes c: "c < 32" and carry: "unat carry < 2 ^ c"
  shows "unat (push_bit c b OR carry) + 2 ^ 32 * unat (drop_bit (32 - c) b) = unat b * 2 ^ c + unat carry"
proof -
  have e: "(2 :: nat) ^ 32 = 2 ^ (32 - c) * 2 ^ c" using c by (simp add: power_add [symmetric])
  have "unat (push_bit c b) = (unat b * 2 ^ c) mod 2 ^ 32"
    by (simp add: unsigned_push_bit_eq take_bit_nat_def push_bit_nat_def)
  also have "\<dots> = (unat b mod 2 ^ (32 - c)) * 2 ^ c" unfolding e by (simp add: mod_mult_mult2)
  finally have p: "unat (push_bit c b) = push_bit c (unat b mod 2 ^ (32 - c))" by (simp add: push_bit_nat_def)
  have q: "unat (drop_bit (32 - c) b) = unat b div 2 ^ (32 - c)"
    by (simp only: unsigned_drop_bit_eq drop_bit_nat_def) (simp add: take_bit_nat_eq_self unat_digit [simplified])
  have "unat (push_bit c b OR carry) = (unat b mod 2 ^ (32 - c)) * 2 ^ c + unat carry"
    using push_or_nat [OF carry] by (simp add: unsigned_or_eq p)
  moreover have "unat b * 2 ^ c = (unat b div 2 ^ (32 - c) * 2 ^ (32 - c) + unat b mod 2 ^ (32 - c)) * 2 ^ c"
    by (simp only: div_mult_mod_eq)
  ultimately show ?thesis unfolding q e by (simp only: add_mult_distrib add_mult_distrib2 mult.assoc mult.commute add.assoc add.commute add.left_commute mult.left_commute)
qed

lemma left_shift_value:
  assumes "c < 32" and "unat carry < 2 ^ c" and "left_shift c carry b = (a, out)"
  shows "bigval a + 2 ^ (32 * length b) * unat out = bigval b * 2 ^ c + unat carry \<and> length a = length b"
  using assms(2,3)
proof (induction b arbitrary: carry a out)
  case (Cons x b)
  define k where "k = (if c \<noteq> 0 then drop_bit (32 - c) x else 0)"
  obtain as where as: "left_shift c k b = (as, out)" "a = (push_bit c x OR carry) # as"
    using Cons.prems(2) by (auto simp: k_def split: prod.splits cong: if_cong)
  have "drop_bit 32 x = 0" by (rule bit_word_eqI) (simp add: bit_simps)
  then have k: "k = drop_bit (32 - c) x" by (simp add: k_def)
  note d = digit_shift [OF assms(1) Cons.prems(1), of x]
  have "unat k < 2 ^ c"
    using unat_digit [of x] assms(1)
    by (simp only: k unsigned_drop_bit_eq drop_bit_nat_def)
      (simp add: take_bit_nat_eq_self less_mult_imp_div_less power_add [symmetric])
  from Cons.IH [OF this as(1)] d show ?case
    by (simp add: as(2) k [symmetric] power_add algebra_simps)
qed simp

lemma bigint_left_shift_value:
  assumes "c < 32" and "bigint_left_shift a b c = (a', out)"
  shows "bigval a' + 2 ^ (32 * length b) * unat out = bigval b * 2 ^ c" and "length a' = length b"
  using left_shift_value [OF assms(1), of 0 b a' out] assms by (simp_all add: bigint_left_shift_def)

lemma digit_right_shift:
  fixes b prev :: u32
  assumes c: "0 < c" "c < 32"
  shows "unat (drop_bit c b OR push_bit (32 - c) prev) * 2 ^ c + unat b mod 2 ^ c = unat b + unat prev mod 2 ^ c * 2 ^ 32"
proof -
  have e: "(2 :: nat) ^ 32 = 2 ^ c * 2 ^ (32 - c)" using c by (simp add: power_add [symmetric])
  have "unat (push_bit (32 - c) prev) = (unat prev * 2 ^ (32 - c)) mod 2 ^ 32"
    by (simp add: unsigned_push_bit_eq take_bit_nat_def push_bit_nat_def)
  also have "\<dots> = (unat prev mod 2 ^ c) * 2 ^ (32 - c)" unfolding e by (simp add: mod_mult_mult2)
  finally have p: "unat (push_bit (32 - c) prev) = push_bit (32 - c) (unat prev mod 2 ^ c)" by (simp add: push_bit_nat_def)
  have q: "unat (drop_bit c b) = unat b div 2 ^ c"
    by (simp only: unsigned_drop_bit_eq drop_bit_nat_def) (simp add: take_bit_nat_eq_self unat_digit [simplified])
  have "unat b < 2 ^ (32 - c) * 2 ^ c" using unat_digit [of b] e by (simp add: mult.commute)
  then have "unat b div 2 ^ c < 2 ^ (32 - c)" by (simp add: less_mult_imp_div_less)
  then have "unat (drop_bit c b OR push_bit (32 - c) prev) = (unat prev mod 2 ^ c) * 2 ^ (32 - c) + unat b div 2 ^ c"
    using push_or_nat by (simp add: unsigned_or_eq p q or.commute)
  moreover have "unat b div 2 ^ c * 2 ^ c + unat b mod 2 ^ c = unat b" by (rule div_mult_mod_eq)
  ultimately show ?thesis unfolding e by (simp add: algebra_simps)
qed

lemma right_shift_value:
  assumes c: "0 < c" "c < 32"
  shows "\<exists>lost < 2 ^ c. bigval (rev (right_shift c (push_bit (32 - c) prev) b)) * 2 ^ c + lost =
      bigval (rev b) + unat prev mod 2 ^ c * 2 ^ (32 * length b) \<and>
    length (right_shift c (push_bit (32 - c) prev) b) = length b"
proof (induction b arbitrary: prev)
  case Nil
  show ?case by (rule exI [of _ "unat prev mod 2 ^ c"]) simp
next
  case (Cons x b)
  obtain lost where l: "lost < 2 ^ c" "bigval (rev (right_shift c (push_bit (32 - c) x) b)) * 2 ^ c + lost =
      bigval (rev b) + unat x mod 2 ^ c * 2 ^ (32 * length b)"
    "length (right_shift c (push_bit (32 - c) x) b) = length b"
    using Cons by blast
  have d: "2 ^ (32 * length b) * (unat (drop_bit c x OR push_bit (32 - c) prev) * 2 ^ c + unat x mod 2 ^ c) =
      2 ^ (32 * length b) * (unat x + unat prev mod 2 ^ c * 2 ^ 32)"
    using digit_right_shift [OF c, of x prev] by simp
  show ?case
    using l c(1) d by (intro exI [of _ lost]) (simp add: bigval_append power_add algebra_simps)
qed

lemma bigint_right_shift_value:
  assumes "c < 32"
  shows "bigval (bigint_right_shift a b c) = bigval b div 2 ^ c" and "length (bigint_right_shift a b c) = length b"
proof -
  have same: "right_shift 0 0 xs = xs" for xs by (induction xs) simp_all
  have "bigval (bigint_right_shift a b c) = bigval b div 2 ^ c \<and> length (bigint_right_shift a b c) = length b"
  proof (cases "c = 0")
    case True
    then show ?thesis by (simp add: bigint_right_shift_def same)
  next
    case False
    then obtain lost where l: "lost < 2 ^ c" "bigval (rev (right_shift c 0 (rev b))) * 2 ^ c + lost = bigval b"
      "length (right_shift c 0 (rev b)) = length b"
      using right_shift_value [of c 0 "rev b"] assms by auto
    have "bigval b div 2 ^ c = bigval (rev (right_shift c 0 (rev b)))" unfolding l(2) [symmetric] using l(1) by simp
    then show ?thesis using l(3) assms by (simp add: bigint_right_shift_def)
  qed
  then show "bigval (bigint_right_shift a b c) = bigval b div 2 ^ c" and "length (bigint_right_shift a b c) = length b"
    by simp_all
qed

lemma digit_bits_value:
  assumes "unat a < 2 ^ n"
  shows "digit_bits n a \<le> n \<and> unat a < 2 ^ digit_bits n a \<and> (a \<noteq> 0 \<longrightarrow> 2 ^ digit_bits n a \<le> 2 * unat a)"
  using assms
proof (induction n arbitrary: a)
  case (Suc n)
  have h: "unat (drop_bit 1 a) = unat a div 2"
    by (simp only: unsigned_drop_bit_eq drop_bit_nat_def) (simp add: take_bit_nat_eq_self unat_digit [simplified])
  show ?case
  proof (cases "a = 0")
    case False
    have "unat a div 2 < 2 ^ n" using Suc.prems by simp
    note IH = Suc.IH [of "drop_bit 1 a", unfolded h, OF this]
    have "2 ^ digit_bits n (drop_bit 1 a) \<le> unat a"
    proof (cases "drop_bit 1 a = 0")
      case True
      then have "digit_bits n (drop_bit 1 a) = 0" by (cases n) simp_all
      then show ?thesis using False by (simp add: Suc_le_eq unat_gt_0)
    next
      case nz: False
      then have "2 ^ digit_bits n (drop_bit 1 a) \<le> 2 * (unat a div 2)" using IH by simp
      then show ?thesis by linarith
    qed
    moreover have "unat a < 2 * 2 ^ digit_bits n (drop_bit 1 a)" using IH by linarith
    ultimately show ?thesis using IH False by simp
  qed simp
qed (simp add: unat_eq_zero)

lemma bigint_digit_bits_value:
  assumes "a \<noteq> 0"
  shows "bigint_digit_bits a \<le> 32" and "0 < bigint_digit_bits a"
    and "2 ^ 31 \<le> unat a * 2 ^ (32 - bigint_digit_bits a)" and "unat a * 2 ^ (32 - bigint_digit_bits a) < 2 ^ 32"
proof -
  let ?k = "bigint_digit_bits a"
  have k: "?k \<le> 32" "unat a < 2 ^ ?k" "2 ^ ?k \<le> 2 * unat a"
    using digit_bits_value [OF unat_digit, of a] assms by (simp_all add: bigint_digit_bits_def)
  then show "?k \<le> 32" by simp
  show "0 < ?k"
  proof (rule ccontr)
    assume "\<not> 0 < ?k"
    then show False using k(2) assms by (simp add: unat_eq_zero)
  qed
  have e: "2 ^ 32 = 2 ^ ?k * (2 :: nat) ^ (32 - ?k)" using k(1) by (simp add: power_add [symmetric])
  have "2 ^ 32 \<le> 2 * (unat a * 2 ^ (32 - ?k))"
    unfolding e using mult_le_mono1 [OF k(3), of "2 ^ (32 - ?k)"] by (simp only: mult.assoc)
  then show "2 ^ 31 \<le> unat a * 2 ^ (32 - ?k)" by simp
  show "unat a * 2 ^ (32 - ?k) < 2 ^ 32" unfolding e by (rule mult_strict_right_mono [OF k(2)]) simp
qed

end
