(* ===== verification/Csl_Bigint_Div.thy ===== *)
theory Csl_Bigint_Div
  imports Csl_Bigint_Correct
begin

text \<open>
  Division of \<open>Csl_Bigint\<close>: a pair of digits by a digit in two estimated halves, an array by an array
  in estimated digits; the loops that correct the estimates end and give the exact quotient and
  remainder.
\<close>

section \<open>Pairs of digits\<close>

definition pairval :: "u32 \<Rightarrow> u32 \<Rightarrow> nat" where
  "pairval t0 t1 = unat t0 + 2 ^ 32 * unat t1"

lemma pair_sub:
  assumes "unat x \<le> pairval t0 t1"
  shows "pairval (t0 - x) (if t0 - x > MAX_BIGINT_DIGIT - x then t1 - 1 else t1) + unat x = pairval t0 t1"
proof (cases "t0 - x > MAX_BIGINT_DIGIT - x")
  case True
  then have s: "unat (t0 - x) + unat x = unat t0 + 2 ^ 32" using unat_sub_borrow [of t0 x] by simp
  have "t1 \<noteq> 0"
  proof
    assume "t1 = 0"
    then have "unat x \<le> unat t0" using assms by (simp add: pairval_def)
    then show False using s unat_digit [of "t0 - x"] by simp
  qed
  then have "unat (t1 - 1) = unat t1 - 1" "0 < unat t1" by (simp_all add: unat_minus_one unat_gt_0)
  then show ?thesis using True s by (simp add: pairval_def diff_mult_distrib2 del: MAX_BIGINT_DIGIT_def)
next
  case False
  then show ?thesis using unat_sub_borrow [of t0 x] by (simp add: pairval_def del: MAX_BIGINT_DIGIT_def)
qed

lemma pair_sub_high:
  assumes "2 ^ 32 * unat y \<le> pairval t0 t1"
  shows "pairval t0 (t1 - y) + 2 ^ 32 * unat y = pairval t0 t1"
proof -
  have "2 ^ 32 * unat y < 2 ^ 32 * (unat t1 + 1)" using assms unat_digit [of t0] by (simp add: pairval_def)
  then have "unat y \<le> unat t1" by simp
  then have "unat (t1 - y) = unat t1 - unat y" by (simp add: unat_sub word_le_nat_alt)
  then show ?thesis using \<open>unat y \<le> unat t1\<close> by (simp add: pairval_def diff_mult_distrib2)
qed

lemma half_split: "n * 2 ^ 16 = n mod 2 ^ 16 * 2 ^ 16 + 2 ^ 32 * (n div 2 ^ 16)" for n :: nat
proof -
  have "n * 2 ^ 16 = (n div 2 ^ 16 * 2 ^ 16 + n mod 2 ^ 16) * 2 ^ 16" by (simp only: div_mult_mod_eq)
  then show ?thesis by (simp only: add_mult_distrib) simp
qed

lemma pair_le:
  fixes x h t0 t1 :: nat
  assumes "x < 2 ^ 32" and "t0 < 2 ^ 32"
  shows "h < t1 \<or> t1 = h \<and> x \<le> t0 \<longleftrightarrow> x + 2 ^ 32 * h \<le> t0 + 2 ^ 32 * t1"
proof (cases h t1 rule: linorder_cases)
  case less
  then have "2 ^ 32 * Suc h \<le> 2 ^ 32 * t1" by (intro mult_le_mono2) simp
  then show ?thesis using less assms(1) by simp
next
  case greater
  then have "2 ^ 32 * Suc t1 \<le> 2 ^ 32 * h" by (intro mult_le_mono2) simp
  then show ?thesis using greater assms(2) by simp
qed simp

lemma half_values:
  "unat (HIGHER_HALF x) = unat x div 2 ^ 16" "unat (LOWER_HALF x) = unat x mod 2 ^ 16"
  "unat (TO_HIGHER_HALF x) = unat x mod 2 ^ 16 * 2 ^ 16"
proof -
  have m: "LOW_MASK = mask 16" by (simp add: mask_numeral)
  show l: "unat (LOWER_HALF x) = unat x mod 2 ^ 16" for x
    unfolding LOWER_HALF_def m take_bit_eq_mask [symmetric] by (simp only: unsigned_take_bit_eq take_bit_nat_def)
  have "unat (drop_bit 16 x) = unat x div 2 ^ 16"
    by (simp only: unsigned_drop_bit_eq drop_bit_nat_def) (simp add: take_bit_nat_eq_self unat_digit [simplified])
  moreover have "unat x div 2 ^ 16 < 2 ^ 16" using unat_digit [of x] by (simp add: less_mult_imp_div_less)
  ultimately show "unat (HIGHER_HALF x) = unat x div 2 ^ 16"
    using l [of "drop_bit 16 x"] by (simp add: HIGHER_HALF_def LOWER_HALF_def)
  have "unat (TO_HIGHER_HALF x) = (unat x * 2 ^ 16) mod 2 ^ 32"
    unfolding TO_HIGHER_HALF_def BIGINT_HALF_DIGIT_BITS_def by (simp add: unsigned_push_bit_eq take_bit_nat_def push_bit_nat_def)
  also have "\<dots> = unat x mod 2 ^ 16 * 2 ^ 16" using mod_mult_mult2 [of "unat x" "2 ^ 16" "2 ^ 16"] by simp
  finally show "unat (TO_HIGHER_HALF x) = unat x mod 2 ^ 16 * 2 ^ 16" .
qed

lemma unat_half: "unat (h :: u16) < 2 ^ 16"
  using unsigned_less [of h] by simp

lemma unat_ucast_half: "unat (ucast (h :: u16) :: u32) = unat h"
  using unat_half [of h] by (simp add: unsigned_ucast_eq take_bit_nat_eq_self)

lemma unat_ucast_to_half: "unat (d :: u32) < 2 ^ 16 \<Longrightarrow> unat (ucast d :: u16) = unat d"
  by (simp add: unsigned_ucast_eq take_bit_nat_eq_self)

lemma half_times: "unat (ucast (a :: u16) * ucast (b :: u16) :: u32) = unat a * unat b"
proof -
  have "unat a * unat b < 2 ^ 16 * 2 ^ 16" by (intro mult_strict_mono' unat_half) simp_all
  then show ?thesis by (simp add: unat_word_ariths unat_ucast_half)
qed

text \<open>Subtracting a half digit's multiple, low part first: at the high position, and at the low one.\<close>

lemma sub_at_high:
  assumes "(unat u + 2 ^ 16 * unat v) * 2 ^ 16 \<le> pairval t0 t1"
  shows "pairval (t0 - TO_HIGHER_HALF u)
      ((if t0 - TO_HIGHER_HALF u > MAX_BIGINT_DIGIT - TO_HIGHER_HALF u then t1 - 1 else t1) - HIGHER_HALF u - v) +
    (unat u + 2 ^ 16 * unat v) * 2 ^ 16 = pairval t0 t1"
proof -
  have u: "unat u * 2 ^ 16 = unat (TO_HIGHER_HALF u) + 2 ^ 32 * unat (HIGHER_HALF u)"
    unfolding half_values by (rule half_split)
  let ?t0 = "t0 - TO_HIGHER_HALF u"
  let ?t1 = "if ?t0 > MAX_BIGINT_DIGIT - TO_HIGHER_HALF u then t1 - 1 else t1"
  have a: "pairval ?t0 ?t1 + unat (TO_HIGHER_HALF u) = pairval t0 t1"
    by (rule pair_sub) (use assms u in simp)
  have b: "pairval ?t0 (?t1 - HIGHER_HALF u) + 2 ^ 32 * unat (HIGHER_HALF u) = pairval ?t0 ?t1"
    by (rule pair_sub_high) (use assms u a in simp)
  have "pairval ?t0 (?t1 - HIGHER_HALF u - v) + 2 ^ 32 * unat v = pairval ?t0 (?t1 - HIGHER_HALF u)"
    by (rule pair_sub_high) (use assms u a b in simp)
  then show ?thesis using a b u by simp
qed

lemma sub_at_low:
  assumes "unat u + 2 ^ 16 * unat v \<le> pairval t0 t1"
  defines "s0 \<equiv> t0 - u" and "s1 \<equiv> if t0 - u > MAX_BIGINT_DIGIT - u then t1 - 1 else t1"
  shows "pairval (s0 - TO_HIGHER_HALF v)
      ((if s0 - TO_HIGHER_HALF v > MAX_BIGINT_DIGIT - TO_HIGHER_HALF v then s1 - 1 else s1) - HIGHER_HALF v) +
    (unat u + 2 ^ 16 * unat v) = pairval t0 t1"
proof -
  have v: "2 ^ 16 * unat v = unat (TO_HIGHER_HALF v) + 2 ^ 32 * unat (HIGHER_HALF v)"
    unfolding half_values using half_split [of "unat v"] by (simp only: mult.commute)
  have a: "pairval s0 s1 + unat u = pairval t0 t1"
    unfolding s0_def s1_def by (rule pair_sub) (use assms(1) in simp)
  let ?t0 = "s0 - TO_HIGHER_HALF v"
  let ?t1 = "if ?t0 > MAX_BIGINT_DIGIT - TO_HIGHER_HALF v then s1 - 1 else s1"
  have b: "pairval ?t0 ?t1 + unat (TO_HIGHER_HALF v) = pairval s0 s1"
    by (rule pair_sub) (use assms(1) v a in simp)
  have "pairval ?t0 (?t1 - HIGHER_HALF v) + 2 ^ 32 * unat (HIGHER_HALF v) = pairval ?t0 ?t1"
    by (rule pair_sub_high) (use assms(1) v a b in simp)
  then show ?thesis using a b v by simp
qed

section \<open>A pair by a digit\<close>

lemma correct_high_value:
  fixes ch cl a :: u16
  defines "c \<equiv> unat ch * 2 ^ 16 + unat cl"
  assumes "0 < c" and "unat a + pairval t0 t1 div (c * 2 ^ 16) < 2 ^ 16"
  shows "\<exists>a' s0 s1. correct_high ch cl a t0 t1 = Some (a', s0, s1) \<and>
    unat a' = unat a + pairval t0 t1 div (c * 2 ^ 16) \<and> pairval s0 s1 = pairval t0 t1 mod (c * 2 ^ 16)"
  using assms(3)
proof (induction "pairval t0 t1" arbitrary: a t0 t1 rule: less_induct)
  case less
  let ?x = "TO_HIGHER_HALF (ucast cl)" and ?h = "ucast ch :: u32"
  have x: "unat ?x = unat cl * 2 ^ 16" using unat_half [of cl] by (simp add: half_values unat_ucast_half)
  have h: "unat ?h = unat ch" by (rule unat_ucast_half)
  have cond: "(t1 > ?h \<or> t1 = ?h \<and> t0 \<ge> ?x) \<longleftrightarrow> c * 2 ^ 16 \<le> pairval t0 t1"
  proof -
    have "unat cl * 2 ^ 16 < 2 ^ 32" using unat_half [of cl] by simp
    moreover have "c * 2 ^ 16 = unat cl * 2 ^ 16 + 2 ^ 32 * unat ch" by (simp add: c_def)
    ultimately have "unat t1 > unat ch \<or> unat t1 = unat ch \<and> unat t0 \<ge> unat cl * 2 ^ 16 \<longleftrightarrow> c * 2 ^ 16 \<le> pairval t0 t1"
      using pair_le [OF _ unat_digit [of t0]] by (simp only: pairval_def)
    then show ?thesis using x h by (simp only: word_less_nat_alt word_le_nat_alt word_unat_eq_iff)
  qed
  show ?case
  proof (cases "c * 2 ^ 16 \<le> pairval t0 t1")
    case False
    then have "correct_high ch cl a t0 t1 = Some (a, t0, t1)"
      by (subst correct_high.simps) (simp only: cond if_False)
    then show ?thesis using False by simp
  next
    case True
    let ?t0 = "t0 - ?x"
    let ?t1 = "if ?t0 > MAX_BIGINT_DIGIT - ?x then t1 - 1 else t1"
    have le: "unat cl * 2 ^ 16 + 2 ^ 32 * unat ch \<le> pairval t0 t1" using True by (simp add: c_def)
    have b: "pairval ?t0 ?t1 + unat ?x = pairval t0 t1" by (rule pair_sub) (use le x in linarith)
    have "pairval ?t0 (?t1 - ?h) + 2 ^ 32 * unat ?h = pairval ?t0 ?t1"
      unfolding h by (rule pair_sub_high [of ?h, unfolded h]) (use le x b in linarith)
    then have s: "pairval ?t0 (?t1 - ?h) = pairval t0 t1 - c * 2 ^ 16" using b x h by (simp add: c_def)
    have pos: "0 < c * 2 ^ 16" using assms(2) by simp
    have d: "pairval t0 t1 div (c * 2 ^ 16) = Suc ((pairval t0 t1 - c * 2 ^ 16) div (c * 2 ^ 16))"
      "pairval t0 t1 mod (c * 2 ^ 16) = (pairval t0 t1 - c * 2 ^ 16) mod (c * 2 ^ 16)"
      using True pos by (simp_all add: le_div_geq le_mod_geq)
    have a: "unat (a + 1) = Suc (unat a)" using less.prems d(1) by (simp add: unat_word_ariths)
    have "pairval ?t0 (?t1 - ?h) < pairval t0 t1" using s True pos by linarith
    then obtain a' s0 s1 where r: "correct_high ch cl (a + 1) ?t0 (?t1 - ?h) = Some (a', s0, s1)"
      "unat a' = unat (a + 1) + pairval ?t0 (?t1 - ?h) div (c * 2 ^ 16)"
      "pairval s0 s1 = pairval ?t0 (?t1 - ?h) mod (c * 2 ^ 16)"
      using less.hyps [of ?t0 "?t1 - ?h" "a + 1"] less.prems d(1) a s by auto
    have "correct_high ch cl a t0 t1 = correct_high ch cl (a + 1) ?t0 (?t1 - ?h)"
      by (subst correct_high.simps) (simp only: cond True if_True Let_def)
    then show ?thesis using r d a s by simp
  qed
qed

lemma correct_low_value:
  assumes "0 < unat c" and "unat a + pairval t0 t1 div unat c < 2 ^ 16"
  shows "\<exists>a'. correct_low c a t0 t1 = Some a' \<and> unat a' = unat a + pairval t0 t1 div unat c"
  using assms(2)
proof (induction "pairval t0 t1" arbitrary: a t0 t1 rule: less_induct)
  case less
  have cond: "(t1 > 0 \<or> t1 = 0 \<and> t0 \<ge> c) \<longleftrightarrow> unat c \<le> pairval t0 t1"
  proof -
    have "unat t1 > 0 \<or> unat t1 = 0 \<and> unat t0 \<ge> unat c \<longleftrightarrow> unat c \<le> pairval t0 t1"
      using pair_le [OF unat_digit [of c] unat_digit [of t0], of 0 "unat t1"] by (simp add: pairval_def)
    then show ?thesis by (simp only: word_less_nat_alt word_le_nat_alt word_unat_eq_iff unat_0)
  qed
  show ?case
  proof (cases "unat c \<le> pairval t0 t1")
    case False
    then have "correct_low c a t0 t1 = Some a" by (subst correct_low.simps) (simp only: cond if_False)
    then show ?thesis using False by simp
  next
    case True
    let ?t0 = "t0 - c"
    let ?t1 = "if ?t0 > MAX_BIGINT_DIGIT - c then t1 - 1 else t1"
    have b: "pairval ?t0 ?t1 + unat c = pairval t0 t1" by (rule pair_sub) (rule True)
    then have s: "pairval ?t0 ?t1 = pairval t0 t1 - unat c" by simp
    have d: "pairval t0 t1 div unat c = Suc ((pairval t0 t1 - unat c) div unat c)"
      using True assms(1) by (simp add: le_div_geq)
    have a: "unat (a + 1) = Suc (unat a)" using less.prems d by (simp add: unat_word_ariths)
    have "pairval ?t0 ?t1 < pairval t0 t1" using b assms(1) by linarith
    then obtain a' where r: "correct_low c (a + 1) ?t0 ?t1 = Some a'"
      "unat a' = unat (a + 1) + pairval ?t0 ?t1 div unat c"
      using less.hyps [of ?t0 ?t1 "a + 1"] less.prems d a s by auto
    have "correct_low c a t0 t1 = correct_low c (a + 1) ?t0 ?t1"
      by (subst correct_low.simps) (simp only: cond True if_True Let_def)
    then show ?thesis using r d a s by simp
  qed
qed

text \<open>The estimates: divided by one more than the high half, they are no more than the quotient.\<close>

lemma estimate_le:
  fixes c ch cl n :: nat
  assumes "c = ch * 2 ^ 16 + cl" and "cl < 2 ^ 16"
  shows "n div 2 ^ 16 div (ch + 1) * c \<le> n"
proof -
  have "c \<le> 2 ^ 16 * (ch + 1)" using assms by simp
  then have "n div (2 ^ 16 * (ch + 1)) * c \<le> n div (2 ^ 16 * (ch + 1)) * (2 ^ 16 * (ch + 1))" by (rule mult_le_mono2)
  also have "\<dots> \<le> n" by (rule div_times_less_eq_dividend)
  finally show ?thesis by (simp only: div_mult2_eq)
qed

lemma estimate_less:
  fixes c ch cl n :: nat
  assumes "c = ch * 2 ^ 16 + cl" and "cl < 2 ^ 16" and "n < c * 2 ^ 16"
  shows "n div 2 ^ 16 div (ch + 1) < 2 ^ 16"
proof -
  have "n div 2 ^ 16 < c" using assms(3) by (simp add: less_mult_imp_div_less)
  also have "c < 2 ^ 16 * (ch + 1)" using assms(1,2) by simp
  finally show ?thesis by (simp add: less_mult_imp_div_less)
qed

text \<open>Both ways the code computes an estimate.\<close>

lemma half_estimate:
  fixes ch :: u16 and n m :: u32
  assumes "unat n div (unat ch + 1) < 2 ^ 16" and "unat ch = 2 ^ 16 - 1 \<Longrightarrow> unat m = unat n div 2 ^ 16"
  shows "unat (if ucast ch = LOW_MASK then ucast m else ucast (n div (ucast ch + 1)) :: u16) = unat n div (unat ch + 1)"
proof -
  have l: "(ucast ch :: u32) = LOW_MASK \<longleftrightarrow> unat ch = 2 ^ 16 - 1"
    by (simp add: word_unat_eq_iff unat_ucast_half)
  show ?thesis
  proof (cases "unat ch = 2 ^ 16 - 1")
    case True
    then have "unat m < 2 ^ 16" using assms by simp
    then show ?thesis using True l assms(2) by (simp add: unat_ucast_to_half)
  next
    case False
    have "unat (ucast ch + 1 :: u32) = unat ch + 1"
      using unat_half [of ch] by (simp add: unat_word_ariths unat_ucast_half)
    then have "unat (n div (ucast ch + 1)) = unat n div (unat ch + 1)" by (simp add: unat_div)
    then show ?thesis using False l assms(1) by (simp add: unat_ucast_to_half)
  qed
qed

lemma bigint_digit_div_value:
  assumes b: "unat b1 < unat c" and c: "2 ^ 16 \<le> unat c"
  obtains q where "bigint_digit_div b0 b1 c = Some q" and "unat q = pairval b0 b1 div unat c"
proof -
  define ch cl :: u16 where "ch = ucast (HIGHER_HALF c)" and "cl = ucast (LOWER_HALF c)"
  have hi: "unat c div 2 ^ 16 < 2 ^ 16" using unat_digit [of c] by (simp add: less_mult_imp_div_less)
  have h: "unat ch = unat c div 2 ^ 16" "unat cl = unat c mod 2 ^ 16"
    using hi by (simp_all add: ch_def cl_def unat_ucast_to_half half_values)
  have cc: "unat c = unat ch * 2 ^ 16 + unat cl" unfolding h by (simp only: div_mult_mod_eq)
  define n where "n = pairval b0 b1"
  have n_less: "n < unat c * 2 ^ 16 * 2 ^ 16"
  proof -
    have "n < 2 ^ 32 * (unat b1 + 1)" using unat_digit [of b0] by (simp add: n_def pairval_def)
    also have "\<dots> \<le> 2 ^ 32 * unat c" using b by (intro mult_le_mono2) simp
    finally show ?thesis by simp
  qed
  have high: "n div 2 ^ 32 = unat b1" using unat_digit [of b0] by (simp add: n_def pairval_def)
  \<comment> \<open>the high half\<close>
  define ah where "ah = (if ucast ch = LOW_MASK then ucast (HIGHER_HALF b1) else ucast (b1 div (ucast ch + 1)) :: u16)"
  have ah: "unat ah = unat b1 div (unat ch + 1)"
    unfolding ah_def
  proof (rule half_estimate)
    have "unat b1 < unat c" by (rule b)
    also have "\<dots> < 2 ^ 16 * (unat ch + 1)" using cc unat_half [of cl] by simp
    finally show "unat b1 div (unat ch + 1) < 2 ^ 16" by (simp add: less_mult_imp_div_less)
  qed (simp add: half_values)
  have le1: "unat ah * unat c * 2 ^ 16 \<le> n"
  proof -
    have "n div 2 ^ 16 div 2 ^ 16 = unat b1" using high by (simp add: div_mult2_eq [symmetric])
    then have "unat ah * unat c \<le> n div 2 ^ 16"
      using estimate_le [OF cc unat_half, of "n div 2 ^ 16"] unfolding ah by (simp only:)
    then have "unat ah * unat c * 2 ^ 16 \<le> n div 2 ^ 16 * 2 ^ 16" by (rule mult_le_mono1)
    also have "\<dots> \<le> n" by (rule div_times_less_eq_dividend)
    finally show ?thesis .
  qed
  define u v :: u32 where "u = ucast ah * ucast cl" and "v = ucast ah * ucast ch"
  have uv: "unat u + 2 ^ 16 * unat v = unat ah * unat c"
    by (simp add: u_def v_def half_times cc algebra_simps)
  define t0 t1 where "t0 = b0 - TO_HIGHER_HALF u"
    and "t1 = (if t0 > MAX_BIGINT_DIGIT - TO_HIGHER_HALF u then b1 - 1 else b1) - HIGHER_HALF u - v"
  have t: "pairval t0 t1 + unat ah * unat c * 2 ^ 16 = n"
    using sub_at_high [of u v b0 b1] le1 uv by (simp add: t0_def t1_def n_def)
  have q1: "unat ah + pairval t0 t1 div (unat c * 2 ^ 16) = n div (unat c * 2 ^ 16)"
    "pairval t0 t1 mod (unat c * 2 ^ 16) = n mod (unat c * 2 ^ 16)"
    using c unfolding t [symmetric] by (simp_all add: mult.assoc [of "unat ah"] div_mult_self1 div_add_self1)
  have q1_less: "n div (unat c * 2 ^ 16) < 2 ^ 16" using n_less by (simp add: less_mult_imp_div_less mult.commute)
  obtain a' s0 s1 where s: "correct_high ch cl ah t0 t1 = Some (a', s0, s1)"
    "unat a' = n div (unat c * 2 ^ 16)" "pairval s0 s1 = n mod (unat c * 2 ^ 16)"
    using correct_high_value [of ch cl ah t0 t1, folded cc] q1 q1_less c by auto
  \<comment> \<open>the low half\<close>
  define m where "m = pairval s0 s1"
  have m_less: "m < unat c * 2 ^ 16" using s(3) c by (simp add: m_def)
  have s1: "unat s1 < 2 ^ 16"
  proof -
    have "2 ^ 32 * unat s1 \<le> m" by (simp add: m_def pairval_def)
    also have "m < 2 ^ 32 * 2 ^ 16" using m_less unat_digit [of c] by simp
    finally show ?thesis by simp
  qed
  define k where "k = TO_HIGHER_HALF s1 + HIGHER_HALF s0"
  have k: "unat k = m div 2 ^ 16"
  proof -
    have "unat s0 div 2 ^ 16 < 2 ^ 16" using unat_digit [of s0] by (simp add: less_mult_imp_div_less)
    then have "unat k = unat s1 * 2 ^ 16 + unat s0 div 2 ^ 16"
      using s1 by (simp add: k_def unat_word_ariths half_values)
    also have "\<dots> = m div 2 ^ 16"
      using div_mult_self1 [of "2 ^ 16" "unat s0" "2 ^ 16 * unat s1"] by (simp add: m_def pairval_def)
    finally show ?thesis .
  qed
  define al where "al = (if ucast ch = LOW_MASK then ucast (LOWER_HALF s1) else ucast (k div (ucast ch + 1)) :: u16)"
  have al: "unat al = m div 2 ^ 16 div (unat ch + 1)"
    unfolding al_def k [symmetric]
  proof (rule half_estimate)
    show "unat k div (unat ch + 1) < 2 ^ 16" unfolding k by (rule estimate_less [OF cc unat_half m_less])
    have "m div 2 ^ 16 div 2 ^ 16 = unat s1" using unat_digit [of s0] by (simp add: m_def pairval_def div_mult2_eq [symmetric])
    then show "unat (LOWER_HALF s1) = unat k div 2 ^ 16" unfolding k using s1 by (simp add: half_values)
  qed
  have le2: "unat al * unat c \<le> m" unfolding al by (rule estimate_le [OF cc unat_half])
  define u' v' :: u32 where "u' = ucast al * ucast cl" and "v' = ucast al * ucast ch"
  have uv': "unat u' + 2 ^ 16 * unat v' = unat al * unat c"
    by (simp add: u'_def v'_def half_times cc algebra_simps)
  define w0 w1 r0 r1 where "w0 = s0 - u'" and "w1 = (if w0 > MAX_BIGINT_DIGIT - u' then s1 - 1 else s1)"
    and "r0 = w0 - TO_HIGHER_HALF v'"
    and "r1 = (if r0 > MAX_BIGINT_DIGIT - TO_HIGHER_HALF v' then w1 - 1 else w1) - HIGHER_HALF v'"
  have r: "pairval r0 r1 + unat al * unat c = m"
    unfolding r0_def r1_def w0_def w1_def m_def uv' [symmetric]
    by (rule sub_at_low) (use le2 uv' in \<open>simp only: m_def\<close>)
  have q2: "unat al + pairval r0 r1 div unat c = m div unat c"
    using c unfolding r [symmetric] by (simp add: div_mult_self1)
  have q2_less: "m div unat c < 2 ^ 16" using m_less by (simp add: less_mult_imp_div_less mult.commute)
  obtain a'' where a'': "correct_low c al r0 r1 = Some a''" "unat a'' = m div unat c"
    using correct_low_value [of c al r0 r1] q2 q2_less c by auto
  have run: "bigint_digit_div b0 b1 c = Some (TO_HIGHER_HALF (ucast a') + ucast a'')"
    using s(1) a''(1)
    by (simp only: bigint_digit_div_def Let_def ch_def [symmetric] cl_def [symmetric] ah_def [symmetric] u_def [symmetric]
        v_def [symmetric] t0_def [symmetric] t1_def [symmetric] bind.bind_lunit prod.case k_def [symmetric]
        al_def [symmetric] u'_def [symmetric] v'_def [symmetric] w0_def [symmetric] w1_def [symmetric]
        r0_def [symmetric] r1_def [symmetric])
  have "n = n div (unat c * 2 ^ 16) * (unat c * 2 ^ 16) + m" using s(3) by (simp only: m_def div_mult_mod_eq)
  then have "n div unat c = (n div (unat c * 2 ^ 16) * 2 ^ 16 * unat c + m) div unat c" by (simp only: mult.assoc mult.commute)
  also have "\<dots> = n div (unat c * 2 ^ 16) * 2 ^ 16 + m div unat c" using c by (simp add: div_mult_self3)
  finally have nd: "n div unat c = unat a' * 2 ^ 16 + unat a''" using s(2) a''(2) by simp
  have "unat (TO_HIGHER_HALF (ucast a') + ucast a'') = n div unat c"
    using unat_half [of a'] unat_half [of a''] nd
    by (simp add: unat_word_ariths half_values unat_ucast_half)
  then show thesis using run by (rule_tac that) (simp_all add: n_def)
qed

section \<open>A digit of the quotient\<close>

lemma digits_at_middle: "length w = n \<Longrightarrow> digits_at (p @ w @ z) (length p) n = w"
  by (simp add: digits_at_def)

lemma put_digits_middle: "length w = length v \<Longrightarrow> put_digits (p @ w @ z) (length p) v = p @ v @ z"
  by (simp add: put_digits_def)

lemma nth_middle: "length w = n \<Longrightarrow> (p @ w @ x # z) ! (length p + n) = x"
  by (simp add: nth_append)

lemma update_middle: "length w = n \<Longrightarrow> (p @ w @ x # z)[length p + n := y] = p @ w @ y # z"
  by (simp add: list_update_append)

text \<open>Taking a borrow from the digit above.\<close>

lemma take_borrow:
  assumes v: "bigval w' + s = bigval w + 2 ^ (32 * length w) * unat borrow" "length w' = length w"
    and le: "s \<le> bigval (w @ [x])"
  shows "bigval (w' @ [x - borrow]) + s = bigval (w @ [x])"
proof -
  let ?B = "2 ^ (32 * length w) :: nat"
  have "bigval w' < ?B" using bigval_less [of w'] v(2) by simp
  then have "?B * unat borrow < ?B * (unat x + 1)" using v(1) le by (simp add: bigval_append)
  then have "unat borrow < unat x + 1" by (simp only: mult_less_cancel1)
  then have "unat borrow \<le> unat x" by simp
  then have "unat (x - borrow) + unat borrow = unat x" by (simp add: unat_sub word_le_nat_alt)
  then have "?B * unat (x - borrow) + ?B * unat borrow = ?B * unat x" by (simp only: add_mult_distrib2 [symmetric])
  then show ?thesis using v by (simp add: bigval_append)
qed

lemma correct_digit_value:
  assumes "length w = length dd" and "0 < bigval dd"
    and "unat ai + bigval (w @ [x]) div bigval dd < 2 ^ 32"
  shows "\<exists>ai' w'. correct_digit dd (length p) ai (p @ w @ x # z) = Some (ai', p @ w' @ 0 # z) \<and> length w' = length dd \<and>
    unat ai' = unat ai + bigval (w @ [x]) div bigval dd \<and> bigval w' = bigval (w @ [x]) mod bigval dd"
  using assms(1,3)
proof (induction "bigval (w @ [x])" arbitrary: ai w x rule: less_induct)
  case less
  let ?n = "length dd" and ?D = "bigval dd" and ?W = "bigval (w @ [x])"
  have D: "?D < 2 ^ (32 * ?n)" by (rule bigval_less)
  have cmp: "bigint_cmp w dd ?n \<ge> 0 \<longleftrightarrow> ?D \<le> bigval w"
    using less.prems(1) by (simp add: bigint_cmp_value)
  have cond: "x \<noteq> 0 \<or> bigint_cmp w dd ?n \<ge> 0 \<longleftrightarrow> ?D \<le> ?W"
  proof (cases "x = 0")
    case False
    then have "1 \<le> unat x" by (simp add: Suc_le_eq unat_gt_0)
    then have "2 ^ (32 * ?n) * 1 \<le> 2 ^ (32 * ?n) * unat x" by (rule mult_le_mono2)
    moreover have "?W = bigval w + 2 ^ (32 * ?n) * unat x" using less.prems(1) by (simp add: bigval_append)
    ultimately have "?D \<le> ?W" using D by linarith
    then show ?thesis using False by simp
  qed (use cmp in \<open>simp add: bigval_append\<close>)
  have at: "digits_at (p @ w @ x # z) (length p) ?n = w" "(p @ w @ x # z) ! (length p + ?n) = x"
    by (rule digits_at_middle [OF less.prems(1)], rule nth_middle [OF less.prems(1)])
  show ?case
  proof (cases "?D \<le> ?W")
    case False
    then have "x = 0" using cond by simp
    moreover have "correct_digit dd (length p) ai (p @ w @ x # z) = Some (ai, p @ w @ x # z)"
      by (subst correct_digit.simps) (simp only: at cond False if_False)
    ultimately show ?thesis using False less.prems(1) by (simp add: bigval_append)
  next
    case True
    obtain w' borrow where sub: "bigint_sub w dd = (w', borrow)" by (cases "bigint_sub w dd")
    note v = bigint_sub_value [OF less.prems(1) sub]
    have new: "bigval (w' @ [x - borrow]) + ?D = ?W" by (rule take_borrow [OF v True])
    then have new': "bigval (w' @ [x - borrow]) = ?W - ?D" by simp
    have d: "?W div ?D = Suc ((?W - ?D) div ?D)" "?W mod ?D = (?W - ?D) mod ?D"
      using True assms(2) by (simp_all add: le_div_geq le_mod_geq)
    have a: "unat (ai + 1) = Suc (unat ai)" using less.prems(2) d(1) by (simp add: unat_word_ariths)
    have l: "length w' = ?n" using v(2) less.prems(1) by simp
    have "correct_digit dd (length p) ai (p @ w @ x # z) =
        correct_digit dd (length p) (ai + 1) (p @ w' @ (x - borrow) # z)"
      by (subst correct_digit.simps)
        (simp only: at cond True if_True Let_def sub prod.case put_digits_middle [OF v(2) [symmetric]] nth_middle [OF l]
          update_middle [OF l])
    moreover have "bigval (w' @ [x - borrow]) < ?W" using new assms(2) by linarith
    note less.hyps [OF this l, of "ai + 1"]
    ultimately show ?thesis using new' d a less.prems(2) by simp
  qed
qed

lemma quotient_digit_value:
  assumes n: "length w = length dd" "dd \<noteq> []" and t: "2 ^ 31 \<le> unat (last dd)"
    and W: "bigval (w @ [x]) < bigval dd * 2 ^ 32"
  shows "\<exists>q w'. quotient_digit dd (length p) (p @ w @ x # z) = Some (q, p @ w' @ 0 # z) \<and> length w' = length dd \<and>
    unat q = bigval (w @ [x]) div bigval dd \<and> bigval w' = bigval (w @ [x]) mod bigval dd"
proof -
  let ?n = "length dd" and ?D = "bigval dd" and ?W = "bigval (w @ [x])" and ?t = "last dd" and ?cc = "p @ w @ x # z"
  define B where "B = (2 :: nat) ^ (32 * (?n - 1))"
  have Bn: "2 ^ (32 * ?n) = B * 2 ^ 32"
    using n(2) by (cases dd) (simp_all add: B_def power_add mult.commute)
  have D: "?D = bigval (butlast dd) + B * unat ?t"
    using bigval_append [of "butlast dd" "[last dd]"] n(2) by (simp add: B_def)
  have low: "bigval (butlast dd) < B" using bigval_less [of "butlast dd"] by (simp add: B_def)
  have D_less: "?D < B * (unat ?t + 1)" using D low by simp
  have D_pos: "0 < ?D" using D t by (simp add: B_def)
  have w_last: "w \<noteq> []" "bigval w = bigval (butlast w) + B * unat (last w)"
  proof -
    show "w \<noteq> []" using n by auto
    then show "bigval w = bigval (butlast w) + B * unat (last w)"
      using bigval_append [of "butlast w" "[last w]"] n by (simp add: B_def)
  qed
  have Wp: "?W = bigval (butlast w) + B * pairval (last w) x"
    using w_last(2) n Bn by (simp add: bigval_append pairval_def algebra_simps)
  have top: "dd ! (?n - 1) = ?t" using n(2) by (simp add: last_conv_nth)
  have at: "digits_at ?cc (length p) ?n = w" "?cc ! (length p + ?n) = x"
    by (rule digits_at_middle [OF n(1)], rule nth_middle [OF n(1)])
  have at1: "?cc ! (length p + ?n - 1) = last w"
    using w_last(1) n(1) by (cases w rule: rev_cases) (auto simp: nth_append)
  have x_le: "unat x \<le> unat ?t"
  proof -
    have "B * 2 ^ 32 * unat x \<le> ?W" using Bn n(1) by (simp add: bigval_append)
    also have "?W < ?D * 2 ^ 32" by (rule W)
    also have "?D * 2 ^ 32 < B * (unat ?t + 1) * 2 ^ 32" using D_less by (rule mult_strict_right_mono) simp
    finally have "B * 2 ^ 32 * unat x < B * 2 ^ 32 * (unat ?t + 1)" by (simp only: mult.assoc mult.commute mult.left_commute)
    then have "unat x < unat ?t + 1" by (simp only: mult_less_cancel1)
    then show ?thesis by simp
  qed
  have "\<exists>ai. (if ?t = MAX_BIGINT_DIGIT then Some x else bigint_digit_div (last w) x (?t + 1)) = Some ai \<and>
      unat ai * ?D \<le> ?W"
  proof (cases "?t = MAX_BIGINT_DIGIT")
    case True
    have "unat x * ?D \<le> unat x * (B * 2 ^ 32)" using bigval_less [of dd] Bn by (intro mult_le_mono2) simp
    also have "\<dots> \<le> ?W" using Bn n(1) by (simp add: bigval_append mult.commute)
    finally show ?thesis using True by simp
  next
    case False
    then have t1: "unat (?t + 1) = unat ?t + 1"
      using unat_digit [of ?t] by (simp add: unat_word_ariths word_unat_eq_iff)
    obtain ai where ai: "bigint_digit_div (last w) x (?t + 1) = Some ai" "unat ai = pairval (last w) x div (unat ?t + 1)"
      using bigint_digit_div_value [of x "?t + 1" "last w"] x_le t t1 by auto
    have "unat ai * ?D \<le> unat ai * (B * (unat ?t + 1))" using D_less by (intro mult_le_mono2) simp
    also have "\<dots> = B * (pairval (last w) x div (unat ?t + 1) * (unat ?t + 1))"
      unfolding ai(2) by (simp only: mult.left_commute)
    also have "\<dots> \<le> B * pairval (last w) x" by (intro mult_le_mono2 div_times_less_eq_dividend)
    also have "\<dots> \<le> ?W" using Wp by simp
    finally show ?thesis using ai(1) False by simp
  qed
  then obtain ai where ai: "(if ?t = MAX_BIGINT_DIGIT then Some x else bigint_digit_div (last w) x (?t + 1)) = Some ai"
    "unat ai * ?D \<le> ?W" by blast
  obtain w1 borrow where sub: "bigint_sub_digit_mult w w ai dd = (w1, borrow)" by (cases "bigint_sub_digit_mult w w ai dd")
  note v = bigint_sub_digit_mult_value [OF n(1) sub]
  have l: "length w1 = ?n" using v(2) n(1) by simp
  have new: "bigval (w1 @ [x - borrow]) + unat ai * ?D = ?W" by (rule take_borrow [OF v ai(2)])
  have run: "quotient_digit dd (length p) ?cc = correct_digit dd (length p) ai (p @ w1 @ (x - borrow) # z)"
    using ai(1) by (simp only: quotient_digit_def Let_def top at at1 sub prod.case bind.bind_lunit
        put_digits_middle [OF v(2) [symmetric]] nth_middle [OF l] update_middle [OF l])
  have q: "?W div ?D = unat ai + bigval (w1 @ [x - borrow]) div ?D" "?W mod ?D = bigval (w1 @ [x - borrow]) mod ?D"
    using D_pos unfolding new [symmetric] by simp_all
  have "?W div ?D < 2 ^ 32" using W by (simp add: less_mult_imp_div_less mult.commute)
  then show ?thesis
    using correct_digit_value [OF l D_pos, of ai "x - borrow" p z] q unfolding run by simp
qed

section \<open>The quotient and the remainder\<close>

lemma div_loop_value:
  assumes "length r = length dd" and "dd \<noteq> []" and "2 ^ 31 \<le> unat (last dd)" and "bigval r < bigval dd"
    and "length a = length l"
  shows "\<exists>q s z'. div_loop dd (length l) (a @ a1) (l @ r @ z) = Some (q @ a1, s @ z') \<and>
    length q = length l \<and> length s = length dd \<and> length z' = length l + length z \<and>
    bigval q = bigval (l @ r) div bigval dd \<and> bigval s = bigval (l @ r) mod bigval dd"
  using assms(1,4,5)
proof (induction l arbitrary: r z a a1 rule: rev_induct)
  case Nil
  then show ?case by (intro exI [of _ "[]"] exI [of _ r] exI [of _ z]) simp
next
  case (snoc d l)
  let ?D = "bigval dd"
  obtain w x where w: "d # r = w @ [x]" by (cases "d # r" rule: rev_cases) auto
  have "length (d # r) = length (w @ [x])" unfolding w ..
  then have lw: "length w = length dd" using snoc.prems(1) by simp
  have W: "bigval (w @ [x]) < ?D * 2 ^ 32"
  proof -
    have "bigval (w @ [x]) < 2 ^ 32 * (bigval r + 1)" unfolding w [symmetric] using unat_digit [of d] by simp
    also have "\<dots> \<le> 2 ^ 32 * ?D" using snoc.prems(2) by (intro mult_le_mono2) simp
    finally show ?thesis by (simp only: mult.commute)
  qed
  obtain q w' where q: "quotient_digit dd (length l) (l @ w @ x # z) = Some (q, l @ w' @ 0 # z)" "length w' = length dd"
    "unat q = bigval (w @ [x]) div ?D" "bigval w' = bigval (w @ [x]) mod ?D"
    using quotient_digit_value [OF lw assms(2,3) W] by blast
  obtain a0 y where a: "a = a0 @ [y]" "length a0 = length l" using snoc.prems(3) by (cases a rule: rev_cases) auto
  have "0 < ?D" using snoc.prems(2) by simp
  then have "bigval w' < ?D" using q(4) by simp
  then obtain qs s z' where IH: "div_loop dd (length l) (a0 @ q # a1) (l @ w' @ 0 # z) = Some (qs @ q # a1, s @ z')"
    "length qs = length l" "length s = length dd" "length z' = Suc (length l + length z)"
    "bigval qs = bigval (l @ w') div ?D" "bigval s = bigval (l @ w') mod ?D"
    using snoc.IH [OF q(2) _ a(2), of "q # a1" "0 # z"] by auto
  have "(l @ [d]) @ r @ z = l @ (d # r) @ z" by simp
  also have "\<dots> = l @ w @ x # z" unfolding w by simp
  finally have e: "(l @ [d]) @ r @ z = l @ w @ x # z" .
  have "(a @ a1)[length l := q] = a0 @ q # a1" using a by (simp add: list_update_append)
  then have run: "div_loop dd (length (l @ [d])) (a @ a1) ((l @ [d]) @ r @ z) = Some (qs @ q # a1, s @ z')"
    unfolding e using q(1) IH(1) by simp
  have "(l @ [d]) @ r = l @ w @ [x]" using w by simp
  then have "bigval ((l @ [d]) @ r) = bigval l + 2 ^ (32 * length l) * bigval (w @ [x])" by (simp only: bigval_append)
  then have "bigval ((l @ [d]) @ r) = bigval l + 2 ^ (32 * length l) * (?D * unat q + bigval w')"
    by (simp only: q(3,4) mult_div_mod_eq)
  then have V: "bigval ((l @ [d]) @ r) = bigval (l @ w') + (2 ^ (32 * length l) * unat q) * ?D"
    by (simp add: bigval_append algebra_simps)
  then have "bigval (qs @ [q]) = bigval ((l @ [d]) @ r) div ?D" "bigval s = bigval ((l @ [d]) @ r) mod ?D"
    using IH(2,5,6) \<open>0 < ?D\<close> by (simp_all only: V) (simp_all add: bigval_append)
  then show ?case using run IH(2-4)
    by (intro exI [of _ "qs @ [q]"] exI [of _ s] exI [of _ z']) simp
qed

lemma top_digit_le: "a \<noteq> [] \<Longrightarrow> 2 ^ (32 * (length a - 1)) * unat (last a) \<le> bigval a"
  using bigval_append [of "butlast a" "[last a]"] by simp

lemma less_by_top:
  assumes "length r = length d" and "d \<noteq> []" and "unat (last r) < unat (last d)"
  shows "bigval r < bigval d"
proof -
  have "r \<noteq> []" using assms by auto
  then have "bigval r = bigval (butlast r) + 2 ^ (32 * (length d - 1)) * unat (last r)"
    using bigval_append [of "butlast r" "[last r]"] assms(1) by simp
  also have "\<dots> < 2 ^ (32 * (length d - 1)) * (unat (last r) + 1)"
    using bigval_less [of "butlast r"] assms(1) by simp
  also have "\<dots> \<le> 2 ^ (32 * (length d - 1)) * unat (last d)" using assms(3) by (intro mult_le_mono2) simp
  also have "\<dots> \<le> bigval d" by (rule top_digit_le [OF assms(2)])
  finally show ?thesis .
qed

lemma bigint_div_value:
  assumes "bigval d \<noteq> 0" and "length c \<le> 2 * MAX_BIGINT_DIGITS" and "length d \<le> MAX_BIGINT_DIGITS"
  obtains q r where "bigint_div a b c d = Some (q, r)" and "length q = length c" and "length r = length d"
    and "bigval q = bigval c div bigval d" and "bigval r = bigval c mod bigval d"
proof -
  let ?m = "length c" and ?n = "bigint_digits d (length d)"
  let ?d = "take ?n d"
  have nz: "?n \<noteq> 0" using bigint_digits_zero [of "length d" d] assms(1) by simp
  have n_le: "?n \<le> length d" by (rule bigint_digits_le)
  have dv: "bigval ?d = bigval d" using bigint_digits_value [of "length d" d] by simp
  obtain k where k: "?n = Suc k" using nz by (cases ?n) auto
  have top: "d ! (?n - 1) \<noteq> 0" using bigint_digits_top [OF k] k by simp
  define s where "s = 32 - bigint_digit_bits (d ! (?n - 1))"
  note bits = bigint_digit_bits_value [OF top]
  have s: "s < 32" using bits(1,2) by (simp add: s_def)
  obtain dd o1 where dd: "bigint_left_shift (bigint_zero ?n) ?d s = (dd, o1)" by (cases "bigint_left_shift (bigint_zero ?n) ?d s")
  obtain cs carry where cs: "bigint_left_shift (take ?m (bigint_zero (max ?n (?m + 1)))) c s = (cs, carry)"
    by (cases "bigint_left_shift (take ?m (bigint_zero (max ?n (?m + 1)))) c s")
  note ddv = bigint_left_shift_value [OF s dd] and csv = bigint_left_shift_value [OF s cs]
  have ld: "length dd = ?n" "dd \<noteq> []" using ddv(2) n_le nz by auto
  have split: "?d = take k d @ [d ! k]" using k n_le by (simp add: take_Suc_conv_app_nth)
  have "(unat (d ! k) + 1) * 2 ^ s \<le> 2 ^ 32"
  proof -
    have e: "(2 :: nat) ^ 32 = 2 ^ (32 - s) * 2 ^ s" using s by (simp add: power_add [symmetric])
    have "unat (d ! k) * 2 ^ s < 2 ^ (32 - s) * 2 ^ s" using bits(4) k unfolding e [symmetric] by (simp add: s_def)
    then have "unat (d ! k) < 2 ^ (32 - s)" by (simp only: mult_less_cancel2)
    then have "unat (d ! k) + 1 \<le> 2 ^ (32 - s)" by simp
    then have "(unat (d ! k) + 1) * 2 ^ s \<le> 2 ^ (32 - s) * 2 ^ s" by (rule mult_le_mono1)
    then show ?thesis by (simp only: e)
  qed
  then have "2 ^ (32 * k) * ((unat (d ! k) + 1) * 2 ^ s) \<le> 2 ^ (32 * k) * 2 ^ 32" by (rule mult_le_mono2)
  moreover have "bigval d * 2 ^ s < 2 ^ (32 * k) * (unat (d ! k) + 1) * 2 ^ s"
    using bigval_less [of "take k d"] n_le k bigval_append [of "take k d" "[d ! k]"] dv split by simp
  moreover have "(2 :: nat) ^ (32 * ?n) = 2 ^ (32 * k) * 2 ^ 32" using k by (simp add: power_add)
  ultimately have "bigval d * 2 ^ s < 2 ^ (32 * ?n)" by (simp only: mult.assoc)
  moreover have ddv': "bigval dd + 2 ^ (32 * ?n) * unat o1 = bigval d * 2 ^ s" using ddv(1) dv n_le by (simp add: min_absorb2)
  ultimately have "2 ^ (32 * ?n) * unat o1 < 2 ^ (32 * ?n) * 1" by linarith
  then have "unat o1 < 1" by (simp only: mult_less_cancel1)
  then have o1: "o1 = 0" by (simp add: unat_eq_zero)
  then have D: "bigval dd = bigval d * 2 ^ s" using ddv' by simp
  have t: "2 ^ 31 \<le> unat (last dd)"
  proof (rule ccontr)
    assume "\<not> 2 ^ 31 \<le> unat (last dd)"
    then have "unat (last dd) + 1 \<le> 2 ^ 31" by simp
    have "bigval dd < 2 ^ (32 * k) * (unat (last dd) + 1)"
      using bigval_less [of "butlast dd"] bigval_append [of "butlast dd" "[last dd]"] ld k by simp
    also have "\<dots> \<le> 2 ^ (32 * k) * 2 ^ 31" using \<open>unat (last dd) + 1 \<le> 2 ^ 31\<close> by (rule mult_le_mono2)
    also have "\<dots> \<le> 2 ^ (32 * k) * (unat (d ! k) * 2 ^ s)" using bits(3) k by (intro mult_le_mono2) (simp add: s_def)
    also have "\<dots> \<le> bigval d * 2 ^ s" using bigval_append [of "take k d" "[d ! k]"] dv split n_le k by simp
    finally show False using D by simp
  qed
  have D_pos: "0 < bigval dd" using D assms(1) by simp
  define cc where "cc = (put_digits (bigint_zero (max ?n (?m + 1))) 0 cs)[?m := carry]"
  have cc: "cc = cs @ carry # replicate (?n - ?m - 1) 0"
  proof -
    have "bigint_zero (max ?n (?m + 1)) = replicate (?m + Suc (?n - ?m - 1)) 0"
      unfolding bigint_zero_def by (rule arg_cong [of _ _ "\<lambda>n. replicate n 0"]) simp
    also have "\<dots> = replicate ?m 0 @ 0 # replicate (?n - ?m - 1) 0" by (simp only: replicate_add replicate_Suc)
    finally show ?thesis using csv(2) by (simp add: cc_def put_digits_def list_update_append)
  qed
  have V: "bigval cc = bigval c * 2 ^ s" using csv by (simp add: cc bigval_append)
  have carry: "unat carry < 2 ^ s"
  proof -
    have "bigval c * 2 ^ s < 2 ^ (32 * ?m) * 2 ^ s" using bigval_less [of c] by simp
    then have "2 ^ (32 * ?m) * unat carry < 2 ^ (32 * ?m) * 2 ^ s" using csv(1) by linarith
    then show ?thesis by simp
  qed
  define l r where "l = take (?m + 1 - ?n) cc" and "r = drop (?m + 1 - ?n) cc"
  have lr: "cc = l @ r @ []" "length l = ?m + 1 - ?n" "length r = length dd"
  proof -
    have "length cc = max ?n (?m + 1)" using csv(2) by (simp add: cc)
    then show "length l = ?m + 1 - ?n" "length r = length dd" using ld by (auto simp: l_def r_def)
  qed (simp add: l_def r_def)
  have "bigval r < bigval dd"
  proof (cases "?n \<le> ?m + 1")
    case True
    then have "last cc = carry" by (simp add: cc)
    moreover have "last r = last cc" using lr(3) ld(2) unfolding r_def by (intro last_drop) (cases dd; simp)
    ultimately have "last r = carry" by simp
    moreover have "(2 :: nat) ^ s \<le> 2 ^ 31" using s by (intro power_increasing) simp_all
    ultimately have "unat (last r) < unat (last dd)" using carry t by (metis order.strict_trans1 order.strict_trans2)
    then show ?thesis by (rule less_by_top [OF lr(3) ld(2)])
  next
    case False
    then have "r = cc" by (simp add: r_def)
    have "last cc = 0" using False by (simp add: cc)
    then show ?thesis using t \<open>r = cc\<close> by (intro less_by_top [OF lr(3) ld(2)]) simp
  qed
  moreover have "bigint_zero ?m = replicate (length l) 0 @ replicate (?m - length l) 0"
    using lr(2) nz by (simp add: bigint_zero_def replicate_add [symmetric])
  ultimately obtain q rem z where run: "div_loop dd (length l) (bigint_zero ?m) cc =
      Some (q @ replicate (?m - length l) 0, rem @ z)"
    "length q = length l" "length rem = length dd" "bigval q = bigval cc div bigval dd" "bigval rem = bigval cc mod bigval dd"
    using div_loop_value [OF lr(3) ld(2) t, of "replicate (length l) 0" l "replicate (?m - length l) 0" "[]"]
    by (auto simp: lr(1) [symmetric] lr(1) [symmetric, simplified])
  let ?r = "put_digits (bigint_zero (length d)) 0 (bigint_right_shift (bigint_zero ?n) rem s)"
  have guard: "\<not> (2 * MAX_BIGINT_DIGITS < ?m \<or> MAX_BIGINT_DIGITS < ?n)" using assms(2,3) n_le by linarith
  have "bigint_div a b c d = Some (q @ replicate (?m - length l) 0, ?r)"
    using run(1,3) ld(1) lr(2)
    by (simp only: bigint_div_def Let_def nz if_False guard s_def [symmetric, folded BIGINT_DIGIT_BITS_def] s_def [symmetric]
        BIGINT_DIGIT_BITS_def cs dd prod.case fst_conv cc_def [symmetric] bind.bind_lunit append_eq_conv_conj take_append) simp
  moreover have "bigval ?r = bigval c mod bigval d"
  proof -
    have "bigval rem = bigval c mod bigval d * 2 ^ s" using run(5) V D by (simp add: mod_mult_mult2)
    then show ?thesis using bigint_right_shift_value [OF s, of "bigint_zero ?n" rem]
      by (simp add: put_digits_def bigval_append bigint_zero_def)
  qed
  moreover have "length ?r = length d"
    using bigint_right_shift_value(2) [OF s, of "bigint_zero ?n" rem] run(3) ld(1) n_le
    by (simp add: put_digits_def bigint_zero_def)
  moreover have "bigval (q @ replicate (?m - length l) 0) = bigval c div bigval d"
    using run(4) V D by (simp add: bigval_append)
  moreover have "length (q @ replicate (?m - length l) 0) = ?m" using run(2) lr(2) nz by simp
  ultimately show thesis by (rule_tac that)
qed

text \<open>
  C17: \<open>bigint_div\<close> divides. For any divisor but zero and numbers of any size up to the limits of
  the library (4128 bits, the dividend twice that) it returns, after estimating each digit of the
  quotient from the top digits and correcting it, the quotient in as many digits as the dividend and
  the remainder in as many as the divisor.
\<close>

theorem division_exact:
  assumes "bigval d \<noteq> 0" and "length c \<le> 2 * MAX_BIGINT_DIGITS" and "length d \<le> MAX_BIGINT_DIGITS"
  shows "\<exists>q r. bigint_div a b c d = Some (q, r) \<and> length q = length c \<and> length r = length d \<and>
    bigval c = bigval q * bigval d + bigval r \<and> bigval r < bigval d"
proof -
  obtain q r where "bigint_div a b c d = Some (q, r)" "length q = length c" "length r = length d"
    "bigval q = bigval c div bigval d" "bigval r = bigval c mod bigval d"
    by (rule bigint_div_value [OF assms])
  then show ?thesis using assms(1) by (intro exI [of _ q] exI [of _ r]) simp
qed

theorem division_exact_witness:
  "\<exists>q r. bigint_div [] [] [5, 0, 7] [3, 2, 0] = Some (q, r) \<and> length q = length [5, 0, 7 :: u32] \<and> length r = length [3, 2, 0 :: u32] \<and>
    bigval [5, 0, 7] = bigval q * bigval [3, 2, 0] + bigval r \<and> bigval r < bigval [3, 2, 0]"
  by (rule division_exact) simp_all

end
