(* ===== verification/Csl_Bigint_Inv.thy ===== *)
theory Csl_Bigint_Inv
  imports Csl_Bigint_Div
begin

text \<open>
  Modular inverses, by the extended Euclidean algorithm without negative numbers: the coefficients
  grow while the remainders shrink, and \<open>u1 v3 + v1 u3\<close> stays the modulus, so nothing overflows.
\<close>

definition inv_state :: "nat \<Rightarrow> nat \<Rightarrow> bigint \<Rightarrow> bigint \<Rightarrow> bigint \<Rightarrow> bigint \<Rightarrow> int \<Rightarrow> bool" where
  "inv_state b c u1 v1 u3 v3 s \<longleftrightarrow>
     bigval u1 * bigval v3 + bigval v1 * bigval u3 = c \<and> bigval u1 \<le> c \<and> 0 < bigval u3 \<and>
     coprime (bigval u3) (bigval v3) \<and> s \<in> {1, - 1} \<and>
     int c dvd s * int (bigval u1) * int b - int (bigval u3) \<and> int c dvd s * int (bigval v1) * int b + int (bigval v3)"

lemma inv_step_values:
  fixes u1 v1 u3 v3 b c :: nat and s :: int
  assumes "u1 * v3 + v1 * u3 = c" and "0 < v3" and "0 < u3"
    and "int c dvd s * int u1 * int b - int u3" and "int c dvd s * int v1 * int b + int v3"
  defines "t1 \<equiv> u1 + u3 div v3 * v1"
  shows "t1 \<le> c" and "v1 \<le> c" and "v1 * (u3 mod v3) + t1 * v3 = c"
    and "int c dvd - s * int v1 * int b - int v3" and "int c dvd - s * int t1 * int b + int (u3 mod v3)"
proof -
  have u3: "u3 = u3 div v3 * v3 + u3 mod v3" by simp
  show sum: "v1 * (u3 mod v3) + t1 * v3 = c"
  proof -
    have e: "v1 * u3 = v1 * (u3 div v3) * v3 + v1 * (u3 mod v3)" by (metis u3 distrib_left mult.assoc)
    show ?thesis unfolding assms(1) [symmetric] e t1_def by (simp only: distrib_left distrib_right ac_simps)
  qed
  have "t1 * 1 \<le> t1 * v3" using assms(2) by (intro mult_le_mono2) simp
  then show "t1 \<le> c" using sum by linarith
  have "v1 * 1 \<le> v1 * u3" using assms(3) by (intro mult_le_mono2) simp
  then show "v1 \<le> c" using assms(1) by linarith
  have "- s * int v1 * int b - int v3 = - (s * int v1 * int b + int v3)" by simp
  then show "int c dvd - s * int v1 * int b - int v3" using assms(5) by (simp only: dvd_minus_iff)
  have "int u3 = int (u3 div v3) * int v3 + int (u3 mod v3)" by (metis u3 of_nat_add of_nat_mult)
  then have "- s * int t1 * int b + int (u3 mod v3) =
      - (s * int u1 * int b - int u3) - int (u3 div v3) * (s * int v1 * int b + int v3)"
    by (simp add: t1_def algebra_simps)
  then show "int c dvd - s * int t1 * int b + int (u3 mod v3)"
    using assms(4,5) by (metis dvd_diff dvd_minus_iff dvd_mult)
qed

lemma inv_loop_value:
  assumes n: "n \<le> MAX_ECC_DIGITS" "c < 2 ^ (32 * n)"
    and l: "length u1 = n" "length v1 = n" "length u3 = n" "length v3 = n" and inv: "inv_state b c u1 v1 u3 v3 s"
  shows "\<exists>u s'. inv_loop u1 v1 u3 v3 s = Some (u, s') \<and> length u = n \<and> bigval u \<le> c \<and> s' \<in> {1, - 1} \<and>
    int c dvd s' * int (bigval u) * int b - 1"
  using l inv
proof (induction "bigval v3" arbitrary: u1 v1 u3 v3 s rule: less_induct)
  case less
  note inv = less.prems(5) [unfolded inv_state_def]
  show ?case
  proof (cases "bigint_iszero v3")
    case True
    then have "bigval v3 = 0" by (simp add: bigint_iszero_value)
    then have "bigval u3 = 1" using inv by simp
    then show ?thesis using True inv less.prems(1) by (subst inv_loop.simps) auto
  next
    case False
    then have v3: "bigval v3 \<noteq> 0" by (simp add: bigint_iszero_value)
    have n129: "n \<le> MAX_BIGINT_DIGITS" using n(1) by simp
    obtain q t3 where div: "bigint_div [] [] u3 v3 = Some (q, t3)" "length q = n" "length t3 = n"
      "bigval q = bigval u3 div bigval v3" "bigval t3 = bigval u3 mod bigval v3"
      using bigint_div_value [OF v3, of u3 "[]" "[]"] less.prems(3,4) n129 by auto
    obtain w where w: "bigint_mult q v1 n = Some w" "bigval w = bigval q * bigval v1" "length w = 2 * n"
      by (rule bigint_mult_value [OF div(2) less.prems(2) n129])
    obtain t1 out where t1: "bigint_add u1 (take n w) = (t1, out)" by (cases "bigint_add u1 (take n w)")
    note add = bigint_add_value [OF _ t1]
    note val = inv_step_values [of "bigval u1" "bigval v3" "bigval v1" "bigval u3" c s b, folded div(4,5)]
    have sum: "bigval u1 + bigval q * bigval v1 < 2 ^ (32 * n)" using val(1) inv v3 n(2) by simp
    have split: "bigval w = bigval (take n w) + 2 ^ (32 * n) * bigval (drop n w)" using bigval_take_drop [of w n] w(3) by simp
    moreover have "bigval w < 2 ^ (32 * n) * 1" using sum w(2) by simp
    ultimately have "2 ^ (32 * n) * bigval (drop n w) < 2 ^ (32 * n) * 1" by linarith
    then have "bigval (drop n w) = 0" by (simp only: mult_less_cancel1 less_one)
    then have wv: "bigval (take n w) = bigval q * bigval v1" using w(2) split by simp
    have "bigval t1 + 2 ^ (32 * n) * unat out = bigval u1 + bigval q * bigval v1" using add(1) wv w(3) less.prems(1) by simp
    then have "2 ^ (32 * n) * unat out < 2 ^ (32 * n) * 1" using sum by linarith
    then have "unat out = 0" by (simp only: mult_less_cancel1 less_one)
    then have t1v: "bigval t1 = bigval u1 + bigval q * bigval v1" "length t1 = n"
      using add wv w(3) less.prems(1) by simp_all
    have "coprime (bigval v3) (bigval t3)" unfolding div(5) using inv v3 by (simp add: coprime_mod_right_iff coprime_commute)
    then have "inv_state b c v1 t1 v3 t3 (- s)"
      using val(2-5) inv v3 unfolding inv_state_def t1v(1) by auto
    moreover have "bigval t3 < bigval v3" using div(5) v3 by simp
    ultimately obtain u s' where "inv_loop v1 t1 v3 t3 (- s) = Some (u, s')" "length u = n" "bigval u \<le> c" "s' \<in> {1, - 1}"
      "int c dvd s' * int (bigval u) * int b - 1"
      using less.hyps [of t3 v1 t1 v3 "- s"] less.prems(2,4) div(3) t1v(2) by blast
    then show ?thesis using False div(1) w(1) t1 less.prems(4)
      by (intro exI [of _ u] exI [of _ s']) (subst inv_loop.simps, simp add: Let_def bigint_copy_def)
  qed
qed

text \<open>
  C18: \<open>bigint_mod_inv\<close> inverts. For a modulus of up to eight digits and a number prime to it the
  loop ends, no digit overflows on the way, and the result is below the modulus and its product with
  the number is 1 modulo the modulus.
\<close>

theorem mod_inv_inverse:
  assumes "length b = length c" and "length c \<le> MAX_ECC_DIGITS" and "1 < bigval c" and "coprime (bigval b) (bigval c)"
  shows "\<exists>a. bigint_mod_inv b c = Some a \<and> length a = length c \<and> bigval a < bigval c \<and> bigval a * bigval b mod bigval c = 1"
proof -
  let ?n = "length c" and ?C = "bigval c"
  have "c \<noteq> []" using assms(3) by auto
  then have one: "bigval (BIGINT_ASSIGN_DIGIT 1 ?n) = 1" "length (BIGINT_ASSIGN_DIGIT 1 ?n) = ?n"
    by (cases c; simp add: BIGINT_ASSIGN_DIGIT_def bigint_zero_def)+
  have zero: "bigval (bigint_zero ?n) = 0" "length (bigint_zero ?n) = ?n" by (simp_all add: bigint_zero_def)
  have "0 < bigval b" using assms(3,4) by (cases "bigval b") auto
  then have "inv_state (bigval b) ?C (BIGINT_ASSIGN_DIGIT 1 ?n) (bigint_zero ?n) b c 1"
    using one zero assms(3,4) by (simp add: inv_state_def)
  from inv_loop_value [OF assms(2) bigval_less one(2) zero(2) assms(1) refl this]
  obtain u s where run: "inv_loop (BIGINT_ASSIGN_DIGIT 1 ?n) (bigint_zero ?n) b c 1 = Some (u, s)"
    and u: "length u = ?n" "bigval u \<le> ?C" "s \<in> {1, - 1}" "int ?C dvd s * int (bigval u) * int (bigval b) - 1" by blast
  define a where "a = (if s < 0 then fst (bigint_sub c u) else u)"
  have a: "length a = ?n \<and> bigval a \<le> ?C \<and> int ?C dvd int (bigval a) * int (bigval b) - 1"
  proof (cases "s < 0")
    case True
    obtain r out where r: "bigint_sub c u = (r, out)" by (cases "bigint_sub c u")
    note v = bigint_sub_value [OF u(1) [symmetric] r]
    have "2 ^ (32 * ?n) * unat out < 2 ^ (32 * ?n) * 1" using v bigval_less [of r] u(2) unfolding v(2) u(1) by linarith
    then have "unat out = 0" by (simp only: mult_less_cancel1 less_one)
    then have rv: "bigval r + bigval u = ?C" using v(1) by simp
    have "s = - 1" using True u(3) by auto
    have ri: "int (bigval r) = int ?C - int (bigval u)" using rv by linarith
    have eq: "int (bigval r) * int (bigval b) - 1 = int ?C * int (bigval b) + (s * int (bigval u) * int (bigval b) - 1)"
      unfolding ri \<open>s = - 1\<close> by (simp add: left_diff_distrib)
    have "int ?C dvd int (bigval r) * int (bigval b) - 1" unfolding eq using u(4) by (intro dvd_add) simp_all
    then show ?thesis using rv v(2) r True by (simp add: a_def)
  next
    case False
    then show ?thesis using u by (auto simp: a_def)
  qed
  have nd: "\<not> int ?C dvd 1" using assms(3) by simp
  have "bigval a \<noteq> ?C"
  proof
    assume "bigval a = ?C"
    then have "int ?C dvd int (bigval a) * int (bigval b)" by simp
    then have "int ?C dvd 1" using a by (metis dvd_diff_right_iff dvd_diff_commute)
    then show False using nd by simp
  qed
  moreover have "bigval a * bigval b mod ?C = 1"
  proof -
    have "int (bigval a * bigval b) mod int ?C = 1 mod int ?C" using a by (simp add: mod_eq_dvd_iff)
    then have "int (bigval a * bigval b mod ?C) = int 1" using assms(3) by (simp add: zmod_int)
    then show ?thesis by (simp only: of_nat_eq_iff)
  qed
  ultimately show ?thesis using a run assms(2)
    by (intro exI [of _ a]) (simp add: bigint_mod_inv_def bigint_copy_def Let_def a_def split: if_splits)
qed

theorem mod_inv_inverse_witness:
  "\<exists>a. bigint_mod_inv [3, 0] [7, 1] = Some a \<and> length a = length [7, 1 :: u32] \<and> bigval a < bigval [7, 1] \<and>
    bigval a * bigval [3, 0] mod bigval [7, 1] = 1"
  by (rule mod_inv_inverse) (simp_all add: coprime_iff_gcd_eq_1 gcd_non_0_nat)

end
