(* ===== verification/Csl_Sha_Correct.thy ===== *)
theory Csl_Sha_Correct
  imports Csl_Sha
begin

text \<open>
  The streaming SHA-1 of the client computes the hash of FIPS 180-4. First the standard, over
  whole messages: padding to 64-byte blocks, the recursive message schedule, the 80 steps with
  the standard's functions and constants. Then the representation relation between a context and
  the bytes fed to it so far, which every operation respects.
\<close>

section \<open>The hash of FIPS 180-4\<close>

fun sha_W :: "buffer \<Rightarrow> nat \<Rightarrow> u32" where
  "sha_W blk t =
     (if t < 16 then be_dec (take 4 (drop (4 * t) blk))
      else word_rotl 1 (sha_W blk (t - 3) XOR sha_W blk (t - 8) XOR
                        sha_W blk (t - 14) XOR sha_W blk (t - 16)))"

definition sha_Ch :: "u32 \<Rightarrow> u32 \<Rightarrow> u32 \<Rightarrow> u32" where
  "sha_Ch x y z = (x AND y) XOR (NOT x AND z)"

definition sha_Parity :: "u32 \<Rightarrow> u32 \<Rightarrow> u32 \<Rightarrow> u32" where
  "sha_Parity x y z = x XOR y XOR z"

definition sha_Maj :: "u32 \<Rightarrow> u32 \<Rightarrow> u32 \<Rightarrow> u32" where
  "sha_Maj x y z = (x AND y) XOR (x AND z) XOR (y AND z)"

definition sha_f :: "nat \<Rightarrow> u32 \<Rightarrow> u32 \<Rightarrow> u32 \<Rightarrow> u32" where
  "sha_f t = (if t < 20 then sha_Ch else if t < 40 then sha_Parity
              else if t < 60 then sha_Maj else sha_Parity)"

definition sha_K :: "nat \<Rightarrow> u32" where
  "sha_K t = (if t < 20 then 0x5a827999 else if t < 40 then 0x6ed9eba1
              else if t < 60 then 0x8f1bbcdc else 0xca62c1d6)"

definition sha_step :: "buffer \<Rightarrow> sha_regs \<Rightarrow> nat \<Rightarrow> sha_regs" where
  "sha_step blk regs t =
     (case regs of (a, b, c, d, e) \<Rightarrow>
        (word_rotl 5 a + sha_f t b c d + e + sha_K t + sha_W blk t, a, word_rotl 30 b, c, d))"

definition sha_compress :: "u32 list \<Rightarrow> buffer \<Rightarrow> u32 list" where
  "sha_compress H blk =
     (case foldl (sha_step blk) (H ! 0, H ! 1, H ! 2, H ! 3, H ! 4) [0..<80] of
        (a, b, c, d, e) \<Rightarrow> [H ! 0 + a, H ! 1 + b, H ! 2 + c, H ! 3 + d, H ! 4 + e])"

function sha_blocks :: "u32 list \<Rightarrow> buffer \<Rightarrow> u32 list" where
  "sha_blocks H m =
     (if length m < 64 then H else sha_blocks (sha_compress H (take 64 m)) (drop 64 m))"
  by pat_completeness auto
termination
  by (relation "measure (\<lambda>(H, m). length m)") auto

definition sha_H0 :: "u32 list" where
  "sha_H0 = [0x67452301, 0xefcdab89, 0x98badcfe, 0x10325476, 0xc3d2e1f0]"

text \<open>One bit, zeros up to 8 bytes short of a block boundary, the length in bits.\<close>

definition sha_pad :: "buffer \<Rightarrow> buffer" where
  "sha_pad m = m @ [0x80] @ replicate ((119 - length m mod 64) mod 64) 0 @
                 be_enc 8 (word_of_nat (8 * length m) :: u64)"

definition sha1 :: "buffer \<Rightarrow> buffer" where
  "sha1 m = concat (map (be_enc 4) (sha_blocks sha_H0 (sha_pad m)))"

declare sha_blocks.simps [simp del] sha_W.simps [simp del] shaZeroTo.simps [simp del]

section \<open>One block of the code is one compression of the standard\<close>

lemma rotl_source_index:
  fixes n i :: nat
  assumes "0 < n" and "n < 32" and "i < 32"
  shows "(i + 32 - n) mod 32 = (if i < n then i + 32 - n else i - n)"
proof (cases "i < n")
  case False
  with assms have "i + 32 - n = (i - n) + 32" by simp
  then have "(i + 32 - n) mod 32 = (i - n) mod 32" by (simp only: mod_add_self2)
  with False assms show ?thesis by simp
qed (use assms in simp)

lemma shaCircularShift_rotl: "0 < n \<Longrightarrow> n < 32 \<Longrightarrow> shaCircularShift n w = word_rotl n w"
  by (rule bit_word_eqI)
    (auto simp add: shaCircularShift_def bit_word_rotl_iff bit_or_iff bit_push_bit_iff
       bit_drop_bit_eq rotl_source_index possible_bit_def add.commute simp del: numeral_nat
       dest: bit_imp_le_length)

lemma shaLoadWord_be:
  assumes "4 * t + 4 \<le> length blk"
  shows "shaLoadWord blk t = be_dec (take 4 (drop (4 * t) blk))"
proof -
  have "take 4 (drop (4 * t) blk) = [blk ! (4*t), blk ! (4*t+1), blk ! (4*t+2), blk ! (4*t+3)]"
    using assms by (auto intro!: nth_equalityI simp: nth_Cons' less_Suc_eq numeral_eq_Suc)
  then show ?thesis
    by (simp add: shaLoadWord_def be_dec_def mult.commute)
      (auto intro!: bit_word_eqI simp: bit_simps)
qed

lemma sha_schedule_upto:
  assumes "length blk = 64"
  shows "foldl shaExtend (map (shaLoadWord blk) [0..<16]) [16..<16 + n] = map (sha_W blk) [0..<16 + n]"
proof (induction n)
  case 0
  have "sha_W blk t = shaLoadWord blk t" if "t \<in> set [0..<16]" for t
    using that assms by (simp add: sha_W.simps [of blk t] shaLoadWord_be)
  then have "map (shaLoadWord blk) [0..<16] = map (sha_W blk) [0..<16]"
    by (intro map_cong) simp_all
  then show ?case by (simp only: add_0_right upt_rec [of 16 16] less_irrefl if_False foldl_Nil)
next
  case (Suc n)
  have "[16..<16 + Suc n] = [16..<16 + n] @ [16 + n]" "[0..<16 + Suc n] = [0..<16 + n] @ [16 + n]"
    by (simp_all only: add_Suc_right upt_Suc le_add1 le0 if_True)
  with Suc show ?case
    by (simp add: shaExtend_def sha_W.simps [of blk "16 + n"] shaCircularShift_rotl del: upt_Suc)
qed

lemma shaSchedule_W: "length blk = 64 \<Longrightarrow> shaSchedule blk = map (sha_W blk) [0..<80]"
  using sha_schedule_upto [of blk 64] by (simp add: shaSchedule_def)

lemma sha_Ch_or: "(B AND C) OR (NOT B AND D) = sha_Ch B C D"
  unfolding sha_Ch_def by (rule bit_word_eqI) (auto simp: bit_simps)

lemma sha_Maj_or: "(B AND C) OR (B AND D) OR (C AND D) = sha_Maj B C D"
  unfolding sha_Maj_def by (rule bit_word_eqI) (auto simp: bit_simps)

lemma shaRound_step:
  assumes "length blk = 64" and "t < 80" and "\<And>B C D. f B C D = sha_f t B C D" and "k = sha_K t"
  shows "shaRound f k (shaSchedule blk) regs t = sha_step blk regs t"
  using assms
  by (cases regs) (simp add: shaRound_def sha_step_def shaSchedule_W shaCircularShift_rotl
      Let_def ac_simps)

lemma foldl_shaRound:
  assumes "length blk = 64" and "n \<le> 80"
    and "\<And>t B C D. m \<le> t \<Longrightarrow> t < n \<Longrightarrow> f B C D = sha_f t B C D"
    and "\<And>t. m \<le> t \<Longrightarrow> t < n \<Longrightarrow> k = sha_K t"
  shows "foldl (shaRound f k (shaSchedule blk)) regs [m..<n] = foldl (sha_step blk) regs [m..<n]"
proof (rule foldl_cong [OF refl refl])
  fix x t assume "t \<in> set [m..<n]"
  with assms show "shaRound f k (shaSchedule blk) x t = sha_step blk x t"
    by (intro shaRound_step) auto
qed

lemma shaRounds_steps:
  assumes "length blk = 64"
  shows "shaRounds (shaSchedule blk) regs = foldl (sha_step blk) regs [0..<80]"
proof -
  have split: "[0..<80] = [0..<20] @ [20..<40] @ [40..<60] @ [60..<80::nat]"
    using upt_add_eq_append [of 0 20 60] upt_add_eq_append [of 20 40 40]
      upt_add_eq_append [of 40 60 20] by simp
  have r1: "foldl (shaRound (\<lambda>B C D. (B AND C) OR (NOT B AND D)) 0x5a827999 (shaSchedule blk)) r [0..<20]
      = foldl (sha_step blk) r [0..<20]" for r
    using assms by (intro foldl_shaRound) (auto simp: sha_f_def sha_K_def sha_Ch_or)
  have r2: "foldl (shaRound (\<lambda>B C D. B XOR C XOR D) 0x6ed9eba1 (shaSchedule blk)) r [20..<40]
      = foldl (sha_step blk) r [20..<40]" for r
    using assms by (intro foldl_shaRound) (auto simp: sha_f_def sha_K_def sha_Parity_def)
  have r3: "foldl (shaRound (\<lambda>B C D. (B AND C) OR (B AND D) OR (C AND D)) 0x8f1bbcdc (shaSchedule blk))
      r [40..<60] = foldl (sha_step blk) r [40..<60]" for r
    using assms by (intro foldl_shaRound) (auto simp: sha_f_def sha_K_def sha_Maj_or)
  have r4: "foldl (shaRound (\<lambda>B C D. B XOR C XOR D) 0xca62c1d6 (shaSchedule blk)) r [60..<80]
      = foldl (sha_step blk) r [60..<80]" for r
    using assms by (intro foldl_shaRound) (auto simp: sha_f_def sha_K_def sha_Parity_def)
  show ?thesis unfolding shaRounds_def Let_def r1 r2 r3 r4 split foldl_append ..
qed

lemma shaProcess_compress:
  assumes "length (messageBlock c) = 64"
  shows "shaProcessMessageBlock c =
    c\<lparr>intermediateHash := sha_compress (intermediateHash c) (messageBlock c), messageBlockIndex := 0\<rparr>"
  using assms
  by (simp add: shaProcessMessageBlock_def Let_def shaRounds_steps sha_compress_def split: prod.split)

lemma length_sha_compress [simp]: "length (sha_compress H blk) = 5"
  by (simp add: sha_compress_def split: prod.split)

section \<open>What a context stands for\<close>

lemma sha_blocks_short [simp]: "length m < 64 \<Longrightarrow> sha_blocks H m = H"
  by (simp add: sha_blocks.simps)

lemma sha_blocks_append:
  "64 dvd length full \<Longrightarrow> sha_blocks H (full @ m) = sha_blocks (sha_blocks H full) m"
proof (induction H full rule: sha_blocks.induct)
  case (1 H full)
  show ?case
  proof (cases "length full < 64")
    case True
    with 1(2) have "full = []" by (auto dest: dvd_imp_le)
    then show ?thesis by simp
  next
    case False
    with 1 show ?thesis
      by (simp add: sha_blocks.simps [of H "full @ m"] sha_blocks.simps [of H full] dvd_diff_nat)
  qed
qed

lemma sha_blocks_one: "length blk = 64 \<Longrightarrow> sha_blocks H blk = sha_compress H blk"
  by (simp add: sha_blocks.simps [of H blk])

lemma sha_blocks_two:
  assumes "64 dvd length full" and "length b1 = 64" and "length b2 = 64"
  shows "sha_blocks H (full @ (b1 @ b2)) = sha_compress (sha_compress (sha_blocks H full) b1) b2"
  using assms sha_blocks_append [of b1 "sha_blocks H full" b2]
  by (simp add: sha_blocks_append sha_blocks_one)

lemma length_sha_blocks: "length H = 5 \<Longrightarrow> length (sha_blocks H m) = 5"
  by (induction H m rule: sha_blocks.induct) (simp add: sha_blocks.simps)

definition sha_length_bits :: "CSL_ShaContext \<Rightarrow> nat" where
  "sha_length_bits c = unat (lengthHi c) * 2 ^ 32 + unat (lengthLo c)"

definition sha_represents :: "CSL_ShaContext \<Rightarrow> buffer \<Rightarrow> bool" where
  "sha_represents c m \<longleftrightarrow>
     (\<exists>full rest. m = full @ rest \<and> 64 dvd length full \<and> length rest < 64 \<and>
        messageBlockIndex c = length rest \<and> take (length rest) (messageBlock c) = rest \<and>
        length (messageBlock c) = 64 \<and> intermediateHash c = sha_blocks sha_H0 full \<and>
        sha_length_bits c = 8 * length m)"

lemma sha_representsE:
  assumes "sha_represents c m"
  obtains full rest where "m = full @ rest" "64 dvd length full" "length rest < 64"
    "messageBlockIndex c = length rest" "take (length rest) (messageBlock c) = rest"
    "length (messageBlock c) = 64" "intermediateHash c = sha_blocks sha_H0 full"
    "sha_length_bits c = 8 * length m"
  using assms unfolding sha_represents_def by blast

lemma sha_represents_reset:
  "length (messageBlock c) = 64 \<Longrightarrow> sha_represents (fst (CSL_ResetSha c)) []"
  by (simp add: sha_represents_def CSL_ResetSha_def sha_H0_def sha_length_bits_def)

text \<open>Counting the bits of one more byte in two halves.\<close>

lemma sha_count_byte:
  fixes lo hi :: u32
  assumes bits: "unat hi * 2 ^ 32 + unat lo = 8 * n" and fits: "n + 1 < 2 ^ 61"
  defines "hi' \<equiv> (if lo + 8 = 0 then hi + 1 else hi)"
  shows "unat hi' * 2 ^ 32 + unat (lo + 8) = 8 * (n + 1)" and "lo + 8 = 0 \<longrightarrow> hi' \<noteq> 0"
proof -
  have lo8: "8 dvd unat lo"
  proof -
    have "8 dvd unat hi * 2 ^ 32 + unat lo" using bits by simp
    moreover have "8 dvd unat hi * (2 ^ 32 :: nat)" by (intro dvd_mult) simp
    ultimately show ?thesis using dvd_add_right_iff by blast
  qed
  have lo_lt: "unat lo < 2 ^ 32" using unsigned_less [of lo] by simp
  have le: "unat lo \<le> 2 ^ 32 - 8" using lo8 lo_lt by (auto elim!: dvdE)
  have add: "unat (lo + 8) = (unat lo + 8) mod 2 ^ 32" by (simp add: unat_word_ariths)
  have zero: "lo + 8 = 0 \<longleftrightarrow> unat lo = 2 ^ 32 - 8"
    using le add unsigned_eq_0_iff [of "lo + 8"] by (cases "unat lo = 2 ^ 32 - 8") auto
  have hi_lt: "unat hi + 1 < 2 ^ 32" if "lo + 8 = 0" using bits fits zero that by simp
  then have hi1: "unat (hi + 1) = unat hi + 1" if "lo + 8 = 0"
    using that by (simp add: unat_word_ariths)
  show "unat hi' * 2 ^ 32 + unat (lo + 8) = 8 * (n + 1)"
  proof (cases "lo + 8 = 0")
    case True
    then show ?thesis using hi1 zero bits by (simp add: hi'_def)
  next
    case False
    then have "unat lo + 8 < 2 ^ 32" using zero le by simp
    then show ?thesis using False bits add by (simp add: hi'_def)
  qed
  show "lo + 8 = 0 \<longrightarrow> hi' \<noteq> 0" using hi1 by (auto simp: hi'_def)
qed

lemma and_ff [simp]: "(b :: u8) AND 0xFF = b"
proof -
  have "(0xFF :: u8) = - 1" by simp
  then show ?thesis by (simp only: and.right_neutral)
qed

lemma take_update_snoc:
  "k < length xs \<Longrightarrow> take (Suc k) (xs[k := b]) = take k xs @ [b]"
  by (simp add: take_Suc_conv_app_nth)

section \<open>Input appends to what a context stands for\<close>

lemma shaInputByte_represents:
  assumes "sha_represents c m" and "length m + 1 < 2 ^ 61"
  shows "\<exists>c'. shaInputByte c b = (c', False) \<and> sha_represents c' (m @ [b])"
proof -
  obtain full rest where m: "m = full @ rest" "64 dvd length full" "length rest < 64"
    and idx: "messageBlockIndex c = length rest" and pre: "take (length rest) (messageBlock c) = rest"
    and len: "length (messageBlock c) = 64" and H: "intermediateHash c = sha_blocks sha_H0 full"
    and bits: "sha_length_bits c = 8 * length m"
    using assms(1) by (rule sha_representsE)
  define hi' where "hi' = (if lengthLo c + 8 = 0 then lengthHi c + 1 else lengthHi c)"
  define blk where "blk = (messageBlock c)[length rest := b]"
  define c1 where "c1 = c\<lparr>messageBlock := blk, messageBlockIndex := length rest + 1,
    lengthLo := lengthLo c + 8, lengthHi := hi'\<rparr>"
  have count: "unat hi' * 2 ^ 32 + unat (lengthLo c + 8) = 8 * (length m + 1)"
    "lengthLo c + 8 = 0 \<longrightarrow> hi' \<noteq> 0"
    using sha_count_byte [OF bits [unfolded sha_length_bits_def] assms(2)] by (simp_all add: hi'_def)
  have step: "shaInputByte c b =
      (if length rest + 1 = 64 then (shaProcessMessageBlock c1, False) else (c1, False))"
    using count(2) by (auto simp: shaInputByte_def Let_def c1_def hi'_def blk_def idx)
  have blk: "take (length rest + 1) blk = rest @ [b]" "length blk = 64"
    using m(3) len pre by (simp_all add: blk_def take_update_snoc)
  show ?thesis
  proof (cases "length rest + 1 = 64")
    case True
    then have full_blk: "blk = rest @ [b]" using blk by simp
    have "sha_blocks sha_H0 (full @ blk) = sha_compress (sha_blocks sha_H0 full) blk"
      using m(2) blk(2) by (simp add: sha_blocks_append sha_blocks_one)
    then have "sha_represents (shaProcessMessageBlock c1) (m @ [b])"
      unfolding sha_represents_def using m(2) blk(2) count(1) full_blk
      by (intro exI [of _ "full @ blk"] exI [of _ "[]"])
        (auto simp: shaProcess_compress c1_def m(1) H sha_length_bits_def)
    with True step show ?thesis by simp
  next
    case False
    then have "sha_represents c1 (m @ [b])"
      unfolding sha_represents_def using m blk count(1)
      by (intro exI [of _ full] exI [of _ "rest @ [b]"]) (auto simp: c1_def H sha_length_bits_def)
    with False step show ?thesis by simp
  qed
qed

lemma shaInputLoop_represents:
  "sha_represents c m \<Longrightarrow> length m + length bs < 2 ^ 61 \<Longrightarrow>
     \<exists>c'. shaInputLoop bs c = (c', CSL_OK) \<and> sha_represents c' (m @ bs)"
proof (induction bs arbitrary: c m)
  case (Cons b bs)
  then obtain c1 where "shaInputByte c b = (c1, False)" "sha_represents c1 (m @ [b])"
    using shaInputByte_represents [of c m b] by auto
  then show ?case using Cons.IH [of c1 "m @ [b]"] Cons.prems by simp
qed simp

section \<open>Padding\<close>

lemma shaZeroTo_eq:
  "messageBlockIndex c \<le> limit \<Longrightarrow> limit \<le> length (messageBlock c) \<Longrightarrow>
   shaZeroTo limit c =
     c\<lparr>messageBlock := take (messageBlockIndex c) (messageBlock c) @
          replicate (limit - messageBlockIndex c) 0 @ drop limit (messageBlock c),
       messageBlockIndex := limit\<rparr>"
proof (induction limit c rule: shaZeroTo.induct)
  case (1 limit c)
  let ?i = "messageBlockIndex c" and ?b = "messageBlock c"
  show ?case
  proof (cases "?i < limit")
    case True
    then have "limit - ?i = Suc (limit - Suc ?i)" by simp
    with True 1 show ?thesis
      by (simp add: shaZeroTo.simps [of limit c] take_update_snoc)
  next
    case False
    with "1.prems" show ?thesis by (simp add: shaZeroTo.simps [of limit c])
  qed
qed

lemma length_8_list:
  "length xs = 8 \<Longrightarrow> \<exists>x0 x1 x2 x3 x4 x5 x6 x7. xs = [x0, x1, x2, x3, x4, x5, x6, x7]"
  by (auto simp: length_Suc_conv numeral_eq_Suc)

lemma update_last8_aux:
  "length pre = 56 \<Longrightarrow>
   (pre @ [y0, y1, y2, y3, y4, y5, y6, y7])
     [56 := a, 57 := b, 58 := c, 59 := d, 60 := e, 61 := f, 62 := g, 63 := h]
   = pre @ [a, b, c, d, e, f, g, h]"
  by (simp add: list_update_append)

lemma update_last8:
  assumes "length blk = 64"
  shows "blk[56 := a, 57 := b, 58 := c, 59 := d, 60 := e, 61 := f, 62 := g, 63 := h]
         = take 56 blk @ [a, b, c, d, e, f, g, h]"
proof -
  obtain y0 y1 y2 y3 y4 y5 y6 y7 where "drop 56 blk = [y0, y1, y2, y3, y4, y5, y6, y7]"
    using length_8_list [of "drop 56 blk"] assms by auto
  then have split: "blk = take 56 blk @ [y0, y1, y2, y3, y4, y5, y6, y7]"
    by (metis append_take_drop_id)
  show ?thesis
    by (subst split) (rule update_last8_aux, simp add: assms)
qed

text \<open>The two halves of the length as one big-endian word.\<close>

lemma be_enc_halves:
  "be_enc 8 (v :: u64) = be_enc 4 (ucast (drop_bit 32 v) :: u32) @ be_enc 4 (ucast v :: u32)"
  by (simp add: be_enc_def upt_rec) (auto intro!: bit_word_eqI simp: bit_simps)

lemma be_enc_4_bytes:
  "be_enc 4 (v :: u32) = [ucast (drop_bit 24 v), ucast (drop_bit 16 v), ucast (drop_bit 8 v), ucast v]"
  by (simp add: be_enc_def upt_rec)

lemma u64_halves:
  fixes hi lo :: u32
  assumes "unat hi * 2 ^ 32 + unat lo = N"
  shows "ucast (drop_bit 32 (word_of_nat N :: u64)) = hi" and "ucast (word_of_nat N :: u64) = lo"
proof -
  have lo: "unat lo < 2 ^ 32" and hi: "unat hi < 2 ^ 32"
    using unsigned_less [of lo] unsigned_less [of hi] by simp_all
  then have N: "N < 2 ^ 64" using assms by simp
  have n: "unat (word_of_nat N :: u64) = N"
    using N by (simp add: unsigned_of_nat take_bit_nat_eq_self)
  have div: "N div 2 ^ 32 = unat hi" and modN: "N mod 2 ^ 32 = unat lo"
    using assms lo by auto
  show "ucast (drop_bit 32 (word_of_nat N :: u64)) = hi"
    using hi by (intro word_unat_eq_iff [THEN iffD2])
      (simp only: unsigned_ucast_eq unsigned_drop_bit_eq n take_bit_eq_mod drop_bit_eq_div [where 'a = nat] div,
       use N div in simp)
  show "ucast (word_of_nat N :: u64) = lo"
    by (intro word_unat_eq_iff [THEN iffD2])
      (simp only: unsigned_ucast_eq n take_bit_eq_mod, simp add: modN [simplified])
qed

lemma sha_pad_blocks_short:
  assumes "64 dvd length full" and "length rest \<le> 55"
  shows "sha_pad (full @ rest) = full @ (rest @ [0x80] @ replicate (55 - length rest) 0 @
           be_enc 8 (word_of_nat (8 * length (full @ rest)) :: u64))"
proof -
  have "length (full @ rest) mod 64 = length rest" using assms by (auto elim!: dvdE)
  moreover have "(119 - length rest) mod 64 = 55 - length rest"
  proof -
    have "119 - length rest = (55 - length rest) + 64" using assms(2) by simp
    then show ?thesis using assms(2) by (simp only: mod_add_self2) simp
  qed
  ultimately show ?thesis by (simp add: sha_pad_def del: length_append)
qed

lemma sha_pad_blocks_long:
  assumes "64 dvd length full" and "55 < length rest" and "length rest < 64"
  shows "sha_pad (full @ rest) = full @ ((rest @ [0x80] @ replicate (63 - length rest) 0) @
           (replicate 56 0 @ be_enc 8 (word_of_nat (8 * length (full @ rest)) :: u64)))"
proof -
  have "length (full @ rest) mod 64 = length rest" using assms by (auto elim!: dvdE)
  moreover have "(119 - length rest) mod 64 = (63 - length rest) + 56" using assms by simp
  moreover have "replicate ((63 - length rest) + 56) z = replicate (63 - length rest) z @ replicate 56 z"
    for z :: u8 by (rule replicate_add)
  ultimately show ?thesis by (simp only: sha_pad_def append_assoc)
qed

section \<open>The result is the hash\<close>

lemma shaPadMessage_hash:
  assumes "sha_represents c m"
  shows "intermediateHash (shaPadMessage c) = sha_blocks sha_H0 (sha_pad m)"
proof -
  obtain full rest where m: "m = full @ rest" "64 dvd length full" "length rest < 64"
    and idx: "messageBlockIndex c = length rest" and pre: "take (length rest) (messageBlock c) = rest"
    and len: "length (messageBlock c) = 64" and H: "intermediateHash c = sha_blocks sha_H0 full"
    and bits: "sha_length_bits c = 8 * length m"
    using assms by (rule sha_representsE)
  let ?len = "be_enc 8 (word_of_nat (8 * length m) :: u64)"
  have lenbytes: "[ucast (drop_bit 24 (lengthHi c)), ucast (drop_bit 16 (lengthHi c)),
      ucast (drop_bit 8 (lengthHi c)), ucast (lengthHi c), ucast (drop_bit 24 (lengthLo c)),
      ucast (drop_bit 16 (lengthLo c)), ucast (drop_bit 8 (lengthLo c)), ucast (lengthLo c)] = ?len"
    using u64_halves [OF bits [unfolded sha_length_bits_def]]
    by (simp add: be_enc_halves be_enc_4_bytes)
  let ?mark = "c\<lparr>messageBlock := (messageBlock c)[length rest := 0x80],
                 messageBlockIndex := Suc (length rest)\<rparr>"
  have marked: "take (Suc (length rest)) ((messageBlock c)[length rest := 0x80]) = rest @ [0x80]"
    using m(3) len pre by (simp add: take_update_snoc)
  show ?thesis
  proof (cases "length rest > 55")
    case True
    let ?b1 = "rest @ [0x80] @ replicate (63 - length rest) 0"
    have b1: "length ?b1 = 64" using m(3) by simp
    have fill: "shaZeroTo 64 ?mark = c\<lparr>messageBlock := ?b1, messageBlockIndex := 64\<rparr>"
      using m(3) len by (simp add: shaZeroTo_eq marked)
    have proc: "shaProcessMessageBlock (shaZeroTo 64 ?mark) =
        c\<lparr>intermediateHash := sha_compress (intermediateHash c) ?b1,
          messageBlock := ?b1, messageBlockIndex := 0\<rparr>"
      unfolding fill using b1 by (simp add: shaProcess_compress)
    have "intermediateHash (shaPadMessage c) =
        sha_compress (sha_compress (intermediateHash c) ?b1) (replicate 56 0 @ ?len)"
      using True b1 unfolding shaPadMessage_def idx Let_def
      by (simp add: proc shaZeroTo_eq shaProcess_compress update_last8 lenbytes)
    moreover have "sha_blocks sha_H0 (sha_pad m) =
        sha_compress (sha_compress (intermediateHash c) ?b1) (replicate 56 0 @ ?len)"
      unfolding m(1) sha_pad_blocks_long [OF m(2) True m(3)] H
      using m(2) b1 by (intro sha_blocks_two) simp_all
    ultimately show ?thesis by simp
  next
    case False
    let ?b = "rest @ [0x80] @ replicate (55 - length rest) 0 @ ?len"
    have b: "length ?b = 64" using False by simp
    have fill: "shaZeroTo 56 ?mark = c\<lparr>messageBlock := rest @ [0x80] @ replicate (55 - length rest) 0 @
        drop 56 ((messageBlock c)[length rest := 0x80]), messageBlockIndex := 56\<rparr>"
      using False len by (simp add: shaZeroTo_eq marked)
    have "56 - length rest = Suc (55 - length rest)" using False by simp
    then have cut: "take (56 - length rest) (0x80 # replicate (55 - length rest) 0 @ xs) =
        0x80 # replicate (55 - length rest) 0" for xs :: buffer by simp
    have "intermediateHash (shaPadMessage c) = sha_compress (intermediateHash c) ?b"
      using False b len unfolding shaPadMessage_def idx Let_def
      by (simp add: fill shaProcess_compress update_last8 lenbytes cut)
    moreover have "sha_blocks sha_H0 (sha_pad m) = sha_compress (intermediateHash c) ?b"
      using sha_pad_blocks_short [OF m(2), of rest] False m(2) b
      by (simp add: m(1) sha_blocks_append H sha_blocks_one)
    ultimately show ?thesis by simp
  qed
qed

lemma sha1_bytes:
  assumes "length hs = 5"
  shows "map (\<lambda>i. ucast (drop_bit (8 * (3 - i mod 4)) (hs ! (i div 4)))) [0..<20] =
         concat (map (be_enc 4) (hs :: u32 list))"
proof -
  obtain h0 h1 h2 h3 h4 where hs: "hs = [h0, h1, h2, h3, h4]"
    using assms by (auto simp: length_Suc_conv numeral_eq_Suc)
  show ?thesis by (simp add: hs be_enc_4_bytes upt_rec)
qed

lemma CSL_ResultSha_hash:
  assumes "sha_represents c m"
  shows "fst (snd (CSL_ResultSha c)) = sha1 m" and "snd (snd (CSL_ResultSha c)) = CSL_OK"
proof -
  have "length (sha_blocks sha_H0 (sha_pad m)) = 5"
    by (rule length_sha_blocks) (simp add: sha_H0_def)
  then show "fst (snd (CSL_ResultSha c)) = sha1 m"
    by (simp add: CSL_ResultSha_def Let_def shaPadMessage_hash [OF assms] sha1_bytes sha1_def)
qed (simp add: CSL_ResultSha_def Let_def)

lemma length_sha1 [simp]: "length (sha1 m) = 20"
proof -
  have "length (sha_blocks sha_H0 (sha_pad m)) = 5"
    by (rule length_sha_blocks) (simp add: sha_H0_def)
  then show ?thesis by (auto simp: sha1_def length_concat o_def sum_list_triv)
qed

section \<open>The contract of a streaming hash\<close>

text \<open>
  What the message authentication code relies on: contexts stand for the bytes fed so far, an
  input within the length limit succeeds and appends, the result is the hash of those bytes.
\<close>

locale streaming_hash =
  fixes rep :: "'c \<Rightarrow> buffer \<Rightarrow> bool"
    and input :: "'c \<Rightarrow> buffer \<Rightarrow> 'c \<times> int"
    and result :: "'c \<Rightarrow> buffer"
    and hash :: "buffer \<Rightarrow> buffer"
    and limit :: nat
  assumes input_rep: "rep c m \<Longrightarrow> length m + length bs < limit \<Longrightarrow>
      snd (input c bs) = CSL_OK \<and> rep (fst (input c bs)) (m @ bs)"
    and result_hash: "rep c m \<Longrightarrow> result c = hash m"
begin

lemma feed_rep:
  "rep c m \<Longrightarrow> length m + length (concat bss) < limit \<Longrightarrow>
     rep (foldl (\<lambda>c bs. fst (input c bs)) c bss) (m @ concat bss)"
proof (induction bss arbitrary: c m)
  case (Cons bs bss)
  then have "rep (fst (input c bs)) (m @ bs)" using input_rep [of c m bs] by simp
  with Cons show ?case using Cons.IH [of "fst (input c bs)" "m @ bs"] by simp
qed simp

lemma feed_result:
  "rep c [] \<Longrightarrow> length (concat bss) < limit \<Longrightarrow>
     result (foldl (\<lambda>c bs. fst (input c bs)) c bss) = hash (concat bss)"
  using feed_rep [of c "[]" bss] result_hash by simp

lemma feed_split:
  assumes "rep c []" and "concat as = concat bs" and "length (concat as) < limit"
  shows "result (foldl (\<lambda>c b. fst (input c b)) c as) = result (foldl (\<lambda>c b. fst (input c b)) c bs)"
  using assms feed_result [of c as] feed_result [of c bs] by simp

lemma two_inputs:
  "rep c [] \<Longrightarrow> length a + length b < limit \<Longrightarrow>
     result (fst (input (fst (input c a)) b)) = hash (a @ b)"
  using feed_result [of c "[a, b]"] by simp

end

interpretation sha: streaming_hash sha_represents "\<lambda>c bs. shaInputLoop bs c"
  "\<lambda>c. fst (snd (CSL_ResultSha c))" sha1 "2 ^ 61"
proof
  show "snd (shaInputLoop bs c) = CSL_OK \<and> sha_represents (fst (shaInputLoop bs c)) (m @ bs)"
    if "sha_represents c m" "length m + length bs < 2 ^ 61" for c m bs
    using shaInputLoop_represents [OF that] by auto
qed (rule CSL_ResultSha_hash)

lemma CSL_InputSha_loop:
  assumes "length bs < 2 ^ 32"
  shows "CSL_InputSha c (Some bs) (word_of_nat (length bs)) = Some (shaInputLoop bs c)"
proof -
  have "unat (word_of_nat (length bs) :: u32) = length bs"
    using assms by (simp add: unsigned_of_nat take_bit_nat_eq_self)
  then show ?thesis
    by (cases "bs = []") (auto simp: CSL_InputSha_def word_unat_eq_iff)
qed

section \<open>Properties of the hash\<close>

text \<open>Feeding a context piece by piece, stopping at the first error.\<close>

primrec sha_feed :: "CSL_ShaContext \<Rightarrow> buffer list \<Rightarrow> (CSL_ShaContext \<times> int) option" where
  "sha_feed c [] = Some (c, CSL_OK)"
| "sha_feed c (bs # bss) =
     do {
       (c', rc) \<leftarrow> CSL_InputSha c (Some bs) (word_of_nat (length bs));
       if rc = CSL_OK then sha_feed c' bss else Some (c', rc)
     }"

lemma sha_feed_foldl:
  "sha_represents c m \<Longrightarrow> length m + length (concat bss) < 2 ^ 61 \<Longrightarrow>
     (\<forall>bs\<in>set bss. length bs < 2 ^ 32) \<Longrightarrow>
     sha_feed c bss = Some (foldl (\<lambda>c bs. fst (shaInputLoop bs c)) c bss, CSL_OK)"
proof (induction bss arbitrary: c m)
  case (Cons bs bss)
  then obtain c' where c': "shaInputLoop bs c = (c', CSL_OK)" "sha_represents c' (m @ bs)"
    using shaInputLoop_represents [of c m bs] by auto
  with Cons show ?case using Cons.IH [of c' "m @ bs"] by (simp add: CSL_InputSha_loop)
qed simp

text \<open>
  C12: however a message of fewer than 2 to the 61 bytes is cut into inputs of fewer than 2
  to the 32 bytes, resetting a context, feeding the pieces in order and asking for the result
  gives the SHA-1 hash of FIPS 180-4 of the whole message, and no call reports an error.
\<close>

theorem sha_stream_is_sha1:
  assumes "length (messageBlock c0) = CSL_SHA1_BLOCKSIZE"
    and "\<forall>bs\<in>set bss. length bs < 2 ^ 32" and "length (concat bss) < 2 ^ 61"
  shows "map_option (\<lambda>(c, rc). (snd (CSL_ResultSha c), rc)) (sha_feed (fst (CSL_ResetSha c0)) bss) =
         Some ((sha1 (concat bss), CSL_OK), CSL_OK)"
proof -
  let ?c = "foldl (\<lambda>c bs. fst (shaInputLoop bs c)) (fst (CSL_ResetSha c0)) bss"
  have r0: "sha_represents (fst (CSL_ResetSha c0)) []"
    using assms(1) by (simp add: sha_represents_reset)
  have "sha_represents ?c (concat bss)" using sha.feed_rep [OF r0] assms(3) by simp
  then have "snd (CSL_ResultSha ?c) = (sha1 (concat bss), CSL_OK)"
    by (intro prod_eqI) (simp_all add: CSL_ResultSha_hash)
  then show ?thesis using sha_feed_foldl [OF r0] assms by simp
qed

theorem sha_stream_is_sha1_witness:
  "map_option (\<lambda>(c, rc). (snd (CSL_ResultSha c), rc))
     (sha_feed (fst (CSL_ResetSha \<lparr>intermediateHash = [], lengthLo = 7, lengthHi = 7,
        messageBlockIndex = 5, messageBlock = replicate 64 0xAA\<rparr>)) [[0x61, 0x62], [], [0x63]]) =
   Some ((sha1 [0x61, 0x62, 0x63], CSL_OK), CSL_OK)"
  by (subst sha_stream_is_sha1) simp_all

end
