(* ===== verification/Csl_Sha1.thy ===== *)
theory Csl_Sha1
  imports Csl_Sha_Correct
begin

text \<open>
  The other SHA-1 of the library (\<open>csl/src/sha1.c\<close>), which OAEP uses: it copies whole blocks instead of
  single bytes and works in place on the host's words. The host is little-endian
  (\<open>SHA1_LITTLE_ENDIAN\<close>), so the array \<open>data\<close> of 16 words is kept as its 64 bytes.
  \<open>SHA1Input\<close> and \<open>SHA1Result\<close> compute the same hash as \<open>cslsha.c\<close>.
\<close>

unbundle bit_operations_syntax

definition SHA1_BLOCKSIZE :: nat where [simp]: "SHA1_BLOCKSIZE = 64"
definition SHA1_DIGESTSIZE :: nat where [simp]: "SHA1_DIGESTSIZE = 20"

record SHA1Context =
  sx_digest :: "u32 list"
  sx_count_lo :: u32
  sx_count_hi :: u32
  sx_data :: buffer
  sx_no_padding :: u32

definition f1 :: "u32 \<Rightarrow> u32 \<Rightarrow> u32 \<Rightarrow> u32" where "f1 x y z = (x AND y) OR (NOT x AND z)"
definition f2 :: "u32 \<Rightarrow> u32 \<Rightarrow> u32 \<Rightarrow> u32" where "f2 x y z = x XOR y XOR z"
definition f3 :: "u32 \<Rightarrow> u32 \<Rightarrow> u32 \<Rightarrow> u32" where "f3 x y z = (x AND y) OR (x AND z) OR (y AND z)"
definition f4 :: "u32 \<Rightarrow> u32 \<Rightarrow> u32 \<Rightarrow> u32" where "f4 x y z = x XOR y XOR z"

definition CONST1 :: u32 where "CONST1 = 0x5a827999"
definition CONST2 :: u32 where "CONST2 = 0x6ed9eba1"
definition CONST3 :: u32 where "CONST3 = 0x8f1bbcdc"
definition CONST4 :: u32 where "CONST4 = 0xca62c1d6"

definition ROT32 :: "u32 \<Rightarrow> nat \<Rightarrow> u32" where
  "ROT32 x n = push_bit n x OR drop_bit (32 - n) x"

text \<open>One turn of the loops, for the function and the constant of the loop.\<close>

definition FUNC :: "(u32 \<Rightarrow> u32 \<Rightarrow> u32 \<Rightarrow> u32) \<Rightarrow> u32 \<Rightarrow> u32 list \<Rightarrow> sha_regs \<Rightarrow> nat \<Rightarrow> sha_regs" where
  "FUNC f const W regs i =
     (case regs of (A, B, C, D, E) \<Rightarrow>
        let temp = ROT32 A 5 + f B C D + E + W ! i + const
        in (temp, A, ROT32 B 30, C, D))"

definition data_word :: "buffer \<Rightarrow> nat \<Rightarrow> u32" where
  "data_word data i = host_dec (take 4 (drop (4 * i) data))"

definition sha1_extend :: "u32 list \<Rightarrow> nat \<Rightarrow> u32 list" where
  "sha1_extend W i = W @ [ROT32 (W ! (i - 3) XOR W ! (i - 8) XOR W ! (i - 14) XOR W ! (i - 16)) 1]"

definition SHA1Transform :: "SHA1Context \<Rightarrow> SHA1Context" where
  "SHA1Transform ctx =
     (let W = foldl sha1_extend (map (data_word (sx_data ctx)) [0..<16]) [16..<80];
          H = sx_digest ctx;
          regs = (H ! 0, H ! 1, H ! 2, H ! 3, H ! 4);
          regs = foldl (FUNC f1 CONST1 W) regs [0..<20];
          regs = foldl (FUNC f2 CONST2 W) regs [20..<40];
          regs = foldl (FUNC f3 CONST3 W) regs [40..<60];
          (A, B, C, D, E) = foldl (FUNC f4 CONST4 W) regs [60..<80]
      in ctx\<lparr>sx_digest := [H ! 0 + A, H ! 1 + B, H ! 2 + C, H ! 3 + D, H ! 4 + E]\<rparr>)"

fun byte_reverse :: "buffer \<Rightarrow> buffer" where
  "byte_reverse (b0 # b1 # b2 # b3 # bs) = b3 # b2 # b1 # b0 # byte_reverse bs"
| "byte_reverse bs = bs"

definition SHA1Reset :: "SHA1Context \<Rightarrow> SHA1Context \<times> int" where
  "SHA1Reset ctx =
     (ctx\<lparr>sx_digest := [0x67452301, 0xefcdab89, 0x98badcfe, 0x10325476, 0xc3d2e1f0],
        sx_count_lo := 0, sx_count_hi := 0, sx_no_padding := 0\<rparr>, 0)"

definition SHA1SetNoPadding :: "SHA1Context \<Rightarrow> SHA1Context \<times> int" where
  "SHA1SetNoPadding ctx = (ctx\<lparr>sx_no_padding := 1\<rparr>, 0)"

section \<open>Input\<close>

text \<open>\<open>memcpy((SHA1_BYTE * )ctx->data + res, buffer, count)\<close>, of all of \<open>bs\<close>.\<close>

definition sha1_store :: "SHA1Context \<Rightarrow> nat \<Rightarrow> buffer \<Rightarrow> SHA1Context" where
  "sha1_store ctx res bs =
     ctx\<lparr>sx_data := take res (sx_data ctx) @ bs @ drop (res + length bs) (sx_data ctx)\<rparr>"

text \<open>From \<open>process\<close> on: the block in \<open>data\<close>.\<close>

definition sha1_process :: "SHA1Context \<Rightarrow> SHA1Context" where
  "sha1_process ctx = SHA1Transform (ctx\<lparr>sx_data := byte_reverse (sx_data ctx)\<rparr>)"

function sha1_blocks :: "SHA1Context \<Rightarrow> buffer \<Rightarrow> SHA1Context \<times> buffer" where
  "sha1_blocks ctx bs =
     (if length bs \<ge> SHA1_BLOCKSIZE
      then sha1_blocks (sha1_process (sha1_store ctx 0 (take SHA1_BLOCKSIZE bs))) (drop SHA1_BLOCKSIZE bs)
      else (ctx, bs))"
  by pat_completeness auto
termination
  by (relation "measure (length \<circ> snd)") auto

definition sha1_input :: "SHA1Context \<Rightarrow> buffer \<Rightarrow> SHA1Context" where
  "sha1_input ctx bs =
     (let res = unat (drop_bit 3 (sx_count_lo ctx) AND of_nat (SHA1_BLOCKSIZE - 1));
          count = of_nat (length bs) :: u32;
          ctx = (if sx_count_lo ctx + push_bit 3 count < sx_count_lo ctx
                 then ctx\<lparr>sx_count_hi := sx_count_hi ctx + 1\<rparr> else ctx);
          ctx = ctx\<lparr>sx_count_lo := sx_count_lo ctx + push_bit 3 count,
                  sx_count_hi := sx_count_hi ctx + drop_bit 29 count\<rparr>
      in if res \<noteq> 0 \<and> res + length bs \<ge> SHA1_BLOCKSIZE
         then let n = SHA1_BLOCKSIZE - res;
                  (ctx, bs) = sha1_blocks (sha1_process (sha1_store ctx res (take n bs))) (drop n bs)
              in sha1_store ctx 0 bs
         else let (ctx, bs) = sha1_blocks ctx bs in sha1_store ctx res bs)"

text \<open>\<open>count\<close> is an \<open>int\<close>: a negative count makes the last copy go beyond everything.\<close>

definition SHA1Input :: "SHA1Context \<Rightarrow> buffer \<Rightarrow> u32 \<Rightarrow> (SHA1Context \<times> int) option" where
  "SHA1Input ctx buffer count =
     (if sint count < 0 then None
      else do { bs \<leftarrow> rd_bytes buffer 0 (unat count); Some (sha1_input ctx bs, 0) })"

section \<open>Result\<close>

definition SHA1Result :: "SHA1Context \<Rightarrow> SHA1Context \<times> buffer \<times> int" where
  "SHA1Result ctx =
     (let ctx = (if sx_no_padding ctx = 0
        then let lo_bit_count = sx_count_lo ctx; hi_bit_count = sx_count_hi ctx;
                 count = unat (drop_bit 3 lo_bit_count AND 0x3f);
                 ctx = sha1_store ctx count [0x80];
                 count = count + 1;
                 ctx = (if count > 56
                        then sha1_store (sha1_process (sha1_store ctx count (replicate (64 - count) 0))) 0 (replicate 56 0)
                        else sha1_store ctx count (replicate (56 - count) 0));
                 ctx = ctx\<lparr>sx_data := byte_reverse (sx_data ctx)\<rparr>;
                 ctx = sha1_store ctx 56 (host_enc 4 hi_bit_count);
                 ctx = sha1_store ctx 60 (host_enc 4 lo_bit_count)
             in SHA1Transform ctx
        else ctx)
      in (ctx, byte_reverse (concat (map (host_enc 4) (sx_digest ctx))), 0))"

section \<open>Equality with SHA-1\<close>

declare sha1_blocks.simps [simp del]

lemma byte_reverse_words:
  "4 dvd length data \<Longrightarrow> 4 * i < length data \<Longrightarrow>
    take 4 (drop (4 * i) (byte_reverse data)) = rev (take 4 (drop (4 * i) data))"
proof (induction data arbitrary: i rule: byte_reverse.induct)
  case (1 b0 b1 b2 b3 bs)
  have "4 dvd length bs" using "1.prems"(1) by simp presburger
  then show ?case using 1 by (cases i) (simp_all add: eval_nat_numeral)
qed (simp_all add: dvd_def, arith+)

lemma length_byte_reverse [simp]: "length (byte_reverse bs) = length bs"
  by (induction bs rule: byte_reverse.induct) simp_all

lemma data_word_reverse:
  "length data = 64 \<Longrightarrow> i < 16 \<Longrightarrow> data_word (byte_reverse data) i = be_dec (take 4 (drop (4 * i) data))"
  by (simp add: data_word_def host_dec_rev byte_reverse_words)

lemma rounds_agree:
  "ROT32 x n = shaCircularShift n x" "sha1_extend = shaExtend" "FUNC f k = shaRound f k"
  by (simp_all add: fun_eq_iff ROT32_def shaCircularShift_def sha1_extend_def shaExtend_def FUNC_def shaRound_def)

lemma transform_compress:
  assumes "length blk = 64" and "\<And>i. i < 16 \<Longrightarrow> data_word (sx_data ctx) i = be_dec (take 4 (drop (4 * i) blk))"
  shows "SHA1Transform ctx = ctx\<lparr>sx_digest := sha_compress (sx_digest ctx) blk\<rparr>"
proof -
  have "map (data_word (sx_data ctx)) [0..<16] = map (shaLoadWord blk) [0..<16]"
    using assms by (simp add: shaLoadWord_be del: upt_rec_numeral)
  then have W: "foldl sha1_extend (map (data_word (sx_data ctx)) [0..<16]) [16..<80] = shaSchedule blk"
    by (simp only: rounds_agree shaSchedule_def)
  have fs: "f1 = (\<lambda>B C D. (B AND C) OR (NOT B AND D))" "f2 = (\<lambda>B C D. B XOR C XOR D)"
    "f3 = (\<lambda>B C D. (B AND C) OR (B AND D) OR (C AND D))" "f4 = (\<lambda>B C D. B XOR C XOR D)"
    by (simp_all add: fun_eq_iff f1_def f2_def f3_def f4_def)
  show ?thesis
    using shaRounds_steps [OF assms(1), of "(sx_digest ctx ! 0, sx_digest ctx ! 1, sx_digest ctx ! 2, sx_digest ctx ! 3, sx_digest ctx ! 4)"]
    unfolding SHA1Transform_def Let_def W rounds_agree(3) fs CONST1_def CONST2_def CONST3_def CONST4_def
      shaRounds_def Let_def sha_compress_def by (simp add: split_beta del: upt_rec_numeral)
qed

lemma process_compress:
  assumes "length (sx_data ctx) = 64"
  shows "sha1_process ctx =
    ctx\<lparr>sx_data := byte_reverse (sx_data ctx), sx_digest := sha_compress (sx_digest ctx) (sx_data ctx)\<rparr>"
  using transform_compress [OF assms, of "ctx\<lparr>sx_data := byte_reverse (sx_data ctx)\<rparr>"] assms
  by (simp add: sha1_process_def data_word_reverse)

lemma sha1_blocks_value:
  assumes "length (sx_data ctx) = 64"
  shows "\<exists>data. length data = 64 \<and> sha1_blocks ctx bs =
    (ctx\<lparr>sx_data := data, sx_digest := sha_blocks (sx_digest ctx) bs\<rparr>, drop (length bs div 64 * 64) bs)"
  using assms
proof (induction ctx bs rule: sha1_blocks.induct)
  case (1 ctx bs)
  show ?case
  proof (cases "length bs \<ge> 64")
    case True
    let ?ctx = "sha1_process (sha1_store ctx 0 (take 64 bs))"
    have ctx: "?ctx = ctx\<lparr>sx_data := byte_reverse (take 64 bs), sx_digest := sha_compress (sx_digest ctx) (take 64 bs)\<rparr>"
      using True "1.prems" by (subst process_compress) (simp_all add: sha1_store_def min_def)
    obtain data where "length data = 64" "sha1_blocks ?ctx (drop 64 bs) =
        (?ctx\<lparr>sx_data := data, sx_digest := sha_blocks (sx_digest ?ctx) (drop 64 bs)\<rparr>,
         drop (length (drop 64 bs) div 64 * 64) (drop 64 bs))"
      using "1.IH" True ctx by auto
    moreover have "sha_blocks (sx_digest ctx) bs = sha_blocks (sha_compress (sx_digest ctx) (take 64 bs)) (drop 64 bs)"
      using True by (subst sha_blocks.simps) simp
    moreover have "length (drop 64 bs) div 64 * 64 + 64 = length bs div 64 * 64"
      using True le_div_geq [of 64 "length bs"] by simp
    ultimately show ?thesis using True ctx by (intro exI [of _ data]) (subst sha1_blocks.simps, simp add: add.commute)
  next
    case False
    then show ?thesis using "1.prems" by (intro exI [of _ "sx_data ctx"]) (subst sha1_blocks.simps, simp)
  qed
qed

section \<open>Streaming\<close>

definition sx_represents :: "SHA1Context \<Rightarrow> buffer \<Rightarrow> bool" where
  "sx_represents ctx m \<longleftrightarrow>
     (\<exists>full rest. m = full @ rest \<and> 64 dvd length full \<and> length rest < 64 \<and>
        take (length rest) (sx_data ctx) = rest \<and> length (sx_data ctx) = 64 \<and>
        sx_digest ctx = sha_blocks sha_H0 full \<and> sx_no_padding ctx = 0 \<and>
        unat (sx_count_hi ctx) * 2 ^ 32 + unat (sx_count_lo ctx) = 8 * length m)"

lemma sx_reset: "length (sx_data ctx) = 64 \<Longrightarrow> sx_represents (fst (SHA1Reset ctx)) []"
  by (simp add: sx_represents_def SHA1Reset_def sha_H0_def)

lemma bit_count:
  fixes lo hi :: u32
  assumes "unat hi * 2 ^ 32 + unat lo = 8 * n" and "n + k < 2 ^ 61" and "k < 2 ^ 31"
  shows "unat ((if lo + push_bit 3 (of_nat k) < lo then hi + 1 else hi) + drop_bit 29 (of_nat k)) * 2 ^ 32 +
      unat (lo + push_bit 3 (of_nat k)) = 8 * (n + k)"
    and "unat (drop_bit 3 lo AND 0x3f) = n mod 64"
proof -
  have k: "unat (of_nat k :: u32) = k" using assms(3) by (simp add: unsigned_of_nat take_bit_nat_eq_self)
  have p: "unat (push_bit 3 (of_nat k :: u32)) = 8 * k mod 2 ^ 32"
    by (simp add: unsigned_push_bit_eq k push_bit_nat_def take_bit_nat_def mult.commute)
  have d: "unat (drop_bit 29 (of_nat k :: u32)) = 8 * k div 2 ^ 32"
    by (simp only: unsigned_drop_bit_eq drop_bit_nat_def k) (use assms(3) in \<open>simp add: take_bit_nat_eq_self\<close>)
  have lo: "unat lo + 8 * k mod 2 ^ 32 = unat (lo + push_bit 3 (of_nat k)) + (if lo + push_bit 3 (of_nat k) < lo then 1 else 0) * 2 ^ 32"
    using p by (simp add: word_less_nat_alt unat_plus_if_size word_size) (use unsigned_less [of lo] in auto)
  have sum: "(unat hi + (if lo + push_bit 3 (of_nat k) < lo then 1 else 0) + 8 * k div 2 ^ 32) * 2 ^ 32 +
      unat (lo + push_bit 3 (of_nat k)) = 8 * (n + k)" (is "?h * _ + _ = _")
    using assms(1) lo div_mult_mod_eq [of "8 * k" "2 ^ 32"] by (simp only: distrib_right distrib_left)
  have "?h * 2 ^ 32 < 2 ^ 32 * 2 ^ 32" using sum assms(2) by simp
  then have "?h < 2 ^ 32" by (simp only: mult_less_cancel2)
  then have "unat ((if lo + push_bit 3 (of_nat k) < lo then hi + 1 else hi) + drop_bit 29 (of_nat k)) = ?h"
    using d by (auto simp: unat_plus_if_size word_size split: if_splits)
  then show "unat ((if lo + push_bit 3 (of_nat k) < lo then hi + 1 else hi) + drop_bit 29 (of_nat k)) * 2 ^ 32 +
      unat (lo + push_bit 3 (of_nat k)) = 8 * (n + k)" using sum by simp
  have unat_lo: "unat lo < 2 ^ 32" using unsigned_less [of lo] by simp
  have "8 * n mod 2 ^ 32 = (unat hi * 2 ^ 32 + unat lo) mod 2 ^ 32" by (simp only: assms(1))
  also have "\<dots> = unat lo mod 2 ^ 32" by (rule mod_mult_self3)
  also have "\<dots> = unat lo" using unat_lo by simp
  finally have "unat lo = 8 * n mod 2 ^ 32" ..
  then have "unat lo = 8 * (n mod 2 ^ 29)" using mult_mod_right [of 8 n "2 ^ 29"] by simp
  then have "unat (drop_bit 3 lo) mod 64 = n mod 64"
    by (simp only: unsigned_drop_bit_eq drop_bit_nat_def) (simp add: take_bit_nat_def mod_mod_cancel)
  moreover have "drop_bit 3 lo AND 0x3f = take_bit 6 (drop_bit 3 lo)" by (simp add: take_bit_eq_mask mask_eq_exp_minus_1)
  ultimately show "unat (drop_bit 3 lo AND 0x3f) = n mod 64" by (simp only: unsigned_take_bit_eq take_bit_nat_def) simp
qed

lemma sha1_blocks_short: "length bs < 64 \<Longrightarrow> sha1_blocks ctx bs = (ctx, bs)"
  by (subst sha1_blocks.simps) simp

lemma split_blocks:
  obtains full rest where "m = full @ rest" and "64 dvd length full" and "length rest < 64"
    and "drop (length m div 64 * 64) m = rest"
  by (rule that [of "take (length m div 64 * 64) m" "drop (length m div 64 * 64) m"])
    (simp_all add: min_absorb2 modulo_nat_def [symmetric])

lemma sha_blocks_full:
  assumes "64 dvd length full" and "length rest < 64"
  shows "sha_blocks H (full @ rest) = sha_blocks H full"
  using sha_blocks_append [OF assms(1), of H rest] assms(2) by simp

lemma sha1_input_represents:
  assumes rep: "sx_represents ctx m" and len: "length m + length bs < 2 ^ 61" "length bs < 2 ^ 31"
  shows "sx_represents (sha1_input ctx bs) (m @ bs)"
proof -
  obtain full rest where m: "m = full @ rest" "64 dvd length full" "length rest < 64" "take (length rest) (sx_data ctx) = rest"
    "length (sx_data ctx) = 64" "sx_digest ctx = sha_blocks sha_H0 full" "sx_no_padding ctx = 0"
    "unat (sx_count_hi ctx) * 2 ^ 32 + unat (sx_count_lo ctx) = 8 * length m"
    using rep by (auto simp: sx_represents_def)
  define lo hi where "lo = sx_count_lo ctx + push_bit 3 (of_nat (length bs))"
    and "hi = (if sx_count_lo ctx + push_bit 3 (of_nat (length bs)) < sx_count_lo ctx then sx_count_hi ctx + 1 else sx_count_hi ctx) +
      drop_bit 29 (of_nat (length bs))"
  have count: "unat hi * 2 ^ 32 + unat lo = 8 * length (m @ bs)"
    using bit_count(1) [OF m(8) len] by (simp add: lo_def hi_def)
  have res: "unat (drop_bit 3 (sx_count_lo ctx) AND of_nat (SHA1_BLOCKSIZE - 1)) = length rest"
    using bit_count(2) [OF m(8) len] m(1-3) by (simp add: mod_add_eq dvd_imp_mod_0 mod_add_left_eq [symmetric])
  define c where "c = ctx\<lparr>sx_count_lo := lo, sx_count_hi := hi\<rparr>"
  have c: "sx_data c = sx_data ctx" "sx_digest c = sha_blocks sha_H0 full" "sx_no_padding c = 0" "sx_count_lo c = lo" "sx_count_hi c = hi"
    using m by (simp_all add: c_def)
  have ceq: "(if sx_count_lo ctx + push_bit 3 (of_nat (length bs)) < sx_count_lo ctx
       then ctx\<lparr>sx_count_hi := sx_count_hi ctx + 1\<rparr> else ctx)
      \<lparr>sx_count_lo := sx_count_lo (if sx_count_lo ctx + push_bit 3 (of_nat (length bs)) < sx_count_lo ctx
         then ctx\<lparr>sx_count_hi := sx_count_hi ctx + 1\<rparr> else ctx) + push_bit 3 (of_nat (length bs)),
       sx_count_hi := sx_count_hi (if sx_count_lo ctx + push_bit 3 (of_nat (length bs)) < sx_count_lo ctx
         then ctx\<lparr>sx_count_hi := sx_count_hi ctx + 1\<rparr> else ctx) + drop_bit 29 (of_nat (length bs))\<rparr> = c"
    by (simp add: c_def lo_def hi_def)
  have input: "sha1_input ctx bs =
     (if length rest \<noteq> 0 \<and> length rest + length bs \<ge> 64
      then let n = 64 - length rest; (c, bs) = sha1_blocks (sha1_process (sha1_store c (length rest) (take n bs))) (drop n bs)
           in sha1_store c 0 bs
      else let (c, bs) = sha1_blocks c bs in sha1_store c (length rest) bs)"
    by (simp only: sha1_input_def Let_def res ceq) (simp only: SHA1_BLOCKSIZE_def)
  have stored_rep: "sx_represents (sha1_store (c\<lparr>sx_data := data, sx_digest := sha_blocks sha_H0 f\<rparr>) k r) (m @ bs)"
    if "m @ bs = f @ q @ r" "64 dvd length f" "length (q @ r) < 64" "length data = 64" "take k data = q" "length q = k" for data f q k r
  proof -
    let ?c = "sha1_store (c\<lparr>sx_data := data, sx_digest := sha_blocks sha_H0 f\<rparr>) k r"
    have data: "sx_data ?c = (q @ r) @ drop (k + length r) data" using that(5) by (simp add: sha1_store_def)
    have "length (sx_data ?c) = 64" unfolding data using that(3,4,6) by simp
    moreover have "take (length (q @ r)) (sx_data ?c) = q @ r" unfolding data by simp
    moreover have "sx_digest ?c = sha_blocks sha_H0 f" "sx_no_padding ?c = 0" "sx_count_hi ?c = hi" "sx_count_lo ?c = lo"
      using c(3-5) by (simp_all add: sha1_store_def)
    ultimately show ?thesis unfolding sx_represents_def using that(1-3) count by metis
  qed
  show ?thesis
  proof (cases "length rest \<noteq> 0 \<and> length rest + length bs \<ge> 64")
    case True
    define n where "n = 64 - length rest"
    have n: "length rest + n = 64" "n \<le> length bs" using True m(3) unfolding n_def by linarith+
    let ?blk = "rest @ take n bs"
    have stored: "sx_data (sha1_store c (length rest) (take n bs)) = ?blk" "sx_digest (sha1_store c (length rest) (take n bs)) = sx_digest c"
      using n m(3-5) c by (simp_all add: sha1_store_def)
    have blk: "length ?blk = 64" using n by simp
    have proc: "sha1_process (sha1_store c (length rest) (take n bs)) =
        c\<lparr>sx_data := byte_reverse ?blk, sx_digest := sha_blocks sha_H0 (full @ ?blk)\<rparr>"
      using process_compress [of "sha1_store c (length rest) (take n bs)"] blk c(2) sha_blocks_append [OF m(2), of sha_H0 ?blk]
      unfolding stored by (simp add: sha_blocks_one) (simp add: sha1_store_def)
    obtain data where data: "length data = 64" "sha1_blocks (sha1_process (sha1_store c (length rest) (take n bs))) (drop n bs) =
        (c\<lparr>sx_data := data, sx_digest := sha_blocks (sha_blocks sha_H0 (full @ ?blk)) (drop n bs)\<rparr>,
         drop (length (drop n bs) div 64 * 64) (drop n bs))"
      using sha1_blocks_value [of "sha1_process (sha1_store c (length rest) (take n bs))" "drop n bs"] blk unfolding proc by auto
    obtain f r where f: "drop n bs = f @ r" "64 dvd length f" "length r < 64" "drop (length (drop n bs) div 64 * 64) (drop n bs) = r"
      by (rule split_blocks)
    have d: "64 dvd length (full @ ?blk)" using m(2) blk by simp
    have "sha_blocks (sha_blocks sha_H0 (full @ ?blk)) (drop n bs) = sha_blocks sha_H0 ((full @ ?blk) @ f)"
      using sha_blocks_append [OF d, of sha_H0 f] sha_blocks_full [OF f(2,3)] by (simp add: f(1))
    moreover have eq: "m @ bs = ((full @ ?blk) @ f) @ [] @ r" using m(1) f(1) by (metis append.assoc append_Nil append_take_drop_id)
    have d2: "64 dvd length ((full @ ?blk) @ f)" unfolding length_append [of _ f] using d f(2) by (rule dvd_add)
    have "sx_represents (sha1_store (c\<lparr>sx_data := data, sx_digest := sha_blocks sha_H0 ((full @ ?blk) @ f)\<rparr>) 0 r) (m @ bs)"
      by (rule stored_rep [OF eq d2]) (use f(3) data(1) in simp_all)
    ultimately show ?thesis using data(2) True unfolding input f(4) by (simp only: n_def [symmetric] Let_def if_True simp_thms prod.case)
  next
    case False
    obtain f r where f: "bs = f @ r" "64 dvd length f" "length r < 64" "drop (length bs div 64 * 64) bs = r"
      by (rule split_blocks)
    show ?thesis
    proof (cases "length bs < 64")
      case True
      have "\<not> (length rest \<noteq> 0 \<and> length rest + length bs \<ge> 64)" by (rule False)
      then have short: "length (rest @ bs) < 64" using True by auto
      have "c\<lparr>sx_data := sx_data c, sx_digest := sha_blocks sha_H0 full\<rparr> = c" using c(2) by simp
      then show ?thesis using stored_rep [of full rest bs "sx_data c" "length rest"] m(1-5) c(1) short False True
        unfolding input by (simp add: sha1_blocks_short)
    next
      case long: False
      then have "rest = []" using False by auto
      obtain data where data: "length data = 64" "sha1_blocks c bs =
          (c\<lparr>sx_data := data, sx_digest := sha_blocks (sha_blocks sha_H0 full) bs\<rparr>, drop (length bs div 64 * 64) bs)"
        using sha1_blocks_value [of c bs] m(5) c by auto
      have "sha_blocks (sha_blocks sha_H0 full) bs = sha_blocks sha_H0 (full @ f)"
        using sha_blocks_append [OF m(2), of sha_H0 f] sha_blocks_full [OF f(2,3)] by (simp add: f(1))
      then show ?thesis using stored_rep [of "full @ f" "[]" r data 0] m(1,2) f data \<open>rest = []\<close>
        unfolding input f(4) by simp
    qed
  qed
qed

lemma SHA1Result_hash:
  assumes "sx_represents ctx m" and "length m < 2 ^ 61"
  shows "snd (SHA1Result ctx) = (sha1 m, 0)"
proof -
  obtain full rest where m: "m = full @ rest" "64 dvd length full" "length rest < 64" "take (length rest) (sx_data ctx) = rest"
    "length (sx_data ctx) = 64" "sx_digest ctx = sha_blocks sha_H0 full" "sx_no_padding ctx = 0"
    "unat (sx_count_hi ctx) * 2 ^ 32 + unat (sx_count_lo ctx) = 8 * length m"
    using assms(1) by (auto simp: sx_represents_def)
  let ?lo = "sx_count_lo ctx" and ?hi = "sx_count_hi ctx"
  have cnt: "unat (drop_bit 3 ?lo AND 0x3f) = length rest"
    using bit_count(2) [OF m(8), of 0] m(1-3) assms(2) by (simp add: mod_add_left_eq [symmetric] dvd_imp_mod_0)
  define bits where "bits = be_enc 8 (word_of_nat (8 * length m) :: u64)"
  have bits: "bits = be_enc 4 ?hi @ be_enc 4 ?lo"
    unfolding bits_def be_enc_halves u64_halves [OF m(8)] ..
  have last: "SHA1Transform (sha1_store (sha1_store (c\<lparr>sx_data := byte_reverse (sx_data c)\<rparr>) 56 (host_enc 4 ?hi)) 60 (host_enc 4 ?lo)) =
      (sha1_store (sha1_store (c\<lparr>sx_data := byte_reverse (sx_data c)\<rparr>) 56 (host_enc 4 ?hi)) 60 (host_enc 4 ?lo))
        \<lparr>sx_digest := sha_compress (sx_digest c) (take 56 (sx_data c) @ bits)\<rparr>"
    if c64: "length (sx_data c) = 64" for c
  proof -
    let ?c = "sha1_store (sha1_store (c\<lparr>sx_data := byte_reverse (sx_data c)\<rparr>) 56 (host_enc 4 ?hi)) 60 (host_enc 4 ?lo)"
    have data: "sx_data ?c = take 56 (byte_reverse (sx_data c)) @ host_enc 4 ?hi @ host_enc 4 ?lo"
      using c64 by (simp add: sha1_store_def)
    have "data_word (sx_data ?c) i = be_dec (take 4 (drop (4 * i) (take 56 (sx_data c) @ bits)))" if i: "i < 16" for i
    proof -
      consider "i < 14" | "i = 14" | "i = 15" using i by linarith
      then show ?thesis
      proof cases
        case 1
        have p: "take 4 (drop (4 * i) (take 56 xs @ ys)) = take 4 (drop (4 * i) xs)" if "length xs = 64" for xs ys :: buffer
          using 1 that by (simp add: take_drop min_def)
        show ?thesis using data_word_reverse [OF c64 i] unfolding data data_word_def
          by (simp only: p c64 length_byte_reverse)
      next
        case 2
        then show ?thesis using c64 unfolding data bits by (simp add: data_word_def)
      next
        case 3
        then show ?thesis using c64 unfolding data bits by (simp add: data_word_def)
      qed
    qed
    from transform_compress [OF _ this] show ?thesis using c64 bits by (simp add: sha1_store_def)
  qed
  have b: "sx_digest (fst (SHA1Result ctx)) = sha_blocks sha_H0 (sha_pad m)"
  proof (cases "length rest + 1 > 56")
    case True
    let ?b1 = "rest @ [0x80] @ replicate (63 - length rest) 0"
    define c1 where "c1 = sha1_store (sha1_store ctx (length rest) [0x80]) (length rest + 1) (replicate (64 - (length rest + 1)) 0)"
    have c1: "sx_data c1 = ?b1" "sx_digest c1 = sha_blocks sha_H0 full" "length (sx_data c1) = 64"
      using m(3-6) by (simp_all add: c1_def sha1_store_def)
    define c2 where "c2 = sha1_store (sha1_process c1) 0 (replicate 56 0)"
    have c2: "take 56 (sx_data c2) = replicate 56 0" "length (sx_data c2) = 64"
        "sx_digest c2 = sha_compress (sha_blocks sha_H0 full) ?b1"
      using process_compress [OF c1(3)] c1 by (simp_all add: c2_def sha1_store_def)
    have "sx_digest (fst (SHA1Result ctx)) = sha_compress (sx_digest c2) (take 56 (sx_data c2) @ bits)"
      using True m(7) by (simp only: SHA1Result_def Let_def cnt if_True simp_thms c1_def [symmetric] c2_def [symmetric] last [OF c2(2)]) simp
    also have "\<dots> = sha_blocks sha_H0 (full @ (?b1 @ (replicate 56 0 @ bits)))"
      unfolding c2 using m(3) True by (intro sha_blocks_two [OF m(2), symmetric]) (simp_all add: bits)
    also have "full @ (?b1 @ (replicate 56 0 @ bits)) = sha_pad m"
      using sha_pad_blocks_long [OF m(2) _ m(3)] True by (simp add: m(1) bits_def)
    finally show ?thesis .
  next
    case False
    define c1 where "c1 = sha1_store (sha1_store ctx (length rest) [0x80]) (length rest + 1) (replicate (56 - (length rest + 1)) 0)"
    let ?b = "rest @ [0x80] @ replicate (55 - length rest) 0"
    have b: "length ?b = 56" using False by simp
    have data: "sx_data c1 = ?b @ drop 56 (sx_data (sha1_store ctx (length rest) [0x80]))"
      using m(3-5) False by (simp add: c1_def sha1_store_def)
    have c1: "take 56 (sx_data c1) = ?b" "sx_digest c1 = sha_blocks sha_H0 full" "length (sx_data c1) = 64"
      subgoal using append_eq_conv_conj [of ?b "drop 56 (sx_data (sha1_store ctx (length rest) [0x80]))" "sx_data c1"]
        unfolding b using data by metis
      using m(3-6) by (simp_all add: c1_def sha1_store_def)
    have blk: "length (take 56 (sx_data c1) @ bits) = 64" using c1(3) bits by simp
    have "sx_digest (fst (SHA1Result ctx)) = sha_compress (sx_digest c1) (take 56 (sx_data c1) @ bits)"
      using False m(7) by (simp only: SHA1Result_def Let_def cnt if_True if_False simp_thms c1_def [symmetric] last [OF c1(3)]) simp
    also have "\<dots> = sha_blocks sha_H0 (full @ (take 56 (sx_data c1) @ bits))"
      unfolding c1(2) sha_blocks_append [OF m(2)] sha_blocks_one [OF blk] ..
    also have "full @ (take 56 (sx_data c1) @ bits) = sha_pad m"
      using sha_pad_blocks_short [OF m(2), of rest] False unfolding c1(1) by (simp add: m(1) bits_def)
    finally show ?thesis .
  qed
  have rev: "byte_reverse (concat (map (host_enc 4) ws)) = concat (map (be_enc 4) ws)" for ws :: "u32 list"
  proof (induction ws)
    case (Cons w ws)
    have "host_enc 4 w = [ucast w, ucast (drop_bit 8 w), ucast (drop_bit 16 w), ucast (drop_bit 24 w)]"
      by (simp add: host_enc_rev be_enc_4_bytes)
    then show ?case using Cons by (simp add: be_enc_4_bytes)
  qed simp
  have "snd (SHA1Result ctx) = (byte_reverse (concat (map (host_enc 4) (sx_digest (fst (SHA1Result ctx))))), 0)"
    by (simp only: SHA1Result_def Let_def fst_conv snd_conv)
  then show ?thesis unfolding b rev sha1_def .
qed

section \<open>Both implementations\<close>

text \<open>Feeding the pieces of a message, as \<open>sha_feed\<close> does for \<open>cslsha.c\<close>.\<close>

primrec sx_feed :: "SHA1Context \<Rightarrow> buffer list \<Rightarrow> SHA1Context option" where
  "sx_feed ctx [] = Some ctx"
| "sx_feed ctx (bs # bss) = do {
     (ctx, _) \<leftarrow> SHA1Input ctx bs (of_nat (length bs));
     sx_feed ctx bss }"

lemma SHA1Input_value:
  assumes "length bs < 2 ^ 31"
  shows "SHA1Input ctx (bs @ rest) (of_nat (length bs)) = Some (sha1_input ctx bs, 0)"
proof -
  have "unat (of_nat (length bs) :: u32) = length bs" using assms by (simp add: unsigned_of_nat take_bit_nat_eq_self)
  moreover have "\<not> sint (of_nat (length bs) :: u32) < 0"
    using assms by (simp add: not_less signed_of_nat signed_take_bit_int_eq_self)
  ultimately show ?thesis by (simp add: SHA1Input_def rd_bytes_def)
qed

lemma sx_feed_represents:
  "sx_represents ctx m \<Longrightarrow> length m + length (concat bss) < 2 ^ 61 \<Longrightarrow> (\<forall>bs\<in>set bss. length bs < 2 ^ 31) \<Longrightarrow>
    \<exists>ctx'. sx_feed ctx bss = Some ctx' \<and> sx_represents ctx' (m @ concat bss)"
proof (induction bss arbitrary: ctx m)
  case (Cons bs bss)
  then show ?case
    using sha1_input_represents [of ctx m bs] Cons.IH [of "sha1_input ctx bs" "m @ bs"] SHA1Input_value [of bs ctx "[]"] by simp
qed simp



end
