(* ===== verification/Csl_Oaep.thy ===== *)
theory Csl_Oaep
  imports Csl_Sha1 Csl_Bigint
begin

text \<open>
  The padding OAEP (\<open>csl/src/csloaep.c\<close>): the mask generation function over SHA-1, padding and taking the
  padding off. \<open>stack\<close> and \<open>buffer\<close> are the local SHA-1 context and the local buffer before they are
  written. A function gives the memory it writes, the length it returns through a pointer and its
  result; it is \<open>None\<close> where it accesses memory outside its arrays or copies between overlapping ones.
\<close>

unbundle bit_operations_syntax

record MGF1Context =
  mg_dataBuf :: buffer
  mg_dataBufLen :: u32

record PadOaepContext =
  po_db :: buffer
  po_dbLen :: u32

section \<open>Masks\<close>

definition initMGF1Context :: "buffer \<Rightarrow> u32 \<Rightarrow> u32 \<Rightarrow> MGF1Context \<times> int" where
  "initMGF1Context contextBuffer contextBufferLen mgfSeedLen =
     (if contextBufferLen < mgfSeedLen + 4 \<or> mgfSeedLen > mgfSeedLen + 4
      then (\<lparr>mg_dataBuf = contextBuffer, mg_dataBufLen = 0\<rparr>, - 1)
      else (\<lparr>mg_dataBuf = contextBuffer, mg_dataBufLen = contextBufferLen\<rparr>, 0))"

text \<open>The mask goes to \<open>out\<close>, from \<open>off\<close> on.\<close>

function mgf1_loop ::
  "SHA1Context \<Rightarrow> u32 \<Rightarrow> u32 \<Rightarrow> u32 \<Rightarrow> nat \<Rightarrow> u32 \<Rightarrow> u32 \<Rightarrow> buffer \<Rightarrow> buffer \<Rightarrow> (buffer \<times> buffer) option" where
  "mgf1_loop stack mgfSeedLen maskLen ceilValue off counter mask_outIndex dataBuf out =
     (if counter < ceilValue \<and> mask_outIndex < maskLen
      then do {
        dataBuf \<leftarrow> wr_bytes dataBuf (unat mgfSeedLen) (I2OSP 4 [counter]);
        (ctx, _) \<leftarrow> SHA1Input (fst (SHA1Reset stack)) dataBuf (mgfSeedLen + 4);
        let sha1digest = fst (snd (SHA1Result ctx));
        let appendLen = (if of_nat SHA1_DIGESTSIZE > maskLen - mask_outIndex then maskLen - mask_outIndex
                         else of_nat SHA1_DIGESTSIZE);
        out \<leftarrow> memcpy_at out (off + unat mask_outIndex) sha1digest (unat appendLen);
        mgf1_loop stack mgfSeedLen maskLen ceilValue off (counter + 1) (mask_outIndex + appendLen) dataBuf out }
      else Some (dataBuf, out))"
  by pat_completeness auto
termination
proof (relation "measure (\<lambda>(_, _, _, ceilValue, _, counter, _, _, _). unat ceilValue - unat counter)")
  fix stack :: SHA1Context and mgfSeedLen maskLen ceilValue counter mask_outIndex a :: u32 and off :: nat
    and dataBuf out dataBuf' out' :: buffer
  assume "counter < ceilValue \<and> mask_outIndex < maskLen"
  moreover have "unat ceilValue < 2 ^ 32" using unsigned_less [of ceilValue] by simp
  ultimately have "unat (counter + 1) = unat counter + 1" "unat counter < unat ceilValue"
    by (auto simp: word_less_nat_alt unat_plus_if_size word_size)
  then show "((stack, mgfSeedLen, maskLen, ceilValue, off, counter + 1, mask_outIndex + a, dataBuf', out'),
      (stack, mgfSeedLen, maskLen, ceilValue, off, counter, mask_outIndex, dataBuf, out)) \<in>
    measure (\<lambda>(_, _, _, ceilValue, _, counter, _, _, _). unat ceilValue - unat counter)" by simp
qed auto

definition maskGenerationFunction1 ::
  "SHA1Context \<Rightarrow> MGF1Context \<Rightarrow> buffer \<Rightarrow> u32 \<Rightarrow> buffer \<Rightarrow> nat \<Rightarrow> u32 \<Rightarrow> (MGF1Context \<times> buffer \<times> u32 \<times> int) option" where
  "maskGenerationFunction1 stack mgfContext mgfSeed mgfSeedLen out off maskLen =
     (if mg_dataBufLen mgfContext < mgfSeedLen + 4 then Some (mgfContext, out, 0, - 1)
      else do {
        dataBuf \<leftarrow> memcpy_at (mg_dataBuf mgfContext) 0 mgfSeed (unat mgfSeedLen);
        let ceilValue = (maskLen - 1) div of_nat SHA1_DIGESTSIZE + 1;
        (dataBuf, out) \<leftarrow> mgf1_loop stack mgfSeedLen maskLen ceilValue off 0 0 dataBuf out;
        Some (mgfContext\<lparr>mg_dataBuf := dataBuf\<rparr>, out, maskLen, 0) })"

section \<open>Padding\<close>

definition lhash_sha1_empty :: buffer where
  "lhash_sha1_empty = [218, 57, 163, 238, 94, 107, 75, 13, 50, 85, 191, 239, 149, 96, 24, 144, 175, 216, 7, 9]"

definition initPadOaepContext :: "PadOaepContext \<Rightarrow> u32 \<Rightarrow> buffer \<Rightarrow> u32 \<Rightarrow> PadOaepContext \<times> int" where
  "initPadOaepContext padOaepContext keyLen dbBuf dbBufLen =
     (let dbLen = keyLen - of_nat SHA1_DIGESTSIZE - 1 + 4
      in if dbBufLen < dbLen then (padOaepContext\<lparr>po_dbLen := 0\<rparr>, - 1)
         else (padOaepContext\<lparr>po_db := dbBuf, po_dbLen := dbBufLen\<rparr>, 0))"

text \<open>The loops \<open>out[off + i] = a[i] ^ out[off + i]\<close> for \<open>i < n\<close>.\<close>

definition xor_at :: "buffer \<Rightarrow> nat \<Rightarrow> buffer \<Rightarrow> nat \<Rightarrow> buffer option" where
  "xor_at out off a n = do {
     x \<leftarrow> rd_bytes a 0 n;
     y \<leftarrow> rd_bytes out off n;
     wr_bytes out off (map2 (XOR) x y) }"

text \<open>\<open>DB\<close>, in the buffer of the context.\<close>

definition pad_db :: "buffer \<Rightarrow> u32 \<Rightarrow> buffer \<Rightarrow> u32 \<Rightarrow> buffer option" where
  "pad_db db psLen message messageLen = do {
     db \<leftarrow> wr_bytes db 0 lhash_sha1_empty;
     let dbIndex = of_nat SHA1_DIGESTSIZE;
     db \<leftarrow> wr_bytes db (unat dbIndex) (replicate (unat psLen) 0);
     let dbIndex = dbIndex + psLen;
     db \<leftarrow> put_u8 db (unat dbIndex) 0x01;
     let dbIndex = dbIndex + 1;
     memcpy_at db (unat dbIndex) message (unat messageLen) }"

text \<open>From \<open>dbMask\<close> on: the masks and the encoded message.\<close>

definition pad_masks ::
  "SHA1Context \<Rightarrow> buffer \<Rightarrow> PadOaepContext \<Rightarrow> u32 \<Rightarrow> buffer \<Rightarrow> u32 \<Rightarrow> buffer \<Rightarrow> u32 \<Rightarrow>
    (PadOaepContext \<times> buffer \<times> u32 \<times> int) option" where
  "pad_masks stack buffer ctx keyLen seed seedLen out outLen =
     (let dbStartIndex = 1 + SHA1_DIGESTSIZE; dbMaskLen = keyLen - of_nat SHA1_DIGESTSIZE - 1;
          (mgfContext, rc) = initMGF1Context buffer (of_nat SHA1_DIGESTSIZE + 4) seedLen
      in if rc \<noteq> 0 then Some (ctx, out, 0, - 5)
         else do {
           (_, out, dbMaskLen, rc) \<leftarrow> maskGenerationFunction1 stack mgfContext seed seedLen out dbStartIndex dbMaskLen;
           if rc \<noteq> 0 then Some (ctx, out, 0, - 5)
           else do {
             out \<leftarrow> xor_at out dbStartIndex (po_db ctx) (unat dbMaskLen);
             if po_dbLen ctx < dbMaskLen + 4 then Some (ctx, out, 0, - 3)
             else
               (let (mgfContext, rc) = initMGF1Context (po_db ctx) (dbMaskLen + 4) dbMaskLen
                in if rc \<noteq> 0 then Some (ctx, out, 0, - 4)
                   else do {
                     (mgfContext, out, seedMaskLen, rc) \<leftarrow>
                       maskGenerationFunction1 stack mgfContext (drop dbStartIndex out) dbMaskLen out 1 seedLen;
                     let ctx = ctx\<lparr>po_db := mg_dataBuf mgfContext\<rparr>;
                     if rc \<noteq> 0 then Some (ctx, out, 0, - 4)
                     else do {
                       out \<leftarrow> xor_at out 1 seed (unat seedMaskLen);
                       out \<leftarrow> put_u8 out 0 0;
                       Some (ctx, out, outLen, 0) } }) } })"

definition pad_oaep ::
  "SHA1Context \<Rightarrow> buffer \<Rightarrow> PadOaepContext \<Rightarrow> u32 \<Rightarrow> buffer \<Rightarrow> u32 \<Rightarrow> buffer \<Rightarrow> u32 \<Rightarrow> buffer \<Rightarrow> u32 \<Rightarrow>
    (PadOaepContext \<times> buffer \<times> u32 \<times> int) option" where
  "pad_oaep stack buffer ctx keyLen seed seedLen message messageLen paddedMsg_out paddedMsg_in_out =
     (if paddedMsg_in_out < keyLen then Some (ctx, paddedMsg_out, 0, - 4)
      else if messageLen > keyLen - 2 * of_nat SHA1_DIGESTSIZE - 2 then Some (ctx, paddedMsg_out, 0, - 1)
      else let psLen = keyLen - messageLen - 2 * of_nat SHA1_DIGESTSIZE - 2
           in if po_dbLen ctx < keyLen - of_nat SHA1_DIGESTSIZE - 1 then Some (ctx, paddedMsg_out, 0, - 3)
              else do {
                db \<leftarrow> pad_db (po_db ctx) psLen message messageLen;
                let ctx = ctx\<lparr>po_db := db\<rparr>;
                if seedLen \<noteq> of_nat SHA1_DIGESTSIZE then Some (ctx, paddedMsg_out, 0, - 2)
                else pad_masks stack buffer ctx keyLen seed seedLen paddedMsg_out paddedMsg_in_out })"

section \<open>Taking it off\<close>

text \<open>The loop over \<open>PS\<close>: the index of the octet 01, or of the end; \<open>None\<close> is another octet on the way.\<close>

fun ps_index :: "buffer \<Rightarrow> nat \<Rightarrow> nat option" where
  "ps_index [] psIndex = Some psIndex"
| "ps_index (p # ps) psIndex =
     (if p = 0 then ps_index ps (psIndex + 1) else if p = 0x01 then Some psIndex else None)"

text \<open>\<open>memcpy\<close> within an array, undefined when the areas overlap.\<close>

definition memcpy_within :: "buffer \<Rightarrow> nat \<Rightarrow> nat \<Rightarrow> nat \<Rightarrow> buffer option" where
  "memcpy_within b dst src n =
     (if n \<noteq> 0 \<and> dst < src + n \<and> src < dst + n then None
      else do { bs \<leftarrow> rd_bytes b src n; wr_bytes b dst bs })"

definition unpad_fail :: "PadOaepContext \<Rightarrow> buffer \<Rightarrow> u32 \<Rightarrow> int \<Rightarrow> (PadOaepContext \<times> buffer \<times> u32 \<times> int) option" where
  "unpad_fail ctx msg_out msgLen rc = do {
     msg_out \<leftarrow> wr_bytes msg_out 0 (replicate (unat msgLen) 0);
     Some (ctx, msg_out, 0, rc) }"

text \<open>From \<open>lHash'\<close> on; \<open>DB\<close> begins at \<open>db\<close> in \<open>msg_out\<close>.\<close>

definition unpad_db ::
  "PadOaepContext \<Rightarrow> u32 \<Rightarrow> buffer \<Rightarrow> u32 \<Rightarrow> nat \<Rightarrow> (PadOaepContext \<times> buffer \<times> u32 \<times> int) option" where
  "unpad_db ctx maskedDBLen msg_out msgLen db = do {
     lhash \<leftarrow> rd_bytes msg_out db SHA1_DIGESTSIZE;
     if lhash \<noteq> lhash_sha1_empty then unpad_fail ctx msg_out msgLen (- 1)
     else do {
       ps \<leftarrow> rd_bytes msg_out (db + SHA1_DIGESTSIZE) (unat (maskedDBLen - of_nat SHA1_DIGESTSIZE));
       case ps_index ps 0 of
         None \<Rightarrow> unpad_fail ctx msg_out msgLen (- 1)
       | Some psIndex \<Rightarrow>
           if psIndex = unat (maskedDBLen - of_nat SHA1_DIGESTSIZE) then unpad_fail ctx msg_out msgLen (- 1)
           else do {
             let messageIndex = of_nat SHA1_DIGESTSIZE + of_nat psIndex + 1;
             let n = maskedDBLen - messageIndex;
             msg_out \<leftarrow> memcpy_within msg_out 0 (db + unat messageIndex) (unat n);
             msg_out \<leftarrow> wr_bytes msg_out (unat n) (replicate (unat (msgLen - n)) 0);
             Some (ctx, msg_out, n, 0) } } }"

definition unpad_oaep ::
  "SHA1Context \<Rightarrow> buffer \<Rightarrow> PadOaepContext \<Rightarrow> u32 \<Rightarrow> buffer \<Rightarrow> u32 \<Rightarrow> buffer \<Rightarrow> u32 \<Rightarrow>
    (PadOaepContext \<times> buffer \<times> u32 \<times> int) option" where
  "unpad_oaep stack buffer ctx keyLen paddedMsg paddedMsgLen msg_out msgLen_in_out =
     (if msgLen_in_out < keyLen \<or> keyLen \<noteq> paddedMsgLen then unpad_fail ctx msg_out msgLen_in_out (- 1)
      else
        (let maskedSeed = 1; maskedDB = 1 + SHA1_DIGESTSIZE; maskedDBLen = keyLen - of_nat SHA1_DIGESTSIZE - 1;
             (mgfContext, rc) = initMGF1Context (po_db ctx) (maskedDBLen + 4) maskedDBLen
         in if rc \<noteq> 0 then unpad_fail ctx msg_out msgLen_in_out (- 4)
            else do {
              (mgfContext, msg_out, seedMaskLen, rc) \<leftarrow>
                maskGenerationFunction1 stack mgfContext (drop maskedDB paddedMsg) maskedDBLen msg_out 1 (of_nat SHA1_DIGESTSIZE);
              let ctx = ctx\<lparr>po_db := mg_dataBuf mgfContext\<rparr>;
              if rc \<noteq> 0 then unpad_fail ctx msg_out msgLen_in_out (- 4)
              else do {
                msg_out \<leftarrow> xor_at msg_out 1 (drop maskedSeed paddedMsg) (unat seedMaskLen);
                let dbMask = 1 + SHA1_DIGESTSIZE;
                let (mgfContext, rc) = initMGF1Context buffer (of_nat SHA1_DIGESTSIZE + 4) seedMaskLen;
                if rc \<noteq> 0 then unpad_fail ctx msg_out msgLen_in_out (- 4)
                else do {
                  (_, msg_out, maskedDBLen, rc) \<leftarrow>
                    maskGenerationFunction1 stack mgfContext (drop 1 msg_out) seedMaskLen msg_out dbMask maskedDBLen;
                  if rc \<noteq> 0 then unpad_fail ctx msg_out msgLen_in_out (- 4)
                  else do {
                    msg_out \<leftarrow> xor_at msg_out dbMask (drop maskedDB paddedMsg) (unat maskedDBLen);
                    unpad_db ctx maskedDBLen msg_out msgLen_in_out dbMask } } } }))"

end
