(* ===== verification/Csl_Rsa.thy ===== *)
theory Csl_Rsa
  imports Csl_Bigint Csl_Sha
begin

text \<open>
  RSA (\<open>csl/src/cslrsa.c\<close>, \<open>cslrsa_sign.c\<close>): the public operation, signing a digest with the padding of
  PKCS 1 (version 1.5) and verifying such a signature.

  \<open>stack\<close> is what the arrays of powers of \<open>bigint_mod_exp\<close> hold when they are allocated, and \<open>result\<close> and
  \<open>msgBuf\<close> are the local buffers of that name. A function is \<open>None\<close> where it accesses memory outside its
  arrays. The sizes are those of the user space build.
\<close>

definition CSL_VERIFY_ERROR :: int where [simp]: "CSL_VERIFY_ERROR = 7"
definition CSL_SHA256_DIGESTSIZE :: nat where [simp]: "CSL_SHA256_DIGESTSIZE = 32"
definition MAX_RSA_MODULUS_LEN :: nat where [simp]: "MAX_RSA_MODULUS_LEN = 512"

definition CSL_DecryptRsa ::
  "bigint list \<Rightarrow> buffer \<Rightarrow> u32 \<Rightarrow> buffer \<Rightarrow> u32 \<Rightarrow> buffer \<Rightarrow> buffer \<Rightarrow> (buffer \<times> int) option" where
  "CSL_DecryptRsa stack publicKey keySize exponent expSize inputData outputData =
     (let nDigits = unat keySize div BIGINT_DIGIT_BYTES; eDigits = 1
      in if MAX_BIGINT_DIGITS < nDigits then None
         else do {
           n \<leftarrow> rd_bytes publicKey 0 (unat keySize);
           m \<leftarrow> rd_bytes inputData 0 (unat keySize);
           e \<leftarrow> rd_bytes exponent 0 (unat expSize);
           bigc \<leftarrow> bigint_mod_exp stack (OS2IP nDigits m) (OS2IP eDigits e) (OS2IP nDigits n);
           outputData \<leftarrow> wr_bytes outputData 0 (I2OSP (unat keySize) bigc);
           Some (outputData, CSL_OK) })"

section \<open>Verifying\<close>

text \<open>The descriptions of the digests (DER), in decimal.\<close>

definition sha1_sig :: buffer where
  "sha1_sig = [0, 48, 33, 48, 9, 6, 5, 43, 14, 3, 2, 26, 5, 0, 4, 20]"

definition sha256_sig :: buffer where
  "sha256_sig = [0, 48, 49, 48, 13, 6, 9, 96, 134, 72, 1, 101, 3, 4, 2, 1, 5,
     0, 4, 32]"

text \<open>The loops that compare: \<open>match &= (*p++ == *q++)\<close>.\<close>

fun match_octets :: "bool \<Rightarrow> buffer \<Rightarrow> buffer \<Rightarrow> bool" where
  "match_octets m (p # ps) (q # qs) = match_octets (m \<and> p = q) ps qs"
| "match_octets m _ _ = m"

definition verify_padding :: "buffer \<Rightarrow> buffer \<Rightarrow> u32 \<Rightarrow> buffer \<Rightarrow> u32 \<Rightarrow> bool option" where
  "verify_padding digest digSig digestSize result keysize = do {
     let padlen = keysize - digestSize - of_nat (length digSig) - 2;
     p \<leftarrow> rd_bytes result 0 2;
     let m = (p ! 0 = 0x00 \<and> p ! 1 = 0x01);
     p \<leftarrow> rd_bytes result 2 (unat padlen);
     let m = match_octets m p (replicate (unat padlen) 0xff);
     p \<leftarrow> rd_bytes result (2 + unat padlen) (length digSig);
     let m = match_octets m p digSig;
     p \<leftarrow> rd_bytes result (2 + unat padlen + length digSig) (unat digestSize);
     d \<leftarrow> rd_bytes digest 0 (unat digestSize);
     Some (match_octets m p d) }"

definition CSL_VerifyRsaSig ::
  "bigint list \<Rightarrow> buffer \<Rightarrow> buffer \<Rightarrow> u32 \<Rightarrow> buffer \<Rightarrow> buffer \<Rightarrow> buffer \<Rightarrow> u32 \<Rightarrow> u32 \<Rightarrow> int option" where
  "CSL_VerifyRsaSig stack result digest digestSize certpublickey certsign certexponent expsize keysize = do {
     (result, _) \<leftarrow> CSL_DecryptRsa stack certpublickey keysize certexponent expsize certsign result;
     m \<leftarrow> (if digestSize = of_nat CSL_SHA1_DIGESTSIZE then verify_padding digest sha1_sig digestSize result keysize
           else if digestSize = of_nat CSL_SHA256_DIGESTSIZE then verify_padding digest sha256_sig digestSize result keysize
           else Some False);
     Some (if m then CSL_OK else CSL_VERIFY_ERROR) }"

definition CSL_VerifyRsaSig2048 ::
  "bigint list \<Rightarrow> buffer \<Rightarrow> buffer \<Rightarrow> u32 \<Rightarrow> buffer \<Rightarrow> buffer \<Rightarrow> buffer \<Rightarrow> u32 \<Rightarrow> int option" where
  "CSL_VerifyRsaSig2048 stack result digest digestSize certpublickey certsign certexponent expsize =
     CSL_VerifyRsaSig stack result digest digestSize certpublickey certsign certexponent expsize 256"

definition CSL_VerifyRsaSig4096 ::
  "bigint list \<Rightarrow> buffer \<Rightarrow> buffer \<Rightarrow> u32 \<Rightarrow> buffer \<Rightarrow> buffer \<Rightarrow> buffer \<Rightarrow> u32 \<Rightarrow> int option" where
  "CSL_VerifyRsaSig4096 stack result digest digestSize certpublickey certsign certexponent expsize =
     CSL_VerifyRsaSig stack result digest digestSize certpublickey certsign certexponent expsize 512"

section \<open>Signing\<close>

definition CSL_ComputeRsaSig ::
  "bigint list \<Rightarrow> buffer \<Rightarrow> buffer \<Rightarrow> buffer \<Rightarrow> buffer \<Rightarrow> u32 \<Rightarrow> buffer option" where
  "CSL_ComputeRsaSig stack result paddedmessage certpublickey secretexponent keysize =
     (let nDigits = unat keysize div BIGINT_DIGIT_BYTES; dDigits = unat keysize div BIGINT_DIGIT_BYTES
      in if MAX_BIGINT_DIGITS < nDigits then None
         else do {
           n \<leftarrow> rd_bytes certpublickey 0 (unat keysize);
           m \<leftarrow> rd_bytes paddedmessage 0 (unat keysize);
           d \<leftarrow> rd_bytes secretexponent 0 (unat keysize);
           bigc \<leftarrow> bigint_mod_exp stack (OS2IP nDigits m) (OS2IP dDigits d) (OS2IP nDigits n);
           wr_bytes result 0 (I2OSP (unat ((keysize * 8 + 7) div 8)) bigc) })"

text \<open>The first condition has no \<open>else\<close>, so what it sets is lost unless the second holds, too.\<close>

definition CSL_RsaSignData ::
  "bigint list \<Rightarrow> buffer \<Rightarrow> buffer \<Rightarrow> u32 \<Rightarrow> buffer \<Rightarrow> buffer \<Rightarrow> u32 \<Rightarrow> buffer \<Rightarrow> buffer option" where
  "CSL_RsaSignData stack msgBuf hashVal hashSize rsaPubMod rsaPrivExp rsaKeySize signData =
     (if unat rsaKeySize > MAX_RSA_MODULUS_LEN then Some signData
      else do {
        msgBuf \<leftarrow> wr_bytes msgBuf 0 (replicate (unat rsaKeySize) 0xff);
        msgBuf \<leftarrow> put_u8 msgBuf 0 0;
        msgBuf \<leftarrow> put_u8 msgBuf 1 1;
        msgBuf \<leftarrow> memcpy_at msgBuf (unat (rsaKeySize - hashSize)) hashVal (unat hashSize);
        let digSig = (if hashSize = 20 then Some sha1_sig else None);
        let digSig = (if hashSize = 32 then Some sha256_sig else digSig);
        if hashSize = 32
        then do {
          sig \<leftarrow> digSig;
          msgBuf \<leftarrow> memcpy_at msgBuf (unat (rsaKeySize - hashSize - of_nat (length sig))) sig (length sig);
          CSL_ComputeRsaSig stack signData msgBuf rsaPubMod rsaPrivExp rsaKeySize }
        else Some signData })"

end
