(* ===== verification/Csl_Bigint_Exp.thy ===== *)
theory Csl_Bigint_Exp
  imports Csl_Bigint_Div
begin

text \<open>
  Modular products, powers and inverses. The exponent is read from the top in pairs of bits, and the
  powers of the base that the pairs select are prepared first: the code looks for the pairs of the
  lowest digit only, so a power that only a higher digit selects is whatever the stack held.
\<close>

unbundle bit_operations_syntax

lemma bigint_mod_mult_value:
  assumes "length b = length d" and "length c = length d" and "length d \<le> MAX_BIGINT_DIGITS" and "bigval d \<noteq> 0"
  obtains r where "bigint_mod_mult a b c d = Some r" and "length r = length d"
    and "bigval r = bigval b * bigval c mod bigval d"
proof -
  obtain t where t: "bigint_mult b c (length d) = Some t" "bigval t = bigval b * bigval c" "length t = 2 * length d"
    by (rule bigint_mult_value [OF assms(1-3)])
  have "length t \<le> 2 * MAX_BIGINT_DIGITS" using t(3) assms(3) by linarith
  then obtain q r where "bigint_div [] a t d = Some (q, r)" "length r = length d" "bigval r = bigval t mod bigval d"
    using bigint_div_value [OF assms(4) _ assms(3)] by metis
  then show thesis using t(1,2) by (intro that [of r]) (simp_all add: bigint_mod_mult_def bigint_mod_def)
qed

section \<open>The pairs of bits of an exponent\<close>

definition digit_pairs :: "bigint_digit \<Rightarrow> nat list" where
  "digit_pairs e = map (\<lambda>i. unat e div 4 ^ i mod 4) [0..<16]"

definition exponent_pairs :: "bigint \<Rightarrow> nat list" where
  "exponent_pairs c = concat (map digit_pairs c)"

text \<open>The powers that are ready: the first always is, the third needs the second.\<close>

definition ready_powers :: "bigint_digit \<Rightarrow> nat set" where
  "ready_powers e = {0, 1} \<union> (if 3 \<in> set (digit_pairs e) then {2, 3} else {}) \<union> set (digit_pairs e)"

lemma pairs_Suc:
  "map (\<lambda>i. e div 4 ^ i mod 4) [0..<Suc n] = e mod 4 # map (\<lambda>i. e div 4 div 4 ^ i mod 4) [0..<n]" for e :: nat
  by (simp add: upt_conv_Cons map_Suc_upt [symmetric] del: upt_Suc) (simp add: div_mult2_eq)

lemma and_mask_2bits: "unat (e AND 3) = unat e mod 4" for e :: u32
proof -
  have "e AND 3 = take_bit 2 e" by (simp add: take_bit_eq_mask mask_eq_exp_minus_1)
  then show ?thesis by (simp only: unsigned_take_bit_eq take_bit_nat_def) simp
qed

lemma count_pairs_value:
  assumes "length need = 4" and "s < 4" and "unat (need ! s) + n < 2 ^ 32"
  shows "length (count_pairs n e need) = 4 \<and>
    unat (count_pairs n e need ! s) = unat (need ! s) + count_list (map (\<lambda>i. unat e div 4 ^ i mod 4) [0..<n]) s"
  using assms
proof (induction n arbitrary: e need)
  case (Suc n)
  let ?k = "unat (e AND 3)"
  have k: "?k = unat e mod 4"
    using and_mask_2bits [of e] by simp
  have e: "unat (drop_bit 2 e) = unat e div 4" by (simp only: unsigned_drop_bit_eq drop_bit_nat_def) (simp add: take_bit_nat_eq_self unat_digit [simplified])
  let ?need = "need[?k := need ! ?k + 1]"
  have s: "unat (?need ! s) = unat (need ! s) + (if s = ?k then 1 else 0)"
  proof (cases "s = ?k")
    case True
    then show ?thesis using Suc.prems by (simp add: unat_plus_if_size word_size)
  qed simp
  have "unat (?need ! s) + n < 2 ^ 32" unfolding s using Suc.prems(3) by auto
  then show ?case using Suc.IH [of ?need "drop_bit 2 e"] Suc.prems s
    by (simp only: count_pairs.simps Let_def length_list_update pairs_Suc e count_list.simps k) (simp add: k)
qed simp

lemma needed_powers_value:
  shows "needed_powers e ! 2 > 0 \<longleftrightarrow> 2 \<in> ready_powers e" and "needed_powers e ! 3 > 0 \<longleftrightarrow> 3 \<in> ready_powers e"
proof -
  let ?n = "count_pairs 16 e [1, 1, 0, 0]"
  have v: "unat (?n ! 2) = count_list (digit_pairs e) 2" "unat (?n ! 3) = count_list (digit_pairs e) 3" "length ?n = 4"
    using count_pairs_value [of "[1, 1, 0, 0]" 2 16 e] count_pairs_value [of "[1, 1, 0, 0]" 3 16 e]
    by (simp_all add: digit_pairs_def)
  have "?n ! 2 > 0 \<longleftrightarrow> 2 \<in> set (digit_pairs e)" "?n ! 3 > 0 \<longleftrightarrow> 3 \<in> set (digit_pairs e)"
    using v(1,2) count_list_0_iff [of "digit_pairs e" 2] count_list_0_iff [of "digit_pairs e" 3]
    by (simp_all only: word_less_nat_alt unsigned_0 neq0_conv [symmetric] simp_thms not_not)
  then show "needed_powers e ! 2 > 0 \<longleftrightarrow> 2 \<in> ready_powers e" "needed_powers e ! 3 > 0 \<longleftrightarrow> 3 \<in> ready_powers e"
    using v(3) by (auto simp: needed_powers_def ready_powers_def Let_def)
qed

text \<open>A digit of which \<open>n\<close> pairs are left to read has them at the top.\<close>

lemma pair_step:
  assumes ci: "unat ci = v * 4 ^ (16 - Suc n)" and n: "n < 16"
  shows "v < 4 ^ Suc n \<Longrightarrow> unat (BIGINT_DIGIT_2MSBS ci) = v div 4 ^ n" and "unat (push_bit 2 ci) = v mod 4 ^ n * 4 ^ (16 - n)"
proof -
  have top: "unat (BIGINT_DIGIT_2MSBS ci) = unat ci div 4 ^ 15 mod 4"
    by (simp only: BIGINT_DIGIT_2MSBS_def and_mask_2bits unsigned_drop_bit_eq drop_bit_nat_def)
      (simp add: take_bit_nat_eq_self unat_digit [simplified])
  have eq: "(4 :: nat) ^ 15 = 4 ^ n * 4 ^ (15 - n)" "(4 :: nat) ^ 16 = 4 ^ n * 4 ^ (16 - n)" "16 - Suc n = 15 - n"
    "(4 :: nat) ^ (16 - n) = 4 * 4 ^ (15 - n)"
    using n by (simp_all add: power_add [symmetric] flip: power_Suc)
  show "unat (BIGINT_DIGIT_2MSBS ci) = v div 4 ^ n" if "v < 4 ^ Suc n"
  proof -
    have "v div 4 ^ n < 4" using that by (simp add: less_mult_imp_div_less)
    then show ?thesis unfolding top ci eq(1,3) by (simp add: mult.commute [of v])
  qed
  have "unat (push_bit 2 ci) = unat ci * 4 mod 4 ^ 16"
    by (simp add: unsigned_push_bit_eq push_bit_nat_def take_bit_nat_def)
  also have "\<dots> = (v * 4 ^ (16 - n)) mod (4 ^ n * 4 ^ (16 - n))" unfolding ci eq(2,3,4) by (simp only: ac_simps)
  also have "\<dots> = v mod 4 ^ n * 4 ^ (16 - n)" by (rule mult_mod_left [symmetric])
  finally show "unat (push_bit 2 ci) = v mod 4 ^ n * 4 ^ (16 - n)" .
qed

lemma skip_zero_pairs_value:
  assumes "unat ci = v * 4 ^ (16 - n)" and "0 < v" and "v < 4 ^ n" and "n \<le> 16"
  shows "\<exists>m ci'. skip_zero_pairs ci (2 * n) = Some (ci', 2 * m) \<and> m \<le> n \<and> v < 4 ^ m \<and> unat ci' = v * 4 ^ (16 - m)"
  using assms
proof (induction n arbitrary: ci)
  case (Suc n)
  note step = pair_step [OF Suc.prems(1)]
  show ?case
  proof (cases "BIGINT_DIGIT_2MSBS ci = 0")
    case True
    then have "v div 4 ^ n = 0" using step(1) Suc.prems by simp
    then have "v < 4 ^ n" by (simp add: div_eq_0_iff)
    then have "unat (push_bit 2 ci) = v * 4 ^ (16 - n)" using step(2) Suc.prems by simp
    from Suc.IH [OF this] \<open>v < 4 ^ n\<close> Suc.prems obtain m ci' where
      "skip_zero_pairs (push_bit 2 ci) (2 * n) = Some (ci', 2 * m)" "m \<le> n" "v < 4 ^ m" "unat ci' = v * 4 ^ (16 - m)" by auto
    then show ?thesis using True
      by (intro exI [of _ m] exI [of _ ci']) (subst skip_zero_pairs.simps, simp)
  next
    case False
    then show ?thesis using Suc.prems by (intro exI [of _ "Suc n"] exI [of _ ci]) (subst skip_zero_pairs.simps, simp)
  qed
qed simp

section \<open>The loops of the power\<close>

text \<open>\<open>bp\<close> holds the powers of \<open>B\<close> modulo \<open>D\<close> that the pairs in \<open>S\<close> select.\<close>

definition powers_of :: "nat \<Rightarrow> nat \<Rightarrow> nat \<Rightarrow> bigint list \<Rightarrow> nat set \<Rightarrow> bool" where
  "powers_of B D k bp S \<longleftrightarrow> (\<forall>s \<in> S - {0}. length (bp ! (s - 1)) = k \<and> bigval (bp ! (s - 1)) mod D = B ^ s mod D)"

lemma powers_of_subset: "powers_of B D k bp S \<Longrightarrow> T \<subseteq> S \<Longrightarrow> powers_of B D k bp T"
  by (auto simp: powers_of_def)

text \<open>What the accumulator is: \<open>B\<close> to the power of the part of the exponent that is read.\<close>

definition power_value :: "nat \<Rightarrow> bigint \<Rightarrow> nat \<Rightarrow> bigint \<Rightarrow> bool" where
  "power_value B d e t \<longleftrightarrow> length t = length d \<and> bigval t mod bigval d = B ^ e mod bigval d"

lemma power_value_mult:
  assumes "power_value B d i x" and "power_value B d j y" and "length d \<le> MAX_BIGINT_DIGITS" and "bigval d \<noteq> 0"
  shows "\<exists>r. bigint_mod_mult a x y d = Some r \<and> power_value B d (i + j) r \<and> bigval r < bigval d"
proof -
  have l: "length x = length d" "length y = length d" using assms(1,2) by (simp_all add: power_value_def)
  obtain r where r: "bigint_mod_mult a x y d = Some r" "length r = length d" "bigval r = bigval x * bigval y mod bigval d"
    by (rule bigint_mod_mult_value [OF l assms(3,4)])
  have "bigval x * bigval y mod bigval d = B ^ i * B ^ j mod bigval d"
    using assms(1,2) by (intro mod_mult_cong) (simp_all add: power_value_def)
  then show ?thesis using r assms(4) by (simp add: power_value_def power_add)
qed

definition pairs_of :: "nat \<Rightarrow> nat \<Rightarrow> nat set" where
  "pairs_of n v = {v div 4 ^ i mod 4 | i. i < n}"

lemma pairs_of_top: "v < 4 ^ Suc n \<Longrightarrow> v div 4 ^ n \<in> pairs_of (Suc n) v"
  by (auto simp: pairs_of_def less_mult_imp_div_less intro!: exI [of _ n])

lemma pairs_of_rest: "pairs_of n (v mod 4 ^ n) \<subseteq> pairs_of (Suc n) v"
proof -
  have "v mod 4 ^ n div 4 ^ i mod 4 = v div 4 ^ i mod 4" if "i < n" for i
  proof -
    have "(4 :: nat) ^ n = 4 ^ i * 4 ^ (n - i)" "(4 :: nat) dvd 4 ^ (n - i)" using that by (simp_all add: power_add [symmetric])
    then show ?thesis by (simp add: mod_mult2_eq mod_mod_cancel)
  qed
  then show ?thesis by (fastforce simp: pairs_of_def)
qed

lemma pairs_of_digit: "pairs_of 16 (unat e) = set (digit_pairs e)"
  by (auto simp: pairs_of_def digit_pairs_def)

lemma exp_pairs_value:
  assumes d: "length d \<le> MAX_BIGINT_DIGITS" "bigval d \<noteq> 0"
    and "unat ci = v * 4 ^ (16 - n)" and "v < 4 ^ n" and "n \<le> 16"
    and "powers_of B (bigval d) (length d) bp (pairs_of n v)" and "power_value B d e t"
  shows "\<exists>r. exp_pairs bp d n ci t = Some r \<and> power_value B d (e * 4 ^ n + v) r \<and>
    (0 < n \<or> bigval t < bigval d \<longrightarrow> bigval r < bigval d)"
  using assms(3-)
proof (induction n arbitrary: ci v e t)
  case (Suc n)
  note step = pair_step [OF Suc.prems(1)]
  obtain t2 t4 where t2: "bigint_mod_mult t t t d = Some t2" "power_value B d (e + e) t2"
    and t4: "bigint_mod_mult t2 t2 t2 d = Some t4" "power_value B d ((e + e) + (e + e)) t4" "bigval t4 < bigval d"
    using power_value_mult [OF _ _ d] Suc.prems(5) by metis
  have four: "4 * e = (e + e) + (e + e)" by simp
  have t4': "power_value B d (4 * e) t4" unfolding four by (rule t4(2))
  define s where "s = v div 4 ^ n"
  have s: "unat (BIGINT_DIGIT_2MSBS ci) = s" "s \<in> pairs_of (Suc n) v"
    using step(1) pairs_of_top Suc.prems(2,3) by (simp_all add: s_def)
  have "\<exists>t5. (if s \<noteq> 0 then bigint_mod_mult t4 t4 (bp ! (s - 1)) d else Some t4) = Some t5 \<and>
    power_value B d (4 * e + s) t5 \<and> bigval t5 < bigval d"
  proof (cases "s = 0")
    case True
    then show ?thesis using t4(3) t4' by simp
  next
    case False
    then have "power_value B d s (bp ! (s - 1))" using Suc.prems(4) s(2) by (simp add: powers_of_def power_value_def)
    then show ?thesis using power_value_mult [OF t4' _ d] False by simp
  qed
  then obtain t5 where t5: "(if s \<noteq> 0 then bigint_mod_mult t4 t4 (bp ! (s - 1)) d else Some t4) = Some t5"
    "power_value B d (4 * e + s) t5" "bigval t5 < bigval d" by blast
  have "unat (push_bit 2 ci) = v mod 4 ^ n * 4 ^ (16 - n)" using step(2) Suc.prems(3) by simp
  from Suc.IH [OF this _ _ powers_of_subset [OF Suc.prems(4) pairs_of_rest] t5(2)] Suc.prems(3)
  obtain r where r: "exp_pairs bp d n (push_bit 2 ci) t5 = Some r" "power_value B d ((4 * e + s) * 4 ^ n + v mod 4 ^ n) r"
    "bigval r < bigval d" using t5(3) by auto
  have "(4 * e + s) * 4 ^ n + v mod 4 ^ n = e * 4 ^ Suc n + v"
    using div_mult_mod_eq [of v "4 ^ n"] by (simp add: s_def algebra_simps)
  then show ?case using t2(1) t4(1) t5(1) r s(1) by (simp add: Let_def cong: if_cong)
qed simp

lemma exp_digits_value:
  assumes d: "length d \<le> MAX_BIGINT_DIGITS" "bigval d \<noteq> 0"
    and "i < N" and "N \<le> length c" and "powers_of B (bigval d) (length d) bp (set (exponent_pairs c))"
    and "power_value B d e t" and "bigval t < bigval d"
  shows "\<exists>r. exp_digits bp d c N i t = Some r \<and> power_value B d (e * 2 ^ (32 * i) + bigval (take i c)) r \<and> bigval r < bigval d"
  using assms(3-)
proof (induction i arbitrary: e t)
  case (Suc i)
  have "pairs_of 16 (unat (c ! i)) \<subseteq> set (exponent_pairs c)"
    using Suc.prems(1,2) by (auto simp: pairs_of_digit exponent_pairs_def intro!: bexI [of _ "c ! i"])
  then obtain t' where t': "exp_pairs bp d 16 (c ! i) t = Some t'" "power_value B d (e * 4 ^ 16 + unat (c ! i)) t'"
    "bigval t' < bigval d"
    using exp_pairs_value [OF d, of "c ! i" "unat (c ! i)" 16 B bp e t] powers_of_subset [OF Suc.prems(3)] Suc.prems(4) unat_digit [of "c ! i"]
    by auto
  obtain r where r: "exp_digits bp d c N i t' = Some r" "bigval r < bigval d"
    "power_value B d ((e * 4 ^ 16 + unat (c ! i)) * 2 ^ (32 * i) + bigval (take i c)) r"
    using Suc.IH [OF _ Suc.prems(2,3) t'(2,3)] Suc.prems(1) by auto
  have "(e * 4 ^ 16 + unat (c ! i)) * 2 ^ (32 * i) + bigval (take i c) = e * 2 ^ (32 * Suc i) + bigval (take (Suc i) c)"
    using take_Suc_bigval [of i c] Suc.prems(1,2) by (simp add: algebra_simps power_add)
  then show ?case using t'(1) r Suc.prems(1) by simp
qed simp

lemma exp_from_powers:
  assumes d: "length d \<le> MAX_BIGINT_DIGITS" "1 < bigval d"
    and bp: "powers_of B (bigval d) (length d) bp (set (exponent_pairs c))"
  defines "n \<equiv> bigint_digits c (length c)"
  shows "\<exists>r. exp_digits bp d c n n (BIGINT_ASSIGN_DIGIT 1 (length d)) = Some r \<and> length r = length d \<and>
    bigval r = B ^ bigval c mod bigval d"
proof -
  have d0: "bigval d \<noteq> 0" using d(2) by simp
  let ?one = "BIGINT_ASSIGN_DIGIT 1 (length d)"
  have "d \<noteq> []" using d(2) by auto
  then have one: "power_value B d 0 ?one" "bigval ?one < bigval d"
    using d(2) by (cases d; simp add: power_value_def BIGINT_ASSIGN_DIGIT_def bigint_zero_def)+
  have "\<exists>r. exp_digits bp d c n n ?one = Some r \<and> power_value B d (bigval (take n c)) r \<and> bigval r < bigval d"
  proof (cases n)
    case 0
    then show ?thesis using one by simp
  next
    case (Suc k)
    have k: "k < length c" "c ! k \<noteq> 0"
      using Suc bigint_digits_le [of c "length c"] bigint_digits_top [of c "length c" k] by (simp_all add: n_def)
    then have "0 < unat (c ! k)" by (simp add: unat_gt_0)
    then obtain m ci where m: "skip_zero_pairs (c ! k) 32 = Some (ci, 2 * m)" "m \<le> 16" "unat (c ! k) < 4 ^ m"
      "unat ci = unat (c ! k) * 4 ^ (16 - m)"
      using skip_zero_pairs_value [of "c ! k" "unat (c ! k)" 16] unat_digit [of "c ! k"] by auto
    have "m \<noteq> 0" using \<open>0 < unat (c ! k)\<close> m(3) by (cases m) simp_all
    have "pairs_of m (unat (c ! k)) \<subseteq> pairs_of 16 (unat (c ! k))" using m(2) by (auto simp: pairs_of_def)
    also have "\<dots> \<subseteq> set (exponent_pairs c)" using nth_mem [OF k(1)] by (auto simp: pairs_of_digit exponent_pairs_def)
    finally have "\<exists>t. exp_pairs bp d m ci ?one = Some t \<and> power_value B d (0 * 4 ^ m + unat (c ! k)) t \<and>
      (0 < m \<or> bigval ?one < bigval d \<longrightarrow> bigval t < bigval d)"
      by (intro exp_pairs_value [OF d(1) d0 m(4,3,2) powers_of_subset [OF bp] one(1)])
    then obtain t where t: "exp_pairs bp d m ci ?one = Some t" "power_value B d (unat (c ! k)) t" "bigval t < bigval d"
      using \<open>m \<noteq> 0\<close> by auto
    obtain r where "exp_digits bp d c n k t = Some r" "bigval r < bigval d"
      "power_value B d (unat (c ! k) * 2 ^ (32 * k) + bigval (take k c)) r"
      using exp_digits_value [OF d(1) d0, of k n c B bp "unat (c ! k)" t] bp t(2,3) Suc k(1) by auto
    then show ?thesis using m(1) t(1) take_Suc_bigval [OF k(1)] Suc by (simp add: algebra_simps)
  qed
  then obtain r where "exp_digits bp d c n n ?one = Some r" "power_value B d (bigval (take n c)) r" "bigval r < bigval d" by blast
  then show ?thesis using bigint_digits_value [of "length c" c] by (simp add: power_value_def n_def)
qed

section \<open>Powers\<close>

lemma mod_exp_value:
  assumes d: "length d \<le> MAX_BIGINT_DIGITS" "1 < bigval d" and b: "length b = length d"
    and c: "set (exponent_pairs c) \<subseteq> ready_powers (c ! 0)"
  shows "\<exists>a. bigint_mod_exp stack b c d = Some a \<and> length a = length d \<and> bigval a = bigval b ^ bigval c mod bigval d"
proof -
  let ?R = "ready_powers (c ! 0)"
  note need = needed_powers_value [of "c ! 0"]
  have d0: "bigval d \<noteq> 0" using d(2) by simp
  have p0: "power_value (bigval b) d 1 b" using b by (simp add: power_value_def)
  obtain p1 where p1: "(if needed_powers (c ! 0) ! 2 > 0 then bigint_mod_mult (stack ! 1) b b d else Some (stack ! 1)) = Some p1"
    "2 \<in> ?R \<Longrightarrow> power_value (bigval b) d (1 + 1) p1"
    using power_value_mult [OF p0 p0 d(1) d0, of "stack ! 1"] need(1) by (cases "2 \<in> ?R") auto
  have two: "2 \<in> ?R" if "3 \<in> ?R" using that by (auto simp: ready_powers_def split: if_splits)
  obtain p2 where p2: "(if needed_powers (c ! 0) ! 3 > 0 then bigint_mod_mult (stack ! 2) p1 b d else Some (stack ! 2)) = Some p2"
    "3 \<in> ?R \<Longrightarrow> power_value (bigval b) d (1 + 1 + 1) p2"
    using power_value_mult [OF p1(2) p0 d(1) d0, of "stack ! 2"] need(2) two by (cases "3 \<in> ?R") auto
  have "s \<in> {0, 1, 2, 3}" if "s \<in> set (exponent_pairs c)" for s
    using that by (auto simp: exponent_pairs_def digit_pairs_def)
  then have "powers_of (bigval b) (bigval d) (length d) [b, p1, p2] (set (exponent_pairs c))"
    using p0 p1(2) p2(2) c by (fastforce simp: powers_of_def power_value_def numeral_eq_Suc)
  from exp_from_powers [OF d this] show ?thesis using p1(1) p2(1) d(1)
    by (auto simp: bigint_mod_exp_def bigint_copy_def Let_def cong: if_cong)
qed

text \<open>
  C15: \<open>bigint_mod_exp\<close> computes powers. With a modulus above 1 and up to 129 digits it returns
  \<open>b ^ c mod d\<close> exactly, with as many digits as the modulus, whatever the stack held, for every
  exponent whose pairs of bits are each 00 or 01, or occur in its lowest digit (10 also when 11 does).
  All exponents of one digit are among these.
\<close>

theorem mod_exp_power:
  assumes "length d \<le> MAX_BIGINT_DIGITS" and "1 < bigval d" and "length b = length d"
    and "set (exponent_pairs c) \<subseteq> ready_powers (c ! 0)"
  shows "\<exists>a. bigint_mod_exp stack b c d = Some a \<and> length a = length d \<and> bigval a = bigval b ^ bigval c mod bigval d"
  by (rule mod_exp_value [OF assms])

theorem mod_exp_power_witness:
  "\<exists>a. bigint_mod_exp [[], [], []] [2, 1] [3, 0x80000001] [5, 7] = Some a \<and> length a = length [5, 7 :: u32] \<and>
    bigval a = bigval [2, 1] ^ bigval [3, 0x80000001] mod bigval [5, 7]"
  by (rule mod_exp_power) (simp_all add: exponent_pairs_def digit_pairs_def ready_powers_def upt_rec)

lemma one_digit_ready: "set (exponent_pairs [e]) \<subseteq> ready_powers ([e] ! 0)"
  by (auto simp: exponent_pairs_def ready_powers_def)


end
