(* ===== verification/Csl_Rsa_Correct.thy ===== *)
theory Csl_Rsa_Correct
  imports Csl_Rsa Csl_Bigint_Exp
begin

text \<open>
  RSA signatures: octet strings and numbers correspond, the padded digest is what PKCS 1 asks for,
  and the code signs and verifies with powers modulo the key.
\<close>

unbundle bit_operations_syntax

section \<open>Octet strings\<close>

fun octval :: "buffer \<Rightarrow> nat" where
  "octval [] = 0"
| "octval (b # bs) = unat b + 256 * octval bs"

text \<open>The number an octet string stands for: the first octet is the most significant.\<close>

definition octets_value :: "buffer \<Rightarrow> nat" where
  "octets_value bs = octval (rev bs)"

lemma unat_octet: "unat (b :: u8) < 256"
  using unsigned_less [of b] by simp

lemma octval_append: "octval (a @ b) = octval a + 256 ^ length a * octval b"
  by (induction a) (simp_all add: algebra_simps)

lemma octval_less: "octval a < 256 ^ length a"
proof (induction a)
  case (Cons x a)
  then show ?case using unat_octet [of x] by simp
qed simp

lemma octval_zeros [simp]: "octval (replicate n 0) = 0"
  by (induction n) simp_all

lemma octval_take: "octval (take n a) = octval a mod 256 ^ n"
proof (cases "n \<le> length a")
  case True
  then have "octval a = octval (take n a) + 256 ^ n * octval (drop n a)"
    using octval_append [of "take n a" "drop n a"] by simp
  moreover have "octval (take n a) < 256 ^ n" using octval_less [of "take n a"] True by simp
  ultimately show ?thesis by simp
next
  case False
  then have "octval a < 256 ^ n" using octval_less [of a] by (meson less_le_trans nat_le_linear one_le_numeral power_increasing)
  then show ?thesis using False by simp
qed

lemma octval_inject: "length a = length b \<Longrightarrow> octval a = octval b \<Longrightarrow> a = b"
proof (induction a b rule: list_induct2)
  case (Cons x a y b)
  have "unat x = octval (x # a) mod 256" "unat y = octval (y # b) mod 256" using unat_octet [of x] unat_octet [of y] by simp_all
  then have "unat x = unat y" using Cons.prems by metis
  then have "x = y" by (simp only: word_unat_eq_iff)
  then show ?case using Cons by simp
qed simp

lemma octets_value_inject: "length a = length b \<Longrightarrow> octets_value a = octets_value b \<longleftrightarrow> a = b"
  using octval_inject [of "rev a" "rev b"] by (auto simp: octets_value_def)

lemma octets_value_less: "octets_value a < 256 ^ length a"
  using octval_less [of "rev a"] by (simp add: octets_value_def)

text \<open>A digit and its octets.\<close>

lemma or_octets_value:
  assumes "unat t < 2 ^ u" and "u + 8 * length bs \<le> 32"
  shows "unat (or_octets u t bs) = unat t + 2 ^ u * octval bs"
  using assms
proof (induction bs arbitrary: u t)
  case (Cons b bs)
  have small: "unat b * 2 ^ u < 2 ^ (u + 8)" using unat_octet [of b] by (simp add: power_add)
  also have "(2 :: nat) ^ (u + 8) \<le> 2 ^ 32" using Cons.prems(2) by (intro power_increasing) simp_all
  finally have fits: "unat b * 2 ^ u < 2 ^ 32" .
  have "unat (push_bit u (ucast b) :: u32) = unat b * 2 ^ u"
    using fits unat_octet [of b] by (simp add: unsigned_push_bit_eq push_bit_nat_def take_bit_nat_def unsigned_ucast_eq)
  then have t: "unat (t OR push_bit u (ucast b)) = unat t + 2 ^ u * unat b"
    using push_or_nat [OF Cons.prems(1), of "unat b"] by (simp add: unsigned_or_eq push_bit_nat_def or.commute)
  have "unat t + 2 ^ u * unat b < 2 ^ (u + 8)"
  proof -
    have "2 ^ u * (unat b + 1) \<le> 2 ^ u * 256" using unat_octet [of b] by (intro mult_le_mono2) linarith
    then have "2 ^ u * unat b + 2 ^ u \<le> 2 ^ (u + 8)" by (simp add: power_add)
    then show ?thesis using Cons.prems(1) by linarith
  qed
  then show ?case using Cons.IH [of "t OR push_bit u (ucast b)" "u + 8"] Cons.prems(2) t
    by (simp add: power_add algebra_simps)
qed simp

lemma digit_octets_value: "octval (digit_octets t) = unat t" and length_digit_octets [simp]: "length (digit_octets t) = 4"
proof -
  have part: "unat (ucast (drop_bit u t) :: u8) = unat t div 2 ^ u mod 256" for u
  proof -
    have "unat (drop_bit u t) = unat t div 2 ^ u"
      by (simp only: unsigned_drop_bit_eq drop_bit_nat_def) (simp add: take_bit_nat_eq_self unat_digit [simplified])
    then show ?thesis by (simp add: unsigned_ucast_eq take_bit_nat_def)
  qed
  have o: "octval (digit_octets t) = unat t mod 256 + 256 * (unat t div 2 ^ 8 mod 256 +
      256 * (unat t div 2 ^ 16 mod 256 + 256 * (unat t div 2 ^ 24 mod 256)))"
    using part [of 0] part [of 8] part [of 16] part [of 24] by (simp add: digit_octets_def)
  have d: "unat t div 2 ^ 16 = unat t div 2 ^ 8 div 256" "unat t div 2 ^ 24 = unat t div 2 ^ 16 div 256" by (simp_all add: div_mult2_eq [symmetric])
  have "unat t div 2 ^ 24 < 256" using unat_digit [of t] by simp
  then have "unat t div 2 ^ 24 mod 256 = unat t div 2 ^ 24" by simp
  then show "octval (digit_octets t) = unat t" unfolding o
    using mod_mult_div_eq [of "unat t" 256] mod_mult_div_eq [of "unat t div 2 ^ 8" 256] mod_mult_div_eq [of "unat t div 2 ^ 16" 256]
      d by simp
  show "length (digit_octets t) = 4" by (simp add: digit_octets_def)
qed

lemma os2ip_digits_value: "bigval (os2ip_digits n bs) = octval (take (4 * n) bs) \<and> length (os2ip_digits n bs) = n"
proof (induction n arbitrary: bs)
  case (Suc n)
  have "unat (or_octets 0 0 (take 4 bs)) = octval (take 4 bs)" using or_octets_value [of 0 0 "take 4 bs"] by simp
  moreover have "octval (take (4 * Suc n) bs) = octval (take 4 bs) + 2 ^ 32 * octval (take (4 * n) (drop 4 bs))"
  proof (cases "4 \<le> length bs")
    case True
    have "take (4 * Suc n) bs = take 4 bs @ take (4 * n) (drop 4 bs)" using take_add [of 4 "4 * n" bs] by simp
    then show ?thesis using True by (simp add: octval_append)
  qed simp
  ultimately show ?case using Suc.IH [of "drop 4 bs"] by simp
qed simp

lemma OS2IP_value: "bigval (OS2IP n b) = octets_value b mod 256 ^ (4 * n)" and OS2IP_length [simp]: "length (OS2IP n b) = n"
  using os2ip_digits_value [of n "rev b"] by (simp_all add: OS2IP_def octets_value_def octval_take)

lemma octets_of_digits: "octval (concat (map digit_octets b)) = bigval b \<and> length (concat (map digit_octets b)) = 4 * length b"
  by (induction b) (simp_all add: octval_append digit_octets_value)

lemma I2OSP_value: "octets_value (I2OSP len b) = bigval b mod 256 ^ len" and I2OSP_length [simp]: "length (I2OSP len b) = len"
  using octets_of_digits [of b] by (simp_all add: I2OSP_def octets_value_def octval_take octval_append min_def)

section \<open>The public operation\<close>

lemma rd_bytes_prefix': "n = length bs \<Longrightarrow> rd_bytes (bs @ c) 0 n = Some bs"
  by (simp add: rd_bytes_def)

lemma key_modulus:
  assumes "length key = 4 * n"
  shows "bigval (OS2IP n key) = octets_value key"
  using octets_value_less [of key] assms by (simp add: OS2IP_value)

lemma decrypt_value:
  assumes k: "length key = unat keySize" "length input = unat keySize" "unat keySize \<le> length out"
    and n: "4 dvd unat keySize" "unat keySize \<le> 4 * MAX_BIGINT_DIGITS"
    and e: "length exponent = unat expSize" and m: "1 < octets_value key"
  shows "\<exists>c. CSL_DecryptRsa stack key keySize exponent expSize input out = Some (c @ drop (unat keySize) out, CSL_OK) \<and>
    length c = unat keySize \<and>
    octets_value c = octets_value input ^ (octets_value exponent mod 2 ^ 32) mod octets_value key"
proof -
  let ?n = "unat keySize div 4"
  have n4: "unat keySize = 4 * ?n" using n(1) by simp
  have len: "length key = 4 * ?n" "length input = 4 * ?n" using k(1,2) n4 by linarith+
  have max: "?n \<le> MAX_BIGINT_DIGITS" using n(2) n4 by linarith
  obtain e0 where E: "OS2IP 1 exponent = [e0]" using OS2IP_length [of 1 exponent] by (metis One_nat_def length_0_conv length_Suc_conv)
  have ready: "set (exponent_pairs (OS2IP 1 exponent)) \<subseteq> ready_powers (OS2IP 1 exponent ! 0)"
    unfolding E by (rule one_digit_ready)
  have ev: "bigval (OS2IP 1 exponent) = octets_value exponent mod 2 ^ 32" by (simp add: OS2IP_value)
  obtain a where a: "bigint_mod_exp stack (OS2IP ?n input) (OS2IP 1 exponent) (OS2IP ?n key) = Some a" "length a = ?n"
    "bigval a = octets_value input ^ (octets_value exponent mod 2 ^ 32) mod octets_value key"
    using mod_exp_value [of "OS2IP ?n key" "OS2IP ?n input", OF _ _ _ ready] max m
    unfolding ev key_modulus [OF len(1)] key_modulus [OF len(2)] by auto
  have "bigval a < 256 ^ unat keySize"
  proof -
    have "bigval a < octets_value key" using a(3) m by simp
    also have "\<dots> < 256 ^ unat keySize" using octets_value_less [of key] k(1) by simp
    finally show ?thesis .
  qed
  moreover have "wr_bytes out 0 (I2OSP (unat keySize) a) = Some (I2OSP (unat keySize) a @ drop (unat keySize) out)"
    using k(3) by (simp add: wr_bytes_def)
  ultimately show ?thesis using a(1,3) k(1,2) e max
    by (intro exI [of _ "I2OSP (unat keySize) a"]) (simp add: CSL_DecryptRsa_def Let_def I2OSP_value)
qed

section \<open>The padded digest\<close>

text \<open>\<open>k\<close> octets: 00 01, then FF up to the description \<open>asn\<close> of the digest, and the digest.\<close>

definition padded_digest :: "nat \<Rightarrow> buffer \<Rightarrow> buffer \<Rightarrow> buffer" where
  "padded_digest k asn digest = [0, 1] @ replicate (k - length digest - length asn - 2) 0xff @ asn @ digest"

lemma match_octets_eq: "length p = length q \<Longrightarrow> match_octets m p q \<longleftrightarrow> m \<and> p = q"
  by (induction p q arbitrary: m rule: list_induct2) auto

lemma verify_padding_value:
  assumes c: "length c = unat keysize" and d: "length digest = unat digestSize"
    and fits: "length digest + length asn + 2 \<le> length c"
  shows "verify_padding digest asn digestSize (c @ rest) keysize = Some (c = padded_digest (unat keysize) asn digest)"
proof -
  have small: "length asn < 2 ^ 32" using fits c unat_digit [of keysize] by linarith
  then have asn: "unat (of_nat (length asn) :: u32) = length asn" by (simp add: unsigned_of_nat take_bit_nat_eq_self)
  define pad where "pad = unat (keysize - digestSize - of_nat (length asn) - 2)"
  have "pad = unat keysize - unat digestSize - length asn - 2"
  proof -
    have s1: "unat (keysize - digestSize) = unat keysize - unat digestSize"
      using fits c d by (intro unat_sub) (simp add: word_le_nat_alt)
    have s2: "unat (keysize - digestSize - of_nat (length asn)) = unat keysize - unat digestSize - length asn"
      using fits c d unfolding s1 [symmetric] by (subst unat_sub) (simp_all only: word_le_nat_alt s1 asn)
    show ?thesis unfolding pad_def s2 [symmetric] using fits c d
      by (subst unat_sub) (simp_all only: word_le_nat_alt s2, simp_all)
  qed
  then have pad: "length c = 2 + pad + length asn + unat digestSize" "pad = unat keysize - length digest - length asn - 2"
    using fits c d by simp_all
  define c0 c1 c2 c3 where "c0 = take 2 c" and "c1 = take pad (drop 2 c)" and "c2 = take (length asn) (drop (2 + pad) c)"
    and "c3 = drop (2 + pad + length asn) c"
  have len: "length c0 = 2" "length c1 = pad" "length c2 = length asn" "length c3 = unat digestSize"
    using pad by (simp_all add: c0_def c1_def c2_def c3_def)
  have "c2 @ c3 = drop (2 + pad) c"
    using append_take_drop_id [of "length asn" "drop (2 + pad) c"] by (simp add: c2_def c3_def add.commute)
  moreover have "c1 @ drop (2 + pad) c = drop 2 c"
    using append_take_drop_id [of pad "drop 2 c"] by (simp add: c1_def add.commute)
  ultimately have cs: "c = c0 @ c1 @ c2 @ c3"
    using append_take_drop_id [of 2 c] by (simp add: c0_def)
  obtain x y where c0: "c0 = [x, y]" using len(1) by (auto simp: length_Suc_conv numeral_2_eq_2)
  have rd: "rd_bytes (c @ rest) 0 2 = Some c0" "rd_bytes (c @ rest) 2 pad = Some c1"
    "rd_bytes (c @ rest) (2 + pad) (length asn) = Some c2" "rd_bytes (c @ rest) (2 + pad + length asn) (unat digestSize) = Some c3"
    using len unfolding cs by (simp_all add: rd_bytes_def)
  have "c = padded_digest (unat keysize) asn digest \<longleftrightarrow> c0 = [0, 1] \<and> c1 = replicate pad 0xff \<and> c2 = asn \<and> c3 = digest"
    unfolding cs padded_digest_def pad(2) [symmetric] using len d by (simp add: append_eq_append_conv c0)
  then show ?thesis using len d rd
    by (simp add: verify_padding_def Let_def pad_def [symmetric] match_octets_eq c0)
qed

text \<open>What the code accepts.\<close>

definition digest_asn :: "buffer \<Rightarrow> buffer option" where
  "digest_asn digest = (if length digest = 20 then Some sha1_sig else if length digest = 32 then Some sha256_sig else None)"

lemma verify_value:
  assumes k: "length key = unat keysize" "length sig = unat keysize" "length result = 4 * MAX_BIGINT_DIGITS"
    and n: "4 dvd unat keysize" "unat keysize \<le> 4 * MAX_BIGINT_DIGITS"
    and e: "length exponent = unat expsize" and m: "1 < octets_value key"
    and d: "length digest = unat digestSize" "digest_asn digest = Some asn" "length digest + length asn + 2 \<le> unat keysize"
  shows "CSL_VerifyRsaSig stack result digest digestSize key sig exponent expsize keysize = Some
    (if octets_value sig ^ (octets_value exponent mod 2 ^ 32) mod octets_value key = octets_value (padded_digest (unat keysize) asn digest)
     then CSL_OK else CSL_VERIFY_ERROR)"
proof -
  obtain c where c: "CSL_DecryptRsa stack key keysize exponent expsize sig result = Some (c @ drop (unat keysize) result, CSL_OK)"
    "length c = unat keysize" "octets_value c = octets_value sig ^ (octets_value exponent mod 2 ^ 32) mod octets_value key"
    using decrypt_value [OF k(1,2) _ n e m, of result stack] k(3) n(2) by auto
  have "length (padded_digest (unat keysize) asn digest) = unat keysize" using d(3) by (simp add: padded_digest_def)
  then have iff: "c = padded_digest (unat keysize) asn digest \<longleftrightarrow> octets_value c = octets_value (padded_digest (unat keysize) asn digest)"
    using c(2) octets_value_inject [of c "padded_digest (unat keysize) asn digest"] by simp
  have pad: "verify_padding digest asn digestSize (c @ drop (unat keysize) result) keysize =
      Some (c = padded_digest (unat keysize) asn digest)"
    by (rule verify_padding_value) (use c(2) d in simp_all)
  have size: "digestSize = 20 \<longleftrightarrow> length digest = 20" "digestSize = 32 \<longleftrightarrow> length digest = 32"
    using d(1) by (simp_all add: word_unat_eq_iff)
  show ?thesis using c(1) pad d(2) unfolding iff c(3) [symmetric]
    by (auto simp: CSL_VerifyRsaSig_def digest_asn_def size split: if_splits)
qed

section \<open>Signing\<close>

lemma wr_bytes_middle: "length v = length w \<Longrightarrow> length p = off \<Longrightarrow> wr_bytes (p @ w @ z) off v = Some (p @ v @ z)"
  by (simp add: wr_bytes_def)

lemma sign_buffer:
  assumes "k \<le> length buf" and "k = 2 + pad + length asn + length hash"
  shows "do {
      buf \<leftarrow> wr_bytes buf 0 (replicate k 0xff);
      buf \<leftarrow> put_u8 buf 0 0;
      buf \<leftarrow> put_u8 buf 1 1;
      buf \<leftarrow> wr_bytes buf (2 + pad + length asn) hash;
      wr_bytes buf (2 + pad) asn } = Some (padded_digest k asn hash @ drop k buf)"
proof -
  let ?ff = "\<lambda>n. replicate n (0xff :: u8)"
  have "wr_bytes buf 0 (?ff k) = Some ([0xff, 0xff] @ ?ff pad @ ?ff (length asn) @ ?ff (length hash) @ drop k buf)"
    using assms by (simp add: wr_bytes_def replicate_add add.assoc)
  moreover have "put_u8 ([x, y] @ z) 0 0 = Some ([0, y] @ z)" "put_u8 ([x, y] @ z) 1 1 = Some ([x, 1] @ z)" for x y z
    by (simp_all add: put_u8_def)
  moreover have "wr_bytes (([0, 1] @ ?ff pad @ ?ff (length asn)) @ ?ff (length hash) @ drop k buf) (2 + pad + length asn) hash =
      Some (([0, 1] @ ?ff pad @ ?ff (length asn)) @ hash @ drop k buf)" by (rule wr_bytes_middle) simp_all
  moreover have "wr_bytes (([0, 1] @ ?ff pad) @ ?ff (length asn) @ hash @ drop k buf) (2 + pad) asn =
      Some (([0, 1] @ ?ff pad) @ asn @ hash @ drop k buf)" by (rule wr_bytes_middle) simp_all
  moreover have "k - length hash - length asn - 2 = pad" using assms(2) by simp
  ultimately show ?thesis by (simp add: padded_digest_def)
qed

lemma compute_sig_value:
  assumes k: "length key = unat keysize" "length d = unat keysize" "length msg = unat keysize" "unat keysize \<le> length out"
    and n: "4 dvd unat keysize" "unat keysize \<le> 4 * MAX_BIGINT_DIGITS" and m: "1 < octets_value key"
    and ready: "set (exponent_pairs (OS2IP (unat keysize div 4) d)) \<subseteq> ready_powers (OS2IP (unat keysize div 4) d ! 0)"
  shows "\<exists>c. CSL_ComputeRsaSig stack out (msg @ rest) key d keysize = Some (c @ drop (unat keysize) out) \<and>
    length c = unat keysize \<and> octets_value c = octets_value msg ^ octets_value d mod octets_value key"
proof -
  let ?n = "unat keysize div 4"
  have n4: "unat keysize = 4 * ?n" using n(1) by simp
  have len: "length key = 4 * ?n" "length msg = 4 * ?n" "length d = 4 * ?n" using k(1-3) n4 by linarith+
  have max: "?n \<le> MAX_BIGINT_DIGITS" using n(2) n4 by linarith
  obtain a where a: "bigint_mod_exp stack (OS2IP ?n msg) (OS2IP ?n d) (OS2IP ?n key) = Some a"
    "bigval a = octets_value msg ^ octets_value d mod octets_value key"
    using mod_exp_value [of "OS2IP ?n key" "OS2IP ?n msg", OF _ _ _ ready] max m
    unfolding key_modulus [OF len(1)] key_modulus [OF len(2)] key_modulus [OF len(3)] by auto
  have "bigval a < octets_value key" using a(2) m by simp
  also have "\<dots> < 256 ^ unat keysize" using octets_value_less [of key] k(1) by simp
  finally have fits: "bigval a < 256 ^ unat keysize" .
  have "unat (keysize * 8 + 7 :: u32) = unat keysize * 8 + 7" using n(2) by (simp add: unat_add_lem [THEN iffD1] unat_mult_lem [THEN iffD1])
  then have outlen: "unat ((keysize * 8 + 7) div 8) = unat keysize" by (simp add: unat_div)
  have "wr_bytes out 0 (I2OSP (unat keysize) a) = Some (I2OSP (unat keysize) a @ drop (unat keysize) out)"
    using k(4) by (simp add: wr_bytes_def)
  then show ?thesis using a k max fits
    by (intro exI [of _ "I2OSP (unat keysize) a"])
      (simp add: CSL_ComputeRsaSig_def Let_def I2OSP_value rd_bytes_prefix' outlen)
qed

lemma sign_value:
  assumes k: "length key = unat keysize" "length d = unat keysize" "unat keysize \<le> length out" "length msgBuf = MAX_RSA_MODULUS_LEN"
    and n: "4 dvd unat keysize" "54 \<le> unat keysize" "unat keysize \<le> MAX_RSA_MODULUS_LEN" and m: "1 < octets_value key"
    and ready: "set (exponent_pairs (OS2IP (unat keysize div 4) d)) \<subseteq> ready_powers (OS2IP (unat keysize div 4) d ! 0)"
    and hash: "length hash = 32"
  shows "\<exists>c. CSL_RsaSignData stack msgBuf hash 32 key d keysize out = Some (c @ drop (unat keysize) out) \<and>
    length c = unat keysize \<and>
    octets_value c = octets_value (padded_digest (unat keysize) sha256_sig hash) ^ octets_value d mod octets_value key"
proof -
  let ?k = "unat keysize" and ?pad = "unat keysize - 54"
  have asn: "length sha256_sig = 20" by (simp add: sha256_sig_def)
  let ?msg = "padded_digest ?k sha256_sig hash"
  have "length ?msg = ?k" using n(2) hash asn by (simp add: padded_digest_def)
  from compute_sig_value [OF k(1,2) this k(3) n(1) _ m ready, of stack "drop ?k msgBuf"] n(3)
  obtain c where c: "CSL_ComputeRsaSig stack out (?msg @ drop ?k msgBuf) key d keysize = Some (c @ drop ?k out)"
    "length c = ?k" "octets_value c = octets_value ?msg ^ octets_value d mod octets_value key" by auto
  have h: "unat (keysize - 32) = 2 + ?pad + 20"
    using n(2) by (subst unat_sub) (simp_all add: word_le_nat_alt)
  have a: "unat (keysize - 32 - of_nat 20) = 2 + ?pad"
    using n(2) h by (subst unat_sub) (simp_all add: word_le_nat_alt)
  have k_eq: "?k = 2 + ?pad + length sha256_sig + length hash" using n(2) asn hash by simp
  have "?k \<le> length msgBuf" using k(4) n(3) by simp
  note buf = sign_buffer [OF this k_eq, unfolded asn hash]
  have "CSL_RsaSignData stack msgBuf hash 32 key d keysize out = do {
      buf \<leftarrow> do {
        buf \<leftarrow> wr_bytes msgBuf 0 (replicate ?k 0xff);
        buf \<leftarrow> put_u8 buf 0 0;
        buf \<leftarrow> put_u8 buf 1 1;
        buf \<leftarrow> wr_bytes buf (2 + ?pad + 20) hash;
        wr_bytes buf (2 + ?pad) sha256_sig };
      CSL_ComputeRsaSig stack out buf key d keysize }"
    using n(3) hash asn h a by (simp add: CSL_RsaSignData_def memcpy_at_def)
  then show ?thesis using c unfolding buf by simp
qed

section \<open>Signatures\<close>

text \<open>
  C14: a signature verifies, for its digest only. Let the private exponent undo the public one on
  the padded digest (the third power of the message is the message again, as for any matching RSA
  keys), and let the private exponent be one that \<open>bigint_mod_exp\<close> handles. Then \<open>CSL_RsaSignData\<close> on a
  SHA-256 digest writes a signature of the size of the key, and \<open>CSL_VerifyRsaSig\<close> accepts it for this
  digest and rejects it for every other SHA-256 digest and every SHA-1 digest.
\<close>

theorem signature_verifies:
  assumes "length key = unat keysize" and "length d = unat keysize" and "length out = unat keysize"
    and "length msgBuf = MAX_RSA_MODULUS_LEN" and "length result = 4 * MAX_BIGINT_DIGITS"
    and "4 dvd unat keysize" and "54 \<le> unat keysize" and "unat keysize \<le> MAX_RSA_MODULUS_LEN" and "1 < octets_value key"
    and "set (exponent_pairs (OS2IP (unat keysize div 4) d)) \<subseteq> ready_powers (OS2IP (unat keysize div 4) d ! 0)"
    and "length exponent = 4" and "length hash = 32"
    and "(octets_value (padded_digest (unat keysize) sha256_sig hash) ^ octets_value d) ^ octets_value exponent
      mod octets_value key = octets_value (padded_digest (unat keysize) sha256_sig hash)"
  shows "\<exists>sig. CSL_RsaSignData stack msgBuf hash 32 key d keysize out = Some sig \<and> length sig = unat keysize \<and>
    (\<forall>h. length h = 32 \<longrightarrow> CSL_VerifyRsaSig stack' result h 32 key sig exponent 4 keysize =
      Some (if h = hash then CSL_OK else CSL_VERIFY_ERROR)) \<and>
    (\<forall>h. length h = 20 \<longrightarrow> CSL_VerifyRsaSig stack' result h 20 key sig exponent 4 keysize = Some CSL_VERIFY_ERROR)"
proof -
  let ?pad = "padded_digest (unat keysize)"
  obtain sig where sig: "CSL_RsaSignData stack msgBuf hash 32 key d keysize out = Some sig" "length sig = unat keysize"
    "octets_value sig = octets_value (?pad sha256_sig hash) ^ octets_value d mod octets_value key"
    using sign_value [OF assms(1,2) _ assms(4,6,7,8,9,10,12), of out stack] assms(3) by auto
  have "octets_value exponent mod 2 ^ 32 = octets_value exponent" using octets_value_less [of exponent] assms(11) by simp
  then have dec: "octets_value sig ^ (octets_value exponent mod 2 ^ 32) mod octets_value key = octets_value (?pad sha256_sig hash)"
    using assms(13) by (simp add: sig(3) power_mod)
  have asn: "length sha256_sig = 20" "length sha1_sig = 16" by (simp_all add: sha256_sig_def sha1_sig_def)
  have max: "unat keysize \<le> 4 * MAX_BIGINT_DIGITS" using assms(8) by simp
  have "CSL_VerifyRsaSig stack' result h 32 key sig exponent 4 keysize = Some (if h = hash then CSL_OK else CSL_VERIFY_ERROR)"
    if h: "length h = 32" for h
  proof -
    have "?pad sha256_sig hash = ?pad sha256_sig h \<longleftrightarrow> h = hash" using h assms(12) by (auto simp: padded_digest_def)
    moreover have "length (?pad sha256_sig hash) = length (?pad sha256_sig h)" using h assms(12) by (simp add: padded_digest_def)
    ultimately have iff: "octets_value (?pad sha256_sig hash) = octets_value (?pad sha256_sig h) \<longleftrightarrow> h = hash"
      using octets_value_inject by blast
    show ?thesis unfolding iff [symmetric] dec [symmetric]
      by (rule verify_value [OF assms(1) sig(2) assms(5,6) max _ assms(9)]) (use h assms(7,11) asn in \<open>simp_all add: digest_asn_def\<close>)
  qed
  moreover have "CSL_VerifyRsaSig stack' result h 20 key sig exponent 4 keysize = Some CSL_VERIFY_ERROR" if h: "length h = 20" for h
  proof -
    have "unat keysize - 54 < unat keysize - 38" using assms(7) by linarith
    then have at: "unat keysize - 52 - 2 < unat keysize - 20 - 16 - 2" by simp
    have len: "length (?pad sha256_sig hash) = length (?pad sha1_sig h)" using h assms(7,12) asn by (simp add: padded_digest_def)
    have "?pad sha256_sig hash ! (unat keysize - 52) \<noteq> ?pad sha1_sig h ! (unat keysize - 52)"
      using h assms(7,12) asn at by (simp add: padded_digest_def nth_append sha256_sig_def)
    then have "octets_value (?pad sha256_sig hash) \<noteq> octets_value (?pad sha1_sig h)"
      using octets_value_inject [OF len] by metis
    then show ?thesis
      using verify_value [OF assms(1) sig(2) assms(5,6) max _ assms(9), of exponent 4 h 20 sha1_sig stack'] h assms(7,11) asn
      by (simp add: digest_asn_def dec [simplified])
  qed
  ultimately show ?thesis using sig(1,2) by blast
qed

lemma cube_cubed:
  fixes m n :: nat
  assumes "n = 2 * (m + 1)" and "m = 2 * q + 1"
  shows "(m ^ 3) ^ 3 mod n = m"
proof -
  have "n = 4 * q + 4" using assms by simp
  then have "m * m = q * n + 1" unfolding assms(2) by (simp add: algebra_simps)
  then have sq: "m * m mod n = 1 mod n" by (simp only: mod_mult_self3)
  have "(m ^ 3) ^ 3 = (m * m) ^ 4 * m" by (simp add: power_mult [symmetric] power2_eq_square [symmetric] flip: power_Suc2)
  also have "\<dots> mod n = (m * m mod n) ^ 4 * m mod n" by (metis mod_mult_left_eq power_mod)
  also have "\<dots> = 1 ^ 4 * m mod n" unfolding sq by (metis mod_mult_left_eq power_mod)
  finally show ?thesis using assms(1) by simp
qed

theorem signature_verifies_witness:
  "\<exists>sig. CSL_RsaSignData [] (replicate 512 0) (replicate 32 1) 32 [0, 3, 255, 254, 0, 96, 98, 96, 26, 12, 18, 193, 12, 144, 2, 202, 6, 8, 4, 2, 10, 0, 8, 64, 2, 2, 2, 2, 2, 2, 2, 2, 2, 2, 2, 2, 2, 2, 2, 2, 2, 2, 2, 2, 2, 2, 2, 2, 2, 2, 2, 2, 2, 2, 2, 4] (replicate 55 0 @ [3]) 56 (replicate 56 0) = Some sig \<and>
    length sig = unat (56 :: u32) \<and>
    (\<forall>h. length h = 32 \<longrightarrow> CSL_VerifyRsaSig [] (replicate 516 0) h 32 [0, 3, 255, 254, 0, 96, 98, 96, 26, 12, 18, 193, 12, 144, 2, 202, 6, 8, 4, 2, 10, 0, 8, 64, 2, 2, 2, 2, 2, 2, 2, 2, 2, 2, 2, 2, 2, 2, 2, 2, 2, 2, 2, 2, 2, 2, 2, 2, 2, 2, 2, 2, 2, 2, 2, 4] sig [0, 0, 0, 3] 4 56 =
      Some (if h = replicate 32 1 then CSL_OK else CSL_VERIFY_ERROR)) \<and>
    (\<forall>h. length h = 20 \<longrightarrow> CSL_VerifyRsaSig [] (replicate 516 0) h 20 [0, 3, 255, 254, 0, 96, 98, 96, 26, 12, 18, 193, 12, 144, 2, 202, 6, 8, 4, 2, 10, 0, 8, 64, 2, 2, 2, 2, 2, 2, 2, 2, 2, 2, 2, 2, 2, 2, 2, 2, 2, 2, 2, 2, 2, 2, 2, 2, 2, 2, 2, 2, 2, 2, 2, 4] sig [0, 0, 0, 3] 4 56 = Some CSL_VERIFY_ERROR)"
proof (rule signature_verifies)
  have d: "OS2IP (unat (56 :: u32) div 4) (replicate 55 0 @ [3]) = 3 # replicate 13 0" by code_simp
  show "set (exponent_pairs (OS2IP (unat (56 :: u32) div 4) (replicate 55 0 @ [3]))) \<subseteq>
      ready_powers (OS2IP (unat (56 :: u32) div 4) (replicate 55 0 @ [3]) ! 0)"
    unfolding d by (simp add: exponent_pairs_def digit_pairs_def ready_powers_def upt_rec)
  have rep: "replicate 32 (1 :: u8) = [1, 1, 1, 1, 1, 1, 1, 1, 1, 1, 1, 1, 1, 1, 1, 1, 1, 1, 1, 1, 1, 1, 1, 1, 1, 1, 1, 1, 1, 1, 1, 1]" "replicate 2 (255 :: u8) = [255, 255]" by code_simp+
  have msg: "octets_value (padded_digest (unat (56 :: u32)) sha256_sig (replicate 32 1)) = 22181188447082654787695104335154552331831483710729818046170202056228435341103814846266196831017643971663120064820050084705041711361"
    by (simp add: octets_value_def padded_digest_def sha256_sig_def octval_append rep)
  have key: "octets_value [0, 3, 255, 254, 0, 96, 98, 96, 26, 12, 18, 193, 12, 144, 2, 202, 6, 8, 4, 2, 10, 0, 8, 64, 2, 2, 2, 2, 2, 2, 2, 2, 2, 2, 2, 2, 2, 2, 2, 2, 2, 2, 2, 2, 2, 2, 2, 2, 2, 2, 2, 2, 2, 2, 2, 4] = 44362376894165309575390208670309104663662967421459636092340404112456870682207629692532393662035287943326240129640100169410083422724"
    by (simp add: octets_value_def)
  have exps: "octets_value (replicate 55 0 @ [3]) = 3" "octets_value [0, 0, 0, 3] = 3" by (simp_all add: octets_value_def octval_append)
  show "1 < octets_value [0, 3, 255, 254, 0, 96, 98, 96, 26, 12, 18, 193, 12, 144, 2, 202, 6, 8, 4, 2, 10, 0, 8, 64, 2, 2, 2, 2, 2, 2, 2, 2, 2, 2, 2, 2, 2, 2, 2, 2, 2, 2, 2, 2, 2, 2, 2, 2, 2, 2, 2, 2, 2, 2, 2, 4]" unfolding key by simp
  show "(octets_value (padded_digest (unat (56 :: u32)) sha256_sig (replicate 32 1)) ^ octets_value (replicate 55 0 @ [3])) ^
      octets_value [0, 0, 0, 3] mod octets_value [0, 3, 255, 254, 0, 96, 98, 96, 26, 12, 18, 193, 12, 144, 2, 202, 6, 8, 4, 2, 10, 0, 8, 64, 2, 2, 2, 2, 2, 2, 2, 2, 2, 2, 2, 2, 2, 2, 2, 2, 2, 2, 2, 2, 2, 2, 2, 2, 2, 2, 2, 2, 2, 2, 2, 4] =
    octets_value (padded_digest (unat (56 :: u32)) sha256_sig (replicate 32 1))" unfolding msg key exps by (rule cube_cubed [of _ _ 11090594223541327393847552167577276165915741855364909023085101028114217670551907423133098415508821985831560032410025042352520855680]) simp_all
qed simp_all

text \<open>
  C38: only SHA-256 digests are signed. For a digest of any other size, SHA-1's 20 octets included,
  \<open>CSL_RsaSignData\<close> ends without a signature: the buffer for it keeps what it held, and there is no
  result that says so.
\<close>

theorem other_digests_not_signed:
  assumes "hashSize \<noteq> 32" and "unat hashSize \<le> length hashVal" and "hashSize \<le> rsaKeySize" and "2 \<le> unat rsaKeySize"
    and "length msgBuf = MAX_RSA_MODULUS_LEN"
  shows "CSL_RsaSignData stack msgBuf hashVal hashSize rsaPubMod rsaPrivExp rsaKeySize signData = Some signData"
proof (cases "unat rsaKeySize > MAX_RSA_MODULUS_LEN")
  case False
  have "unat (rsaKeySize - hashSize) = unat rsaKeySize - unat hashSize" by (rule unat_sub [OF assms(3)])
  moreover have "unat hashSize \<le> unat rsaKeySize" using assms(3) by (simp add: word_le_nat_alt)
  ultimately show ?thesis using False assms(1,2,4,5)
    by (simp add: CSL_RsaSignData_def memcpy_at_def rd_bytes_def wr_bytes_def put_u8_def)
qed (simp add: CSL_RsaSignData_def)

theorem other_digests_not_signed_witness:
  "CSL_RsaSignData [] (replicate 512 0) (replicate 20 7) 20 (replicate 256 1) (replicate 256 1) 256 (replicate 256 9) =
    Some (replicate 256 9)"
  by (rule other_digests_not_signed) simp_all

end
