(* ===== verification/Csl_Oaep_Correct.thy ===== *)
theory Csl_Oaep_Correct
  imports Csl_Oaep Csl_Rsa_Correct
begin

text \<open>
  OAEP: the masks are those of MGF1 with SHA-1, the padded message is the encoding of PKCS 1, and
  taking the padding off gives the message back.
\<close>

unbundle bit_operations_syntax

declare mgf1_loop.simps [simp del]

section \<open>Masks\<close>

definition mgf1_block :: "buffer \<Rightarrow> nat \<Rightarrow> buffer" where
  "mgf1_block seed i = sha1 (seed @ be_enc 4 (of_nat i :: u32))"

definition mgf1 :: "buffer \<Rightarrow> nat \<Rightarrow> buffer" where
  "mgf1 seed n = take n (concat (map (mgf1_block seed) [0..<(n + 19) div 20]))"

lemma length_blocks: "length (concat (map (mgf1_block seed) [a..<b])) = 20 * (b - a)"
  by (induction b) (auto simp: mgf1_block_def not_le le_Suc_eq Suc_diff_le)

lemma length_mgf1 [simp]: "length (mgf1 seed n) = n"
  by (simp add: mgf1_def length_blocks min_def) linarith

lemma I2OSP_digit: "I2OSP 4 [c] = be_enc 4 c"
  by (simp add: I2OSP_def digit_octets_def be_enc_4_bytes)

lemma of_nat_32: "n < 2 ^ 32 \<Longrightarrow> unat (of_nat n :: u32) = n"
  by (simp add: unsigned_of_nat take_bit_nat_eq_self)

lemma sha1_of:
  assumes "length (sx_data stack) = 64" and "length bs < 2 ^ 31"
  shows "\<exists>ctx. SHA1Input (fst (SHA1Reset stack)) (bs @ rest) (of_nat (length bs)) = Some (ctx, 0) \<and>
    snd (SHA1Result ctx) = (sha1 bs, 0)"
proof -
  have "sx_represents (sha1_input (fst (SHA1Reset stack)) bs) ([] @ bs)"
    using assms(2) by (intro sha1_input_represents sx_reset [OF assms(1)]) simp_all
  then show ?thesis using SHA1Input_value [OF assms(2)] SHA1Result_hash [of _ bs] assms(2) by simp
qed

lemma mgf1_loop_value:
  fixes n :: nat
  defines "K \<equiv> (n + 19) div 20"
  assumes st: "length (sx_data stack) = 64" and seed: "length seed + 4 < 2 ^ 31" and pad: "length pad = 4"
    and n: "n < 2 ^ 31" and c: "c \<le> K"
    and len: "length pre = off" "length fin = min n (20 * c)" "length old = n - 20 * c"
  shows "\<exists>pad'. length pad' = 4 \<and>
    mgf1_loop stack (of_nat (length seed)) (of_nat n) (of_nat K) off (of_nat c) (of_nat (min n (20 * c)))
      (seed @ pad @ rest) (pre @ fin @ old @ post) = Some (seed @ pad' @ rest,
       pre @ fin @ take (n - 20 * c) (concat (map (mgf1_block seed) [c..<K])) @ post)"
  using pad c len
proof (induction "K - c" arbitrary: c pad fin old)
  case 0
  then have "c = K" by simp
  moreover have "n \<le> 20 * K" unfolding K_def by linarith
  ultimately show ?case using 0 by (intro exI [of _ pad]) (subst mgf1_loop.simps, simp)
next
  case (Suc d)
  have cK: "c < K" using Suc.hyps(2) by linarith
  then have cn: "20 * c < n" unfolding K_def by linarith
  have K: "K < 2 ^ 32" unfolding K_def by (rule order.strict_trans1 [OF div_le_dividend]) (use n in simp)
  define a where "a = min 20 (n - 20 * c)"
  have a: "a \<le> n - 20 * c" "20 * c + a = min n (20 * Suc c)" using cn by (auto simp: a_def)
  have words: "(of_nat c :: u32) < of_nat K" "(of_nat (20 * c) :: u32) < of_nat n"
    "of_nat n - of_nat (20 * c) = (of_nat (n - 20 * c) :: u32)" "unat (of_nat (20 * c) :: u32) = 20 * c"
    using cK cn K n by (simp_all add: word_less_nat_alt of_nat_32 del: of_nat_mult)
  have app: "(if of_nat SHA1_DIGESTSIZE > (of_nat (n - 20 * c) :: u32) then of_nat (n - 20 * c) else of_nat SHA1_DIGESTSIZE) =
      (of_nat a :: u32)" "unat (of_nat a :: u32) = a"
    using n of_nat_32 [of "n - 20 * c"] by (auto simp: a_def word_less_nat_alt of_nat_32 min_def)
  have idx: "of_nat (20 * c) + of_nat a = (of_nat (min n (20 * Suc c)) :: u32)"
    unfolding a(2) [symmetric] by (rule of_nat_add [symmetric])
  let ?C = "be_enc 4 (of_nat c :: u32)"
  have wr: "wr_bytes (seed @ pad @ rest) (length seed) ?C = Some (seed @ ?C @ rest)"
    using Suc.prems(1) by (intro wr_bytes_middle) simp_all
  obtain ctx where ctx: "SHA1Input (fst (SHA1Reset stack)) ((seed @ ?C) @ rest) (of_nat (length (seed @ ?C))) = Some (ctx, 0)"
    "snd (SHA1Result ctx) = (mgf1_block seed c, 0)"
    using sha1_of [OF st, of "seed @ ?C" rest] seed by (auto simp: mgf1_block_def)
  have lw: "of_nat (length seed) + 4 = (of_nat (length (seed @ ?C)) :: u32)" by simp
  have block: "length (mgf1_block seed c) = 20" by (simp add: mgf1_block_def)
  define t where "t = take a (mgf1_block seed c)"
  have t: "length t = a" using block by (simp add: t_def a_def)
  have copy: "memcpy_at (pre @ fin @ old @ post) (off + 20 * c) (mgf1_block seed c) a = Some (pre @ (fin @ t) @ drop a old @ post)"
  proof -
    have "rd_bytes (mgf1_block seed c) 0 a = Some t" using block by (simp add: rd_bytes_def t_def a_def)
    moreover have "wr_bytes ((pre @ fin) @ take a old @ drop a old @ post) (off + 20 * c) t = Some ((pre @ fin) @ t @ drop a old @ post)"
      using Suc.prems(3-5) t a(1) cn by (intro wr_bytes_middle) simp_all
    moreover have "pre @ fin @ old @ post = (pre @ fin) @ take a old @ drop a old @ post" by (metis append.assoc append_take_drop_id)
    ultimately show ?thesis by (simp only: memcpy_at_def bind.bind_lunit append.assoc)
  qed
  have step: "mgf1_loop stack (of_nat (length seed)) (of_nat n) (of_nat K) off (of_nat c) (of_nat (min n (20 * c)))
      (seed @ pad @ rest) (pre @ fin @ old @ post) =
    mgf1_loop stack (of_nat (length seed)) (of_nat n) (of_nat K) off (of_nat (Suc c)) (of_nat (min n (20 * Suc c)))
      (seed @ ?C @ rest) (pre @ (fin @ t) @ drop a old @ post)"
  proof -
    have m: "min n (20 * c) = 20 * c" using cn by simp
    have s: "unat (of_nat (length seed) :: u32) = length seed" using seed by (intro of_nat_32) simp
    have Sc: "of_nat c + 1 = (of_nat (Suc c) :: u32)" by simp
    have assoc: "seed @ ?C @ rest = (seed @ ?C) @ rest" by simp
    show ?thesis unfolding m
      by (subst mgf1_loop.simps) (simp only: words s I2OSP_digit wr bind.bind_lunit simp_thms if_True lw assoc ctx prod.case
          Let_def fst_conv app copy idx Sc)
  qed
  have d: "d = K - Suc c" using Suc.hyps(2) by linarith
  have "length ?C = 4" "Suc c \<le> K" "length (fin @ t) = min n (20 * Suc c)" "length (drop a old) = n - 20 * Suc c"
    using cK Suc.prems(4,5) t a cn by (auto simp: a_def min_def)
  from Suc.hyps(1) [OF d this(1,2) Suc.prems(3) this(3,4)] obtain pad' where pad': "length pad' = 4"
    "mgf1_loop stack (of_nat (length seed)) (of_nat n) (of_nat K) off (of_nat (Suc c)) (of_nat (min n (20 * Suc c)))
      (seed @ ?C @ rest) (pre @ (fin @ t) @ drop a old @ post) = Some (seed @ pad' @ rest,
       pre @ (fin @ t) @ take (n - 20 * Suc c) (concat (map (mgf1_block seed) [Suc c..<K])) @ post)" by blast
  have "t @ take (n - 20 * Suc c) (concat (map (mgf1_block seed) [Suc c..<K])) =
      take (n - 20 * c) (concat (map (mgf1_block seed) [c..<K]))"
    using cK block by (simp add: upt_conv_Cons t_def a_def min_def add.commute)
  then show ?case using step pad' by (intro exI [of _ pad']) simp
qed

lemma mgf_value:
  assumes st: "length (sx_data stack) = 64" and buf: "unat (mg_dataBufLen ctx) \<le> length (mg_dataBuf ctx)"
    and seed: "rd_bytes mgfSeed 0 (unat mgfSeedLen) = Some seed" "unat mgfSeedLen + 4 \<le> unat (mg_dataBufLen ctx)" "unat mgfSeedLen + 4 < 2 ^ 31"
    and n: "0 < unat maskLen" "unat maskLen < 2 ^ 31" "off + unat maskLen \<le> length out"
  shows "\<exists>dataBuf. length dataBuf = length (mg_dataBuf ctx) \<and>
    maskGenerationFunction1 stack ctx mgfSeed mgfSeedLen out off maskLen = Some (ctx\<lparr>mg_dataBuf := dataBuf\<rparr>,
      take off out @ mgf1 seed (unat maskLen) @ drop (off + unat maskLen) out, maskLen, 0)"
proof -
  let ?n = "unat maskLen" and ?s = "unat mgfSeedLen"
  have sl: "length seed = ?s" using seed(1) by (rule rd_bytes_length)
  then have sw: "mgfSeedLen = of_nat (length seed)" by simp
  have s4: "unat (mgfSeedLen + 4) = ?s + 4" using seed(3) by (simp add: unat_plus_if_size word_size)
  then have "\<not> mg_dataBufLen ctx < mgfSeedLen + 4" using seed(2) by (simp add: word_less_nat_alt)
  moreover have "memcpy_at (mg_dataBuf ctx) 0 mgfSeed ?s = Some (seed @ take 4 (drop ?s (mg_dataBuf ctx)) @ drop (?s + 4) (mg_dataBuf ctx))"
    using seed(1,2) sl buf append_take_drop_id [of 4 "drop ?s (mg_dataBuf ctx)"]
    by (simp add: memcpy_at_def wr_bytes_def add.commute)
  moreover have "(maskLen - 1) div of_nat SHA1_DIGESTSIZE + 1 = of_nat ((?n + 19) div 20)"
  proof -
    have "unat (maskLen - 1) = ?n - 1" using n(1) by (simp add: unat_minus_one unat_gt_0)
    moreover have "(?n + 19) div 20 = (?n - 1) div 20 + 1" using n(1) by linarith
    ultimately have "unat ((maskLen - 1) div 20 + 1) = (?n + 19) div 20" using n(2) by (simp add: unat_div unat_plus_if_size word_size)
    moreover have "(?n + 19) div 20 < 2 ^ 32" by (rule order.strict_trans1 [OF div_le_dividend]) (use n(2) in simp)
    ultimately show ?thesis by (simp only: word_unat_eq_iff of_nat_32) simp
  qed
  moreover have "\<exists>pad'. length pad' = 4 \<and>
    mgf1_loop stack (of_nat (length seed)) (of_nat ?n) (of_nat ((?n + 19) div 20)) off (of_nat 0) (of_nat (min ?n (20 * 0)))
      (seed @ take 4 (drop ?s (mg_dataBuf ctx)) @ drop (?s + 4) (mg_dataBuf ctx))
      (take off out @ [] @ take ?n (drop off out) @ drop (off + ?n) out) =
    Some (seed @ pad' @ drop (?s + 4) (mg_dataBuf ctx),
      take off out @ [] @ take (?n - 20 * 0) (concat (map (mgf1_block seed) [0..<(?n + 19) div 20])) @ drop (off + ?n) out)"
    by (rule mgf1_loop_value) (use st seed n sl buf in simp_all)
  moreover have "take off out @ [] @ take ?n (drop off out) @ drop (off + ?n) out = out"
    using append_take_drop_id [of ?n "drop off out"] by (simp add: add.commute)
  ultimately obtain pad' where "length pad' = 4" "maskGenerationFunction1 stack ctx mgfSeed mgfSeedLen out off maskLen =
      Some (ctx\<lparr>mg_dataBuf := seed @ pad' @ drop (?s + 4) (mg_dataBuf ctx)\<rparr>,
        take off out @ mgf1 seed ?n @ drop (off + ?n) out, maskLen, 0)"
    by (auto simp: maskGenerationFunction1_def Let_def mgf1_def sw [symmetric])
  then show ?thesis using sl buf seed(2) by (intro exI [of _ "seed @ pad' @ drop (?s + 4) (mg_dataBuf ctx)"]) simp
qed

lemma init_mgf_ok:
  assumes "unat mgfSeedLen + 4 \<le> unat len"
  shows "initMGF1Context buf len mgfSeedLen = (\<lparr>mg_dataBuf = buf, mg_dataBufLen = len\<rparr>, 0)"
proof -
  have "unat len < 2 ^ 32" using unsigned_less [of len] by simp
  then have "unat (mgfSeedLen + 4) = unat mgfSeedLen + 4" using assms by (simp add: unat_plus_if_size word_size)
  then have "\<not> (len < mgfSeedLen + 4 \<or> mgfSeedLen > mgfSeedLen + 4)" using assms by (simp add: word_less_nat_alt)
  then show ?thesis by (simp add: initMGF1Context_def)
qed

section \<open>The encoded message\<close>

definition xor_octets :: "buffer \<Rightarrow> buffer \<Rightarrow> buffer" where
  "xor_octets a b = map2 (XOR) a b"

lemma length_xor_octets [simp]: "length (xor_octets a b) = min (length a) (length b)"
  by (simp add: xor_octets_def)

lemma xor_octets_twice: "length a = length b \<Longrightarrow> xor_octets (xor_octets a b) b = a"
  by (induction a b rule: list_induct2) (simp_all add: xor_octets_def xor.assoc)

lemma xor_at_value:
  assumes "length x = n" and "length y = n" and "length p = off"
  shows "xor_at (p @ y @ q) off (x @ r) n = Some (p @ xor_octets x y @ q)"
proof -
  have "rd_bytes (p @ y @ q) off n = Some y" using assms by (simp add: rd_bytes_def)
  moreover have "wr_bytes (p @ y @ q) off (map2 (XOR) x y) = Some (p @ map2 (XOR) x y @ q)"
    using assms by (intro wr_bytes_middle) simp_all
  ultimately show ?thesis using rd_bytes_prefix' [of n x r] assms(1) by (simp add: xor_at_def xor_octets_def)
qed

definition oaep_db :: "nat \<Rightarrow> buffer \<Rightarrow> buffer" where
  "oaep_db k message = lhash_sha1_empty @ replicate (k - length message - 42) 0 @ [0x01] @ message"

definition oaep_masked_db :: "nat \<Rightarrow> buffer \<Rightarrow> buffer \<Rightarrow> buffer" where
  "oaep_masked_db k seed message = xor_octets (oaep_db k message) (mgf1 seed (k - 21))"

definition oaep_encode :: "nat \<Rightarrow> buffer \<Rightarrow> buffer \<Rightarrow> buffer" where
  "oaep_encode k seed message =
     [0] @ xor_octets seed (mgf1 (oaep_masked_db k seed message) 20) @ oaep_masked_db k seed message"

lemma length_lhash [simp]: "length lhash_sha1_empty = 20"
  by (simp add: lhash_sha1_empty_def)

lemma length_oaep_db: "length message + 42 \<le> k \<Longrightarrow> length (oaep_db k message) = k - 21"
  by (simp add: oaep_db_def)

lemma length_oaep_masked_db [simp]: "length message + 42 \<le> k \<Longrightarrow> length (oaep_masked_db k seed message) = k - 21"
  by (simp add: oaep_masked_db_def length_oaep_db)

lemma length_oaep_encode: "length message + 42 \<le> k \<Longrightarrow> length seed = 20 \<Longrightarrow> length (oaep_encode k seed message) = k"
  by (simp add: oaep_encode_def)

lemma pad_db_value:
  assumes "unat psLen = k - length message - 42" and "length message + 42 \<le> k" and "k - 21 \<le> length db" and "k < 2 ^ 31"
    and "unat messageLen = length message"
  shows "\<exists>rest. pad_db db psLen (message @ r) messageLen = Some (oaep_db k message @ rest) \<and>
    length (oaep_db k message @ rest) = length db"
proof -
  let ?p = "k - length message - 42"
  have u: "unat (of_nat SHA1_DIGESTSIZE :: u32) = 20" "unat (of_nat SHA1_DIGESTSIZE + psLen :: u32) = 20 + ?p"
    "unat (of_nat SHA1_DIGESTSIZE + psLen + 1 :: u32) = 21 + ?p"
    using assms(1,4) by (simp_all add: unat_plus_if_size word_size)
  define a b c d e where "a = take 20 db" and "b = take ?p (drop 20 db)" and "c = db ! (20 + ?p)"
    and "d = take (length message) (drop (21 + ?p) db)" and "e = drop (k - 21) db"
  have "20 + ?p < length db" using assms(2,3) by linarith
  from Cons_nth_drop_Suc [OF this] have "drop (20 + ?p) db = c # drop (21 + ?p) db" by (simp add: c_def)
  moreover have "drop (21 + ?p) db = d @ e"
    using append_take_drop_id [of "length message" "drop (21 + ?p) db"] assms(2) by (simp add: d_def e_def add.commute)
  moreover have "drop 20 db = b @ drop (20 + ?p) db"
    using append_take_drop_id [of ?p "drop 20 db"] by (simp add: b_def add.commute)
  moreover have "db = a @ drop 20 db" by (simp add: a_def)
  ultimately have db: "db = a @ b @ [c] @ d @ e" by simp
  have len: "length a = 20" "length b = ?p" "length d = length message"
    using assms(2,3) by (simp_all add: a_def b_def d_def)
  have w1: "wr_bytes db 0 lhash_sha1_empty = Some (lhash_sha1_empty @ b @ [c] @ d @ e)"
    using wr_bytes_middle [of lhash_sha1_empty a "[]" 0 "b @ [c] @ d @ e"] len db by simp
  have w2: "wr_bytes (lhash_sha1_empty @ b @ [c] @ d @ e) 20 (replicate ?p 0) = Some (lhash_sha1_empty @ replicate ?p 0 @ [c] @ d @ e)"
    using len by (intro wr_bytes_middle) simp_all
  have w3: "put_u8 (lhash_sha1_empty @ replicate ?p 0 @ [c] @ d @ e) (20 + ?p) 1 = Some (lhash_sha1_empty @ replicate ?p 0 @ [1] @ d @ e)"
    by (simp add: put_u8_def list_update_append)
  have w4: "wr_bytes ((lhash_sha1_empty @ replicate ?p 0 @ [1]) @ d @ e) (21 + ?p) message =
      Some ((lhash_sha1_empty @ replicate ?p 0 @ [1]) @ message @ e)" using len by (intro wr_bytes_middle) simp_all
  have "pad_db db psLen (message @ r) messageLen = Some (oaep_db k message @ e)"
    using w1 w2 w3 w4 rd_bytes_prefix' [of "length message" message r]
    by (simp add: pad_db_def Let_def u assms(1,5) memcpy_at_def oaep_db_def del: SHA1_DIGESTSIZE_def)
  moreover have "length (oaep_db k message @ e) = length db" using db len by (simp add: oaep_db_def)
  ultimately show ?thesis by blast
qed

text \<open>The lengths of the parts, as the code computes them.\<close>

lemma oaep_lengths:
  assumes "42 \<le> unat keyLen" and "unat keyLen < 2 ^ 30"
  defines "n \<equiv> keyLen - of_nat SHA1_DIGESTSIZE - 1 :: u32"
  shows "unat n = unat keyLen - 21" and "unat (n + 4) = unat keyLen - 21 + 4"
    and "unat (keyLen - 2 * of_nat SHA1_DIGESTSIZE - 2) = unat keyLen - 42"
    and "unat (n - of_nat SHA1_DIGESTSIZE) = unat keyLen - 41"
proof -
  have a: "unat (keyLen - 20) = unat keyLen - 20" using assms(1) by (subst unat_sub) (simp_all add: word_le_nat_alt)
  then show n: "unat n = unat keyLen - 21" unfolding n_def using assms(1) by (simp, subst unat_sub) (simp_all add: word_le_nat_alt)
  then show "unat (n + 4) = unat keyLen - 21 + 4" using assms(1,2) by (simp add: unat_plus_if_size word_size)
  show "unat (n - of_nat SHA1_DIGESTSIZE) = unat keyLen - 41"
    using n assms(1) by (simp, subst unat_sub) (simp_all add: word_le_nat_alt)
  have "unat (keyLen - 40) = unat keyLen - 40" using assms(1) by (subst unat_sub) (simp_all add: word_le_nat_alt)
  then show "unat (keyLen - 2 * of_nat SHA1_DIGESTSIZE - 2) = unat keyLen - 42"
    using assms(1) by (simp, subst unat_sub) (simp_all add: word_le_nat_alt)
qed

lemma pad_masks_value:
  assumes st: "length (sx_data stack) = 64" "length buffer = 24"
    and k: "unat keyLen = k" "42 \<le> k" "k < 2 ^ 30" and m: "length message + 42 \<le> k" and s: "length seed = 20"
    and db: "po_db ctx = oaep_db k message @ rest" "k - 17 \<le> unat (po_dbLen ctx)" "unat (po_dbLen ctx) \<le> length (po_db ctx)"
    and out: "k \<le> length out"
  shows "\<exists>db. pad_masks stack buffer ctx keyLen (seed @ r) (of_nat SHA1_DIGESTSIZE) out outLen =
    Some (ctx\<lparr>po_db := db\<rparr>, oaep_encode k seed message @ drop k out, outLen, 0)"
proof -
  let ?n = "keyLen - of_nat SHA1_DIGESTSIZE - 1" and ?masked = "oaep_masked_db k seed message"
  note u = oaep_lengths [of keyLen, unfolded k(1), OF k(2,3)]
  have lt: "unat keyLen - 21 < 2147483648" by (rule order.strict_trans1 [of _ k]) (use k in simp_all)
  have lt2: "unat keyLen - 17 < 2147483648" by (rule order.strict_trans1 [of _ k]) (use k in simp_all)
  have i1: "initMGF1Context buffer (of_nat SHA1_DIGESTSIZE + 4) (of_nat SHA1_DIGESTSIZE) = (\<lparr>mg_dataBuf = buffer, mg_dataBufLen = of_nat SHA1_DIGESTSIZE + 4\<rparr>, 0)"
    by (rule init_mgf_ok) simp
  define out1 where "out1 = take 21 out @ mgf1 seed (k - 21) @ drop k out"
  obtain b1 where m1: "maskGenerationFunction1 stack \<lparr>mg_dataBuf = buffer, mg_dataBufLen = of_nat SHA1_DIGESTSIZE + 4\<rparr> (seed @ r)
      (of_nat SHA1_DIGESTSIZE) out (1 + SHA1_DIGESTSIZE) ?n = Some (\<lparr>mg_dataBuf = b1, mg_dataBufLen = of_nat SHA1_DIGESTSIZE + 4\<rparr>, out1, ?n, 0)"
    using mgf_value [OF st(1), of "\<lparr>mg_dataBuf = buffer, mg_dataBufLen = of_nat SHA1_DIGESTSIZE + 4\<rparr>" "seed @ r" "of_nat SHA1_DIGESTSIZE" seed ?n 21 out]
      st(2) s k lt out rd_bytes_prefix' [of 20 seed r] unfolding u(1) by (auto simp: out1_def)
  define out2 where "out2 = take 21 out @ ?masked @ drop k out"
  have x1: "xor_at out1 (1 + SHA1_DIGESTSIZE) (po_db ctx) (unat ?n) = Some out2"
    unfolding out1_def out2_def u(1) db(1) oaep_masked_db_def
    by (rule xor_at_value) (use length_oaep_db [OF m] out k in simp_all)
  have len: "\<not> po_dbLen ctx < ?n + 4" using db(2) u(2) k(2) by (simp add: word_less_nat_alt)
  have i2: "initMGF1Context (po_db ctx) (?n + 4) ?n = (\<lparr>mg_dataBuf = po_db ctx, mg_dataBufLen = ?n + 4\<rparr>, 0)"
    by (rule init_mgf_ok) (simp only: u(1,2))
  define out3 where "out3 = take 1 out @ mgf1 ?masked 20 @ ?masked @ drop k out"
  have rd: "rd_bytes (drop (1 + SHA1_DIGESTSIZE) out2) 0 (unat ?n) = Some ?masked"
    using out k m unfolding out2_def u(1) by (simp add: rd_bytes_def)
  have o2: "take 1 out2 = take 1 out" "drop 21 out2 = ?masked @ drop k out" "21 \<le> length out2" using out k by (simp_all add: out2_def)
  obtain b2 where m2: "maskGenerationFunction1 stack \<lparr>mg_dataBuf = po_db ctx, mg_dataBufLen = ?n + 4\<rparr> (drop (1 + SHA1_DIGESTSIZE) out2) ?n
      out2 1 (of_nat SHA1_DIGESTSIZE) = Some (\<lparr>mg_dataBuf = b2, mg_dataBufLen = ?n + 4\<rparr>, out3, of_nat SHA1_DIGESTSIZE, 0)"
    using mgf_value [OF st(1), of "\<lparr>mg_dataBuf = po_db ctx, mg_dataBufLen = ?n + 4\<rparr>" "drop (1 + SHA1_DIGESTSIZE) out2" ?n ?masked "of_nat SHA1_DIGESTSIZE" 1 out2]
      rd o2 db(2,3) k lt2 unfolding u(1) MGF1Context.simps u(2) by (auto simp: out3_def)
  have x2: "xor_at out3 1 (seed @ r) (unat (of_nat SHA1_DIGESTSIZE :: u32)) =
      Some (take 1 out @ xor_octets seed (mgf1 ?masked 20) @ ?masked @ drop k out)"
    unfolding out3_def by (rule xor_at_value) (use s out k in simp_all)
  have "put_u8 (take 1 out @ xor_octets seed (mgf1 ?masked 20) @ ?masked @ drop k out) 0 0 =
      Some (oaep_encode k seed message @ drop k out)"
    using out k by (cases out) (simp_all add: put_u8_def oaep_encode_def)
  then have "pad_masks stack buffer ctx keyLen (seed @ r) (of_nat SHA1_DIGESTSIZE) out outLen =
      Some (ctx\<lparr>po_db := b2\<rparr>, oaep_encode k seed message @ drop k out, outLen, 0)"
    unfolding pad_masks_def Let_def i1 i2 m1 x1 m2 x2 prod.case bind.bind_lunit
    by (simp only: simp_thms if_False len bind.bind_lunit prod.case x1 i2 m2 x2 MGF1Context.simps)
  then show ?thesis by blast
qed

lemma pad_oaep_value:
  assumes st: "length (sx_data stack) = 64" "length buffer = 24"
    and k: "unat keyLen = k" "42 \<le> k" "k < 2 ^ 30" and m: "length message + 42 \<le> k" "unat messageLen = length message" and s: "length seed = 20"
    and db: "k - 17 \<le> unat (po_dbLen ctx)" "unat (po_dbLen ctx) \<le> length (po_db ctx)"
    and out: "k \<le> length out" "keyLen \<le> outLen"
  shows "\<exists>db. pad_oaep stack buffer ctx keyLen (seed @ r) (of_nat SHA1_DIGESTSIZE) (message @ r') messageLen out outLen =
    Some (ctx\<lparr>po_db := db\<rparr>, oaep_encode k seed message @ drop k out, outLen, 0)"
proof -
  note u = oaep_lengths [of keyLen, unfolded k(1), OF k(2,3)]
  have "messageLen \<le> keyLen" using m k(1) by (simp add: word_le_nat_alt)
  then have base: "unat (keyLen - messageLen) = k - length message" using m(2) k(1) by (simp add: unat_sub)
  have ps: "unat (keyLen - messageLen - 2 * of_nat SHA1_DIGESTSIZE - 2) = k - length message - 42"
    using m(1) by (simp, subst unat_sub) (simp_all add: word_le_nat_alt base)
  have db21: "k - 21 \<le> length (po_db ctx)" using db k by linarith
  obtain rest where pdb: "pad_db (po_db ctx) (keyLen - messageLen - 2 * of_nat SHA1_DIGESTSIZE - 2) (message @ r') messageLen =
      Some (oaep_db k message @ rest)" "length (oaep_db k message @ rest) = length (po_db ctx)"
    using pad_db_value [OF ps m(1) db21 _ m(2), of r'] k(3) by auto
  have "\<exists>db. pad_masks stack buffer (ctx\<lparr>po_db := oaep_db k message @ rest\<rparr>) keyLen (seed @ r) (of_nat SHA1_DIGESTSIZE) out outLen =
      Some (ctx\<lparr>po_db := db\<rparr>, oaep_encode k seed message @ drop k out, outLen, 0)"
    using pad_masks_value [OF st k m(1) s, of "ctx\<lparr>po_db := oaep_db k message @ rest\<rparr>" rest] db pdb(2) out by simp
  moreover have "\<not> outLen < keyLen" "\<not> messageLen > keyLen - 2 * of_nat SHA1_DIGESTSIZE - 2"
      "\<not> po_dbLen ctx < keyLen - of_nat SHA1_DIGESTSIZE - 1"
    using out(2) u m db(1) by (auto simp only: word_less_nat_alt not_less word_le_nat_alt)
  ultimately show ?thesis using pdb(1) by (auto simp only: pad_oaep_def Let_def simp_thms if_False bind.bind_lunit PadOaepContext.simps)
qed

section \<open>The way back\<close>

lemma ps_index_zeros: "ps_index (replicate p 0 @ 1 # message) i = Some (i + p)"
  by (induction p arbitrary: i) simp_all

lemma unpad_db_steps:
  assumes k: "unat keyLen = k" "42 \<le> k" "k < 2 ^ 30" and m: "length message + 42 \<le> k" and p: "length p = 21"
    and out: "k \<le> unat msgLen" and msg: "msg_out = p @ oaep_db k message @ q"
  shows "unpad_db ctx (keyLen - of_nat SHA1_DIGESTSIZE - 1) msg_out msgLen 21 = do {
    msg_out \<leftarrow> memcpy_within msg_out 0 (k - length message) (length message);
    msg_out \<leftarrow> wr_bytes msg_out (length message) (replicate (unat msgLen - length message) 0);
    Some (ctx, msg_out, of_nat (length message), 0) }"
proof -
  let ?n = "keyLen - of_nat SHA1_DIGESTSIZE - 1" and ?p = "k - length message - 42" and ?l = "length message"
  note u = oaep_lengths [of keyLen, unfolded k(1), OF k(2,3)]
  have ps: "rd_bytes msg_out (21 + SHA1_DIGESTSIZE) (unat (?n - of_nat SHA1_DIGESTSIZE)) = Some (replicate ?p 0 @ 1 # message)"
    using p m unfolding msg u(4) by (simp add: rd_bytes_def oaep_db_def)
  have lh: "rd_bytes msg_out 21 SHA1_DIGESTSIZE = Some lhash_sha1_empty"
    using p unfolding msg by (simp add: rd_bytes_def oaep_db_def)
  define mi where "mi = (of_nat SHA1_DIGESTSIZE + of_nat ?p + 1 :: u32)"
  have mi: "unat mi = 21 + ?p"
    using k(3) by (simp add: mi_def unat_plus_if_size word_size unsigned_of_nat take_bit_nat_eq_self)
  have n: "unat (?n - mi) = ?l" using u(1) mi m(1) by (subst unat_sub) (simp_all add: word_le_nat_alt)
  then have nw: "?n - mi = of_nat ?l" using k(3) m(1) by (simp add: word_unat_eq_iff of_nat_32)
  have src: "21 + unat mi = k - ?l" using mi m(1) by simp
  have l: "unat (of_nat ?l :: u32) = ?l" by (rule of_nat_32) (use m k(3) in simp)
  have "unat (msgLen - of_nat ?l) = unat msgLen - ?l" using out m l by (subst unat_sub) (simp_all add: word_le_nat_alt)
  note z = this l
  have "?p \<noteq> unat (?n - of_nat SHA1_DIGESTSIZE)" using u(4) m(1) k(2) by linarith
  moreover have "ps_index (replicate ?p 0 @ 1 # message) 0 = Some ?p" using ps_index_zeros [of ?p message 0] by simp
  ultimately show ?thesis
    by (simp only: unpad_db_def Let_def lh ps bind.bind_lunit simp_thms if_False option.case mi_def [symmetric] src nw z)
qed

lemma unpad_db_value:
  assumes k: "unat keyLen = k" "42 \<le> k" "k < 2 ^ 30" and m: "length message + 42 \<le> k" "2 * length message \<le> k" and p: "length p = 21"
    and out: "length msg_out = unat msgLen" "k \<le> unat msgLen" and msg: "msg_out = p @ oaep_db k message @ q"
  shows "unpad_db ctx (keyLen - of_nat SHA1_DIGESTSIZE - 1) msg_out msgLen 21 =
    Some (ctx, message @ replicate (unat msgLen - length message) 0, of_nat (length message), 0)"
proof -
  let ?l = "length message"
  have len: "length msg_out = k + length q" using p m length_oaep_db [OF m(1)] k(2) unfolding msg by simp
  have rd: "rd_bytes msg_out (k - ?l) ?l = Some message"
    using p m(1) len unfolding msg by (simp add: rd_bytes_def oaep_db_def)
  have nl: "\<not> k - ?l < ?l" using m by linarith
  have "memcpy_within msg_out 0 (k - ?l) ?l = Some (message @ drop ?l msg_out)"
    using rd m len nl by (simp add: memcpy_within_def wr_bytes_def)
  moreover have "wr_bytes (message @ drop ?l msg_out) ?l (replicate (unat msgLen - ?l) 0) = Some (message @ replicate (unat msgLen - ?l) 0)"
    using out m(1) by (simp add: wr_bytes_def)
  ultimately show ?thesis unfolding unpad_db_steps [OF k m(1) p out(2) msg] by (simp only: bind.bind_lunit)
qed

lemma unpad_oaep_steps:
  assumes st: "length (sx_data stack) = 64" "length buffer = 24"
    and k: "unat keyLen = k" "42 \<le> k" "k < 2 ^ 30" and m: "length message + 42 \<le> k" and s: "length seed = 20"
    and db: "k - 17 \<le> length (po_db ctx)" and out: "length out = unat msgLen" "k \<le> unat msgLen"
  shows "\<exists>db. unpad_oaep stack buffer ctx keyLen (y # tl (oaep_encode k seed message) @ r) keyLen out msgLen =
    unpad_db (ctx\<lparr>po_db := db\<rparr>) (keyLen - of_nat SHA1_DIGESTSIZE - 1) ((take 1 out @ seed) @ oaep_db k message @ drop k out) msgLen 21"
proof -
  let ?n = "keyLen - of_nat SHA1_DIGESTSIZE - 1" and ?masked = "oaep_masked_db k seed message"
  let ?mask = "mgf1 ?masked 20"
  let ?em = "y # tl (oaep_encode k seed message) @ r"
  note u = oaep_lengths [of keyLen, unfolded k(1), OF k(2,3)]
  have lt: "unat keyLen - 21 < 2147483648" "unat keyLen - 17 < 2147483648"
    by (rule order.strict_trans1 [of _ k], use k in simp_all)+
  have em: "drop 21 ?em = ?masked @ r" "drop 1 ?em = xor_octets seed ?mask @ ?masked @ r"
    using s by (simp_all add: oaep_encode_def)
  have i1: "initMGF1Context (po_db ctx) (?n + 4) ?n = (\<lparr>mg_dataBuf = po_db ctx, mg_dataBufLen = ?n + 4\<rparr>, 0)"
    by (rule init_mgf_ok) (simp only: u(1,2))
  define out1 where "out1 = take 1 out @ ?mask @ drop 21 out"
  have rd: "rd_bytes (drop (1 + SHA1_DIGESTSIZE) ?em) 0 (unat ?n) = Some ?masked"
    using m em(1) unfolding u(1) by (simp add: rd_bytes_def)
  obtain b1 where m1: "maskGenerationFunction1 stack \<lparr>mg_dataBuf = po_db ctx, mg_dataBufLen = ?n + 4\<rparr> (drop (1 + SHA1_DIGESTSIZE) ?em) ?n
      out 1 (of_nat SHA1_DIGESTSIZE) = Some (\<lparr>mg_dataBuf = b1, mg_dataBufLen = ?n + 4\<rparr>, out1, of_nat SHA1_DIGESTSIZE, 0)"
    using mgf_value [OF st(1), of "\<lparr>mg_dataBuf = po_db ctx, mg_dataBufLen = ?n + 4\<rparr>" "drop (1 + SHA1_DIGESTSIZE) ?em" ?n ?masked "of_nat SHA1_DIGESTSIZE" 1 out]
      rd db out k lt unfolding u(1) MGF1Context.simps u(2) by (auto simp: out1_def)
  define out2 where "out2 = take 1 out @ seed @ drop 21 out"
  have "xor_at out1 1 (xor_octets seed ?mask @ ?masked @ r) (unat (of_nat SHA1_DIGESTSIZE :: u32)) =
      Some (take 1 out @ xor_octets (xor_octets seed ?mask) ?mask @ drop 21 out)"
    unfolding out1_def by (rule xor_at_value) (use s out k in simp_all)
  then have x1: "xor_at out1 1 (drop 1 ?em) (unat (of_nat SHA1_DIGESTSIZE :: u32)) = Some out2"
    unfolding em out2_def using xor_octets_twice [of seed ?mask] s by simp
  have i2: "initMGF1Context buffer (of_nat SHA1_DIGESTSIZE + 4) (of_nat SHA1_DIGESTSIZE) = (\<lparr>mg_dataBuf = buffer, mg_dataBufLen = of_nat SHA1_DIGESTSIZE + 4\<rparr>, 0)"
    by (rule init_mgf_ok) simp
  define out3 where "out3 = (take 1 out @ seed) @ mgf1 seed (k - 21) @ drop k out"
  have o2: "take 21 out2 = take 1 out @ seed" "drop k out2 = drop k out" "k \<le> length out2"
    "rd_bytes (drop 1 out2) 0 20 = Some seed" using out k s by (simp_all add: out2_def rd_bytes_def)
  obtain b2 where m2: "maskGenerationFunction1 stack \<lparr>mg_dataBuf = buffer, mg_dataBufLen = of_nat SHA1_DIGESTSIZE + 4\<rparr> (drop 1 out2)
      (of_nat SHA1_DIGESTSIZE) out2 (1 + SHA1_DIGESTSIZE) ?n = Some (\<lparr>mg_dataBuf = b2, mg_dataBufLen = of_nat SHA1_DIGESTSIZE + 4\<rparr>, out3, ?n, 0)"
    using mgf_value [OF st(1), of "\<lparr>mg_dataBuf = buffer, mg_dataBufLen = of_nat SHA1_DIGESTSIZE + 4\<rparr>" "drop 1 out2" "of_nat SHA1_DIGESTSIZE" seed ?n 21 out2]
      st(2) k lt o2 unfolding u(1) by (auto simp: out3_def)
  define out4 where "out4 = (take 1 out @ seed) @ oaep_db k message @ drop k out"
  have "xor_at out3 21 (?masked @ r) (unat ?n) = Some ((take 1 out @ seed) @ xor_octets ?masked (mgf1 seed (k - 21)) @ drop k out)"
    unfolding out3_def u(1) by (rule xor_at_value) (use s out k m in simp_all)
  moreover have "xor_octets ?masked (mgf1 seed (k - 21)) = oaep_db k message"
    unfolding oaep_masked_db_def using length_oaep_db [OF m(1)] by (simp add: xor_octets_twice)
  ultimately have x2: "xor_at out3 (1 + SHA1_DIGESTSIZE) (drop (1 + SHA1_DIGESTSIZE) ?em) (unat ?n) = Some out4"
    using em(1) by (simp add: out4_def)
  have "\<not> msgLen < keyLen" using out(2) k(1) by (simp add: word_less_nat_alt)
  then have "unpad_oaep stack buffer ctx keyLen ?em keyLen out msgLen = unpad_db (ctx\<lparr>po_db := b1\<rparr>) ?n out4 msgLen (1 + SHA1_DIGESTSIZE)"
    by (simp only: unpad_oaep_def Let_def i1 prod.case simp_thms if_False bind.bind_lunit m1 x1 i2 m2 x2 MGF1Context.simps)
  then show ?thesis unfolding out4_def by auto
qed

text \<open>
  C19: what is padded comes back. For a key of 42 to 2 to the 30 octets and a message that fits and
  is no longer than half the key, \<open>pad_oaep\<close> writes the OAEP encoding of the message and leaves the rest
  of the buffer, and \<open>unpad_oaep\<close> on it gives back the message and its length, with zeros after it.
  It does so whatever the first octet has become: PKCS 1, and the comment, ask that it be 0.
\<close>

theorem oaep_roundtrip:
  assumes "length (sx_data stack) = 64" and "length buffer = 24" and "length (sx_data stack') = 64" and "length buffer' = 24"
    and "42 \<le> unat keyLen" and "unat keyLen < 2 ^ 30"
    and "length message + 42 \<le> unat keyLen" and "2 * length message \<le> unat keyLen" and "length seed = 20"
    and "unat keyLen - 17 \<le> unat (po_dbLen ctx)" and "unat (po_dbLen ctx) \<le> length (po_db ctx)"
    and "unat keyLen - 17 \<le> length (po_db ctx')"
    and "unat keyLen \<le> length padded" and "keyLen \<le> paddedLen" and "length out = unat msgLen" and "unat keyLen \<le> unat msgLen"
  shows "\<exists>db em. pad_oaep stack buffer ctx keyLen seed 20 message (of_nat (length message)) padded paddedLen =
      Some (ctx\<lparr>po_db := db\<rparr>, em @ drop (unat keyLen) padded, paddedLen, 0) \<and>
    length em = unat keyLen \<and> hd em = 0 \<and>
    (\<forall>y. \<exists>db'. unpad_oaep stack' buffer' ctx' keyLen (y # tl em) keyLen out msgLen =
      Some (ctx'\<lparr>po_db := db'\<rparr>, message @ replicate (unat msgLen - length message) 0, of_nat (length message), 0))"
proof -
  have "unat (of_nat (length message) :: u32) = length message" using assms(6,7) by (intro of_nat_32) simp
  from pad_oaep_value [OF assms(1,2) refl assms(5,6,7) this assms(9,10,11,13,14), of "[]" "[]"]
  obtain db where "pad_oaep stack buffer ctx keyLen seed 20 message (of_nat (length message)) padded paddedLen =
    Some (ctx\<lparr>po_db := db\<rparr>, oaep_encode (unat keyLen) seed message @ drop (unat keyLen) padded, paddedLen, 0)" by auto
  moreover have "\<exists>db'. unpad_oaep stack' buffer' ctx' keyLen (y # tl (oaep_encode (unat keyLen) seed message)) keyLen out msgLen =
      Some (ctx'\<lparr>po_db := db'\<rparr>, message @ replicate (unat msgLen - length message) 0, of_nat (length message), 0)" for y
  proof -
    let ?out = "(take 1 out @ seed) @ oaep_db (unat keyLen) message @ drop (unat keyLen) out"
    have "length (take 1 out @ seed) = 21" "length ?out = unat msgLen"
      using assms(5,7,9,15,16) length_oaep_db [OF assms(7)] by simp_all
    then show ?thesis
      using unpad_oaep_steps [OF assms(3,4) refl assms(5,6,7,9,12,15,16), of y "[]"]
        unpad_db_value [OF refl assms(5,6,7,8) _ _ assms(16) refl] by fastforce
  qed
  moreover have "length (oaep_encode (unat keyLen) seed message) = unat keyLen" by (rule length_oaep_encode [OF assms(7,9)])
  moreover have "hd (oaep_encode (unat keyLen) seed message) = 0" by (simp add: oaep_encode_def)
  ultimately show ?thesis by blast
qed

theorem oaep_roundtrip_witness:
  "\<exists>db em. pad_oaep (SHA1Context.make [] 0 0 (replicate 64 1) 0) (replicate 24 2) \<lparr>po_db = replicate 111 3, po_dbLen = 111\<rparr> 128
      (replicate 20 4) 20 [5, 6, 7] (of_nat (length [5, 6, 7 :: u8])) (replicate 130 8) 130 =
      Some (\<lparr>po_db = replicate 111 3, po_dbLen = 111\<rparr>\<lparr>po_db := db\<rparr>, em @ drop (unat (128 :: u32)) (replicate 130 8), 130, 0) \<and>
    length em = unat (128 :: u32) \<and> hd em = 0 \<and>
    (\<forall>y. \<exists>db'. unpad_oaep (SHA1Context.make [] 0 0 (replicate 64 1) 0) (replicate 24 2) \<lparr>po_db = replicate 111 9, po_dbLen = 111\<rparr> 128
      (y # tl em) 128 (replicate 128 3) 128 =
      Some (\<lparr>po_db = replicate 111 9, po_dbLen = 111\<rparr>\<lparr>po_db := db'\<rparr>,
        [5, 6, 7] @ replicate (unat (128 :: u32) - length [5, 6, 7 :: u8]) 0, of_nat (length [5, 6, 7 :: u8]), 0))"
  by (rule oaep_roundtrip) (simp_all add: SHA1Context.defs)



end
