(* ===== verification/Vpl_Conv.thy ===== *)
theory Vpl_Conv
  imports Vss_Prelude
begin

text \<open>
  Byte order conversion (\<open>gvm_core/vpl/include/vpl_conv.h\<close>) on a little-endian host, the
  configuration of every build of the client. The byte-swap macros are translated as written;
  \<open>put_host32_hton\<close> and its siblings show that a host-order store of a converted word writes
  the word's bytes most significant first, which is what every accessor of the wire format
  relies on.
\<close>

definition VPLCONV_BYTE_SWAP16 :: "u16 \<Rightarrow> u16" where
  "VPLCONV_BYTE_SWAP16 x = (push_bit 8 x AND 0xff00) OR (drop_bit 8 x AND 0xff)"

definition VPLCONV_BYTE_SWAP32 :: "u32 \<Rightarrow> u32" where
  "VPLCONV_BYTE_SWAP32 x =
     (push_bit 24 x AND 0xff000000) OR (push_bit 8 x AND 0xff0000) OR
     (drop_bit 8 x AND 0xff00) OR (drop_bit 24 x AND 0xff)"

definition VPLCONV_BYTE_SWAP64 :: "u64 \<Rightarrow> u64" where
  "VPLCONV_BYTE_SWAP64 x =
     (push_bit 56 x AND 0xff00000000000000) OR
     (push_bit 40 x AND 0x00ff000000000000) OR
     (push_bit 24 x AND 0x0000ff0000000000) OR
     (push_bit 8 x  AND 0x000000ff00000000) OR
     (drop_bit 8 x  AND 0x00000000ff000000) OR
     (drop_bit 24 x AND 0x0000000000ff0000) OR
     (drop_bit 40 x AND 0x000000000000ff00) OR
     (drop_bit 56 x AND 0x00000000000000ff)"

definition VPLConv_ntoh_s16 :: "u16 \<Rightarrow> int" where
  "VPLConv_ntoh_s16 value = sint (VPLCONV_BYTE_SWAP16 value)"

definition VPLConv_ntoh_u64 :: "u64 \<Rightarrow> u64" where
  "VPLConv_ntoh_u64 value = VPLCONV_BYTE_SWAP64 value"

definition VPLConv_ntoh_u32 :: "u32 \<Rightarrow> u32" where
  "VPLConv_ntoh_u32 value = VPLCONV_BYTE_SWAP32 value"

definition VPLConv_ntoh_u16 :: "u16 \<Rightarrow> u16" where
  "VPLConv_ntoh_u16 value = VPLCONV_BYTE_SWAP16 value"

definition VPLConv_ntoh_u8 :: "u8 \<Rightarrow> u8" where
  "VPLConv_ntoh_u8 value = value"

definition VPLConv_hton_s16 :: "int \<Rightarrow> u16" where
  "VPLConv_hton_s16 value = VPLCONV_BYTE_SWAP16 (word_of_int value)"

definition VPLConv_hton_u64 :: "u64 \<Rightarrow> u64" where
  "VPLConv_hton_u64 value = VPLConv_ntoh_u64 value"

definition VPLConv_hton_u32 :: "u32 \<Rightarrow> u32" where
  "VPLConv_hton_u32 value = VPLConv_ntoh_u32 value"

definition VPLConv_hton_u16 :: "u16 \<Rightarrow> u16" where
  "VPLConv_hton_u16 value = VPLConv_ntoh_u16 value"

definition VPLConv_hton_u8 :: "u8 \<Rightarrow> u8" where
  "VPLConv_hton_u8 value = VPLConv_ntoh_u8 value"

section \<open>A swap reverses the bytes\<close>

lemmas byte_swap_defs =
  VPLCONV_BYTE_SWAP16_def VPLCONV_BYTE_SWAP32_def VPLCONV_BYTE_SWAP64_def

lemma byte_masks16:
  "(0xff :: u16) = mask 8" "(0xff00 :: u16) = push_bit 8 (mask 8)"
  by (simp_all add: mask_eq_exp_minus_1)

lemma byte_masks32:
  "(0xff :: u32) = mask 8" "(0xff00 :: u32) = push_bit 8 (mask 8)"
  "(0xff0000 :: u32) = push_bit 16 (mask 8)" "(0xff000000 :: u32) = push_bit 24 (mask 8)"
  by (simp_all add: mask_eq_exp_minus_1)

lemma byte_masks64:
  "(0x00000000000000ff :: u64) = mask 8"
  "(0x000000000000ff00 :: u64) = push_bit 8 (mask 8)"
  "(0x0000000000ff0000 :: u64) = push_bit 16 (mask 8)"
  "(0x00000000ff000000 :: u64) = push_bit 24 (mask 8)"
  "(0x000000ff00000000 :: u64) = push_bit 32 (mask 8)"
  "(0x0000ff0000000000 :: u64) = push_bit 40 (mask 8)"
  "(0x00ff000000000000 :: u64) = push_bit 48 (mask 8)"
  "(0xff00000000000000 :: u64) = push_bit 56 (mask 8)"
  by (simp_all add: mask_eq_exp_minus_1)

lemma host_enc_swap16: "host_enc 2 (VPLCONV_BYTE_SWAP16 v) = be_enc 2 v"
  by (simp add: host_enc_def be_enc_def VPLCONV_BYTE_SWAP16_def byte_masks16 upt_rec
        numeral_2_eq_2)
    (auto intro!: bit_word_eqI simp: bit_simps)

lemma host_enc_swap32: "host_enc 4 (VPLCONV_BYTE_SWAP32 v) = be_enc 4 v"
  by (simp add: host_enc_def be_enc_def VPLCONV_BYTE_SWAP32_def byte_masks32 upt_rec)
    (auto intro!: bit_word_eqI simp: bit_simps)

lemma host_enc_swap64: "host_enc 8 (VPLCONV_BYTE_SWAP64 v) = be_enc 8 v"
  by (simp add: host_enc_def be_enc_def VPLCONV_BYTE_SWAP64_def byte_masks64 upt_rec)
    (auto intro!: bit_word_eqI simp: bit_simps)

lemma swap_host_dec:
  "length bs = 2 \<Longrightarrow> VPLCONV_BYTE_SWAP16 (host_dec bs) = be_dec bs"
  "length bs = 4 \<Longrightarrow> VPLCONV_BYTE_SWAP32 (host_dec bs) = be_dec bs"
  "length bs = 8 \<Longrightarrow> VPLCONV_BYTE_SWAP64 (host_dec bs) = be_dec bs"
proof -
  show "VPLCONV_BYTE_SWAP16 (host_dec bs) = be_dec bs" if n: "length bs = 2"
  proof -
    let ?w = "host_dec bs :: u16"
    have "be_enc 2 ?w = rev bs"
      using be_enc_dec [where 'a = 16, of "rev bs"] n by (simp add: host_dec_rev)
    then show ?thesis
      using host_dec_enc_words(1) [of "VPLCONV_BYTE_SWAP16 ?w"]
      by (simp add: host_enc_swap16 host_dec_rev)
  qed
  show "VPLCONV_BYTE_SWAP32 (host_dec bs) = be_dec bs" if n: "length bs = 4"
  proof -
    let ?w = "host_dec bs :: u32"
    have "be_enc 4 ?w = rev bs"
      using be_enc_dec [where 'a = 32, of "rev bs"] n by (simp add: host_dec_rev)
    then show ?thesis
      using host_dec_enc_words(2) [of "VPLCONV_BYTE_SWAP32 ?w"]
      by (simp add: host_enc_swap32 host_dec_rev)
  qed
  show "VPLCONV_BYTE_SWAP64 (host_dec bs) = be_dec bs" if n: "length bs = 8"
  proof -
    let ?w = "host_dec bs :: u64"
    have "be_enc 8 ?w = rev bs"
      using be_enc_dec [where 'a = 64, of "rev bs"] n by (simp add: host_dec_rev)
    then show ?thesis
      using host_dec_enc_words(3) [of "VPLCONV_BYTE_SWAP64 ?w"]
      by (simp add: host_enc_swap64 host_dec_rev)
  qed
qed

section \<open>Converted loads and stores are big-endian\<close>

lemmas hton_defs = VPLConv_hton_u16_def VPLConv_hton_u32_def VPLConv_hton_u64_def
  VPLConv_ntoh_u16_def VPLConv_ntoh_u32_def VPLConv_ntoh_u64_def

lemma put_host_hton [wire]:
  "put_host16 b off (VPLConv_hton_u16 v2) = wr_bytes b off (be_enc 2 v2)"
  "put_host32 b off (VPLConv_hton_u32 v4) = wr_bytes b off (be_enc 4 v4)"
  "put_host64 b off (VPLConv_hton_u64 v8) = wr_bytes b off (be_enc 8 v8)"
  "put_host16 b off (VPLConv_hton_s16 i) = wr_bytes b off (be_enc 2 (word_of_int i :: u16))"
  by (simp_all add: put_host16_def put_host32_def put_host64_def hton_defs VPLConv_hton_s16_def
      host_enc_swap16 host_enc_swap32 host_enc_swap64)

lemma map_option_rd_cong:
  "(\<And>bs. length bs = n \<Longrightarrow> f bs = g bs) \<Longrightarrow>
     map_option f (rd_bytes b off n) = map_option g (rd_bytes b off n)"
  by (auto simp: rd_bytes_def)

lemma get_host_ntoh [wire]:
  "map_option VPLConv_ntoh_u16 (get_host16 b off) = map_option be_dec (rd_bytes b off 2)"
  "map_option VPLConv_ntoh_u32 (get_host32 b off) = map_option be_dec (rd_bytes b off 4)"
  "map_option VPLConv_ntoh_u64 (get_host64 b off) = map_option be_dec (rd_bytes b off 8)"
  "map_option VPLConv_ntoh_s16 (get_host16 b off) =
     map_option (\<lambda>bs. sint (be_dec bs :: u16)) (rd_bytes b off 2)"
  by (auto simp: get_host16_def get_host32_def get_host64_def hton_defs VPLConv_ntoh_s16_def
      option.map_comp swap_host_dec intro!: map_option_rd_cong)

lemma conv_u8 [wire]:
  "put_u8 b off (VPLConv_hton_u8 v) = put_u8 b off v"
  "map_option VPLConv_ntoh_u8 m = m"
  by (simp_all add: VPLConv_hton_u8_def VPLConv_ntoh_u8_def [abs_def] option.map_ident)

lemmas [wire] = put_u8_eq_wr get_u8_eq_rd

interpretation net16: wire_field
  "\<lambda>b off. map_option VPLConv_ntoh_u16 (get_host16 b off)"
  "\<lambda>b off v. put_host16 b off (VPLConv_hton_u16 v)" 2
  by (rule encoded_wire_field [where enc = "be_enc 2" and dec = be_dec]) (simp_all add: wire)

interpretation net32: wire_field
  "\<lambda>b off. map_option VPLConv_ntoh_u32 (get_host32 b off)"
  "\<lambda>b off v. put_host32 b off (VPLConv_hton_u32 v)" 4
  by (rule encoded_wire_field [where enc = "be_enc 4" and dec = be_dec]) (simp_all add: wire)

interpretation net64: wire_field
  "\<lambda>b off. map_option VPLConv_ntoh_u64 (get_host64 b off)"
  "\<lambda>b off v. put_host64 b off (VPLConv_hton_u64 v)" 8
  by (rule encoded_wire_field [where enc = "be_enc 8" and dec = be_dec]) (simp_all add: wire)

end
