(* ===== verification/Vss_Comm_Header.thy ===== *)
theory Vss_Comm_Header
  imports Vpl_Conv
begin

text \<open>
  The command codes and the 48-byte message header of the Virtual Storage Service wire protocol
  (\<open>gvm_core/internal/vssi/src/vss_comm.h\<close>, lines 1 to 335): one definition per enumerator
  and one per accessor function, under the names of the C header, in its order.
  A getter is \<open>None\<close> and a setter is \<open>None\<close> where the access leaves the buffer.
\<close>

definition vss_set_u64 :: "u64 \<Rightarrow> buffer \<Rightarrow> buffer option" where
  "vss_set_u64 src dst = memcpy_at dst 0 (host_enc 8 (VPLConv_hton_u64 src)) 8"

definition vss_get_u64 :: "buffer \<Rightarrow> u64 option" where
  "vss_get_u64 src = map_option (\<lambda>dst. VPLConv_ntoh_u64 (host_dec dst)) (rd_bytes src 0 8)"

definition VSS_REPLY :: u8 where [simp]: "VSS_REPLY = 0x80"
definition VSS_NOOP :: u8 where [simp]: "VSS_NOOP = 0x00"
definition VSS_OPEN :: u8 where [simp]: "VSS_OPEN = 0x01"
definition VSS_CLOSE :: u8 where [simp]: "VSS_CLOSE = 0x02"
definition VSS_START_SET :: u8 where [simp]: "VSS_START_SET = 0x03"
definition VSS_COMMIT :: u8 where [simp]: "VSS_COMMIT = 0x04"
definition VSS_DELETE :: u8 where [simp]: "VSS_DELETE = 0x05"
definition VSS_ERASE :: u8 where [simp]: "VSS_ERASE = 0x06"
definition VSS_READ :: u8 where [simp]: "VSS_READ = 0x10"
definition VSS_READ_DIFF :: u8 where [simp]: "VSS_READ_DIFF = 0x11"
definition VSS_READ_DIR :: u8 where [simp]: "VSS_READ_DIR = 0x12"
definition VSS_STAT :: u8 where [simp]: "VSS_STAT = 0x13"
definition VSS_READ_TRASHCAN :: u8 where [simp]: "VSS_READ_TRASHCAN = 0x14"
definition VSS_READ_TRASH :: u8 where [simp]: "VSS_READ_TRASH = 0x15"
definition VSS_READ_TRASH_DIR :: u8 where [simp]: "VSS_READ_TRASH_DIR = 0x16"
definition VSS_STAT_TRASH :: u8 where [simp]: "VSS_STAT_TRASH = 0x17"
definition VSS_WRITE :: u8 where [simp]: "VSS_WRITE = 0x20"
definition VSS_MAKE_REF :: u8 where [simp]: "VSS_MAKE_REF = 0x21"
definition VSS_MAKE_DIR :: u8 where [simp]: "VSS_MAKE_DIR = 0x22"
definition VSS_REMOVE :: u8 where [simp]: "VSS_REMOVE = 0x23"
definition VSS_RENAME :: u8 where [simp]: "VSS_RENAME = 0x24"
definition VSS_COPY :: u8 where [simp]: "VSS_COPY = 0x25"
definition VSS_COPY_MATCH :: u8 where [simp]: "VSS_COPY_MATCH = 0x26"
definition VSS_SET_TIMES :: u8 where [simp]: "VSS_SET_TIMES = 0x32"
definition VSS_SET_SIZE :: u8 where [simp]: "VSS_SET_SIZE = 0x33"
definition VSS_SET_METADATA :: u8 where [simp]: "VSS_SET_METADATA = 0x34"
definition VSS_EMPTY_TRASH :: u8 where [simp]: "VSS_EMPTY_TRASH = 0x40"
definition VSS_DELETE_TRASH :: u8 where [simp]: "VSS_DELETE_TRASH = 0x41"
definition VSS_RESTORE_TRASH :: u8 where [simp]: "VSS_RESTORE_TRASH = 0x42"
definition VSS_GET_SPACE :: u8 where [simp]: "VSS_GET_SPACE = 0x50"
definition VSS_RELEASE_FILE :: u8 where [simp]: "VSS_RELEASE_FILE = 0x51"
definition VSS_SET_LOCK :: u8 where [simp]: "VSS_SET_LOCK = 0x52"
definition VSS_GET_LOCK :: u8 where [simp]: "VSS_GET_LOCK = 0x53"
definition VSS_SET_LOCK_RANGE :: u8 where [simp]: "VSS_SET_LOCK_RANGE = 0x54"
definition VSS_GET_NOTIFY :: u8 where [simp]: "VSS_GET_NOTIFY = 0x55"
definition VSS_SET_NOTIFY :: u8 where [simp]: "VSS_SET_NOTIFY = 0x56"
definition VSS_NOTIFICATION :: u8 where [simp]: "VSS_NOTIFICATION = 0x57"
definition VSS_OPEN_FILE :: u8 where [simp]: "VSS_OPEN_FILE = 0x58"
definition VSS_CLOSE_FILE :: u8 where [simp]: "VSS_CLOSE_FILE = 0x59"
definition VSS_READ_FILE :: u8 where [simp]: "VSS_READ_FILE = 0x5a"
definition VSS_WRITE_FILE :: u8 where [simp]: "VSS_WRITE_FILE = 0x5b"
definition VSS_TRUNCATE_FILE :: u8 where [simp]: "VSS_TRUNCATE_FILE = 0x5c"
definition VSS_STAT_FILE :: u8 where [simp]: "VSS_STAT_FILE = 0x5d"
definition VSS_CHMOD :: u8 where [simp]: "VSS_CHMOD = 0x5e"
definition VSS_MAKE_DIR2 :: u8 where [simp]: "VSS_MAKE_DIR2 = 0x5f"
definition VSS_READ_DIR2 :: u8 where [simp]: "VSS_READ_DIR2 = 0x60"
definition VSS_STAT2 :: u8 where [simp]: "VSS_STAT2 = 0x61"
definition VSS_CHMOD_FILE :: u8 where [simp]: "VSS_CHMOD_FILE = 0x62"
definition VSS_RENAME2 :: u8 where [simp]: "VSS_RENAME2 = 0x63"
definition VSS_NEGOTIATE :: u8 where [simp]: "VSS_NEGOTIATE = 0x7a"
definition VSS_TUNNEL_RESET :: u8 where [simp]: "VSS_TUNNEL_RESET = 0x7b"
definition VSS_AUTHENTICATE :: u8 where [simp]: "VSS_AUTHENTICATE = 0x7c"
definition VSS_TUNNEL_DATA :: u8 where [simp]: "VSS_TUNNEL_DATA = 0x7d"
definition VSS_PROXY_REQUEST :: u8 where [simp]: "VSS_PROXY_REQUEST = 0x7e"
definition VSS_PROXY_CONNECT :: u8 where [simp]: "VSS_PROXY_CONNECT = 0x7f"
definition VSS_ERROR :: u8 where [simp]: "VSS_ERROR = VSS_NOOP + VSS_REPLY"
definition VSS_OPEN_REPLY :: u8 where [simp]: "VSS_OPEN_REPLY = VSS_OPEN + VSS_REPLY"
definition VSS_CLOSE_REPLY :: u8 where [simp]: "VSS_CLOSE_REPLY = VSS_CLOSE + VSS_REPLY"
definition VSS_START_SET_REPLY :: u8 where [simp]: "VSS_START_SET_REPLY = VSS_START_SET + VSS_REPLY"
definition VSS_COMMIT_REPLY :: u8 where [simp]: "VSS_COMMIT_REPLY = VSS_COMMIT + VSS_REPLY"
definition VSS_DELETE_REPLY :: u8 where [simp]: "VSS_DELETE_REPLY = VSS_DELETE + VSS_REPLY"
definition VSS_ERASE_REPLY :: u8 where [simp]: "VSS_ERASE_REPLY = VSS_ERASE + VSS_REPLY"
definition VSS_READ_REPLY :: u8 where [simp]: "VSS_READ_REPLY = VSS_READ + VSS_REPLY"
definition VSS_READ_DIFF_REPLY :: u8 where [simp]: "VSS_READ_DIFF_REPLY = VSS_READ_DIFF + VSS_REPLY"
definition VSS_READ_DIR_REPLY :: u8 where [simp]: "VSS_READ_DIR_REPLY = VSS_READ_DIR + VSS_REPLY"
definition VSS_STAT_REPLY :: u8 where [simp]: "VSS_STAT_REPLY = VSS_STAT + VSS_REPLY"
definition VSS_READ_TRASHCAN_REPLY :: u8 where [simp]: "VSS_READ_TRASHCAN_REPLY = VSS_READ_TRASHCAN + VSS_REPLY"
definition VSS_READ_TRASH_REPLY :: u8 where [simp]: "VSS_READ_TRASH_REPLY = VSS_READ_TRASH + VSS_REPLY"
definition VSS_READ_TRASH_DIR_REPLY :: u8 where [simp]: "VSS_READ_TRASH_DIR_REPLY = VSS_READ_TRASH_DIR + VSS_REPLY"
definition VSS_STAT_TRASH_REPLY :: u8 where [simp]: "VSS_STAT_TRASH_REPLY = VSS_STAT_TRASH + VSS_REPLY"
definition VSS_WRITE_REPLY :: u8 where [simp]: "VSS_WRITE_REPLY = VSS_WRITE + VSS_REPLY"
definition VSS_MAKE_REF_REPLY :: u8 where [simp]: "VSS_MAKE_REF_REPLY = VSS_MAKE_REF + VSS_REPLY"
definition VSS_MAKE_DIR_REPLY :: u8 where [simp]: "VSS_MAKE_DIR_REPLY = VSS_MAKE_DIR + VSS_REPLY"
definition VSS_REMOVE_REPLY :: u8 where [simp]: "VSS_REMOVE_REPLY = VSS_REMOVE + VSS_REPLY"
definition VSS_RENAME_REPLY :: u8 where [simp]: "VSS_RENAME_REPLY = VSS_RENAME + VSS_REPLY"
definition VSS_COPY_REPLY :: u8 where [simp]: "VSS_COPY_REPLY = VSS_COPY + VSS_REPLY"
definition VSS_COPY_MATCH_REPLY :: u8 where [simp]: "VSS_COPY_MATCH_REPLY = VSS_COPY_MATCH + VSS_REPLY"
definition VSS_SET_TIMES_REPLY :: u8 where [simp]: "VSS_SET_TIMES_REPLY = VSS_SET_TIMES + VSS_REPLY"
definition VSS_SET_SIZE_REPLY :: u8 where [simp]: "VSS_SET_SIZE_REPLY = VSS_SET_SIZE + VSS_REPLY"
definition VSS_SET_METADATA_REPLY :: u8 where [simp]: "VSS_SET_METADATA_REPLY = VSS_SET_METADATA + VSS_REPLY"
definition VSS_EMPTY_TRASH_REPLY :: u8 where [simp]: "VSS_EMPTY_TRASH_REPLY = VSS_EMPTY_TRASH + VSS_REPLY"
definition VSS_DELETE_TRASH_REPLY :: u8 where [simp]: "VSS_DELETE_TRASH_REPLY = VSS_DELETE_TRASH + VSS_REPLY"
definition VSS_RESTORE_TRASH_REPLY :: u8 where [simp]: "VSS_RESTORE_TRASH_REPLY = VSS_RESTORE_TRASH + VSS_REPLY"
definition VSS_GET_SPACE_REPLY :: u8 where [simp]: "VSS_GET_SPACE_REPLY = VSS_GET_SPACE + VSS_REPLY"
definition VSS_RELEASE_FILE_REPLY :: u8 where [simp]: "VSS_RELEASE_FILE_REPLY = VSS_RELEASE_FILE + VSS_REPLY"
definition VSS_SET_LOCK_REPLY :: u8 where [simp]: "VSS_SET_LOCK_REPLY = VSS_SET_LOCK + VSS_REPLY"
definition VSS_GET_LOCK_REPLY :: u8 where [simp]: "VSS_GET_LOCK_REPLY = VSS_GET_LOCK + VSS_REPLY"
definition VSS_SET_LOCK_RANGE_REPLY :: u8 where [simp]: "VSS_SET_LOCK_RANGE_REPLY = VSS_SET_LOCK_RANGE + VSS_REPLY"
definition VSS_GET_NOTIFY_REPLY :: u8 where [simp]: "VSS_GET_NOTIFY_REPLY = VSS_GET_NOTIFY + VSS_REPLY"
definition VSS_SET_NOTIFY_REPLY :: u8 where [simp]: "VSS_SET_NOTIFY_REPLY = VSS_SET_NOTIFY + VSS_REPLY"
definition VSS_NOTIFICATION_REPLY :: u8 where [simp]: "VSS_NOTIFICATION_REPLY = VSS_NOTIFICATION + VSS_REPLY"
definition VSS_OPEN_FILE_REPLY :: u8 where [simp]: "VSS_OPEN_FILE_REPLY = VSS_OPEN_FILE + VSS_REPLY"
definition VSS_CLOSE_FILE_REPLY :: u8 where [simp]: "VSS_CLOSE_FILE_REPLY = VSS_CLOSE_FILE + VSS_REPLY"
definition VSS_READ_FILE_REPLY :: u8 where [simp]: "VSS_READ_FILE_REPLY = VSS_READ_FILE + VSS_REPLY"
definition VSS_WRITE_FILE_REPLY :: u8 where [simp]: "VSS_WRITE_FILE_REPLY = VSS_WRITE_FILE + VSS_REPLY"
definition VSS_TRUNCATE_FILE_REPLY :: u8 where [simp]: "VSS_TRUNCATE_FILE_REPLY = VSS_TRUNCATE_FILE + VSS_REPLY"
definition VSS_STAT_FILE_REPLY :: u8 where [simp]: "VSS_STAT_FILE_REPLY = VSS_STAT_FILE + VSS_REPLY"
definition VSS_CHMOD_REPLY :: u8 where [simp]: "VSS_CHMOD_REPLY = VSS_CHMOD + VSS_REPLY"
definition VSS_MAKE_DIR2_REPLY :: u8 where [simp]: "VSS_MAKE_DIR2_REPLY = VSS_MAKE_DIR2 + VSS_REPLY"
definition VSS_READ_DIR2_REPLY :: u8 where [simp]: "VSS_READ_DIR2_REPLY = VSS_READ_DIR2 + VSS_REPLY"
definition VSS_STAT2_REPLY :: u8 where [simp]: "VSS_STAT2_REPLY = VSS_STAT2 + VSS_REPLY"
definition VSS_CHMOD_FILE_REPLY :: u8 where [simp]: "VSS_CHMOD_FILE_REPLY = VSS_CHMOD_FILE + VSS_REPLY"
definition VSS_RENAME2_REPLY :: u8 where [simp]: "VSS_RENAME2_REPLY = VSS_RENAME2 + VSS_REPLY"
definition VSS_NEGOTIATE_REPLY :: u8 where [simp]: "VSS_NEGOTIATE_REPLY = VSS_NEGOTIATE + VSS_REPLY"
definition VSS_TUNNEL_RESET_REPLY :: u8 where [simp]: "VSS_TUNNEL_RESET_REPLY = VSS_TUNNEL_RESET + VSS_REPLY"
definition VSS_AUTHENTICATE_REPLY :: u8 where [simp]: "VSS_AUTHENTICATE_REPLY = VSS_AUTHENTICATE + VSS_REPLY"
definition VSS_TUNNEL_DATA_REPLY :: u8 where [simp]: "VSS_TUNNEL_DATA_REPLY = VSS_TUNNEL_DATA + VSS_REPLY"
definition VSS_PROXY_REQUEST_REPLY :: u8 where [simp]: "VSS_PROXY_REQUEST_REPLY = VSS_PROXY_REQUEST + VSS_REPLY"
definition VSS_PROXY_CONNECT_REPLY :: u8 where [simp]: "VSS_PROXY_CONNECT_REPLY = VSS_PROXY_CONNECT + VSS_REPLY"
definition VSS_VERSION_OFFSET :: nat where [simp]: "VSS_VERSION_OFFSET = 0"
definition VSS_COMMAND_OFFSET :: nat where [simp]: "VSS_COMMAND_OFFSET = 1"
definition VSS_STATUS_OFFSET :: nat where [simp]: "VSS_STATUS_OFFSET = 2"
definition VSS_XID_OFFSET :: nat where [simp]: "VSS_XID_OFFSET = 4"
definition VSS_DEVICE_ID_OFFSET :: nat where [simp]: "VSS_DEVICE_ID_OFFSET = 8"
definition VSS_HANDLE_OFFSET :: nat where [simp]: "VSS_HANDLE_OFFSET = 16"
definition VSS_DATA_LENGTH_OFFSET :: nat where [simp]: "VSS_DATA_LENGTH_OFFSET = 24"
definition VSS_DATA_HMAC_OFFSET :: nat where [simp]: "VSS_DATA_HMAC_OFFSET = 28"
definition VSS_HEADER_HMAC_OFFSET :: nat where [simp]: "VSS_HEADER_HMAC_OFFSET = 38"
definition VSS_HMAC_SIZE :: nat where [simp]: "VSS_HMAC_SIZE = 10"
definition VSS_HEADER_SIZE :: nat where [simp]: "VSS_HEADER_SIZE = 48"
definition vss_get_version :: "buffer \<Rightarrow> u8 option" where [wire]:
  "vss_get_version buf = get_u8 buf VSS_VERSION_OFFSET"

definition vss_set_version :: "buffer \<Rightarrow> u8 \<Rightarrow> buffer option" where [wire]:
  "vss_set_version buf val = put_u8 buf VSS_VERSION_OFFSET val"

definition vss_get_command :: "buffer \<Rightarrow> u8 option" where [wire]:
  "vss_get_command buf = get_u8 buf VSS_COMMAND_OFFSET"

definition vss_set_command :: "buffer \<Rightarrow> u8 \<Rightarrow> buffer option" where [wire]:
  "vss_set_command buf val = put_u8 buf VSS_COMMAND_OFFSET val"

definition vss_get_status :: "buffer \<Rightarrow> int option" where [wire]:
  "vss_get_status buf = map_option VPLConv_ntoh_s16 (get_host16 buf VSS_STATUS_OFFSET)"

definition vss_set_status :: "buffer \<Rightarrow> int \<Rightarrow> buffer option" where [wire]:
  "vss_set_status buf val = put_host16 buf VSS_STATUS_OFFSET (VPLConv_hton_s16 val)"

definition vss_get_xid :: "buffer \<Rightarrow> u32 option" where [wire]:
  "vss_get_xid buf = map_option VPLConv_ntoh_u32 (get_host32 buf VSS_XID_OFFSET)"

definition vss_set_xid :: "buffer \<Rightarrow> u32 \<Rightarrow> buffer option" where [wire]:
  "vss_set_xid buf val = put_host32 buf VSS_XID_OFFSET (VPLConv_hton_u32 val)"

definition vss_get_device_id :: "buffer \<Rightarrow> u64 option" where [wire]:
  "vss_get_device_id buf = map_option VPLConv_ntoh_u64 (get_host64 buf VSS_DEVICE_ID_OFFSET)"

definition vss_set_device_id :: "buffer \<Rightarrow> u64 \<Rightarrow> buffer option" where [wire]:
  "vss_set_device_id buf val = put_host64 buf VSS_DEVICE_ID_OFFSET (VPLConv_hton_u64 val)"

definition vss_get_handle :: "buffer \<Rightarrow> u64 option" where [wire]:
  "vss_get_handle buf = map_option VPLConv_ntoh_u64 (get_host64 buf VSS_HANDLE_OFFSET)"

definition vss_set_handle :: "buffer \<Rightarrow> u64 \<Rightarrow> buffer option" where [wire]:
  "vss_set_handle buf val = put_host64 buf VSS_HANDLE_OFFSET (VPLConv_hton_u64 val)"

definition vss_get_data_length :: "buffer \<Rightarrow> u32 option" where [wire]:
  "vss_get_data_length buf = map_option VPLConv_ntoh_u32 (get_host32 buf VSS_DATA_LENGTH_OFFSET)"

definition vss_set_data_length :: "buffer \<Rightarrow> u32 \<Rightarrow> buffer option" where [wire]:
  "vss_set_data_length buf val = put_host32 buf VSS_DATA_LENGTH_OFFSET (VPLConv_hton_u32 val)"

definition vss_get_data_hmac :: "buffer \<Rightarrow> buffer option" where [wire]:
  "vss_get_data_hmac buf = ptr_at buf VSS_DATA_HMAC_OFFSET"

definition vss_set_data_hmac :: "buffer \<Rightarrow> buffer \<Rightarrow> buffer option" where [wire]:
  "vss_set_data_hmac buf val = memcpy_at buf VSS_DATA_HMAC_OFFSET val VSS_HMAC_SIZE"

definition vss_get_header_hmac :: "buffer \<Rightarrow> buffer option" where [wire]:
  "vss_get_header_hmac buf = ptr_at buf VSS_HEADER_HMAC_OFFSET"

definition vss_set_header_hmac :: "buffer \<Rightarrow> buffer \<Rightarrow> buffer option" where [wire]:
  "vss_set_header_hmac buf val = memcpy_at buf VSS_HEADER_HMAC_OFFSET val VSS_HMAC_SIZE"

section \<open>VSS_NOOP\<close>

definition VSS_NOOP_SIZE :: nat where [simp]: "VSS_NOOP_SIZE = 0"

section \<open>VSS_ERROR\<close>

definition VSS_ERROR_SIZE :: nat where [simp]: "VSS_ERROR_SIZE = 0"

end
