(* ===== verification/Vss_Comm_Object.thy ===== *)
theory Vss_Comm_Object
  imports Vss_Comm_Header
begin

text \<open>
  Layouts and accessors of the messages that open, version and read objects, directories and
  trash (\<open>vss_comm.h\<close>, lines 336 to 2420): one definition per enumerator and accessor.
\<close>

section \<open>VSS_OPEN\<close>

definition VSS_OPEN_MODE_OFFSET :: nat where [simp]: "VSS_OPEN_MODE_OFFSET = 0"
definition VSS_OPEN_MODE_READONLY :: u8 where [simp]: "VSS_OPEN_MODE_READONLY = 0x00"
definition VSS_OPEN_MODE_READWRITE :: u8 where [simp]: "VSS_OPEN_MODE_READWRITE = 0x01"
definition VSS_OPEN_MODE_FORCE :: u8 where [simp]: "VSS_OPEN_MODE_FORCE = 0x02"
definition VSS_OPEN_MODE_LOCK :: u8 where [simp]: "VSS_OPEN_MODE_LOCK = 0x04"
definition VSS_OPEN_MODE_NO_TRASH :: u8 where [simp]: "VSS_OPEN_MODE_NO_TRASH = 0x08"
definition VSS_OPEN_MODE_SECONDARY :: u8 where [simp]: "VSS_OPEN_MODE_SECONDARY = 0x10"
definition VSS_OPEN_MODE_INSTANT_CHANGE :: u8 where [simp]: "VSS_OPEN_MODE_INSTANT_CHANGE = 0x20"
definition VSS_OPEN_RESERVED_OFFSET :: nat where [simp]: "VSS_OPEN_RESERVED_OFFSET = 1"
definition VSS_OPEN_RESERVED_SIZE :: nat where [simp]: "VSS_OPEN_RESERVED_SIZE = 7"
definition VSS_OPEN_UID_OFFSET :: nat where [simp]: "VSS_OPEN_UID_OFFSET = 8"
definition VSS_OPEN_DID_OFFSET :: nat where [simp]: "VSS_OPEN_DID_OFFSET = 16"
definition VSS_OPEN_BASE_SIZE :: nat where [simp]: "VSS_OPEN_BASE_SIZE = 24"
definition vss_open_get_mode :: "buffer \<Rightarrow> u8 option" where [wire]:
  "vss_open_get_mode buf = get_u8 buf VSS_OPEN_MODE_OFFSET"

definition vss_open_set_mode :: "buffer \<Rightarrow> u8 \<Rightarrow> buffer option" where [wire]:
  "vss_open_set_mode buf val = put_u8 buf VSS_OPEN_MODE_OFFSET val"

definition vss_open_set_reserved :: "buffer \<Rightarrow> buffer option" where [wire]:
  "vss_open_set_reserved buf = wr_bytes buf VSS_OPEN_RESERVED_OFFSET (replicate VSS_OPEN_RESERVED_SIZE 0)"

definition vss_open_get_uid :: "buffer \<Rightarrow> u64 option" where [wire]:
  "vss_open_get_uid buf = map_option VPLConv_ntoh_u64 (get_host64 buf VSS_OPEN_UID_OFFSET)"

definition vss_open_set_uid :: "buffer \<Rightarrow> u64 \<Rightarrow> buffer option" where [wire]:
  "vss_open_set_uid buf val = put_host64 buf VSS_OPEN_UID_OFFSET (VPLConv_hton_u64 val)"

definition vss_open_get_did :: "buffer \<Rightarrow> u64 option" where [wire]:
  "vss_open_get_did buf = map_option VPLConv_ntoh_u64 (get_host64 buf VSS_OPEN_DID_OFFSET)"

definition vss_open_set_did :: "buffer \<Rightarrow> u64 \<Rightarrow> buffer option" where [wire]:
  "vss_open_set_did buf val = put_host64 buf VSS_OPEN_DID_OFFSET (VPLConv_hton_u64 val)"

section \<open>VSS_OPEN_REPLY\<close>

definition VSS_OPENR_HANDLE_OFFSET :: nat where [simp]: "VSS_OPENR_HANDLE_OFFSET = 0"
definition VSS_OPENR_VERSION_OFFSET :: nat where [simp]: "VSS_OPENR_VERSION_OFFSET = 4"
definition VSS_OPENR_SIZE :: nat where [simp]: "VSS_OPENR_SIZE = 12"
definition vss_open_reply_get_handle :: "buffer \<Rightarrow> u32 option" where [wire]:
  "vss_open_reply_get_handle buf = map_option VPLConv_ntoh_u32 (get_host32 buf VSS_OPENR_HANDLE_OFFSET)"

definition vss_open_reply_set_handle :: "buffer \<Rightarrow> u32 \<Rightarrow> buffer option" where [wire]:
  "vss_open_reply_set_handle buf val = put_host32 buf VSS_OPENR_HANDLE_OFFSET (VPLConv_hton_u32 val)"

definition vss_open_reply_get_objver :: "buffer \<Rightarrow> u64 option" where [wire]:
  "vss_open_reply_get_objver buf = map_option VPLConv_ntoh_u64 (get_host64 buf VSS_OPENR_VERSION_OFFSET)"

definition vss_open_reply_set_objver :: "buffer \<Rightarrow> u64 \<Rightarrow> buffer option" where [wire]:
  "vss_open_reply_set_objver buf val = put_host64 buf VSS_OPENR_VERSION_OFFSET (VPLConv_hton_u64 val)"

section \<open>VSS_CLOSE\<close>

definition VSS_CLOSE_HANDLE_OFFSET :: nat where [simp]: "VSS_CLOSE_HANDLE_OFFSET = 0"
definition VSS_CLOSE_SIZE :: nat where [simp]: "VSS_CLOSE_SIZE = 4"
definition vss_close_get_handle :: "buffer \<Rightarrow> u32 option" where [wire]:
  "vss_close_get_handle buf = map_option VPLConv_ntoh_u32 (get_host32 buf VSS_CLOSE_HANDLE_OFFSET)"

definition vss_close_set_handle :: "buffer \<Rightarrow> u32 \<Rightarrow> buffer option" where [wire]:
  "vss_close_set_handle buf val = put_host32 buf VSS_CLOSE_HANDLE_OFFSET (VPLConv_hton_u32 val)"

section \<open>VSS_CLOSE_REPLY\<close>

definition VSS_CLOSER_SIZE :: nat where [simp]: "VSS_CLOSER_SIZE = 0"

section \<open>VSS_START_SET\<close>

definition VSS_START_SET_HANDLE_OFFSET :: nat where [simp]: "VSS_START_SET_HANDLE_OFFSET = 0"
definition VSS_START_SET_OBJVER_OFFSET :: nat where [simp]: "VSS_START_SET_OBJVER_OFFSET = 4"
definition VSS_START_SET_SIZE :: nat where [simp]: "VSS_START_SET_SIZE = 12"
definition vss_start_set_get_handle :: "buffer \<Rightarrow> u32 option" where [wire]:
  "vss_start_set_get_handle buf = map_option VPLConv_ntoh_u32 (get_host32 buf VSS_START_SET_HANDLE_OFFSET)"

definition vss_start_set_set_handle :: "buffer \<Rightarrow> u32 \<Rightarrow> buffer option" where [wire]:
  "vss_start_set_set_handle buf val = put_host32 buf VSS_START_SET_HANDLE_OFFSET (VPLConv_hton_u32 val)"

definition vss_start_set_get_objver :: "buffer \<Rightarrow> u64 option" where [wire]:
  "vss_start_set_get_objver buf = map_option VPLConv_ntoh_u64 (get_host64 buf VSS_START_SET_OBJVER_OFFSET)"

definition vss_start_set_set_objver :: "buffer \<Rightarrow> u64 \<Rightarrow> buffer option" where [wire]:
  "vss_start_set_set_objver buf val = put_host64 buf VSS_START_SET_OBJVER_OFFSET (VPLConv_hton_u64 val)"

section \<open>VSS_VERSION_REPLY\<close>

definition VSS_VERSIONR_OBJVER_OFFSET :: nat where [simp]: "VSS_VERSIONR_OBJVER_OFFSET = 0"
definition VSS_VERSIONR_SIZE :: nat where [simp]: "VSS_VERSIONR_SIZE = 8"
definition vss_version_reply_get_objver :: "buffer \<Rightarrow> u64 option" where [wire]:
  "vss_version_reply_get_objver buf = map_option VPLConv_ntoh_u64 (get_host64 buf VSS_VERSIONR_OBJVER_OFFSET)"

definition vss_version_reply_set_objver :: "buffer \<Rightarrow> u64 \<Rightarrow> buffer option" where [wire]:
  "vss_version_reply_set_objver buf val = put_host64 buf VSS_VERSIONR_OBJVER_OFFSET (VPLConv_hton_u64 val)"

section \<open>VSS_COMMIT\<close>

definition VSS_COMMIT_HANDLE_OFFSET :: nat where [simp]: "VSS_COMMIT_HANDLE_OFFSET = 0"
definition VSS_COMMIT_OBJVER_OFFSET :: nat where [simp]: "VSS_COMMIT_OBJVER_OFFSET = 4"
definition VSS_COMMIT_SIZE :: nat where [simp]: "VSS_COMMIT_SIZE = 12"
definition vss_commit_get_handle :: "buffer \<Rightarrow> u32 option" where [wire]:
  "vss_commit_get_handle buf = map_option VPLConv_ntoh_u32 (get_host32 buf VSS_COMMIT_HANDLE_OFFSET)"

definition vss_commit_set_handle :: "buffer \<Rightarrow> u32 \<Rightarrow> buffer option" where [wire]:
  "vss_commit_set_handle buf val = put_host32 buf VSS_COMMIT_HANDLE_OFFSET (VPLConv_hton_u32 val)"

definition vss_commit_get_objver :: "buffer \<Rightarrow> u64 option" where [wire]:
  "vss_commit_get_objver buf = map_option VPLConv_ntoh_u64 (get_host64 buf VSS_COMMIT_OBJVER_OFFSET)"

definition vss_commit_set_objver :: "buffer \<Rightarrow> u64 \<Rightarrow> buffer option" where [wire]:
  "vss_commit_set_objver buf val = put_host64 buf VSS_COMMIT_OBJVER_OFFSET (VPLConv_hton_u64 val)"

section \<open>VSS_DELETE\<close>

definition VSS_DELETE_RESERVED_OFFSET :: nat where [simp]: "VSS_DELETE_RESERVED_OFFSET = 0"
definition VSS_DELETE_RESERVED_SIZE :: nat where [simp]: "VSS_DELETE_RESERVED_SIZE = 4"
definition VSS_DELETE_UID_OFFSET :: nat where [simp]: "VSS_DELETE_UID_OFFSET = 4"
definition VSS_DELETE_DID_OFFSET :: nat where [simp]: "VSS_DELETE_DID_OFFSET = 12"
definition VSS_DELETE_BASE_SIZE :: nat where [simp]: "VSS_DELETE_BASE_SIZE = 20"
definition vss_delete_set_reserved :: "buffer \<Rightarrow> buffer option" where [wire]:
  "vss_delete_set_reserved buf = put_host32 buf VSS_DELETE_RESERVED_OFFSET (VPLConv_hton_u32 0)"

definition vss_delete_get_uid :: "buffer \<Rightarrow> u64 option" where [wire]:
  "vss_delete_get_uid buf = map_option VPLConv_ntoh_u64 (get_host64 buf VSS_DELETE_UID_OFFSET)"

definition vss_delete_set_uid :: "buffer \<Rightarrow> u64 \<Rightarrow> buffer option" where [wire]:
  "vss_delete_set_uid buf val = put_host64 buf VSS_DELETE_UID_OFFSET (VPLConv_hton_u64 val)"

definition vss_delete_get_did :: "buffer \<Rightarrow> u64 option" where [wire]:
  "vss_delete_get_did buf = map_option VPLConv_ntoh_u64 (get_host64 buf VSS_DELETE_DID_OFFSET)"

definition vss_delete_set_did :: "buffer \<Rightarrow> u64 \<Rightarrow> buffer option" where [wire]:
  "vss_delete_set_did buf val = put_host64 buf VSS_DELETE_DID_OFFSET (VPLConv_hton_u64 val)"

section \<open>VSS_DELETE_REPLY\<close>

definition VSS_DELETER_SIZE :: nat where [simp]: "VSS_DELETER_SIZE = 0"

section \<open>VSS_ERASE\<close>

definition VSS_ERASE_HANDLE_OFFSET :: nat where [simp]: "VSS_ERASE_HANDLE_OFFSET = 0"
definition VSS_ERASE_OBJVER_OFFSET :: nat where [simp]: "VSS_ERASE_OBJVER_OFFSET = 4"
definition VSS_ERASE_SIZE :: nat where [simp]: "VSS_ERASE_SIZE = 12"
definition vss_erase_get_handle :: "buffer \<Rightarrow> u32 option" where [wire]:
  "vss_erase_get_handle buf = map_option VPLConv_ntoh_u32 (get_host32 buf VSS_ERASE_HANDLE_OFFSET)"

definition vss_erase_set_handle :: "buffer \<Rightarrow> u32 \<Rightarrow> buffer option" where [wire]:
  "vss_erase_set_handle buf val = put_host32 buf VSS_ERASE_HANDLE_OFFSET (VPLConv_hton_u32 val)"

definition vss_erase_get_objver :: "buffer \<Rightarrow> u64 option" where [wire]:
  "vss_erase_get_objver buf = map_option VPLConv_ntoh_u64 (get_host64 buf VSS_ERASE_OBJVER_OFFSET)"

definition vss_erase_set_objver :: "buffer \<Rightarrow> u64 \<Rightarrow> buffer option" where [wire]:
  "vss_erase_set_objver buf val = put_host64 buf VSS_ERASE_OBJVER_OFFSET (VPLConv_hton_u64 val)"

section \<open>VSS_READ\<close>

definition VSS_READ_HANDLE_OFFSET :: nat where [simp]: "VSS_READ_HANDLE_OFFSET = 0"
definition VSS_READ_OBJVER_OFFSET :: nat where [simp]: "VSS_READ_OBJVER_OFFSET = 4"
definition VSS_READ_OFFSET_OFFSET :: nat where [simp]: "VSS_READ_OFFSET_OFFSET = 12"
definition VSS_READ_LENGTH_OFFSET :: nat where [simp]: "VSS_READ_LENGTH_OFFSET = 20"
definition VSS_READ_NAME_LENGTH_OFFSET :: nat where [simp]: "VSS_READ_NAME_LENGTH_OFFSET = 24"
definition VSS_READ_NAME_OFFSET :: nat where [simp]: "VSS_READ_NAME_OFFSET = 26"
definition VSS_READ_BASE_SIZE :: nat where [simp]: "VSS_READ_BASE_SIZE = 26"
definition vss_read_get_handle :: "buffer \<Rightarrow> u32 option" where [wire]:
  "vss_read_get_handle buf = map_option VPLConv_ntoh_u32 (get_host32 buf VSS_READ_HANDLE_OFFSET)"

definition vss_read_set_handle :: "buffer \<Rightarrow> u32 \<Rightarrow> buffer option" where [wire]:
  "vss_read_set_handle buf val = put_host32 buf VSS_READ_HANDLE_OFFSET (VPLConv_hton_u32 val)"

definition vss_read_get_objver :: "buffer \<Rightarrow> u64 option" where [wire]:
  "vss_read_get_objver buf = map_option VPLConv_ntoh_u64 (get_host64 buf VSS_READ_OBJVER_OFFSET)"

definition vss_read_set_objver :: "buffer \<Rightarrow> u64 \<Rightarrow> buffer option" where [wire]:
  "vss_read_set_objver buf val = put_host64 buf VSS_READ_OBJVER_OFFSET (VPLConv_hton_u64 val)"

definition vss_read_get_offset :: "buffer \<Rightarrow> u64 option" where [wire]:
  "vss_read_get_offset buf = map_option VPLConv_ntoh_u64 (get_host64 buf VSS_READ_OFFSET_OFFSET)"

definition vss_read_set_offset :: "buffer \<Rightarrow> u64 \<Rightarrow> buffer option" where [wire]:
  "vss_read_set_offset buf val = put_host64 buf VSS_READ_OFFSET_OFFSET (VPLConv_hton_u64 val)"

definition vss_read_get_length :: "buffer \<Rightarrow> u32 option" where [wire]:
  "vss_read_get_length buf = map_option VPLConv_ntoh_u32 (get_host32 buf VSS_READ_LENGTH_OFFSET)"

definition vss_read_set_length :: "buffer \<Rightarrow> u32 \<Rightarrow> buffer option" where [wire]:
  "vss_read_set_length buf val = put_host32 buf VSS_READ_LENGTH_OFFSET (VPLConv_hton_u32 val)"

definition vss_read_get_name_length :: "buffer \<Rightarrow> u16 option" where [wire]:
  "vss_read_get_name_length buf = map_option VPLConv_ntoh_u16 (get_host16 buf VSS_READ_NAME_LENGTH_OFFSET)"

definition vss_read_set_name_length :: "buffer \<Rightarrow> u16 \<Rightarrow> buffer option" where [wire]:
  "vss_read_set_name_length buf val = put_host16 buf VSS_READ_NAME_LENGTH_OFFSET (VPLConv_hton_u16 val)"

definition vss_read_get_name :: "buffer \<Rightarrow> buffer option" where [wire]:
  "vss_read_get_name buf = ptr_at buf VSS_READ_NAME_OFFSET"

definition vss_read_set_name :: "buffer \<Rightarrow> buffer \<Rightarrow> buffer option" where [wire]:
  "vss_read_set_name buf val = do {
     n \<leftarrow> vss_read_get_name_length buf;
     memcpy_at buf VSS_READ_NAME_OFFSET val (unat n) }"

section \<open>VSS_READ_REPLY\<close>

definition VSS_READR_OBJVER_OFFSET :: nat where [simp]: "VSS_READR_OBJVER_OFFSET = 0"
definition VSS_READR_LENGTH_OFFSET :: nat where [simp]: "VSS_READR_LENGTH_OFFSET = 8"
definition VSS_READR_DATA_OFFSET :: nat where [simp]: "VSS_READR_DATA_OFFSET = 12"
definition VSS_READR_BASE_SIZE :: nat where [simp]: "VSS_READR_BASE_SIZE = 12"
definition vss_read_reply_get_objver :: "buffer \<Rightarrow> u64 option" where [wire]:
  "vss_read_reply_get_objver buf = map_option VPLConv_ntoh_u64 (get_host64 buf VSS_READR_OBJVER_OFFSET)"

definition vss_read_reply_set_objver :: "buffer \<Rightarrow> u64 \<Rightarrow> buffer option" where [wire]:
  "vss_read_reply_set_objver buf val = put_host64 buf VSS_READR_OBJVER_OFFSET (VPLConv_hton_u64 val)"

definition vss_read_reply_get_length :: "buffer \<Rightarrow> u32 option" where [wire]:
  "vss_read_reply_get_length buf = map_option VPLConv_ntoh_u32 (get_host32 buf VSS_READR_LENGTH_OFFSET)"

definition vss_read_reply_set_length :: "buffer \<Rightarrow> u32 \<Rightarrow> buffer option" where [wire]:
  "vss_read_reply_set_length buf val = put_host32 buf VSS_READR_LENGTH_OFFSET (VPLConv_hton_u32 val)"

definition vss_read_reply_get_data :: "buffer \<Rightarrow> buffer option" where [wire]:
  "vss_read_reply_get_data buf = ptr_at buf VSS_READR_DATA_OFFSET"

section \<open>VSS_READ_TRASH\<close>

definition VSS_READ_TRASH_HANDLE_OFFSET :: nat where [simp]: "VSS_READ_TRASH_HANDLE_OFFSET = 0"
definition VSS_READ_TRASH_OBJVER_OFFSET :: nat where [simp]: "VSS_READ_TRASH_OBJVER_OFFSET = 4"
definition VSS_READ_TRASH_RECVER_OFFSET :: nat where [simp]: "VSS_READ_TRASH_RECVER_OFFSET = 12"
definition VSS_READ_TRASH_RECIDX_OFFSET :: nat where [simp]: "VSS_READ_TRASH_RECIDX_OFFSET = 20"
definition VSS_READ_TRASH_OFFSET_OFFSET :: nat where [simp]: "VSS_READ_TRASH_OFFSET_OFFSET = 24"
definition VSS_READ_TRASH_LENGTH_OFFSET :: nat where [simp]: "VSS_READ_TRASH_LENGTH_OFFSET = 32"
definition VSS_READ_TRASH_NAME_LENGTH_OFFSET :: nat where [simp]: "VSS_READ_TRASH_NAME_LENGTH_OFFSET = 36"
definition VSS_READ_TRASH_NAME_OFFSET :: nat where [simp]: "VSS_READ_TRASH_NAME_OFFSET = 38"
definition VSS_READ_TRASH_BASE_SIZE :: nat where [simp]: "VSS_READ_TRASH_BASE_SIZE = 38"
definition vss_read_trash_get_handle :: "buffer \<Rightarrow> u32 option" where [wire]:
  "vss_read_trash_get_handle buf = map_option VPLConv_ntoh_u32 (get_host32 buf VSS_READ_TRASH_HANDLE_OFFSET)"

definition vss_read_trash_set_handle :: "buffer \<Rightarrow> u32 \<Rightarrow> buffer option" where [wire]:
  "vss_read_trash_set_handle buf val = put_host32 buf VSS_READ_TRASH_HANDLE_OFFSET (VPLConv_hton_u32 val)"

definition vss_read_trash_get_recver :: "buffer \<Rightarrow> u64 option" where [wire]:
  "vss_read_trash_get_recver buf = map_option VPLConv_ntoh_u64 (get_host64 buf VSS_READ_TRASH_RECVER_OFFSET)"

definition vss_read_trash_set_recver :: "buffer \<Rightarrow> u64 \<Rightarrow> buffer option" where [wire]:
  "vss_read_trash_set_recver buf val = put_host64 buf VSS_READ_TRASH_RECVER_OFFSET (VPLConv_hton_u64 val)"

definition vss_read_trash_get_recidx :: "buffer \<Rightarrow> u32 option" where [wire]:
  "vss_read_trash_get_recidx buf = map_option VPLConv_ntoh_u32 (get_host32 buf VSS_READ_TRASH_RECIDX_OFFSET)"

definition vss_read_trash_set_recidx :: "buffer \<Rightarrow> u32 \<Rightarrow> buffer option" where [wire]:
  "vss_read_trash_set_recidx buf val = put_host32 buf VSS_READ_TRASH_RECIDX_OFFSET (VPLConv_hton_u32 val)"

definition vss_read_trash_get_objver :: "buffer \<Rightarrow> u64 option" where [wire]:
  "vss_read_trash_get_objver buf = map_option VPLConv_ntoh_u64 (get_host64 buf VSS_READ_TRASH_OBJVER_OFFSET)"

definition vss_read_trash_set_objver :: "buffer \<Rightarrow> u64 \<Rightarrow> buffer option" where [wire]:
  "vss_read_trash_set_objver buf val = put_host64 buf VSS_READ_TRASH_OBJVER_OFFSET (VPLConv_hton_u64 val)"

definition vss_read_trash_get_offset :: "buffer \<Rightarrow> u64 option" where [wire]:
  "vss_read_trash_get_offset buf = map_option VPLConv_ntoh_u64 (get_host64 buf VSS_READ_TRASH_OFFSET_OFFSET)"

definition vss_read_trash_set_offset :: "buffer \<Rightarrow> u64 \<Rightarrow> buffer option" where [wire]:
  "vss_read_trash_set_offset buf val = put_host64 buf VSS_READ_TRASH_OFFSET_OFFSET (VPLConv_hton_u64 val)"

definition vss_read_trash_get_length :: "buffer \<Rightarrow> u32 option" where [wire]:
  "vss_read_trash_get_length buf = map_option VPLConv_ntoh_u32 (get_host32 buf VSS_READ_TRASH_LENGTH_OFFSET)"

definition vss_read_trash_set_length :: "buffer \<Rightarrow> u32 \<Rightarrow> buffer option" where [wire]:
  "vss_read_trash_set_length buf val = put_host32 buf VSS_READ_TRASH_LENGTH_OFFSET (VPLConv_hton_u32 val)"

definition vss_read_trash_get_name_length :: "buffer \<Rightarrow> u16 option" where [wire]:
  "vss_read_trash_get_name_length buf = map_option VPLConv_ntoh_u16 (get_host16 buf VSS_READ_TRASH_NAME_LENGTH_OFFSET)"

definition vss_read_trash_set_name_length :: "buffer \<Rightarrow> u16 \<Rightarrow> buffer option" where [wire]:
  "vss_read_trash_set_name_length buf val = put_host16 buf VSS_READ_TRASH_NAME_LENGTH_OFFSET (VPLConv_hton_u16 val)"

definition vss_read_trash_get_name :: "buffer \<Rightarrow> buffer option" where [wire]:
  "vss_read_trash_get_name buf = ptr_at buf VSS_READ_TRASH_NAME_OFFSET"

definition vss_read_trash_set_name :: "buffer \<Rightarrow> buffer \<Rightarrow> buffer option" where [wire]:
  "vss_read_trash_set_name buf val = do {
     n \<leftarrow> vss_read_trash_get_name_length buf;
     memcpy_at buf VSS_READ_TRASH_NAME_OFFSET val (unat n) }"

section \<open>VSS_READ_DIFF\<close>

definition VSS_READ_DIFF_HANDLE_OFFSET :: nat where [simp]: "VSS_READ_DIFF_HANDLE_OFFSET = 0"
definition VSS_READ_DIFF_OBJVER_OFFSET :: nat where [simp]: "VSS_READ_DIFF_OBJVER_OFFSET = 4"
definition VSS_READ_DIFF_REFERENCE_ID_OFFSET :: nat where [simp]: "VSS_READ_DIFF_REFERENCE_ID_OFFSET = 12"
definition VSS_READ_DIFF_OFFSET_OFFSET :: nat where [simp]: "VSS_READ_DIFF_OFFSET_OFFSET = 20"
definition VSS_READ_DIFF_LENGTH_OFFSET :: nat where [simp]: "VSS_READ_DIFF_LENGTH_OFFSET = 28"
definition VSS_READ_DIFF_NAME_LENGTH_OFFSET :: nat where [simp]: "VSS_READ_DIFF_NAME_LENGTH_OFFSET = 32"
definition VSS_READ_DIFF_NAME_OFFSET :: nat where [simp]: "VSS_READ_DIFF_NAME_OFFSET = 34"
definition VSS_READ_DIFF_BASE_SIZE :: nat where [simp]: "VSS_READ_DIFF_BASE_SIZE = 34"
definition vss_read_diff_get_handle :: "buffer \<Rightarrow> u32 option" where [wire]:
  "vss_read_diff_get_handle buf = map_option VPLConv_ntoh_u32 (get_host32 buf VSS_READ_DIFF_HANDLE_OFFSET)"

definition vss_read_diff_set_handle :: "buffer \<Rightarrow> u32 \<Rightarrow> buffer option" where [wire]:
  "vss_read_diff_set_handle buf val = put_host32 buf VSS_READ_DIFF_HANDLE_OFFSET (VPLConv_hton_u32 val)"

definition vss_read_diff_get_objver :: "buffer \<Rightarrow> u64 option" where [wire]:
  "vss_read_diff_get_objver buf = map_option VPLConv_ntoh_u64 (get_host64 buf VSS_READ_DIFF_OBJVER_OFFSET)"

definition vss_read_diff_set_objver :: "buffer \<Rightarrow> u64 \<Rightarrow> buffer option" where [wire]:
  "vss_read_diff_set_objver buf val = put_host64 buf VSS_READ_DIFF_OBJVER_OFFSET (VPLConv_hton_u64 val)"

definition vss_read_diff_get_reference_id :: "buffer \<Rightarrow> u64 option" where [wire]:
  "vss_read_diff_get_reference_id buf = map_option VPLConv_ntoh_u64 (get_host64 buf VSS_READ_DIFF_REFERENCE_ID_OFFSET)"

definition vss_read_diff_set_reference_id :: "buffer \<Rightarrow> u64 \<Rightarrow> buffer option" where [wire]:
  "vss_read_diff_set_reference_id buf val = put_host64 buf VSS_READ_DIFF_REFERENCE_ID_OFFSET (VPLConv_hton_u64 val)"

definition vss_read_diff_get_offset :: "buffer \<Rightarrow> u64 option" where [wire]:
  "vss_read_diff_get_offset buf = map_option VPLConv_ntoh_u64 (get_host64 buf VSS_READ_DIFF_OFFSET_OFFSET)"

definition vss_read_diff_set_offset :: "buffer \<Rightarrow> u64 \<Rightarrow> buffer option" where [wire]:
  "vss_read_diff_set_offset buf val = put_host64 buf VSS_READ_DIFF_OFFSET_OFFSET (VPLConv_hton_u64 val)"

definition vss_read_diff_get_length :: "buffer \<Rightarrow> u32 option" where [wire]:
  "vss_read_diff_get_length buf = map_option VPLConv_ntoh_u32 (get_host32 buf VSS_READ_DIFF_LENGTH_OFFSET)"

definition vss_read_diff_set_length :: "buffer \<Rightarrow> u32 \<Rightarrow> buffer option" where [wire]:
  "vss_read_diff_set_length buf val = put_host32 buf VSS_READ_DIFF_LENGTH_OFFSET (VPLConv_hton_u32 val)"

definition vss_read_diff_get_name_length :: "buffer \<Rightarrow> u16 option" where [wire]:
  "vss_read_diff_get_name_length buf = map_option VPLConv_ntoh_u16 (get_host16 buf VSS_READ_DIFF_NAME_LENGTH_OFFSET)"

definition vss_read_diff_set_name_length :: "buffer \<Rightarrow> u16 \<Rightarrow> buffer option" where [wire]:
  "vss_read_diff_set_name_length buf val = put_host16 buf VSS_READ_DIFF_NAME_LENGTH_OFFSET (VPLConv_hton_u16 val)"

definition vss_read_diff_get_name :: "buffer \<Rightarrow> buffer option" where [wire]:
  "vss_read_diff_get_name buf = ptr_at buf VSS_READ_DIFF_NAME_OFFSET"

definition vss_read_diff_set_name :: "buffer \<Rightarrow> buffer \<Rightarrow> buffer option" where [wire]:
  "vss_read_diff_set_name buf val = do {
     n \<leftarrow> vss_read_diff_get_name_length buf;
     memcpy_at buf VSS_READ_DIFF_NAME_OFFSET val (unat n) }"

section \<open>VSS_READ_DIFF_REPLY\<close>

definition VSS_READ_DIFFR_OBJVER_OFFSET :: nat where [simp]: "VSS_READ_DIFFR_OBJVER_OFFSET = 0"
definition VSS_READ_DIFFR_LENGTH_OFFSET :: nat where [simp]: "VSS_READ_DIFFR_LENGTH_OFFSET = 8"
definition VSS_READ_DIFFR_OFFSET_OFFSET :: nat where [simp]: "VSS_READ_DIFFR_OFFSET_OFFSET = 12"
definition VSS_READ_DIFFR_DATA_OFFSET :: nat where [simp]: "VSS_READ_DIFFR_DATA_OFFSET = 20"
definition VSS_READ_DIFFR_BASE_SIZE :: nat where [simp]: "VSS_READ_DIFFR_BASE_SIZE = 20"
definition vss_read_diff_reply_get_objver :: "buffer \<Rightarrow> u64 option" where [wire]:
  "vss_read_diff_reply_get_objver buf = map_option VPLConv_ntoh_u64 (get_host64 buf VSS_READ_DIFFR_OBJVER_OFFSET)"

definition vss_read_diff_reply_set_objver :: "buffer \<Rightarrow> u64 \<Rightarrow> buffer option" where [wire]:
  "vss_read_diff_reply_set_objver buf val = put_host64 buf VSS_READ_DIFFR_OBJVER_OFFSET (VPLConv_hton_u64 val)"

definition vss_read_diff_reply_get_length :: "buffer \<Rightarrow> u32 option" where [wire]:
  "vss_read_diff_reply_get_length buf = map_option VPLConv_ntoh_u32 (get_host32 buf VSS_READ_DIFFR_LENGTH_OFFSET)"

definition vss_read_diff_reply_set_length :: "buffer \<Rightarrow> u32 \<Rightarrow> buffer option" where [wire]:
  "vss_read_diff_reply_set_length buf val = put_host32 buf VSS_READ_DIFFR_LENGTH_OFFSET (VPLConv_hton_u32 val)"

definition vss_read_diff_reply_get_offset :: "buffer \<Rightarrow> u64 option" where [wire]:
  "vss_read_diff_reply_get_offset buf = map_option VPLConv_ntoh_u64 (get_host64 buf VSS_READ_DIFFR_OFFSET_OFFSET)"

definition vss_read_diff_reply_set_offset :: "buffer \<Rightarrow> u64 \<Rightarrow> buffer option" where [wire]:
  "vss_read_diff_reply_set_offset buf val = put_host64 buf VSS_READ_DIFFR_OFFSET_OFFSET (VPLConv_hton_u64 val)"

definition vss_read_diff_reply_get_data :: "buffer \<Rightarrow> buffer option" where [wire]:
  "vss_read_diff_reply_get_data buf = ptr_at buf VSS_READ_DIFFR_DATA_OFFSET"

section \<open>VSS_READ_DIR\<close>

definition VSS_READ_DIR_HANDLE_OFFSET :: nat where [simp]: "VSS_READ_DIR_HANDLE_OFFSET = 0"
definition VSS_READ_DIR_OBJVER_OFFSET :: nat where [simp]: "VSS_READ_DIR_OBJVER_OFFSET = 4"
definition VSS_READ_DIR_NAME_LENGTH_OFFSET :: nat where [simp]: "VSS_READ_DIR_NAME_LENGTH_OFFSET = 12"
definition VSS_READ_DIR_NAME_OFFSET :: nat where [simp]: "VSS_READ_DIR_NAME_OFFSET = 14"
definition VSS_READ_DIR_BASE_SIZE :: nat where [simp]: "VSS_READ_DIR_BASE_SIZE = 14"
definition vss_read_dir_get_handle :: "buffer \<Rightarrow> u32 option" where [wire]:
  "vss_read_dir_get_handle buf = map_option VPLConv_ntoh_u32 (get_host32 buf VSS_READ_DIR_HANDLE_OFFSET)"

definition vss_read_dir_set_handle :: "buffer \<Rightarrow> u32 \<Rightarrow> buffer option" where [wire]:
  "vss_read_dir_set_handle buf val = put_host32 buf VSS_READ_DIR_HANDLE_OFFSET (VPLConv_hton_u32 val)"

definition vss_read_dir_get_objver :: "buffer \<Rightarrow> u64 option" where [wire]:
  "vss_read_dir_get_objver buf = map_option VPLConv_ntoh_u64 (get_host64 buf VSS_READ_DIR_OBJVER_OFFSET)"

definition vss_read_dir_set_objver :: "buffer \<Rightarrow> u64 \<Rightarrow> buffer option" where [wire]:
  "vss_read_dir_set_objver buf val = put_host64 buf VSS_READ_DIR_OBJVER_OFFSET (VPLConv_hton_u64 val)"

definition vss_read_dir_get_name_length :: "buffer \<Rightarrow> u16 option" where [wire]:
  "vss_read_dir_get_name_length buf = map_option VPLConv_ntoh_u16 (get_host16 buf VSS_READ_DIR_NAME_LENGTH_OFFSET)"

definition vss_read_dir_set_name_length :: "buffer \<Rightarrow> u16 \<Rightarrow> buffer option" where [wire]:
  "vss_read_dir_set_name_length buf val = put_host16 buf VSS_READ_DIR_NAME_LENGTH_OFFSET (VPLConv_hton_u16 val)"

definition vss_read_dir_get_name :: "buffer \<Rightarrow> buffer option" where [wire]:
  "vss_read_dir_get_name buf = ptr_at buf VSS_READ_DIR_NAME_OFFSET"

definition vss_read_dir_set_name :: "buffer \<Rightarrow> buffer \<Rightarrow> buffer option" where [wire]:
  "vss_read_dir_set_name buf val = do {
     n \<leftarrow> vss_read_dir_get_name_length buf;
     memcpy_at buf VSS_READ_DIR_NAME_OFFSET val (unat n) }"

section \<open>VSS_READ_DIR_REPLY\<close>

definition VSS_READ_DIRR_OBJVER_OFFSET :: nat where [simp]: "VSS_READ_DIRR_OBJVER_OFFSET = 0"
definition VSS_READ_DIRR_LENGTH_OFFSET :: nat where [simp]: "VSS_READ_DIRR_LENGTH_OFFSET = 8"
definition VSS_READ_DIRR_DATA_OFFSET :: nat where [simp]: "VSS_READ_DIRR_DATA_OFFSET = 12"
definition VSS_READ_DIRR_BASE_SIZE :: nat where [simp]: "VSS_READ_DIRR_BASE_SIZE = 12"
definition vss_read_dir_reply_get_objver :: "buffer \<Rightarrow> u64 option" where [wire]:
  "vss_read_dir_reply_get_objver buf = map_option VPLConv_ntoh_u64 (get_host64 buf VSS_READ_DIRR_OBJVER_OFFSET)"

definition vss_read_dir_reply_set_objver :: "buffer \<Rightarrow> u64 \<Rightarrow> buffer option" where [wire]:
  "vss_read_dir_reply_set_objver buf val = put_host64 buf VSS_READ_DIRR_OBJVER_OFFSET (VPLConv_hton_u64 val)"

definition vss_read_dir_reply_get_length :: "buffer \<Rightarrow> u32 option" where [wire]:
  "vss_read_dir_reply_get_length buf = map_option VPLConv_ntoh_u32 (get_host32 buf VSS_READ_DIRR_LENGTH_OFFSET)"

definition vss_read_dir_reply_set_length :: "buffer \<Rightarrow> u32 \<Rightarrow> buffer option" where [wire]:
  "vss_read_dir_reply_set_length buf val = put_host32 buf VSS_READ_DIRR_LENGTH_OFFSET (VPLConv_hton_u32 val)"

definition vss_read_dir_reply_get_data :: "buffer \<Rightarrow> buffer option" where [wire]:
  "vss_read_dir_reply_get_data buf = ptr_at buf VSS_READ_DIRR_DATA_OFFSET"

section \<open>VSS_READ_TRASH_DIR\<close>

definition VSS_READ_TRASH_DIR_HANDLE_OFFSET :: nat where [simp]: "VSS_READ_TRASH_DIR_HANDLE_OFFSET = 0"
definition VSS_READ_TRASH_DIR_OBJVER_OFFSET :: nat where [simp]: "VSS_READ_TRASH_DIR_OBJVER_OFFSET = 4"
definition VSS_READ_TRASH_DIR_RECVER_OFFSET :: nat where [simp]: "VSS_READ_TRASH_DIR_RECVER_OFFSET = 12"
definition VSS_READ_TRASH_DIR_RECIDX_OFFSET :: nat where [simp]: "VSS_READ_TRASH_DIR_RECIDX_OFFSET = 20"
definition VSS_READ_TRASH_DIR_NAME_LENGTH_OFFSET :: nat where [simp]: "VSS_READ_TRASH_DIR_NAME_LENGTH_OFFSET = 24"
definition VSS_READ_TRASH_DIR_NAME_OFFSET :: nat where [simp]: "VSS_READ_TRASH_DIR_NAME_OFFSET = 26"
definition VSS_READ_TRASH_DIR_BASE_SIZE :: nat where [simp]: "VSS_READ_TRASH_DIR_BASE_SIZE = 26"
definition vss_read_trash_dir_get_handle :: "buffer \<Rightarrow> u32 option" where [wire]:
  "vss_read_trash_dir_get_handle buf = map_option VPLConv_ntoh_u32 (get_host32 buf VSS_READ_TRASH_DIR_HANDLE_OFFSET)"

definition vss_read_trash_dir_set_handle :: "buffer \<Rightarrow> u32 \<Rightarrow> buffer option" where [wire]:
  "vss_read_trash_dir_set_handle buf val = put_host32 buf VSS_READ_TRASH_DIR_HANDLE_OFFSET (VPLConv_hton_u32 val)"

definition vss_read_trash_dir_get_objver :: "buffer \<Rightarrow> u64 option" where [wire]:
  "vss_read_trash_dir_get_objver buf = map_option VPLConv_ntoh_u64 (get_host64 buf VSS_READ_TRASH_DIR_OBJVER_OFFSET)"

definition vss_read_trash_dir_set_objver :: "buffer \<Rightarrow> u64 \<Rightarrow> buffer option" where [wire]:
  "vss_read_trash_dir_set_objver buf val = put_host64 buf VSS_READ_TRASH_DIR_OBJVER_OFFSET (VPLConv_hton_u64 val)"

definition vss_read_trash_dir_get_recver :: "buffer \<Rightarrow> u64 option" where [wire]:
  "vss_read_trash_dir_get_recver buf = map_option VPLConv_ntoh_u64 (get_host64 buf VSS_READ_TRASH_DIR_RECVER_OFFSET)"

definition vss_read_trash_dir_set_recver :: "buffer \<Rightarrow> u64 \<Rightarrow> buffer option" where [wire]:
  "vss_read_trash_dir_set_recver buf val = put_host64 buf VSS_READ_TRASH_DIR_RECVER_OFFSET (VPLConv_hton_u64 val)"

definition vss_read_trash_dir_get_recidx :: "buffer \<Rightarrow> u32 option" where [wire]:
  "vss_read_trash_dir_get_recidx buf = map_option VPLConv_ntoh_u32 (get_host32 buf VSS_READ_TRASH_DIR_RECIDX_OFFSET)"

definition vss_read_trash_dir_set_recidx :: "buffer \<Rightarrow> u32 \<Rightarrow> buffer option" where [wire]:
  "vss_read_trash_dir_set_recidx buf val = put_host32 buf VSS_READ_TRASH_DIR_RECIDX_OFFSET (VPLConv_hton_u32 val)"

definition vss_read_trash_dir_get_name_length :: "buffer \<Rightarrow> u16 option" where [wire]:
  "vss_read_trash_dir_get_name_length buf = map_option VPLConv_ntoh_u16 (get_host16 buf VSS_READ_TRASH_DIR_NAME_LENGTH_OFFSET)"

definition vss_read_trash_dir_set_name_length :: "buffer \<Rightarrow> u16 \<Rightarrow> buffer option" where [wire]:
  "vss_read_trash_dir_set_name_length buf val = put_host16 buf VSS_READ_TRASH_DIR_NAME_LENGTH_OFFSET (VPLConv_hton_u16 val)"

definition vss_read_trash_dir_get_name :: "buffer \<Rightarrow> buffer option" where [wire]:
  "vss_read_trash_dir_get_name buf = ptr_at buf VSS_READ_TRASH_DIR_NAME_OFFSET"

definition vss_read_trash_dir_set_name :: "buffer \<Rightarrow> buffer \<Rightarrow> buffer option" where [wire]:
  "vss_read_trash_dir_set_name buf val = do {
     n \<leftarrow> vss_read_trash_dir_get_name_length buf;
     memcpy_at buf VSS_READ_TRASH_DIR_NAME_OFFSET val (unat n) }"

section \<open>VSS_CHMOD\<close>

definition VSS_CHMOD_HANDLE_OFFSET :: nat where [simp]: "VSS_CHMOD_HANDLE_OFFSET = 0"
definition VSS_CHMOD_OBJVER_OFFSET :: nat where [simp]: "VSS_CHMOD_OBJVER_OFFSET = 4"
definition VSS_CHMOD_ATTRS_OFFSET :: nat where [simp]: "VSS_CHMOD_ATTRS_OFFSET = 12"
definition VSS_CHMOD_ATTRS_MASK_OFFSET :: nat where [simp]: "VSS_CHMOD_ATTRS_MASK_OFFSET = 16"
definition VSS_CHMOD_NAME_LENGTH_OFFSET :: nat where [simp]: "VSS_CHMOD_NAME_LENGTH_OFFSET = 20"
definition VSS_CHMOD_NAME_OFFSET :: nat where [simp]: "VSS_CHMOD_NAME_OFFSET = 22"
definition VSS_CHMOD_BASE_SIZE :: nat where [simp]: "VSS_CHMOD_BASE_SIZE = 22"
definition vss_chmod_get_handle :: "buffer \<Rightarrow> u32 option" where [wire]:
  "vss_chmod_get_handle buf = map_option VPLConv_ntoh_u32 (get_host32 buf VSS_CHMOD_HANDLE_OFFSET)"

definition vss_chmod_set_handle :: "buffer \<Rightarrow> u32 \<Rightarrow> buffer option" where [wire]:
  "vss_chmod_set_handle buf val = put_host32 buf VSS_CHMOD_HANDLE_OFFSET (VPLConv_hton_u32 val)"

definition vss_chmod_get_objver :: "buffer \<Rightarrow> u64 option" where [wire]:
  "vss_chmod_get_objver buf = map_option VPLConv_ntoh_u64 (get_host64 buf VSS_CHMOD_OBJVER_OFFSET)"

definition vss_chmod_set_objver :: "buffer \<Rightarrow> u64 \<Rightarrow> buffer option" where [wire]:
  "vss_chmod_set_objver buf val = put_host64 buf VSS_CHMOD_OBJVER_OFFSET (VPLConv_hton_u64 val)"

definition vss_chmod_get_attrs :: "buffer \<Rightarrow> u32 option" where [wire]:
  "vss_chmod_get_attrs buf = map_option VPLConv_ntoh_u32 (get_host32 buf VSS_CHMOD_ATTRS_OFFSET)"

definition vss_chmod_set_attrs :: "buffer \<Rightarrow> u32 \<Rightarrow> buffer option" where [wire]:
  "vss_chmod_set_attrs buf val = put_host32 buf VSS_CHMOD_ATTRS_OFFSET (VPLConv_hton_u32 val)"

definition vss_chmod_get_attrs_mask :: "buffer \<Rightarrow> u32 option" where [wire]:
  "vss_chmod_get_attrs_mask buf = map_option VPLConv_ntoh_u32 (get_host32 buf VSS_CHMOD_ATTRS_MASK_OFFSET)"

definition vss_chmod_set_attrs_mask :: "buffer \<Rightarrow> u32 \<Rightarrow> buffer option" where [wire]:
  "vss_chmod_set_attrs_mask buf val = put_host32 buf VSS_CHMOD_ATTRS_MASK_OFFSET (VPLConv_hton_u32 val)"

definition vss_chmod_get_name_length :: "buffer \<Rightarrow> u16 option" where [wire]:
  "vss_chmod_get_name_length buf = map_option VPLConv_ntoh_u16 (get_host16 buf VSS_CHMOD_NAME_LENGTH_OFFSET)"

definition vss_chmod_set_name_length :: "buffer \<Rightarrow> u16 \<Rightarrow> buffer option" where [wire]:
  "vss_chmod_set_name_length buf val = put_host16 buf VSS_CHMOD_NAME_LENGTH_OFFSET (VPLConv_hton_u16 val)"

definition vss_chmod_get_name :: "buffer \<Rightarrow> buffer option" where [wire]:
  "vss_chmod_get_name buf = ptr_at buf VSS_CHMOD_NAME_OFFSET"

definition vss_chmod_set_name :: "buffer \<Rightarrow> buffer \<Rightarrow> buffer option" where [wire]:
  "vss_chmod_set_name buf val = do {
     n \<leftarrow> vss_chmod_get_name_length buf;
     memcpy_at buf VSS_CHMOD_NAME_OFFSET val (unat n) }"

section \<open>VSS_STAT\<close>

definition VSS_STAT_HANDLE_OFFSET :: nat where [simp]: "VSS_STAT_HANDLE_OFFSET = 0"
definition VSS_STAT_OBJVER_OFFSET :: nat where [simp]: "VSS_STAT_OBJVER_OFFSET = 4"
definition VSS_STAT_NAME_LENGTH_OFFSET :: nat where [simp]: "VSS_STAT_NAME_LENGTH_OFFSET = 12"
definition VSS_STAT_NAME_OFFSET :: nat where [simp]: "VSS_STAT_NAME_OFFSET = 14"
definition VSS_STAT_BASE_SIZE :: nat where [simp]: "VSS_STAT_BASE_SIZE = 14"
definition vss_stat_get_handle :: "buffer \<Rightarrow> u32 option" where [wire]:
  "vss_stat_get_handle buf = map_option VPLConv_ntoh_u32 (get_host32 buf VSS_STAT_HANDLE_OFFSET)"

definition vss_stat_set_handle :: "buffer \<Rightarrow> u32 \<Rightarrow> buffer option" where [wire]:
  "vss_stat_set_handle buf val = put_host32 buf VSS_STAT_HANDLE_OFFSET (VPLConv_hton_u32 val)"

definition vss_stat_get_objver :: "buffer \<Rightarrow> u64 option" where [wire]:
  "vss_stat_get_objver buf = map_option VPLConv_ntoh_u64 (get_host64 buf VSS_STAT_OBJVER_OFFSET)"

definition vss_stat_set_objver :: "buffer \<Rightarrow> u64 \<Rightarrow> buffer option" where [wire]:
  "vss_stat_set_objver buf val = put_host64 buf VSS_STAT_OBJVER_OFFSET (VPLConv_hton_u64 val)"

definition vss_stat_get_name_length :: "buffer \<Rightarrow> u16 option" where [wire]:
  "vss_stat_get_name_length buf = map_option VPLConv_ntoh_u16 (get_host16 buf VSS_STAT_NAME_LENGTH_OFFSET)"

definition vss_stat_set_name_length :: "buffer \<Rightarrow> u16 \<Rightarrow> buffer option" where [wire]:
  "vss_stat_set_name_length buf val = put_host16 buf VSS_STAT_NAME_LENGTH_OFFSET (VPLConv_hton_u16 val)"

definition vss_stat_get_name :: "buffer \<Rightarrow> buffer option" where [wire]:
  "vss_stat_get_name buf = ptr_at buf VSS_STAT_NAME_OFFSET"

definition vss_stat_set_name :: "buffer \<Rightarrow> buffer \<Rightarrow> buffer option" where [wire]:
  "vss_stat_set_name buf val = do {
     n \<leftarrow> vss_stat_get_name_length buf;
     memcpy_at buf VSS_STAT_NAME_OFFSET val (unat n) }"

section \<open>VSS_STAT_TRASH\<close>

definition VSS_STAT_TRASH_HANDLE_OFFSET :: nat where [simp]: "VSS_STAT_TRASH_HANDLE_OFFSET = 0"
definition VSS_STAT_TRASH_OBJVER_OFFSET :: nat where [simp]: "VSS_STAT_TRASH_OBJVER_OFFSET = 4"
definition VSS_STAT_TRASH_RECVER_OFFSET :: nat where [simp]: "VSS_STAT_TRASH_RECVER_OFFSET = 12"
definition VSS_STAT_TRASH_RECIDX_OFFSET :: nat where [simp]: "VSS_STAT_TRASH_RECIDX_OFFSET = 20"
definition VSS_STAT_TRASH_NAME_LENGTH_OFFSET :: nat where [simp]: "VSS_STAT_TRASH_NAME_LENGTH_OFFSET = 24"
definition VSS_STAT_TRASH_NAME_OFFSET :: nat where [simp]: "VSS_STAT_TRASH_NAME_OFFSET = 26"
definition VSS_STAT_TRASH_BASE_SIZE :: nat where [simp]: "VSS_STAT_TRASH_BASE_SIZE = 26"
definition vss_stat_trash_get_handle :: "buffer \<Rightarrow> u32 option" where [wire]:
  "vss_stat_trash_get_handle buf = map_option VPLConv_ntoh_u32 (get_host32 buf VSS_STAT_TRASH_HANDLE_OFFSET)"

definition vss_stat_trash_set_handle :: "buffer \<Rightarrow> u32 \<Rightarrow> buffer option" where [wire]:
  "vss_stat_trash_set_handle buf val = put_host32 buf VSS_STAT_TRASH_HANDLE_OFFSET (VPLConv_hton_u32 val)"

definition vss_stat_trash_get_objver :: "buffer \<Rightarrow> u64 option" where [wire]:
  "vss_stat_trash_get_objver buf = map_option VPLConv_ntoh_u64 (get_host64 buf VSS_STAT_TRASH_OBJVER_OFFSET)"

definition vss_stat_trash_set_objver :: "buffer \<Rightarrow> u64 \<Rightarrow> buffer option" where [wire]:
  "vss_stat_trash_set_objver buf val = put_host64 buf VSS_STAT_TRASH_OBJVER_OFFSET (VPLConv_hton_u64 val)"

definition vss_stat_trash_get_recver :: "buffer \<Rightarrow> u64 option" where [wire]:
  "vss_stat_trash_get_recver buf = map_option VPLConv_ntoh_u64 (get_host64 buf VSS_STAT_TRASH_RECVER_OFFSET)"

definition vss_stat_trash_set_recver :: "buffer \<Rightarrow> u64 \<Rightarrow> buffer option" where [wire]:
  "vss_stat_trash_set_recver buf val = put_host64 buf VSS_STAT_TRASH_RECVER_OFFSET (VPLConv_hton_u64 val)"

definition vss_stat_trash_get_recidx :: "buffer \<Rightarrow> u32 option" where [wire]:
  "vss_stat_trash_get_recidx buf = map_option VPLConv_ntoh_u32 (get_host32 buf VSS_STAT_TRASH_RECIDX_OFFSET)"

definition vss_stat_trash_set_recidx :: "buffer \<Rightarrow> u32 \<Rightarrow> buffer option" where [wire]:
  "vss_stat_trash_set_recidx buf val = put_host32 buf VSS_STAT_TRASH_RECIDX_OFFSET (VPLConv_hton_u32 val)"

definition vss_stat_trash_get_name_length :: "buffer \<Rightarrow> u16 option" where [wire]:
  "vss_stat_trash_get_name_length buf = map_option VPLConv_ntoh_u16 (get_host16 buf VSS_STAT_TRASH_NAME_LENGTH_OFFSET)"

definition vss_stat_trash_set_name_length :: "buffer \<Rightarrow> u16 \<Rightarrow> buffer option" where [wire]:
  "vss_stat_trash_set_name_length buf val = put_host16 buf VSS_STAT_TRASH_NAME_LENGTH_OFFSET (VPLConv_hton_u16 val)"

definition vss_stat_trash_get_name :: "buffer \<Rightarrow> buffer option" where [wire]:
  "vss_stat_trash_get_name buf = ptr_at buf VSS_STAT_TRASH_NAME_OFFSET"

definition vss_stat_trash_set_name :: "buffer \<Rightarrow> buffer \<Rightarrow> buffer option" where [wire]:
  "vss_stat_trash_set_name buf val = do {
     n \<leftarrow> vss_stat_trash_get_name_length buf;
     memcpy_at buf VSS_STAT_TRASH_NAME_OFFSET val (unat n) }"

section \<open>VSS_READ_DIR_ENTRY\<close>

definition VSS_DIRENT_SIZE_OFFSET :: nat where [simp]: "VSS_DIRENT_SIZE_OFFSET = 0"
definition VSS_DIRENT_CTIME_OFFSET :: nat where [simp]: "VSS_DIRENT_CTIME_OFFSET = 8"
definition VSS_DIRENT_MTIME_OFFSET :: nat where [simp]: "VSS_DIRENT_MTIME_OFFSET = 16"
definition VSS_DIRENT_CHANGE_VER_OFFSET :: nat where [simp]: "VSS_DIRENT_CHANGE_VER_OFFSET = 24"
definition VSS_DIRENT_SIGNATURE_OFFSET :: nat where [simp]: "VSS_DIRENT_SIGNATURE_OFFSET = 32"
definition VSS_DIRENT_SIGNATURE_SIZE :: nat where [simp]: "VSS_DIRENT_SIGNATURE_SIZE = 20"
definition VSS_DIRENT_IS_DIR_OFFSET :: nat where [simp]: "VSS_DIRENT_IS_DIR_OFFSET = 52"
definition VSS_DIRENT_RESERVED_OFFSET :: nat where [simp]: "VSS_DIRENT_RESERVED_OFFSET = 53"
definition VSS_DIRENT_META_SIZE_OFFSET :: nat where [simp]: "VSS_DIRENT_META_SIZE_OFFSET = 54"
definition VSS_DIRENT_NAME_LEN_OFFSET :: nat where [simp]: "VSS_DIRENT_NAME_LEN_OFFSET = 56"
definition VSS_DIRENT_NAME_OFFSET :: nat where [simp]: "VSS_DIRENT_NAME_OFFSET = 58"
definition VSS_DIRENT_BASE_SIZE :: nat where [simp]: "VSS_DIRENT_BASE_SIZE = 58"
definition vss_dirent_get_size :: "buffer \<Rightarrow> u64 option" where [wire]:
  "vss_dirent_get_size buf = map_option VPLConv_ntoh_u64 (get_host64 buf VSS_DIRENT_SIZE_OFFSET)"

definition vss_dirent_set_size :: "buffer \<Rightarrow> u64 \<Rightarrow> buffer option" where [wire]:
  "vss_dirent_set_size buf val = put_host64 buf VSS_DIRENT_SIZE_OFFSET (VPLConv_hton_u64 val)"

definition vss_dirent_get_ctime :: "buffer \<Rightarrow> u64 option" where [wire]:
  "vss_dirent_get_ctime buf = map_option VPLConv_ntoh_u64 (get_host64 buf VSS_DIRENT_CTIME_OFFSET)"

definition vss_dirent_set_ctime :: "buffer \<Rightarrow> u64 \<Rightarrow> buffer option" where [wire]:
  "vss_dirent_set_ctime buf val = put_host64 buf VSS_DIRENT_CTIME_OFFSET (VPLConv_hton_u64 val)"

definition vss_dirent_get_mtime :: "buffer \<Rightarrow> u64 option" where [wire]:
  "vss_dirent_get_mtime buf = map_option VPLConv_ntoh_u64 (get_host64 buf VSS_DIRENT_MTIME_OFFSET)"

definition vss_dirent_set_mtime :: "buffer \<Rightarrow> u64 \<Rightarrow> buffer option" where [wire]:
  "vss_dirent_set_mtime buf val = put_host64 buf VSS_DIRENT_MTIME_OFFSET (VPLConv_hton_u64 val)"

definition vss_dirent_get_change_ver :: "buffer \<Rightarrow> u64 option" where [wire]:
  "vss_dirent_get_change_ver buf = map_option VPLConv_ntoh_u64 (get_host64 buf VSS_DIRENT_CHANGE_VER_OFFSET)"

definition vss_dirent_set_change_ver :: "buffer \<Rightarrow> u64 \<Rightarrow> buffer option" where [wire]:
  "vss_dirent_set_change_ver buf val = put_host64 buf VSS_DIRENT_CHANGE_VER_OFFSET (VPLConv_hton_u64 val)"

definition vss_dirent_get_signature :: "buffer \<Rightarrow> buffer option" where [wire]:
  "vss_dirent_get_signature buf = ptr_at buf VSS_DIRENT_SIGNATURE_OFFSET"

definition vss_dirent_set_signature :: "buffer \<Rightarrow> buffer \<Rightarrow> buffer option" where [wire]:
  "vss_dirent_set_signature buf val = memcpy_at buf VSS_DIRENT_SIGNATURE_OFFSET val VSS_DIRENT_SIGNATURE_SIZE"

definition vss_dirent_get_is_dir :: "buffer \<Rightarrow> u8 option" where [wire]:
  "vss_dirent_get_is_dir buf = map_option VPLConv_ntoh_u8 (get_u8 buf VSS_DIRENT_IS_DIR_OFFSET)"

definition vss_dirent_set_is_dir :: "buffer \<Rightarrow> u8 \<Rightarrow> buffer option" where [wire]:
  "vss_dirent_set_is_dir buf val = put_u8 buf VSS_DIRENT_IS_DIR_OFFSET (VPLConv_hton_u8 val)"

definition vss_dirent_set_reserved :: "buffer \<Rightarrow> buffer option" where [wire]:
  "vss_dirent_set_reserved buf = put_u8 buf VSS_DIRENT_RESERVED_OFFSET (VPLConv_hton_u8 0)"

definition vss_dirent_get_meta_size :: "buffer \<Rightarrow> u16 option" where [wire]:
  "vss_dirent_get_meta_size buf = map_option VPLConv_ntoh_u16 (get_host16 buf VSS_DIRENT_META_SIZE_OFFSET)"

definition vss_dirent_set_meta_size :: "buffer \<Rightarrow> u16 \<Rightarrow> buffer option" where [wire]:
  "vss_dirent_set_meta_size buf val = put_host16 buf VSS_DIRENT_META_SIZE_OFFSET (VPLConv_hton_u16 val)"

definition vss_dirent_get_name_len :: "buffer \<Rightarrow> u16 option" where [wire]:
  "vss_dirent_get_name_len buf = map_option VPLConv_ntoh_u16 (get_host16 buf VSS_DIRENT_NAME_LEN_OFFSET)"

definition vss_dirent_set_name_len :: "buffer \<Rightarrow> u16 \<Rightarrow> buffer option" where [wire]:
  "vss_dirent_set_name_len buf val = put_host16 buf VSS_DIRENT_NAME_LEN_OFFSET (VPLConv_hton_u16 val)"

definition vss_dirent_get_name :: "buffer \<Rightarrow> buffer option" where [wire]:
  "vss_dirent_get_name buf = ptr_at buf VSS_DIRENT_NAME_OFFSET"

definition vss_dirent_set_name :: "buffer \<Rightarrow> buffer \<Rightarrow> buffer option" where [wire]:
  "vss_dirent_set_name buf val = do {
     n \<leftarrow> vss_dirent_get_name_len buf;
     memcpy_at buf VSS_DIRENT_NAME_OFFSET val (unat n) }"

definition vss_dirent_get_metadata :: "buffer \<Rightarrow> buffer option" where [wire]:
  "vss_dirent_get_metadata buf = do {
     n \<leftarrow> vss_dirent_get_name_len buf;
     ptr_at buf (VSS_DIRENT_NAME_OFFSET + unat n) }"

definition vss_dirent_set_metadata :: "buffer \<Rightarrow> buffer \<Rightarrow> buffer option" where [wire]:
  "vss_dirent_set_metadata buf val = do {
     k \<leftarrow> vss_dirent_get_name_len buf;
     n \<leftarrow> vss_dirent_get_meta_size buf;
     memcpy_at buf (VSS_DIRENT_NAME_OFFSET + unat k) val (unat n) }"

section \<open>VSS_READ_DIR2_ENTRY\<close>

definition VSS_DIRENT2_SIZE_OFFSET :: nat where [simp]: "VSS_DIRENT2_SIZE_OFFSET = 0"
definition VSS_DIRENT2_CTIME_OFFSET :: nat where [simp]: "VSS_DIRENT2_CTIME_OFFSET = 8"
definition VSS_DIRENT2_MTIME_OFFSET :: nat where [simp]: "VSS_DIRENT2_MTIME_OFFSET = 16"
definition VSS_DIRENT2_CHANGE_VER_OFFSET :: nat where [simp]: "VSS_DIRENT2_CHANGE_VER_OFFSET = 24"
definition VSS_DIRENT2_SIGNATURE_OFFSET :: nat where [simp]: "VSS_DIRENT2_SIGNATURE_OFFSET = 32"
definition VSS_DIRENT2_SIGNATURE_SIZE :: nat where [simp]: "VSS_DIRENT2_SIGNATURE_SIZE = 20"
definition VSS_DIRENT2_ATTRS_OFFSET :: nat where [simp]: "VSS_DIRENT2_ATTRS_OFFSET = 52"
definition VSS_DIRENT2_IS_DIR_OFFSET :: nat where [simp]: "VSS_DIRENT2_IS_DIR_OFFSET = 56"
definition VSS_DIRENT2_RESERVED_OFFSET :: nat where [simp]: "VSS_DIRENT2_RESERVED_OFFSET = 57"
definition VSS_DIRENT2_META_SIZE_OFFSET :: nat where [simp]: "VSS_DIRENT2_META_SIZE_OFFSET = 58"
definition VSS_DIRENT2_NAME_LEN_OFFSET :: nat where [simp]: "VSS_DIRENT2_NAME_LEN_OFFSET = 60"
definition VSS_DIRENT2_NAME_OFFSET :: nat where [simp]: "VSS_DIRENT2_NAME_OFFSET = 62"
definition VSS_DIRENT2_BASE_SIZE :: nat where [simp]: "VSS_DIRENT2_BASE_SIZE = 62"
definition vss_dirent2_get_size :: "buffer \<Rightarrow> u64 option" where [wire]:
  "vss_dirent2_get_size buf = map_option VPLConv_ntoh_u64 (get_host64 buf VSS_DIRENT2_SIZE_OFFSET)"

definition vss_dirent2_set_size :: "buffer \<Rightarrow> u64 \<Rightarrow> buffer option" where [wire]:
  "vss_dirent2_set_size buf val = put_host64 buf VSS_DIRENT2_SIZE_OFFSET (VPLConv_hton_u64 val)"

definition vss_dirent2_get_ctime :: "buffer \<Rightarrow> u64 option" where [wire]:
  "vss_dirent2_get_ctime buf = map_option VPLConv_ntoh_u64 (get_host64 buf VSS_DIRENT2_CTIME_OFFSET)"

definition vss_dirent2_set_ctime :: "buffer \<Rightarrow> u64 \<Rightarrow> buffer option" where [wire]:
  "vss_dirent2_set_ctime buf val = put_host64 buf VSS_DIRENT2_CTIME_OFFSET (VPLConv_hton_u64 val)"

definition vss_dirent2_get_mtime :: "buffer \<Rightarrow> u64 option" where [wire]:
  "vss_dirent2_get_mtime buf = map_option VPLConv_ntoh_u64 (get_host64 buf VSS_DIRENT2_MTIME_OFFSET)"

definition vss_dirent2_set_mtime :: "buffer \<Rightarrow> u64 \<Rightarrow> buffer option" where [wire]:
  "vss_dirent2_set_mtime buf val = put_host64 buf VSS_DIRENT2_MTIME_OFFSET (VPLConv_hton_u64 val)"

definition vss_dirent2_get_change_ver :: "buffer \<Rightarrow> u64 option" where [wire]:
  "vss_dirent2_get_change_ver buf = map_option VPLConv_ntoh_u64 (get_host64 buf VSS_DIRENT2_CHANGE_VER_OFFSET)"

definition vss_dirent2_set_change_ver :: "buffer \<Rightarrow> u64 \<Rightarrow> buffer option" where [wire]:
  "vss_dirent2_set_change_ver buf val = put_host64 buf VSS_DIRENT2_CHANGE_VER_OFFSET (VPLConv_hton_u64 val)"

definition vss_dirent2_get_signature :: "buffer \<Rightarrow> buffer option" where [wire]:
  "vss_dirent2_get_signature buf = ptr_at buf VSS_DIRENT2_SIGNATURE_OFFSET"

definition vss_dirent2_set_signature :: "buffer \<Rightarrow> buffer \<Rightarrow> buffer option" where [wire]:
  "vss_dirent2_set_signature buf val = memcpy_at buf VSS_DIRENT2_SIGNATURE_OFFSET val VSS_DIRENT2_SIGNATURE_SIZE"

definition vss_dirent2_get_attrs :: "buffer \<Rightarrow> u32 option" where [wire]:
  "vss_dirent2_get_attrs buf = map_option VPLConv_ntoh_u32 (get_host32 buf VSS_DIRENT2_ATTRS_OFFSET)"

definition vss_dirent2_set_attrs :: "buffer \<Rightarrow> u32 \<Rightarrow> buffer option" where [wire]:
  "vss_dirent2_set_attrs buf val = put_host32 buf VSS_DIRENT2_ATTRS_OFFSET (VPLConv_hton_u32 val)"

definition vss_dirent2_get_is_dir :: "buffer \<Rightarrow> u8 option" where [wire]:
  "vss_dirent2_get_is_dir buf = map_option VPLConv_ntoh_u8 (get_u8 buf VSS_DIRENT2_IS_DIR_OFFSET)"

definition vss_dirent2_set_is_dir :: "buffer \<Rightarrow> u8 \<Rightarrow> buffer option" where [wire]:
  "vss_dirent2_set_is_dir buf val = put_u8 buf VSS_DIRENT2_IS_DIR_OFFSET (VPLConv_hton_u8 val)"

definition vss_dirent2_set_reserved :: "buffer \<Rightarrow> buffer option" where [wire]:
  "vss_dirent2_set_reserved buf = put_u8 buf VSS_DIRENT2_RESERVED_OFFSET (VPLConv_hton_u8 0)"

definition vss_dirent2_get_meta_size :: "buffer \<Rightarrow> u16 option" where [wire]:
  "vss_dirent2_get_meta_size buf = map_option VPLConv_ntoh_u16 (get_host16 buf VSS_DIRENT2_META_SIZE_OFFSET)"

definition vss_dirent2_set_meta_size :: "buffer \<Rightarrow> u16 \<Rightarrow> buffer option" where [wire]:
  "vss_dirent2_set_meta_size buf val = put_host16 buf VSS_DIRENT2_META_SIZE_OFFSET (VPLConv_hton_u16 val)"

definition vss_dirent2_get_name_len :: "buffer \<Rightarrow> u16 option" where [wire]:
  "vss_dirent2_get_name_len buf = map_option VPLConv_ntoh_u16 (get_host16 buf VSS_DIRENT2_NAME_LEN_OFFSET)"

definition vss_dirent2_set_name_len :: "buffer \<Rightarrow> u16 \<Rightarrow> buffer option" where [wire]:
  "vss_dirent2_set_name_len buf val = put_host16 buf VSS_DIRENT2_NAME_LEN_OFFSET (VPLConv_hton_u16 val)"

definition vss_dirent2_get_name :: "buffer \<Rightarrow> buffer option" where [wire]:
  "vss_dirent2_get_name buf = ptr_at buf VSS_DIRENT2_NAME_OFFSET"

definition vss_dirent2_set_name :: "buffer \<Rightarrow> buffer \<Rightarrow> buffer option" where [wire]:
  "vss_dirent2_set_name buf val = do {
     n \<leftarrow> vss_dirent2_get_name_len buf;
     memcpy_at buf VSS_DIRENT2_NAME_OFFSET val (unat n) }"

definition vss_dirent2_get_metadata :: "buffer \<Rightarrow> buffer option" where [wire]:
  "vss_dirent2_get_metadata buf = do {
     n \<leftarrow> vss_dirent2_get_name_len buf;
     ptr_at buf (VSS_DIRENT2_NAME_OFFSET + unat n) }"

definition vss_dirent2_set_metadata :: "buffer \<Rightarrow> buffer \<Rightarrow> buffer option" where [wire]:
  "vss_dirent2_set_metadata buf val = do {
     k \<leftarrow> vss_dirent2_get_name_len buf;
     n \<leftarrow> vss_dirent2_get_meta_size buf;
     memcpy_at buf (VSS_DIRENT2_NAME_OFFSET + unat k) val (unat n) }"

section \<open>VSS_READ_DIR_ENTRY_METADATA\<close>

definition VSS_DIRENT_META_TYPE_OFFSET :: nat where [simp]: "VSS_DIRENT_META_TYPE_OFFSET = 0"
definition VSS_DIRENT_META_LENGTH_OFFSET :: nat where [simp]: "VSS_DIRENT_META_LENGTH_OFFSET = 1"
definition VSS_DIRENT_META_VALUE_OFFSET :: nat where [simp]: "VSS_DIRENT_META_VALUE_OFFSET = 2"
definition VSS_DIRENT_META_BASE_SIZE :: nat where [simp]: "VSS_DIRENT_META_BASE_SIZE = 2"
definition vss_dirent_metadata_get_type :: "buffer \<Rightarrow> u8 option" where [wire]:
  "vss_dirent_metadata_get_type buf = map_option VPLConv_ntoh_u8 (get_u8 buf VSS_DIRENT_META_TYPE_OFFSET)"

definition vss_dirent_metadata_set_type :: "buffer \<Rightarrow> u8 \<Rightarrow> buffer option" where [wire]:
  "vss_dirent_metadata_set_type buf val = put_u8 buf VSS_DIRENT_META_TYPE_OFFSET (VPLConv_hton_u8 val)"

definition vss_dirent_metadata_get_length :: "buffer \<Rightarrow> u8 option" where [wire]:
  "vss_dirent_metadata_get_length buf = map_option VPLConv_ntoh_u8 (get_u8 buf VSS_DIRENT_META_LENGTH_OFFSET)"

definition vss_dirent_metadata_set_length :: "buffer \<Rightarrow> u8 \<Rightarrow> buffer option" where [wire]:
  "vss_dirent_metadata_set_length buf val = put_u8 buf VSS_DIRENT_META_LENGTH_OFFSET (VPLConv_hton_u8 val)"

definition vss_dirent_metadata_get_value :: "buffer \<Rightarrow> buffer option" where [wire]:
  "vss_dirent_metadata_get_value buf = ptr_at buf VSS_DIRENT_META_VALUE_OFFSET"

definition vss_dirent_metadata_set_value :: "buffer \<Rightarrow> buffer \<Rightarrow> buffer option" where [wire]:
  "vss_dirent_metadata_set_value buf val = do {
     n \<leftarrow> vss_dirent_metadata_get_length buf;
     memcpy_at buf VSS_DIRENT_META_VALUE_OFFSET val (unat n) }"

section \<open>VSS_READ_TRASHCAN\<close>

definition VSS_READ_TRASHCAN_HANDLE_OFFSET :: nat where [simp]: "VSS_READ_TRASHCAN_HANDLE_OFFSET = 0"
definition VSS_READ_TRASHCAN_OBJVER_OFFSET :: nat where [simp]: "VSS_READ_TRASHCAN_OBJVER_OFFSET = 4"
definition VSS_READ_TRASHCAN_BASE_SIZE :: nat where [simp]: "VSS_READ_TRASHCAN_BASE_SIZE = 12"
definition vss_read_trashcan_get_handle :: "buffer \<Rightarrow> u32 option" where [wire]:
  "vss_read_trashcan_get_handle buf = map_option VPLConv_ntoh_u32 (get_host32 buf VSS_READ_TRASHCAN_HANDLE_OFFSET)"

definition vss_read_trashcan_set_handle :: "buffer \<Rightarrow> u32 \<Rightarrow> buffer option" where [wire]:
  "vss_read_trashcan_set_handle buf val = put_host32 buf VSS_READ_TRASHCAN_HANDLE_OFFSET (VPLConv_hton_u32 val)"

definition vss_read_trashcan_get_objver :: "buffer \<Rightarrow> u64 option" where [wire]:
  "vss_read_trashcan_get_objver buf = map_option VPLConv_ntoh_u64 (get_host64 buf VSS_READ_TRASHCAN_OBJVER_OFFSET)"

definition vss_read_trashcan_set_objver :: "buffer \<Rightarrow> u64 \<Rightarrow> buffer option" where [wire]:
  "vss_read_trashcan_set_objver buf val = put_host64 buf VSS_READ_TRASHCAN_OBJVER_OFFSET (VPLConv_hton_u64 val)"

section \<open>VSS_TRASHCAN_RECORD\<close>

definition VSS_TRASHREC_RECVER_OFFSET :: nat where [simp]: "VSS_TRASHREC_RECVER_OFFSET = 0"
definition VSS_TRASHREC_RECIDX_OFFSET :: nat where [simp]: "VSS_TRASHREC_RECIDX_OFFSET = 8"
definition VSS_TRASHREC_SIZE_OFFSET :: nat where [simp]: "VSS_TRASHREC_SIZE_OFFSET = 12"
definition VSS_TRASHREC_CTIME_OFFSET :: nat where [simp]: "VSS_TRASHREC_CTIME_OFFSET = 20"
definition VSS_TRASHREC_MTIME_OFFSET :: nat where [simp]: "VSS_TRASHREC_MTIME_OFFSET = 28"
definition VSS_TRASHREC_DTIME_OFFSET :: nat where [simp]: "VSS_TRASHREC_DTIME_OFFSET = 36"
definition VSS_TRASHREC_IS_DIR_OFFSET :: nat where [simp]: "VSS_TRASHREC_IS_DIR_OFFSET = 44"
definition VSS_TRASHREC_RESERVED_OFFSET :: nat where [simp]: "VSS_TRASHREC_RESERVED_OFFSET = 45"
definition VSS_TRASHREC_NAME_LEN_OFFSET :: nat where [simp]: "VSS_TRASHREC_NAME_LEN_OFFSET = 46"
definition VSS_TRASHREC_NAME_OFFSET :: nat where [simp]: "VSS_TRASHREC_NAME_OFFSET = 48"
definition VSS_TRASHREC_BASE_SIZE :: nat where [simp]: "VSS_TRASHREC_BASE_SIZE = 48"
definition vss_trashrec_get_recver :: "buffer \<Rightarrow> u64 option" where [wire]:
  "vss_trashrec_get_recver buf = map_option VPLConv_ntoh_u64 (get_host64 buf VSS_TRASHREC_RECVER_OFFSET)"

definition vss_trashrec_set_recver :: "buffer \<Rightarrow> u64 \<Rightarrow> buffer option" where [wire]:
  "vss_trashrec_set_recver buf val = put_host64 buf VSS_TRASHREC_RECVER_OFFSET (VPLConv_hton_u64 val)"

definition vss_trashrec_get_recidx :: "buffer \<Rightarrow> u32 option" where [wire]:
  "vss_trashrec_get_recidx buf = map_option VPLConv_ntoh_u32 (get_host32 buf VSS_TRASHREC_RECIDX_OFFSET)"

definition vss_trashrec_set_recidx :: "buffer \<Rightarrow> u32 \<Rightarrow> buffer option" where [wire]:
  "vss_trashrec_set_recidx buf val = put_host32 buf VSS_TRASHREC_RECIDX_OFFSET (VPLConv_hton_u32 val)"

definition vss_trashrec_get_size :: "buffer \<Rightarrow> u64 option" where [wire]:
  "vss_trashrec_get_size buf = map_option VPLConv_ntoh_u64 (get_host64 buf VSS_TRASHREC_SIZE_OFFSET)"

definition vss_trashrec_set_size :: "buffer \<Rightarrow> u64 \<Rightarrow> buffer option" where [wire]:
  "vss_trashrec_set_size buf val = put_host64 buf VSS_TRASHREC_SIZE_OFFSET (VPLConv_hton_u64 val)"

definition vss_trashrec_get_ctime :: "buffer \<Rightarrow> u64 option" where [wire]:
  "vss_trashrec_get_ctime buf = map_option VPLConv_ntoh_u64 (get_host64 buf VSS_TRASHREC_CTIME_OFFSET)"

definition vss_trashrec_set_ctime :: "buffer \<Rightarrow> u64 \<Rightarrow> buffer option" where [wire]:
  "vss_trashrec_set_ctime buf val = put_host64 buf VSS_TRASHREC_CTIME_OFFSET (VPLConv_hton_u64 val)"

definition vss_trashrec_get_mtime :: "buffer \<Rightarrow> u64 option" where [wire]:
  "vss_trashrec_get_mtime buf = map_option VPLConv_ntoh_u64 (get_host64 buf VSS_TRASHREC_MTIME_OFFSET)"

definition vss_trashrec_set_mtime :: "buffer \<Rightarrow> u64 \<Rightarrow> buffer option" where [wire]:
  "vss_trashrec_set_mtime buf val = put_host64 buf VSS_TRASHREC_MTIME_OFFSET (VPLConv_hton_u64 val)"

definition vss_trashrec_get_dtime :: "buffer \<Rightarrow> u64 option" where [wire]:
  "vss_trashrec_get_dtime buf = map_option VPLConv_ntoh_u64 (get_host64 buf VSS_TRASHREC_DTIME_OFFSET)"

definition vss_trashrec_set_dtime :: "buffer \<Rightarrow> u64 \<Rightarrow> buffer option" where [wire]:
  "vss_trashrec_set_dtime buf val = put_host64 buf VSS_TRASHREC_DTIME_OFFSET (VPLConv_hton_u64 val)"

definition vss_trashrec_get_is_dir :: "buffer \<Rightarrow> u8 option" where [wire]:
  "vss_trashrec_get_is_dir buf = map_option VPLConv_ntoh_u8 (get_u8 buf VSS_TRASHREC_IS_DIR_OFFSET)"

definition vss_trashrec_set_is_dir :: "buffer \<Rightarrow> u8 \<Rightarrow> buffer option" where [wire]:
  "vss_trashrec_set_is_dir buf val = put_u8 buf VSS_TRASHREC_IS_DIR_OFFSET (VPLConv_hton_u8 val)"

definition vss_trashrec_set_reserved :: "buffer \<Rightarrow> buffer option" where [wire]:
  "vss_trashrec_set_reserved buf = put_u8 buf VSS_TRASHREC_RESERVED_OFFSET (VPLConv_hton_u8 0)"

definition vss_trashrec_get_name_len :: "buffer \<Rightarrow> u16 option" where [wire]:
  "vss_trashrec_get_name_len buf = map_option VPLConv_ntoh_u16 (get_host16 buf VSS_TRASHREC_NAME_LEN_OFFSET)"

definition vss_trashrec_set_name_len :: "buffer \<Rightarrow> u16 \<Rightarrow> buffer option" where [wire]:
  "vss_trashrec_set_name_len buf val = put_host16 buf VSS_TRASHREC_NAME_LEN_OFFSET (VPLConv_hton_u16 val)"

definition vss_trashrec_get_name :: "buffer \<Rightarrow> buffer option" where [wire]:
  "vss_trashrec_get_name buf = ptr_at buf VSS_TRASHREC_NAME_OFFSET"

definition vss_trashrec_set_name :: "buffer \<Rightarrow> buffer \<Rightarrow> buffer option" where [wire]:
  "vss_trashrec_set_name buf val = do {
     n \<leftarrow> vss_trashrec_get_name_len buf;
     memcpy_at buf VSS_TRASHREC_NAME_OFFSET val (unat n) }"

end
