(* ===== verification/Vss_Comm_Change.thy ===== *)
theory Vss_Comm_Change
  imports Vss_Comm_Header
begin

text \<open>
  Layouts and accessors of the messages that change objects (\<open>vss_comm.h\<close>, lines 2421 to
  4002): write, references, directories, rename, copy, times, size, metadata, trash, space.
\<close>

section \<open>VSS_WRITE\<close>

definition VSS_WRITE_HANDLE_OFFSET :: nat where [simp]: "VSS_WRITE_HANDLE_OFFSET = 0"
definition VSS_WRITE_OBJVER_OFFSET :: nat where [simp]: "VSS_WRITE_OBJVER_OFFSET = 4"
definition VSS_WRITE_OFFSET_OFFSET :: nat where [simp]: "VSS_WRITE_OFFSET_OFFSET = 12"
definition VSS_WRITE_LENGTH_OFFSET :: nat where [simp]: "VSS_WRITE_LENGTH_OFFSET = 20"
definition VSS_WRITE_NAME_LENGTH_OFFSET :: nat where [simp]: "VSS_WRITE_NAME_LENGTH_OFFSET = 24"
definition VSS_WRITE_NAME_OFFSET :: nat where [simp]: "VSS_WRITE_NAME_OFFSET = 26"
definition VSS_WRITE_BASE_SIZE :: nat where [simp]: "VSS_WRITE_BASE_SIZE = 26"
definition vss_write_get_handle :: "buffer \<Rightarrow> u32 option" where [wire]:
  "vss_write_get_handle buf = map_option VPLConv_ntoh_u32 (get_host32 buf VSS_WRITE_HANDLE_OFFSET)"

definition vss_write_set_handle :: "buffer \<Rightarrow> u32 \<Rightarrow> buffer option" where [wire]:
  "vss_write_set_handle buf val = put_host32 buf VSS_WRITE_HANDLE_OFFSET (VPLConv_hton_u32 val)"

definition vss_write_get_objver :: "buffer \<Rightarrow> u64 option" where [wire]:
  "vss_write_get_objver buf = map_option VPLConv_ntoh_u64 (get_host64 buf VSS_WRITE_OBJVER_OFFSET)"

definition vss_write_set_objver :: "buffer \<Rightarrow> u64 \<Rightarrow> buffer option" where [wire]:
  "vss_write_set_objver buf val = put_host64 buf VSS_WRITE_OBJVER_OFFSET (VPLConv_hton_u64 val)"

definition vss_write_get_offset :: "buffer \<Rightarrow> u64 option" where [wire]:
  "vss_write_get_offset buf = map_option VPLConv_ntoh_u64 (get_host64 buf VSS_WRITE_OFFSET_OFFSET)"

definition vss_write_set_offset :: "buffer \<Rightarrow> u64 \<Rightarrow> buffer option" where [wire]:
  "vss_write_set_offset buf val = put_host64 buf VSS_WRITE_OFFSET_OFFSET (VPLConv_hton_u64 val)"

definition vss_write_get_length :: "buffer \<Rightarrow> u32 option" where [wire]:
  "vss_write_get_length buf = map_option VPLConv_ntoh_u32 (get_host32 buf VSS_WRITE_LENGTH_OFFSET)"

definition vss_write_set_length :: "buffer \<Rightarrow> u32 \<Rightarrow> buffer option" where [wire]:
  "vss_write_set_length buf val = put_host32 buf VSS_WRITE_LENGTH_OFFSET (VPLConv_hton_u32 val)"

definition vss_write_get_name_length :: "buffer \<Rightarrow> u16 option" where [wire]:
  "vss_write_get_name_length buf = map_option VPLConv_ntoh_u16 (get_host16 buf VSS_WRITE_NAME_LENGTH_OFFSET)"

definition vss_write_set_name_length :: "buffer \<Rightarrow> u16 \<Rightarrow> buffer option" where [wire]:
  "vss_write_set_name_length buf val = put_host16 buf VSS_WRITE_NAME_LENGTH_OFFSET (VPLConv_hton_u16 val)"

definition vss_write_get_name :: "buffer \<Rightarrow> buffer option" where [wire]:
  "vss_write_get_name buf = ptr_at buf VSS_WRITE_NAME_OFFSET"

definition vss_write_set_name :: "buffer \<Rightarrow> buffer \<Rightarrow> buffer option" where [wire]:
  "vss_write_set_name buf val = do {
     n \<leftarrow> vss_write_get_name_length buf;
     memcpy_at buf VSS_WRITE_NAME_OFFSET val (unat n) }"

definition vss_write_get_data :: "buffer \<Rightarrow> buffer option" where [wire]:
  "vss_write_get_data buf = do {
     n \<leftarrow> vss_write_get_name_length buf;
     ptr_at buf (VSS_WRITE_NAME_OFFSET + unat n) }"

section \<open>VSS_WRITE_REPLY\<close>

definition VSS_WRITER_LENGTH_OFFSET :: nat where [simp]: "VSS_WRITER_LENGTH_OFFSET = 0"
definition VSS_WRITER_OBJVER_OFFSET :: nat where [simp]: "VSS_WRITER_OBJVER_OFFSET = 4"
definition VSS_WRITER_SIZE :: nat where [simp]: "VSS_WRITER_SIZE = 12"
definition vss_write_reply_get_length :: "buffer \<Rightarrow> u32 option" where [wire]:
  "vss_write_reply_get_length buf = map_option VPLConv_ntoh_u32 (get_host32 buf VSS_WRITER_LENGTH_OFFSET)"

definition vss_write_reply_set_length :: "buffer \<Rightarrow> u32 \<Rightarrow> buffer option" where [wire]:
  "vss_write_reply_set_length buf val = put_host32 buf VSS_WRITER_LENGTH_OFFSET (VPLConv_hton_u32 val)"

definition vss_write_reply_get_objver :: "buffer \<Rightarrow> u64 option" where [wire]:
  "vss_write_reply_get_objver buf = map_option VPLConv_ntoh_u64 (get_host64 buf VSS_WRITER_OBJVER_OFFSET)"

definition vss_write_reply_set_objver :: "buffer \<Rightarrow> u64 \<Rightarrow> buffer option" where [wire]:
  "vss_write_reply_set_objver buf val = put_host64 buf VSS_WRITER_OBJVER_OFFSET (VPLConv_hton_u64 val)"

section \<open>VSS_MAKE_REF\<close>

definition VSS_MAKE_REF_HANDLE_OFFSET :: nat where [simp]: "VSS_MAKE_REF_HANDLE_OFFSET = 0"
definition VSS_MAKE_REF_OBJVER_OFFSET :: nat where [simp]: "VSS_MAKE_REF_OBJVER_OFFSET = 4"
definition VSS_MAKE_REF_ID_OFFSET :: nat where [simp]: "VSS_MAKE_REF_ID_OFFSET = 12"
definition VSS_MAKE_REF_NAME_LENGTH_OFFSET :: nat where [simp]: "VSS_MAKE_REF_NAME_LENGTH_OFFSET = 20"
definition VSS_MAKE_REF_NAME_OFFSET :: nat where [simp]: "VSS_MAKE_REF_NAME_OFFSET = 22"
definition VSS_MAKE_REF_BASE_SIZE :: nat where [simp]: "VSS_MAKE_REF_BASE_SIZE = 22"
definition vss_make_ref_get_handle :: "buffer \<Rightarrow> u32 option" where [wire]:
  "vss_make_ref_get_handle buf = map_option VPLConv_ntoh_u32 (get_host32 buf VSS_MAKE_REF_HANDLE_OFFSET)"

definition vss_make_ref_set_handle :: "buffer \<Rightarrow> u32 \<Rightarrow> buffer option" where [wire]:
  "vss_make_ref_set_handle buf val = put_host32 buf VSS_MAKE_REF_HANDLE_OFFSET (VPLConv_hton_u32 val)"

definition vss_make_ref_get_objver :: "buffer \<Rightarrow> u64 option" where [wire]:
  "vss_make_ref_get_objver buf = map_option VPLConv_ntoh_u64 (get_host64 buf VSS_MAKE_REF_OBJVER_OFFSET)"

definition vss_make_ref_set_objver :: "buffer \<Rightarrow> u64 \<Rightarrow> buffer option" where [wire]:
  "vss_make_ref_set_objver buf val = put_host64 buf VSS_MAKE_REF_OBJVER_OFFSET (VPLConv_hton_u64 val)"

definition vss_make_ref_get_id :: "buffer \<Rightarrow> u64 option" where [wire]:
  "vss_make_ref_get_id buf = map_option VPLConv_ntoh_u64 (get_host64 buf VSS_MAKE_REF_ID_OFFSET)"

definition vss_make_ref_set_id :: "buffer \<Rightarrow> u64 \<Rightarrow> buffer option" where [wire]:
  "vss_make_ref_set_id buf val = put_host64 buf VSS_MAKE_REF_ID_OFFSET (VPLConv_hton_u64 val)"

definition vss_make_ref_get_name_length :: "buffer \<Rightarrow> u16 option" where [wire]:
  "vss_make_ref_get_name_length buf = map_option VPLConv_ntoh_u16 (get_host16 buf VSS_MAKE_REF_NAME_LENGTH_OFFSET)"

definition vss_make_ref_set_name_length :: "buffer \<Rightarrow> u16 \<Rightarrow> buffer option" where [wire]:
  "vss_make_ref_set_name_length buf val = put_host16 buf VSS_MAKE_REF_NAME_LENGTH_OFFSET (VPLConv_hton_u16 val)"

definition vss_make_ref_get_name :: "buffer \<Rightarrow> buffer option" where [wire]:
  "vss_make_ref_get_name buf = ptr_at buf VSS_MAKE_REF_NAME_OFFSET"

definition vss_make_ref_set_name :: "buffer \<Rightarrow> buffer \<Rightarrow> buffer option" where [wire]:
  "vss_make_ref_set_name buf val = do {
     n \<leftarrow> vss_make_ref_get_name_length buf;
     memcpy_at buf VSS_MAKE_REF_NAME_OFFSET val (unat n) }"

section \<open>VSS_MAKE_DIR\<close>

definition VSS_MAKE_DIR_HANDLE_OFFSET :: nat where [simp]: "VSS_MAKE_DIR_HANDLE_OFFSET = 0"
definition VSS_MAKE_DIR_OBJVER_OFFSET :: nat where [simp]: "VSS_MAKE_DIR_OBJVER_OFFSET = 4"
definition VSS_MAKE_DIR_NAME_LENGTH_OFFSET :: nat where [simp]: "VSS_MAKE_DIR_NAME_LENGTH_OFFSET = 12"
definition VSS_MAKE_DIR_NAME_OFFSET :: nat where [simp]: "VSS_MAKE_DIR_NAME_OFFSET = 14"
definition VSS_MAKE_DIR_BASE_SIZE :: nat where [simp]: "VSS_MAKE_DIR_BASE_SIZE = 14"
definition vss_make_dir_get_handle :: "buffer \<Rightarrow> u32 option" where [wire]:
  "vss_make_dir_get_handle buf = map_option VPLConv_ntoh_u32 (get_host32 buf VSS_MAKE_DIR_HANDLE_OFFSET)"

definition vss_make_dir_set_handle :: "buffer \<Rightarrow> u32 \<Rightarrow> buffer option" where [wire]:
  "vss_make_dir_set_handle buf val = put_host32 buf VSS_MAKE_DIR_HANDLE_OFFSET (VPLConv_hton_u32 val)"

definition vss_make_dir_get_objver :: "buffer \<Rightarrow> u64 option" where [wire]:
  "vss_make_dir_get_objver buf = map_option VPLConv_ntoh_u64 (get_host64 buf VSS_MAKE_DIR_OBJVER_OFFSET)"

definition vss_make_dir_set_objver :: "buffer \<Rightarrow> u64 \<Rightarrow> buffer option" where [wire]:
  "vss_make_dir_set_objver buf val = put_host64 buf VSS_MAKE_DIR_OBJVER_OFFSET (VPLConv_hton_u64 val)"

definition vss_make_dir_get_name_length :: "buffer \<Rightarrow> u16 option" where [wire]:
  "vss_make_dir_get_name_length buf = map_option VPLConv_ntoh_u16 (get_host16 buf VSS_MAKE_DIR_NAME_LENGTH_OFFSET)"

definition vss_make_dir_set_name_length :: "buffer \<Rightarrow> u16 \<Rightarrow> buffer option" where [wire]:
  "vss_make_dir_set_name_length buf val = put_host16 buf VSS_MAKE_DIR_NAME_LENGTH_OFFSET (VPLConv_hton_u16 val)"

definition vss_make_dir_get_name :: "buffer \<Rightarrow> buffer option" where [wire]:
  "vss_make_dir_get_name buf = ptr_at buf VSS_MAKE_DIR_NAME_OFFSET"

definition vss_make_dir_set_name :: "buffer \<Rightarrow> buffer \<Rightarrow> buffer option" where [wire]:
  "vss_make_dir_set_name buf val = do {
     n \<leftarrow> vss_make_dir_get_name_length buf;
     memcpy_at buf VSS_MAKE_DIR_NAME_OFFSET val (unat n) }"

section \<open>VSS_MAKE_DIR2\<close>

definition VSS_MAKE_DIR2_HANDLE_OFFSET :: nat where [simp]: "VSS_MAKE_DIR2_HANDLE_OFFSET = 0"
definition VSS_MAKE_DIR2_OBJVER_OFFSET :: nat where [simp]: "VSS_MAKE_DIR2_OBJVER_OFFSET = 4"
definition VSS_MAKE_DIR2_ATTRS_OFFSET :: nat where [simp]: "VSS_MAKE_DIR2_ATTRS_OFFSET = 12"
definition VSS_MAKE_DIR2_NAME_LENGTH_OFFSET :: nat where [simp]: "VSS_MAKE_DIR2_NAME_LENGTH_OFFSET = 16"
definition VSS_MAKE_DIR2_NAME_OFFSET :: nat where [simp]: "VSS_MAKE_DIR2_NAME_OFFSET = 18"
definition VSS_MAKE_DIR2_BASE_SIZE :: nat where [simp]: "VSS_MAKE_DIR2_BASE_SIZE = 18"
definition vss_make_dir2_get_handle :: "buffer \<Rightarrow> u32 option" where [wire]:
  "vss_make_dir2_get_handle buf = map_option VPLConv_ntoh_u32 (get_host32 buf VSS_MAKE_DIR2_HANDLE_OFFSET)"

definition vss_make_dir2_set_handle :: "buffer \<Rightarrow> u32 \<Rightarrow> buffer option" where [wire]:
  "vss_make_dir2_set_handle buf val = put_host32 buf VSS_MAKE_DIR2_HANDLE_OFFSET (VPLConv_hton_u32 val)"

definition vss_make_dir2_get_objver :: "buffer \<Rightarrow> u64 option" where [wire]:
  "vss_make_dir2_get_objver buf = map_option VPLConv_ntoh_u64 (get_host64 buf VSS_MAKE_DIR2_OBJVER_OFFSET)"

definition vss_make_dir2_set_objver :: "buffer \<Rightarrow> u64 \<Rightarrow> buffer option" where [wire]:
  "vss_make_dir2_set_objver buf val = put_host64 buf VSS_MAKE_DIR2_OBJVER_OFFSET (VPLConv_hton_u64 val)"

definition vss_make_dir2_get_attrs :: "buffer \<Rightarrow> u32 option" where [wire]:
  "vss_make_dir2_get_attrs buf = map_option VPLConv_ntoh_u32 (get_host32 buf VSS_MAKE_DIR2_ATTRS_OFFSET)"

definition vss_make_dir2_set_attrs :: "buffer \<Rightarrow> u32 \<Rightarrow> buffer option" where [wire]:
  "vss_make_dir2_set_attrs buf val = put_host32 buf VSS_MAKE_DIR2_ATTRS_OFFSET (VPLConv_hton_u32 val)"

definition vss_make_dir2_get_name_length :: "buffer \<Rightarrow> u16 option" where [wire]:
  "vss_make_dir2_get_name_length buf = map_option VPLConv_ntoh_u16 (get_host16 buf VSS_MAKE_DIR2_NAME_LENGTH_OFFSET)"

definition vss_make_dir2_set_name_length :: "buffer \<Rightarrow> u16 \<Rightarrow> buffer option" where [wire]:
  "vss_make_dir2_set_name_length buf val = put_host16 buf VSS_MAKE_DIR2_NAME_LENGTH_OFFSET (VPLConv_hton_u16 val)"

definition vss_make_dir2_get_name :: "buffer \<Rightarrow> buffer option" where [wire]:
  "vss_make_dir2_get_name buf = ptr_at buf VSS_MAKE_DIR2_NAME_OFFSET"

definition vss_make_dir2_set_name :: "buffer \<Rightarrow> buffer \<Rightarrow> buffer option" where [wire]:
  "vss_make_dir2_set_name buf val = do {
     n \<leftarrow> vss_make_dir2_get_name_length buf;
     memcpy_at buf VSS_MAKE_DIR2_NAME_OFFSET val (unat n) }"

section \<open>VSS_REMOVE\<close>

definition VSS_REMOVE_HANDLE_OFFSET :: nat where [simp]: "VSS_REMOVE_HANDLE_OFFSET = 0"
definition VSS_REMOVE_OBJVER_OFFSET :: nat where [simp]: "VSS_REMOVE_OBJVER_OFFSET = 4"
definition VSS_REMOVE_NAME_LENGTH_OFFSET :: nat where [simp]: "VSS_REMOVE_NAME_LENGTH_OFFSET = 12"
definition VSS_REMOVE_NAME_OFFSET :: nat where [simp]: "VSS_REMOVE_NAME_OFFSET = 14"
definition VSS_REMOVE_BASE_SIZE :: nat where [simp]: "VSS_REMOVE_BASE_SIZE = 14"
definition vss_remove_get_handle :: "buffer \<Rightarrow> u32 option" where [wire]:
  "vss_remove_get_handle buf = map_option VPLConv_ntoh_u32 (get_host32 buf VSS_REMOVE_HANDLE_OFFSET)"

definition vss_remove_set_handle :: "buffer \<Rightarrow> u32 \<Rightarrow> buffer option" where [wire]:
  "vss_remove_set_handle buf val = put_host32 buf VSS_REMOVE_HANDLE_OFFSET (VPLConv_hton_u32 val)"

definition vss_remove_get_objver :: "buffer \<Rightarrow> u64 option" where [wire]:
  "vss_remove_get_objver buf = map_option VPLConv_ntoh_u64 (get_host64 buf VSS_REMOVE_OBJVER_OFFSET)"

definition vss_remove_set_objver :: "buffer \<Rightarrow> u64 \<Rightarrow> buffer option" where [wire]:
  "vss_remove_set_objver buf val = put_host64 buf VSS_REMOVE_OBJVER_OFFSET (VPLConv_hton_u64 val)"

definition vss_remove_get_name_length :: "buffer \<Rightarrow> u16 option" where [wire]:
  "vss_remove_get_name_length buf = map_option VPLConv_ntoh_u16 (get_host16 buf VSS_REMOVE_NAME_LENGTH_OFFSET)"

definition vss_remove_set_name_length :: "buffer \<Rightarrow> u16 \<Rightarrow> buffer option" where [wire]:
  "vss_remove_set_name_length buf val = put_host16 buf VSS_REMOVE_NAME_LENGTH_OFFSET (VPLConv_hton_u16 val)"

definition vss_remove_get_name :: "buffer \<Rightarrow> buffer option" where [wire]:
  "vss_remove_get_name buf = ptr_at buf VSS_REMOVE_NAME_OFFSET"

definition vss_remove_set_name :: "buffer \<Rightarrow> buffer \<Rightarrow> buffer option" where [wire]:
  "vss_remove_set_name buf val = do {
     n \<leftarrow> vss_remove_get_name_length buf;
     memcpy_at buf VSS_REMOVE_NAME_OFFSET val (unat n) }"

section \<open>VSS_RENAME\<close>

definition VSS_RENAME_HANDLE_OFFSET :: nat where [simp]: "VSS_RENAME_HANDLE_OFFSET = 0"
definition VSS_RENAME_OBJVER_OFFSET :: nat where [simp]: "VSS_RENAME_OBJVER_OFFSET = 4"
definition VSS_RENAME_NAME_LENGTH_OFFSET :: nat where [simp]: "VSS_RENAME_NAME_LENGTH_OFFSET = 12"
definition VSS_RENAME_NEW_NAME_LENGTH_OFFSET :: nat where [simp]: "VSS_RENAME_NEW_NAME_LENGTH_OFFSET = 14"
definition VSS_RENAME_NAME_OFFSET :: nat where [simp]: "VSS_RENAME_NAME_OFFSET = 16"
definition VSS_RENAME_BASE_SIZE :: nat where [simp]: "VSS_RENAME_BASE_SIZE = 16"
definition vss_rename_get_handle :: "buffer \<Rightarrow> u32 option" where [wire]:
  "vss_rename_get_handle buf = map_option VPLConv_ntoh_u32 (get_host32 buf VSS_RENAME_HANDLE_OFFSET)"

definition vss_rename_set_handle :: "buffer \<Rightarrow> u32 \<Rightarrow> buffer option" where [wire]:
  "vss_rename_set_handle buf val = put_host32 buf VSS_RENAME_HANDLE_OFFSET (VPLConv_hton_u32 val)"

definition vss_rename_get_objver :: "buffer \<Rightarrow> u64 option" where [wire]:
  "vss_rename_get_objver buf = map_option VPLConv_ntoh_u64 (get_host64 buf VSS_RENAME_OBJVER_OFFSET)"

definition vss_rename_set_objver :: "buffer \<Rightarrow> u64 \<Rightarrow> buffer option" where [wire]:
  "vss_rename_set_objver buf val = put_host64 buf VSS_RENAME_OBJVER_OFFSET (VPLConv_hton_u64 val)"

definition vss_rename_get_name_length :: "buffer \<Rightarrow> u16 option" where [wire]:
  "vss_rename_get_name_length buf = map_option VPLConv_ntoh_u16 (get_host16 buf VSS_RENAME_NAME_LENGTH_OFFSET)"

definition vss_rename_set_name_length :: "buffer \<Rightarrow> u16 \<Rightarrow> buffer option" where [wire]:
  "vss_rename_set_name_length buf val = put_host16 buf VSS_RENAME_NAME_LENGTH_OFFSET (VPLConv_hton_u16 val)"

definition vss_rename_get_new_name_length :: "buffer \<Rightarrow> u16 option" where [wire]:
  "vss_rename_get_new_name_length buf = map_option VPLConv_ntoh_u16 (get_host16 buf VSS_RENAME_NEW_NAME_LENGTH_OFFSET)"

definition vss_rename_set_new_name_length :: "buffer \<Rightarrow> u16 \<Rightarrow> buffer option" where [wire]:
  "vss_rename_set_new_name_length buf val = put_host16 buf VSS_RENAME_NEW_NAME_LENGTH_OFFSET (VPLConv_hton_u16 val)"

definition vss_rename_get_name :: "buffer \<Rightarrow> buffer option" where [wire]:
  "vss_rename_get_name buf = ptr_at buf VSS_RENAME_NAME_OFFSET"

definition vss_rename_set_name :: "buffer \<Rightarrow> buffer \<Rightarrow> buffer option" where [wire]:
  "vss_rename_set_name buf val = do {
     n \<leftarrow> vss_rename_get_name_length buf;
     memcpy_at buf VSS_RENAME_NAME_OFFSET val (unat n) }"

definition vss_rename_get_new_name :: "buffer \<Rightarrow> buffer option" where [wire]:
  "vss_rename_get_new_name buf = do {
     n \<leftarrow> vss_rename_get_name_length buf;
     ptr_at buf (VSS_RENAME_NAME_OFFSET + unat n) }"

definition vss_rename_set_new_name :: "buffer \<Rightarrow> buffer \<Rightarrow> buffer option" where [wire]:
  "vss_rename_set_new_name buf val = do {
     k \<leftarrow> vss_rename_get_name_length buf;
     n \<leftarrow> vss_rename_get_new_name_length buf;
     memcpy_at buf (VSS_RENAME_NAME_OFFSET + unat k) val (unat n) }"

section \<open>VSS_RENAME2\<close>

definition VSS_RENAME2_HANDLE_OFFSET :: nat where [simp]: "VSS_RENAME2_HANDLE_OFFSET = 0"
definition VSS_RENAME2_FLAGS_OFFSET :: nat where [simp]: "VSS_RENAME2_FLAGS_OFFSET = 4"
definition VSS_RENAME2_OBJVER_OFFSET :: nat where [simp]: "VSS_RENAME2_OBJVER_OFFSET = 8"
definition VSS_RENAME2_NAME_LENGTH_OFFSET :: nat where [simp]: "VSS_RENAME2_NAME_LENGTH_OFFSET = 16"
definition VSS_RENAME2_NEW_NAME_LENGTH_OFFSET :: nat where [simp]: "VSS_RENAME2_NEW_NAME_LENGTH_OFFSET = 18"
definition VSS_RENAME2_NAME_OFFSET :: nat where [simp]: "VSS_RENAME2_NAME_OFFSET = 20"
definition VSS_RENAME2_BASE_SIZE :: nat where [simp]: "VSS_RENAME2_BASE_SIZE = 20"
definition vss_rename2_get_handle :: "buffer \<Rightarrow> u32 option" where [wire]:
  "vss_rename2_get_handle buf = map_option VPLConv_ntoh_u32 (get_host32 buf VSS_RENAME2_HANDLE_OFFSET)"

definition vss_rename2_set_handle :: "buffer \<Rightarrow> u32 \<Rightarrow> buffer option" where [wire]:
  "vss_rename2_set_handle buf val = put_host32 buf VSS_RENAME2_HANDLE_OFFSET (VPLConv_hton_u32 val)"

definition vss_rename2_get_flags :: "buffer \<Rightarrow> u32 option" where [wire]:
  "vss_rename2_get_flags buf = map_option VPLConv_ntoh_u32 (get_host32 buf VSS_RENAME2_FLAGS_OFFSET)"

definition vss_rename2_set_flags :: "buffer \<Rightarrow> u32 \<Rightarrow> buffer option" where [wire]:
  "vss_rename2_set_flags buf val = put_host32 buf VSS_RENAME2_FLAGS_OFFSET (VPLConv_hton_u32 val)"

definition vss_rename2_get_objver :: "buffer \<Rightarrow> u64 option" where [wire]:
  "vss_rename2_get_objver buf = map_option VPLConv_ntoh_u64 (get_host64 buf VSS_RENAME2_OBJVER_OFFSET)"

definition vss_rename2_set_objver :: "buffer \<Rightarrow> u64 \<Rightarrow> buffer option" where [wire]:
  "vss_rename2_set_objver buf val = put_host64 buf VSS_RENAME2_OBJVER_OFFSET (VPLConv_hton_u64 val)"

definition vss_rename2_get_name_length :: "buffer \<Rightarrow> u16 option" where [wire]:
  "vss_rename2_get_name_length buf = map_option VPLConv_ntoh_u16 (get_host16 buf VSS_RENAME2_NAME_LENGTH_OFFSET)"

definition vss_rename2_set_name_length :: "buffer \<Rightarrow> u16 \<Rightarrow> buffer option" where [wire]:
  "vss_rename2_set_name_length buf val = put_host16 buf VSS_RENAME2_NAME_LENGTH_OFFSET (VPLConv_hton_u16 val)"

definition vss_rename2_get_new_name_length :: "buffer \<Rightarrow> u16 option" where [wire]:
  "vss_rename2_get_new_name_length buf = map_option VPLConv_ntoh_u16 (get_host16 buf VSS_RENAME2_NEW_NAME_LENGTH_OFFSET)"

definition vss_rename2_set_new_name_length :: "buffer \<Rightarrow> u16 \<Rightarrow> buffer option" where [wire]:
  "vss_rename2_set_new_name_length buf val = put_host16 buf VSS_RENAME2_NEW_NAME_LENGTH_OFFSET (VPLConv_hton_u16 val)"

definition vss_rename2_get_name :: "buffer \<Rightarrow> buffer option" where [wire]:
  "vss_rename2_get_name buf = ptr_at buf VSS_RENAME2_NAME_OFFSET"

definition vss_rename2_set_name :: "buffer \<Rightarrow> buffer \<Rightarrow> buffer option" where [wire]:
  "vss_rename2_set_name buf val = do {
     n \<leftarrow> vss_rename2_get_name_length buf;
     memcpy_at buf VSS_RENAME2_NAME_OFFSET val (unat n) }"

definition vss_rename2_get_new_name :: "buffer \<Rightarrow> buffer option" where [wire]:
  "vss_rename2_get_new_name buf = do {
     n \<leftarrow> vss_rename2_get_name_length buf;
     ptr_at buf (VSS_RENAME2_NAME_OFFSET + unat n) }"

definition vss_rename2_set_new_name :: "buffer \<Rightarrow> buffer \<Rightarrow> buffer option" where [wire]:
  "vss_rename2_set_new_name buf val = do {
     k \<leftarrow> vss_rename2_get_name_length buf;
     n \<leftarrow> vss_rename2_get_new_name_length buf;
     memcpy_at buf (VSS_RENAME2_NAME_OFFSET + unat k) val (unat n) }"

section \<open>VSS_COPY\<close>

definition VSS_COPY_HANDLE_OFFSET :: nat where [simp]: "VSS_COPY_HANDLE_OFFSET = 0"
definition VSS_COPY_OBJVER_OFFSET :: nat where [simp]: "VSS_COPY_OBJVER_OFFSET = 4"
definition VSS_COPY_SOURCE_LENGTH_OFFSET :: nat where [simp]: "VSS_COPY_SOURCE_LENGTH_OFFSET = 12"
definition VSS_COPY_DESTINATION_LENGTH_OFFSET :: nat where [simp]: "VSS_COPY_DESTINATION_LENGTH_OFFSET = 14"
definition VSS_COPY_SOURCE_OFFSET :: nat where [simp]: "VSS_COPY_SOURCE_OFFSET = 16"
definition VSS_COPY_BASE_SIZE :: nat where [simp]: "VSS_COPY_BASE_SIZE = 16"
definition vss_copy_get_handle :: "buffer \<Rightarrow> u32 option" where [wire]:
  "vss_copy_get_handle buf = map_option VPLConv_ntoh_u32 (get_host32 buf VSS_COPY_HANDLE_OFFSET)"

definition vss_copy_set_handle :: "buffer \<Rightarrow> u32 \<Rightarrow> buffer option" where [wire]:
  "vss_copy_set_handle buf val = put_host32 buf VSS_COPY_HANDLE_OFFSET (VPLConv_hton_u32 val)"

definition vss_copy_get_objver :: "buffer \<Rightarrow> u64 option" where [wire]:
  "vss_copy_get_objver buf = map_option VPLConv_ntoh_u64 (get_host64 buf VSS_COPY_OBJVER_OFFSET)"

definition vss_copy_set_objver :: "buffer \<Rightarrow> u64 \<Rightarrow> buffer option" where [wire]:
  "vss_copy_set_objver buf val = put_host64 buf VSS_COPY_OBJVER_OFFSET (VPLConv_hton_u64 val)"

definition vss_copy_get_source_length :: "buffer \<Rightarrow> u16 option" where [wire]:
  "vss_copy_get_source_length buf = map_option VPLConv_ntoh_u16 (get_host16 buf VSS_COPY_SOURCE_LENGTH_OFFSET)"

definition vss_copy_set_source_length :: "buffer \<Rightarrow> u16 \<Rightarrow> buffer option" where [wire]:
  "vss_copy_set_source_length buf val = put_host16 buf VSS_COPY_SOURCE_LENGTH_OFFSET (VPLConv_hton_u16 val)"

definition vss_copy_get_destination_length :: "buffer \<Rightarrow> u16 option" where [wire]:
  "vss_copy_get_destination_length buf = map_option VPLConv_ntoh_u16 (get_host16 buf VSS_COPY_DESTINATION_LENGTH_OFFSET)"

definition vss_copy_set_destination_length :: "buffer \<Rightarrow> u16 \<Rightarrow> buffer option" where [wire]:
  "vss_copy_set_destination_length buf val = put_host16 buf VSS_COPY_DESTINATION_LENGTH_OFFSET (VPLConv_hton_u16 val)"

definition vss_copy_get_source :: "buffer \<Rightarrow> buffer option" where [wire]:
  "vss_copy_get_source buf = ptr_at buf VSS_COPY_SOURCE_OFFSET"

definition vss_copy_set_source :: "buffer \<Rightarrow> buffer \<Rightarrow> buffer option" where [wire]:
  "vss_copy_set_source buf val = do {
     n \<leftarrow> vss_copy_get_source_length buf;
     memcpy_at buf VSS_COPY_SOURCE_OFFSET val (unat n) }"

definition vss_copy_get_destination :: "buffer \<Rightarrow> buffer option" where [wire]:
  "vss_copy_get_destination buf = do {
     n \<leftarrow> vss_copy_get_source_length buf;
     ptr_at buf (VSS_COPY_SOURCE_OFFSET + unat n) }"

definition vss_copy_set_destination :: "buffer \<Rightarrow> buffer \<Rightarrow> buffer option" where [wire]:
  "vss_copy_set_destination buf val = do {
     k \<leftarrow> vss_copy_get_source_length buf;
     n \<leftarrow> vss_copy_get_destination_length buf;
     memcpy_at buf (VSS_COPY_SOURCE_OFFSET + unat k) val (unat n) }"

section \<open>VSS_COPY_MATCH\<close>

definition VSS_COPY_MATCH_HANDLE_OFFSET :: nat where [simp]: "VSS_COPY_MATCH_HANDLE_OFFSET = 0"
definition VSS_COPY_MATCH_OBJVER_OFFSET :: nat where [simp]: "VSS_COPY_MATCH_OBJVER_OFFSET = 4"
definition VSS_COPY_MATCH_SIZE_OFFSET :: nat where [simp]: "VSS_COPY_MATCH_SIZE_OFFSET = 12"
definition VSS_COPY_MATCH_DESTINATION_LENGTH_OFFSET :: nat where [simp]: "VSS_COPY_MATCH_DESTINATION_LENGTH_OFFSET = 20"
definition VSS_COPY_MATCH_SIGNATURE_OFFSET :: nat where [simp]: "VSS_COPY_MATCH_SIGNATURE_OFFSET = 22"
definition VSS_COPY_MATCH_SIGNATURE_SIZE :: nat where [simp]: "VSS_COPY_MATCH_SIGNATURE_SIZE = 20"
definition VSS_COPY_MATCH_DESTINATION_OFFSET :: nat where [simp]: "VSS_COPY_MATCH_DESTINATION_OFFSET = 42"
definition VSS_COPY_MATCH_BASE_SIZE :: nat where [simp]: "VSS_COPY_MATCH_BASE_SIZE = 42"
definition vss_copy_match_get_handle :: "buffer \<Rightarrow> u32 option" where [wire]:
  "vss_copy_match_get_handle buf = map_option VPLConv_ntoh_u32 (get_host32 buf VSS_COPY_MATCH_HANDLE_OFFSET)"

definition vss_copy_match_set_handle :: "buffer \<Rightarrow> u32 \<Rightarrow> buffer option" where [wire]:
  "vss_copy_match_set_handle buf val = put_host32 buf VSS_COPY_MATCH_HANDLE_OFFSET (VPLConv_hton_u32 val)"

definition vss_copy_match_get_objver :: "buffer \<Rightarrow> u64 option" where [wire]:
  "vss_copy_match_get_objver buf = map_option VPLConv_ntoh_u64 (get_host64 buf VSS_COPY_MATCH_OBJVER_OFFSET)"

definition vss_copy_match_set_objver :: "buffer \<Rightarrow> u64 \<Rightarrow> buffer option" where [wire]:
  "vss_copy_match_set_objver buf val = put_host64 buf VSS_COPY_MATCH_OBJVER_OFFSET (VPLConv_hton_u64 val)"

definition vss_copy_match_get_size :: "buffer \<Rightarrow> u64 option" where [wire]:
  "vss_copy_match_get_size buf = map_option VPLConv_ntoh_u64 (get_host64 buf VSS_COPY_MATCH_SIZE_OFFSET)"

definition vss_copy_match_set_size :: "buffer \<Rightarrow> u64 \<Rightarrow> buffer option" where [wire]:
  "vss_copy_match_set_size buf val = put_host64 buf VSS_COPY_MATCH_SIZE_OFFSET (VPLConv_hton_u64 val)"

definition vss_copy_match_get_destination_length :: "buffer \<Rightarrow> u16 option" where [wire]:
  "vss_copy_match_get_destination_length buf = map_option VPLConv_ntoh_u16 (get_host16 buf VSS_COPY_MATCH_DESTINATION_LENGTH_OFFSET)"

definition vss_copy_match_set_destination_length :: "buffer \<Rightarrow> u16 \<Rightarrow> buffer option" where [wire]:
  "vss_copy_match_set_destination_length buf val = put_host16 buf VSS_COPY_MATCH_DESTINATION_LENGTH_OFFSET (VPLConv_hton_u16 val)"

definition vss_copy_match_get_signature :: "buffer \<Rightarrow> buffer option" where [wire]:
  "vss_copy_match_get_signature buf = ptr_at buf VSS_COPY_MATCH_SIGNATURE_OFFSET"

definition vss_copy_match_set_signature :: "buffer \<Rightarrow> buffer \<Rightarrow> buffer option" where [wire]:
  "vss_copy_match_set_signature buf val = memcpy_at buf VSS_COPY_MATCH_SIGNATURE_OFFSET val VSS_COPY_MATCH_SIGNATURE_SIZE"

definition vss_copy_match_get_destination :: "buffer \<Rightarrow> buffer option" where [wire]:
  "vss_copy_match_get_destination buf = ptr_at buf VSS_COPY_MATCH_DESTINATION_OFFSET"

definition vss_copy_match_set_destination :: "buffer \<Rightarrow> buffer \<Rightarrow> buffer option" where [wire]:
  "vss_copy_match_set_destination buf val = do {
     n \<leftarrow> vss_copy_match_get_destination_length buf;
     memcpy_at buf VSS_COPY_MATCH_DESTINATION_OFFSET val (unat n) }"

section \<open>VSS_SET_TIMES\<close>

definition VSS_SET_TIMES_HANDLE_OFFSET :: nat where [simp]: "VSS_SET_TIMES_HANDLE_OFFSET = 0"
definition VSS_SET_TIMES_OBJVER_OFFSET :: nat where [simp]: "VSS_SET_TIMES_OBJVER_OFFSET = 4"
definition VSS_SET_TIMES_CTIME_OFFSET :: nat where [simp]: "VSS_SET_TIMES_CTIME_OFFSET = 12"
definition VSS_SET_TIMES_MTIME_OFFSET :: nat where [simp]: "VSS_SET_TIMES_MTIME_OFFSET = 20"
definition VSS_SET_TIMES_NAME_LENGTH_OFFSET :: nat where [simp]: "VSS_SET_TIMES_NAME_LENGTH_OFFSET = 28"
definition VSS_SET_TIMES_NAME_OFFSET :: nat where [simp]: "VSS_SET_TIMES_NAME_OFFSET = 30"
definition VSS_SET_TIMES_BASE_SIZE :: nat where [simp]: "VSS_SET_TIMES_BASE_SIZE = 30"
definition vss_set_times_get_handle :: "buffer \<Rightarrow> u32 option" where [wire]:
  "vss_set_times_get_handle buf = map_option VPLConv_ntoh_u32 (get_host32 buf VSS_SET_TIMES_HANDLE_OFFSET)"

definition vss_set_times_set_handle :: "buffer \<Rightarrow> u32 \<Rightarrow> buffer option" where [wire]:
  "vss_set_times_set_handle buf val = put_host32 buf VSS_SET_TIMES_HANDLE_OFFSET (VPLConv_hton_u32 val)"

definition vss_set_times_get_objver :: "buffer \<Rightarrow> u64 option" where [wire]:
  "vss_set_times_get_objver buf = map_option VPLConv_ntoh_u64 (get_host64 buf VSS_SET_TIMES_OBJVER_OFFSET)"

definition vss_set_times_set_objver :: "buffer \<Rightarrow> u64 \<Rightarrow> buffer option" where [wire]:
  "vss_set_times_set_objver buf val = put_host64 buf VSS_SET_TIMES_OBJVER_OFFSET (VPLConv_hton_u64 val)"

definition vss_set_times_get_ctime :: "buffer \<Rightarrow> u64 option" where [wire]:
  "vss_set_times_get_ctime buf = map_option VPLConv_ntoh_u64 (get_host64 buf VSS_SET_TIMES_CTIME_OFFSET)"

definition vss_set_times_set_ctime :: "buffer \<Rightarrow> u64 \<Rightarrow> buffer option" where [wire]:
  "vss_set_times_set_ctime buf val = put_host64 buf VSS_SET_TIMES_CTIME_OFFSET (VPLConv_hton_u64 val)"

definition vss_set_times_get_mtime :: "buffer \<Rightarrow> u64 option" where [wire]:
  "vss_set_times_get_mtime buf = map_option VPLConv_ntoh_u64 (get_host64 buf VSS_SET_TIMES_MTIME_OFFSET)"

definition vss_set_times_set_mtime :: "buffer \<Rightarrow> u64 \<Rightarrow> buffer option" where [wire]:
  "vss_set_times_set_mtime buf val = put_host64 buf VSS_SET_TIMES_MTIME_OFFSET (VPLConv_hton_u64 val)"

definition vss_set_times_get_name_length :: "buffer \<Rightarrow> u16 option" where [wire]:
  "vss_set_times_get_name_length buf = map_option VPLConv_ntoh_u16 (get_host16 buf VSS_SET_TIMES_NAME_LENGTH_OFFSET)"

definition vss_set_times_set_name_length :: "buffer \<Rightarrow> u16 \<Rightarrow> buffer option" where [wire]:
  "vss_set_times_set_name_length buf val = put_host16 buf VSS_SET_TIMES_NAME_LENGTH_OFFSET (VPLConv_hton_u16 val)"

definition vss_set_times_get_name :: "buffer \<Rightarrow> buffer option" where [wire]:
  "vss_set_times_get_name buf = ptr_at buf VSS_SET_TIMES_NAME_OFFSET"

definition vss_set_times_set_name :: "buffer \<Rightarrow> buffer \<Rightarrow> buffer option" where [wire]:
  "vss_set_times_set_name buf val = do {
     n \<leftarrow> vss_set_times_get_name_length buf;
     memcpy_at buf VSS_SET_TIMES_NAME_OFFSET val (unat n) }"

section \<open>VSS_SET_SIZE\<close>

definition VSS_SET_SIZE_SIZE_OFFSET :: nat where [simp]: "VSS_SET_SIZE_SIZE_OFFSET = 0"
definition VSS_SET_SIZE_HANDLE_OFFSET :: nat where [simp]: "VSS_SET_SIZE_HANDLE_OFFSET = 8"
definition VSS_SET_SIZE_OBJVER_OFFSET :: nat where [simp]: "VSS_SET_SIZE_OBJVER_OFFSET = 12"
definition VSS_SET_SIZE_NAME_LENGTH_OFFSET :: nat where [simp]: "VSS_SET_SIZE_NAME_LENGTH_OFFSET = 20"
definition VSS_SET_SIZE_NAME_OFFSET :: nat where [simp]: "VSS_SET_SIZE_NAME_OFFSET = 22"
definition VSS_SET_SIZE_BASE_SIZE :: nat where [simp]: "VSS_SET_SIZE_BASE_SIZE = 22"
definition vss_set_size_get_handle :: "buffer \<Rightarrow> u32 option" where [wire]:
  "vss_set_size_get_handle buf = map_option VPLConv_ntoh_u32 (get_host32 buf VSS_SET_SIZE_HANDLE_OFFSET)"

definition vss_set_size_set_handle :: "buffer \<Rightarrow> u32 \<Rightarrow> buffer option" where [wire]:
  "vss_set_size_set_handle buf val = put_host32 buf VSS_SET_SIZE_HANDLE_OFFSET (VPLConv_hton_u32 val)"

definition vss_set_size_get_objver :: "buffer \<Rightarrow> u64 option" where [wire]:
  "vss_set_size_get_objver buf = map_option VPLConv_ntoh_u64 (get_host64 buf VSS_SET_SIZE_OBJVER_OFFSET)"

definition vss_set_size_set_objver :: "buffer \<Rightarrow> u64 \<Rightarrow> buffer option" where [wire]:
  "vss_set_size_set_objver buf val = put_host64 buf VSS_SET_SIZE_OBJVER_OFFSET (VPLConv_hton_u64 val)"

definition vss_set_size_get_size :: "buffer \<Rightarrow> u64 option" where [wire]:
  "vss_set_size_get_size buf = map_option VPLConv_ntoh_u64 (get_host64 buf VSS_SET_SIZE_SIZE_OFFSET)"

definition vss_set_size_set_size :: "buffer \<Rightarrow> u64 \<Rightarrow> buffer option" where [wire]:
  "vss_set_size_set_size buf val = put_host64 buf VSS_SET_SIZE_SIZE_OFFSET (VPLConv_hton_u64 val)"

definition vss_set_size_get_name_length :: "buffer \<Rightarrow> u16 option" where [wire]:
  "vss_set_size_get_name_length buf = map_option VPLConv_ntoh_u16 (get_host16 buf VSS_SET_SIZE_NAME_LENGTH_OFFSET)"

definition vss_set_size_set_name_length :: "buffer \<Rightarrow> u16 \<Rightarrow> buffer option" where [wire]:
  "vss_set_size_set_name_length buf val = put_host16 buf VSS_SET_SIZE_NAME_LENGTH_OFFSET (VPLConv_hton_u16 val)"

definition vss_set_size_get_name :: "buffer \<Rightarrow> buffer option" where [wire]:
  "vss_set_size_get_name buf = ptr_at buf VSS_SET_SIZE_NAME_OFFSET"

definition vss_set_size_set_name :: "buffer \<Rightarrow> buffer \<Rightarrow> buffer option" where [wire]:
  "vss_set_size_set_name buf val = do {
     n \<leftarrow> vss_set_size_get_name_length buf;
     memcpy_at buf VSS_SET_SIZE_NAME_OFFSET val (unat n) }"

section \<open>VSS_SET_METADATA\<close>

definition VSS_SET_METADATA_HANDLE_OFFSET :: nat where [simp]: "VSS_SET_METADATA_HANDLE_OFFSET = 0"
definition VSS_SET_METADATA_OBJVER_OFFSET :: nat where [simp]: "VSS_SET_METADATA_OBJVER_OFFSET = 4"
definition VSS_SET_METADATA_TYPE_OFFSET :: nat where [simp]: "VSS_SET_METADATA_TYPE_OFFSET = 12"
definition VSS_SET_METADATA_LENGTH_OFFSET :: nat where [simp]: "VSS_SET_METADATA_LENGTH_OFFSET = 13"
definition VSS_SET_METADATA_NAME_LENGTH_OFFSET :: nat where [simp]: "VSS_SET_METADATA_NAME_LENGTH_OFFSET = 14"
definition VSS_SET_METADATA_NAME_OFFSET :: nat where [simp]: "VSS_SET_METADATA_NAME_OFFSET = 16"
definition VSS_SET_METADATA_BASE_SIZE :: nat where [simp]: "VSS_SET_METADATA_BASE_SIZE = 16"
definition vss_set_metadata_get_handle :: "buffer \<Rightarrow> u32 option" where [wire]:
  "vss_set_metadata_get_handle buf = map_option VPLConv_ntoh_u32 (get_host32 buf VSS_SET_METADATA_HANDLE_OFFSET)"

definition vss_set_metadata_set_handle :: "buffer \<Rightarrow> u32 \<Rightarrow> buffer option" where [wire]:
  "vss_set_metadata_set_handle buf val = put_host32 buf VSS_SET_METADATA_HANDLE_OFFSET (VPLConv_hton_u32 val)"

definition vss_set_metadata_get_objver :: "buffer \<Rightarrow> u64 option" where [wire]:
  "vss_set_metadata_get_objver buf = map_option VPLConv_ntoh_u64 (get_host64 buf VSS_SET_METADATA_OBJVER_OFFSET)"

definition vss_set_metadata_set_objver :: "buffer \<Rightarrow> u64 \<Rightarrow> buffer option" where [wire]:
  "vss_set_metadata_set_objver buf val = put_host64 buf VSS_SET_METADATA_OBJVER_OFFSET (VPLConv_hton_u64 val)"

definition vss_set_metadata_get_type :: "buffer \<Rightarrow> u8 option" where [wire]:
  "vss_set_metadata_get_type buf = map_option VPLConv_ntoh_u8 (get_u8 buf VSS_SET_METADATA_TYPE_OFFSET)"

definition vss_set_metadata_set_type :: "buffer \<Rightarrow> u8 \<Rightarrow> buffer option" where [wire]:
  "vss_set_metadata_set_type buf val = put_u8 buf VSS_SET_METADATA_TYPE_OFFSET (VPLConv_hton_u8 val)"

definition vss_set_metadata_get_length :: "buffer \<Rightarrow> u8 option" where [wire]:
  "vss_set_metadata_get_length buf = map_option VPLConv_ntoh_u8 (get_u8 buf VSS_SET_METADATA_LENGTH_OFFSET)"

definition vss_set_metadata_set_length :: "buffer \<Rightarrow> u8 \<Rightarrow> buffer option" where [wire]:
  "vss_set_metadata_set_length buf val = put_u8 buf VSS_SET_METADATA_LENGTH_OFFSET (VPLConv_hton_u8 val)"

definition vss_set_metadata_get_name_length :: "buffer \<Rightarrow> u16 option" where [wire]:
  "vss_set_metadata_get_name_length buf = map_option VPLConv_ntoh_u16 (get_host16 buf VSS_SET_METADATA_NAME_LENGTH_OFFSET)"

definition vss_set_metadata_set_name_length :: "buffer \<Rightarrow> u16 \<Rightarrow> buffer option" where [wire]:
  "vss_set_metadata_set_name_length buf val = put_host16 buf VSS_SET_METADATA_NAME_LENGTH_OFFSET (VPLConv_hton_u16 val)"

definition vss_set_metadata_get_name :: "buffer \<Rightarrow> buffer option" where [wire]:
  "vss_set_metadata_get_name buf = ptr_at buf VSS_SET_METADATA_NAME_OFFSET"

definition vss_set_metadata_set_name :: "buffer \<Rightarrow> buffer \<Rightarrow> buffer option" where [wire]:
  "vss_set_metadata_set_name buf val = do {
     n \<leftarrow> vss_set_metadata_get_name_length buf;
     memcpy_at buf VSS_SET_METADATA_NAME_OFFSET val (unat n) }"

definition vss_set_metadata_get_value :: "buffer \<Rightarrow> buffer option" where [wire]:
  "vss_set_metadata_get_value buf = do {
     n \<leftarrow> vss_set_metadata_get_name_length buf;
     ptr_at buf (VSS_SET_METADATA_NAME_OFFSET + unat n) }"

definition vss_set_metadata_set_value :: "buffer \<Rightarrow> buffer \<Rightarrow> buffer option" where [wire]:
  "vss_set_metadata_set_value buf val = do {
     k \<leftarrow> vss_set_metadata_get_name_length buf;
     n \<leftarrow> vss_set_metadata_get_length buf;
     memcpy_at buf (VSS_SET_METADATA_NAME_OFFSET + unat k) val (unat n) }"

section \<open>VSS_EMPTY_TRASH\<close>

definition VSS_EMPTY_TRASH_HANDLE_OFFSET :: nat where [simp]: "VSS_EMPTY_TRASH_HANDLE_OFFSET = 0"
definition VSS_EMPTY_TRASH_OBJVER_OFFSET :: nat where [simp]: "VSS_EMPTY_TRASH_OBJVER_OFFSET = 4"
definition VSS_EMPTY_TRASH_BASE_SIZE :: nat where [simp]: "VSS_EMPTY_TRASH_BASE_SIZE = 12"
definition vss_empty_trash_get_handle :: "buffer \<Rightarrow> u32 option" where [wire]:
  "vss_empty_trash_get_handle buf = map_option VPLConv_ntoh_u32 (get_host32 buf VSS_EMPTY_TRASH_HANDLE_OFFSET)"

definition vss_empty_trash_set_handle :: "buffer \<Rightarrow> u32 \<Rightarrow> buffer option" where [wire]:
  "vss_empty_trash_set_handle buf val = put_host32 buf VSS_EMPTY_TRASH_HANDLE_OFFSET (VPLConv_hton_u32 val)"

definition vss_empty_trash_get_objver :: "buffer \<Rightarrow> u64 option" where [wire]:
  "vss_empty_trash_get_objver buf = map_option VPLConv_ntoh_u64 (get_host64 buf VSS_EMPTY_TRASH_OBJVER_OFFSET)"

definition vss_empty_trash_set_objver :: "buffer \<Rightarrow> u64 \<Rightarrow> buffer option" where [wire]:
  "vss_empty_trash_set_objver buf val = put_host64 buf VSS_EMPTY_TRASH_OBJVER_OFFSET (VPLConv_hton_u64 val)"

section \<open>VSS_DELETE_TRASH\<close>

definition VSS_DELETE_TRASH_HANDLE_OFFSET :: nat where [simp]: "VSS_DELETE_TRASH_HANDLE_OFFSET = 0"
definition VSS_DELETE_TRASH_OBJVER_OFFSET :: nat where [simp]: "VSS_DELETE_TRASH_OBJVER_OFFSET = 4"
definition VSS_DELETE_TRASH_RECVER_OFFSET :: nat where [simp]: "VSS_DELETE_TRASH_RECVER_OFFSET = 12"
definition VSS_DELETE_TRASH_RECIDX_OFFSET :: nat where [simp]: "VSS_DELETE_TRASH_RECIDX_OFFSET = 20"
definition VSS_DELETE_TRASH_BASE_SIZE :: nat where [simp]: "VSS_DELETE_TRASH_BASE_SIZE = 24"
definition vss_delete_trash_get_handle :: "buffer \<Rightarrow> u32 option" where [wire]:
  "vss_delete_trash_get_handle buf = map_option VPLConv_ntoh_u32 (get_host32 buf VSS_DELETE_TRASH_HANDLE_OFFSET)"

definition vss_delete_trash_set_handle :: "buffer \<Rightarrow> u32 \<Rightarrow> buffer option" where [wire]:
  "vss_delete_trash_set_handle buf val = put_host32 buf VSS_DELETE_TRASH_HANDLE_OFFSET (VPLConv_hton_u32 val)"

definition vss_delete_trash_get_objver :: "buffer \<Rightarrow> u64 option" where [wire]:
  "vss_delete_trash_get_objver buf = map_option VPLConv_ntoh_u64 (get_host64 buf VSS_DELETE_TRASH_OBJVER_OFFSET)"

definition vss_delete_trash_set_objver :: "buffer \<Rightarrow> u64 \<Rightarrow> buffer option" where [wire]:
  "vss_delete_trash_set_objver buf val = put_host64 buf VSS_DELETE_TRASH_OBJVER_OFFSET (VPLConv_hton_u64 val)"

definition vss_delete_trash_get_recver :: "buffer \<Rightarrow> u64 option" where [wire]:
  "vss_delete_trash_get_recver buf = map_option VPLConv_ntoh_u64 (get_host64 buf VSS_DELETE_TRASH_RECVER_OFFSET)"

definition vss_delete_trash_set_recver :: "buffer \<Rightarrow> u64 \<Rightarrow> buffer option" where [wire]:
  "vss_delete_trash_set_recver buf val = put_host64 buf VSS_DELETE_TRASH_RECVER_OFFSET (VPLConv_hton_u64 val)"

definition vss_delete_trash_get_recidx :: "buffer \<Rightarrow> u32 option" where [wire]:
  "vss_delete_trash_get_recidx buf = map_option VPLConv_ntoh_u32 (get_host32 buf VSS_DELETE_TRASH_RECIDX_OFFSET)"

definition vss_delete_trash_set_recidx :: "buffer \<Rightarrow> u32 \<Rightarrow> buffer option" where [wire]:
  "vss_delete_trash_set_recidx buf val = put_host32 buf VSS_DELETE_TRASH_RECIDX_OFFSET (VPLConv_hton_u32 val)"

section \<open>VSS_RESTORE_TRASH\<close>

definition VSS_RESTORE_TRASH_HANDLE_OFFSET :: nat where [simp]: "VSS_RESTORE_TRASH_HANDLE_OFFSET = 0"
definition VSS_RESTORE_TRASH_OBJVER_OFFSET :: nat where [simp]: "VSS_RESTORE_TRASH_OBJVER_OFFSET = 4"
definition VSS_RESTORE_TRASH_RECVER_OFFSET :: nat where [simp]: "VSS_RESTORE_TRASH_RECVER_OFFSET = 12"
definition VSS_RESTORE_TRASH_RECIDX_OFFSET :: nat where [simp]: "VSS_RESTORE_TRASH_RECIDX_OFFSET = 20"
definition VSS_RESTORE_TRASH_NAME_LENGTH_OFFSET :: nat where [simp]: "VSS_RESTORE_TRASH_NAME_LENGTH_OFFSET = 24"
definition VSS_RESTORE_TRASH_NAME_OFFSET :: nat where [simp]: "VSS_RESTORE_TRASH_NAME_OFFSET = 26"
definition VSS_RESTORE_TRASH_BASE_SIZE :: nat where [simp]: "VSS_RESTORE_TRASH_BASE_SIZE = 26"
definition vss_restore_trash_get_handle :: "buffer \<Rightarrow> u32 option" where [wire]:
  "vss_restore_trash_get_handle buf = map_option VPLConv_ntoh_u32 (get_host32 buf VSS_RESTORE_TRASH_HANDLE_OFFSET)"

definition vss_restore_trash_set_handle :: "buffer \<Rightarrow> u32 \<Rightarrow> buffer option" where [wire]:
  "vss_restore_trash_set_handle buf val = put_host32 buf VSS_RESTORE_TRASH_HANDLE_OFFSET (VPLConv_hton_u32 val)"

definition vss_restore_trash_get_objver :: "buffer \<Rightarrow> u64 option" where [wire]:
  "vss_restore_trash_get_objver buf = map_option VPLConv_ntoh_u64 (get_host64 buf VSS_RESTORE_TRASH_OBJVER_OFFSET)"

definition vss_restore_trash_set_objver :: "buffer \<Rightarrow> u64 \<Rightarrow> buffer option" where [wire]:
  "vss_restore_trash_set_objver buf val = put_host64 buf VSS_RESTORE_TRASH_OBJVER_OFFSET (VPLConv_hton_u64 val)"

definition vss_restore_trash_get_recver :: "buffer \<Rightarrow> u64 option" where [wire]:
  "vss_restore_trash_get_recver buf = map_option VPLConv_ntoh_u64 (get_host64 buf VSS_RESTORE_TRASH_RECVER_OFFSET)"

definition vss_restore_trash_set_recver :: "buffer \<Rightarrow> u64 \<Rightarrow> buffer option" where [wire]:
  "vss_restore_trash_set_recver buf val = put_host64 buf VSS_RESTORE_TRASH_RECVER_OFFSET (VPLConv_hton_u64 val)"

definition vss_restore_trash_get_recidx :: "buffer \<Rightarrow> u32 option" where [wire]:
  "vss_restore_trash_get_recidx buf = map_option VPLConv_ntoh_u32 (get_host32 buf VSS_RESTORE_TRASH_RECIDX_OFFSET)"

definition vss_restore_trash_set_recidx :: "buffer \<Rightarrow> u32 \<Rightarrow> buffer option" where [wire]:
  "vss_restore_trash_set_recidx buf val = put_host32 buf VSS_RESTORE_TRASH_RECIDX_OFFSET (VPLConv_hton_u32 val)"

definition vss_restore_trash_get_name_length :: "buffer \<Rightarrow> u16 option" where [wire]:
  "vss_restore_trash_get_name_length buf = map_option VPLConv_ntoh_u16 (get_host16 buf VSS_RESTORE_TRASH_NAME_LENGTH_OFFSET)"

definition vss_restore_trash_set_name_length :: "buffer \<Rightarrow> u16 \<Rightarrow> buffer option" where [wire]:
  "vss_restore_trash_set_name_length buf val = put_host16 buf VSS_RESTORE_TRASH_NAME_LENGTH_OFFSET (VPLConv_hton_u16 val)"

definition vss_restore_trash_get_name :: "buffer \<Rightarrow> buffer option" where [wire]:
  "vss_restore_trash_get_name buf = ptr_at buf VSS_RESTORE_TRASH_NAME_OFFSET"

definition vss_restore_trash_set_name :: "buffer \<Rightarrow> buffer \<Rightarrow> buffer option" where [wire]:
  "vss_restore_trash_set_name buf val = do {
     n \<leftarrow> vss_restore_trash_get_name_length buf;
     memcpy_at buf VSS_RESTORE_TRASH_NAME_OFFSET val (unat n) }"

section \<open>VSS_GET_SPACE\<close>

definition VSS_GET_SPACE_HANDLE_OFFSET :: nat where [simp]: "VSS_GET_SPACE_HANDLE_OFFSET = 0"
definition VSS_GET_SPACE_SIZE :: nat where [simp]: "VSS_GET_SPACE_SIZE = 4"
definition vss_get_space_get_handle :: "buffer \<Rightarrow> u32 option" where [wire]:
  "vss_get_space_get_handle buf = map_option VPLConv_ntoh_u32 (get_host32 buf VSS_GET_SPACE_HANDLE_OFFSET)"

definition vss_get_space_set_handle :: "buffer \<Rightarrow> u32 \<Rightarrow> buffer option" where [wire]:
  "vss_get_space_set_handle buf val = put_host32 buf VSS_GET_SPACE_HANDLE_OFFSET (VPLConv_hton_u32 val)"

section \<open>VSS_GET_SPACE_REPLY\<close>

definition VSS_GET_SPACER_DISK_SIZE_OFFSET :: nat where [simp]: "VSS_GET_SPACER_DISK_SIZE_OFFSET = 0"
definition VSS_GET_SPACER_DATASET_SIZE_OFFSET :: nat where [simp]: "VSS_GET_SPACER_DATASET_SIZE_OFFSET = 8"
definition VSS_GET_SPACER_AVAIL_SIZE_OFFSET :: nat where [simp]: "VSS_GET_SPACER_AVAIL_SIZE_OFFSET = 16"
definition VSS_GET_SPACER_SIZE :: nat where [simp]: "VSS_GET_SPACER_SIZE = 24"
definition vss_get_space_reply_get_disk_size :: "buffer \<Rightarrow> u64 option" where [wire]:
  "vss_get_space_reply_get_disk_size buf = map_option VPLConv_ntoh_u64 (get_host64 buf VSS_GET_SPACER_DISK_SIZE_OFFSET)"

definition vss_get_space_reply_set_disk_size :: "buffer \<Rightarrow> u64 \<Rightarrow> buffer option" where [wire]:
  "vss_get_space_reply_set_disk_size buf val = put_host64 buf VSS_GET_SPACER_DISK_SIZE_OFFSET (VPLConv_hton_u64 val)"

definition vss_get_space_reply_get_dataset_size :: "buffer \<Rightarrow> u64 option" where [wire]:
  "vss_get_space_reply_get_dataset_size buf = map_option VPLConv_ntoh_u64 (get_host64 buf VSS_GET_SPACER_DATASET_SIZE_OFFSET)"

definition vss_get_space_reply_set_dataset_size :: "buffer \<Rightarrow> u64 \<Rightarrow> buffer option" where [wire]:
  "vss_get_space_reply_set_dataset_size buf val = put_host64 buf VSS_GET_SPACER_DATASET_SIZE_OFFSET (VPLConv_hton_u64 val)"

definition vss_get_space_reply_get_avail_size :: "buffer \<Rightarrow> u64 option" where [wire]:
  "vss_get_space_reply_get_avail_size buf = map_option VPLConv_ntoh_u64 (get_host64 buf VSS_GET_SPACER_AVAIL_SIZE_OFFSET)"

definition vss_get_space_reply_set_avail_size :: "buffer \<Rightarrow> u64 \<Rightarrow> buffer option" where [wire]:
  "vss_get_space_reply_set_avail_size buf val = put_host64 buf VSS_GET_SPACER_AVAIL_SIZE_OFFSET (VPLConv_hton_u64 val)"

end
