(* ===== verification/Vss_Comm_File.thy ===== *)
theory Vss_Comm_File
  imports Vss_Comm_Header
begin

text \<open>
  Layouts and accessors of the file-handle, lock, notification, negotiation, authentication,
  tunnel and proxy messages (\<open>vss_comm.h\<close>, lines 4003 to 5600).
\<close>

section \<open>VSS_SET_LOCK\<close>

definition VSS_SET_LOCK_MODE_OFFSET :: nat where [simp]: "VSS_SET_LOCK_MODE_OFFSET = 0"
definition VSS_SET_LOCK_OBJHANDLE_OFFSET :: nat where [simp]: "VSS_SET_LOCK_OBJHANDLE_OFFSET = 8"
definition VSS_SET_LOCK_FHANDLE_OFFSET :: nat where [simp]: "VSS_SET_LOCK_FHANDLE_OFFSET = 12"
definition VSS_SET_LOCK_SIZE :: nat where [simp]: "VSS_SET_LOCK_SIZE = 16"
definition vss_set_lock_get_mode :: "buffer \<Rightarrow> u64 option" where [wire]:
  "vss_set_lock_get_mode buf = map_option VPLConv_ntoh_u64 (get_host64 buf VSS_SET_LOCK_MODE_OFFSET)"

definition vss_set_lock_set_mode :: "buffer \<Rightarrow> u64 \<Rightarrow> buffer option" where [wire]:
  "vss_set_lock_set_mode buf val = put_host64 buf VSS_SET_LOCK_MODE_OFFSET (VPLConv_hton_u64 val)"

definition vss_set_lock_get_objhandle :: "buffer \<Rightarrow> u32 option" where [wire]:
  "vss_set_lock_get_objhandle buf = map_option VPLConv_ntoh_u32 (get_host32 buf VSS_SET_LOCK_OBJHANDLE_OFFSET)"

definition vss_set_lock_set_objhandle :: "buffer \<Rightarrow> u32 \<Rightarrow> buffer option" where [wire]:
  "vss_set_lock_set_objhandle buf val = put_host32 buf VSS_SET_LOCK_OBJHANDLE_OFFSET (VPLConv_hton_u32 val)"

definition vss_set_lock_get_fhandle :: "buffer \<Rightarrow> u32 option" where [wire]:
  "vss_set_lock_get_fhandle buf = map_option VPLConv_ntoh_u32 (get_host32 buf VSS_SET_LOCK_FHANDLE_OFFSET)"

definition vss_set_lock_set_fhandle :: "buffer \<Rightarrow> u32 \<Rightarrow> buffer option" where [wire]:
  "vss_set_lock_set_fhandle buf val = put_host32 buf VSS_SET_LOCK_FHANDLE_OFFSET (VPLConv_hton_u32 val)"

section \<open>VSS_GET_LOCK\<close>

definition VSS_GET_LOCK_OBJHANDLE_OFFSET :: nat where [simp]: "VSS_GET_LOCK_OBJHANDLE_OFFSET = 0"
definition VSS_GET_LOCK_FHANDLE_OFFSET :: nat where [simp]: "VSS_GET_LOCK_FHANDLE_OFFSET = 4"
definition VSS_GET_LOCK_SIZE :: nat where [simp]: "VSS_GET_LOCK_SIZE = 8"
definition vss_get_lock_get_objhandle :: "buffer \<Rightarrow> u32 option" where [wire]:
  "vss_get_lock_get_objhandle buf = map_option VPLConv_ntoh_u32 (get_host32 buf VSS_GET_LOCK_OBJHANDLE_OFFSET)"

definition vss_get_lock_set_objhandle :: "buffer \<Rightarrow> u32 \<Rightarrow> buffer option" where [wire]:
  "vss_get_lock_set_objhandle buf val = put_host32 buf VSS_GET_LOCK_OBJHANDLE_OFFSET (VPLConv_hton_u32 val)"

definition vss_get_lock_get_fhandle :: "buffer \<Rightarrow> u32 option" where [wire]:
  "vss_get_lock_get_fhandle buf = map_option VPLConv_ntoh_u32 (get_host32 buf VSS_GET_LOCK_FHANDLE_OFFSET)"

definition vss_get_lock_set_fhandle :: "buffer \<Rightarrow> u32 \<Rightarrow> buffer option" where [wire]:
  "vss_get_lock_set_fhandle buf val = put_host32 buf VSS_GET_LOCK_FHANDLE_OFFSET (VPLConv_hton_u32 val)"

section \<open>VSS_GET_LOCK_REPLY\<close>

definition VSS_GET_LOCKR_MODE_OFFSET :: nat where [simp]: "VSS_GET_LOCKR_MODE_OFFSET = 0"
definition VSS_GET_LOCKR_SIZE :: nat where [simp]: "VSS_GET_LOCKR_SIZE = 8"
definition vss_get_lock_reply_get_mode :: "buffer \<Rightarrow> u64 option" where [wire]:
  "vss_get_lock_reply_get_mode buf = map_option VPLConv_ntoh_u64 (get_host64 buf VSS_GET_LOCKR_MODE_OFFSET)"

definition vss_get_lock_reply_set_mode :: "buffer \<Rightarrow> u64 \<Rightarrow> buffer option" where [wire]:
  "vss_get_lock_reply_set_mode buf val = put_host64 buf VSS_GET_LOCKR_MODE_OFFSET (VPLConv_hton_u64 val)"

section \<open>VSS_SET_LOCK_RANGE\<close>

definition VSS_SET_LOCK_RANGE_ORIGIN_OFFSET :: nat where [simp]: "VSS_SET_LOCK_RANGE_ORIGIN_OFFSET = 0"
definition VSS_SET_LOCK_RANGE_START_OFFSET :: nat where [simp]: "VSS_SET_LOCK_RANGE_START_OFFSET = 8"
definition VSS_SET_LOCK_RANGE_END_OFFSET :: nat where [simp]: "VSS_SET_LOCK_RANGE_END_OFFSET = 16"
definition VSS_SET_LOCK_RANGE_MODE_OFFSET :: nat where [simp]: "VSS_SET_LOCK_RANGE_MODE_OFFSET = 24"
definition VSS_SET_LOCK_RANGE_HANDLE_OFFSET :: nat where [simp]: "VSS_SET_LOCK_RANGE_HANDLE_OFFSET = 32"
definition VSS_SET_LOCK_RANGE_FLAGS_OFFSET :: nat where [simp]: "VSS_SET_LOCK_RANGE_FLAGS_OFFSET = 36"
definition VSS_SET_LOCK_RANGE_SIZE :: nat where [simp]: "VSS_SET_LOCK_RANGE_SIZE = 40"
definition vss_set_lock_range_get_origin :: "buffer \<Rightarrow> u64 option" where [wire]:
  "vss_set_lock_range_get_origin buf = map_option VPLConv_ntoh_u64 (get_host64 buf VSS_SET_LOCK_RANGE_ORIGIN_OFFSET)"

definition vss_set_lock_range_set_origin :: "buffer \<Rightarrow> u64 \<Rightarrow> buffer option" where [wire]:
  "vss_set_lock_range_set_origin buf val = put_host64 buf VSS_SET_LOCK_RANGE_ORIGIN_OFFSET (VPLConv_hton_u64 val)"

definition vss_set_lock_range_get_start :: "buffer \<Rightarrow> u64 option" where [wire]:
  "vss_set_lock_range_get_start buf = map_option VPLConv_ntoh_u64 (get_host64 buf VSS_SET_LOCK_RANGE_START_OFFSET)"

definition vss_set_lock_range_set_start :: "buffer \<Rightarrow> u64 \<Rightarrow> buffer option" where [wire]:
  "vss_set_lock_range_set_start buf val = put_host64 buf VSS_SET_LOCK_RANGE_START_OFFSET (VPLConv_hton_u64 val)"

definition vss_set_lock_range_get_end :: "buffer \<Rightarrow> u64 option" where [wire]:
  "vss_set_lock_range_get_end buf = map_option VPLConv_ntoh_u64 (get_host64 buf VSS_SET_LOCK_RANGE_END_OFFSET)"

definition vss_set_lock_range_set_end :: "buffer \<Rightarrow> u64 \<Rightarrow> buffer option" where [wire]:
  "vss_set_lock_range_set_end buf val = put_host64 buf VSS_SET_LOCK_RANGE_END_OFFSET (VPLConv_hton_u64 val)"

definition vss_set_lock_range_get_mode :: "buffer \<Rightarrow> u64 option" where [wire]:
  "vss_set_lock_range_get_mode buf = map_option VPLConv_ntoh_u64 (get_host64 buf VSS_SET_LOCK_RANGE_MODE_OFFSET)"

definition vss_set_lock_range_set_mode :: "buffer \<Rightarrow> u64 \<Rightarrow> buffer option" where [wire]:
  "vss_set_lock_range_set_mode buf val = put_host64 buf VSS_SET_LOCK_RANGE_MODE_OFFSET (VPLConv_hton_u64 val)"

definition vss_set_lock_range_get_handle :: "buffer \<Rightarrow> u32 option" where [wire]:
  "vss_set_lock_range_get_handle buf = map_option VPLConv_ntoh_u32 (get_host32 buf VSS_SET_LOCK_RANGE_HANDLE_OFFSET)"

definition vss_set_lock_range_set_handle :: "buffer \<Rightarrow> u32 \<Rightarrow> buffer option" where [wire]:
  "vss_set_lock_range_set_handle buf val = put_host32 buf VSS_SET_LOCK_RANGE_HANDLE_OFFSET (VPLConv_hton_u32 val)"

definition vss_set_lock_range_get_flags :: "buffer \<Rightarrow> u32 option" where [wire]:
  "vss_set_lock_range_get_flags buf = map_option VPLConv_ntoh_u32 (get_host32 buf VSS_SET_LOCK_RANGE_FLAGS_OFFSET)"

definition vss_set_lock_range_set_flags :: "buffer \<Rightarrow> u32 \<Rightarrow> buffer option" where [wire]:
  "vss_set_lock_range_set_flags buf val = put_host32 buf VSS_SET_LOCK_RANGE_FLAGS_OFFSET (VPLConv_hton_u32 val)"

section \<open>VSS_GET_NOTIFY\<close>

definition VSS_GET_NOTIFY_HANDLE_OFFSET :: nat where [simp]: "VSS_GET_NOTIFY_HANDLE_OFFSET = 0"
definition VSS_GET_NOTIFY_SIZE :: nat where [simp]: "VSS_GET_NOTIFY_SIZE = 4"
definition vss_get_notify_get_handle :: "buffer \<Rightarrow> u32 option" where [wire]:
  "vss_get_notify_get_handle buf = map_option VPLConv_ntoh_u32 (get_host32 buf VSS_GET_NOTIFY_HANDLE_OFFSET)"

definition vss_get_notify_set_handle :: "buffer \<Rightarrow> u32 \<Rightarrow> buffer option" where [wire]:
  "vss_get_notify_set_handle buf val = put_host32 buf VSS_GET_NOTIFY_HANDLE_OFFSET (VPLConv_hton_u32 val)"

section \<open>VSS_GET_NOTIFY_REPLY\<close>

definition VSS_GET_NOTIFYR_MASK_OFFSET :: nat where [simp]: "VSS_GET_NOTIFYR_MASK_OFFSET = 0"
definition VSS_GET_NOTIFYR_SIZE :: nat where [simp]: "VSS_GET_NOTIFYR_SIZE = 8"
definition vss_get_notify_reply_get_mode :: "buffer \<Rightarrow> u64 option" where [wire]:
  "vss_get_notify_reply_get_mode buf = map_option VPLConv_ntoh_u64 (get_host64 buf VSS_GET_NOTIFYR_MASK_OFFSET)"

definition vss_get_notify_reply_set_mode :: "buffer \<Rightarrow> u64 \<Rightarrow> buffer option" where [wire]:
  "vss_get_notify_reply_set_mode buf val = put_host64 buf VSS_GET_NOTIFYR_MASK_OFFSET (VPLConv_hton_u64 val)"

section \<open>VSS_SET_NOTIFY\<close>

definition VSS_SET_NOTIFY_HANDLE_OFFSET :: nat where [simp]: "VSS_SET_NOTIFY_HANDLE_OFFSET = 0"
definition VSS_SET_NOTIFY_MASK_OFFSET :: nat where [simp]: "VSS_SET_NOTIFY_MASK_OFFSET = 4"
definition VSS_SET_NOTIFY_SIZE :: nat where [simp]: "VSS_SET_NOTIFY_SIZE = 12"
definition vss_set_notify_get_handle :: "buffer \<Rightarrow> u32 option" where [wire]:
  "vss_set_notify_get_handle buf = map_option VPLConv_ntoh_u32 (get_host32 buf VSS_SET_NOTIFY_HANDLE_OFFSET)"

definition vss_set_notify_set_handle :: "buffer \<Rightarrow> u32 \<Rightarrow> buffer option" where [wire]:
  "vss_set_notify_set_handle buf val = put_host32 buf VSS_SET_NOTIFY_HANDLE_OFFSET (VPLConv_hton_u32 val)"

definition vss_set_notify_get_mode :: "buffer \<Rightarrow> u64 option" where [wire]:
  "vss_set_notify_get_mode buf = map_option VPLConv_ntoh_u64 (get_host64 buf VSS_SET_NOTIFY_MASK_OFFSET)"

definition vss_set_notify_set_mode :: "buffer \<Rightarrow> u64 \<Rightarrow> buffer option" where [wire]:
  "vss_set_notify_set_mode buf val = put_host64 buf VSS_SET_NOTIFY_MASK_OFFSET (VPLConv_hton_u64 val)"

section \<open>VSS_NOTIFICATION\<close>

definition VSS_NOTIFICATION_HANDLE_OFFSET :: nat where [simp]: "VSS_NOTIFICATION_HANDLE_OFFSET = 0"
definition VSS_NOTIFICATION_LENGTH_OFFSET :: nat where [simp]: "VSS_NOTIFICATION_LENGTH_OFFSET = 4"
definition VSS_NOTIFICATION_MASK_OFFSET :: nat where [simp]: "VSS_NOTIFICATION_MASK_OFFSET = 8"
definition VSS_NOTIFICATION_DATA_OFFSET :: nat where [simp]: "VSS_NOTIFICATION_DATA_OFFSET = 16"
definition VSS_NOTIFICATION_BASE_SIZE :: nat where [simp]: "VSS_NOTIFICATION_BASE_SIZE = 16"
definition vss_notification_get_handle :: "buffer \<Rightarrow> u32 option" where [wire]:
  "vss_notification_get_handle buf = map_option VPLConv_ntoh_u32 (get_host32 buf VSS_NOTIFICATION_HANDLE_OFFSET)"

definition vss_notification_set_handle :: "buffer \<Rightarrow> u32 \<Rightarrow> buffer option" where [wire]:
  "vss_notification_set_handle buf val = put_host32 buf VSS_NOTIFICATION_HANDLE_OFFSET (VPLConv_hton_u32 val)"

definition vss_notification_get_length :: "buffer \<Rightarrow> u32 option" where [wire]:
  "vss_notification_get_length buf = map_option VPLConv_ntoh_u32 (get_host32 buf VSS_NOTIFICATION_LENGTH_OFFSET)"

definition vss_notification_set_length :: "buffer \<Rightarrow> u32 \<Rightarrow> buffer option" where [wire]:
  "vss_notification_set_length buf val = put_host32 buf VSS_NOTIFICATION_LENGTH_OFFSET (VPLConv_hton_u32 val)"

definition vss_notification_get_mask :: "buffer \<Rightarrow> u64 option" where [wire]:
  "vss_notification_get_mask buf = map_option VPLConv_ntoh_u64 (get_host64 buf VSS_NOTIFICATION_MASK_OFFSET)"

definition vss_notification_set_mask :: "buffer \<Rightarrow> u64 \<Rightarrow> buffer option" where [wire]:
  "vss_notification_set_mask buf val = put_host64 buf VSS_NOTIFICATION_MASK_OFFSET (VPLConv_hton_u64 val)"

definition vss_notification_get_data :: "buffer \<Rightarrow> buffer option" where [wire]:
  "vss_notification_get_data buf = ptr_at buf VSS_NOTIFICATION_DATA_OFFSET"

definition vss_notification_set_data :: "buffer \<Rightarrow> buffer \<Rightarrow> buffer option" where [wire]:
  "vss_notification_set_data buf val = do {
     n \<leftarrow> vss_notification_get_length buf;
     memcpy_at buf VSS_NOTIFICATION_DATA_OFFSET val (unat n) }"

section \<open>VSS_NOTIFICATION_OPLOCK_BREAK\<close>

definition VSS_OPLOCK_BREAK_MODE_OFFSET :: nat where [simp]: "VSS_OPLOCK_BREAK_MODE_OFFSET = 0"
definition VSS_OPLOCK_BREAK_HANDLE_OFFSET :: nat where [simp]: "VSS_OPLOCK_BREAK_HANDLE_OFFSET = 8"
definition VSS_OPLOCK_BREAK_SIZE :: nat where [simp]: "VSS_OPLOCK_BREAK_SIZE = 12"
definition vss_oplock_break_get_mode :: "buffer \<Rightarrow> u64 option" where [wire]:
  "vss_oplock_break_get_mode buf = map_option VPLConv_ntoh_u64 (get_host64 buf VSS_OPLOCK_BREAK_MODE_OFFSET)"

definition vss_oplock_break_set_mode :: "buffer \<Rightarrow> u64 \<Rightarrow> buffer option" where [wire]:
  "vss_oplock_break_set_mode buf val = put_host64 buf VSS_OPLOCK_BREAK_MODE_OFFSET (VPLConv_hton_u64 val)"

definition vss_oplock_break_get_handle :: "buffer \<Rightarrow> u32 option" where [wire]:
  "vss_oplock_break_get_handle buf = map_option VPLConv_ntoh_u32 (get_host32 buf VSS_OPLOCK_BREAK_HANDLE_OFFSET)"

definition vss_oplock_break_set_handle :: "buffer \<Rightarrow> u32 \<Rightarrow> buffer option" where [wire]:
  "vss_oplock_break_set_handle buf val = put_host32 buf VSS_OPLOCK_BREAK_HANDLE_OFFSET (VPLConv_hton_u32 val)"

section \<open>VSS_OPEN_FILE\<close>

definition VSS_OPEN_FILE_OBJVER_OFFSET :: nat where [simp]: "VSS_OPEN_FILE_OBJVER_OFFSET = 0"
definition VSS_OPEN_FILE_ORIGIN_OFFSET :: nat where [simp]: "VSS_OPEN_FILE_ORIGIN_OFFSET = 8"
definition VSS_OPEN_FILE_HANDLE_OFFSET :: nat where [simp]: "VSS_OPEN_FILE_HANDLE_OFFSET = 16"
definition VSS_OPEN_FILE_FLAGS_OFFSET :: nat where [simp]: "VSS_OPEN_FILE_FLAGS_OFFSET = 20"
definition VSS_OPEN_FILE_ATTRS_OFFSET :: nat where [simp]: "VSS_OPEN_FILE_ATTRS_OFFSET = 24"
definition VSS_OPEN_FILE_NAME_LENGTH_OFFSET :: nat where [simp]: "VSS_OPEN_FILE_NAME_LENGTH_OFFSET = 28"
definition VSS_OPEN_FILE_NAME_OFFSET :: nat where [simp]: "VSS_OPEN_FILE_NAME_OFFSET = 30"
definition VSS_OPEN_FILE_BASE_SIZE :: nat where [simp]: "VSS_OPEN_FILE_BASE_SIZE = 30"
definition vss_open_file_get_handle :: "buffer \<Rightarrow> u32 option" where [wire]:
  "vss_open_file_get_handle buf = map_option VPLConv_ntoh_u32 (get_host32 buf VSS_OPEN_FILE_HANDLE_OFFSET)"

definition vss_open_file_set_handle :: "buffer \<Rightarrow> u32 \<Rightarrow> buffer option" where [wire]:
  "vss_open_file_set_handle buf val = put_host32 buf VSS_OPEN_FILE_HANDLE_OFFSET (VPLConv_hton_u32 val)"

definition vss_open_file_get_objver :: "buffer \<Rightarrow> u64 option" where [wire]:
  "vss_open_file_get_objver buf = map_option VPLConv_ntoh_u64 (get_host64 buf VSS_OPEN_FILE_OBJVER_OFFSET)"

definition vss_open_file_set_objver :: "buffer \<Rightarrow> u64 \<Rightarrow> buffer option" where [wire]:
  "vss_open_file_set_objver buf val = put_host64 buf VSS_OPEN_FILE_OBJVER_OFFSET (VPLConv_hton_u64 val)"

definition vss_open_file_get_origin :: "buffer \<Rightarrow> u64 option" where [wire]:
  "vss_open_file_get_origin buf = map_option VPLConv_ntoh_u64 (get_host64 buf VSS_OPEN_FILE_ORIGIN_OFFSET)"

definition vss_open_file_set_origin :: "buffer \<Rightarrow> u64 \<Rightarrow> buffer option" where [wire]:
  "vss_open_file_set_origin buf val = put_host64 buf VSS_OPEN_FILE_ORIGIN_OFFSET (VPLConv_hton_u64 val)"

definition vss_open_file_get_flags :: "buffer \<Rightarrow> u32 option" where [wire]:
  "vss_open_file_get_flags buf = map_option VPLConv_ntoh_u32 (get_host32 buf VSS_OPEN_FILE_FLAGS_OFFSET)"

definition vss_open_file_set_flags :: "buffer \<Rightarrow> u32 \<Rightarrow> buffer option" where [wire]:
  "vss_open_file_set_flags buf val = put_host32 buf VSS_OPEN_FILE_FLAGS_OFFSET (VPLConv_hton_u32 val)"

definition vss_open_file_get_attrs :: "buffer \<Rightarrow> u32 option" where [wire]:
  "vss_open_file_get_attrs buf = map_option VPLConv_ntoh_u32 (get_host32 buf VSS_OPEN_FILE_ATTRS_OFFSET)"

definition vss_open_file_set_attrs :: "buffer \<Rightarrow> u32 \<Rightarrow> buffer option" where [wire]:
  "vss_open_file_set_attrs buf val = put_host32 buf VSS_OPEN_FILE_ATTRS_OFFSET (VPLConv_hton_u32 val)"

definition vss_open_file_get_name_length :: "buffer \<Rightarrow> u16 option" where [wire]:
  "vss_open_file_get_name_length buf = map_option VPLConv_ntoh_u16 (get_host16 buf VSS_OPEN_FILE_NAME_LENGTH_OFFSET)"

definition vss_open_file_set_name_length :: "buffer \<Rightarrow> u16 \<Rightarrow> buffer option" where [wire]:
  "vss_open_file_set_name_length buf val = put_host16 buf VSS_OPEN_FILE_NAME_LENGTH_OFFSET (VPLConv_hton_u16 val)"

definition vss_open_file_get_name :: "buffer \<Rightarrow> buffer option" where [wire]:
  "vss_open_file_get_name buf = ptr_at buf VSS_OPEN_FILE_NAME_OFFSET"

definition vss_open_file_set_name :: "buffer \<Rightarrow> buffer \<Rightarrow> buffer option" where [wire]:
  "vss_open_file_set_name buf val = do {
     n \<leftarrow> vss_open_file_get_name_length buf;
     memcpy_at buf VSS_OPEN_FILE_NAME_OFFSET val (unat n) }"

section \<open>VSS_OPEN_FILE_REPLY\<close>

definition VSS_OPEN_FILER_OBJVER_OFFSET :: nat where [simp]: "VSS_OPEN_FILER_OBJVER_OFFSET = 0"
definition VSS_OPEN_FILER_HANDLE_OFFSET :: nat where [simp]: "VSS_OPEN_FILER_HANDLE_OFFSET = 8"
definition VSS_OPEN_FILER_FLAGS_OFFSET :: nat where [simp]: "VSS_OPEN_FILER_FLAGS_OFFSET = 12"
definition VSS_OPEN_FILER_BASE_SIZE :: nat where [simp]: "VSS_OPEN_FILER_BASE_SIZE = 16"
definition vss_open_file_reply_get_handle :: "buffer \<Rightarrow> u32 option" where [wire]:
  "vss_open_file_reply_get_handle buf = map_option VPLConv_ntoh_u32 (get_host32 buf VSS_OPEN_FILER_HANDLE_OFFSET)"

definition vss_open_file_reply_set_handle :: "buffer \<Rightarrow> u32 \<Rightarrow> buffer option" where [wire]:
  "vss_open_file_reply_set_handle buf val = put_host32 buf VSS_OPEN_FILER_HANDLE_OFFSET (VPLConv_hton_u32 val)"

definition vss_open_file_reply_get_objver :: "buffer \<Rightarrow> u64 option" where [wire]:
  "vss_open_file_reply_get_objver buf = map_option VPLConv_ntoh_u64 (get_host64 buf VSS_OPEN_FILER_OBJVER_OFFSET)"

definition vss_open_file_reply_set_objver :: "buffer \<Rightarrow> u64 \<Rightarrow> buffer option" where [wire]:
  "vss_open_file_reply_set_objver buf val = put_host64 buf VSS_OPEN_FILER_OBJVER_OFFSET (VPLConv_hton_u64 val)"

definition vss_open_file_reply_get_flags :: "buffer \<Rightarrow> u32 option" where [wire]:
  "vss_open_file_reply_get_flags buf = map_option VPLConv_ntoh_u32 (get_host32 buf VSS_OPEN_FILER_FLAGS_OFFSET)"

definition vss_open_file_reply_set_flags :: "buffer \<Rightarrow> u32 \<Rightarrow> buffer option" where [wire]:
  "vss_open_file_reply_set_flags buf val = put_host32 buf VSS_OPEN_FILER_FLAGS_OFFSET (VPLConv_hton_u32 val)"

section \<open>VSS_CLOSE_FILE\<close>

definition VSS_CLOSE_FILE_ORIGIN_OFFSET :: nat where [simp]: "VSS_CLOSE_FILE_ORIGIN_OFFSET = 0"
definition VSS_CLOSE_FILE_HANDLE_OFFSET :: nat where [simp]: "VSS_CLOSE_FILE_HANDLE_OFFSET = 8"
definition VSS_CLOSE_FILE_SIZE :: nat where [simp]: "VSS_CLOSE_FILE_SIZE = 12"
definition vss_close_file_get_origin :: "buffer \<Rightarrow> u64 option" where [wire]:
  "vss_close_file_get_origin buf = map_option VPLConv_ntoh_u64 (get_host64 buf VSS_CLOSE_FILE_ORIGIN_OFFSET)"

definition vss_close_file_set_origin :: "buffer \<Rightarrow> u64 \<Rightarrow> buffer option" where [wire]:
  "vss_close_file_set_origin buf val = put_host64 buf VSS_CLOSE_FILE_ORIGIN_OFFSET (VPLConv_hton_u64 val)"

definition vss_close_file_get_handle :: "buffer \<Rightarrow> u32 option" where [wire]:
  "vss_close_file_get_handle buf = map_option VPLConv_ntoh_u32 (get_host32 buf VSS_CLOSE_FILE_HANDLE_OFFSET)"

definition vss_close_file_set_handle :: "buffer \<Rightarrow> u32 \<Rightarrow> buffer option" where [wire]:
  "vss_close_file_set_handle buf val = put_host32 buf VSS_CLOSE_FILE_HANDLE_OFFSET (VPLConv_hton_u32 val)"

section \<open>VSS_READ_FILE\<close>

definition VSS_READ_FILE_ORIGIN_OFFSET :: nat where [simp]: "VSS_READ_FILE_ORIGIN_OFFSET = 0"
definition VSS_READ_FILE_OFFSET_OFFSET :: nat where [simp]: "VSS_READ_FILE_OFFSET_OFFSET = 8"
definition VSS_READ_FILE_HANDLE_OFFSET :: nat where [simp]: "VSS_READ_FILE_HANDLE_OFFSET = 16"
definition VSS_READ_FILE_LENGTH_OFFSET :: nat where [simp]: "VSS_READ_FILE_LENGTH_OFFSET = 20"
definition VSS_READ_FILE_SIZE :: nat where [simp]: "VSS_READ_FILE_SIZE = 24"
definition vss_read_file_get_handle :: "buffer \<Rightarrow> u32 option" where [wire]:
  "vss_read_file_get_handle buf = map_option VPLConv_ntoh_u32 (get_host32 buf VSS_READ_FILE_HANDLE_OFFSET)"

definition vss_read_file_set_handle :: "buffer \<Rightarrow> u32 \<Rightarrow> buffer option" where [wire]:
  "vss_read_file_set_handle buf val = put_host32 buf VSS_READ_FILE_HANDLE_OFFSET (VPLConv_hton_u32 val)"

definition vss_read_file_get_origin :: "buffer \<Rightarrow> u64 option" where [wire]:
  "vss_read_file_get_origin buf = map_option VPLConv_ntoh_u64 (get_host64 buf VSS_READ_FILE_ORIGIN_OFFSET)"

definition vss_read_file_set_origin :: "buffer \<Rightarrow> u64 \<Rightarrow> buffer option" where [wire]:
  "vss_read_file_set_origin buf val = put_host64 buf VSS_READ_FILE_ORIGIN_OFFSET (VPLConv_hton_u64 val)"

definition vss_read_file_get_offset :: "buffer \<Rightarrow> u64 option" where [wire]:
  "vss_read_file_get_offset buf = map_option VPLConv_ntoh_u64 (get_host64 buf VSS_READ_FILE_OFFSET_OFFSET)"

definition vss_read_file_set_offset :: "buffer \<Rightarrow> u64 \<Rightarrow> buffer option" where [wire]:
  "vss_read_file_set_offset buf val = put_host64 buf VSS_READ_FILE_OFFSET_OFFSET (VPLConv_hton_u64 val)"

definition vss_read_file_get_length :: "buffer \<Rightarrow> u32 option" where [wire]:
  "vss_read_file_get_length buf = map_option VPLConv_ntoh_u32 (get_host32 buf VSS_READ_FILE_LENGTH_OFFSET)"

definition vss_read_file_set_length :: "buffer \<Rightarrow> u32 \<Rightarrow> buffer option" where [wire]:
  "vss_read_file_set_length buf val = put_host32 buf VSS_READ_FILE_LENGTH_OFFSET (VPLConv_hton_u32 val)"

section \<open>VSS_READ_FILE_REPLY\<close>

definition VSS_READ_FILER_LENGTH_OFFSET :: nat where [simp]: "VSS_READ_FILER_LENGTH_OFFSET = 0"
definition VSS_READ_FILER_BASE_SIZE :: nat where [simp]: "VSS_READ_FILER_BASE_SIZE = 4"
definition vss_read_file_reply_get_length :: "buffer \<Rightarrow> u32 option" where [wire]:
  "vss_read_file_reply_get_length buf = map_option VPLConv_ntoh_u32 (get_host32 buf VSS_READ_FILER_LENGTH_OFFSET)"

definition vss_read_file_reply_set_length :: "buffer \<Rightarrow> u32 \<Rightarrow> buffer option" where [wire]:
  "vss_read_file_reply_set_length buf val = put_host32 buf VSS_READ_FILER_LENGTH_OFFSET (VPLConv_hton_u32 val)"

definition vss_read_file_reply_get_data :: "buffer \<Rightarrow> buffer option" where [wire]:
  "vss_read_file_reply_get_data buf = ptr_at buf VSS_READ_FILER_BASE_SIZE"

section \<open>VSS_WRITE_FILE\<close>

definition VSS_WRITE_FILE_ORIGIN_OFFSET :: nat where [simp]: "VSS_WRITE_FILE_ORIGIN_OFFSET = 0"
definition VSS_WRITE_FILE_OFFSET_OFFSET :: nat where [simp]: "VSS_WRITE_FILE_OFFSET_OFFSET = 8"
definition VSS_WRITE_FILE_HANDLE_OFFSET :: nat where [simp]: "VSS_WRITE_FILE_HANDLE_OFFSET = 16"
definition VSS_WRITE_FILE_LENGTH_OFFSET :: nat where [simp]: "VSS_WRITE_FILE_LENGTH_OFFSET = 20"
definition VSS_WRITE_FILE_BASE_SIZE :: nat where [simp]: "VSS_WRITE_FILE_BASE_SIZE = 24"
definition vss_write_file_get_handle :: "buffer \<Rightarrow> u32 option" where [wire]:
  "vss_write_file_get_handle buf = map_option VPLConv_ntoh_u32 (get_host32 buf VSS_WRITE_FILE_HANDLE_OFFSET)"

definition vss_write_file_set_handle :: "buffer \<Rightarrow> u32 \<Rightarrow> buffer option" where [wire]:
  "vss_write_file_set_handle buf val = put_host32 buf VSS_WRITE_FILE_HANDLE_OFFSET (VPLConv_hton_u32 val)"

definition vss_write_file_get_origin :: "buffer \<Rightarrow> u64 option" where [wire]:
  "vss_write_file_get_origin buf = map_option VPLConv_ntoh_u64 (get_host64 buf VSS_WRITE_FILE_ORIGIN_OFFSET)"

definition vss_write_file_set_origin :: "buffer \<Rightarrow> u64 \<Rightarrow> buffer option" where [wire]:
  "vss_write_file_set_origin buf val = put_host64 buf VSS_WRITE_FILE_ORIGIN_OFFSET (VPLConv_hton_u64 val)"

definition vss_write_file_get_offset :: "buffer \<Rightarrow> u64 option" where [wire]:
  "vss_write_file_get_offset buf = map_option VPLConv_ntoh_u64 (get_host64 buf VSS_WRITE_FILE_OFFSET_OFFSET)"

definition vss_write_file_set_offset :: "buffer \<Rightarrow> u64 \<Rightarrow> buffer option" where [wire]:
  "vss_write_file_set_offset buf val = put_host64 buf VSS_WRITE_FILE_OFFSET_OFFSET (VPLConv_hton_u64 val)"

definition vss_write_file_get_length :: "buffer \<Rightarrow> u32 option" where [wire]:
  "vss_write_file_get_length buf = map_option VPLConv_ntoh_u32 (get_host32 buf VSS_WRITE_FILE_LENGTH_OFFSET)"

definition vss_write_file_set_length :: "buffer \<Rightarrow> u32 \<Rightarrow> buffer option" where [wire]:
  "vss_write_file_set_length buf val = put_host32 buf VSS_WRITE_FILE_LENGTH_OFFSET (VPLConv_hton_u32 val)"

definition vss_write_file_get_data :: "buffer \<Rightarrow> buffer option" where [wire]:
  "vss_write_file_get_data buf = ptr_at buf VSS_WRITE_FILE_BASE_SIZE"

section \<open>VSS_WRITE_FILE_REPLY\<close>

definition VSS_WRITE_FILER_LENGTH_OFFSET :: nat where [simp]: "VSS_WRITE_FILER_LENGTH_OFFSET = 0"
definition VSS_WRITE_FILER_SIZE :: nat where [simp]: "VSS_WRITE_FILER_SIZE = 4"
definition vss_write_file_reply_get_length :: "buffer \<Rightarrow> u32 option" where [wire]:
  "vss_write_file_reply_get_length buf = map_option VPLConv_ntoh_u32 (get_host32 buf VSS_WRITE_FILER_LENGTH_OFFSET)"

definition vss_write_file_reply_set_length :: "buffer \<Rightarrow> u32 \<Rightarrow> buffer option" where [wire]:
  "vss_write_file_reply_set_length buf val = put_host32 buf VSS_WRITE_FILER_LENGTH_OFFSET (VPLConv_hton_u32 val)"

section \<open>VSS_TRUNCATE_FILE\<close>

definition VSS_TRUNCATE_FILE_ORIGIN_OFFSET :: nat where [simp]: "VSS_TRUNCATE_FILE_ORIGIN_OFFSET = 0"
definition VSS_TRUNCATE_FILE_OFFSET_OFFSET :: nat where [simp]: "VSS_TRUNCATE_FILE_OFFSET_OFFSET = 8"
definition VSS_TRUNCATE_FILE_HANDLE_OFFSET :: nat where [simp]: "VSS_TRUNCATE_FILE_HANDLE_OFFSET = 16"
definition VSS_TRUNCATE_FILE_SIZE :: nat where [simp]: "VSS_TRUNCATE_FILE_SIZE = 20"
definition vss_truncate_file_get_origin :: "buffer \<Rightarrow> u64 option" where [wire]:
  "vss_truncate_file_get_origin buf = map_option VPLConv_ntoh_u64 (get_host64 buf VSS_TRUNCATE_FILE_ORIGIN_OFFSET)"

definition vss_truncate_file_set_origin :: "buffer \<Rightarrow> u64 \<Rightarrow> buffer option" where [wire]:
  "vss_truncate_file_set_origin buf val = put_host64 buf VSS_TRUNCATE_FILE_ORIGIN_OFFSET (VPLConv_hton_u64 val)"

definition vss_truncate_file_get_offset :: "buffer \<Rightarrow> u64 option" where [wire]:
  "vss_truncate_file_get_offset buf = map_option VPLConv_ntoh_u64 (get_host64 buf VSS_TRUNCATE_FILE_OFFSET_OFFSET)"

definition vss_truncate_file_set_offset :: "buffer \<Rightarrow> u64 \<Rightarrow> buffer option" where [wire]:
  "vss_truncate_file_set_offset buf val = put_host64 buf VSS_TRUNCATE_FILE_OFFSET_OFFSET (VPLConv_hton_u64 val)"

definition vss_truncate_file_get_handle :: "buffer \<Rightarrow> u32 option" where [wire]:
  "vss_truncate_file_get_handle buf = map_option VPLConv_ntoh_u32 (get_host32 buf VSS_TRUNCATE_FILE_HANDLE_OFFSET)"

definition vss_truncate_file_set_handle :: "buffer \<Rightarrow> u32 \<Rightarrow> buffer option" where [wire]:
  "vss_truncate_file_set_handle buf val = put_host32 buf VSS_TRUNCATE_FILE_HANDLE_OFFSET (VPLConv_hton_u32 val)"

section \<open>VSS_TRUNCATE_FILE_REPLY\<close>

definition VSS_TRUNCATE_FILER_SIZE :: nat where [simp]: "VSS_TRUNCATE_FILER_SIZE = 0"

section \<open>VSS_CHMOD_FILE\<close>

definition VSS_CHMOD_FILE_ORIGIN_OFFSET :: nat where [simp]: "VSS_CHMOD_FILE_ORIGIN_OFFSET = 0"
definition VSS_CHMOD_FILE_ATTRS_OFFSET :: nat where [simp]: "VSS_CHMOD_FILE_ATTRS_OFFSET = 8"
definition VSS_CHMOD_FILE_ATTRS_MASK_OFFSET :: nat where [simp]: "VSS_CHMOD_FILE_ATTRS_MASK_OFFSET = 12"
definition VSS_CHMOD_FILE_HANDLE_OFFSET :: nat where [simp]: "VSS_CHMOD_FILE_HANDLE_OFFSET = 16"
definition VSS_CHMOD_FILE_SIZE :: nat where [simp]: "VSS_CHMOD_FILE_SIZE = 20"
definition vss_chmod_file_get_origin :: "buffer \<Rightarrow> u64 option" where [wire]:
  "vss_chmod_file_get_origin buf = map_option VPLConv_ntoh_u64 (get_host64 buf VSS_CHMOD_FILE_ORIGIN_OFFSET)"

definition vss_chmod_file_set_origin :: "buffer \<Rightarrow> u64 \<Rightarrow> buffer option" where [wire]:
  "vss_chmod_file_set_origin buf val = put_host64 buf VSS_CHMOD_FILE_ORIGIN_OFFSET (VPLConv_hton_u64 val)"

definition vss_chmod_file_get_attrs :: "buffer \<Rightarrow> u32 option" where [wire]:
  "vss_chmod_file_get_attrs buf = map_option VPLConv_ntoh_u32 (get_host32 buf VSS_CHMOD_FILE_ATTRS_OFFSET)"

definition vss_chmod_file_set_attrs :: "buffer \<Rightarrow> u32 \<Rightarrow> buffer option" where [wire]:
  "vss_chmod_file_set_attrs buf val = put_host32 buf VSS_CHMOD_FILE_ATTRS_OFFSET (VPLConv_hton_u32 val)"

definition vss_chmod_file_get_attrs_mask :: "buffer \<Rightarrow> u32 option" where [wire]:
  "vss_chmod_file_get_attrs_mask buf = map_option VPLConv_ntoh_u32 (get_host32 buf VSS_CHMOD_FILE_ATTRS_MASK_OFFSET)"

definition vss_chmod_file_set_attrs_mask :: "buffer \<Rightarrow> u32 \<Rightarrow> buffer option" where [wire]:
  "vss_chmod_file_set_attrs_mask buf val = put_host32 buf VSS_CHMOD_FILE_ATTRS_MASK_OFFSET (VPLConv_hton_u32 val)"

definition vss_chmod_file_get_handle :: "buffer \<Rightarrow> u32 option" where [wire]:
  "vss_chmod_file_get_handle buf = map_option VPLConv_ntoh_u32 (get_host32 buf VSS_CHMOD_FILE_HANDLE_OFFSET)"

definition vss_chmod_file_set_handle :: "buffer \<Rightarrow> u32 \<Rightarrow> buffer option" where [wire]:
  "vss_chmod_file_set_handle buf val = put_host32 buf VSS_CHMOD_FILE_HANDLE_OFFSET (VPLConv_hton_u32 val)"

section \<open>VSS_CHMOD_FILE_REPLY\<close>

definition VSS_CHMOD_FILER_SIZE :: nat where [simp]: "VSS_CHMOD_FILER_SIZE = 0"

section \<open>VSS_RELEASE_FILE\<close>

definition VSS_RELEASE_FILE_ORIGIN_OFFSET :: nat where [simp]: "VSS_RELEASE_FILE_ORIGIN_OFFSET = 0"
definition VSS_RELEASE_FILE_HANDLE_OFFSET :: nat where [simp]: "VSS_RELEASE_FILE_HANDLE_OFFSET = 8"
definition VSS_RELEASE_FILE_SIZE :: nat where [simp]: "VSS_RELEASE_FILE_SIZE = 12"
definition vss_release_file_get_origin :: "buffer \<Rightarrow> u64 option" where [wire]:
  "vss_release_file_get_origin buf = map_option VPLConv_ntoh_u64 (get_host64 buf VSS_RELEASE_FILE_ORIGIN_OFFSET)"

definition vss_release_file_set_origin :: "buffer \<Rightarrow> u64 \<Rightarrow> buffer option" where [wire]:
  "vss_release_file_set_origin buf val = put_host64 buf VSS_RELEASE_FILE_ORIGIN_OFFSET (VPLConv_hton_u64 val)"

definition vss_release_file_get_handle :: "buffer \<Rightarrow> u32 option" where [wire]:
  "vss_release_file_get_handle buf = map_option VPLConv_ntoh_u32 (get_host32 buf VSS_RELEASE_FILE_HANDLE_OFFSET)"

definition vss_release_file_set_handle :: "buffer \<Rightarrow> u32 \<Rightarrow> buffer option" where [wire]:
  "vss_release_file_set_handle buf val = put_host32 buf VSS_RELEASE_FILE_HANDLE_OFFSET (VPLConv_hton_u32 val)"

section \<open>VSS_NEGOTIATE\<close>

definition VSS_NEGOTIATE_SIGNING_MODE_OFFSET :: nat where [simp]: "VSS_NEGOTIATE_SIGNING_MODE_OFFSET = 0"
definition VSS_NEGOTIATE_SIGNING_MODE_NONE :: u8 where [simp]: "VSS_NEGOTIATE_SIGNING_MODE_NONE = 0"
definition VSS_NEGOTIATE_SIGNING_MODE_HEADER_ONLY :: u8 where [simp]: "VSS_NEGOTIATE_SIGNING_MODE_HEADER_ONLY = 1"
definition VSS_NEGOTIATE_SIGNING_MODE_FULL :: u8 where [simp]: "VSS_NEGOTIATE_SIGNING_MODE_FULL = 2"
definition VSS_NEGOTIATE_SIGN_TYPE_OFFSET :: nat where [simp]: "VSS_NEGOTIATE_SIGN_TYPE_OFFSET = 1"
definition VSS_NEGOTIATE_SIGN_TYPE_NONE :: u8 where [simp]: "VSS_NEGOTIATE_SIGN_TYPE_NONE = 0"
definition VSS_NEGOTIATE_SIGN_TYPE_SHA1 :: u8 where [simp]: "VSS_NEGOTIATE_SIGN_TYPE_SHA1 = 1"
definition VSS_NEGOTIATE_ENCRYPT_TYPE_OFFSET :: nat where [simp]: "VSS_NEGOTIATE_ENCRYPT_TYPE_OFFSET = 2"
definition VSS_NEGOTIATE_ENCRYPT_TYPE_NONE :: u8 where [simp]: "VSS_NEGOTIATE_ENCRYPT_TYPE_NONE = 0"
definition VSS_NEGOTIATE_ENCRYPT_TYPE_AES128 :: u8 where [simp]: "VSS_NEGOTIATE_ENCRYPT_TYPE_AES128 = 1"
definition VSS_NEGOTIATE_CHAL_RESP_LEN_OFFSET :: nat where [simp]: "VSS_NEGOTIATE_CHAL_RESP_LEN_OFFSET = 3"
definition VSS_NEGOTIATE_CHAL_RESPONSE_OFFSET :: nat where [simp]: "VSS_NEGOTIATE_CHAL_RESPONSE_OFFSET = 4"
definition VSS_NEGOTIATE_BASE_SIZE :: nat where [simp]: "VSS_NEGOTIATE_BASE_SIZE = 4"
definition vss_negotiate_get_signing_mode :: "buffer \<Rightarrow> u8 option" where [wire]:
  "vss_negotiate_get_signing_mode buf = get_u8 buf VSS_NEGOTIATE_SIGNING_MODE_OFFSET"

definition vss_negotiate_set_signing_mode :: "buffer \<Rightarrow> u8 \<Rightarrow> buffer option" where [wire]:
  "vss_negotiate_set_signing_mode buf val = put_u8 buf VSS_NEGOTIATE_SIGNING_MODE_OFFSET val"

definition vss_negotiate_get_sign_type :: "buffer \<Rightarrow> u8 option" where [wire]:
  "vss_negotiate_get_sign_type buf = get_u8 buf VSS_NEGOTIATE_SIGN_TYPE_OFFSET"

definition vss_negotiate_set_sign_type :: "buffer \<Rightarrow> u8 \<Rightarrow> buffer option" where [wire]:
  "vss_negotiate_set_sign_type buf val = put_u8 buf VSS_NEGOTIATE_SIGN_TYPE_OFFSET val"

definition vss_negotiate_get_encrypt_type :: "buffer \<Rightarrow> u8 option" where [wire]:
  "vss_negotiate_get_encrypt_type buf = get_u8 buf VSS_NEGOTIATE_ENCRYPT_TYPE_OFFSET"

definition vss_negotiate_set_encrypt_type :: "buffer \<Rightarrow> u8 \<Rightarrow> buffer option" where [wire]:
  "vss_negotiate_set_encrypt_type buf val = put_u8 buf VSS_NEGOTIATE_ENCRYPT_TYPE_OFFSET val"

definition vss_negotiate_get_chal_resp_len :: "buffer \<Rightarrow> u8 option" where [wire]:
  "vss_negotiate_get_chal_resp_len buf = get_u8 buf VSS_NEGOTIATE_CHAL_RESP_LEN_OFFSET"

definition vss_negotiate_set_chal_resp_len :: "buffer \<Rightarrow> u8 \<Rightarrow> buffer option" where [wire]:
  "vss_negotiate_set_chal_resp_len buf val = put_u8 buf VSS_NEGOTIATE_CHAL_RESP_LEN_OFFSET val"

definition vss_negotiate_get_chal_response :: "buffer \<Rightarrow> buffer option" where [wire]:
  "vss_negotiate_get_chal_response buf = ptr_at buf VSS_NEGOTIATE_CHAL_RESPONSE_OFFSET"

definition vss_negotiate_set_chal_response :: "buffer \<Rightarrow> buffer \<Rightarrow> buffer option" where [wire]:
  "vss_negotiate_set_chal_response buf val = do {
     n \<leftarrow> vss_negotiate_get_chal_resp_len buf;
     memcpy_at buf VSS_NEGOTIATE_CHAL_RESPONSE_OFFSET val (unat n) }"

section \<open>VSS_NEGOTIATE_REPLY\<close>

definition VSS_NEGOTIATER_XID_START_OFFSET :: nat where [simp]: "VSS_NEGOTIATER_XID_START_OFFSET = 0"
definition VSS_NEGOTIATER_SIGNING_MODE_OFFSET :: nat where [simp]: "VSS_NEGOTIATER_SIGNING_MODE_OFFSET = 4"
definition VSS_NEGOTIATER_SIGN_TYPE_OFFSET :: nat where [simp]: "VSS_NEGOTIATER_SIGN_TYPE_OFFSET = 5"
definition VSS_NEGOTIATER_ENCRYPT_TYPE_OFFSET :: nat where [simp]: "VSS_NEGOTIATER_ENCRYPT_TYPE_OFFSET = 6"
definition VSS_NEGOTIATER_CHALLENGE_LEN_OFFSET :: nat where [simp]: "VSS_NEGOTIATER_CHALLENGE_LEN_OFFSET = 7"
definition VSS_NEGOTIATER_CHALLENGE_OFFSET :: nat where [simp]: "VSS_NEGOTIATER_CHALLENGE_OFFSET = 8"
definition VSS_NEGOTIATER_BASE_SIZE :: nat where [simp]: "VSS_NEGOTIATER_BASE_SIZE = 8"
definition vss_negotiate_reply_get_xid_start :: "buffer \<Rightarrow> u32 option" where [wire]:
  "vss_negotiate_reply_get_xid_start buf = map_option VPLConv_ntoh_u32 (get_host32 buf VSS_NEGOTIATER_XID_START_OFFSET)"

definition vss_negotiate_reply_set_xid_start :: "buffer \<Rightarrow> u32 \<Rightarrow> buffer option" where [wire]:
  "vss_negotiate_reply_set_xid_start buf val = put_host64 buf VSS_NEGOTIATER_XID_START_OFFSET (ucast (VPLConv_hton_u32 val))"

definition vss_negotiate_reply_get_signing_mode :: "buffer \<Rightarrow> u8 option" where [wire]:
  "vss_negotiate_reply_get_signing_mode buf = get_u8 buf VSS_NEGOTIATER_SIGNING_MODE_OFFSET"

definition vss_negotiate_reply_set_signing_mode :: "buffer \<Rightarrow> u8 \<Rightarrow> buffer option" where [wire]:
  "vss_negotiate_reply_set_signing_mode buf val = put_u8 buf VSS_NEGOTIATER_SIGNING_MODE_OFFSET val"

definition vss_negotiate_reply_get_sign_type :: "buffer \<Rightarrow> u8 option" where [wire]:
  "vss_negotiate_reply_get_sign_type buf = get_u8 buf VSS_NEGOTIATER_SIGN_TYPE_OFFSET"

definition vss_negotiate_reply_set_sign_type :: "buffer \<Rightarrow> u8 \<Rightarrow> buffer option" where [wire]:
  "vss_negotiate_reply_set_sign_type buf val = put_u8 buf VSS_NEGOTIATER_SIGN_TYPE_OFFSET val"

definition vss_negotiate_reply_get_encrypt_type :: "buffer \<Rightarrow> u8 option" where [wire]:
  "vss_negotiate_reply_get_encrypt_type buf = get_u8 buf VSS_NEGOTIATER_ENCRYPT_TYPE_OFFSET"

definition vss_negotiate_reply_set_encrypt_type :: "buffer \<Rightarrow> u8 \<Rightarrow> buffer option" where [wire]:
  "vss_negotiate_reply_set_encrypt_type buf val = put_u8 buf VSS_NEGOTIATER_ENCRYPT_TYPE_OFFSET val"

definition vss_negotiate_reply_get_challenge_len :: "buffer \<Rightarrow> u8 option" where [wire]:
  "vss_negotiate_reply_get_challenge_len buf = get_u8 buf VSS_NEGOTIATER_CHALLENGE_LEN_OFFSET"

definition vss_negotiate_reply_set_challenge_len :: "buffer \<Rightarrow> u8 \<Rightarrow> buffer option" where [wire]:
  "vss_negotiate_reply_set_challenge_len buf val = put_u8 buf VSS_NEGOTIATER_CHALLENGE_LEN_OFFSET val"

definition vss_negotiate_reply_get_challenge :: "buffer \<Rightarrow> buffer option" where [wire]:
  "vss_negotiate_reply_get_challenge buf = ptr_at buf VSS_NEGOTIATER_CHALLENGE_OFFSET"

definition vss_negotiate_reply_set_challenge :: "buffer \<Rightarrow> buffer \<Rightarrow> buffer option" where [wire]:
  "vss_negotiate_reply_set_challenge buf val = do {
     n \<leftarrow> vss_negotiate_reply_get_challenge_len buf;
     memcpy_at buf VSS_NEGOTIATER_CHALLENGE_OFFSET val (unat n) }"

section \<open>VSS_AUTHENTICATE\<close>

definition VSS_AUTHENTICATE_CLUSTER_ID_OFFSET :: nat where [simp]: "VSS_AUTHENTICATE_CLUSTER_ID_OFFSET = 0"
definition VSS_AUTHENTICATE_EXT_VERSION_OFFSET :: nat where [simp]: "VSS_AUTHENTICATE_EXT_VERSION_OFFSET = 8"
definition VSS_AUTHENTICATE_SIGNING_MODE_OFFSET :: nat where [simp]: "VSS_AUTHENTICATE_SIGNING_MODE_OFFSET = 16"
definition VSS_AUTHENTICATE_SIGN_TYPE_OFFSET :: nat where [simp]: "VSS_AUTHENTICATE_SIGN_TYPE_OFFSET = 17"
definition VSS_AUTHENTICATE_ENCRYPT_TYPE_OFFSET :: nat where [simp]: "VSS_AUTHENTICATE_ENCRYPT_TYPE_OFFSET = 18"
definition VSS_AUTHENTICATE_SIZE_EXT_VER_0 :: nat where [simp]: "VSS_AUTHENTICATE_SIZE_EXT_VER_0 = 8"
definition VSS_AUTHENTICATE_SIZE_EXT_VER_1 :: nat where [simp]: "VSS_AUTHENTICATE_SIZE_EXT_VER_1 = 19"
definition vss_authenticate_get_cluster_id :: "buffer \<Rightarrow> u64 option" where [wire]:
  "vss_authenticate_get_cluster_id buf = map_option VPLConv_ntoh_u64 (get_host64 buf VSS_AUTHENTICATE_CLUSTER_ID_OFFSET)"

definition vss_authenticate_set_cluster_id :: "buffer \<Rightarrow> u64 \<Rightarrow> buffer option" where [wire]:
  "vss_authenticate_set_cluster_id buf val = put_host64 buf VSS_AUTHENTICATE_CLUSTER_ID_OFFSET (VPLConv_hton_u64 val)"

definition vss_authenticate_get_ext_version :: "buffer \<Rightarrow> u32 option" where [wire]:
  "vss_authenticate_get_ext_version buf = map_option VPLConv_ntoh_u32 (get_host32 buf VSS_AUTHENTICATE_EXT_VERSION_OFFSET)"

definition vss_authenticate_set_ext_version :: "buffer \<Rightarrow> u32 \<Rightarrow> buffer option" where [wire]:
  "vss_authenticate_set_ext_version buf val = put_host32 buf VSS_AUTHENTICATE_EXT_VERSION_OFFSET (VPLConv_hton_u32 val)"

definition vss_authenticate_get_signing_mode :: "buffer \<Rightarrow> u8 option" where [wire]:
  "vss_authenticate_get_signing_mode buf = get_u8 buf VSS_AUTHENTICATE_SIGNING_MODE_OFFSET"

definition vss_authenticate_set_signing_mode :: "buffer \<Rightarrow> u8 \<Rightarrow> buffer option" where [wire]:
  "vss_authenticate_set_signing_mode buf val = put_u8 buf VSS_AUTHENTICATE_SIGNING_MODE_OFFSET val"

definition vss_authenticate_get_sign_type :: "buffer \<Rightarrow> u8 option" where [wire]:
  "vss_authenticate_get_sign_type buf = get_u8 buf VSS_AUTHENTICATE_SIGN_TYPE_OFFSET"

definition vss_authenticate_set_sign_type :: "buffer \<Rightarrow> u8 \<Rightarrow> buffer option" where [wire]:
  "vss_authenticate_set_sign_type buf val = put_u8 buf VSS_AUTHENTICATE_SIGN_TYPE_OFFSET val"

definition vss_authenticate_get_encrypt_type :: "buffer \<Rightarrow> u8 option" where [wire]:
  "vss_authenticate_get_encrypt_type buf = get_u8 buf VSS_AUTHENTICATE_ENCRYPT_TYPE_OFFSET"

definition vss_authenticate_set_encrypt_type :: "buffer \<Rightarrow> u8 \<Rightarrow> buffer option" where [wire]:
  "vss_authenticate_set_encrypt_type buf val = put_u8 buf VSS_AUTHENTICATE_ENCRYPT_TYPE_OFFSET val"

section \<open>VSS_AUTHENTICATE_REPLY\<close>

definition VSS_AUTHENTICATER_EXT_VERSION_OFFSET :: nat where [simp]: "VSS_AUTHENTICATER_EXT_VERSION_OFFSET = 0"
definition VSS_AUTHENTICATER_SIGNING_MODE_OFFSET :: nat where [simp]: "VSS_AUTHENTICATER_SIGNING_MODE_OFFSET = 4"
definition VSS_AUTHENTICATER_SIGN_TYPE_OFFSET :: nat where [simp]: "VSS_AUTHENTICATER_SIGN_TYPE_OFFSET = 5"
definition VSS_AUTHENTICATER_ENCRYPT_TYPE_OFFSET :: nat where [simp]: "VSS_AUTHENTICATER_ENCRYPT_TYPE_OFFSET = 6"
definition VSS_AUTHENTICATER_SIZE_EXT_VER_0 :: nat where [simp]: "VSS_AUTHENTICATER_SIZE_EXT_VER_0 = 0"
definition VSS_AUTHENTICATER_SIZE_EXT_VER_1 :: nat where [simp]: "VSS_AUTHENTICATER_SIZE_EXT_VER_1 = 7"
definition vss_authenticate_reply_get_ext_version :: "buffer \<Rightarrow> u32 option" where [wire]:
  "vss_authenticate_reply_get_ext_version buf = map_option VPLConv_ntoh_u32 (get_host32 buf VSS_AUTHENTICATER_EXT_VERSION_OFFSET)"

definition vss_authenticate_reply_set_ext_version :: "buffer \<Rightarrow> u32 \<Rightarrow> buffer option" where [wire]:
  "vss_authenticate_reply_set_ext_version buf val = put_host32 buf VSS_AUTHENTICATER_EXT_VERSION_OFFSET (VPLConv_hton_u32 val)"

definition vss_authenticate_reply_get_signing_mode :: "buffer \<Rightarrow> u8 option" where [wire]:
  "vss_authenticate_reply_get_signing_mode buf = get_u8 buf VSS_AUTHENTICATER_SIGNING_MODE_OFFSET"

definition vss_authenticate_reply_set_signing_mode :: "buffer \<Rightarrow> u8 \<Rightarrow> buffer option" where [wire]:
  "vss_authenticate_reply_set_signing_mode buf val = put_u8 buf VSS_AUTHENTICATER_SIGNING_MODE_OFFSET val"

definition vss_authenticate_reply_get_sign_type :: "buffer \<Rightarrow> u8 option" where [wire]:
  "vss_authenticate_reply_get_sign_type buf = get_u8 buf VSS_AUTHENTICATER_SIGN_TYPE_OFFSET"

definition vss_authenticate_reply_set_sign_type :: "buffer \<Rightarrow> u8 \<Rightarrow> buffer option" where [wire]:
  "vss_authenticate_reply_set_sign_type buf val = put_u8 buf VSS_AUTHENTICATER_SIGN_TYPE_OFFSET val"

definition vss_authenticate_reply_get_encrypt_type :: "buffer \<Rightarrow> u8 option" where [wire]:
  "vss_authenticate_reply_get_encrypt_type buf = get_u8 buf VSS_AUTHENTICATER_ENCRYPT_TYPE_OFFSET"

definition vss_authenticate_reply_set_encrypt_type :: "buffer \<Rightarrow> u8 \<Rightarrow> buffer option" where [wire]:
  "vss_authenticate_reply_set_encrypt_type buf val = put_u8 buf VSS_AUTHENTICATER_ENCRYPT_TYPE_OFFSET val"

section \<open>VSS_TUNNEL_DATA\<close>

definition VSS_TUNNEL_DATA_LENGTH_OFFSET :: nat where [simp]: "VSS_TUNNEL_DATA_LENGTH_OFFSET = 0"
definition VSS_TUNNEL_DATA_DATA_OFFSET :: nat where [simp]: "VSS_TUNNEL_DATA_DATA_OFFSET = 4"
definition VSS_TUNNEL_DATA_BASE_SIZE :: nat where [simp]: "VSS_TUNNEL_DATA_BASE_SIZE = 4"
definition vss_tunnel_data_get_length :: "buffer \<Rightarrow> u32 option" where [wire]:
  "vss_tunnel_data_get_length buf = map_option VPLConv_ntoh_u32 (get_host32 buf VSS_TUNNEL_DATA_LENGTH_OFFSET)"

definition vss_tunnel_data_set_length :: "buffer \<Rightarrow> u32 \<Rightarrow> buffer option" where [wire]:
  "vss_tunnel_data_set_length buf val = put_host32 buf VSS_TUNNEL_DATA_LENGTH_OFFSET (VPLConv_hton_u32 val)"

definition vss_tunnel_data_get_data :: "buffer \<Rightarrow> buffer option" where [wire]:
  "vss_tunnel_data_get_data buf = ptr_at buf VSS_TUNNEL_DATA_DATA_OFFSET"

section \<open>VSS_PROXY_REQUEST\<close>

definition VSS_PROXY_REQUEST_CLUSTER_ID_OFFSET :: nat where [simp]: "VSS_PROXY_REQUEST_CLUSTER_ID_OFFSET = 0"
definition VSS_PROXY_REQUEST_PORT_OFFSET :: nat where [simp]: "VSS_PROXY_REQUEST_PORT_OFFSET = 8"
definition VSS_PROXY_REQUEST_TYPE_OFFSET :: nat where [simp]: "VSS_PROXY_REQUEST_TYPE_OFFSET = 10"
definition VSS_PROXY_REQUEST_SIZE :: nat where [simp]: "VSS_PROXY_REQUEST_SIZE = 11"
definition vss_proxy_request_get_cluster_id :: "buffer \<Rightarrow> u64 option" where [wire]:
  "vss_proxy_request_get_cluster_id buf = map_option VPLConv_ntoh_u64 (get_host64 buf VSS_PROXY_REQUEST_CLUSTER_ID_OFFSET)"

definition vss_proxy_request_set_cluster_id :: "buffer \<Rightarrow> u64 \<Rightarrow> buffer option" where [wire]:
  "vss_proxy_request_set_cluster_id buf val = put_host64 buf VSS_PROXY_REQUEST_CLUSTER_ID_OFFSET (VPLConv_hton_u64 val)"

definition vss_proxy_request_get_port :: "buffer \<Rightarrow> u16 option" where [wire]:
  "vss_proxy_request_get_port buf = map_option VPLConv_ntoh_u16 (get_host16 buf VSS_PROXY_REQUEST_PORT_OFFSET)"

definition vss_proxy_request_set_port :: "buffer \<Rightarrow> u16 \<Rightarrow> buffer option" where [wire]:
  "vss_proxy_request_set_port buf val = put_host16 buf VSS_PROXY_REQUEST_PORT_OFFSET (VPLConv_hton_u16 val)"

definition vss_proxy_request_get_type :: "buffer \<Rightarrow> u8 option" where [wire]:
  "vss_proxy_request_get_type buf = map_option VPLConv_ntoh_u8 (get_u8 buf VSS_PROXY_REQUEST_TYPE_OFFSET)"

definition vss_proxy_request_set_type :: "buffer \<Rightarrow> u8 \<Rightarrow> buffer option" where [wire]:
  "vss_proxy_request_set_type buf val = put_u8 buf VSS_PROXY_REQUEST_TYPE_OFFSET (VPLConv_hton_u8 val)"

section \<open>VSS_PROXY_REQUEST_REPLY\<close>

definition VSS_PROXY_REQUESTR_DESTINATION_IP_OFFSET :: nat where [simp]: "VSS_PROXY_REQUESTR_DESTINATION_IP_OFFSET = 0"
definition VSS_PROXY_REQUESTR_PORT_OFFSET :: nat where [simp]: "VSS_PROXY_REQUESTR_PORT_OFFSET = 4"
definition VSS_PROXY_REQUESTR_SIZE :: nat where [simp]: "VSS_PROXY_REQUESTR_SIZE = 6"
definition vss_proxy_request_reply_get_destination_ip :: "buffer \<Rightarrow> u32 option" where [wire]:
  "vss_proxy_request_reply_get_destination_ip buf = get_host32 buf VSS_PROXY_REQUESTR_DESTINATION_IP_OFFSET"

definition vss_proxy_request_reply_set_destination_ip :: "buffer \<Rightarrow> u32 \<Rightarrow> buffer option" where [wire]:
  "vss_proxy_request_reply_set_destination_ip buf val = put_host32 buf VSS_PROXY_REQUESTR_DESTINATION_IP_OFFSET val"

definition vss_proxy_request_reply_get_port :: "buffer \<Rightarrow> u16 option" where [wire]:
  "vss_proxy_request_reply_get_port buf = map_option VPLConv_ntoh_u16 (get_host16 buf VSS_PROXY_REQUESTR_PORT_OFFSET)"

definition vss_proxy_request_reply_set_port :: "buffer \<Rightarrow> u16 \<Rightarrow> buffer option" where [wire]:
  "vss_proxy_request_reply_set_port buf val = put_host16 buf VSS_PROXY_REQUESTR_PORT_OFFSET (VPLConv_hton_u16 val)"

section \<open>VSS_PROXY_CONNECT\<close>

definition VSS_PROXY_CONNECT_COOKIE_OFFSET :: nat where [simp]: "VSS_PROXY_CONNECT_COOKIE_OFFSET = 0"
definition VSS_PROXY_CONNECT_CLIENT_IP_OFFSET :: nat where [simp]: "VSS_PROXY_CONNECT_CLIENT_IP_OFFSET = 4"
definition VSS_PROXY_CONNECT_CLIENT_PORT_OFFSET :: nat where [simp]: "VSS_PROXY_CONNECT_CLIENT_PORT_OFFSET = 8"
definition VSS_PROXY_CONNECT_SERVER_PORT_OFFSET :: nat where [simp]: "VSS_PROXY_CONNECT_SERVER_PORT_OFFSET = 10"
definition VSS_PROXY_CONNECT_ADDRLEN_OFFSET :: nat where [simp]: "VSS_PROXY_CONNECT_ADDRLEN_OFFSET = 12"
definition VSS_PROXY_CONNECT_TYPE_OFFSET :: nat where [simp]: "VSS_PROXY_CONNECT_TYPE_OFFSET = 14"
definition VSS_PROXY_CONNECT_TYPE_VSSP :: u8 where [simp]: "VSS_PROXY_CONNECT_TYPE_VSSP = 0"
definition VSS_PROXY_CONNECT_TYPE_HTTP :: u8 where [simp]: "VSS_PROXY_CONNECT_TYPE_HTTP = 1"
definition VSS_PROXY_CONNECT_TYPE_STREAM :: u8 where [simp]: "VSS_PROXY_CONNECT_TYPE_STREAM = 2"
definition VSS_PROXY_CONNECT_TYPE_SSTREAM :: u8 where [simp]: "VSS_PROXY_CONNECT_TYPE_SSTREAM = 3"
definition VSS_PROXY_CONNECT_SERVER_ADDR_OFFSET :: nat where [simp]: "VSS_PROXY_CONNECT_SERVER_ADDR_OFFSET = 15"
definition VSS_PROXY_CONNECT_BASE_SIZE :: nat where [simp]: "VSS_PROXY_CONNECT_BASE_SIZE = 15"
definition vss_proxy_connect_get_cookie :: "buffer \<Rightarrow> u32 option" where [wire]:
  "vss_proxy_connect_get_cookie buf = map_option VPLConv_ntoh_u32 (get_host32 buf VSS_PROXY_CONNECT_COOKIE_OFFSET)"

definition vss_proxy_connect_set_cookie :: "buffer \<Rightarrow> u32 \<Rightarrow> buffer option" where [wire]:
  "vss_proxy_connect_set_cookie buf val = put_host32 buf VSS_PROXY_CONNECT_COOKIE_OFFSET (VPLConv_hton_u32 val)"

definition vss_proxy_connect_get_client_ip :: "buffer \<Rightarrow> u32 option" where [wire]:
  "vss_proxy_connect_get_client_ip buf = get_host32 buf VSS_PROXY_CONNECT_CLIENT_IP_OFFSET"

definition vss_proxy_connect_set_client_ip :: "buffer \<Rightarrow> u32 \<Rightarrow> buffer option" where [wire]:
  "vss_proxy_connect_set_client_ip buf val = put_host32 buf VSS_PROXY_CONNECT_CLIENT_IP_OFFSET val"

definition vss_proxy_connect_get_client_port :: "buffer \<Rightarrow> u16 option" where [wire]:
  "vss_proxy_connect_get_client_port buf = map_option VPLConv_ntoh_u16 (get_host16 buf VSS_PROXY_CONNECT_CLIENT_PORT_OFFSET)"

definition vss_proxy_connect_set_client_port :: "buffer \<Rightarrow> u16 \<Rightarrow> buffer option" where [wire]:
  "vss_proxy_connect_set_client_port buf val = put_host16 buf VSS_PROXY_CONNECT_CLIENT_PORT_OFFSET (VPLConv_hton_u16 val)"

definition vss_proxy_connect_get_server_port :: "buffer \<Rightarrow> u16 option" where [wire]:
  "vss_proxy_connect_get_server_port buf = map_option VPLConv_ntoh_u16 (get_host16 buf VSS_PROXY_CONNECT_SERVER_PORT_OFFSET)"

definition vss_proxy_connect_set_server_port :: "buffer \<Rightarrow> u16 \<Rightarrow> buffer option" where [wire]:
  "vss_proxy_connect_set_server_port buf val = put_host16 buf VSS_PROXY_CONNECT_SERVER_PORT_OFFSET (VPLConv_hton_u16 val)"

definition vss_proxy_connect_get_addrlen :: "buffer \<Rightarrow> u16 option" where [wire]:
  "vss_proxy_connect_get_addrlen buf = map_option VPLConv_ntoh_u16 (get_host16 buf VSS_PROXY_CONNECT_ADDRLEN_OFFSET)"

definition vss_proxy_connect_set_addrlen :: "buffer \<Rightarrow> u16 \<Rightarrow> buffer option" where [wire]:
  "vss_proxy_connect_set_addrlen buf val = put_host16 buf VSS_PROXY_CONNECT_ADDRLEN_OFFSET (VPLConv_hton_u16 val)"

definition vss_proxy_connect_get_type :: "buffer \<Rightarrow> u8 option" where [wire]:
  "vss_proxy_connect_get_type buf = map_option VPLConv_ntoh_u8 (get_u8 buf VSS_PROXY_CONNECT_TYPE_OFFSET)"

definition vss_proxy_connect_set_type :: "buffer \<Rightarrow> u8 \<Rightarrow> buffer option" where [wire]:
  "vss_proxy_connect_set_type buf val = put_u8 buf VSS_PROXY_CONNECT_TYPE_OFFSET (VPLConv_hton_u8 val)"

definition vss_proxy_connect_get_server_addr :: "buffer \<Rightarrow> buffer option" where [wire]:
  "vss_proxy_connect_get_server_addr buf = ptr_at buf VSS_PROXY_CONNECT_SERVER_ADDR_OFFSET"

definition vss_proxy_connect_set_server_addr :: "buffer \<Rightarrow> buffer \<Rightarrow> buffer option" where [wire]:
  "vss_proxy_connect_set_server_addr buf val = do {
     n \<leftarrow> vss_proxy_connect_get_addrlen buf;
     memcpy_at buf VSS_PROXY_CONNECT_SERVER_ADDR_OFFSET val (unat n) }"

section \<open>VSS_PROXY_CONNECT_REPLY\<close>

definition VSS_PROXY_CONNECTR_COOKIE_OFFSET :: nat where [simp]: "VSS_PROXY_CONNECTR_COOKIE_OFFSET = 0"
definition VSS_PROXY_CONNECTR_PORT_OFFSET :: nat where [simp]: "VSS_PROXY_CONNECTR_PORT_OFFSET = 4"
definition VSS_PROXY_CONNECTR_TYPE_OFFSET :: nat where [simp]: "VSS_PROXY_CONNECTR_TYPE_OFFSET = 6"
definition VSS_PROXY_CONNECTR_CLUSTER_ID_OFFSET :: nat where [simp]: "VSS_PROXY_CONNECTR_CLUSTER_ID_OFFSET = 8"
definition VSS_PROXY_CONNECTR_SIZE :: nat where [simp]: "VSS_PROXY_CONNECTR_SIZE = 16"
definition vss_proxy_connect_reply_get_cookie :: "buffer \<Rightarrow> u32 option" where [wire]:
  "vss_proxy_connect_reply_get_cookie buf = map_option VPLConv_ntoh_u32 (get_host32 buf VSS_PROXY_CONNECTR_COOKIE_OFFSET)"

definition vss_proxy_connect_reply_set_cookie :: "buffer \<Rightarrow> u32 \<Rightarrow> buffer option" where [wire]:
  "vss_proxy_connect_reply_set_cookie buf val = put_host32 buf VSS_PROXY_CONNECTR_COOKIE_OFFSET (VPLConv_hton_u32 val)"

definition vss_proxy_connect_reply_get_port :: "buffer \<Rightarrow> u16 option" where [wire]:
  "vss_proxy_connect_reply_get_port buf = map_option VPLConv_ntoh_u16 (get_host16 buf VSS_PROXY_CONNECTR_PORT_OFFSET)"

definition vss_proxy_connect_reply_set_port :: "buffer \<Rightarrow> u16 \<Rightarrow> buffer option" where [wire]:
  "vss_proxy_connect_reply_set_port buf val = put_host16 buf VSS_PROXY_CONNECTR_PORT_OFFSET (VPLConv_hton_u16 val)"

definition vss_proxy_connect_reply_get_type :: "buffer \<Rightarrow> u8 option" where [wire]:
  "vss_proxy_connect_reply_get_type buf = map_option VPLConv_ntoh_u8 (get_u8 buf VSS_PROXY_CONNECTR_TYPE_OFFSET)"

definition vss_proxy_connect_reply_set_type :: "buffer \<Rightarrow> u8 \<Rightarrow> buffer option" where [wire]:
  "vss_proxy_connect_reply_set_type buf val = put_u8 buf VSS_PROXY_CONNECTR_TYPE_OFFSET (VPLConv_hton_u8 val)"

definition vss_proxy_connect_reply_get_cluster_id :: "buffer \<Rightarrow> u64 option" where [wire]:
  "vss_proxy_connect_reply_get_cluster_id buf = map_option VPLConv_ntoh_u64 (get_host64 buf VSS_PROXY_CONNECTR_CLUSTER_ID_OFFSET)"

definition vss_proxy_connect_reply_set_cluster_id :: "buffer \<Rightarrow> u64 \<Rightarrow> buffer option" where [wire]:
  "vss_proxy_connect_reply_set_cluster_id buf val = put_host64 buf VSS_PROXY_CONNECTR_CLUSTER_ID_OFFSET (VPLConv_hton_u64 val)"

end
