(* ===== verification/Vssi_Types.thy ===== *)
theory Vssi_Types
  imports Vss_Comm_Header Vss_Comm_Object Vss_Comm_Change Vss_Comm_File
begin

text \<open>
  The result codes (\<open>gvm_core/internal/vssi/include/vssi_error.h\<close>) and the data the client
  keeps (\<open>src/vssi_internal.h\<close>): user sessions, object and file states, message buffers.
  Pointers that link the structures into lists belong to the components that walk those lists.
\<close>

section \<open>Result codes\<close>

type_synonym VSSI_Result = int

definition VSSI_SUCCESS :: VSSI_Result where [vssi_consts]: "VSSI_SUCCESS = 0"
definition VSSI_BADVER :: VSSI_Result where [vssi_consts]: "VSSI_BADVER = -16101"
definition VSSI_BADCMD :: VSSI_Result where [vssi_consts]: "VSSI_BADCMD = -16102"
definition VSSI_NOTFOUND :: VSSI_Result where [vssi_consts]: "VSSI_NOTFOUND = -16103"
definition VSSI_CONFLICT :: VSSI_Result where [vssi_consts]: "VSSI_CONFLICT = -16108"
definition VSSI_EOF :: VSSI_Result where [vssi_consts]: "VSSI_EOF = -16109"
definition VSSI_COMM :: VSSI_Result where [vssi_consts]: "VSSI_COMM = -16110"
definition VSSI_NOMEM :: VSSI_Result where [vssi_consts]: "VSSI_NOMEM = -16111"
definition VSSI_INVALID :: VSSI_Result where [vssi_consts]: "VSSI_INVALID = -16112"
definition VSSI_BADSIG :: VSSI_Result where [vssi_consts]: "VSSI_BADSIG = -16116"
definition VSSI_INIT :: VSSI_Result where [vssi_consts]: "VSSI_INIT = -16117"
definition VSSI_CMDLIMIT :: VSSI_Result where [vssi_consts]: "VSSI_CMDLIMIT = -16118"
definition VSSI_ABORTED :: VSSI_Result where [vssi_consts]: "VSSI_ABORTED = -16120"
definition VSSI_BADOBJ :: VSSI_Result where [vssi_consts]: "VSSI_BADOBJ = -16124"
definition VSSI_AGAIN :: VSSI_Result where [vssi_consts]: "VSSI_AGAIN = -16128"
definition VSSI_EXISTS :: VSSI_Result where [vssi_consts]: "VSSI_EXISTS = -16134"

section \<open>State\<close>

record VSSI_UserSession =
  session_handle :: u64
  session_secret :: buffer
  session_signingKey :: buffer
  session_encryptingKey :: buffer

definition session_ok :: "VSSI_UserSession \<Rightarrow> bool" where
  "session_ok s \<longleftrightarrow> length (session_secret s) = 20 \<and> length (session_signingKey s) = 20 \<and>
     length (session_encryptingKey s) = 16"

text \<open>The union \<open>access\<close> of an object is its \<open>vs\<close> member for every object the VSS protocol serves.\<close>

record VSSI_ObjectState =
  access_cluster_id :: u64
  access_user_id :: u64
  access_dataset_id :: u64
  access_proto_handle :: u32
  object_mode :: u32
  object_version :: u64
  object_new_version :: u64
  object_request_size :: u32

record VSSI_FileState =
  file_flags :: u32
  file_origin :: u64
  file_server_handle :: u32

record VSSI_MsgBuffer =
  msg_length :: nat
  msg_msg :: buffer

end
