(* ===== verification/Csl_Hmac.thy ===== *)
theory Csl_Hmac
  imports Csl_Sha_Correct
begin

text \<open>
  The keyed hash of the client (\<open>gvm_core/internal/csl/src/cslhmac.c\<close>): HMAC over the streaming
  SHA-1 of theory \<open>Csl_Sha\<close>, and the proof that it is the HMAC of FIPS 198-1. The stack
  context of \<open>CSL_ResetHmacEx\<close> is uninitialised in C; it starts as \<open>sha_stack\<close> here and the
  reset makes the digest independent of it.
\<close>

record CSL_HmacContext =
  keyExt :: buffer
  hmac_sha :: CSL_ShaContext

definition IPAD :: u8 where "IPAD = 0x36"
definition OPAD :: u8 where "OPAD = 0x5c"

definition sha_stack :: CSL_ShaContext where
  "sha_stack = \<lparr>intermediateHash = replicate 5 0, lengthLo = 0, lengthHi = 0,
     messageBlockIndex = 0, messageBlock = replicate CSL_SHA1_BLOCKSIZE 0\<rparr>"

text \<open>A key longer than a block is replaced by its digest.\<close>

definition hmac_key :: "buffer \<Rightarrow> u32 \<Rightarrow> buffer option" where
  "hmac_key key keySize =
     (if unat keySize > CSL_SHA1_BLOCKSIZE
      then do {
        (c, rc) \<leftarrow> CSL_InputSha (fst (CSL_ResetSha sha_stack)) (Some key) keySize;
        Some (fst (snd (CSL_ResultSha c)))
      }
      else rd_bytes key 0 (unat keySize))"

definition CSL_ResetHmacEx ::
  "CSL_HmacContext \<Rightarrow> buffer \<Rightarrow> u32 \<Rightarrow> (CSL_HmacContext \<times> int) option" where
  "CSL_ResetHmacEx ctx key keySize =
     do {
       k \<leftarrow> hmac_key key keySize;
       let kext = k @ replicate (CSL_SHA1_BLOCKSIZE - length k) 0;
       let kxorpad = map (\<lambda>b. b XOR IPAD) kext;
       (sha, rc) \<leftarrow> CSL_InputSha (fst (CSL_ResetSha (hmac_sha ctx))) (Some kxorpad)
                     (word_of_nat CSL_SHA1_BLOCKSIZE);
       Some (ctx\<lparr>keyExt := kext, hmac_sha := sha\<rparr>, CSL_OK)
     }"

definition CSL_ResetHmac :: "CSL_HmacContext \<Rightarrow> buffer \<Rightarrow> (CSL_HmacContext \<times> int) option" where
  "CSL_ResetHmac ctx key = CSL_ResetHmacEx ctx key (word_of_nat CSL_SHA1_DIGESTSIZE)"

definition CSL_InputHmac ::
  "CSL_HmacContext \<Rightarrow> buffer option \<Rightarrow> u32 \<Rightarrow> (CSL_HmacContext \<times> int) option" where
  "CSL_InputHmac ctx inputData inputSize =
     do {
       (sha, rc) \<leftarrow> CSL_InputSha (hmac_sha ctx) inputData inputSize;
       Some (ctx\<lparr>hmac_sha := sha\<rparr>, CSL_OK)
     }"

definition CSL_ResultHmac :: "CSL_HmacContext \<Rightarrow> (CSL_HmacContext \<times> buffer \<times> int) option" where
  "CSL_ResultHmac ctx =
     (case CSL_ResultSha (hmac_sha ctx) of (sha, hashData, rc) \<Rightarrow>
        let kxorpad = map (\<lambda>b. b XOR OPAD) (keyExt ctx)
        in do {
          (sha1, rc1) \<leftarrow> CSL_InputSha (fst (CSL_ResetSha sha)) (Some kxorpad)
                          (word_of_nat CSL_SHA1_BLOCKSIZE);
          (sha2, rc2) \<leftarrow> CSL_InputSha sha1 (Some hashData) (word_of_nat CSL_SHA1_DIGESTSIZE);
          case CSL_ResultSha sha2 of (sha3, hmac, rc3) \<Rightarrow> Some (ctx\<lparr>hmac_sha := sha3\<rparr>, hmac, CSL_OK)
        })"

section \<open>The code of FIPS 198-1\<close>

definition hmac_K0 :: "buffer \<Rightarrow> buffer" where
  "hmac_K0 key = (let k = (if length key > 64 then sha1 key else key) in k @ replicate (64 - length k) 0)"

definition hmac_sha1 :: "buffer \<Rightarrow> buffer \<Rightarrow> buffer" where
  "hmac_sha1 key m =
     sha1 (map (\<lambda>b. b XOR 0x5c) (hmac_K0 key) @ sha1 (map (\<lambda>b. b XOR 0x36) (hmac_K0 key) @ m))"

lemma length_hmac_K0 [simp]: "length (hmac_K0 key) = 64"
  by (auto simp: hmac_K0_def Let_def)

lemma length_hmac_sha1 [simp]: "length (hmac_sha1 key m) = 20"
  by (simp add: hmac_sha1_def)

definition hmac_represents :: "buffer \<Rightarrow> CSL_HmacContext \<Rightarrow> buffer \<Rightarrow> bool" where
  "hmac_represents key c m \<longleftrightarrow>
     keyExt c = hmac_K0 key \<and>
     sha_represents (hmac_sha c) (map (\<lambda>b. b XOR IPAD) (hmac_K0 key) @ m)"

lemma sha_represents_block: "sha_represents c m \<Longrightarrow> length (messageBlock c) = 64"
  by (auto elim: sha_representsE)

lemma CSL_InputSha_all:
  assumes "length bs < 2 ^ 32" and "n = word_of_nat (length bs)"
  shows "CSL_InputSha c (Some bs) n = Some (shaInputLoop bs c)"
  using CSL_InputSha_loop [OF assms(1)] assms(2) by simp

lemma sha_reset_input:
  assumes "length (messageBlock c) = 64" and "length bs < 2 ^ 61"
  shows "sha_represents (fst (shaInputLoop bs (fst (CSL_ResetSha c)))) bs"
  using sha.input_rep [OF sha_represents_reset [OF assms(1)]] assms(2) by simp

lemma hmac_key_K0:
  assumes "length key < 2 ^ 32"
  shows "\<exists>k. hmac_key key (word_of_nat (length key)) = Some k \<and>
             k @ replicate (64 - length k) 0 = hmac_K0 key"
proof -
  have n: "unat (word_of_nat (length key) :: u32) = length key"
    using assms by (simp add: unsigned_of_nat take_bit_nat_eq_self)
  show ?thesis
  proof (cases "length key > 64")
    case True
    have "sha_represents (fst (shaInputLoop key (fst (CSL_ResetSha sha_stack)))) key"
      by (rule sha_reset_input) (use assms in \<open>simp_all add: sha_stack_def\<close>)
    from CSL_ResultSha_hash(1) [OF this] True assms show ?thesis
      by (simp add: hmac_key_def n CSL_InputSha_loop hmac_K0_def Let_def case_prod_beta)
  next
    case False
    then show ?thesis by (simp add: hmac_key_def n hmac_K0_def)
  qed
qed

lemma CSL_ResetHmacEx_represents:
  assumes "length key < 2 ^ 32" and "length (messageBlock (hmac_sha c)) = 64"
  shows "\<exists>c'. CSL_ResetHmacEx c key (word_of_nat (length key)) = Some (c', CSL_OK) \<and>
              hmac_represents key c' []"
proof -
  obtain k where k: "hmac_key key (word_of_nat (length key)) = Some k"
    "k @ replicate (64 - length k) 0 = hmac_K0 key"
    using hmac_key_K0 [OF assms(1)] by blast
  let ?pad = "map (\<lambda>b. b XOR IPAD) (hmac_K0 key)"
  have "CSL_InputSha (fst (CSL_ResetSha (hmac_sha c))) (Some ?pad) 64 =
        Some (shaInputLoop ?pad (fst (CSL_ResetSha (hmac_sha c))))"
    by (rule CSL_InputSha_all) simp_all
  moreover have "sha_represents (fst (shaInputLoop ?pad (fst (CSL_ResetSha (hmac_sha c))))) ?pad"
    using assms(2) by (intro sha_reset_input) simp_all
  ultimately show ?thesis
    by (simp add: CSL_ResetHmacEx_def k hmac_represents_def case_prod_beta Let_def del: map_append)
qed

lemma CSL_ResultHmac_represents:
  assumes "hmac_represents key c m"
  shows "\<exists>c'. CSL_ResultHmac c = Some (c', hmac_sha1 key m, CSL_OK)"
proof -
  let ?opad = "map (\<lambda>b. b XOR OPAD) (hmac_K0 key)"
  from assms have key: "keyExt c = hmac_K0 key"
    and rep: "sha_represents (hmac_sha c) (map (\<lambda>b. b XOR IPAD) (hmac_K0 key) @ m)"
    by (simp_all add: hmac_represents_def)
  obtain sha h where inner: "CSL_ResultSha (hmac_sha c) = (sha, h, CSL_OK)"
    "h = sha1 (map (\<lambda>b. b XOR IPAD) (hmac_K0 key) @ m)"
    using CSL_ResultSha_hash [OF rep] by (metis prod.collapse)
  then have "length (messageBlock sha) = 64" and h: "length h = 20"
    by (auto simp: CSL_ResultSha_def Let_def)
  then have r0: "sha_represents (fst (CSL_ResetSha sha)) []" by (simp add: sha_represents_reset)
  define s1 where "s1 = fst (shaInputLoop ?opad (fst (CSL_ResetSha sha)))"
  define s2 where "s2 = fst (shaInputLoop h s1)"
  have s1: "sha_represents s1 ?opad" using sha.input_rep [OF r0, of ?opad] by (simp add: s1_def)
  then have s2: "sha_represents s2 (?opad @ h)"
    using sha.input_rep [OF s1, of h] h by (simp add: s2_def)
  have i1: "CSL_InputSha (fst (CSL_ResetSha sha)) (Some ?opad) 64 =
      Some (shaInputLoop ?opad (fst (CSL_ResetSha sha)))"
    by (rule CSL_InputSha_all) simp_all
  have i2: "CSL_InputSha s1 (Some h) 20 = Some (shaInputLoop h s1)"
    by (rule CSL_InputSha_all) (simp_all add: h)
  have "fst (snd (CSL_ResultSha s2)) = hmac_sha1 key m"
    using CSL_ResultSha_hash(1) [OF s2] by (simp add: hmac_sha1_def inner(2) IPAD_def OPAD_def)
  then show ?thesis
    by (simp add: CSL_ResultHmac_def inner(1) key i1 i2 case_prod_beta flip: s1_def s2_def)
qed

interpretation hmac: streaming_hash "hmac_represents key"
  "\<lambda>c bs. case shaInputLoop bs (hmac_sha c) of (sha, rc) \<Rightarrow> (c\<lparr>hmac_sha := sha\<rparr>, rc)"
  "\<lambda>c. case CSL_ResultHmac c of Some (c', h, rc) \<Rightarrow> h | None \<Rightarrow> []"
  "hmac_sha1 key" "2 ^ 61 - 64" for key
proof
  let ?in = "\<lambda>c bs. case shaInputLoop bs (hmac_sha c) of (sha, rc) \<Rightarrow> (c\<lparr>hmac_sha := sha\<rparr>, rc)"
  show "snd (?in c bs) = CSL_OK \<and> hmac_represents key (fst (?in c bs)) (m @ bs)"
    if "hmac_represents key c m" "length m + length bs < 2 ^ 61 - 64" for c m bs
    using that sha.input_rep [of "hmac_sha c" "map (\<lambda>b. b XOR IPAD) (hmac_K0 key) @ m" bs]
    by (simp add: hmac_represents_def case_prod_beta)
  show "(case CSL_ResultHmac c of Some (c', h, rc) \<Rightarrow> h | None \<Rightarrow> []) = hmac_sha1 key m"
    if "hmac_represents key c m" for c m
    using CSL_ResultHmac_represents [OF that] by auto
qed

lemma CSL_InputHmac_represents:
  assumes "hmac_represents key c m" and "length bs < 2 ^ 32" and "length m < 2 ^ 60"
  shows "\<exists>c'. CSL_InputHmac c (Some bs) (word_of_nat (length bs)) = Some (c', CSL_OK) \<and>
              hmac_represents key c' (m @ bs)"
  using hmac.input_rep [OF assms(1), of bs] assms(2,3)
  by (simp add: CSL_InputHmac_def CSL_InputSha_loop case_prod_beta)

end
