(* ===== verification/Csl_Aes.thy ===== *)
theory Csl_Aes
  imports Csl_Aes_Tables
begin

text \<open>
  AES as the client runs it (\<open>gvm_core/internal/csl/src/aes_imp.c\<close>, \<open>aes_api.c\<close>, \<open>aes.c\<close>):
  key expansion for the three key lengths, the table-driven block functions (the rolled loops,
  \<open>FULL_UNROLL\<close> being undefined in every build), the ECB and CBC modes (CFB1 is compiled out) and
  the one-shot entry points. A round key array is the list of its 60 words, a pointer into it an
  offset. The \<open>aes_big_locals\<close> of the entry points are uninitialised in C and zero here; the code
  reads no word of them it has not written.
\<close>

definition AES_DIR_ENCRYPT :: u8 where [simp]: "AES_DIR_ENCRYPT = 0"
definition AES_DIR_DECRYPT :: u8 where [simp]: "AES_DIR_DECRYPT = 1"
definition AES_MODE_ECB :: nat where [simp]: "AES_MODE_ECB = 1"
definition AES_MODE_CBC :: nat where [simp]: "AES_MODE_CBC = 2"
definition AES_TRUE :: int where [simp]: "AES_TRUE = 1"
definition AES_BAD_KEY_DIR :: int where [simp]: "AES_BAD_KEY_DIR = -1"
definition AES_BAD_KEY_MAT :: int where [simp]: "AES_BAD_KEY_MAT = -2"
definition AES_BAD_CIPHER_MODE :: int where [simp]: "AES_BAD_CIPHER_MODE = -4"
definition AES_BAD_CIPHER_STATE :: int where [simp]: "AES_BAD_CIPHER_STATE = -5"
definition AES_MAX_IV_SIZE :: nat where [simp]: "AES_MAX_IV_SIZE = 16"
definition AES_KEYLEN :: int where [simp]: "AES_KEYLEN = 128"

record AesKeyInstance =
  key_direction :: u8
  key_Nr :: nat
  key_rk :: "u32 list"
  key_ek :: "u32 list"

record AesCipherInstance =
  cipher_mode :: nat
  cipher_IV :: buffer

section \<open>Words of a block\<close>

definition GETU32 :: "buffer \<Rightarrow> u32" where
  "GETU32 pt = push_bit 24 (ucast (pt ! 0)) XOR push_bit 16 (ucast (pt ! 1)) XOR
               push_bit 8 (ucast (pt ! 2)) XOR ucast (pt ! 3)"

definition PUTU32 :: "u32 \<Rightarrow> buffer" where
  "PUTU32 st = [ucast (drop_bit 24 st), ucast (drop_bit 16 st), ucast (drop_bit 8 st), ucast st]"

text \<open>The four table indices the code takes from a word.\<close>

definition idx3 :: "u32 \<Rightarrow> nat" where "idx3 w = unat (drop_bit 24 w)"
definition idx2 :: "u32 \<Rightarrow> nat" where "idx2 w = unat (drop_bit 16 w AND 0xff)"
definition idx1 :: "u32 \<Rightarrow> nat" where "idx1 w = unat (drop_bit 8 w AND 0xff)"
definition idx0 :: "u32 \<Rightarrow> nat" where "idx0 w = unat (w AND 0xff)"

section \<open>Key expansion\<close>

text \<open>One turn of the \<open>for (;;)\<close> loop of each key length, at \<open>rk\<close> advanced by the turn number.\<close>

definition keyRotSub :: "u32 \<Rightarrow> u32" where
  "keyRotSub temp =
     (Te4 ! idx2 temp AND 0xff000000) XOR (Te4 ! idx1 temp AND 0x00ff0000) XOR
     (Te4 ! idx0 temp AND 0x0000ff00) XOR (Te4 ! idx3 temp AND 0x000000ff)"

definition keySub :: "u32 \<Rightarrow> u32" where
  "keySub temp =
     (Te4 ! idx3 temp AND 0xff000000) XOR (Te4 ! idx2 temp AND 0x00ff0000) XOR
     (Te4 ! idx1 temp AND 0x0000ff00) XOR (Te4 ! idx0 temp AND 0x000000ff)"

text \<open>\<open>rk[d] = rk[a] ^ rk[b]\<close>, the form of every store of the loops but the first.\<close>

definition xor_at :: "nat \<Rightarrow> nat \<Rightarrow> nat \<Rightarrow> u32 list \<Rightarrow> u32 list" where
  "xor_at d a b rk = rk[d := rk ! a XOR rk ! b]"

definition keyStep128 :: "u32 list \<Rightarrow> nat \<Rightarrow> u32 list" where
  "keyStep128 rk i =
     (let b = 4 * i;
          rk1 = rk[b + 4 := rk ! b XOR keyRotSub (rk ! (b + 3)) XOR rcon ! i]
      in xor_at (b + 7) (b + 3) (b + 6) (xor_at (b + 6) (b + 2) (b + 5)
           (xor_at (b + 5) (b + 1) (b + 4) rk1)))"

definition keyStep192 :: "u32 list \<Rightarrow> nat \<Rightarrow> u32 list" where
  "keyStep192 rk i =
     (let b = 6 * i;
          rk1 = rk[b + 6 := rk ! b XOR keyRotSub (rk ! (b + 5)) XOR rcon ! i];
          rk2 = xor_at (b + 9) (b + 3) (b + 8) (xor_at (b + 8) (b + 2) (b + 7)
                  (xor_at (b + 7) (b + 1) (b + 6) rk1))
      in if i + 1 = 8 then rk2
         else xor_at (b + 11) (b + 5) (b + 10) (xor_at (b + 10) (b + 4) (b + 9) rk2))"

definition keyStep256 :: "u32 list \<Rightarrow> nat \<Rightarrow> u32 list" where
  "keyStep256 rk i =
     (let b = 8 * i;
          rk1 = rk[b + 8 := rk ! b XOR keyRotSub (rk ! (b + 7)) XOR rcon ! i];
          rk2 = xor_at (b + 11) (b + 3) (b + 10) (xor_at (b + 10) (b + 2) (b + 9)
                  (xor_at (b + 9) (b + 1) (b + 8) rk1))
      in if i + 1 = 7 then rk2
         else let rk3 = rk2[b + 12 := rk2 ! (b + 4) XOR keySub (rk2 ! (b + 11))]
              in xor_at (b + 15) (b + 7) (b + 14) (xor_at (b + 14) (b + 6) (b + 13)
                   (xor_at (b + 13) (b + 5) (b + 12) rk3)))"

definition rijndaelKeySetupEnc :: "u32 list \<Rightarrow> buffer \<Rightarrow> int \<Rightarrow> u32 list \<times> nat" where
  "rijndaelKeySetupEnc rk cipherKey keyBits =
     (let rk4 = rk[0 := GETU32 cipherKey, 1 := GETU32 (drop 4 cipherKey),
                   2 := GETU32 (drop 8 cipherKey), 3 := GETU32 (drop 12 cipherKey)]
      in if keyBits = 128 then (foldl keyStep128 rk4 [0..<10], 10)
         else
           let rk6 = rk4[4 := GETU32 (drop 16 cipherKey), 5 := GETU32 (drop 20 cipherKey)]
           in if keyBits = 192 then (foldl keyStep192 rk6 [0..<8], 12)
              else
                let rk8 = rk6[6 := GETU32 (drop 24 cipherKey), 7 := GETU32 (drop 28 cipherKey)]
                in if keyBits = 256 then (foldl keyStep256 rk8 [0..<7], 14)
                   else (rk8, 0))"

text \<open>Reversing the order of the round keys, then InvMixColumns on the inner ones.\<close>

definition swap_words :: "u32 list \<Rightarrow> nat \<Rightarrow> nat \<Rightarrow> u32 list" where
  "swap_words rk i j = (let temp = rk ! i; rk1 = rk[i := rk ! j] in rk1[j := temp])"

function keyReverse :: "u32 list \<Rightarrow> nat \<Rightarrow> nat \<Rightarrow> u32 list" where
  "keyReverse rk i j =
     (if i < j
      then keyReverse
             (swap_words (swap_words (swap_words (swap_words rk i j) (i + 1) (j + 1))
               (i + 2) (j + 2)) (i + 3) (j + 3))
             (i + 4) (j - 4)
      else rk)"
  by pat_completeness auto
termination
  by (relation "measure (\<lambda>(rk, i, j). j - i)") auto

definition keyInvMix :: "u32 \<Rightarrow> u32" where
  "keyInvMix w =
     Td0 ! unat (Te4 ! idx3 w AND 0xff) XOR Td1 ! unat (Te4 ! idx2 w AND 0xff) XOR
     Td2 ! unat (Te4 ! idx1 w AND 0xff) XOR Td3 ! unat (Te4 ! idx0 w AND 0xff)"

definition keyInvMixRound :: "u32 list \<Rightarrow> nat \<Rightarrow> u32 list" where
  "keyInvMixRound rk i =
     (let b = 4 * i
      in rk[b := keyInvMix (rk ! b), b + 1 := keyInvMix (rk ! (b + 1)),
            b + 2 := keyInvMix (rk ! (b + 2)), b + 3 := keyInvMix (rk ! (b + 3))])"

definition rijndaelKeySetupDec :: "u32 list \<Rightarrow> buffer \<Rightarrow> int \<Rightarrow> u32 list \<times> nat" where
  "rijndaelKeySetupDec rk cipherKey keyBits =
     (let (rk1, Nr) = rijndaelKeySetupEnc rk cipherKey keyBits;
          rk2 = keyReverse rk1 0 (4 * Nr)
      in (foldl keyInvMixRound rk2 [1..<Nr], Nr))"

section \<open>One block\<close>

type_synonym aes_state = "u32 \<times> u32 \<times> u32 \<times> u32"

definition aesLoad :: "u32 list \<Rightarrow> buffer \<Rightarrow> aes_state" where
  "aesLoad rk pt =
     (GETU32 pt XOR rk ! 0, GETU32 (drop 4 pt) XOR rk ! 1,
      GETU32 (drop 8 pt) XOR rk ! 2, GETU32 (drop 12 pt) XOR rk ! 3)"

text \<open>One column of a full round and of the last round, with the round key's word.\<close>

definition encCol :: "u32 \<Rightarrow> u32 \<Rightarrow> u32 \<Rightarrow> u32 \<Rightarrow> u32 \<Rightarrow> u32" where
  "encCol s0 s1 s2 s3 k = Te0 ! idx3 s0 XOR Te1 ! idx2 s1 XOR Te2 ! idx1 s2 XOR Te3 ! idx0 s3 XOR k"

definition decCol :: "u32 \<Rightarrow> u32 \<Rightarrow> u32 \<Rightarrow> u32 \<Rightarrow> u32 \<Rightarrow> u32" where
  "decCol s0 s3 s2 s1 k = Td0 ! idx3 s0 XOR Td1 ! idx2 s3 XOR Td2 ! idx1 s2 XOR Td3 ! idx0 s1 XOR k"

definition lastCol :: "u32 list \<Rightarrow> u32 \<Rightarrow> u32 \<Rightarrow> u32 \<Rightarrow> u32 \<Rightarrow> u32 \<Rightarrow> u32" where
  "lastCol T a b c d k =
     (T ! idx3 a AND 0xff000000) XOR (T ! idx2 b AND 0x00ff0000) XOR
     (T ! idx1 c AND 0x0000ff00) XOR (T ! idx0 d AND 0x000000ff) XOR k"

definition encRound :: "u32 list \<Rightarrow> nat \<Rightarrow> aes_state \<Rightarrow> aes_state" where
  "encRound rk off s =
     (case s of (s0, s1, s2, s3) \<Rightarrow>
        (encCol s0 s1 s2 s3 (rk ! off), encCol s1 s2 s3 s0 (rk ! (off + 1)),
         encCol s2 s3 s0 s1 (rk ! (off + 2)), encCol s3 s0 s1 s2 (rk ! (off + 3))))"

definition decRound :: "u32 list \<Rightarrow> nat \<Rightarrow> aes_state \<Rightarrow> aes_state" where
  "decRound rk off s =
     (case s of (s0, s1, s2, s3) \<Rightarrow>
        (decCol s0 s3 s2 s1 (rk ! off), decCol s1 s0 s3 s2 (rk ! (off + 1)),
         decCol s2 s1 s0 s3 (rk ! (off + 2)), decCol s3 s2 s1 s0 (rk ! (off + 3))))"

text \<open>
  The loop of both block functions: two rounds a turn, leaving in the middle of the turn that
  counts \<open>r\<close> down to 0 (\<open>r\<close> starts at 5, 6 or 7).
\<close>

fun aesLoop :: "(u32 list \<Rightarrow> nat \<Rightarrow> aes_state \<Rightarrow> aes_state) \<Rightarrow> u32 list \<Rightarrow> nat \<Rightarrow> nat \<Rightarrow> aes_state \<Rightarrow>
    aes_state \<times> nat" where
  "aesLoop rnd rk off r s =
     (let t = rnd rk (off + 4) s; off' = off + 8
      in if r \<le> 1 then (t, off') else aesLoop rnd rk off' (r - 1) (rnd rk off' t))"

definition rijndaelEncrypt :: "u32 list \<Rightarrow> nat \<Rightarrow> buffer \<Rightarrow> buffer" where
  "rijndaelEncrypt rk Nr pt =
     (case aesLoop encRound rk 0 (drop_bit 1 Nr) (aesLoad rk pt) of ((t0, t1, t2, t3), off) \<Rightarrow>
        PUTU32 (lastCol Te4 t0 t1 t2 t3 (rk ! off)) @
        PUTU32 (lastCol Te4 t1 t2 t3 t0 (rk ! (off + 1))) @
        PUTU32 (lastCol Te4 t2 t3 t0 t1 (rk ! (off + 2))) @
        PUTU32 (lastCol Te4 t3 t0 t1 t2 (rk ! (off + 3))))"

definition rijndaelDecrypt :: "u32 list \<Rightarrow> nat \<Rightarrow> buffer \<Rightarrow> buffer" where
  "rijndaelDecrypt rk Nr ct =
     (case aesLoop decRound rk 0 (drop_bit 1 Nr) (aesLoad rk ct) of ((t0, t1, t2, t3), off) \<Rightarrow>
        PUTU32 (lastCol Td4 t0 t3 t2 t1 (rk ! off)) @
        PUTU32 (lastCol Td4 t1 t0 t3 t2 (rk ! (off + 1))) @
        PUTU32 (lastCol Td4 t2 t1 t0 t3 (rk ! (off + 2))) @
        PUTU32 (lastCol Td4 t3 t2 t1 t0 (rk ! (off + 3))))"

section \<open>Keys and modes (\<open>aes_api.c\<close>)\<close>

text \<open>Each function returns the instance it was given, updated, with its return value.\<close>

definition aesMakeKey :: "AesKeyInstance \<Rightarrow> u8 \<Rightarrow> int \<Rightarrow> buffer \<Rightarrow> AesKeyInstance \<times> int" where
  "aesMakeKey key dir keyLen keyMaterial =
     (if dir = AES_DIR_ENCRYPT \<or> dir = AES_DIR_DECRYPT then
        let key1 = key\<lparr>key_direction := dir\<rparr>
        in if keyLen \<noteq> 128 \<and> keyLen \<noteq> 192 \<and> keyLen \<noteq> 256 then (key1, AES_BAD_KEY_MAT)
           else
             let (rk, Nr) = (if dir = AES_DIR_ENCRYPT
                             then rijndaelKeySetupEnc (key_rk key1) keyMaterial keyLen
                             else rijndaelKeySetupDec (key_rk key1) keyMaterial keyLen);
                 (ek, _) = rijndaelKeySetupEnc (key_ek key1) keyMaterial keyLen
             in (key1\<lparr>key_Nr := Nr, key_rk := rk, key_ek := ek\<rparr>, AES_TRUE)
      else (key, AES_BAD_KEY_DIR))"

definition aesCipherInit :: "AesCipherInstance \<Rightarrow> nat \<Rightarrow> buffer option \<Rightarrow> AesCipherInstance \<times> int" where
  "aesCipherInit cipher mode IV =
     (if mode = AES_MODE_ECB \<or> mode = AES_MODE_CBC
      then (cipher\<lparr>cipher_mode := mode,
              cipher_IV := (case IV of Some iv \<Rightarrow> take AES_MAX_IV_SIZE iv
                                     | None \<Rightarrow> replicate AES_MAX_IV_SIZE 0)\<rparr>, AES_TRUE)
      else (cipher, AES_BAD_CIPHER_MODE))"

text \<open>
  The mode loops over \<open>n\<close> blocks: they read 16 bytes at \<open>off\<close> of the input and write 16 at the
  same offset of the output, another buffer. The four word-wise exclusive ors of CBC are one
  over the 16 bytes.
\<close>

primrec ecbLoop ::
  "(buffer \<Rightarrow> buffer) \<Rightarrow> nat \<Rightarrow> buffer \<Rightarrow> nat \<Rightarrow> buffer \<Rightarrow> buffer option" where
  "ecbLoop f 0 inp off out = Some out"
| "ecbLoop f (Suc n) inp off out =
     do {
       block \<leftarrow> rd_bytes inp off 16;
       out' \<leftarrow> wr_bytes out off (f block);
       ecbLoop f n inp (off + 16) out'
     }"

primrec cbcEncLoop ::
  "(buffer \<Rightarrow> buffer) \<Rightarrow> nat \<Rightarrow> buffer \<Rightarrow> buffer \<Rightarrow> nat \<Rightarrow> buffer \<Rightarrow> (buffer \<times> buffer) option" where
  "cbcEncLoop f 0 iv inp off out = Some (iv, out)"
| "cbcEncLoop f (Suc n) iv inp off out =
     do {
       block \<leftarrow> rd_bytes inp off 16;
       let ct = f (map2 (XOR) block iv);
       out' \<leftarrow> wr_bytes out off ct;
       cbcEncLoop f n ct inp (off + 16) out'
     }"

primrec cbcDecLoop ::
  "(buffer \<Rightarrow> buffer) \<Rightarrow> nat \<Rightarrow> buffer \<Rightarrow> buffer \<Rightarrow> nat \<Rightarrow> buffer \<Rightarrow> (buffer \<times> buffer) option" where
  "cbcDecLoop f 0 iv inp off out = Some (iv, out)"
| "cbcDecLoop f (Suc n) iv inp off out =
     do {
       ct \<leftarrow> rd_bytes inp off 16;
       out' \<leftarrow> wr_bytes out off (map2 (XOR) (f ct) iv);
       cbcDecLoop f n ct inp (off + 16) out'
     }"

definition aesBlockEncrypt ::
  "AesCipherInstance \<Rightarrow> AesKeyInstance \<Rightarrow> buffer option \<Rightarrow> int \<Rightarrow> buffer \<Rightarrow>
     (AesCipherInstance \<times> buffer \<times> int) option" where
  "aesBlockEncrypt cipher key input inputLen outBuffer =
     (if key_direction key = AES_DIR_DECRYPT then Some (cipher, outBuffer, AES_BAD_CIPHER_STATE)
      else case input of
        None \<Rightarrow> Some (cipher, outBuffer, 0)
      | Some inp \<Rightarrow>
          if inputLen \<le> 0 then Some (cipher, outBuffer, 0)
          else
            let numBlocks = inputLen div 128;
                f = rijndaelEncrypt (key_rk key) (key_Nr key)
            in if cipher_mode cipher = AES_MODE_ECB then do {
                 out \<leftarrow> ecbLoop f (nat numBlocks) inp 0 outBuffer;
                 Some (cipher, out, 128 * numBlocks)
               }
               else if cipher_mode cipher = AES_MODE_CBC then do {
                 (iv, out) \<leftarrow> cbcEncLoop f (nat numBlocks) (cipher_IV cipher) inp 0 outBuffer;
                 Some (cipher\<lparr>cipher_IV := iv\<rparr>, out, 128 * numBlocks)
               }
               else Some (cipher, outBuffer, AES_BAD_CIPHER_STATE))"

definition aesBlockDecrypt ::
  "AesCipherInstance \<Rightarrow> AesKeyInstance \<Rightarrow> buffer option \<Rightarrow> int \<Rightarrow> buffer \<Rightarrow>
     (AesCipherInstance \<times> buffer \<times> int) option" where
  "aesBlockDecrypt cipher key input inputLen outBuffer =
     (if (cipher_mode cipher = AES_MODE_ECB \<and> key_direction key = AES_DIR_ENCRYPT) \<or>
         (cipher_mode cipher = AES_MODE_CBC \<and> key_direction key = AES_DIR_ENCRYPT)
      then Some (cipher, outBuffer, AES_BAD_CIPHER_STATE)
      else case input of
        None \<Rightarrow> Some (cipher, outBuffer, 0)
      | Some inp \<Rightarrow>
          if inputLen \<le> 0 then Some (cipher, outBuffer, 0)
          else
            let numBlocks = inputLen div 128;
                f = rijndaelDecrypt (key_rk key) (key_Nr key)
            in if cipher_mode cipher = AES_MODE_ECB then do {
                 out \<leftarrow> ecbLoop f (nat numBlocks) inp 0 outBuffer;
                 Some (cipher, out, 128 * numBlocks)
               }
               else if cipher_mode cipher = AES_MODE_CBC then do {
                 (iv, out) \<leftarrow> cbcDecLoop f (nat numBlocks) (cipher_IV cipher) inp 0 outBuffer;
                 Some (cipher\<lparr>cipher_IV := iv\<rparr>, out, 128 * numBlocks)
               }
               else Some (cipher, outBuffer, AES_BAD_CIPHER_STATE))"

section \<open>One-shot CBC (\<open>aes.c\<close>)\<close>

definition aes_stack_words :: "u32 list" where
  "aes_stack_words = replicate (4 * (14 + 1)) 0"

definition aes_stack_key :: AesKeyInstance where
  "aes_stack_key = \<lparr>key_direction = 0, key_Nr = 0, key_rk = aes_stack_words, key_ek = aes_stack_words\<rparr>"

definition aes_stack_cipher :: AesCipherInstance where
  "aes_stack_cipher = \<lparr>cipher_mode = 0, cipher_IV = replicate 16 0\<rparr>"

text \<open>The expanded decryption key, its 44 words in host order.\<close>

definition aes_HwKeyExpand :: "buffer \<Rightarrow> buffer \<Rightarrow> (buffer \<times> int) option" where
  "aes_HwKeyExpand key expkey =
     (case aesMakeKey aes_stack_key AES_DIR_DECRYPT AES_KEYLEN key of (keyI, rc) \<Rightarrow>
        if rc \<noteq> AES_TRUE then Some (expkey, -1)
        else do {
          out \<leftarrow> wr_bytes expkey 0 (concat (map (host_enc 4) (take 44 (key_rk keyI))));
          Some (out, 0)
        })"

text \<open>
  \<open>bytes*8\<close> is computed in 32 bits and passed as a signed int; the result is compared with it as
  an unsigned one.
\<close>

definition aes_SwEncrypt ::
  "buffer \<Rightarrow> buffer \<Rightarrow> buffer option \<Rightarrow> u32 \<Rightarrow> buffer \<Rightarrow> (buffer \<times> int) option" where
  "aes_SwEncrypt key initVector dataIn bytes dataOut =
     (case aesMakeKey aes_stack_key AES_DIR_ENCRYPT AES_KEYLEN key of (keyI, rc) \<Rightarrow>
        if rc \<noteq> AES_TRUE then Some (dataOut, -1)
        else case aesCipherInit aes_stack_cipher AES_MODE_CBC (Some initVector) of (cipher, error) \<Rightarrow>
          if error \<noteq> AES_TRUE then Some (dataOut, -1)
          else do {
            (cipher', out, n) \<leftarrow> aesBlockEncrypt cipher keyI dataIn (sint (bytes * 8)) dataOut;
            Some (out, if word_of_int n \<noteq> bytes * 8 then -1 else 0)
          })"

definition aes_SwDecrypt ::
  "buffer \<Rightarrow> buffer \<Rightarrow> buffer option \<Rightarrow> u32 \<Rightarrow> buffer \<Rightarrow> (buffer \<times> int) option" where
  "aes_SwDecrypt key initVector dataIn bytes dataOut =
     (case aesMakeKey aes_stack_key AES_DIR_DECRYPT AES_KEYLEN key of (keyI, rc) \<Rightarrow>
        if rc \<noteq> AES_TRUE then Some (dataOut, -1)
        else case aesCipherInit aes_stack_cipher AES_MODE_CBC (Some initVector) of (cipher, error) \<Rightarrow>
          if error \<noteq> AES_TRUE then Some (dataOut, -1)
          else do {
            (cipher', out, n) \<leftarrow> aesBlockDecrypt cipher keyI dataIn (sint (bytes * 8)) dataOut;
            Some (out, if word_of_int n \<noteq> bytes * 8 then -1 else 0)
          })"

end
