(* ===== verification/Vssi_Msg.thy ===== *)
theory Vssi_Msg
  imports Vssi_Types Csl_Hmac Csl_Aes
begin

text \<open>
  Composing and checking messages (\<open>gvm_core/internal/vssi/src/vssi_vss.c\<close>, lines 1034 to 1136
  and 2088 to 2288): packing a header and up to three body parts with padding, signing header and
  body, encrypting the body, and the receiver's verification.

  Allocation is a parameter: \<open>alloc\<close> says whether \<open>calloc\<close> succeeds, \<open>tmp\<close> is what \<open>malloc\<close>
  returned (\<open>None\<close> for NULL, otherwise the uninitialised bytes). The static \<open>randomness\<close> and the
  global \<open>vssi_device_id\<close> are passed as values. Freed memory has no counterpart.
\<close>

definition USE_VSSI_VERSION :: u8 where [simp]: "USE_VSSI_VERSION = 2"
definition CSL_AES_BLOCKSIZE_BYTES :: nat where [simp]: "CSL_AES_BLOCKSIZE_BYTES = 16"
definition CSL_AES_IVSIZE_BYTES :: nat where [simp]: "CSL_AES_IVSIZE_BYTES = 16"

section \<open>Keyed hash and encryption of a buffer\<close>

definition hmac_stack :: CSL_HmacContext where
  "hmac_stack = \<lparr>keyExt = replicate CSL_SHA1_BLOCKSIZE 0, hmac_sha = sha_stack\<rparr>"

text \<open>The bytes \<open>compute_hmac\<close> stores at its \<open>hmac\<close> argument.\<close>

definition compute_hmac :: "buffer \<Rightarrow> nat \<Rightarrow> buffer \<Rightarrow> nat \<Rightarrow> buffer option" where
  "compute_hmac buf len key hmac_size =
     (if len = 0 then Some (replicate hmac_size 0)
      else do {
        (c0, _) \<leftarrow> CSL_ResetHmac hmac_stack key;
        (c1, _) \<leftarrow> CSL_InputHmac c0 (Some buf) (word_of_nat len);
        (c2, calc_hmac, _) \<leftarrow> CSL_ResultHmac c1;
        Some (take (if hmac_size > CSL_SHA1_DIGESTSIZE then CSL_SHA1_DIGESTSIZE else hmac_size)
                calc_hmac)
      })"

text \<open>Failure of the cipher is only logged: the destination keeps what the call left in it.\<close>

definition encrypt_data :: "buffer \<Rightarrow> buffer \<Rightarrow> nat \<Rightarrow> buffer \<Rightarrow> buffer \<Rightarrow> buffer option" where
  "encrypt_data dest src len iv_seed key =
     do {
       iv \<leftarrow> rd_bytes iv_seed 0 CSL_AES_IVSIZE_BYTES;
       (out, rc) \<leftarrow> aes_SwEncrypt key iv (Some src) (word_of_nat len) dest;
       Some out
     }"

definition decrypt_data :: "buffer \<Rightarrow> buffer \<Rightarrow> nat \<Rightarrow> buffer \<Rightarrow> buffer \<Rightarrow> buffer option" where
  "decrypt_data dest src len iv_seed key =
     do {
       iv \<leftarrow> rd_bytes iv_seed 0 CSL_AES_IVSIZE_BYTES;
       (out, rc) \<leftarrow> aes_SwDecrypt key iv (Some src) (word_of_nat len) dest;
       Some out
     }"

section \<open>Verification\<close>

text \<open>Both return the buffer they were given, as they leave it, with their result.\<close>

definition VSSI_VerifyHeader ::
  "buffer \<Rightarrow> VSSI_UserSession \<Rightarrow> u8 \<Rightarrow> u8 \<Rightarrow> (buffer \<times> VSSI_Result) option" where
  "VSSI_VerifyHeader header session sign_mode sign_type =
     do {
       version \<leftarrow> vss_get_version header;
       if version = 0 \<or>
          (sign_mode \<noteq> VSS_NEGOTIATE_SIGNING_MODE_NONE \<and> sign_type = VSS_NEGOTIATE_SIGN_TYPE_SHA1)
       then do {
         orig_hmac \<leftarrow> rd_bytes header VSS_HEADER_HMAC_OFFSET VSS_HMAC_SIZE;
         header1 \<leftarrow> wr_bytes header VSS_HEADER_HMAC_OFFSET (replicate VSS_HMAC_SIZE 0);
         if version = 0 \<or> version = 1 \<or> version = 2 then do {
           calc_hmac \<leftarrow> compute_hmac header1 VSS_HEADER_SIZE
             (if version = 0 then session_secret session else session_signingKey session)
             VSS_HMAC_SIZE;
           Some (header1, if orig_hmac \<noteq> calc_hmac then VSSI_BADSIG else VSSI_SUCCESS)
         }
         else Some (header1, VSSI_BADVER)
       }
       else Some (header, VSSI_SUCCESS)
     }"

text \<open>Decrypting the body in place through a temporary buffer.\<close>

definition verify_decrypt ::
  "buffer \<Rightarrow> buffer \<Rightarrow> nat \<Rightarrow> VSSI_UserSession \<Rightarrow> buffer option" where
  "verify_decrypt tmp command cmdlen session =
     do {
       body \<leftarrow> ptr_at command VSS_HEADER_SIZE;
       out \<leftarrow> decrypt_data tmp body (cmdlen - VSS_HEADER_SIZE) command (session_encryptingKey session);
       memcpy_at command VSS_HEADER_SIZE out (cmdlen - VSS_HEADER_SIZE)
     }"

definition verify_body_hmac :: "buffer \<Rightarrow> nat \<Rightarrow> buffer \<Rightarrow> VSSI_Result option" where
  "verify_body_hmac command cmdlen key =
     do {
       body \<leftarrow> ptr_at command VSS_HEADER_SIZE;
       calc_hmac \<leftarrow> compute_hmac body (cmdlen - VSS_HEADER_SIZE) key VSS_HMAC_SIZE;
       data_hmac \<leftarrow> rd_bytes command VSS_DATA_HMAC_OFFSET VSS_HMAC_SIZE;
       Some (if data_hmac \<noteq> calc_hmac then VSSI_BADSIG else VSSI_SUCCESS)
     }"

text \<open>A length below the header's would wrap in C; every caller passes at least the header.\<close>

definition VSSI_VerifyData ::
  "buffer option \<Rightarrow> buffer \<Rightarrow> nat \<Rightarrow> VSSI_UserSession \<Rightarrow> u8 \<Rightarrow> u8 \<Rightarrow> u8 \<Rightarrow> (buffer \<times> VSSI_Result) option"
  where
  "VSSI_VerifyData tmp command cmdlen session sign_mode sign_type enc_type =
     (if cmdlen < VSS_HEADER_SIZE then None
      else if cmdlen - VSS_HEADER_SIZE = 0 then Some (command, VSSI_SUCCESS)
      else do {
        version \<leftarrow> vss_get_version command;
        if version = 0 then do {
          rv \<leftarrow> verify_body_hmac command cmdlen (session_secret session);
          Some (command, rv)
        }
        else if version = 1 \<or> version = 2 then
          (if enc_type = VSS_NEGOTIATE_ENCRYPT_TYPE_AES128 \<and> tmp = None
           then Some (command, VSSI_NOMEM)
           else do {
             command1 \<leftarrow> (if enc_type = VSS_NEGOTIATE_ENCRYPT_TYPE_AES128
                          then verify_decrypt (the tmp) command cmdlen session else Some command);
             if sign_mode = VSS_NEGOTIATE_SIGNING_MODE_FULL \<and>
                sign_type = VSS_NEGOTIATE_SIGN_TYPE_SHA1
             then do {
               rv \<leftarrow> verify_body_hmac command1 cmdlen (session_signingKey session);
               Some (command1, rv)
             }
             else Some (command1, VSSI_SUCCESS)
           })
        else Some (command, VSSI_BADVER)
      })"

section \<open>Composition\<close>

definition pad_len_of :: "nat \<Rightarrow> nat" where
  "pad_len_of body_len =
     (CSL_AES_BLOCKSIZE_BYTES - body_len mod CSL_AES_BLOCKSIZE_BYTES) mod CSL_AES_BLOCKSIZE_BYTES"

text \<open>
  The padding bytes and the generator's next state. \<open>randomness\<close> is a C int; its arithmetic is
  that of the 32-bit word.
\<close>

definition next_randomness :: "u32 \<Rightarrow> u32" where
  "next_randomness randomness = randomness * 1103515245 + 12345"

fun pad_random :: "nat \<Rightarrow> u32 \<Rightarrow> buffer \<times> u32" where
  "pad_random 0 randomness = ([], randomness)"
| "pad_random (Suc 0) randomness =
     (let r = next_randomness randomness in ([ucast (r AND 0xff)], r))"
| "pad_random (Suc (Suc n)) randomness =
     (let r = next_randomness randomness; (bs, r') = pad_random n r
      in (ucast (r AND 0xff) # ucast (drop_bit 8 r AND 0xff) # bs, r'))"

text \<open>\<open>if(data != NULL && len > 0) { memcpy(body_buf, data, len); body_buf += len; }\<close>\<close>

definition put_part :: "buffer \<Rightarrow> nat \<Rightarrow> buffer option \<Rightarrow> nat \<Rightarrow> (buffer \<times> nat) option" where
  "put_part m off data len =
     (case data of
        None \<Rightarrow> Some (m, off)
      | Some d \<Rightarrow>
          if len > 0 then do { m' \<leftarrow> memcpy_at m off d len; Some (m', off + len) } else Some (m, off))"

definition VSSI_PrepareMessage ::
  "bool \<Rightarrow> u64 \<Rightarrow> u32 \<Rightarrow> buffer \<Rightarrow> buffer option \<Rightarrow> nat \<Rightarrow> buffer option \<Rightarrow> nat \<Rightarrow> buffer option \<Rightarrow> nat \<Rightarrow>
     (VSSI_MsgBuffer option \<times> u32) option" where
  "VSSI_PrepareMessage alloc device_id randomness header fixed_data fixed_len
     var_data1 var_len1 var_data2 var_len2 =
     (let body_len = fixed_len + var_len1 + var_len2;
          pad_len = pad_len_of body_len
      in if \<not> alloc then Some (None, randomness)
         else do {
           h1 \<leftarrow> vss_set_device_id header device_id;
           h2 \<leftarrow> vss_set_version h1 USE_VSSI_VERSION;
           h3 \<leftarrow> vss_set_data_length h2 (word_of_nat body_len);
           m0 \<leftarrow> memcpy_at (replicate (VSS_HEADER_SIZE + body_len + pad_len) 0) 0 h3 VSS_HEADER_SIZE;
           (m1, o1) \<leftarrow> put_part m0 VSS_HEADER_SIZE fixed_data fixed_len;
           (m2, o2) \<leftarrow> put_part m1 o1 var_data1 var_len1;
           (m3, o3) \<leftarrow> put_part m2 o2 var_data2 var_len2;
           let (pad, randomness') = pad_random pad_len randomness;
           m4 \<leftarrow> wr_bytes m3 o3 pad;
           Some (Some \<lparr>msg_length = VSS_HEADER_SIZE + body_len, msg_msg = m4\<rparr>, randomness')
         })"

text \<open>Signing: \<open>None\<close> for an out-of-bounds access; an unsigned part is left alone.\<close>

definition sign_body :: "u8 \<Rightarrow> u8 \<Rightarrow> VSSI_UserSession \<Rightarrow> buffer \<Rightarrow> nat \<Rightarrow> buffer option" where
  "sign_body sign_mode sign_type session m body_len =
     (if USE_VSSI_VERSION = 0 \<or>
         (sign_mode = VSS_NEGOTIATE_SIGNING_MODE_FULL \<and> sign_type = VSS_NEGOTIATE_SIGN_TYPE_SHA1)
      then do {
        body \<leftarrow> ptr_at m VSS_HEADER_SIZE;
        hmac \<leftarrow> compute_hmac body body_len
          (if USE_VSSI_VERSION = 0 then session_secret session else session_signingKey session)
          VSS_HMAC_SIZE;
        wr_bytes m VSS_DATA_HMAC_OFFSET hmac
      }
      else Some m)"

definition sign_header :: "u8 \<Rightarrow> u8 \<Rightarrow> VSSI_UserSession \<Rightarrow> buffer \<Rightarrow> buffer option" where
  "sign_header sign_mode sign_type session m =
     (if USE_VSSI_VERSION = 0 \<or>
         (sign_mode \<noteq> VSS_NEGOTIATE_SIGNING_MODE_NONE \<and> sign_type = VSS_NEGOTIATE_SIGN_TYPE_SHA1)
      then do {
        hmac \<leftarrow> compute_hmac m VSS_HEADER_SIZE
          (if USE_VSSI_VERSION = 0 then session_secret session else session_signingKey session)
          VSS_HMAC_SIZE;
        wr_bytes m VSS_HEADER_HMAC_OFFSET hmac
      }
      else Some m)"

definition VSSI_ComposeMessage ::
  "bool \<Rightarrow> VSSI_UserSession \<Rightarrow> u8 \<Rightarrow> u8 \<Rightarrow> u8 \<Rightarrow> VSSI_MsgBuffer \<Rightarrow> VSSI_MsgBuffer option option" where
  "VSSI_ComposeMessage alloc session sign_mode sign_type enc_type msg =
     do {
       data_length \<leftarrow> vss_get_data_length (msg_msg msg);
       let body_len0 = unat data_length;
       let pad_len = pad_len_of body_len0;
       m1 \<leftarrow> vss_set_handle (msg_msg msg) (session_handle session);
       let enc = (enc_type = VSS_NEGOTIATE_ENCRYPT_TYPE_AES128);
       let body_len = (if enc then body_len0 + pad_len else body_len0);
       m2 \<leftarrow> (if enc then vss_set_data_length m1 (word_of_nat body_len) else Some m1);
       m3 \<leftarrow> sign_body sign_mode sign_type session m2 body_len;
       m4 \<leftarrow> sign_header sign_mode sign_type session m3;
       if USE_VSSI_VERSION = 1 \<or> (USE_VSSI_VERSION = 2 \<and> enc) then
         (if \<not> alloc then Some None
          else do {
            body \<leftarrow> ptr_at m4 VSS_HEADER_SIZE;
            header \<leftarrow> rd_bytes m4 0 VSS_HEADER_SIZE;
            crypt \<leftarrow> encrypt_data (replicate body_len 0) body body_len header
                       (session_encryptingKey session);
            Some (Some \<lparr>msg_length = VSS_HEADER_SIZE + body_len, msg_msg = header @ crypt\<rparr>)
          })
       else Some (Some (msg\<lparr>msg_msg := m4\<rparr>))
     }"

end
