(* ===== verification/Csl_Aes_Table_Facts.thy ===== *)
theory Csl_Aes_Table_Facts
  imports Csl_Aes_Tables
begin

text \<open>
  What the entries of the AES tables are. The substitution box \<open>aes_S\<close> and its inverse are read
  from \<open>Te4\<close> and \<open>Td4\<close>; every other table is a column of the MixColumns matrix (or of its
  inverse) times the box, in the field of \<open>xtime\<close>. Each table is compared with that
  characterisation entry by entry.
\<close>

definition xtime :: "u8 \<Rightarrow> u8" where
  "xtime b = push_bit 1 b XOR (if bit b 7 then 0x1b else 0)"

definition mk4 :: "u8 \<Rightarrow> u8 \<Rightarrow> u8 \<Rightarrow> u8 \<Rightarrow> u32" where
  "mk4 a b c d = push_bit 24 (ucast a) XOR push_bit 16 (ucast b) XOR push_bit 8 (ucast c) XOR ucast d"

definition mixcol0 :: "u8 \<Rightarrow> u8 \<Rightarrow> u32" where "mixcol0 s x = mk4 x s s (x XOR s)"
definition mixcol1 :: "u8 \<Rightarrow> u8 \<Rightarrow> u32" where "mixcol1 s x = mk4 (x XOR s) x s s"
definition mixcol2 :: "u8 \<Rightarrow> u8 \<Rightarrow> u32" where "mixcol2 s x = mk4 s (x XOR s) x s"
definition mixcol3 :: "u8 \<Rightarrow> u8 \<Rightarrow> u32" where "mixcol3 s x = mk4 s s (x XOR s) x"

text \<open>The products with 14, 9, 13 and 11, from \<open>s\<close> and its doubles \<open>x\<close>, \<open>y\<close> and \<open>z\<close>.\<close>

definition mul14 :: "u8 \<Rightarrow> u8 \<Rightarrow> u8 \<Rightarrow> u8 \<Rightarrow> u8" where "mul14 s x y z = z XOR y XOR x"
definition mul9 :: "u8 \<Rightarrow> u8 \<Rightarrow> u8 \<Rightarrow> u8 \<Rightarrow> u8" where "mul9 s x y z = z XOR s"
definition mul13 :: "u8 \<Rightarrow> u8 \<Rightarrow> u8 \<Rightarrow> u8 \<Rightarrow> u8" where "mul13 s x y z = z XOR y XOR s"
definition mul11 :: "u8 \<Rightarrow> u8 \<Rightarrow> u8 \<Rightarrow> u8 \<Rightarrow> u8" where "mul11 s x y z = z XOR x XOR s"

lemmas mul_defs = mul14_def mul9_def mul13_def mul11_def

definition invcol0 :: "u8 \<Rightarrow> u8 \<Rightarrow> u8 \<Rightarrow> u8 \<Rightarrow> u32" where
  "invcol0 s x y z = mk4 (mul14 s x y z) (mul9 s x y z) (mul13 s x y z) (mul11 s x y z)"
definition invcol1 :: "u8 \<Rightarrow> u8 \<Rightarrow> u8 \<Rightarrow> u8 \<Rightarrow> u32" where
  "invcol1 s x y z = mk4 (mul11 s x y z) (mul14 s x y z) (mul9 s x y z) (mul13 s x y z)"
definition invcol2 :: "u8 \<Rightarrow> u8 \<Rightarrow> u8 \<Rightarrow> u8 \<Rightarrow> u32" where
  "invcol2 s x y z = mk4 (mul13 s x y z) (mul11 s x y z) (mul14 s x y z) (mul9 s x y z)"
definition invcol3 :: "u8 \<Rightarrow> u8 \<Rightarrow> u8 \<Rightarrow> u8 \<Rightarrow> u32" where
  "invcol3 s x y z = mk4 (mul9 s x y z) (mul13 s x y z) (mul11 s x y z) (mul14 s x y z)"

definition enc_col :: "(u8 \<Rightarrow> u8 \<Rightarrow> u32) \<Rightarrow> u8 \<Rightarrow> u32" where
  "enc_col f s = f s (xtime s)"

definition dec_col :: "(u8 \<Rightarrow> u8 \<Rightarrow> u8 \<Rightarrow> u8 \<Rightarrow> u32) \<Rightarrow> u8 \<Rightarrow> u32" where
  "dec_col f s = f s (xtime s) (xtime (xtime s)) (xtime (xtime (xtime s)))"

definition Te4_bytes :: "u8 list" where "Te4_bytes = map ucast Te4"
definition Td4_bytes :: "u8 list" where "Td4_bytes = map ucast Td4"

section \<open>The tables, entry by entry\<close>

lemma Te4_entries: "map (\<lambda>w. let s = ucast w in mk4 s s s s) Te4 = Te4"
  by (simp add: Te4_def) (simp add: mk4_def)

lemma Te0_entries: "map (\<lambda>w. enc_col mixcol0 (ucast w)) Te4 = Te0"
  by (simp add: Te0_def Te4_def, simp add: enc_col_def, simp add: xtime_def, simp add: mixcol0_def,
      simp add: mk4_def)

lemma Te1_entries: "map (\<lambda>w. enc_col mixcol1 (ucast w)) Te4 = Te1"
  by (simp add: Te1_def Te4_def, simp add: enc_col_def, simp add: xtime_def, simp add: mixcol1_def,
      simp add: mk4_def)

lemma Te2_entries: "map (\<lambda>w. enc_col mixcol2 (ucast w)) Te4 = Te2"
  by (simp add: Te2_def Te4_def, simp add: enc_col_def, simp add: xtime_def, simp add: mixcol2_def,
      simp add: mk4_def)

lemma Te3_entries: "map (\<lambda>w. enc_col mixcol3 (ucast w)) Te4 = Te3"
  by (simp add: Te3_def Te4_def, simp add: enc_col_def, simp add: xtime_def, simp add: mixcol3_def,
      simp add: mk4_def)

lemma Td4_entries: "map (\<lambda>w. let s = ucast w in mk4 s s s s) Td4 = Td4"
  by (simp add: Td4_def) (simp add: mk4_def)

lemma Td0_entries: "map (\<lambda>w. dec_col invcol0 (ucast w)) Td4 = Td0"
  by (simp add: Td0_def Td4_def, simp add: dec_col_def, simp add: xtime_def, simp add: invcol0_def,
      simp add: mul_defs, simp add: mk4_def)

lemma Td1_entries: "map (\<lambda>w. dec_col invcol1 (ucast w)) Td4 = Td1"
  by (simp add: Td1_def Td4_def, simp add: dec_col_def, simp add: xtime_def, simp add: invcol1_def,
      simp add: mul_defs, simp add: mk4_def)

lemma Td2_entries: "map (\<lambda>w. dec_col invcol2 (ucast w)) Td4 = Td2"
  by (simp add: Td2_def Td4_def, simp add: dec_col_def, simp add: xtime_def, simp add: invcol2_def,
      simp add: mul_defs, simp add: mk4_def)

lemma Td3_entries: "map (\<lambda>w. dec_col invcol3 (ucast w)) Td4 = Td3"
  by (simp add: Td3_def Td4_def, simp add: dec_col_def, simp add: xtime_def, simp add: invcol3_def,
      simp add: mul_defs, simp add: mk4_def)

lemma Td4_inverts_Te4: "map (\<lambda>w. Td4 ! unat (ucast w :: u8)) Te4 = map (\<lambda>n. mk4 n n n n) (map word_of_nat [0..<256])"
  by code_simp

lemma length_tables [simp]:
  "length Te0 = 256" "length Te1 = 256" "length Te2 = 256" "length Te3 = 256" "length Te4 = 256"
  "length Td0 = 256" "length Td1 = 256" "length Td2 = 256" "length Td3 = 256" "length Td4 = 256"
  by (simp_all add: Te0_def Te1_def Te2_def Te3_def Te4_def Td0_def Td1_def Td2_def Td3_def Td4_def)

end
