(* ===== verification/Csl_Aes_Correct.thy ===== *)
theory Csl_Aes_Correct
  imports Csl_Aes Csl_Aes_Table_Facts
begin

text \<open>
  Decryption inverts encryption: for one block under any 128-, 192- or 256-bit key, then for the
  CBC mode through the contract of a block cipher (locale \<open>block_cipher\<close>), then for the
  one-shot entry points the message layer calls.
\<close>

section \<open>Bytes of a word\<close>

definition byte3 :: "u32 \<Rightarrow> u8" where "byte3 w = ucast (drop_bit 24 w)"
definition byte2 :: "u32 \<Rightarrow> u8" where "byte2 w = ucast (drop_bit 16 w)"
definition byte1 :: "u32 \<Rightarrow> u8" where "byte1 w = ucast (drop_bit 8 w)"
definition byte0 :: "u32 \<Rightarrow> u8" where "byte0 w = ucast w"

lemmas byte_defs = byte3_def byte2_def byte1_def byte0_def

lemma bytes_mk4 [simp]:
  "byte3 (mk4 a b c d) = a" "byte2 (mk4 a b c d) = b"
  "byte1 (mk4 a b c d) = c" "byte0 (mk4 a b c d) = d"
  by (auto simp: byte_defs mk4_def intro!: bit_word_eqI) (auto simp: bit_simps dest: bit_imp_le_length)

lemma mk4_bytes: "mk4 (byte3 w) (byte2 w) (byte1 w) (byte0 w) = w"
proof (rule bit_word_eqI)
  fix n assume "n < LENGTH(32)"
  then consider "n < 8" | "8 \<le> n" "n < 16" | "16 \<le> n" "n < 24" | "24 \<le> n" "n < 32"
    by fastforce
  then show "bit (mk4 (byte3 w) (byte2 w) (byte1 w) (byte0 w)) n = bit w n"
    by cases (auto simp: byte_defs mk4_def bit_simps)
qed

lemma word_bytes_eqI:
  "byte3 v = byte3 w \<Longrightarrow> byte2 v = byte2 w \<Longrightarrow> byte1 v = byte1 w \<Longrightarrow> byte0 v = byte0 w \<Longrightarrow> v = w"
  by (metis mk4_bytes)

lemma bytes_xor [simp]:
  "byte3 (v XOR w) = byte3 v XOR byte3 w" "byte2 (v XOR w) = byte2 v XOR byte2 w"
  "byte1 (v XOR w) = byte1 v XOR byte1 w" "byte0 (v XOR w) = byte0 v XOR byte0 w"
  by (simp_all add: byte_defs drop_bit_xor unsigned_xor_eq)

lemma mk4_xor: "mk4 a b c d XOR mk4 a' b' c' d' = mk4 (a XOR a') (b XOR b') (c XOR c') (d XOR d')"
  by (rule word_bytes_eqI) simp_all

lemma ff_mask: "(0xff :: u32) = mask 8"
  by (simp add: mask_eq_exp_minus_1)

lemma unat_and_ff: "unat (w AND 0xff :: u32) = unat (ucast w :: u8)"
  by (simp add: ff_mask flip: take_bit_eq_mask) (simp add: unsigned_take_bit_eq unsigned_ucast_eq)

lemma idx_bytes:
  "idx3 w = unat (byte3 w)" "idx2 w = unat (byte2 w)"
  "idx1 w = unat (byte1 w)" "idx0 w = unat (byte0 w)"
proof -
  have "drop_bit 24 w = drop_bit 24 w AND 0xff"
    by (rule bit_word_eqI) (auto simp: ff_mask bit_simps dest: bit_imp_le_length)
  then show "idx3 w = unat (byte3 w)" by (metis idx3_def byte3_def unat_and_ff)
qed (simp_all add: idx2_def idx1_def idx0_def byte_defs unat_and_ff)

lemma GETU32_bytes: "GETU32 pt = mk4 (pt ! 0) (pt ! 1) (pt ! 2) (pt ! 3)"
  by (simp add: GETU32_def mk4_def)

lemma PUTU32_bytes: "PUTU32 w = [byte3 w, byte2 w, byte1 w, byte0 w]"
  by (simp add: PUTU32_def byte_defs)

section \<open>The tables as functions\<close>

definition aes_S :: "u8 \<Rightarrow> u8" where "aes_S b = ucast (Te4 ! unat b)"
definition aes_Si :: "u8 \<Rightarrow> u8" where "aes_Si b = ucast (Td4 ! unat b)"

lemma u8_index [simp]: "unat (b :: u8) < 256"
  using unsigned_less [of b] by simp

lemma table_entry:
  assumes "map f T = T'" and "length T = 256"
  shows "T' ! unat (b :: u8) = f (T ! unat b)"
  using assms by (metis nth_map u8_index)

lemma Te_tables:
  "Te4 ! unat b = mk4 (aes_S b) (aes_S b) (aes_S b) (aes_S b)"
  "Te0 ! unat b = enc_col mixcol0 (aes_S b)" "Te1 ! unat b = enc_col mixcol1 (aes_S b)"
  "Te2 ! unat b = enc_col mixcol2 (aes_S b)" "Te3 ! unat b = enc_col mixcol3 (aes_S b)"
  using table_entry [OF Te4_entries] table_entry [OF Te0_entries] table_entry [OF Te1_entries]
    table_entry [OF Te2_entries] table_entry [OF Te3_entries]
  by (simp_all add: aes_S_def Let_def)

lemma Td_tables:
  "Td4 ! unat b = mk4 (aes_Si b) (aes_Si b) (aes_Si b) (aes_Si b)"
  "Td0 ! unat b = dec_col invcol0 (aes_Si b)" "Td1 ! unat b = dec_col invcol1 (aes_Si b)"
  "Td2 ! unat b = dec_col invcol2 (aes_Si b)" "Td3 ! unat b = dec_col invcol3 (aes_Si b)"
  using table_entry [OF Td4_entries] table_entry [OF Td0_entries] table_entry [OF Td1_entries]
    table_entry [OF Td2_entries] table_entry [OF Td3_entries]
  by (simp_all add: aes_Si_def Let_def)

lemma aes_Si_S [simp]: "aes_Si (aes_S b) = b"
proof -
  let ?f = "\<lambda>w. Td4 ! unat (ucast w :: u8)" and ?g = "\<lambda>n. mk4 n n n n"
  have "map ?f Te4 ! unat b = map ?g (map word_of_nat [0..<256]) ! unat b"
    by (simp only: Td4_inverts_Te4)
  then have "Td4 ! unat (aes_S b) = mk4 b b b b"
    by (simp add: aes_S_def)
  then show ?thesis by (metis Td_tables(1) bytes_mk4(4))
qed

section \<open>MixColumns and its inverse\<close>

lemma xtime_xor: "xtime (a XOR b) = xtime a XOR xtime b"
proof -
  have "push_bit 1 (a XOR b) = push_bit 1 a XOR push_bit 1 b" by (simp add: push_bit_xor)
  then show ?thesis by (auto simp: xtime_def bit_xor_iff ac_simps xor.left_commute)
qed

definition mix_columns :: "u32 \<Rightarrow> u32" where
  "mix_columns w = enc_col mixcol0 (byte3 w) XOR enc_col mixcol1 (byte2 w) XOR
                   enc_col mixcol2 (byte1 w) XOR enc_col mixcol3 (byte0 w)"

definition inv_mix_columns :: "u32 \<Rightarrow> u32" where
  "inv_mix_columns w = dec_col invcol0 (byte3 w) XOR dec_col invcol1 (byte2 w) XOR
                       dec_col invcol2 (byte1 w) XOR dec_col invcol3 (byte0 w)"

lemmas xor_ac = xor.assoc xor.commute xor.left_commute

lemma xor_cancel [simp]: "(a :: 'a::len word) XOR (a XOR b) = b"
  by (simp flip: xor.assoc)

lemmas mix_simps = enc_col_def dec_col_def mixcol0_def mixcol1_def mixcol2_def mixcol3_def
  invcol0_def invcol1_def invcol2_def invcol3_def mul_defs

lemma dec_col_xor:
  "dec_col invcol0 (a XOR b) = dec_col invcol0 a XOR dec_col invcol0 b"
  "dec_col invcol1 (a XOR b) = dec_col invcol1 a XOR dec_col invcol1 b"
  "dec_col invcol2 (a XOR b) = dec_col invcol2 a XOR dec_col invcol2 b"
  "dec_col invcol3 (a XOR b) = dec_col invcol3 a XOR dec_col invcol3 b"
  by (simp_all add: mix_simps mk4_xor xtime_xor xor_ac)

lemma inv_mix_columns_xor: "inv_mix_columns (v XOR w) = inv_mix_columns v XOR inv_mix_columns w"
  by (simp add: inv_mix_columns_def dec_col_xor xor_ac)

lemma inv_mix_columns_mix: "inv_mix_columns (mix_columns w) = w"
  by (rule word_bytes_eqI; simp add: mix_columns_def inv_mix_columns_def mix_simps xtime_xor;
      simp add: xor_ac)

section \<open>Rounds as transformations of a state\<close>

definition sub_shift :: "aes_state \<Rightarrow> aes_state" where
  "sub_shift s = (case s of (s0, s1, s2, s3) \<Rightarrow>
     (mk4 (aes_S (byte3 s0)) (aes_S (byte2 s1)) (aes_S (byte1 s2)) (aes_S (byte0 s3)),
      mk4 (aes_S (byte3 s1)) (aes_S (byte2 s2)) (aes_S (byte1 s3)) (aes_S (byte0 s0)),
      mk4 (aes_S (byte3 s2)) (aes_S (byte2 s3)) (aes_S (byte1 s0)) (aes_S (byte0 s1)),
      mk4 (aes_S (byte3 s3)) (aes_S (byte2 s0)) (aes_S (byte1 s1)) (aes_S (byte0 s2))))"

definition inv_sub_shift :: "aes_state \<Rightarrow> aes_state" where
  "inv_sub_shift s = (case s of (s0, s1, s2, s3) \<Rightarrow>
     (mk4 (aes_Si (byte3 s0)) (aes_Si (byte2 s3)) (aes_Si (byte1 s2)) (aes_Si (byte0 s1)),
      mk4 (aes_Si (byte3 s1)) (aes_Si (byte2 s0)) (aes_Si (byte1 s3)) (aes_Si (byte0 s2)),
      mk4 (aes_Si (byte3 s2)) (aes_Si (byte2 s1)) (aes_Si (byte1 s0)) (aes_Si (byte0 s3)),
      mk4 (aes_Si (byte3 s3)) (aes_Si (byte2 s2)) (aes_Si (byte1 s1)) (aes_Si (byte0 s0))))"

definition map_state :: "(u32 \<Rightarrow> u32) \<Rightarrow> aes_state \<Rightarrow> aes_state" where
  "map_state f s = (case s of (a, b, c, d) \<Rightarrow> (f a, f b, f c, f d))"

definition xor_state :: "aes_state \<Rightarrow> aes_state \<Rightarrow> aes_state" where
  "xor_state s t = (case (s, t) of ((a, b, c, d), (a', b', c', d')) \<Rightarrow>
     (a XOR a', b XOR b', c XOR c', d XOR d'))"

definition round_key :: "u32 list \<Rightarrow> nat \<Rightarrow> aes_state" where
  "round_key rk i = (rk ! (4 * i), rk ! (4 * i + 1), rk ! (4 * i + 2), rk ! (4 * i + 3))"

lemma inv_sub_shift_sub: "inv_sub_shift (sub_shift s) = s"
  by (cases s) (simp add: inv_sub_shift_def sub_shift_def mk4_bytes)

lemma xor_state_cancel: "xor_state (xor_state s k) k = s"
  by (cases s; cases k) (simp add: xor_state_def xor.assoc)

lemma map_state_inv_mix:
  "map_state inv_mix_columns (map_state mix_columns s) = s"
  "map_state inv_mix_columns (xor_state s k) =
     xor_state (map_state inv_mix_columns s) (map_state inv_mix_columns k)"
  by (cases s; cases k;
      simp add: map_state_def xor_state_def inv_mix_columns_mix inv_mix_columns_xor)+

lemma encRound_state:
  "encRound rk (4 * i) s = xor_state (map_state mix_columns (sub_shift s)) (round_key rk i)"
  by (cases s) (simp add: encRound_def encCol_def idx_bytes Te_tables xor_state_def map_state_def
      sub_shift_def mix_columns_def round_key_def xor.assoc)

lemma decRound_state:
  "decRound rk (4 * i) s = xor_state (map_state inv_mix_columns (inv_sub_shift s)) (round_key rk i)"
  by (cases s) (simp add: decRound_def decCol_def idx_bytes Td_tables xor_state_def map_state_def
      inv_sub_shift_def inv_mix_columns_def round_key_def xor.assoc)

lemma mk4_masks:
  "mk4 a b c d AND 0xff000000 = mk4 a 0 0 0" "mk4 a b c d AND 0x00ff0000 = mk4 0 b 0 0"
  "mk4 a b c d AND 0x0000ff00 = mk4 0 0 c 0" "mk4 a b c d AND 0x000000ff = mk4 0 0 0 d"
proof -
  have m: "(0xff000000 :: u32) = push_bit 24 (mask 8)" "(0x00ff0000 :: u32) = push_bit 16 (mask 8)"
    "(0x0000ff00 :: u32) = push_bit 8 (mask 8)" "(0x000000ff :: u32) = mask 8"
    by (simp_all add: mask_eq_exp_minus_1)
  show "mk4 a b c d AND 0xff000000 = mk4 a 0 0 0" "mk4 a b c d AND 0x00ff0000 = mk4 0 b 0 0"
    "mk4 a b c d AND 0x0000ff00 = mk4 0 0 c 0" "mk4 a b c d AND 0x000000ff = mk4 0 0 0 d"
    unfolding m by (rule bit_word_eqI; auto simp: mk4_def bit_simps dest: bit_imp_le_length)+
qed

lemma lastCol_S:
  "lastCol Te4 a b c d k =
     mk4 (aes_S (byte3 a)) (aes_S (byte2 b)) (aes_S (byte1 c)) (aes_S (byte0 d)) XOR k"
  "lastCol Td4 a b c d k =
     mk4 (aes_Si (byte3 a)) (aes_Si (byte2 b)) (aes_Si (byte1 c)) (aes_Si (byte0 d)) XOR k"
  by (simp_all add: lastCol_def idx_bytes Te_tables(1) Td_tables(1) mk4_masks mk4_xor flip: xor.assoc)

section \<open>One block\<close>

text \<open>The state after \<open>n\<close> full rounds, from the state the first key was added to.\<close>

primrec enc_state :: "u32 list \<Rightarrow> aes_state \<Rightarrow> nat \<Rightarrow> aes_state" where
  "enc_state rk s 0 = s"
| "enc_state rk s (Suc n) =
     xor_state (map_state mix_columns (sub_shift (enc_state rk s n))) (round_key rk (Suc n))"

primrec dec_state :: "u32 list \<Rightarrow> aes_state \<Rightarrow> nat \<Rightarrow> aes_state" where
  "dec_state rk s 0 = s"
| "dec_state rk s (Suc n) =
     xor_state (map_state inv_mix_columns (inv_sub_shift (dec_state rk s n))) (round_key rk (Suc n))"

declare aesLoop.simps [simp del] keyReverse.simps [simp del]

lemma aesLoop_states:
  assumes step: "\<And>i s. rnd rk (4 * i) s = stp i s"
    and st: "\<And>n. st (Suc n) = stp (Suc n) (st n)"
    and "0 < r"
  shows "aesLoop rnd rk (4 * n) r (st n) = (st (n + 2 * r - 1), 4 * (n + 2 * r))"
  using \<open>0 < r\<close>
proof (induction r arbitrary: n rule: less_induct)
  case (less r)
  have rnd1: "rnd rk (4 * n + 4) (st n) = st (Suc n)"
    using step [of "Suc n" "st n"] by (simp add: st add.commute)
  have rnd2: "rnd rk (4 * n + 8) (st (Suc n)) = st (Suc (Suc n))"
    using step [of "Suc (Suc n)" "st (Suc n)"] by (simp add: st [of "Suc n"] add.commute)
  show ?case
  proof (cases "r \<le> 1")
    case True
    then have "r = 1" using less.prems by simp
    then show ?thesis using rnd1
      by (subst aesLoop.simps) (simp add: Let_def)
  next
    case False
    then obtain q where q: "r = Suc q" "0 < q" by (cases r) auto
    have "aesLoop rnd rk (4 * (n + 2)) q (st (n + 2)) = (st (n + 2 + 2 * q - 1), 4 * (n + 2 + 2 * q))"
      by (rule less.IH) (use q in simp_all)
    then show ?thesis using q rnd1 rnd2
      by (subst aesLoop.simps) (simp add: Let_def add.commute)
  qed
qed

definition state_bytes :: "aes_state \<Rightarrow> buffer" where
  "state_bytes s = (case s of (a, b, c, d) \<Rightarrow> PUTU32 a @ PUTU32 b @ PUTU32 c @ PUTU32 d)"

definition block_state :: "buffer \<Rightarrow> aes_state" where
  "block_state b = (GETU32 b, GETU32 (drop 4 b), GETU32 (drop 8 b), GETU32 (drop 12 b))"

lemma block_state_bytes: "block_state (state_bytes s) = s"
  by (cases s) (simp add: block_state_def state_bytes_def PUTU32_bytes GETU32_bytes mk4_bytes)

lemma state_bytes_block:
  assumes "length b = 16"
  shows "state_bytes (block_state b) = b"
proof -
  have "[b ! 0, b ! 1, b ! 2, b ! 3, b ! 4, b ! 5, b ! 6, b ! 7, b ! 8, b ! 9, b ! 10, b ! 11,
         b ! 12, b ! 13, b ! 14, b ! 15] = map ((!) b) [0..<16]"
    by (simp add: upt_rec numeral_eq_Suc)
  also have "\<dots> = b" using assms by (metis map_nth)
  finally show ?thesis using assms
    by (simp add: block_state_def state_bytes_def PUTU32_bytes GETU32_bytes)
qed

lemma aesLoad_state: "aesLoad rk b = xor_state (block_state b) (round_key rk 0)"
  by (simp add: aesLoad_def block_state_def xor_state_def round_key_def numeral_2_eq_2)

lemma length_state_bytes [simp]: "length (state_bytes s) = 16"
  by (cases s) (simp add: state_bytes_def PUTU32_def)

lemma rijndaelEncrypt_state:
  assumes "Nr = 2 * h" and "0 < h"
  shows "rijndaelEncrypt rk Nr pt =
    state_bytes (xor_state (sub_shift (enc_state rk (aesLoad rk pt) (Nr - 1))) (round_key rk Nr))"
proof -
  have "aesLoop encRound rk (4 * 0) h (enc_state rk (aesLoad rk pt) 0) =
      (enc_state rk (aesLoad rk pt) (0 + 2 * h - 1), 4 * (0 + 2 * h))"
    using assms by (intro aesLoop_states [where
        stp = "\<lambda>i s. xor_state (map_state mix_columns (sub_shift s)) (round_key rk i)"])
      (simp_all add: encRound_state)
  then have "aesLoop encRound rk 0 h (aesLoad rk pt) =
      (enc_state rk (aesLoad rk pt) (Nr - 1), 4 * Nr)"
    using assms by simp
  moreover have "drop_bit 1 Nr = h" using assms by (simp add: drop_bit_Suc)
  ultimately show ?thesis
    by (cases "enc_state rk (aesLoad rk pt) (Nr - 1)")
      (simp add: rijndaelEncrypt_def state_bytes_def xor_state_def sub_shift_def round_key_def lastCol_S)
qed

lemma rijndaelDecrypt_state:
  assumes "Nr = 2 * h" and "0 < h"
  shows "rijndaelDecrypt rk Nr ct =
    state_bytes (xor_state (inv_sub_shift (dec_state rk (aesLoad rk ct) (Nr - 1))) (round_key rk Nr))"
proof -
  have "aesLoop decRound rk (4 * 0) h (dec_state rk (aesLoad rk ct) 0) =
      (dec_state rk (aesLoad rk ct) (0 + 2 * h - 1), 4 * (0 + 2 * h))"
    using assms by (intro aesLoop_states [where
        stp = "\<lambda>i s. xor_state (map_state inv_mix_columns (inv_sub_shift s)) (round_key rk i)"])
      (simp_all add: decRound_state)
  then have "aesLoop decRound rk 0 h (aesLoad rk ct) =
      (dec_state rk (aesLoad rk ct) (Nr - 1), 4 * Nr)"
    using assms by simp
  moreover have "drop_bit 1 Nr = h" using assms by (simp add: drop_bit_Suc)
  ultimately show ?thesis
    by (cases "dec_state rk (aesLoad rk ct) (Nr - 1)")
      (simp add: rijndaelDecrypt_def state_bytes_def xor_state_def inv_sub_shift_def round_key_def
        lastCol_S)
qed

lemma length_rijndael [simp]:
  "length (rijndaelEncrypt rk Nr pt) = 16" "length (rijndaelDecrypt rk Nr ct) = 16"
  by (auto simp: rijndaelEncrypt_def rijndaelDecrypt_def PUTU32_def split: prod.split)

text \<open>What the decryption schedule must be for decryption to invert encryption.\<close>

definition inverse_schedule :: "u32 list \<Rightarrow> u32 list \<Rightarrow> nat \<Rightarrow> bool" where
  "inverse_schedule drk rk Nr \<longleftrightarrow>
     round_key drk 0 = round_key rk Nr \<and> round_key drk Nr = round_key rk 0 \<and>
     (\<forall>i. 0 < i \<and> i < Nr \<longrightarrow>
        round_key drk i = map_state inv_mix_columns (round_key rk (Nr - i)))"

lemma dec_state_enc_state:
  assumes inv: "inverse_schedule drk rk Nr" and "n < Nr"
  shows "dec_state drk (sub_shift (enc_state rk s (Nr - 1))) n = sub_shift (enc_state rk s (Nr - 1 - n))"
  using \<open>n < Nr\<close>
proof (induction n)
  case (Suc n)
  let ?e = "enc_state rk s"
  have idx: "Nr - 1 - n = Suc (Nr - 1 - Suc n)" "Nr - Suc n = Suc (Nr - 1 - Suc n)"
    using Suc.prems by simp_all
  have "dec_state drk (sub_shift (?e (Nr - 1))) (Suc n) =
      xor_state (map_state inv_mix_columns (?e (Nr - 1 - n)))
        (map_state inv_mix_columns (round_key rk (Nr - Suc n)))"
    using Suc inv by (simp add: inv_sub_shift_sub inverse_schedule_def)
  also have "\<dots> = map_state inv_mix_columns (xor_state (?e (Nr - 1 - n)) (round_key rk (Nr - Suc n)))"
    by (simp add: map_state_inv_mix)
  also have "xor_state (?e (Nr - 1 - n)) (round_key rk (Nr - Suc n)) =
      map_state mix_columns (sub_shift (?e (Nr - 1 - Suc n)))"
    unfolding idx by (simp add: xor_state_cancel)
  finally show ?case by (simp add: map_state_inv_mix)
qed simp

lemma rijndael_inverse:
  assumes inv: "inverse_schedule drk rk Nr" and Nr: "Nr = 2 * h" "0 < h" and b: "length pt = 16"
  shows "rijndaelDecrypt drk Nr (rijndaelEncrypt rk Nr pt) = pt"
proof -
  define s where "s = aesLoad rk pt"
  have load: "aesLoad drk (rijndaelEncrypt rk Nr pt) = sub_shift (enc_state rk s (Nr - 1))"
    using inv by (simp add: rijndaelEncrypt_state [OF Nr] aesLoad_state block_state_bytes
        xor_state_cancel inverse_schedule_def s_def)
  have "dec_state drk (sub_shift (enc_state rk s (Nr - 1))) (Nr - 1) = sub_shift s"
    using dec_state_enc_state [OF inv, of "Nr - 1" s] Nr by simp
  then have "rijndaelDecrypt drk Nr (rijndaelEncrypt rk Nr pt) =
      state_bytes (xor_state s (round_key rk 0))"
    using inv by (simp add: rijndaelDecrypt_state [OF Nr] load inv_sub_shift_sub inverse_schedule_def)
  then show ?thesis
    using b by (simp add: s_def aesLoad_state xor_state_cancel state_bytes_block)
qed

section \<open>The two key schedules of one key\<close>

lemma round_key_update_other:
  "\<not> (4 * i \<le> j \<and> j < 4 * i + 4) \<Longrightarrow> round_key (rk[j := v]) i = round_key rk i"
  by (auto simp: round_key_def nth_list_update_neq)

lemma round_key_swap:
  assumes "4 * a + 3 < length rk" and "4 * b + 3 < length rk" and "a \<noteq> b"
  defines "rk' \<equiv> swap_words (swap_words (swap_words (swap_words rk (4 * a) (4 * b))
      (4 * a + 1) (4 * b + 1)) (4 * a + 2) (4 * b + 2)) (4 * a + 3) (4 * b + 3)"
  shows "round_key rk' i = round_key rk (if i = a then b else if i = b then a else i)"
    and "length rk' = length rk"
proof -
  have ne: "4 * a \<noteq> 4 * b" "4 * a + 1 \<noteq> 4 * b + 1" "4 * a + 2 \<noteq> 4 * b + 2" "4 * a + 3 \<noteq> 4 * b + 3"
    using assms(3) by simp_all
  have nth: "swap_words r x y ! j = (if j = y then r ! x else if j = x then r ! y else r ! j)"
    if "x < length r" "y < length r" for r x y j
    using that by (auto simp: swap_words_def Let_def nth_list_update)
  have len: "length (swap_words r x y) = length r" for r x y
    by (simp add: swap_words_def Let_def)
  have far: "4 * x + p = 4 * y + q \<longleftrightarrow> x = y \<and> p = q" if "p < 4" "q < 4" for x y p q :: nat
    using that by presburger
  show "length rk' = length rk" by (simp add: rk'_def len)
  have "rk' ! (4 * i + p) = rk ! (4 * (if i = a then b else if i = b then a else i) + p)"
    if "p < 4" for p
  proof -
    from that consider "p = 0" | "p = 1" | "p = 2" | "p = 3" by linarith
    then show ?thesis
      using assms(1,2,3) far [of 0 p a i]
      by cases (auto simp: rk'_def nth len; presburger)+
  qed
  from this [of 0] this [of 1] this [of 2] this [of 3]
  show "round_key rk' i = round_key rk (if i = a then b else if i = b then a else i)"
    by (simp add: round_key_def)
qed

lemma keyReverse_round_keys:
  "a + b = N \<Longrightarrow> 4 * N + 3 < length rk \<Longrightarrow>
     length (keyReverse rk (4 * a) (4 * b)) = length rk \<and>
     (\<forall>i. round_key (keyReverse rk (4 * a) (4 * b)) i =
          round_key rk (if a \<le> i \<and> i \<le> b then N - i else i))"
proof (induction b arbitrary: a rk rule: less_induct)
  case (less b)
  show ?case
  proof (cases "a < b")
    case False
    then have "keyReverse rk (4 * a) (4 * b) = rk" by (simp add: keyReverse.simps)
    moreover have "N - i = i" if "a \<le> i" "i \<le> b" for i using that False less.prems by simp
    ultimately show ?thesis by auto
  next
    case True
    define rk' where "rk' = swap_words (swap_words (swap_words (swap_words rk (4 * a) (4 * b))
      (4 * a + 1) (4 * b + 1)) (4 * a + 2) (4 * b + 2)) (4 * a + 3) (4 * b + 3)"
    have in_range: "4 * a + 3 < length rk" "4 * b + 3 < length rk" "a \<noteq> b"
      using True less.prems by simp_all
    note swap = round_key_swap [OF in_range, folded rk'_def]
    have "4 * a + 4 = 4 * (a + 1)" "4 * b - 4 = 4 * (b - 1)" by simp_all
    then have rec: "keyReverse rk (4 * a) (4 * b) = keyReverse rk' (4 * (a + 1)) (4 * (b - 1))"
      using True keyReverse.simps [of rk "4 * a" "4 * b"] by (simp only: rk'_def) simp
    have ih: "length (keyReverse rk' (4 * (a + 1)) (4 * (b - 1))) = length rk' \<and>
        (\<forall>i. round_key (keyReverse rk' (4 * (a + 1)) (4 * (b - 1))) i =
             round_key rk' (if a + 1 \<le> i \<and> i \<le> b - 1 then N - i else i))"
      by (rule less.IH) (use True less.prems swap(2) in simp_all)
    have "round_key rk' (if a + 1 \<le> i \<and> i \<le> b - 1 then N - i else i) =
        round_key rk (if a \<le> i \<and> i \<le> b then N - i else i)" for i
      using True less.prems by (auto simp: swap(1))
    then show ?thesis using ih rec swap(2) by simp
  qed
qed

lemma keyInvMix_columns: "keyInvMix w = inv_mix_columns w"
proof -
  have "unat (mk4 s s s s AND 0xff) = unat s" for s
    using bytes_mk4(4) [of s s s s] by (simp add: unat_and_ff byte0_def)
  then show ?thesis
    by (simp add: keyInvMix_def inv_mix_columns_def idx_bytes Te_tables(1) Td_tables)
qed

lemma keyInvMixRound_keys:
  assumes "4 * m + 3 < length rk"
  shows "round_key (keyInvMixRound rk m) i =
           (if i = m then map_state inv_mix_columns (round_key rk m) else round_key rk i)"
    and "length (keyInvMixRound rk m) = length rk"
proof -
  show "length (keyInvMixRound rk m) = length rk" by (simp add: keyInvMixRound_def Let_def)
  show "round_key (keyInvMixRound rk m) i =
      (if i = m then map_state inv_mix_columns (round_key rk m) else round_key rk i)"
  proof (cases "i = m")
    case True
    then show ?thesis using assms
      by (simp add: keyInvMixRound_def Let_def round_key_def map_state_def keyInvMix_columns
          nth_list_update)
  next
    case False
    then have "\<not> (4 * i \<le> 4 * m + p \<and> 4 * m + p < 4 * i + 4)" if "p < 4" for p
      using that by presburger
    from this [of 0] this [of 1] this [of 2] this [of 3] False show ?thesis
      by (simp add: keyInvMixRound_def Let_def round_key_update_other)
  qed
qed

lemma keyInvMix_fold:
  "4 * n < length rk + 1 \<Longrightarrow>
     length (foldl keyInvMixRound rk [1..<n]) = length rk \<and>
     (\<forall>i. round_key (foldl keyInvMixRound rk [1..<n]) i =
          (if 0 < i \<and> i < n then map_state inv_mix_columns (round_key rk i) else round_key rk i))"
proof (induction n)
  case (Suc n)
  show ?case
  proof (cases "n = 0")
    case False
    let ?f = "foldl keyInvMixRound rk [1..<n]"
    have ih: "length ?f = length rk" "round_key ?f i = (if 0 < i \<and> i < n
        then map_state inv_mix_columns (round_key rk i) else round_key rk i)" for i
      using Suc by simp_all
    have "4 * n + 3 < length ?f" using Suc.prems ih(1) by simp
    note upd = keyInvMixRound_keys [OF this]
    have "foldl keyInvMixRound rk [1..<Suc n] = keyInvMixRound ?f n" using False by simp
    then show ?thesis using False by (simp only: upd ih) (auto simp: ih less_Suc_eq)
  qed simp
qed simp

lemma length_key_steps [simp]:
  "length (keyStep128 rk i) = length rk" "length (keyStep192 rk i) = length rk"
  "length (keyStep256 rk i) = length rk"
  by (simp_all add: keyStep128_def keyStep192_def keyStep256_def xor_at_def Let_def)

lemma length_foldl_keep: "(\<And>x i. length (f x i) = length x) \<Longrightarrow> length (foldl f rk js) = length rk"
  by (induction js arbitrary: rk) auto

lemma length_rijndaelKeySetupEnc:
  "length (fst (rijndaelKeySetupEnc rk k n)) = length rk"
  by (simp add: rijndaelKeySetupEnc_def Let_def length_foldl_keep)

lemma rounds_rijndaelKeySetupEnc:
  "n \<in> {128, 192, 256} \<Longrightarrow> snd (rijndaelKeySetupEnc rk k n) \<in> {10, 12, 14}"
  by (auto simp: rijndaelKeySetupEnc_def Let_def)

lemma key_schedules_inverse:
  assumes "length drk = 60" and "keyBits \<in> {128, 192, 256}"
  shows "inverse_schedule (fst (rijndaelKeySetupDec drk cipherKey keyBits))
           (fst (rijndaelKeySetupEnc drk cipherKey keyBits))
           (snd (rijndaelKeySetupEnc drk cipherKey keyBits))"
proof -
  obtain rk Nr where su: "rijndaelKeySetupEnc drk cipherKey keyBits = (rk, Nr)" by fastforce
  have len: "length rk = 60" and Nr: "Nr \<in> {10, 12, 14}"
    using length_rijndaelKeySetupEnc [of drk cipherKey keyBits]
      rounds_rijndaelKeySetupEnc [OF assms(2), of drk cipherKey] assms(1) su by simp_all
  have revkeys: "length (keyReverse rk 0 (4 * Nr)) = 60"
    "round_key (keyReverse rk 0 (4 * Nr)) i = round_key rk (if i \<le> Nr then Nr - i else i)" for i
    using keyReverse_round_keys [of 0 Nr Nr rk] len Nr by auto
  have "round_key (foldl keyInvMixRound (keyReverse rk 0 (4 * Nr)) [1..<Nr]) i =
      (if 0 < i \<and> i < Nr then map_state inv_mix_columns (round_key rk (Nr - i))
       else round_key rk (if i \<le> Nr then Nr - i else i))" for i
    using keyInvMix_fold [of Nr "keyReverse rk 0 (4 * Nr)"] revkeys Nr by auto
  then show ?thesis
    by (simp add: rijndaelKeySetupDec_def su Let_def inverse_schedule_def)
qed

section \<open>Cipher block chaining over any block cipher\<close>

primrec cbc_enc :: "(buffer \<Rightarrow> buffer) \<Rightarrow> nat \<Rightarrow> buffer \<Rightarrow> buffer \<Rightarrow> buffer" where
  "cbc_enc f 0 iv m = []"
| "cbc_enc f (Suc n) iv m =
     (let c = f (map2 (XOR) (take 16 m) iv) in c @ cbc_enc f n c (drop 16 m))"

primrec cbc_dec :: "(buffer \<Rightarrow> buffer) \<Rightarrow> nat \<Rightarrow> buffer \<Rightarrow> buffer \<Rightarrow> buffer" where
  "cbc_dec f 0 iv c = []"
| "cbc_dec f (Suc n) iv c =
     map2 (XOR) (f (take 16 c)) iv @ cbc_dec f n (take 16 c) (drop 16 c)"

lemma map2_xor_cancel:
  "length a = length b \<Longrightarrow> map2 (XOR) (map2 (XOR) a b) b = (a :: buffer)"
  by (induction a b rule: list_induct2) (simp_all add: xor.assoc)

lemma wr_rd_step:
  assumes "off + 16 \<le> length out" and "length c = 16"
  shows "wr_bytes out off c = Some (take off out @ c @ drop (off + 16) out)"
  using assms by (simp add: wr_bytes_def)

locale block_cipher =
  fixes enc :: "buffer \<Rightarrow> buffer" and dec :: "buffer \<Rightarrow> buffer"
  assumes length_enc: "length (enc b) = 16"
    and length_dec: "length (dec b) = 16"
    and dec_enc: "length b = 16 \<Longrightarrow> dec (enc b) = b"
begin

lemma length_cbc_enc: "length (cbc_enc enc n iv m) = 16 * n"
  by (induction n arbitrary: iv m) (simp_all add: Let_def length_enc)

lemma length_cbc_dec: "length iv = 16 \<Longrightarrow> 16 * n \<le> length c \<Longrightarrow> length (cbc_dec dec n iv c) = 16 * n"
  by (induction n arbitrary: iv c) (simp_all add: length_dec)

lemma cbc_dec_enc:
  "length iv = 16 \<Longrightarrow> 16 * n \<le> length m \<Longrightarrow> cbc_dec dec n iv (cbc_enc enc n iv m @ z) = take (16 * n) m"
proof (induction n arbitrary: iv m)
  case (Suc n)
  let ?x = "map2 (XOR) (take 16 m) iv"
  have "cbc_dec dec n (enc ?x) (cbc_enc enc n (enc ?x) (drop 16 m) @ z) = take (16 * n) (drop 16 m)"
    using Suc by (simp add: length_enc)
  moreover have "map2 (XOR) (dec (enc ?x)) iv = take 16 m"
    using Suc.prems by (simp add: dec_enc map2_xor_cancel)
  ultimately show ?case
    using Suc.prems by (simp add: Let_def length_enc take_add flip: take_add)
qed simp

lemma cbcEncLoop_spec:
  "off + 16 * n \<le> length inp \<Longrightarrow> off + 16 * n \<le> length out \<Longrightarrow>
     \<exists>iv'. cbcEncLoop enc n iv inp off out =
       Some (iv', take off out @ cbc_enc enc n iv (drop off inp) @ drop (off + 16 * n) out)"
proof (induction n arbitrary: iv off out)
  case (Suc n)
  let ?c = "enc (map2 (XOR) (take 16 (drop off inp)) iv)"
  let ?out = "take off out @ ?c @ drop (off + 16) out"
  have le: "16 * n \<le> length out - (off + 16)" using Suc.prems by simp
  have "wr_bytes out off ?c = Some ?out"
    by (rule wr_rd_step) (use Suc.prems in \<open>simp_all add: length_enc\<close>)
  moreover obtain iv' where "cbcEncLoop enc n ?c inp (off + 16) ?out =
      Some (iv', take (off + 16) ?out @ cbc_enc enc n ?c (drop (off + 16) inp) @
             drop (off + 16 + 16 * n) ?out)"
    using Suc.IH [of "off + 16" ?out ?c] Suc.prems le by (auto simp: length_enc)
  ultimately show ?case
    using Suc.prems by (simp add: rd_bytes_def Let_def length_enc add.assoc add.commute add.left_commute)
qed simp

lemma cbcDecLoop_spec:
  "off + 16 * n \<le> length inp \<Longrightarrow> off + 16 * n \<le> length out \<Longrightarrow> length iv = 16 \<Longrightarrow>
     \<exists>iv'. cbcDecLoop dec n iv inp off out =
       Some (iv', take off out @ cbc_dec dec n iv (drop off inp) @ drop (off + 16 * n) out)"
proof (induction n arbitrary: iv off out)
  case (Suc n)
  let ?ct = "take 16 (drop off inp)"
  let ?c = "map2 (XOR) (dec ?ct) iv"
  let ?out = "take off out @ ?c @ drop (off + 16) out"
  have le: "16 * n \<le> length out - (off + 16)" using Suc.prems by simp
  have "wr_bytes out off ?c = Some ?out"
    by (rule wr_rd_step) (use Suc.prems in \<open>simp_all add: length_dec\<close>)
  moreover obtain iv' where "cbcDecLoop dec n ?ct inp (off + 16) ?out =
      Some (iv', take (off + 16) ?out @ cbc_dec dec n ?ct (drop (off + 16) inp) @
             drop (off + 16 + 16 * n) ?out)"
    using Suc.IH [of "off + 16" ?out ?ct] Suc.prems le by (auto simp: length_dec)
  ultimately show ?case
    using Suc.prems by (simp add: rd_bytes_def Let_def length_dec add.assoc add.commute add.left_commute)
qed simp

end

definition aes_enc_key :: "buffer \<Rightarrow> u32 list" where
  "aes_enc_key key = fst (rijndaelKeySetupEnc aes_stack_words key 128)"

definition aes_dec_key :: "buffer \<Rightarrow> u32 list" where
  "aes_dec_key key = fst (rijndaelKeySetupDec aes_stack_words key 128)"

lemma rounds_128:
  "snd (rijndaelKeySetupEnc rk key 128) = 10" "snd (rijndaelKeySetupDec rk key 128) = 10"
  by (simp_all only: rijndaelKeySetupDec_def rijndaelKeySetupEnc_def Let_def if_True simp_thms
      prod.case snd_conv)

lemma aes_schedules_inverse: "inverse_schedule (aes_dec_key key) (aes_enc_key key) 10"
  using key_schedules_inverse [of aes_stack_words 128 key]
  by (simp add: aes_dec_key_def aes_enc_key_def rounds_128 aes_stack_words_def)

interpretation aes128: block_cipher "rijndaelEncrypt (aes_enc_key key) 10"
  "rijndaelDecrypt (aes_dec_key key) 10" for key
  by unfold_locales
    (simp_all add: rijndael_inverse [OF aes_schedules_inverse, of 5])

section \<open>The one-shot entry points\<close>

lemma aesMakeKey_128:
  "aesMakeKey aes_stack_key 0 128 key =
     (\<lparr>key_direction = 0, key_Nr = 10, key_rk = aes_enc_key key, key_ek = aes_enc_key key\<rparr>, 1)"
  "aesMakeKey aes_stack_key 1 128 key =
     (\<lparr>key_direction = 1, key_Nr = 10, key_rk = aes_dec_key key, key_ek = aes_enc_key key\<rparr>, 1)"
  by (simp_all add: aesMakeKey_def aes_stack_key_def aes_enc_key_def aes_dec_key_def Let_def
      case_prod_beta rounds_128)

lemma sw_length:
  assumes "unat (bytes :: u32) < 2 ^ 28"
  shows "sint (bytes * 8) = 8 * int (unat bytes)"
proof -
  have "unat (bytes * 8) = unat bytes * 8" using assms by (simp add: unat_word_ariths)
  then have u: "uint (bytes * 8) = 8 * uint bytes"
    using uint_nat [of "bytes * 8"] by simp
  have "uint bytes < int (2 ^ 28)"
    using assms by (simp only: uint_nat of_nat_less_iff)
  then have b: "uint bytes < 2 ^ 28" by simp
  have "sint (bytes * 8) = signed_take_bit (LENGTH(32) - 1) (uint (bytes * 8))"
    by (simp only: sint_uint One_nat_def)
  also have "\<dots> = uint (bytes * 8)"
  proof (rule signed_take_bit_int_eq_self)
    show "- (2 ^ (LENGTH(32) - 1)) \<le> uint (bytes * 8)"
      using uint_ge_0 [of "bytes * 8"] by (rule order_trans [rotated]) simp
    show "uint (bytes * 8) < 2 ^ (LENGTH(32) - 1)" using u b by simp
  qed
  finally show ?thesis using u by simp
qed

text \<open>Within the length limit both calls do what CBC prescribes and report success.\<close>

definition aes_cbc_length_ok :: "u32 \<Rightarrow> bool" where
  "aes_cbc_length_ok bytes \<longleftrightarrow> unat bytes < 2 ^ 28 \<and> 16 dvd unat bytes"

lemma sw_block_count:
  assumes "aes_cbc_length_ok bytes"
  shows "nat (sint (bytes * 8) div 128) = unat bytes div 16"
    and "128 * (sint (bytes * 8) div 128) = sint (bytes * 8)"
proof -
  obtain k where k: "unat bytes = 16 * k" using assms by (auto simp: aes_cbc_length_ok_def)
  then have "sint (bytes * 8) = 128 * int k"
    using assms sw_length [of bytes] by (simp add: aes_cbc_length_ok_def)
  then show "nat (sint (bytes * 8) div 128) = unat bytes div 16"
    and "128 * (sint (bytes * 8) div 128) = sint (bytes * 8)" using k by simp_all
qed

lemma aes_SwEncrypt_cbc:
  assumes ok: "aes_cbc_length_ok bytes" and "length iv = 16"
    and "unat bytes \<le> length m" and "unat bytes \<le> length out"
  shows "aes_SwEncrypt key iv (Some m) bytes out =
    Some (cbc_enc (rijndaelEncrypt (aes_enc_key key) 10) (unat bytes div 16) iv m @
          drop (unat bytes) out, 0)"
proof (cases "bytes = 0")
  case True
  then show ?thesis
    by (simp add: aes_SwEncrypt_def aesMakeKey_128 aesCipherInit_def aesBlockEncrypt_def)
next
  case False
  have n: "16 * (unat bytes div 16) = unat bytes" using ok by (simp add: aes_cbc_length_ok_def)
  have pos: "\<not> sint (bytes * 8) \<le> 0"
    using sw_length [of bytes] ok False by (simp add: aes_cbc_length_ok_def unsigned_eq_0_iff)
  obtain iv' where "cbcEncLoop (rijndaelEncrypt (aes_enc_key key) 10) (unat bytes div 16) iv m 0 out =
      Some (iv', cbc_enc (rijndaelEncrypt (aes_enc_key key) 10) (unat bytes div 16) iv m @
        drop (unat bytes) out)"
    using aes128.cbcEncLoop_spec [of 0 "unat bytes div 16" m out key iv] assms n by auto
  then show ?thesis
    using assms pos
    by (simp add: aes_SwEncrypt_def aesMakeKey_128 aesCipherInit_def aesBlockEncrypt_def
        aes_stack_cipher_def Let_def sw_block_count)
qed

lemma aes_SwDecrypt_cbc:
  assumes ok: "aes_cbc_length_ok bytes" and "length iv = 16"
    and "unat bytes \<le> length m" and "unat bytes \<le> length out"
  shows "aes_SwDecrypt key iv (Some m) bytes out =
    Some (cbc_dec (rijndaelDecrypt (aes_dec_key key) 10) (unat bytes div 16) iv m @
          drop (unat bytes) out, 0)"
proof (cases "bytes = 0")
  case True
  then show ?thesis
    by (simp add: aes_SwDecrypt_def aesMakeKey_128 aesCipherInit_def aesBlockDecrypt_def
        aes_stack_cipher_def)
next
  case False
  have n: "16 * (unat bytes div 16) = unat bytes" using ok by (simp add: aes_cbc_length_ok_def)
  have pos: "\<not> sint (bytes * 8) \<le> 0"
    using sw_length [of bytes] ok False by (simp add: aes_cbc_length_ok_def unsigned_eq_0_iff)
  obtain iv' where "cbcDecLoop (rijndaelDecrypt (aes_dec_key key) 10) (unat bytes div 16) iv m 0 out =
      Some (iv', cbc_dec (rijndaelDecrypt (aes_dec_key key) 10) (unat bytes div 16) iv m @
        drop (unat bytes) out)"
    using aes128.cbcDecLoop_spec [of 0 "unat bytes div 16" m out iv key] assms n by auto
  then show ?thesis
    using assms pos
    by (simp add: aes_SwDecrypt_def aesMakeKey_128 aesCipherInit_def aesBlockDecrypt_def
        aes_stack_cipher_def Let_def sw_block_count)
qed

section \<open>Properties of the cipher\<close>

text \<open>
  C11: with the decryption schedule of a key of 128, 192 or 256 bits, the code's block
  decryption returns the plaintext block its block encryption was given under that key.
\<close>

theorem rijndael_decrypt_encrypt:
  assumes "keyBits \<in> {128, 192, 256}" and "length drk = 60" and "length pt = 16"
  shows "let (ek, Nr) = rijndaelKeySetupEnc drk cipherKey keyBits;
             (dk, Nr') = rijndaelKeySetupDec drk cipherKey keyBits
         in Nr' = Nr \<and> rijndaelDecrypt dk Nr (rijndaelEncrypt ek Nr pt) = pt"
proof -
  obtain ek Nr where e: "rijndaelKeySetupEnc drk cipherKey keyBits = (ek, Nr)" by fastforce
  obtain dk Nr' where d: "rijndaelKeySetupDec drk cipherKey keyBits = (dk, Nr')" by fastforce
  have inv: "inverse_schedule dk ek Nr"
    using key_schedules_inverse [OF assms(2,1), of cipherKey] by (simp add: e d)
  have "Nr' = Nr" using e d by (auto simp: rijndaelKeySetupDec_def Let_def)
  moreover have "Nr \<in> {10, 12, 14}"
    using rounds_rijndaelKeySetupEnc [OF assms(1), of drk cipherKey] by (simp add: e)
  then obtain h where "Nr = 2 * h" "0 < h" using that [of 5] that [of 6] that [of 7] by auto
  ultimately show ?thesis using rijndael_inverse [OF inv _ _ assms(3)] by (simp add: e d)
qed

theorem rijndael_decrypt_encrypt_witness:
  "let (ek, Nr) = rijndaelKeySetupEnc (replicate 60 0) (map word_of_nat [0..<24]) 192;
       (dk, Nr') = rijndaelKeySetupDec (replicate 60 0) (map word_of_nat [0..<24]) 192
   in Nr' = Nr \<and> rijndaelDecrypt dk Nr (rijndaelEncrypt ek Nr (replicate 16 0x5A)) = replicate 16 0x5A"
  by (rule rijndael_decrypt_encrypt) simp_all

text \<open>
  C10: for a length that is a multiple of the block size below 2 to the 28 bytes,
  \<open>aes_SwEncrypt\<close> succeeds, touches only that many bytes of the output, and \<open>aes_SwDecrypt\<close> with
  the same key and initialisation vector recovers the data.
\<close>

theorem aes_sw_roundtrip:
  assumes "aes_cbc_length_ok bytes" and "length iv = 16" and "unat bytes \<le> length m"
    and "unat bytes \<le> length out" and "unat bytes \<le> length out'"
  shows "\<exists>ct. aes_SwEncrypt key iv (Some m) bytes out = Some (ct, 0) \<and> length ct = length out \<and>
              drop (unat bytes) ct = drop (unat bytes) out \<and>
              aes_SwDecrypt key iv (Some ct) bytes out' =
                Some (take (unat bytes) m @ drop (unat bytes) out', 0)"
proof -
  let ?n = "unat bytes div 16"
  let ?c = "cbc_enc (rijndaelEncrypt (aes_enc_key key) 10) ?n iv m"
  have n: "16 * ?n = unat bytes" using assms(1) by (simp add: aes_cbc_length_ok_def)
  have len: "length ?c = unat bytes" using aes128.length_cbc_enc n by simp
  have dec: "cbc_dec (rijndaelDecrypt (aes_dec_key key) 10) ?n iv (?c @ drop (unat bytes) out) =
      take (unat bytes) m"
    using aes128.cbc_dec_enc [of iv ?n m key] assms n by simp
  show ?thesis
    using aes_SwEncrypt_cbc [OF assms(1-4)]
      aes_SwDecrypt_cbc [of bytes iv "?c @ drop (unat bytes) out" out' key] assms len dec
    by simp
qed

theorem aes_sw_roundtrip_witness:
  "\<exists>ct. aes_SwEncrypt (replicate 16 1) (replicate 16 2) (Some (map word_of_nat [0..<32])) 32
            (replicate 40 0) = Some (ct, 0) \<and> length ct = length (replicate 40 (0 :: u8)) \<and>
        drop (unat (32 :: u32)) ct = drop (unat (32 :: u32)) (replicate 40 0) \<and>
        aes_SwDecrypt (replicate 16 1) (replicate 16 2) (Some ct) 32 (replicate 32 0) =
          Some (take (unat (32 :: u32)) (map word_of_nat [0..<32]) @
                drop (unat (32 :: u32)) (replicate 32 0), 0)"
  by (rule aes_sw_roundtrip) (simp_all add: aes_cbc_length_ok_def)

end
