(* ===== verification/Vssi_Msg_Correct.thy ===== *)
theory Vssi_Msg_Correct
  imports Vssi_Msg Csl_Aes_Correct
begin

text \<open>
  A message that was prepared and composed verifies at the other end of the session and carries
  its body unchanged, in every signing and encryption mode; the padding generator and the body
  packing are characterised on the way.
\<close>

section \<open>The keyed hash\<close>

lemma CSL_InputHmac_prefix:
  assumes "n = word_of_nat len" and "len < 2 ^ 32" and "len \<le> length buf"
  shows "CSL_InputHmac c (Some buf) n = CSL_InputHmac c (Some (take len buf)) n"
proof -
  have "unat n = len" using assms by (simp add: unsigned_of_nat take_bit_nat_eq_self)
  then show ?thesis using assms(3) by (simp add: CSL_InputHmac_def CSL_InputSha_def rd_bytes_def)
qed

lemma CSL_ResetHmac_prefix:
  assumes "20 \<le> length key"
  shows "CSL_ResetHmac c key = CSL_ResetHmacEx c (take 20 key) (word_of_nat (length (take 20 key)))"
  using assms by (simp add: CSL_ResetHmac_def CSL_ResetHmacEx_def hmac_key_def rd_bytes_def)

lemma compute_hmac_hmac:
  assumes "0 < len" and "len < 2 ^ 32" and "len \<le> length buf" and "20 \<le> length key"
  shows "compute_hmac buf len key sz = Some (take (min sz 20) (hmac_sha1 (take 20 key) (take len buf)))"
proof -
  obtain c0 where c0: "CSL_ResetHmac hmac_stack key = Some (c0, CSL_OK)"
    "hmac_represents (take 20 key) c0 []"
    using CSL_ResetHmacEx_represents [of "take 20 key" hmac_stack] assms(4)
    by (auto simp: CSL_ResetHmac_prefix hmac_stack_def sha_stack_def)
  obtain c1 where c1: "CSL_InputHmac c0 (Some buf) (word_of_nat len) = Some (c1, CSL_OK)"
    "hmac_represents (take 20 key) c1 (take len buf)"
    using CSL_InputHmac_represents [OF c0(2), of "take len buf"] assms(2,3)
      CSL_InputHmac_prefix [OF refl assms(2,3), of c0]
    by (auto simp: min_absorb2)
  obtain c2 where "CSL_ResultHmac c1 = Some (c2, hmac_sha1 (take 20 key) (take len buf), CSL_OK)"
    using CSL_ResultHmac_represents [OF c1(2)] by blast
  then show ?thesis using assms(1) by (simp add: compute_hmac_def c0(1) c1(1) min_def)
qed

lemma length_compute_hmac:
  "compute_hmac buf len key 10 = Some h \<Longrightarrow> len < 2 ^ 32 \<Longrightarrow> len \<le> length buf \<Longrightarrow> 20 \<le> length key \<Longrightarrow>
     length h = 10"
  by (cases "len = 0") (auto simp: compute_hmac_hmac, auto simp: compute_hmac_def)

section \<open>Padding\<close>

lemma pad_random_length: "length (fst (pad_random n r)) = n"
  by (induction n r rule: pad_random.induct) (simp_all add: Let_def case_prod_beta)

lemma pad_len_of_aligned: "16 dvd n + pad_len_of n"
proof (cases "n mod 16 = 0")
  case False
  then have "pad_len_of n = 16 - n mod 16" by (simp add: pad_len_of_def)
  then have "n + pad_len_of n = n div 16 * 16 + 16"
    using div_mult_mod_eq [of n 16] mod_less_divisor [of 16 n] by linarith
  then show ?thesis by simp
qed (auto simp: pad_len_of_def)

lemma pad_len_of_less: "pad_len_of n < 16"
  by (simp add: pad_len_of_def)

lemma pad_len_of_zero: "16 dvd n \<Longrightarrow> pad_len_of n = 0"
  by (auto simp: pad_len_of_def)

section \<open>Buffers in two parts\<close>

lemma wr_bytes_append:
  "off + length bs \<le> length h \<Longrightarrow> wr_bytes (h @ b) off bs = map_option (\<lambda>h. h @ b) (wr_bytes h off bs)"
  by (simp add: wr_bytes_def)

lemma wr_bytes_append_right:
  "length h \<le> off \<Longrightarrow> wr_bytes (h @ b) off bs = map_option (\<lambda>b. h @ b) (wr_bytes b (off - length h) bs)"
  by (auto simp: wr_bytes_def)

lemma rd_bytes_total: "off + n \<le> length b \<Longrightarrow> \<exists>bs. rd_bytes b off n = Some bs \<and> length bs = n"
  by (simp add: rd_bytes_def)

lemma wr_bytes_total: "off + length bs \<le> length b \<Longrightarrow> \<exists>b'. wr_bytes b off bs = Some b' \<and> length b' = length b"
  by (simp add: wr_bytes_def)

lemma wr_bytes_undo:
  assumes "wr_bytes h off x = Some h'" and "rd_bytes h off (length x) = Some old"
  shows "wr_bytes h' off old = Some h"
proof -
  have fits: "off + length x \<le> length h" and h': "h' = take off h @ x @ drop (off + length x) h"
    and old: "old = take (length x) (drop off h)"
    using assms by (auto simp: wr_bytes_def rd_bytes_def split: if_splits)
  have "take off h @ old @ drop (off + length old) h = h"
    using fits old by (metis append_take_drop_id drop_drop add.commute length_take length_drop
        min.absorb2 le_diff_conv2 add_leD1 diff_le_mono2 add_le_imp_le_diff)
  then show ?thesis using fits h' old by (simp add: wr_bytes_def)
qed

section \<open>The bytes of a prepared message\<close>

text \<open>The header the caller built, with the three fields \<open>VSSI_PrepareMessage\<close> fills in.\<close>

definition prepared_header :: "u64 \<Rightarrow> nat \<Rightarrow> buffer \<Rightarrow> buffer option" where
  "prepared_header device_id body_len header =
     do {
       h1 \<leftarrow> vss_set_device_id header device_id;
       h2 \<leftarrow> vss_set_version h1 USE_VSSI_VERSION;
       vss_set_data_length h2 (word_of_nat body_len)
     }"

definition part_bytes :: "buffer option \<Rightarrow> nat \<Rightarrow> buffer" where
  "part_bytes data len = (case data of None \<Rightarrow> [] | Some d \<Rightarrow> take len d)"

definition part_ok :: "buffer option \<Rightarrow> nat \<Rightarrow> bool" where
  "part_ok data len \<longleftrightarrow> (case data of None \<Rightarrow> len = 0 | Some d \<Rightarrow> len \<le> length d)"

lemma length_part_bytes: "part_ok data len \<Longrightarrow> length (part_bytes data len) = len"
  by (auto simp: part_ok_def part_bytes_def split: option.splits)

lemma put_part_append:
  assumes "part_ok data len" and "off = length m" and "len \<le> k"
  shows "put_part (m @ replicate k 0) off data len =
    Some (m @ part_bytes data len @ replicate (k - len) 0, off + len)"
  using assms
  by (auto simp: put_part_def part_ok_def part_bytes_def memcpy_at_def rd_bytes_def wr_bytes_def
      split: option.splits)

lemma prepared_header_total:
  assumes "length header = 48"
  shows "\<exists>h. prepared_header device_id n header = Some h \<and> length h = 48"
  using assms by (auto simp: prepared_header_def wire wr_bytes_def)

lemma VSSI_PrepareMessage_bytes:
  assumes hd: "prepared_header device_id (l0 + l1 + l2) header = Some h" "length h = 48"
    and ok: "part_ok d0 l0" "part_ok d1 l1" "part_ok d2 l2"
  shows "VSSI_PrepareMessage True device_id r header d0 l0 d1 l1 d2 l2 =
    (let (pad, r') = pad_random (pad_len_of (l0 + l1 + l2)) r
     in Some (Some \<lparr>msg_length = 48 + (l0 + l1 + l2),
          msg_msg = h @ part_bytes d0 l0 @ part_bytes d1 l1 @ part_bytes d2 l2 @ pad\<rparr>, r'))"
proof -
  let ?p = "pad_len_of (l0 + l1 + l2)"
  let ?b0 = "part_bytes d0 l0" and ?b1 = "part_bytes d1 l1" and ?b2 = "part_bytes d2 l2"
  obtain h1 h2 where h: "vss_set_device_id header device_id = Some h1"
    "vss_set_version h1 USE_VSSI_VERSION = Some h2"
    "vss_set_data_length h2 (word_of_nat (l0 + l1 + l2)) = Some h"
    using hd(1) by (auto simp: prepared_header_def elim!: bind_eq_SomeE)
  have m0: "memcpy_at (replicate (48 + (l0 + l1 + l2) + ?p) 0) 0 h 48 =
      Some (h @ replicate (l0 + l1 + l2 + ?p) 0)"
    using hd(2) by (simp add: memcpy_at_def rd_bytes_def wr_bytes_def)
  have m1: "put_part (h @ replicate (l0 + l1 + l2 + ?p) 0) 48 d0 l0 =
      Some (h @ ?b0 @ replicate (l1 + l2 + ?p) 0, 48 + l0)"
    using put_part_append [OF ok(1), of 48 h "l0 + l1 + l2 + ?p"] hd(2) by (simp add: add.assoc)
  have m2: "put_part (h @ ?b0 @ replicate (l1 + l2 + ?p) 0) (48 + l0) d1 l1 =
      Some (h @ ?b0 @ ?b1 @ replicate (l2 + ?p) 0, 48 + l0 + l1)"
    using put_part_append [OF ok(2), of "48 + l0" "h @ ?b0" "l1 + l2 + ?p"] hd(2)
      length_part_bytes [OF ok(1)] by (simp add: add.assoc)
  have m3: "put_part (h @ ?b0 @ ?b1 @ replicate (l2 + ?p) 0) (48 + l0 + l1) d2 l2 =
      Some (h @ ?b0 @ ?b1 @ ?b2 @ replicate ?p 0, 48 + l0 + l1 + l2)"
    using put_part_append [OF ok(3), of "48 + l0 + l1" "h @ ?b0 @ ?b1" "l2 + ?p"] hd(2)
      length_part_bytes [OF ok(1)] length_part_bytes [OF ok(2)] by (simp add: add.assoc)
  have m4: "wr_bytes (h @ ?b0 @ ?b1 @ ?b2 @ replicate ?p 0) (48 + l0 + l1 + l2) pad =
      Some (h @ ?b0 @ ?b1 @ ?b2 @ pad)" if "length pad = ?p" for pad
    using that hd(2) ok by (simp add: wr_bytes_def length_part_bytes)
  show ?thesis
    using pad_random_length [of ?p r]
    by (simp add: VSSI_PrepareMessage_def Let_def h [simplified] m0 m1 m2 m3 m4 case_prod_beta)
qed

section \<open>Signing and checking a header\<close>

lemma compute_hmac_total:
  assumes "len < 2 ^ 32" and "len \<le> length buf" and "20 \<le> length key"
  shows "\<exists>h. compute_hmac buf len key 10 = Some h \<and> length h = 10"
proof (cases "len = 0")
  case True
  then show ?thesis by (simp add: compute_hmac_def)
next
  case False
  then show ?thesis using assms by (simp add: compute_hmac_hmac)
qed

lemma compute_hmac_prefix:
  assumes "len < 2 ^ 32" and "len \<le> length buf" and "20 \<le> length key"
  shows "compute_hmac (buf @ rest) len key sz = compute_hmac buf len key sz"
proof (cases "len = 0")
  case True
  then show ?thesis by (simp add: compute_hmac_def)
next
  case False
  then show ?thesis using assms by (simp add: compute_hmac_hmac)
qed

definition signs_body :: "u8 \<Rightarrow> u8 \<Rightarrow> bool" where
  "signs_body sign_mode sign_type \<longleftrightarrow>
     sign_mode = VSS_NEGOTIATE_SIGNING_MODE_FULL \<and> sign_type = VSS_NEGOTIATE_SIGN_TYPE_SHA1"

definition signs_header :: "u8 \<Rightarrow> u8 \<Rightarrow> bool" where
  "signs_header sign_mode sign_type \<longleftrightarrow>
     sign_mode \<noteq> VSS_NEGOTIATE_SIGNING_MODE_NONE \<and> sign_type = VSS_NEGOTIATE_SIGN_TYPE_SHA1"

lemma sign_body_append:
  assumes "length H = 48" and "n < 2 ^ 32" and "n \<le> length X" and "session_ok s"
  shows "\<exists>H'. sign_body sm st s (H @ X) n = Some (H' @ X) \<and> length H' = 48 \<and>
    (signs_body sm st \<longrightarrow>
       compute_hmac X n (session_signingKey s) 10 = rd_bytes H' VSS_DATA_HMAC_OFFSET 10) \<and>
    (\<forall>off k. off + k \<le> 28 \<or> 38 \<le> off \<longrightarrow> rd_bytes H' off k = rd_bytes H off k)"
proof (cases "signs_body sm st")
  case True
  obtain h where h: "compute_hmac X n (session_signingKey s) 10 = Some h" "length h = 10"
    using compute_hmac_total [of n X "session_signingKey s"] assms by (auto simp: session_ok_def)
  obtain H' where H': "wr_bytes H 28 h = Some H'" "length H' = 48"
    using wr_bytes_total [of 28 h H] h(2) assms(1) by auto
  have "rd_bytes H' 28 10 = Some h" using rd_wr_bytes_same [OF H'(1)] h(2) by simp
  moreover have "rd_bytes H' off k = rd_bytes H off k" if "off + k \<le> 28 \<or> 38 \<le> off" for off k
    using rd_wr_bytes_disjoint [OF H'(1)] that h(2) by auto
  ultimately show ?thesis
    using True h H' assms(1) by (simp add: sign_body_def signs_body_def ptr_at_def wr_bytes_append)
next
  case False
  then show ?thesis using assms(1) by (auto simp: sign_body_def signs_body_def)
qed

lemma sign_header_append:
  assumes "length H = 48" and "rd_bytes H 38 10 = Some (replicate 10 0)" and "session_ok s"
  shows "\<exists>H'. sign_header sm st s (H @ X) = Some (H' @ X) \<and> length H' = 48 \<and>
    (if signs_header sm st
     then wr_bytes H' 38 (replicate 10 0) = Some H \<and>
          compute_hmac H 48 (session_signingKey s) 10 = rd_bytes H' 38 10
     else H' = H) \<and>
    (\<forall>off k. off + k \<le> 38 \<longrightarrow> rd_bytes H' off k = rd_bytes H off k)"
proof (cases "signs_header sm st")
  case True
  obtain h where h: "compute_hmac H 48 (session_signingKey s) 10 = Some h" "length h = 10"
    using compute_hmac_total [of 48 H "session_signingKey s"] assms by (auto simp: session_ok_def)
  have hX: "compute_hmac (H @ X) 48 (session_signingKey s) 10 = Some h"
    using compute_hmac_prefix [of 48 H "session_signingKey s" X] assms h(1)
    by (simp add: session_ok_def)
  obtain H' where H': "wr_bytes H 38 h = Some H'" "length H' = 48"
    using wr_bytes_total [of 38 h H] h(2) assms(1) by auto
  have undo: "wr_bytes H' 38 (replicate 10 0) = Some H"
    using wr_bytes_undo [OF H'(1)] assms(2) h(2) by simp
  have "rd_bytes H' 38 10 = Some h" using rd_wr_bytes_same [OF H'(1)] h(2) by simp
  moreover have "rd_bytes H' off k = rd_bytes H off k" if "off + k \<le> 38" for off k
    using rd_wr_bytes_disjoint [OF H'(1)] that h(2) by auto
  ultimately show ?thesis
    using True h H' hX undo assms(1)
    by (simp add: sign_header_def signs_header_def wr_bytes_append)
next
  case False
  then show ?thesis using assms(1) by (auto simp: sign_header_def signs_header_def)
qed

text \<open>A header in version 2 signed this way verifies, and verification leaves the unsigned header.\<close>

lemma VSSI_VerifyHeader_signed:
  assumes len: "length H = 48" "length H' = 48" and ok: "session_ok s"
    and ver: "vss_get_version H' = Some 2"
    and sig: "if signs_header sm st
      then wr_bytes H' 38 (replicate 10 0) = Some H \<and>
           compute_hmac H 48 (session_signingKey s) 10 = rd_bytes H' 38 10
      else H' = H"
  shows "VSSI_VerifyHeader (H' @ Y) s sm st = Some (H @ Y, VSSI_SUCCESS)"
proof -
  have ver': "vss_get_version (H' @ Y) = Some 2" using ver len by (simp add: wire rd_bytes_def)
  show ?thesis
  proof (cases "signs_header sm st")
    case False
    then show ?thesis using sig ver' by (auto simp: VSSI_VerifyHeader_def signs_header_def)
  next
    case True
    have zero: "wr_bytes (H' @ Y) 38 (replicate 10 0) = Some (H @ Y)"
      using sig True len by (simp add: wr_bytes_append)
    have orig: "rd_bytes (H' @ Y) 38 10 = rd_bytes H' 38 10" using len by simp
    have mac: "compute_hmac (H @ Y) 48 (session_signingKey s) 10 = rd_bytes H' 38 10"
      using sig True compute_hmac_prefix [of 48 H "session_signingKey s" Y] len ok
      by (simp add: session_ok_def)
    obtain h where h: "rd_bytes H' 38 10 = Some h" using len by (auto simp: rd_bytes_def)
    show ?thesis
      using True ver' zero mac orig h
      by (simp add: VSSI_VerifyHeader_def signs_header_def)
  qed
qed

section \<open>Checking a body\<close>

lemma verify_body_hmac_ok:
  assumes "length H = 48" and "rd_bytes H 28 10 = compute_hmac B (length B) key 10"
    and "length B < 2 ^ 32" and "20 \<le> length key"
  shows "verify_body_hmac (H @ B) (48 + length B) key = Some VSSI_SUCCESS"
proof -
  obtain h where h: "compute_hmac B (length B) key 10 = Some h"
    using compute_hmac_total [of "length B" B key] assms(3,4) by auto
  show ?thesis
    using assms(1,2) by (simp add: verify_body_hmac_def ptr_at_def h)
qed

lemma VSSI_VerifyData_plain:
  assumes "length H = 48" and "vss_get_version H = Some 2" and "session_ok s"
    and "length B < 2 ^ 32" and "et \<noteq> VSS_NEGOTIATE_ENCRYPT_TYPE_AES128"
    and "signs_body sm st \<longrightarrow> compute_hmac B (length B) (session_signingKey s) 10 = rd_bytes H 28 10"
  shows "VSSI_VerifyData tmp (H @ B) (48 + length B) s sm st et = Some (H @ B, VSSI_SUCCESS)"
proof -
  have "vss_get_version (H @ B) = Some 2" using assms(1,2) by (simp add: wire rd_bytes_def)
  moreover have "verify_body_hmac (H @ B) (48 + length B) (session_signingKey s) = Some VSSI_SUCCESS"
    if "signs_body sm st"
    using verify_body_hmac_ok [of H B "session_signingKey s"] assms that by (simp add: session_ok_def)
  ultimately show ?thesis
    using assms(5) by (auto simp: VSSI_VerifyData_def signs_body_def)
qed

lemma VSSI_VerifyData_aes:
  assumes "length H = 48" and "vss_get_version H = Some 2" and "session_ok s"
    and "length E = length B" and "length B < 2 ^ 32" and "length tmp = length B"
    and "signs_body sm st \<longrightarrow> compute_hmac B (length B) (session_signingKey s) 10 = rd_bytes H 28 10"
    and dec: "aes_SwDecrypt (session_encryptingKey s) (take 16 H) (Some E) (word_of_nat (length E)) tmp
              = Some (B, rc)"
  shows "VSSI_VerifyData (Some tmp) (H @ E) (48 + length E) s sm st VSS_NEGOTIATE_ENCRYPT_TYPE_AES128
         = Some (H @ B, VSSI_SUCCESS)"
proof (cases "B = []")
  case True
  then show ?thesis using assms(4) by (simp add: VSSI_VerifyData_def)
next
  case False
  then have ne: "0 < length E" using assms(4) by simp
  have ver: "vss_get_version (H @ E) = Some 2" using assms(1,2) by (simp add: wire rd_bytes_def)
  have "decrypt_data tmp E (length E) (H @ E) (session_encryptingKey s) = Some B"
    using assms(1) dec by (simp add: decrypt_data_def rd_bytes_def)
  then have "verify_decrypt tmp (H @ E) (48 + length E) s = Some (H @ B)"
    using assms(1,4)
    by (simp add: verify_decrypt_def ptr_at_def memcpy_at_def wr_bytes_def)
  moreover have "verify_body_hmac (H @ B) (48 + length E) (session_signingKey s) = Some VSSI_SUCCESS"
    if "signs_body sm st"
    using verify_body_hmac_ok [of H B "session_signingKey s"] assms that by (simp add: session_ok_def)
  ultimately show ?thesis
    using ver ne by (auto simp: VSSI_VerifyData_def signs_body_def)
qed

section \<open>A composed message verifies and decrypts\<close>

text \<open>What the wire carries: the first \<open>length\<close> bytes of the message buffer.\<close>

definition wire_bytes :: "VSSI_MsgBuffer \<Rightarrow> buffer" where
  "wire_bytes msg = take (msg_length msg) (msg_msg msg)"

text \<open>The message layer's length limit: with encryption the cipher's, else that of the field.\<close>

definition body_length_ok :: "u8 \<Rightarrow> nat \<Rightarrow> bool" where
  "body_length_ok enc_type n \<longleftrightarrow>
     (if enc_type = VSS_NEGOTIATE_ENCRYPT_TYPE_AES128 then n + 16 < 2 ^ 28 else n < 2 ^ 32)"

definition sent_body :: "u8 \<Rightarrow> buffer \<Rightarrow> buffer \<Rightarrow> buffer" where
  "sent_body enc_type body pad =
     (if enc_type = VSS_NEGOTIATE_ENCRYPT_TYPE_AES128 then body @ pad else body)"

lemma unat_word_of_nat32: "n < 2 ^ 32 \<Longrightarrow> unat (word_of_nat n :: u32) = n"
  by (simp add: unsigned_of_nat take_bit_nat_eq_self)

lemma vss_header_fields_local:
  assumes "\<And>off k. off + k \<le> 28 \<Longrightarrow> rd_bytes H' off k = rd_bytes H off k"
  shows "vss_get_version H' = vss_get_version H" "vss_get_command H' = vss_get_command H"
    "vss_get_xid H' = vss_get_xid H" "vss_get_handle H' = vss_get_handle H"
    "vss_get_device_id H' = vss_get_device_id H" "vss_get_status H' = vss_get_status H"
    "vss_get_data_length H' = vss_get_data_length H" "rd_bytes H' 0 16 = rd_bytes H 0 16"
  by (simp_all add: wire assms)

lemma compose_header_fields:
  assumes "length H = 48" and "n < 2 ^ 32"
  shows "\<exists>H1 H2. vss_set_handle H hnd = Some H1 \<and>
      (if enc then vss_set_data_length H1 (word_of_nat m) else Some H1) = Some H2 \<and>
      length H1 = 48 \<and> length H2 = 48 \<and>
      vss_get_handle H2 = Some hnd \<and>
      vss_get_data_length H2 = (if enc then Some (word_of_nat m) else vss_get_data_length H) \<and>
      (\<forall>off k. off + k \<le> 16 \<or> 28 \<le> off \<longrightarrow> rd_bytes H2 off k = rd_bytes H off k)"
proof -
  obtain H1 where H1: "wr_bytes H 16 (be_enc 8 hnd) = Some H1" "length H1 = 48"
    using wr_bytes_total [of 16 "be_enc 8 hnd" H] assms(1) by auto
  obtain H2 where H2: "wr_bytes H1 24 (be_enc 4 (word_of_nat m :: u32)) = Some H2" "length H2 = 48"
    using wr_bytes_total [of 24 "be_enc 4 (word_of_nat m :: u32)" H1] H1(2) by auto
  have f1: "rd_bytes H1 off k = rd_bytes H off k" if "off + k \<le> 16 \<or> 24 \<le> off" for off k
    using rd_wr_bytes_disjoint [OF H1(1)] that by auto
  have f2: "rd_bytes H2 off k = rd_bytes H1 off k" if "off + k \<le> 24 \<or> 28 \<le> off" for off k
    using rd_wr_bytes_disjoint [OF H2(1)] that by auto
  have "rd_bytes H1 16 8 = Some (be_enc 8 hnd)" using rd_wr_bytes_same [OF H1(1)] by simp
  moreover have "rd_bytes H2 24 4 = Some (be_enc 4 (word_of_nat m :: u32))"
    using rd_wr_bytes_same [OF H2(1)] by simp
  ultimately show ?thesis
    using H1 H2 f1 f2 by (cases enc) (auto simp: wire)
qed

lemma length_sent_body:
  "length pad = pad_len_of (length body) \<Longrightarrow>
     length (sent_body et body pad) =
       (if et = VSS_NEGOTIATE_ENCRYPT_TYPE_AES128 then length body + pad_len_of (length body)
        else length body)"
  by (simp add: sent_body_def)

lemma body_length_ok_sent:
  assumes "body_length_ok et n"
  shows "n < 2 ^ 32" and "n + pad_len_of n < 2 ^ 28 \<or> et \<noteq> VSS_NEGOTIATE_ENCRYPT_TYPE_AES128"
  using assms pad_len_of_less [of n] by (auto simp: body_length_ok_def split: if_splits)

lemma aes_transport:
  assumes "length B < 2 ^ 28" and "16 dvd length B" and "length iv = 16"
  shows "\<exists>E. length E = length B \<and>
      aes_SwEncrypt key iv (Some (B @ Z)) (word_of_nat (length B)) (replicate (length B) 0) = Some (E, 0) \<and>
      (\<forall>tmp. length tmp = length B \<longrightarrow>
         aes_SwDecrypt key iv (Some E) (word_of_nat (length B)) tmp = Some (B, 0))"
proof -
  let ?n = "word_of_nat (length B) :: u32"
  have n: "unat ?n = length B" using assms(1) by (simp add: unat_word_of_nat32)
  have ok: "aes_cbc_length_ok ?n" using assms by (simp add: aes_cbc_length_ok_def n)
  define E where "E = cbc_enc (rijndaelEncrypt (aes_enc_key key) 10) (length B div 16) iv (B @ Z)"
  have len: "length E = length B" using assms(2) by (simp add: E_def aes128.length_cbc_enc)
  have "cbc_dec (rijndaelDecrypt (aes_dec_key key) 10) (length B div 16) iv E = B"
    using aes128.cbc_dec_enc [of iv "length B div 16" "B @ Z" key "[]"] assms(2,3) by (simp add: E_def)
  then show ?thesis
    using aes_SwEncrypt_cbc [OF ok assms(3), of "B @ Z" "replicate (length B) 0" key]
      aes_SwDecrypt_cbc [OF ok assms(3), of E _ key] len
    by (intro exI [of _ E]) (simp add: n flip: E_def)
qed

text \<open>The message \<open>out\<close> is accepted by a peer and gives it the body, under the header fields of \<open>H\<close>.\<close>

definition delivers ::
  "VSSI_UserSession \<Rightarrow> u8 \<Rightarrow> u8 \<Rightarrow> u8 \<Rightarrow> buffer \<Rightarrow> buffer \<Rightarrow> buffer \<Rightarrow> bool" where
  "delivers s sm st et wire H body \<longleftrightarrow>
     (\<exists>H' E. VSSI_VerifyHeader wire s sm st = Some (H' @ E, VSSI_SUCCESS) \<and> length H' = 48 \<and>
        length wire = 48 + length body \<and>
        vss_get_data_length H' = Some (word_of_nat (length body)) \<and>
        vss_get_handle H' = Some (session_handle s) \<and>
        vss_get_xid H' = vss_get_xid H \<and> vss_get_command H' = vss_get_command H \<and>
        vss_get_device_id H' = vss_get_device_id H \<and>
        (\<forall>tmp. length tmp = length body \<longrightarrow>
           VSSI_VerifyData (Some tmp) (H' @ E) (length wire) s sm st et =
             Some (H' @ body, VSSI_SUCCESS)))"

lemma VSSI_ComposeMessage_delivers:
  assumes s: "session_ok s" and H: "length H = 48" "rd_bytes H 38 10 = Some (replicate 10 0)"
    "vss_get_version H = Some 2" "vss_get_data_length H = Some (word_of_nat (length B))"
    and P: "length P = pad_len_of (length B)" and len: "body_length_ok et (length B)"
  shows "\<exists>out. VSSI_ComposeMessage True s sm st et \<lparr>msg_length = 48 + length B, msg_msg = H @ B @ P\<rparr> =
      Some (Some out) \<and> delivers s sm st et (wire_bytes out) H (sent_body et B P) \<and>
    48 \<le> msg_length out \<and> msg_length out \<le> length (msg_msg out)"
proof -
  let ?enc = "et = VSS_NEGOTIATE_ENCRYPT_TYPE_AES128"
  let ?S = "sent_body et B P"
  define n where "n = length ?S"
  define R where "R = (if ?enc then [] else P)"
  have SR: "B @ P = ?S @ R" by (simp add: R_def sent_body_def)
  note lens = body_length_ok_sent [OF len]
  have n: "n = (if ?enc then length B + pad_len_of (length B) else length B)" "n < 2 ^ 32"
    using length_sent_body [OF P, of et] lens by (auto simp: n_def)
  obtain H1 H2 where H12: "vss_set_handle H (session_handle s) = Some H1"
    "(if ?enc then vss_set_data_length H1 (word_of_nat n) else Some H1) = Some H2"
    "length H1 = 48" "length H2 = 48" "vss_get_handle H2 = Some (session_handle s)"
    "vss_get_data_length H2 = (if ?enc then Some (word_of_nat n) else vss_get_data_length H)"
    and f2: "\<And>off k. off + k \<le> 16 \<or> 28 \<le> off \<Longrightarrow> rd_bytes H2 off k = rd_bytes H off k"
    using compose_header_fields [OF H(1) n(2), of "session_handle s" ?enc n] by blast
  obtain H3 where H3: "sign_body sm st s (H2 @ B @ P) n = Some (H3 @ B @ P)" "length H3 = 48"
    "signs_body sm st \<longrightarrow> compute_hmac (B @ P) n (session_signingKey s) 10 = rd_bytes H3 28 10"
    and f3: "\<And>off k. off + k \<le> 28 \<or> 38 \<le> off \<Longrightarrow> rd_bytes H3 off k = rd_bytes H2 off k"
    using sign_body_append [OF H12(4) n(2), of "B @ P" s sm st] s by (auto simp: SR n_def)
  have zero3: "rd_bytes H3 38 10 = Some (replicate 10 0)" using f3 [of 38 10] f2 [of 38 10] H(2) by simp
  obtain H4 where H4: "sign_header sm st s (H3 @ B @ P) = Some (H4 @ B @ P)" "length H4 = 48"
    and sig: "if signs_header sm st
      then wr_bytes H4 38 (replicate 10 0) = Some H3 \<and>
           compute_hmac H3 48 (session_signingKey s) 10 = rd_bytes H4 38 10
      else H4 = H3"
    and f4: "\<And>off k. off + k \<le> 38 \<Longrightarrow> rd_bytes H4 off k = rd_bytes H3 off k"
    using sign_header_append [OF H3(2) zero3 s, of sm st "B @ P"] by blast
  note loc3 = vss_header_fields_local [of H3 H2, OF f3, simplified]
  have ver3: "vss_get_version H3 = Some 2" and ver4: "vss_get_version H4 = Some 2"
    using H(3) f2 [of 0 1] f3 [of 0 1] f4 [of 0 1] by (simp_all add: wire)
  have iv: "take 16 H4 = take 16 H3" using f4 [of 0 16] H3(2) H4(2) by (simp add: rd_bytes_def)
  have fields: "vss_get_data_length H3 = Some (word_of_nat n)"
    "vss_get_handle H3 = Some (session_handle s)" "vss_get_xid H3 = vss_get_xid H"
    "vss_get_command H3 = vss_get_command H" "vss_get_device_id H3 = vss_get_device_id H"
    using loc3 H12(5,6) H(4) n(1) f2 by (auto simp: wire)
  have hm: "signs_body sm st \<longrightarrow> compute_hmac ?S (length ?S) (session_signingKey s) 10 = rd_bytes H3 28 10"
    using H3(3) compute_hmac_prefix [of n ?S "session_signingKey s" R] s n(2)
    by (simp add: SR n_def session_ok_def)
  have vh: "VSSI_VerifyHeader (H4 @ E) s sm st = Some (H3 @ E, VSSI_SUCCESS)" for E
    by (rule VSSI_VerifyHeader_signed [OF H3(2) H4(2) s ver4 sig])
  have deliv: "delivers s sm st et (H4 @ E) H ?S"
    if "length E = n" and "\<And>tmp. length tmp = n \<Longrightarrow>
      VSSI_VerifyData (Some tmp) (H3 @ E) (48 + n) s sm st et = Some (H3 @ ?S, VSSI_SUCCESS)" for E
    unfolding delivers_def using that vh fields H3(2) H4(2) by (auto simp: n_def)
  let ?msg = "\<lparr>msg_length = 48 + length B, msg_msg = H @ B @ P\<rparr>"
  have dl: "vss_get_data_length (H @ B @ P) = Some (word_of_nat (length B))"
    using H(1,4) by (simp add: wire rd_bytes_def)
  have sh: "vss_set_handle (H @ B @ P) (session_handle s) = Some (H1 @ B @ P)"
    using H12(1) H(1) by (simp add: wire wr_bytes_append)
  have sl: "(if ?enc then vss_set_data_length (H1 @ B @ P) (word_of_nat n) else Some (H1 @ B @ P)) =
      Some (H2 @ B @ P)"
    using H12(2,3) by (auto simp: wire wr_bytes_append split: if_splits)
  have bl: "unat (word_of_nat (length B) :: u32) = length B" by (rule unat_word_of_nat32 [OF lens(1)])
  show ?thesis
  proof (cases ?enc)
    case False
    have "VSSI_ComposeMessage True s sm st et ?msg =
        Some (Some \<lparr>msg_length = 48 + length B, msg_msg = H4 @ B @ P\<rparr>)"
      using False n(1) H3(1) H4(1) sl sh dl bl by (simp add: VSSI_ComposeMessage_def Let_def)
    moreover have "delivers s sm st et (H4 @ B) H ?S"
      using False VSSI_VerifyData_plain [OF H3(2) ver3 s, of B et sm st] hm n lens
      by (intro deliv) (simp_all add: sent_body_def)
    ultimately show ?thesis using H4(2) by (simp add: wire_bytes_def)
  next
    case True
    have S: "?S = B @ P" "R = []" using True by (simp_all add: sent_body_def R_def)
    have n16: "length (B @ P) < 2 ^ 28" "16 dvd length (B @ P)" "n = length (B @ P)"
      using True lens(2) P pad_len_of_aligned [of "length B"] n(1) by simp_all
    obtain E where E: "length E = n" "aes_SwEncrypt (session_encryptingKey s) (take 16 H4)
        (Some (B @ P)) (word_of_nat n) (replicate n 0) = Some (E, 0)"
      "\<And>tmp. length tmp = n \<Longrightarrow> aes_SwDecrypt (session_encryptingKey s) (take 16 H4)
        (Some E) (word_of_nat n) tmp = Some (B @ P, 0)"
      using aes_transport [OF n16(1,2), of "take 16 H4" "session_encryptingKey s" "[]"] H4(2) n16(3)
      by auto
    have "VSSI_ComposeMessage True s sm st et ?msg =
        Some (Some \<lparr>msg_length = 48 + n, msg_msg = H4 @ E\<rparr>)"
      using True n(1) H3(1) H4(1,2) sl sh dl bl E(2)
      by (simp add: VSSI_ComposeMessage_def Let_def ptr_at_def rd_bytes_def encrypt_data_def)
    moreover have "delivers s sm st et (H4 @ E) H ?S"
    proof (rule deliv [OF E(1)])
      fix tmp :: buffer assume "length tmp = n"
      then show "VSSI_VerifyData (Some tmp) (H3 @ E) (48 + n) s sm st et = Some (H3 @ ?S, VSSI_SUCCESS)"
        using VSSI_VerifyData_aes [OF H3(2) ver3 s, of E "B @ P" tmp sm st 0] True E hm n n16 iv S
        by simp
    qed
    ultimately show ?thesis using H4(2) E(1) by (auto simp: wire_bytes_def)
  qed
qed

section \<open>Properties of the message layer\<close>

lemma prepared_header_fields:
  assumes "length header = 48" and "n < 2 ^ 32"
  shows "\<exists>h. prepared_header dev n header = Some h \<and> length h = 48 \<and>
      vss_get_version h = Some 2 \<and> vss_get_device_id h = Some dev \<and>
      vss_get_data_length h = Some (word_of_nat n) \<and>
      vss_get_command h = vss_get_command header \<and>
      (\<forall>off k. 28 \<le> off \<longrightarrow> rd_bytes h off k = rd_bytes header off k)"
proof -
  obtain h1 where h1: "wr_bytes header 8 (be_enc 8 dev) = Some h1" "length h1 = 48"
    using wr_bytes_total [of 8 "be_enc 8 dev" header] assms(1) by auto
  obtain h2 where h2: "wr_bytes h1 0 [2] = Some h2" "length h2 = 48"
    using wr_bytes_total [of 0 "[2]" h1] h1(2) by auto
  obtain h3 where h3: "wr_bytes h2 24 (be_enc 4 (word_of_nat n :: u32)) = Some h3" "length h3 = 48"
    using wr_bytes_total [of 24 "be_enc 4 (word_of_nat n :: u32)" h2] h2(2) by auto
  have f1: "rd_bytes h1 off k = rd_bytes header off k" if "off + k \<le> 8 \<or> 16 \<le> off" for off k
    using rd_wr_bytes_disjoint [OF h1(1)] that by auto
  have f2: "rd_bytes h2 off k = rd_bytes h1 off k" if "off + k \<le> 0 \<or> 1 \<le> off" for off k
    using rd_wr_bytes_disjoint [OF h2(1)] that by auto
  have f3: "rd_bytes h3 off k = rd_bytes h2 off k" if "off + k \<le> 24 \<or> 28 \<le> off" for off k
    using rd_wr_bytes_disjoint [OF h3(1)] that by auto
  have "rd_bytes h1 8 8 = Some (be_enc 8 dev)" using rd_wr_bytes_same [OF h1(1)] by simp
  moreover have "rd_bytes h2 0 1 = Some [2]" using rd_wr_bytes_same [OF h2(1)] by simp
  moreover have "rd_bytes h3 24 4 = Some (be_enc 4 (word_of_nat n :: u32))"
    using rd_wr_bytes_same [OF h3(1)] by simp
  moreover have "prepared_header dev n header = Some h3"
    using h1(1) h2(1) h3(1) by (simp add: prepared_header_def wire)
  ultimately show ?thesis using h3(2) f1 f2 f3 by (auto simp: wire)
qed

lemma prepare_compose_delivers:
  assumes s: "session_ok s" and header: "length header = 48"
    "rd_bytes header VSS_HEADER_HMAC_OFFSET VSS_HMAC_SIZE = Some (replicate VSS_HMAC_SIZE 0)"
    and parts: "part_ok d0 l0" "part_ok d1 l1" "part_ok d2 l2"
    and len: "body_length_ok et (l0 + l1 + l2)"
  shows "\<exists>msg r' m out H pad.
     VSSI_PrepareMessage True dev r header d0 l0 d1 l1 d2 l2 = Some (Some msg, r') \<and>
     vss_set_xid (msg_msg msg) xid = Some m \<and>
     VSSI_ComposeMessage True s sm st et (msg\<lparr>msg_msg := m\<rparr>) = Some (Some out) \<and>
     length pad = pad_len_of (l0 + l1 + l2) \<and>
     delivers s sm st et (wire_bytes out) H
       (sent_body et (part_bytes d0 l0 @ part_bytes d1 l1 @ part_bytes d2 l2) pad) \<and>
     vss_get_xid H = Some xid \<and> vss_get_command H = vss_get_command header \<and>
     vss_get_device_id H = Some dev"
proof -
  let ?n = "l0 + l1 + l2" and ?B = "part_bytes d0 l0 @ part_bytes d1 l1 @ part_bytes d2 l2"
  obtain pad r' where pad: "pad_random (pad_len_of ?n) r = (pad, r')" by fastforce
  have plen: "length pad = pad_len_of ?n" using pad_random_length [of "pad_len_of ?n" r] pad by simp
  have blen: "length ?B = ?n" using parts by (simp add: length_part_bytes)
  obtain h where h: "prepared_header dev ?n header = Some h" "length h = 48"
    "vss_get_version h = Some 2" "vss_get_device_id h = Some dev"
    "vss_get_data_length h = Some (word_of_nat ?n)" "vss_get_command h = vss_get_command header"
    "\<And>off k. 28 \<le> off \<Longrightarrow> rd_bytes h off k = rd_bytes header off k"
    using prepared_header_fields [OF header(1) body_length_ok_sent(1) [OF len], of dev] by blast
  obtain H where H: "wr_bytes h 4 (be_enc 4 xid) = Some H" "length H = 48"
    using wr_bytes_total [of 4 "be_enc 4 xid" h] h(2) by auto
  have f: "rd_bytes H off k = rd_bytes h off k" if "off + k \<le> 4 \<or> 8 \<le> off" for off k
    using rd_wr_bytes_disjoint [OF H(1)] that by auto
  have xid: "rd_bytes H 4 4 = Some (be_enc 4 xid)" using rd_wr_bytes_same [OF H(1)] by simp
  have prep: "VSSI_PrepareMessage True dev r header d0 l0 d1 l1 d2 l2 =
      Some (Some \<lparr>msg_length = 48 + ?n, msg_msg = h @ ?B @ pad\<rparr>, r')"
    using VSSI_PrepareMessage_bytes [OF h(1,2) parts, of r] pad by simp
  have setx: "vss_set_xid (h @ ?B @ pad) xid = Some (H @ ?B @ pad)"
    using H(1) h(2) by (simp add: wire wr_bytes_append)
  have "rd_bytes H 38 10 = Some (replicate 10 0)" "vss_get_version H = Some 2"
    "vss_get_data_length H = Some (word_of_nat (length ?B))"
    using f h header(2) blen by (simp_all add: wire)
  from VSSI_ComposeMessage_delivers [OF s H(2) this] plen len blen
  obtain out where "VSSI_ComposeMessage True s sm st et \<lparr>msg_length = 48 + ?n, msg_msg = H @ ?B @ pad\<rparr> =
      Some (Some out)" "delivers s sm st et (wire_bytes out) H (sent_body et ?B pad)"
    by (metis (no_types, lifting))
  moreover have "vss_get_xid H = Some xid" "vss_get_command H = vss_get_command header"
    "vss_get_device_id H = Some dev"
    using xid f h(4,6) by (simp_all add: wire)
  ultimately show ?thesis using prep setx plen by auto
qed

text \<open>
  C1: for a session with keys of the right size, a zero-filled header signature and a body
  within the length limit, preparing a message, storing its transaction id and composing it
  succeeds in every signing and encryption mode; a peer with the same session accepts header and
  body of what goes on the wire, recovers exactly the body parts (with the padding after them when
  encrypted), and reads the transaction id, command, device id, session handle and body length
  the sender meant.
\<close>

theorem message_delivered:
  assumes s: "session_ok s" and header: "length header = 48"
    "rd_bytes header VSS_HEADER_HMAC_OFFSET VSS_HMAC_SIZE = Some (replicate VSS_HMAC_SIZE 0)"
    and parts: "part_ok d0 l0" "part_ok d1 l1" "part_ok d2 l2"
    and len: "body_length_ok et (l0 + l1 + l2)"
  shows "\<exists>msg r' m out H pad.
     VSSI_PrepareMessage True dev r header d0 l0 d1 l1 d2 l2 = Some (Some msg, r') \<and>
     vss_set_xid (msg_msg msg) xid = Some m \<and>
     VSSI_ComposeMessage True s sm st et (msg\<lparr>msg_msg := m\<rparr>) = Some (Some out) \<and>
     length pad = pad_len_of (l0 + l1 + l2) \<and>
     delivers s sm st et (wire_bytes out) H
       (sent_body et (part_bytes d0 l0 @ part_bytes d1 l1 @ part_bytes d2 l2) pad) \<and>
     vss_get_xid H = Some xid \<and> vss_get_command H = vss_get_command header \<and>
     vss_get_device_id H = Some dev"
  using assms by (rule prepare_compose_delivers)

definition demo_session :: VSSI_UserSession where
  "demo_session = \<lparr>session_handle = 7, session_secret = replicate 20 1,
     session_signingKey = replicate 20 2, session_encryptingKey = replicate 16 3\<rparr>"

theorem message_delivered_witness:
  "\<exists>msg r' m out H pad.
     VSSI_PrepareMessage True 9 99999 (replicate 48 0) (Some [1, 2, 3]) 3 (Some [4, 5]) 2 None 0 =
       Some (Some msg, r') \<and>
     vss_set_xid (msg_msg msg) 77 = Some m \<and>
     VSSI_ComposeMessage True demo_session VSS_NEGOTIATE_SIGNING_MODE_FULL
       VSS_NEGOTIATE_SIGN_TYPE_SHA1 VSS_NEGOTIATE_ENCRYPT_TYPE_AES128 (msg\<lparr>msg_msg := m\<rparr>) =
       Some (Some out) \<and>
     length pad = pad_len_of (3 + 2 + 0) \<and>
     delivers demo_session VSS_NEGOTIATE_SIGNING_MODE_FULL VSS_NEGOTIATE_SIGN_TYPE_SHA1
       VSS_NEGOTIATE_ENCRYPT_TYPE_AES128 (wire_bytes out) H
       (sent_body VSS_NEGOTIATE_ENCRYPT_TYPE_AES128
          (part_bytes (Some [1, 2, 3]) 3 @ part_bytes (Some [4, 5]) 2 @ part_bytes None 0) pad) \<and>
     vss_get_xid H = Some 77 \<and> vss_get_command H = vss_get_command (replicate 48 0) \<and>
     vss_get_device_id H = Some 9"
  by (rule message_delivered)
    (simp_all add: session_ok_def demo_session_def rd_bytes_def part_ok_def body_length_ok_def)

text \<open>
  C13: header verification in full. In signed mode (or version 0) it clears the signature
  field and accepts exactly when the field held the truncated keyed hash of the cleared header,
  under the session secret for version 0 and the signing key for versions 1 and 2; other versions
  are refused; in unsigned mode every header of another version than 0 is accepted unread.
\<close>

theorem verify_header_decides:
  assumes "session_ok s" and "48 \<le> length header" and "vss_get_version header = Some v"
    and "wr_bytes header VSS_HEADER_HMAC_OFFSET (replicate VSS_HMAC_SIZE 0) = Some cleared"
  shows "VSSI_VerifyHeader header s sm st =
    (if v = 0 \<or> signs_header sm st then
       Some (cleared,
         if v \<notin> {0, 1, 2} then VSSI_BADVER
         else if rd_bytes header VSS_HEADER_HMAC_OFFSET VSS_HMAC_SIZE =
                 Some (take 10 (hmac_sha1 (if v = 0 then session_secret s else session_signingKey s)
                         (take 48 cleared)))
         then VSSI_SUCCESS else VSSI_BADSIG)
     else Some (header, VSSI_SUCCESS))"
proof -
  obtain orig where orig: "rd_bytes header 38 10 = Some orig"
    using assms(2) by (auto simp: rd_bytes_def)
  have len: "48 \<le> length cleared" using wr_bytes_length [OF assms(4)] assms(2) by simp
  have mac: "compute_hmac cleared 48 k 10 = Some (take 10 (hmac_sha1 k (take 48 cleared)))"
    if "length k = 20" for k
    using compute_hmac_hmac [of 48 cleared k 10] that len by simp
  show ?thesis
    using assms orig mac
    by (auto simp: VSSI_VerifyHeader_def signs_header_def session_ok_def)
qed

theorem verify_header_decides_witness:
  "VSSI_VerifyHeader (replicate 48 0) demo_session 0 0 =
    (if (0 :: u8) = 0 \<or> signs_header 0 0 then
       Some (replicate 48 0,
         if (0 :: u8) \<notin> {0, 1, 2} then VSSI_BADVER
         else if rd_bytes (replicate 48 0) VSS_HEADER_HMAC_OFFSET VSS_HMAC_SIZE =
                 Some (take 10 (hmac_sha1
                         (if (0 :: u8) = 0 then session_secret demo_session
                          else session_signingKey demo_session)
                         (take 48 (replicate 48 0))))
         then VSSI_SUCCESS else VSSI_BADSIG)
     else Some (replicate 48 0, VSSI_SUCCESS))"
  by (rule verify_header_decides)
    (simp_all add: session_ok_def demo_session_def wire rd_bytes_def wr_bytes_def flip: replicate_add)

end
