(* ===== verification/Vssi_Slots.thy ===== *)
theory Vssi_Slots
  imports Vssi_Types "HOL-Library.Multiset"
begin

text \<open>
  The table of commands in flight of one send state
  (\<open>gvm_core/internal/vssi/src/vssi_internal.c\<close>, lines 2321 to 2650): structures allocated in
  chunks of 16, a stack of free ones, a queue of those waiting for the session to be negotiated,
  and an open-addressed table of pending ones keyed by transaction id.

  The structures a send state owns have the addresses 0, 1, ... in allocation order: \<open>ss_cmds\<close> is
  their contents and a pointer is an address, NULL is \<open>None\<close>. \<open>ss_table\<close> is the block
  \<open>pending_cmds\<close> points to, the slots followed by the chunk pointers; \<open>ss_cmd_chunks\<close> is the
  offset of \<open>cmd_chunks\<close> in it. Whether \<open>realloc\<close> and \<open>calloc\<close> succeed, and what \<open>realloc\<close>
  leaves in the new words, are parameters. A result \<open>None\<close> is a loop that does not end or a NULL
  pointer dereferenced. Calls to callbacks and to the functions that free objects are events in the
  order they happen; the model has one thread, so the send mutex has no counterpart.
\<close>

section \<open>State\<close>

type_synonym ptr = "nat option"

definition DELETE_NEVER :: int where [vssi_consts]: "DELETE_NEVER = 0"
definition DELETE_ON_FAIL :: int where [vssi_consts]: "DELETE_ON_FAIL = 1"
definition DELETE_ALWAYS :: int where [vssi_consts]: "DELETE_ALWAYS = 2"

text \<open>Where a reply puts its results.\<close>

record pend_results =
  pr_length :: ptr
  pr_offset :: ptr
  pr_buf :: ptr
  pr_handle :: ptr
  pr_directory :: ptr
  pr_trashcan :: ptr
  pr_file :: ptr
  pr_stats :: ptr
  pr_stats2 :: ptr
  pr_disk_size :: ptr
  pr_dataset_size :: ptr
  pr_avail_size :: ptr
  pr_notify_callback :: ptr
  pr_notify_ctx :: ptr
  pr_notify_mask :: ptr
  pr_lock_state :: ptr

record VSSI_PendInfo =
  pi_next_free :: ptr
  pi_next :: ptr
  pi_xid :: u32
  pi_command :: u8
  pi_msg :: "VSSI_MsgBuffer option"
  pi_connection :: ptr
  pi_object :: ptr
  pi_delete_obj_when :: int
  pi_file_state :: ptr
  pi_delete_filestate_when :: int
  pi_results :: pend_results
  pi_callback :: ptr
  pi_ctx :: ptr

definition zero_results :: pend_results where
  "zero_results = \<lparr>pr_length = None, pr_offset = None, pr_buf = None, pr_handle = None,
     pr_directory = None, pr_trashcan = None, pr_file = None, pr_stats = None, pr_stats2 = None,
     pr_disk_size = None, pr_dataset_size = None, pr_avail_size = None, pr_notify_callback = None,
     pr_notify_ctx = None, pr_notify_mask = None, pr_lock_state = None\<rparr>"

definition zero_pend :: VSSI_PendInfo where
  "zero_pend = \<lparr>pi_next_free = None, pi_next = None, pi_xid = 0, pi_command = 0, pi_msg = None,
     pi_connection = None, pi_object = None, pi_delete_obj_when = 0, pi_file_state = None,
     pi_delete_filestate_when = 0, pi_results = zero_results, pi_callback = None, pi_ctx = None\<rparr>"

datatype negotiated = NEGOTIATE_NEEDED | NEGOTIATE_PENDING | NEGOTIATE_DONE

definition PEND_CMD_GROW_CNT :: nat where [simp]: "PEND_CMD_GROW_CNT = 16"

record VSSI_SendState =
  ss_cluster_id :: u64
  ss_session :: VSSI_UserSession
  ss_seq_id :: u32
  ss_sign_mode :: u8
  ss_sign_type :: u8
  ss_enc_type :: u8
  ss_negotiated :: negotiated
  ss_server_connection :: ptr
  ss_wait_head :: ptr
  ss_wait_tail :: ptr
  ss_num_cmd_slots :: nat
  ss_num_cmd_slots_active :: nat
  ss_free_stack :: ptr
  ss_table :: "ptr list"
  ss_cmd_chunks :: nat
  ss_num_chunks :: nat
  ss_cmds :: "VSSI_PendInfo list"

text \<open>Field assignment through a pointer, \<open>info->field = v\<close>.\<close>

definition upd_cmd :: "nat \<Rightarrow> (VSSI_PendInfo \<Rightarrow> VSSI_PendInfo) \<Rightarrow> VSSI_SendState \<Rightarrow> VSSI_SendState" where
  "upd_cmd a f st = st\<lparr>ss_cmds := (ss_cmds st)[a := f (ss_cmds st ! a)]\<rparr>"

text \<open>A new send state, as \<open>VSSI_GetSendState\<close> allocates it.\<close>

definition new_send_state :: "VSSI_UserSession \<Rightarrow> u64 \<Rightarrow> VSSI_SendState" where
  "new_send_state user_session cluster_id =
     \<lparr>ss_cluster_id = cluster_id, ss_session = user_session, ss_seq_id = 0,
      ss_sign_mode = VSS_NEGOTIATE_SIGNING_MODE_FULL, ss_sign_type = VSS_NEGOTIATE_SIGN_TYPE_SHA1,
      ss_enc_type = VSS_NEGOTIATE_ENCRYPT_TYPE_AES128, ss_negotiated = NEGOTIATE_NEEDED,
      ss_server_connection = None, ss_wait_head = None, ss_wait_tail = None,
      ss_num_cmd_slots = 0, ss_num_cmd_slots_active = 0, ss_free_stack = None, ss_table = [],
      ss_cmd_chunks = 0, ss_num_chunks = 0, ss_cmds = []\<rparr>"

section \<open>Growing the table\<close>

text \<open>\<open>realloc\<close> to \<open>n\<close> words: the old words, then whatever the new memory holds.\<close>

definition realloc_words :: "ptr \<Rightarrow> nat \<Rightarrow> ptr list \<Rightarrow> ptr list" where
  "realloc_words junk n block = take n block @ replicate (n - length block) junk"

text \<open>Moving the chunk pointers up, last one first: the two ranges may overlap.\<close>

fun move_chunks :: "nat \<Rightarrow> nat \<Rightarrow> nat \<Rightarrow> ptr list \<Rightarrow> ptr list" where
  "move_chunks old new 0 block = block"
| "move_chunks old new (Suc i) block = move_chunks old new i (block[new + i := block ! (old + i)])"

definition clear_words :: "nat \<Rightarrow> nat \<Rightarrow> ptr list \<Rightarrow> ptr list" where
  "clear_words off n block = foldl (\<lambda>b i. b[off + i := None]) block [0..<n]"

definition push_free :: "nat \<Rightarrow> VSSI_SendState \<Rightarrow> VSSI_SendState" where
  "push_free a st =
     (upd_cmd a (\<lambda>c. c\<lparr>pi_next_free := ss_free_stack st\<rparr>) st)\<lparr>ss_free_stack := Some a\<rparr>"

definition VSSI_ExpandCommandSlots ::
  "bool \<Rightarrow> bool \<Rightarrow> ptr \<Rightarrow> VSSI_SendState \<Rightarrow> VSSI_SendState \<times> VSSI_Result" where
  "VSSI_ExpandCommandSlots realloc_ok calloc_ok junk st =
     (if ss_num_cmd_slots_active st \<noteq> ss_num_cmd_slots st then (st, VSSI_SUCCESS)
      else if \<not> realloc_ok then (st, VSSI_CMDLIMIT)
      else
        let n = ss_num_cmd_slots st;
            k = ss_num_chunks st;
            block = realloc_words junk (n + PEND_CMD_GROW_CNT + k + 1) (ss_table st);
            new_chunks = n + PEND_CMD_GROW_CNT;
            chunk = (if calloc_ok then Some (length (ss_cmds st)) else None);
            st1 = st\<lparr>ss_cmd_chunks := n, ss_table := block[new_chunks + k := chunk]\<rparr>
        in case chunk of
             None \<Rightarrow> (st1, VSSI_CMDLIMIT)
           | Some base \<Rightarrow>
               let moved = move_chunks n new_chunks k (ss_table st1);
                   st2 = st1\<lparr>ss_cmds := ss_cmds st @ replicate PEND_CMD_GROW_CNT zero_pend,
                           ss_cmd_chunks := new_chunks,
                           ss_table := clear_words n PEND_CMD_GROW_CNT moved\<rparr>;
                   st3 = foldl (\<lambda>s i. push_free (base + i) s) st2 [0..<PEND_CMD_GROW_CNT]
               in (st3\<lparr>ss_num_cmd_slots := n + PEND_CMD_GROW_CNT, ss_num_chunks := k + 1\<rparr>,
                   VSSI_SUCCESS))"

section \<open>Adding commands\<close>

definition next_xid :: "VSSI_SendState \<Rightarrow> VSSI_SendState \<times> u32" where
  "next_xid st =
     (let xid = ss_seq_id st; s = xid + 1
      in (st\<lparr>ss_seq_id := (if s = 0 then s + 1 else s)\<rparr>, xid))"

text \<open>\<open>while(pending_cmds[slot] != NULL) slot = (slot + 1) % num_cmd_slots;\<close>\<close>

partial_function (option) find_open :: "ptr list \<Rightarrow> nat \<Rightarrow> nat \<Rightarrow> nat option" where
  "find_open table n slot =
     (if table ! slot \<noteq> None then find_open table n ((slot + 1) mod n) else Some slot)"

definition place_pending :: "nat \<Rightarrow> u32 \<Rightarrow> VSSI_SendState \<Rightarrow> VSSI_SendState option" where
  "place_pending a xid st =
     do {
       slot \<leftarrow> find_open (ss_table st) (ss_num_cmd_slots st) (unat xid mod ss_num_cmd_slots st);
       Some (st\<lparr>ss_table := (ss_table st)[slot := Some a]\<rparr>)
     }"

text \<open>The transaction id is only written on success; \<open>0\<close> stands for the untouched output.\<close>

definition VSSI_AddPendingCommand ::
  "bool \<Rightarrow> bool \<Rightarrow> ptr \<Rightarrow> VSSI_PendInfo \<Rightarrow> VSSI_SendState \<Rightarrow>
     (VSSI_SendState \<times> VSSI_Result \<times> u32) option" where
  "VSSI_AddPendingCommand realloc_ok calloc_ok junk cmd_data st =
     (case VSSI_ExpandCommandSlots realloc_ok calloc_ok junk st of (st1, rv) \<Rightarrow>
        if rv \<noteq> VSSI_SUCCESS then Some (st1, rv, 0)
        else case next_xid st1 of (st2, xid) \<Rightarrow> do {
          info \<leftarrow> ss_free_stack st2;
          st3 \<leftarrow> place_pending info xid st2;
          let st4 = st3\<lparr>ss_free_stack := pi_next_free (ss_cmds st3 ! info)\<rparr>;
          let st5 = upd_cmd info (\<lambda>c. cmd_data\<lparr>pi_xid := xid\<rparr>) st4;
          Some (st5\<lparr>ss_num_cmd_slots_active := ss_num_cmd_slots_active st5 + 1\<rparr>, VSSI_SUCCESS, xid)
        })"

definition VSSI_AddWaitingCommand ::
  "bool \<Rightarrow> bool \<Rightarrow> ptr \<Rightarrow> VSSI_PendInfo \<Rightarrow> VSSI_SendState \<Rightarrow> (VSSI_SendState \<times> VSSI_Result) option" where
  "VSSI_AddWaitingCommand realloc_ok calloc_ok junk cmd_data st =
     (case VSSI_ExpandCommandSlots realloc_ok calloc_ok junk st of (st1, rv) \<Rightarrow>
        if rv \<noteq> VSSI_SUCCESS then Some (st1, rv)
        else do {
          new_info \<leftarrow> ss_free_stack st1;
          let st2 = st1\<lparr>ss_free_stack := pi_next_free (ss_cmds st1 ! new_info),
                      ss_num_cmd_slots_active := ss_num_cmd_slots_active st1 + 1\<rparr>;
          let st3 = upd_cmd new_info (\<lambda>c. cmd_data\<lparr>pi_next := None\<rparr>) st2;
          st4 \<leftarrow> (if ss_wait_head st3 = None then Some (st3\<lparr>ss_wait_head := Some new_info\<rparr>)
                  else do {
                    tail \<leftarrow> ss_wait_tail st3;
                    Some (upd_cmd tail (\<lambda>c. c\<lparr>pi_next := Some new_info\<rparr>) st3)
                  });
          Some (st4\<lparr>ss_wait_tail := Some new_info\<rparr>, VSSI_SUCCESS)
        })"

definition VSSI_WaitingCommandToPending ::
  "nat \<Rightarrow> VSSI_SendState \<Rightarrow> (VSSI_SendState \<times> VSSI_Result \<times> u32) option" where
  "VSSI_WaitingCommandToPending cmd_data st =
     (case next_xid st of (st1, xid) \<Rightarrow> do {
        st2 \<leftarrow> place_pending cmd_data xid st1;
        Some (upd_cmd cmd_data (\<lambda>c. c\<lparr>pi_xid := xid\<rparr>) st2, VSSI_SUCCESS, xid)
      })"

section \<open>Finding a command\<close>

definition slot_has :: "VSSI_SendState \<Rightarrow> u32 \<Rightarrow> nat \<Rightarrow> bool" where
  "slot_has st xid slot =
     (case ss_table st ! slot of None \<Rightarrow> False | Some a \<Rightarrow> pi_xid (ss_cmds st ! a) = xid)"

text \<open>The \<open>for\<close> loop, from \<open>rv\<close> round the table to \<open>start\<close>.\<close>

partial_function (option) scan_slots :: "(nat \<Rightarrow> bool) \<Rightarrow> nat \<Rightarrow> nat \<Rightarrow> nat \<Rightarrow> nat option" where
  "scan_slots hit n start rv =
     (if rv = start \<or> hit rv then Some rv else scan_slots hit n start ((rv + 1) mod n))"

definition VSSI_GetCommandSlotUnlocked :: "VSSI_SendState \<Rightarrow> u32 \<Rightarrow> int option" where
  "VSSI_GetCommandSlotUnlocked st xid =
     (let n = ss_num_cmd_slots st
      in if n = 0 then Some (-1)
         else
           let start_pos = unat xid mod n
           in if slot_has st xid start_pos then Some (int start_pos)
              else do {
                rv \<leftarrow> scan_slots (slot_has st xid) n start_pos ((start_pos + 1) mod n);
                Some (if rv = start_pos then -1 else int rv)
              })"

definition VSSI_GetVSCommandSlot :: "VSSI_SendState \<Rightarrow> u32 \<Rightarrow> ptr option" where
  "VSSI_GetVSCommandSlot st xid =
     do {
       slot \<leftarrow> VSSI_GetCommandSlotUnlocked st xid;
       Some (if slot \<ge> 0 then ss_table st ! nat slot else None)
     }"

section \<open>Resolving commands\<close>

datatype event =
    FreeFileState nat
  | FreeObject nat
  | Callback nat ptr VSSI_Result

definition delete_target :: "int \<Rightarrow> ptr \<Rightarrow> VSSI_Result \<Rightarrow> ptr" where
  "delete_target when target result =
     (if when = DELETE_ON_FAIL then
        (if result \<noteq> VSSI_SUCCESS \<and> result \<noteq> VSSI_EXISTS then target else None)
      else if when = DELETE_ALWAYS then target
      else None)"

definition VSSI_ResolveCommand :: "VSSI_PendInfo \<Rightarrow> VSSI_Result \<Rightarrow> event list" where
  "VSSI_ResolveCommand cmd_info result =
     (case delete_target (pi_delete_filestate_when cmd_info) (pi_file_state cmd_info) result of
        Some f \<Rightarrow> [FreeFileState f] | None \<Rightarrow> []) @
     (case delete_target (pi_delete_obj_when cmd_info) (pi_object cmd_info) result of
        Some ob \<Rightarrow> [FreeObject ob] | None \<Rightarrow> []) @
     (case pi_callback cmd_info of
        Some cb \<Rightarrow> [Callback cb (pi_ctx cmd_info) result] | None \<Rightarrow> [])"

text \<open>\<open>num_cmd_slots_active--; memset(cmd, 0); push on the free stack\<close>.\<close>

definition release_cmd :: "nat \<Rightarrow> VSSI_SendState \<Rightarrow> VSSI_SendState" where
  "release_cmd a st =
     push_free a (upd_cmd a (\<lambda>c. zero_pend)
       (st\<lparr>ss_num_cmd_slots_active := ss_num_cmd_slots_active st - 1\<rparr>))"

text \<open>One slot of the first loop of \<open>VSSI_ReplyPendingCommands\<close>: state, events, negotiation failed.\<close>

definition reply_slot ::
  "ptr \<Rightarrow> VSSI_Result \<Rightarrow> VSSI_SendState \<times> event list \<times> bool \<Rightarrow> nat \<Rightarrow> VSSI_SendState \<times> event list \<times> bool"
  where
  "reply_slot connection result acc i =
     (case acc of (st, evs, negotiate_fail) \<Rightarrow>
        case ss_table st ! i of
          None \<Rightarrow> acc
        | Some a \<Rightarrow>
            let cmd = ss_cmds st ! a
            in if connection = None \<or> pi_connection cmd = connection
               then (release_cmd a (st\<lparr>ss_table := (ss_table st)[i := None]\<rparr>),
                     if pi_command cmd = VSS_NEGOTIATE then evs
                     else evs @ VSSI_ResolveCommand cmd result,
                     negotiate_fail \<or> pi_command cmd = VSS_NEGOTIATE)
               else acc)"

partial_function (option) reply_waiting ::
  "VSSI_Result \<Rightarrow> VSSI_SendState \<Rightarrow> event list \<Rightarrow> (VSSI_SendState \<times> event list) option" where
  "reply_waiting result st evs =
     (case ss_wait_head st of
        None \<Rightarrow> Some (st, evs)
      | Some a \<Rightarrow>
          reply_waiting result
            (release_cmd a (st\<lparr>ss_wait_head := pi_next (ss_cmds st ! a)\<rparr>))
            (evs @ VSSI_ResolveCommand (ss_cmds st ! a) result))"

definition VSSI_ReplyPendingCommands ::
  "VSSI_SendState \<Rightarrow> ptr \<Rightarrow> VSSI_Result \<Rightarrow> (VSSI_SendState \<times> event list) option" where
  "VSSI_ReplyPendingCommands st connection result =
     (case foldl (reply_slot connection result) (st, [], False) [0..<ss_num_cmd_slots st] of
        (st1, evs, negotiate_fail) \<Rightarrow>
          if connection = None \<or> negotiate_fail then reply_waiting result st1 evs
          else Some (st1, evs))"

text \<open>
  What \<open>VSSI_HandleVSBuffer\<close> does with a command once its reply was handled with result \<open>rc\<close>:
  clear its slot, resolve it, give its structure back.
\<close>

definition complete_command ::
  "u32 \<Rightarrow> VSSI_Result \<Rightarrow> VSSI_SendState \<Rightarrow> (VSSI_SendState \<times> event list) option" where
  "complete_command xid rc st =
     do {
       cmd_info \<leftarrow> VSSI_GetVSCommandSlot st xid;
       a \<leftarrow> cmd_info;
       slot \<leftarrow> VSSI_GetCommandSlotUnlocked st xid;
       if slot < 0 then None
       else Some (release_cmd a (st\<lparr>ss_table := (ss_table st)[nat slot := None]\<rparr>),
                  VSSI_ResolveCommand (ss_cmds st ! a) rc)
     }"

text \<open>The loops evaluate by their equations.\<close>

declare find_open.simps [code] scan_slots.simps [code] reply_waiting.simps [code]

end
