(* ===== verification/Vssi_Slots_Correct.thy ===== *)
theory Vssi_Slots_Correct
  imports Vssi_Slots
begin

text \<open>
  The invariant of the command table (\<open>slots_ok\<close>): each structure is on the free stack, in the
  wait queue or in exactly one slot, and the chunk pointers follow the slots. Growing the table,
  taking, filling, clearing and releasing keep it, and under it every probing loop returns. The
  state is seen as the multiset of pending commands and the list of waiting ones (\<open>cmd_view\<close>).
\<close>

section \<open>Linked lists\<close>

fun chain :: "(nat \<Rightarrow> ptr) \<Rightarrow> ptr \<Rightarrow> nat list \<Rightarrow> bool" where
  "chain nx p [] \<longleftrightarrow> p = None"
| "chain nx p (a # as) \<longleftrightarrow> p = Some a \<and> chain nx (nx a) as"

lemma chain_cong: "(\<And>a. a \<in> set xs \<Longrightarrow> nx a = nx' a) \<Longrightarrow> chain nx p xs = chain nx' p xs"
  by (induction xs arbitrary: p) auto

lemma chain_head: "chain nx p xs \<Longrightarrow> p = (case xs of [] \<Rightarrow> None | a # _ \<Rightarrow> Some a)"
  by (cases xs) auto

lemma chain_append_last:
  "chain nx p (xs @ [a]) \<Longrightarrow> nx a = None"
  by (induction xs arbitrary: p) auto

lemma chain_snoc:
  assumes "chain nx p xs" and "xs \<noteq> []" and "distinct xs" and "a \<notin> set xs" and "nx' a = None"
    and "nx' (last xs) = Some a" and "\<And>x. x \<in> set xs \<Longrightarrow> x \<noteq> last xs \<Longrightarrow> nx' x = nx x"
  shows "chain nx' p (xs @ [a])"
  using assms
proof (induction xs arbitrary: p)
  case (Cons x xs)
  show ?case
  proof (cases "xs = []")
    case False
    then have "last xs \<in> set xs" by simp
    with Cons.prems False have "nx' x = nx x" by (metis distinct.simps(2) last_ConsR list.set_intros(1))
    with Cons False show ?thesis by auto
  qed (use Cons in auto)
qed simp

section \<open>The invariant\<close>

definition pend_of :: "ptr list \<Rightarrow> nat list" where
  "pend_of slots = map the (filter (\<lambda>p. p \<noteq> None) slots)"

definition pend_addrs :: "VSSI_SendState \<Rightarrow> nat list" where
  "pend_addrs st = pend_of (take (ss_num_cmd_slots st) (ss_table st))"

text \<open>\<open>lost\<close> are the structures a function has in hand, on none of the lists.\<close>

record slot_lists =
  sl_lost :: "nat list"
  sl_free :: "nat list"
  sl_wait :: "nat list"

definition table_ok :: "VSSI_SendState \<Rightarrow> bool" where
  "table_ok st \<longleftrightarrow>
     ss_num_cmd_slots st = PEND_CMD_GROW_CNT * ss_num_chunks st \<and>
     length (ss_cmds st) = ss_num_cmd_slots st \<and>
     ss_cmd_chunks st = ss_num_cmd_slots st \<and>
     ss_num_cmd_slots st + ss_num_chunks st \<le> length (ss_table st) \<and>
     (\<forall>j < ss_num_chunks st. ss_table st ! (ss_cmd_chunks st + j) = Some (PEND_CMD_GROW_CNT * j))"

definition lists_ok :: "VSSI_SendState \<Rightarrow> slot_lists \<Rightarrow> bool" where
  "lists_ok st l \<longleftrightarrow>
     chain (\<lambda>a. pi_next_free (ss_cmds st ! a)) (ss_free_stack st) (sl_free l) \<and>
     chain (\<lambda>a. pi_next (ss_cmds st ! a)) (ss_wait_head st) (sl_wait l) \<and>
     (sl_wait l \<noteq> [] \<longrightarrow> ss_wait_tail st = Some (last (sl_wait l)))"

definition owns_ok :: "VSSI_SendState \<Rightarrow> slot_lists \<Rightarrow> bool" where
  "owns_ok st l \<longleftrightarrow>
     mset (sl_lost l @ sl_free l @ sl_wait l @ pend_addrs st) = mset [0..<ss_num_cmd_slots st] \<and>
     ss_num_cmd_slots_active st = length (sl_lost l) + length (sl_wait l) + length (pend_addrs st)"

definition slots_with :: "VSSI_SendState \<Rightarrow> slot_lists \<Rightarrow> bool" where
  "slots_with st l \<longleftrightarrow> table_ok st \<and> lists_ok st l \<and> owns_ok st l"

definition slots_ok :: "VSSI_SendState \<Rightarrow> bool" where
  "slots_ok st \<longleftrightarrow> (\<exists>free wait. slots_with st \<lparr>sl_lost = [], sl_free = free, sl_wait = wait\<rparr>)"

lemma table_ok_cong:
  "ss_num_cmd_slots st' = ss_num_cmd_slots st \<Longrightarrow> ss_num_chunks st' = ss_num_chunks st \<Longrightarrow>
     ss_cmd_chunks st' = ss_cmd_chunks st \<Longrightarrow> ss_table st' = ss_table st \<Longrightarrow>
     length (ss_cmds st') = length (ss_cmds st) \<Longrightarrow> table_ok st' = table_ok st"
  by (simp only: table_ok_def)

lemma table_ok_set_slot:
  "table_ok st \<Longrightarrow> slot < ss_num_cmd_slots st \<Longrightarrow>
     table_ok (st\<lparr>ss_table := (ss_table st)[slot := v]\<rparr>)"
  by (auto simp: table_ok_def)

lemma new_send_state_ok: "slots_ok (new_send_state session cluster)"
  unfolding slots_ok_def slots_with_def
  by (intro exI [of _ "[]"])
    (simp add: table_ok_def lists_ok_def owns_ok_def new_send_state_def pend_addrs_def pend_of_def)

lemma owns_distinct:
  assumes "owns_ok st l"
  shows "distinct (sl_lost l @ sl_free l @ sl_wait l @ pend_addrs st)"
    and "set (sl_lost l @ sl_free l @ sl_wait l @ pend_addrs st) = {..<ss_num_cmd_slots st}"
proof -
  have m: "mset (sl_lost l @ sl_free l @ sl_wait l @ pend_addrs st) = mset [0..<ss_num_cmd_slots st]"
    using assms by (simp add: owns_ok_def)
  show "distinct (sl_lost l @ sl_free l @ sl_wait l @ pend_addrs st)"
    using mset_eq_imp_distinct_iff [OF m] by simp
  show "set (sl_lost l @ sl_free l @ sl_wait l @ pend_addrs st) = {..<ss_num_cmd_slots st}"
    using mset_eq_setD [OF m] by (simp add: atLeast0LessThan)
qed

lemma owns_lengths:
  assumes "owns_ok st l"
  shows "length (sl_lost l) + length (sl_free l) + length (sl_wait l) + length (pend_addrs st) =
         ss_num_cmd_slots st"
proof -
  have "size (mset (sl_lost l @ sl_free l @ sl_wait l @ pend_addrs st)) = size (mset [0..<ss_num_cmd_slots st])"
    using assms by (simp only: owns_ok_def)
  then show ?thesis by simp
qed

section \<open>Slots\<close>

lemma mset_pend_of: "mset (pend_of slots) = image_mset the (filter_mset (\<lambda>p. p \<noteq> None) (mset slots))"
  by (simp add: pend_of_def mset_filter)

lemma pend_of_fill:
  assumes "i < length slots" and "slots ! i = None"
  shows "mset (pend_of (slots[i := Some a])) = add_mset a (mset (pend_of slots))"
  using assms by (simp add: mset_pend_of mset_update)

lemma pend_of_clear:
  assumes "i < length slots" and "slots ! i = Some a"
  shows "mset (pend_of slots) = add_mset a (mset (pend_of (slots[i := None])))"
proof -
  have "slots = (slots[i := None])[i := Some a]" using assms by (metis list_update_id list_update_overwrite)
  then show ?thesis using pend_of_fill [of i "slots[i := None]" a] assms(1) by simp
qed

lemma pend_of_set: "a \<in> set (pend_of slots) \<longleftrightarrow> (\<exists>i<length slots. slots ! i = Some a)"
proof -
  have "a \<in> set (pend_of slots) \<longleftrightarrow> Some a \<in> set slots" by (induction slots) (auto simp: pend_of_def)
  then show ?thesis by (auto simp: in_set_conv_nth)
qed

lemma open_slot_exists:
  assumes "length (pend_of slots) < length slots"
  shows "\<exists>i<length slots. slots ! i = None"
proof (rule ccontr)
  assume "\<not> ?thesis"
  then have "\<forall>p\<in>set slots. p \<noteq> None" by (auto simp: in_set_conv_nth)
  then have "filter (\<lambda>p. p \<noteq> None) slots = slots" by (simp add: filter_id_conv)
  then show False using assms by (simp add: pend_of_def)
qed

lemma find_open_reaches:
  assumes "table ! ((slot + d) mod n) = None" and "slot < n"
  shows "\<exists>r. find_open table n slot = Some r \<and> r < n \<and> table ! r = None"
  using assms
proof (induction d arbitrary: slot)
  case 0
  then show ?case by (subst find_open.simps) simp
next
  case (Suc d)
  show ?case
  proof (cases "table ! slot = None")
    case True
    then show ?thesis using Suc.prems by (subst find_open.simps) simp
  next
    case False
    have "table ! (((slot + 1) mod n + d) mod n) = None"
      using Suc.prems(1) by (simp add: mod_add_left_eq)
    then show ?thesis
      using Suc.IH [of "(slot + 1) mod n"] Suc.prems False by (subst find_open.simps) simp
  qed
qed

lemma find_open_returns:
  assumes "j < n" and "table ! j = None" and "slot < n"
  shows "\<exists>r. find_open table n slot = Some r \<and> r < n \<and> table ! r = None"
proof (rule find_open_reaches [where d = "j + n - slot"])
  have "slot + (j + n - slot) = j + n" using assms by simp
  then show "table ! ((slot + (j + n - slot)) mod n) = None" using assms by simp
qed (use assms in simp)

lemma scan_slots_reaches:
  assumes "(rv + d) mod n = start" and "\<forall>e<d. (rv + e) mod n \<noteq> start" and "rv < n"
  shows "\<exists>r. scan_slots hit n start rv = Some r \<and> r < n \<and>
             (if r = start then \<forall>e<d. \<not> hit ((rv + e) mod n) else hit r)"
  using assms
proof (induction d arbitrary: rv)
  case 0
  then show ?case by (subst scan_slots.simps) simp
next
  case (Suc d)
  have ne: "rv \<noteq> start" using Suc.prems by fastforce
  show ?case
  proof (cases "hit rv")
    case True
    then show ?thesis using ne Suc.prems(3) by (subst scan_slots.simps) simp
  next
    case False
    let ?rv = "Suc rv mod n"
    have step: "(?rv + e) mod n = (rv + Suc e) mod n" for e by (simp add: mod_add_left_eq)
    have "\<exists>r. scan_slots hit n start ?rv = Some r \<and> r < n \<and>
        (if r = start then \<forall>e<d. \<not> hit ((?rv + e) mod n) else hit r)"
      by (rule Suc.IH) (use Suc.prems in \<open>auto simp only: step\<close>, use Suc.prems in auto)
    moreover have "(\<forall>e<Suc d. \<not> hit ((rv + e) mod n)) \<longleftrightarrow> (\<forall>e<d. \<not> hit ((?rv + e) mod n))"
      using False Suc.prems(3) by (simp only: step All_less_Suc2) simp
    moreover have "scan_slots hit n start rv = scan_slots hit n start ?rv"
      using ne False by (subst scan_slots.simps) simp
    ultimately show ?thesis by auto
  qed
qed

lemma round_the_table:
  fixes start n j :: nat
  assumes "start < n" and "j < n" and "j \<noteq> start"
  shows "\<exists>e<n - 1. ((start + 1) mod n + e) mod n = j"
proof (cases "start < j")
  case True
  then have "start + 1 + (j - start - 1) = j" by linarith
  then have "((start + 1) mod n + (j - start - 1)) mod n = j"
    using assms by (simp only: mod_add_left_eq) simp
  then show ?thesis using True assms by (intro exI [of _ "j - start - 1"]) simp
next
  case False
  then have "start + 1 + (j + n - start - 1) = j + n" using assms by simp
  then have "((start + 1) mod n + (j + n - start - 1)) mod n = j"
    using assms by (simp only: mod_add_left_eq mod_add_self2) simp
  then show ?thesis using False assms by (intro exI [of _ "j + n - start - 1"]) auto
qed

lemma VSSI_GetCommandSlotUnlocked_search:
  "\<exists>r. VSSI_GetCommandSlotUnlocked st xid = Some r \<and>
     (if r < 0 then r = -1 \<and> (\<forall>j < ss_num_cmd_slots st. \<not> slot_has st xid j)
      else nat r < ss_num_cmd_slots st \<and> slot_has st xid (nat r))"
proof (cases "ss_num_cmd_slots st = 0")
  case True
  then show ?thesis by (simp add: VSSI_GetCommandSlotUnlocked_def)
next
  case False
  define n where "n = ss_num_cmd_slots st"
  define start where "start = unat xid mod n"
  have n: "0 < n" "start < n" using False by (simp_all add: n_def start_def)
  show ?thesis
  proof (cases "slot_has st xid start")
    case True
    then show ?thesis using n
      by (simp add: VSSI_GetCommandSlotUnlocked_def Let_def flip: n_def start_def)
  next
    case miss: False
    have "start + 1 + (n - 1) = start + n" using n by linarith
    then have wrap: "((start + 1) mod n + (n - 1)) mod n = start"
      using n by (simp only: mod_add_left_eq) simp
    have away: "\<forall>e<n - 1. ((start + 1) mod n + e) mod n \<noteq> start"
    proof (intro allI impI)
      fix e assume e: "e < n - 1"
      show "((start + 1) mod n + e) mod n \<noteq> start"
      proof (cases "start + 1 + e < n")
        case False
        then have "(start + 1 + e) mod n = start + 1 + e - n"
          using e n by (simp add: le_mod_geq)
        then show ?thesis using e n False by (simp only: mod_add_left_eq)
      qed (use e n in \<open>simp add: mod_add_left_eq\<close>)
    qed
    obtain r where r: "scan_slots (slot_has st xid) n start ((start + 1) mod n) = Some r" "r < n"
      "if r = start then \<forall>e<n - 1. \<not> slot_has st xid (((start + 1) mod n + e) mod n)
       else slot_has st xid r"
      using scan_slots_reaches [OF wrap away, of "slot_has st xid"] n by auto
    have none: "\<not> slot_has st xid j" if "r = start" "j < n" for j
    proof (cases "j = start")
      case False
      with round_the_table [OF n(2) \<open>j < n\<close>]
      obtain e where "e < n - 1" "((start + 1) mod n + e) mod n = j" by blast
      then show ?thesis using r(3) \<open>r = start\<close> by auto
    qed (use miss in simp)
    show ?thesis using False miss r none
      by (auto simp: VSSI_GetCommandSlotUnlocked_def Let_def simp flip: n_def start_def)
  qed
qed

section \<open>Giving structures back\<close>

lemma ss_upd_cmd [simp]:
  "ss_table (upd_cmd a f st) = ss_table st" "ss_num_cmd_slots (upd_cmd a f st) = ss_num_cmd_slots st"
  "ss_num_cmd_slots_active (upd_cmd a f st) = ss_num_cmd_slots_active st"
  "ss_free_stack (upd_cmd a f st) = ss_free_stack st" "ss_wait_head (upd_cmd a f st) = ss_wait_head st"
  "ss_wait_tail (upd_cmd a f st) = ss_wait_tail st" "ss_num_chunks (upd_cmd a f st) = ss_num_chunks st"
  "ss_cmd_chunks (upd_cmd a f st) = ss_cmd_chunks st" "ss_seq_id (upd_cmd a f st) = ss_seq_id st"
  "length (ss_cmds (upd_cmd a f st)) = length (ss_cmds st)"
  by (simp_all add: upd_cmd_def)

lemma cmds_upd_cmd:
  "ss_cmds (upd_cmd a f st) ! b =
     (if a = b \<and> b < length (ss_cmds st) then f (ss_cmds st ! b) else ss_cmds st ! b)"
  by (cases "a < length (ss_cmds st)") (auto simp: upd_cmd_def nth_list_update list_update_beyond)

lemma ss_push_free [simp]:
  "ss_table (push_free a st) = ss_table st" "ss_num_cmd_slots (push_free a st) = ss_num_cmd_slots st"
  "ss_num_cmd_slots_active (push_free a st) = ss_num_cmd_slots_active st"
  "ss_free_stack (push_free a st) = Some a" "ss_wait_head (push_free a st) = ss_wait_head st"
  "ss_wait_tail (push_free a st) = ss_wait_tail st" "ss_num_chunks (push_free a st) = ss_num_chunks st"
  "ss_cmd_chunks (push_free a st) = ss_cmd_chunks st" "ss_seq_id (push_free a st) = ss_seq_id st"
  "length (ss_cmds (push_free a st)) = length (ss_cmds st)"
  by (simp_all add: push_free_def)

lemma cmds_push_free:
  "ss_cmds (push_free a st) ! b =
     (if a = b \<and> b < length (ss_cmds st) then (ss_cmds st ! b)\<lparr>pi_next_free := ss_free_stack st\<rparr>
      else ss_cmds st ! b)"
  by (simp add: push_free_def cmds_upd_cmd)

lemma pend_addrs_cong:
  "ss_table st' = ss_table st \<Longrightarrow> ss_num_cmd_slots st' = ss_num_cmd_slots st \<Longrightarrow>
     pend_addrs st' = pend_addrs st"
  by (simp add: pend_addrs_def)

lemma release_cmd_simps [simp]:
  "ss_table (release_cmd a st) = ss_table st" "ss_num_cmd_slots (release_cmd a st) = ss_num_cmd_slots st"
  "ss_num_cmd_slots_active (release_cmd a st) = ss_num_cmd_slots_active st - 1"
  "ss_free_stack (release_cmd a st) = Some a" "ss_wait_head (release_cmd a st) = ss_wait_head st"
  "ss_wait_tail (release_cmd a st) = ss_wait_tail st" "ss_num_chunks (release_cmd a st) = ss_num_chunks st"
  "ss_cmd_chunks (release_cmd a st) = ss_cmd_chunks st" "ss_seq_id (release_cmd a st) = ss_seq_id st"
  "length (ss_cmds (release_cmd a st)) = length (ss_cmds st)"
  "pend_addrs (release_cmd a st) = pend_addrs st"
  by (simp_all add: release_cmd_def pend_addrs_def)

lemma cmds_release_cmd:
  "ss_cmds (release_cmd a st) ! b =
     (if a = b \<and> b < length (ss_cmds st) then zero_pend\<lparr>pi_next_free := ss_free_stack st\<rparr>
      else ss_cmds st ! b)"
  by (simp add: release_cmd_def cmds_push_free cmds_upd_cmd)

lemma release_cmd_slots:
  assumes "slots_with st \<lparr>sl_lost = [a], sl_free = free, sl_wait = wait\<rparr>"
  shows "slots_with (release_cmd a st) \<lparr>sl_lost = [], sl_free = a # free, sl_wait = wait\<rparr>"
proof -
  let ?l = "\<lparr>sl_lost = [a], sl_free = free, sl_wait = wait\<rparr>"
  have t: "table_ok st" and l: "lists_ok st ?l" and o: "owns_ok st ?l"
    using assms by (simp_all add: slots_with_def)
  have a: "a < length (ss_cmds st)" and d: "a \<notin> set free" "a \<notin> set wait"
    using owns_distinct [OF o] t by (auto simp: table_ok_def)
  have "table_ok (release_cmd a st)"
    using t by (rule table_ok_cong [THEN iffD2, rotated -1]) simp_all
  moreover have "lists_ok (release_cmd a st) \<lparr>sl_lost = [], sl_free = a # free, sl_wait = wait\<rparr>"
    using l a d by (auto simp: lists_ok_def cmds_release_cmd elim!: chain_cong [THEN iffD1, rotated])
  moreover have "owns_ok (release_cmd a st) \<lparr>sl_lost = [], sl_free = a # free, sl_wait = wait\<rparr>"
    using o by (simp add: owns_ok_def)
  ultimately show ?thesis by (simp add: slots_with_def)
qed

section \<open>Taking a structure from the free stack\<close>

lemma take_free:
  assumes "slots_with st \<lparr>sl_lost = [], sl_free = a # free, sl_wait = wait\<rparr>"
  shows "ss_free_stack st = Some a"
    and "slots_with (st\<lparr>ss_free_stack := pi_next_free (ss_cmds st ! a),
             ss_num_cmd_slots_active := ss_num_cmd_slots_active st + 1\<rparr>)
           \<lparr>sl_lost = [a], sl_free = free, sl_wait = wait\<rparr>"
  using assms
  by (auto simp: slots_with_def table_ok_def lists_ok_def owns_ok_def pend_addrs_def)

text \<open>A structure in hand may be overwritten.\<close>

lemma write_lost:
  assumes "slots_with st \<lparr>sl_lost = [a], sl_free = free, sl_wait = wait\<rparr>"
  shows "slots_with (upd_cmd a f st) \<lparr>sl_lost = [a], sl_free = free, sl_wait = wait\<rparr>"
proof -
  let ?l = "\<lparr>sl_lost = [a], sl_free = free, sl_wait = wait\<rparr>"
  have t: "table_ok st" and l: "lists_ok st ?l" and o: "owns_ok st ?l"
    using assms by (simp_all add: slots_with_def)
  have d: "a \<notin> set free" "a \<notin> set wait" using owns_distinct [OF o] by auto
  have "lists_ok (upd_cmd a f st) ?l"
    using l d by (auto simp: lists_ok_def cmds_upd_cmd elim!: chain_cong [THEN iffD1, rotated])
  moreover have "table_ok (upd_cmd a f st)"
    using t by (rule table_ok_cong [THEN iffD2, rotated -1]) simp_all
  moreover have "owns_ok (upd_cmd a f st) ?l" using o by (simp add: owns_ok_def pend_addrs_def)
  ultimately show ?thesis by (simp add: slots_with_def)
qed

lemma fill_slot:
  assumes "slots_with st \<lparr>sl_lost = [a], sl_free = free, sl_wait = wait\<rparr>"
    and "slot < ss_num_cmd_slots st" and "ss_table st ! slot = None"
  shows "slots_with (st\<lparr>ss_table := (ss_table st)[slot := Some a]\<rparr>)
           \<lparr>sl_lost = [], sl_free = free, sl_wait = wait\<rparr>"
proof -
  let ?st = "st\<lparr>ss_table := (ss_table st)[slot := Some a]\<rparr>"
  have t: "table_ok st" using assms(1) by (simp add: slots_with_def)
  then have len: "ss_num_cmd_slots st \<le> length (ss_table st)" by (simp add: table_ok_def)
  have m: "mset (pend_addrs ?st) = add_mset a (mset (pend_addrs st))"
    using assms(2,3) len pend_of_fill [of slot "take (ss_num_cmd_slots st) (ss_table st)" a]
    by (simp add: pend_addrs_def take_update_swap)
  then have "length (pend_addrs ?st) = Suc (length (pend_addrs st))"
    by (metis size_add_mset size_mset)
  moreover have "table_ok ?st" using t assms(2) by (rule table_ok_set_slot)
  ultimately show ?thesis using assms(1) m
    by (simp add: slots_with_def lists_ok_def owns_ok_def)
qed

lemma clear_slot:
  assumes "slots_with st \<lparr>sl_lost = [], sl_free = free, sl_wait = wait\<rparr>"
    and "slot < ss_num_cmd_slots st" and "ss_table st ! slot = Some a"
  shows "slots_with (st\<lparr>ss_table := (ss_table st)[slot := None]\<rparr>)
           \<lparr>sl_lost = [a], sl_free = free, sl_wait = wait\<rparr>"
proof -
  let ?st = "st\<lparr>ss_table := (ss_table st)[slot := None]\<rparr>"
  have t: "table_ok st" using assms(1) by (simp add: slots_with_def)
  then have len: "ss_num_cmd_slots st \<le> length (ss_table st)" by (simp add: table_ok_def)
  have m: "mset (pend_addrs st) = add_mset a (mset (pend_addrs ?st))"
    using assms(2,3) len pend_of_clear [of slot "take (ss_num_cmd_slots st) (ss_table st)" a]
    by (simp add: pend_addrs_def take_update_swap)
  then have "length (pend_addrs st) = Suc (length (pend_addrs ?st))"
    by (metis size_add_mset size_mset)
  moreover have "table_ok ?st" using t assms(2) by (rule table_ok_set_slot)
  ultimately show ?thesis using assms(1) m
    by (simp add: slots_with_def lists_ok_def owns_ok_def)
qed

section \<open>Growing the table\<close>

lemma length_move_chunks [simp]: "length (move_chunks old new k b) = length b"
  by (induction old new k b rule: move_chunks.induct) simp_all

lemma nth_move_chunks:
  assumes "old \<le> new" and "new + k \<le> length b"
  shows "move_chunks old new k b ! i = (if new \<le> i \<and> i < new + k then b ! (old + (i - new)) else b ! i)"
  using assms
proof (induction old new k b rule: move_chunks.induct)
  case (2 old new k b)
  let ?b = "b[new + k := b ! (old + k)]"
  have "move_chunks old new k ?b ! i =
      (if new \<le> i \<and> i < new + k then ?b ! (old + (i - new)) else ?b ! i)"
    using 2 by simp
  moreover have "?b ! (old + (i - new)) = b ! (old + (i - new))" if "new \<le> i" "i < new + k"
    using that 2(2) by (subst nth_list_update_neq) simp_all
  ultimately show ?case using 2 by (auto simp: nth_list_update)
qed auto

lemma length_clear_words [simp]: "length (clear_words off n b) = length b"
proof -
  have "length (foldl (\<lambda>b i. b[off + i := None]) b js) = length b" for js
    by (induction js arbitrary: b) simp_all
  then show ?thesis by (simp add: clear_words_def)
qed

lemma clear_words_Suc: "clear_words off (Suc n) b = (clear_words off n b)[off + n := None]"
  by (simp add: clear_words_def)

lemma nth_clear_words:
  "off + n \<le> length b \<Longrightarrow>
     clear_words off n b ! i = (if off \<le> i \<and> i < off + n then None else b ! i)"
proof (induction n)
  case 0
  show ?case by (auto simp: clear_words_def)
next
  case (Suc n)
  then show ?case by (auto simp: clear_words_Suc nth_list_update)
qed

text \<open>Pushing a range of structures that are on no list.\<close>

definition push_range :: "nat \<Rightarrow> nat \<Rightarrow> VSSI_SendState \<Rightarrow> VSSI_SendState" where
  "push_range base m st = foldl (\<lambda>s i. push_free (base + i) s) st [0..<m]"

lemma push_range_Suc: "push_range base (Suc m) st = push_free (base + m) (push_range base m st)"
  by (simp add: push_range_def)

lemma push_range_simps [simp]:
  "ss_table (push_range base m st) = ss_table st"
  "ss_num_cmd_slots (push_range base m st) = ss_num_cmd_slots st"
  "ss_num_cmd_slots_active (push_range base m st) = ss_num_cmd_slots_active st"
  "ss_wait_head (push_range base m st) = ss_wait_head st"
  "ss_wait_tail (push_range base m st) = ss_wait_tail st"
  "ss_num_chunks (push_range base m st) = ss_num_chunks st"
  "ss_cmd_chunks (push_range base m st) = ss_cmd_chunks st"
  "ss_seq_id (push_range base m st) = ss_seq_id st"
  "length (ss_cmds (push_range base m st)) = length (ss_cmds st)"
  by (induction m) (simp_all add: push_range_Suc, simp_all add: push_range_def)

lemma cmds_push_range:
  "pi_next (ss_cmds (push_range base m st) ! a) = pi_next (ss_cmds st ! a)"
  "pi_xid (ss_cmds (push_range base m st) ! a) = pi_xid (ss_cmds st ! a)"
  "a < base \<Longrightarrow> ss_cmds (push_range base m st) ! a = ss_cmds st ! a"
  by (induction m) (simp_all add: push_range_Suc cmds_push_free, simp_all add: push_range_def)

lemma push_range_chain:
  assumes "base + m \<le> length (ss_cmds st)" and "\<forall>a\<in>set free. a < base"
    and "chain (\<lambda>a. pi_next_free (ss_cmds st ! a)) (ss_free_stack st) free"
  shows "chain (\<lambda>a. pi_next_free (ss_cmds (push_range base m st) ! a))
           (ss_free_stack (push_range base m st)) (rev [base..<base + m] @ free)"
  using assms(1)
proof (induction m)
  case 0
  then show ?case using assms(3) by (simp add: push_range_def)
next
  case (Suc m)
  let ?s = "push_range base m st"
  have ih: "chain (\<lambda>a. pi_next_free (ss_cmds ?s ! a)) (ss_free_stack ?s) (rev [base..<base + m] @ free)"
    using Suc by simp
  have "chain (\<lambda>a. pi_next_free (ss_cmds (push_free (base + m) ?s) ! a)) (ss_free_stack ?s)
      (rev [base..<base + m] @ free)"
    using ih by (rule chain_cong [THEN iffD1, rotated]) (use assms(2) in \<open>auto simp: cmds_push_free\<close>)
  then show ?case using Suc.prems by (simp add: push_range_Suc cmds_push_free)
qed

lemma VSSI_ExpandCommandSlots_grow:
  assumes sw: "slots_with st \<lparr>sl_lost = [], sl_free = free, sl_wait = wait\<rparr>"
    and full: "ss_num_cmd_slots_active st = ss_num_cmd_slots st"
  defines "n \<equiv> ss_num_cmd_slots st" and "k \<equiv> ss_num_chunks st"
  shows "\<exists>st'. VSSI_ExpandCommandSlots True True junk st = (st', VSSI_SUCCESS) \<and>
     slots_with st' \<lparr>sl_lost = [], sl_free = rev [n..<n + 16] @ free, sl_wait = wait\<rparr> \<and>
     ss_num_cmd_slots st' = n + 16 \<and> ss_seq_id st' = ss_seq_id st \<and> pend_addrs st' = pend_addrs st \<and>
     (\<forall>a<n. ss_cmds st' ! a = ss_cmds st ! a)"
proof -
  let ?l = "\<lparr>sl_lost = [], sl_free = free, sl_wait = wait\<rparr>"
  let ?l' = "\<lparr>sl_lost = [], sl_free = rev [n..<n + 16] @ free, sl_wait = wait\<rparr>"
  have t: "table_ok st" and l: "lists_ok st ?l" and o: "owns_ok st ?l"
    using sw by (simp_all add: slots_with_def)
  have nk: "n = 16 * k" "length (ss_cmds st) = n" "n + k \<le> length (ss_table st)"
    and chunks: "\<And>j. j < k \<Longrightarrow> ss_table st ! (n + j) = Some (16 * j)"
    using t by (auto simp: table_ok_def n_def k_def)
  define block where "block = (realloc_words junk (n + 16 + k + 1) (ss_table st))[n + 16 + k := Some n]"
  define table where "table = clear_words n 16 (move_chunks n (n + 16) k block)"
  define st2 where "st2 = st\<lparr>ss_cmds := ss_cmds st @ replicate 16 zero_pend,
    ss_cmd_chunks := n + 16, ss_table := table\<rparr>"
  define st' where "st' = (push_range n 16 st2)\<lparr>ss_num_cmd_slots := n + 16, ss_num_chunks := k + 1\<rparr>"
  have len: "length block = n + 16 + k + 1" "length table = n + 16 + k + 1"
    using nk by (simp_all add: block_def table_def realloc_words_def)
  have blk: "block ! i = ss_table st ! i" if "i < n + k" for i
    using that nk by (simp add: block_def realloc_words_def nth_append)
  have tab: "table ! i = (if n \<le> i \<and> i < n + 16 then None
      else if n + 16 \<le> i \<and> i < n + 16 + k then block ! (n + (i - (n + 16))) else block ! i)" for i
    using len(1) by (simp add: table_def nth_clear_words nth_move_chunks)
  have low: "table ! i = ss_table st ! i" if "i < n" for i using that blk by (simp add: tab)
  have new_chunks: "table ! (n + 16 + j) = Some (16 * j)" if "j < k + 1" for j
    using that blk [of "n + j"] chunks [of j] nk(1) len(1) by (auto simp: tab block_def less_Suc_eq)
  have run: "VSSI_ExpandCommandSlots True True junk st = (st', VSSI_SUCCESS)"
    using full nk(2)
    by (simp add: VSSI_ExpandCommandSlots_def Let_def st'_def st2_def table_def block_def push_range_def
        flip: n_def k_def)
  have pend: "pend_addrs st' = pend_addrs st"
  proof -
    have "take (n + 16) table = take n (ss_table st) @ replicate 16 None"
      by (rule nth_equalityI) (use len nk low tab in \<open>auto simp: nth_append\<close>)
    then show ?thesis by (simp add: pend_addrs_def st'_def st2_def pend_of_def flip: n_def)
  qed
  have below: "set free \<union> set wait \<subseteq> {..<n}"
    using owns_distinct(2) [OF o] by (auto simp: n_def)
  have "table_ok st'"
    using nk new_chunks len by (simp add: table_ok_def st'_def st2_def)
  moreover have "lists_ok st' ?l'"
  proof -
    have "chain (\<lambda>a. pi_next_free (ss_cmds (push_range n 16 st2) ! a))
        (ss_free_stack (push_range n 16 st2)) (rev [n..<n + 16] @ free)"
    proof (rule push_range_chain)
      have "chain (\<lambda>a. pi_next_free (ss_cmds st ! a)) (ss_free_stack st) free"
        using l by (simp add: lists_ok_def)
      then show "chain (\<lambda>a. pi_next_free (ss_cmds st2 ! a)) (ss_free_stack st2) free"
        using below nk(2) by (auto simp: st2_def nth_append elim!: chain_cong [THEN iffD1, rotated])
    qed (use below nk(2) in \<open>auto simp: st2_def\<close>)
    moreover have "chain (\<lambda>a. pi_next (ss_cmds st2 ! a)) (ss_wait_head st) wait"
      using l below nk(2)
      by (auto simp: lists_ok_def st2_def nth_append elim!: chain_cong [THEN iffD1, rotated])
    ultimately show ?thesis using l
      by (simp add: lists_ok_def st'_def cmds_push_range st2_def)
  qed
  moreover have "owns_ok st' ?l'"
  proof -
    have "mset [0..<n + 16] = mset [0..<n] + mset [n..<n + 16]"
      by (simp only: upt_add_eq_append [of 0 n 16] mset_append le0)
    then show ?thesis using o pend
      by (simp add: owns_ok_def st'_def st2_def flip: n_def)
  qed
  moreover have "\<forall>a<n. ss_cmds st' ! a = ss_cmds st ! a"
    using nk(2) by (simp add: st'_def cmds_push_range st2_def nth_append)
  ultimately show ?thesis
    using run pend by (auto simp: slots_with_def st'_def st2_def)
qed

lemma VSSI_ExpandCommandSlots_fail:
  assumes sw: "slots_with st l" and "ss_num_cmd_slots_active st = ss_num_cmd_slots st"
    and "\<not> (realloc_ok \<and> calloc_ok)"
  shows "\<exists>st'. VSSI_ExpandCommandSlots realloc_ok calloc_ok junk st = (st', VSSI_CMDLIMIT) \<and>
     slots_with st' l \<and> ss_seq_id st' = ss_seq_id st \<and> pend_addrs st' = pend_addrs st \<and>
     ss_num_cmd_slots st' = ss_num_cmd_slots st \<and> ss_cmds st' = ss_cmds st"
proof (cases realloc_ok)
  case False
  then show ?thesis using assms(1,2) by (simp add: VSSI_ExpandCommandSlots_def)
next
  case True
  then have calloc: "\<not> calloc_ok" using assms(3) by simp
  let ?n = "ss_num_cmd_slots st" and ?k = "ss_num_chunks st"
  define table where "table = (realloc_words junk (?n + 16 + ?k + 1) (ss_table st))[?n + 16 + ?k := None]"
  let ?st = "st\<lparr>ss_cmd_chunks := ?n, ss_table := table\<rparr>"
  have t: "table_ok st" using sw by (simp add: slots_with_def)
  then have low: "table ! i = ss_table st ! i" if "i < ?n + ?k" for i
    using that by (simp add: table_def realloc_words_def nth_append table_ok_def)
  have len: "length table = ?n + 16 + ?k + 1" by (simp add: table_def realloc_words_def)
  have pend: "pend_addrs ?st = pend_addrs st"
  proof -
    have "take ?n table = take ?n (ss_table st)"
      by (rule nth_equalityI) (use len low t in \<open>auto simp: table_ok_def\<close>)
    then show ?thesis by (simp add: pend_addrs_def)
  qed
  have "table_ok ?st" using t len low by (auto simp: table_ok_def)
  then have "slots_with ?st l"
    using sw pend by (simp add: slots_with_def lists_ok_def owns_ok_def)
  moreover have "VSSI_ExpandCommandSlots realloc_ok calloc_ok junk st = (?st, VSSI_CMDLIMIT)"
    using True calloc assms(2) by (simp add: VSSI_ExpandCommandSlots_def Let_def table_def)
  ultimately show ?thesis using pend by auto
qed

section \<open>What the table holds\<close>

text \<open>Contents without the links, the pending commands as a multiset, the waiting ones in order.\<close>

definition payload :: "VSSI_PendInfo \<Rightarrow> VSSI_PendInfo" where
  "payload c = c\<lparr>pi_next_free := None, pi_next := None\<rparr>"

definition pend_cmds :: "VSSI_SendState \<Rightarrow> VSSI_PendInfo multiset" where
  "pend_cmds st = image_mset (\<lambda>a. ss_cmds st ! a) (mset (pend_addrs st))"

definition wait_cmds :: "VSSI_SendState \<Rightarrow> nat list \<Rightarrow> VSSI_PendInfo list" where
  "wait_cmds st wait = map (\<lambda>a. payload (ss_cmds st ! a)) wait"

definition slots_view ::
  "VSSI_SendState \<Rightarrow> slot_lists \<Rightarrow> VSSI_PendInfo multiset \<Rightarrow> VSSI_PendInfo list \<Rightarrow> bool" where
  "slots_view st l M W \<longleftrightarrow> slots_with st l \<and> M = pend_cmds st \<and> W = wait_cmds st (sl_wait l)"

text \<open>The abstract state of a send state: pending commands and the waiting queue.\<close>

definition cmd_view :: "VSSI_SendState \<Rightarrow> VSSI_PendInfo multiset \<Rightarrow> VSSI_PendInfo list \<Rightarrow> bool" where
  "cmd_view st M W \<longleftrightarrow> (\<exists>free wait. slots_view st \<lparr>sl_lost = [], sl_free = free, sl_wait = wait\<rparr> M W)"

lemma cmd_view_ok: "cmd_view st M W \<Longrightarrow> slots_ok st"
  by (auto simp: cmd_view_def slots_view_def slots_ok_def)

lemma slots_ok_view: "slots_ok st \<Longrightarrow> \<exists>W. cmd_view st (pend_cmds st) W"
  by (auto simp: cmd_view_def slots_view_def slots_ok_def)

lemma pend_below:
  assumes "slots_with st l" and "a \<in> set (pend_addrs st) \<or> a \<in> set (sl_wait l)"
  shows "a < ss_num_cmd_slots st"
proof -
  have "owns_ok st l" using assms(1) by (simp add: slots_with_def)
  from owns_distinct(2) [OF this] assms(2) show ?thesis by auto
qed

lemma view_cong:
  assumes "slots_view st l M W" and "slots_with st' l'" and "sl_wait l' = sl_wait l"
    and "pend_addrs st' = pend_addrs st"
    and "\<And>a. a \<in> set (pend_addrs st) \<or> a \<in> set (sl_wait l) \<Longrightarrow> ss_cmds st' ! a = ss_cmds st ! a"
  shows "slots_view st' l' M W"
proof -
  have "pend_cmds st' = pend_cmds st"
    using assms(4,5) by (auto simp: pend_cmds_def intro!: image_mset_cong)
  moreover have "wait_cmds st' (sl_wait l) = wait_cmds st (sl_wait l)"
    using assms(5) by (simp add: wait_cmds_def)
  ultimately show ?thesis using assms(1-3) by (simp add: slots_view_def)
qed

lemma lost_apart:
  assumes "slots_with st \<lparr>sl_lost = [a], sl_free = free, sl_wait = wait\<rparr>"
  shows "a \<notin> set (pend_addrs st)" and "a \<notin> set wait" and "a < length (ss_cmds st)"
  using assms owns_distinct [of st "\<lparr>sl_lost = [a], sl_free = free, sl_wait = wait\<rparr>"]
  by (auto simp: slots_with_def table_ok_def)

lemma expand_view:
  assumes v: "slots_view st \<lparr>sl_lost = [], sl_free = free, sl_wait = wait\<rparr> M W"
  shows "\<exists>st' rv free'. VSSI_ExpandCommandSlots realloc_ok calloc_ok junk st = (st', rv) \<and>
     slots_view st' \<lparr>sl_lost = [], sl_free = free', sl_wait = wait\<rparr> M W \<and>
     ss_seq_id st' = ss_seq_id st \<and> rv \<in> {VSSI_SUCCESS, VSSI_CMDLIMIT} \<and>
     (rv = VSSI_SUCCESS \<longleftrightarrow> free' \<noteq> []) \<and>
     (realloc_ok \<and> calloc_ok \<longrightarrow> rv = VSSI_SUCCESS)"
proof -
  let ?l = "\<lparr>sl_lost = [], sl_free = free, sl_wait = wait\<rparr>"
  have sw: "slots_with st ?l" using v by (simp add: slots_view_def)
  have lens: "length free + ss_num_cmd_slots_active st = ss_num_cmd_slots st"
    using owns_lengths [of st ?l] sw by (simp add: slots_with_def owns_ok_def)
  have codes: "VSSI_CMDLIMIT \<noteq> VSSI_SUCCESS" by (simp add: vssi_consts)
  show ?thesis
  proof (cases "ss_num_cmd_slots_active st = ss_num_cmd_slots st")
    case False
    then show ?thesis using v lens by (auto simp: VSSI_ExpandCommandSlots_def)
  next
    case full: True
    show ?thesis
    proof (cases "realloc_ok \<and> calloc_ok")
      case True
      obtain st' where st': "VSSI_ExpandCommandSlots True True junk st = (st', VSSI_SUCCESS)"
        "slots_with st' \<lparr>sl_lost = [], sl_free = rev [ss_num_cmd_slots st..<ss_num_cmd_slots st + 16] @ free,
           sl_wait = wait\<rparr>" "ss_seq_id st' = ss_seq_id st" "pend_addrs st' = pend_addrs st"
        "\<forall>a < ss_num_cmd_slots st. ss_cmds st' ! a = ss_cmds st ! a"
        using VSSI_ExpandCommandSlots_grow [OF sw full] by blast
      have "slots_view st' \<lparr>sl_lost = [], sl_free = rev [ss_num_cmd_slots st..<ss_num_cmd_slots st + 16] @ free,
           sl_wait = wait\<rparr> M W"
        by (rule view_cong [OF v st'(2) _ st'(4)]) (use st'(5) pend_below [OF sw] in auto)
      then show ?thesis using st' True by auto
    next
      case False
      obtain st' where st': "VSSI_ExpandCommandSlots realloc_ok calloc_ok junk st = (st', VSSI_CMDLIMIT)"
        "slots_with st' ?l" "ss_seq_id st' = ss_seq_id st" "pend_addrs st' = pend_addrs st"
        "ss_cmds st' = ss_cmds st"
        using VSSI_ExpandCommandSlots_fail [OF sw full False] by blast
      have "slots_view st' ?l M W"
        by (rule view_cong [OF v st'(2) _ st'(4)]) (use st'(5) in simp_all)
      moreover have "free = []" using full lens by simp
      ultimately show ?thesis using st' False codes by auto
    qed
  qed
qed

section \<open>The operations on the view\<close>

lemma next_xid_simps [simp]:
  "snd (next_xid st) = ss_seq_id st"
  "slots_with (fst (next_xid st)) l = slots_with st l"
  "slots_view (fst (next_xid st)) l M W = slots_view st l M W"
  "ss_cmds (fst (next_xid st)) = ss_cmds st" "ss_table (fst (next_xid st)) = ss_table st"
  "ss_free_stack (fst (next_xid st)) = ss_free_stack st"
  "ss_num_cmd_slots (fst (next_xid st)) = ss_num_cmd_slots st"
  "ss_num_cmd_slots_active (fst (next_xid st)) = ss_num_cmd_slots_active st"
  by (simp_all add: next_xid_def Let_def slots_with_def table_ok_def lists_ok_def owns_ok_def
      pend_addrs_def slots_view_def pend_cmds_def wait_cmds_def)

text \<open>Placing a structure in hand: probing returns because a slot is free.\<close>

lemma place_pending_view:
  assumes v: "slots_view st \<lparr>sl_lost = [a], sl_free = free, sl_wait = wait\<rparr> M W"
  shows "\<exists>st'. place_pending a xid st = Some st' \<and>
     slots_view st' \<lparr>sl_lost = [], sl_free = free, sl_wait = wait\<rparr> (add_mset (ss_cmds st ! a) M) W \<and>
     (\<exists>slot. st' = st\<lparr>ss_table := (ss_table st)[slot := Some a]\<rparr>)"
proof -
  let ?l = "\<lparr>sl_lost = [a], sl_free = free, sl_wait = wait\<rparr>"
  let ?n = "ss_num_cmd_slots st"
  have sw: "slots_with st ?l" and M: "M = pend_cmds st" and W: "W = wait_cmds st wait"
    using v by (simp_all add: slots_view_def)
  have o: "owns_ok st ?l" and t: "table_ok st" using sw by (simp_all add: slots_with_def)
  then have len: "?n \<le> length (ss_table st)" by (simp add: table_ok_def)
  have "length (pend_addrs st) < length (take ?n (ss_table st))"
    using owns_lengths [OF o] len by simp
  then obtain j where j: "j < ?n" "ss_table st ! j = None"
    using open_slot_exists [of "take ?n (ss_table st)"] len by (auto simp: pend_addrs_def)
  then obtain slot where slot: "find_open (ss_table st) ?n (unat xid mod ?n) = Some slot"
    "slot < ?n" "ss_table st ! slot = None"
    using find_open_returns [of j ?n "ss_table st" "unat xid mod ?n"] by auto
  let ?st = "st\<lparr>ss_table := (ss_table st)[slot := Some a]\<rparr>"
  have "mset (pend_addrs ?st) = add_mset a (mset (pend_addrs st))"
    using slot(2,3) len pend_of_fill [of slot "take ?n (ss_table st)" a]
    by (simp add: pend_addrs_def take_update_swap)
  then have "slots_view ?st \<lparr>sl_lost = [], sl_free = free, sl_wait = wait\<rparr> (add_mset (ss_cmds st ! a) M) W"
    using fill_slot [OF sw slot(2,3)] M W by (simp add: slots_view_def pend_cmds_def wait_cmds_def)
  then show ?thesis using slot(1) by (auto simp: place_pending_def)
qed

lemma write_lost_view:
  assumes v: "slots_view st \<lparr>sl_lost = [a], sl_free = free, sl_wait = wait\<rparr> M W"
  shows "slots_view (upd_cmd a f st) \<lparr>sl_lost = [a], sl_free = free, sl_wait = wait\<rparr> M W"
    and "ss_cmds (upd_cmd a f st) ! a = f (ss_cmds st ! a)"
proof -
  have sw: "slots_with st \<lparr>sl_lost = [a], sl_free = free, sl_wait = wait\<rparr>"
    using v by (simp add: slots_view_def)
  note apart = lost_apart [OF sw]
  show "slots_view (upd_cmd a f st) \<lparr>sl_lost = [a], sl_free = free, sl_wait = wait\<rparr> M W"
    by (rule view_cong [OF v write_lost [OF sw]])
      (use apart in \<open>auto simp: cmds_upd_cmd pend_addrs_def\<close>)
  show "ss_cmds (upd_cmd a f st) ! a = f (ss_cmds st ! a)"
    using apart by (simp add: cmds_upd_cmd)
qed

lemma release_view:
  assumes v: "slots_view st \<lparr>sl_lost = [a], sl_free = free, sl_wait = wait\<rparr> M W"
  shows "slots_view (release_cmd a st) \<lparr>sl_lost = [], sl_free = a # free, sl_wait = wait\<rparr> M W"
proof -
  have sw: "slots_with st \<lparr>sl_lost = [a], sl_free = free, sl_wait = wait\<rparr>"
    using v by (simp add: slots_view_def)
  show ?thesis
    by (rule view_cong [OF v release_cmd_slots [OF sw]])
      (use lost_apart [OF sw] in \<open>auto simp: cmds_release_cmd\<close>)
qed

lemma take_free_view:
  assumes v: "slots_view st \<lparr>sl_lost = [], sl_free = a # free, sl_wait = wait\<rparr> M W"
  shows "ss_free_stack st = Some a"
    and "slots_view (st\<lparr>ss_free_stack := pi_next_free (ss_cmds st ! a),
             ss_num_cmd_slots_active := ss_num_cmd_slots_active st + 1\<rparr>)
           \<lparr>sl_lost = [a], sl_free = free, sl_wait = wait\<rparr> M W"
proof -
  have sw: "slots_with st \<lparr>sl_lost = [], sl_free = a # free, sl_wait = wait\<rparr>"
    using v by (simp add: slots_view_def)
  note take = take_free [OF sw]
  show "ss_free_stack st = Some a" by (rule take(1))
  show "slots_view (st\<lparr>ss_free_stack := pi_next_free (ss_cmds st ! a),
             ss_num_cmd_slots_active := ss_num_cmd_slots_active st + 1\<rparr>)
           \<lparr>sl_lost = [a], sl_free = free, sl_wait = wait\<rparr> M W"
    by (rule view_cong [OF v take(2)]) (simp_all add: pend_addrs_def)
qed

text \<open>The order of the independent stores of \<open>VSSI_AddPendingCommand\<close> does not matter.\<close>

lemma VSSI_AddPendingCommand_view:
  assumes v: "cmd_view st M W"
  shows "\<exists>st' rv xid. VSSI_AddPendingCommand realloc_ok calloc_ok junk cmd st = Some (st', rv, xid) \<and>
     rv \<in> {VSSI_SUCCESS, VSSI_CMDLIMIT} \<and> (realloc_ok \<and> calloc_ok \<longrightarrow> rv = VSSI_SUCCESS) \<and>
     (if rv = VSSI_SUCCESS
      then xid = ss_seq_id st \<and> cmd_view st' (add_mset (cmd\<lparr>pi_xid := xid\<rparr>) M) W \<and>
           ss_seq_id st' = (if xid + 1 = 0 then 1 else xid + 1)
      else cmd_view st' M W \<and> ss_seq_id st' = ss_seq_id st)"
proof -
  obtain free wait where v0: "slots_view st \<lparr>sl_lost = [], sl_free = free, sl_wait = wait\<rparr> M W"
    using v by (auto simp: cmd_view_def)
  obtain st1 rv free' where e: "VSSI_ExpandCommandSlots realloc_ok calloc_ok junk st = (st1, rv)"
    "slots_view st1 \<lparr>sl_lost = [], sl_free = free', sl_wait = wait\<rparr> M W" "ss_seq_id st1 = ss_seq_id st"
    "rv \<in> {VSSI_SUCCESS, VSSI_CMDLIMIT}" "rv = VSSI_SUCCESS \<longleftrightarrow> free' \<noteq> []"
    "realloc_ok \<and> calloc_ok \<longrightarrow> rv = VSSI_SUCCESS"
    using expand_view [OF v0] by blast
  show ?thesis
  proof (cases "rv = VSSI_SUCCESS")
    case False
    then show ?thesis using e by (auto simp: VSSI_AddPendingCommand_def cmd_view_def)
  next
    case True
    then obtain a rest where free': "free' = a # rest" using e(5) by (cases free') auto
    obtain st2 where st2: "next_xid st1 = (st2, ss_seq_id st1)" by (metis next_xid_simps(1) prod.collapse)
    have v2: "slots_view st2 \<lparr>sl_lost = [], sl_free = a # rest, sl_wait = wait\<rparr> M W"
      using e(2) next_xid_simps(3) [of st1] st2 free' by (metis fst_conv)
    let ?xid = "ss_seq_id st1"
    let ?taken = "st2\<lparr>ss_free_stack := pi_next_free (ss_cmds st2 ! a),
             ss_num_cmd_slots_active := ss_num_cmd_slots_active st2 + 1\<rparr>"
    let ?w = "upd_cmd a (\<lambda>c. cmd\<lparr>pi_xid := ?xid\<rparr>) ?taken"
    note take = take_free_view [OF v2]
    note wr = write_lost_view [OF take(2), of "\<lambda>c. cmd\<lparr>pi_xid := ?xid\<rparr>"]
    obtain st5 slot where st5: "place_pending a ?xid ?w = Some st5"
      "slots_view st5 \<lparr>sl_lost = [], sl_free = rest, sl_wait = wait\<rparr> (add_mset (cmd\<lparr>pi_xid := ?xid\<rparr>) M) W"
      "st5 = ?w\<lparr>ss_table := (ss_table ?w)[slot := Some a]\<rparr>"
      using place_pending_view [OF wr(1), of ?xid] wr(2) by auto
    have slot: "find_open (ss_table st2) (ss_num_cmd_slots st2) (unat ?xid mod ss_num_cmd_slots st2)
        = Some slot' \<Longrightarrow> st5 = ?w\<lparr>ss_table := (ss_table st2)[slot' := Some a]\<rparr>" for slot'
      using st5(1) by (simp add: place_pending_def)
    obtain slot' where slot': "find_open (ss_table st2) (ss_num_cmd_slots st2)
        (unat ?xid mod ss_num_cmd_slots st2) = Some slot'"
      using st5(1) by (auto simp: place_pending_def elim!: bind_eq_SomeE)
    have "VSSI_AddPendingCommand realloc_ok calloc_ok junk cmd st = Some (st5, VSSI_SUCCESS, ?xid)"
      using True slot [OF slot']
      by (simp add: VSSI_AddPendingCommand_def e(1) st2 take(1) place_pending_def slot' Let_def upd_cmd_def)
    moreover have "ss_seq_id st5 = (if ?xid + 1 = 0 then 1 else ?xid + 1)"
      using st2 st5(3) by (auto simp: next_xid_def Let_def)
    ultimately show ?thesis using st5(2) e(3) True by (auto simp: cmd_view_def)
  qed
qed

end
