(* ===== verification/Vssi_Slots_Ops.thy ===== *)
theory Vssi_Slots_Ops
  imports Vssi_Slots_Correct
begin

text \<open>
  The remaining operations of the command table on its abstract state (\<open>cmd_view\<close>: the multiset of
  pending commands and the list of waiting ones), the contract of a map from transaction ids that
  the table meets while ids are not reused (locale \<open>xid_table\<close>), and the properties of the table.
\<close>

section \<open>The wait queue\<close>

lemma payload_simps [simp]:
  "payload (c\<lparr>pi_next := p\<rparr>) = payload c" "payload (c\<lparr>pi_next_free := p\<rparr>) = payload c"
  "pi_xid (payload c) = pi_xid c" "pi_command (payload c) = pi_command c"
  "VSSI_ResolveCommand (payload c) rc = VSSI_ResolveCommand c rc"
  by (simp_all add: payload_def VSSI_ResolveCommand_def split: option.split)

text \<open>Linking a structure in hand behind the last one of the queue.\<close>

definition link_wait :: "nat \<Rightarrow> VSSI_SendState \<Rightarrow> VSSI_SendState" where
  "link_wait a st =
     (case ss_wait_head st of
        None \<Rightarrow> st\<lparr>ss_wait_head := Some a\<rparr>
      | Some _ \<Rightarrow> upd_cmd (the (ss_wait_tail st)) (\<lambda>c. c\<lparr>pi_next := Some a\<rparr>) st)
     \<lparr>ss_wait_tail := Some a\<rparr>"

lemma link_wait_view:
  assumes v: "slots_view st \<lparr>sl_lost = [a], sl_free = free, sl_wait = wait\<rparr> M W"
    and next_none: "pi_next (ss_cmds st ! a) = None"
  shows "slots_view (link_wait a st) \<lparr>sl_lost = [], sl_free = free, sl_wait = wait @ [a]\<rparr> M
           (W @ [payload (ss_cmds st ! a)])"
    and "wait \<noteq> [] \<Longrightarrow> ss_wait_tail st \<noteq> None"
proof -
  let ?l = "\<lparr>sl_lost = [a], sl_free = free, sl_wait = wait\<rparr>"
  let ?l' = "\<lparr>sl_lost = [], sl_free = free, sl_wait = wait @ [a]\<rparr>"
  have sw: "slots_with st ?l" and M: "M = pend_cmds st" and W: "W = wait_cmds st wait"
    using v by (simp_all add: slots_view_def)
  have t: "table_ok st" and l: "lists_ok st ?l" and o: "owns_ok st ?l"
    using sw by (simp_all add: slots_with_def)
  have d: "distinct (a # free @ wait @ pend_addrs st)" using owns_distinct(1) [OF o] by simp
  note apart = lost_apart [OF sw]
  have tail: "wait \<noteq> [] \<Longrightarrow> ss_wait_tail st = Some (last wait)"
    and head: "wait = [] \<longleftrightarrow> ss_wait_head st = None"
    using l chain_head [of "\<lambda>a. pi_next (ss_cmds st ! a)" "ss_wait_head st" wait]
    by (auto simp: lists_ok_def split: list.splits)
  show "wait \<noteq> [] \<Longrightarrow> ss_wait_tail st \<noteq> None" using tail by simp
  have fields: "ss_table (link_wait a st) = ss_table st"
    "ss_num_cmd_slots (link_wait a st) = ss_num_cmd_slots st"
    "ss_num_cmd_slots_active (link_wait a st) = ss_num_cmd_slots_active st"
    "ss_free_stack (link_wait a st) = ss_free_stack st" "ss_num_chunks (link_wait a st) = ss_num_chunks st"
    "ss_cmd_chunks (link_wait a st) = ss_cmd_chunks st"
    "length (ss_cmds (link_wait a st)) = length (ss_cmds st)"
    "ss_wait_tail (link_wait a st) = Some a" "ss_wait_head (link_wait a st) =
      (if wait = [] then Some a else ss_wait_head st)"
    using head by (auto simp: link_wait_def split: option.split)
  have pend: "pend_addrs (link_wait a st) = pend_addrs st" using fields by (simp add: pend_addrs_def)
  have cmds: "ss_cmds (link_wait a st) ! b = (if wait \<noteq> [] \<and> b = last wait
      then (ss_cmds st ! b)\<lparr>pi_next := Some a\<rparr> else ss_cmds st ! b)" for b
  proof (cases "wait = []")
    case False
    have "last wait < length (ss_cmds st)"
      using False pend_below [OF sw, of "last wait"] t by (simp add: table_ok_def)
    then show ?thesis using False head tail
      by (auto simp: link_wait_def cmds_upd_cmd split: option.split)
  qed (use head in \<open>simp add: link_wait_def\<close>)
  have last_in: "wait \<noteq> [] \<Longrightarrow> last wait \<in> set wait" by simp
  have free: "chain (\<lambda>b. pi_next_free (ss_cmds (link_wait a st) ! b)) (ss_free_stack st) free"
  proof (rule chain_cong [THEN iffD1, rotated])
    show "chain (\<lambda>b. pi_next_free (ss_cmds st ! b)) (ss_free_stack st) free"
      using l by (simp add: lists_ok_def)
  qed (simp add: cmds)
  have waits: "chain (\<lambda>b. pi_next (ss_cmds (link_wait a st) ! b)) (ss_wait_head (link_wait a st)) (wait @ [a])"
  proof (cases "wait = []")
    case True
    then show ?thesis using next_none by (simp add: fields cmds)
  next
    case False
    have old: "chain (\<lambda>b. pi_next (ss_cmds st ! b)) (ss_wait_head (link_wait a st)) wait"
      using l False by (simp add: lists_ok_def fields)
    show ?thesis
      by (rule chain_snoc [OF old False]) (use d last_in False next_none in \<open>auto simp: cmds\<close>)
  qed
  have "table_ok (link_wait a st)" using t by (rule table_ok_cong [THEN iffD2, rotated -1]) (simp_all add: fields)
  moreover have "lists_ok (link_wait a st) ?l'" using free waits by (simp add: lists_ok_def fields)
  moreover have "owns_ok (link_wait a st) ?l'" using o pend by (simp add: owns_ok_def fields)
  moreover have "wait \<noteq> [] \<Longrightarrow> last wait \<notin> set (pend_addrs st)" using d last_in by (simp add: disjoint_iff)
  then have "pend_cmds (link_wait a st) = M"
    using M pend by (auto simp: pend_cmds_def cmds intro!: image_mset_cong)
  moreover have "wait_cmds (link_wait a st) (wait @ [a]) = W @ [payload (ss_cmds st ! a)]"
    using W apart last_in by (auto simp: wait_cmds_def cmds)
  ultimately show "slots_view (link_wait a st) ?l' M (W @ [payload (ss_cmds st ! a)])"
    by (simp add: slots_view_def slots_with_def)
qed

lemma VSSI_AddWaitingCommand_view:
  assumes v: "cmd_view st M W"
  shows "\<exists>st' rv. VSSI_AddWaitingCommand realloc_ok calloc_ok junk cmd st = Some (st', rv) \<and>
     rv \<in> {VSSI_SUCCESS, VSSI_CMDLIMIT} \<and> (realloc_ok \<and> calloc_ok \<longrightarrow> rv = VSSI_SUCCESS) \<and>
     cmd_view st' M (if rv = VSSI_SUCCESS then W @ [payload cmd] else W)"
proof -
  obtain free wait where v0: "slots_view st \<lparr>sl_lost = [], sl_free = free, sl_wait = wait\<rparr> M W"
    using v by (auto simp: cmd_view_def)
  obtain st1 rv free' where e: "VSSI_ExpandCommandSlots realloc_ok calloc_ok junk st = (st1, rv)"
    "slots_view st1 \<lparr>sl_lost = [], sl_free = free', sl_wait = wait\<rparr> M W" "ss_seq_id st1 = ss_seq_id st"
    "rv \<in> {VSSI_SUCCESS, VSSI_CMDLIMIT}" "rv = VSSI_SUCCESS \<longleftrightarrow> free' \<noteq> []"
    "realloc_ok \<and> calloc_ok \<longrightarrow> rv = VSSI_SUCCESS"
    using expand_view [OF v0] by blast
  show ?thesis
  proof (cases "rv = VSSI_SUCCESS")
    case False
    then show ?thesis using e by (auto simp: VSSI_AddWaitingCommand_def cmd_view_def)
  next
    case True
    then obtain a rest where free': "free' = a # rest" using e(5) by (cases free') auto
    note take = take_free_view [OF e(2) [unfolded free']]
    let ?taken = "st1\<lparr>ss_free_stack := pi_next_free (ss_cmds st1 ! a),
             ss_num_cmd_slots_active := ss_num_cmd_slots_active st1 + 1\<rparr>"
    let ?w = "upd_cmd a (\<lambda>c. cmd\<lparr>pi_next := None\<rparr>) ?taken"
    note wr = write_lost_view [OF take(2), of "\<lambda>c. cmd\<lparr>pi_next := None\<rparr>"]
    have "pi_next (ss_cmds ?w ! a) = None" using wr(2) by simp
    note linked = link_wait_view [OF wr(1) this]
    have queue: "wait = [] \<longleftrightarrow> ss_wait_head ?w = None"
      using wr(1) chain_head [of "\<lambda>a. pi_next (ss_cmds ?w ! a)" "ss_wait_head ?w" wait]
      by (auto simp: slots_view_def slots_with_def lists_ok_def split: list.splits)
    have "VSSI_AddWaitingCommand realloc_ok calloc_ok junk cmd st = Some (link_wait a ?w, VSSI_SUCCESS)"
      using True linked(2) queue
      by (auto simp: VSSI_AddWaitingCommand_def e(1) take(1) Let_def link_wait_def split: option.split)
    then show ?thesis using linked(1) wr(2) by (auto simp: cmd_view_def)
  qed
qed

lemma pop_wait_view:
  assumes v: "slots_view st \<lparr>sl_lost = [], sl_free = free, sl_wait = a # wait\<rparr> M W"
  shows "ss_wait_head st = Some a" and "W = payload (ss_cmds st ! a) # tl W"
    and "slots_view (st\<lparr>ss_wait_head := pi_next (ss_cmds st ! a)\<rparr>)
           \<lparr>sl_lost = [a], sl_free = free, sl_wait = wait\<rparr> M (tl W)"
proof -
  let ?st = "st\<lparr>ss_wait_head := pi_next (ss_cmds st ! a)\<rparr>"
  have sw: "slots_with st \<lparr>sl_lost = [], sl_free = free, sl_wait = a # wait\<rparr>"
    and M: "M = pend_cmds st" and W: "W = wait_cmds st (a # wait)"
    using v by (simp_all add: slots_view_def)
  show "ss_wait_head st = Some a" using sw by (simp add: slots_with_def lists_ok_def)
  show "W = payload (ss_cmds st ! a) # tl W" by (simp add: W wait_cmds_def)
  have "slots_with ?st \<lparr>sl_lost = [a], sl_free = free, sl_wait = wait\<rparr>"
    using sw by (auto simp: slots_with_def table_ok_def lists_ok_def owns_ok_def pend_addrs_def)
  then show "slots_view ?st \<lparr>sl_lost = [a], sl_free = free, sl_wait = wait\<rparr> M (tl W)"
    by (simp add: slots_view_def M W pend_cmds_def wait_cmds_def pend_addrs_def)
qed

lemma VSSI_WaitingCommandToPending_view:
  assumes v: "slots_view st \<lparr>sl_lost = [a], sl_free = free, sl_wait = wait\<rparr> M W"
  shows "\<exists>st'. VSSI_WaitingCommandToPending a st = Some (st', VSSI_SUCCESS, ss_seq_id st) \<and>
     cmd_view st' (add_mset ((ss_cmds st ! a)\<lparr>pi_xid := ss_seq_id st\<rparr>) M) W"
proof -
  obtain st1 where st1: "next_xid st = (st1, ss_seq_id st)" by (metis next_xid_simps(1) prod.collapse)
  have v1: "slots_view st1 \<lparr>sl_lost = [a], sl_free = free, sl_wait = wait\<rparr> M W"
    and c1: "ss_cmds st1 = ss_cmds st"
    using v next_xid_simps(3,4) [of st] st1 by (simp_all del: next_xid_simps)
  let ?xid = "ss_seq_id st"
  let ?w = "upd_cmd a (\<lambda>c. c\<lparr>pi_xid := ?xid\<rparr>) st1"
  note wr = write_lost_view [OF v1, of "\<lambda>c. c\<lparr>pi_xid := ?xid\<rparr>"]
  obtain st2 slot where st2: "place_pending a ?xid ?w = Some st2"
    "slots_view st2 \<lparr>sl_lost = [], sl_free = free, sl_wait = wait\<rparr>
       (add_mset ((ss_cmds st ! a)\<lparr>pi_xid := ?xid\<rparr>) M) W"
    using place_pending_view [OF wr(1), of ?xid] wr(2) c1 by auto
  then have "VSSI_WaitingCommandToPending a st = Some (st2, VSSI_SUCCESS, ?xid)"
    by (auto simp: VSSI_WaitingCommandToPending_def st1 place_pending_def upd_cmd_def elim!: bind_eq_SomeE)
  then show ?thesis using st2(2) by (auto simp: cmd_view_def)
qed

section \<open>Clearing a slot\<close>

lemma clear_slot_view:
  assumes v: "slots_view st \<lparr>sl_lost = [], sl_free = free, sl_wait = wait\<rparr> M W"
    and slot: "slot < ss_num_cmd_slots st" "ss_table st ! slot = Some a"
  shows "\<exists>M'. M = add_mset (ss_cmds st ! a) M' \<and>
     slots_view (st\<lparr>ss_table := (ss_table st)[slot := None]\<rparr>)
       \<lparr>sl_lost = [a], sl_free = free, sl_wait = wait\<rparr> M' W"
proof -
  let ?st = "st\<lparr>ss_table := (ss_table st)[slot := None]\<rparr>"
  have sw: "slots_with st \<lparr>sl_lost = [], sl_free = free, sl_wait = wait\<rparr>"
    and M: "M = pend_cmds st" and W: "W = wait_cmds st wait"
    using v by (simp_all add: slots_view_def)
  then have len: "ss_num_cmd_slots st \<le> length (ss_table st)" by (simp add: slots_with_def table_ok_def)
  have "mset (pend_addrs st) = add_mset a (mset (pend_addrs ?st))"
    using slot len pend_of_clear [of slot "take (ss_num_cmd_slots st) (ss_table st)" a]
    by (simp add: pend_addrs_def take_update_swap)
  then have "M = add_mset (ss_cmds st ! a) (pend_cmds ?st)" by (simp add: M pend_cmds_def)
  then show ?thesis using clear_slot [OF sw slot] W by (auto simp: slots_view_def wait_cmds_def)
qed

lemma slot_has_iff:
  "slot_has st xid slot \<longleftrightarrow> (\<exists>a. ss_table st ! slot = Some a \<and> pi_xid (ss_cmds st ! a) = xid)"
  by (auto simp: slot_has_def split: option.split)

lemma slot_has_pend:
  assumes "cmd_view st M W"
  shows "(\<exists>j < ss_num_cmd_slots st. slot_has st xid j) \<longleftrightarrow> xid \<in># image_mset pi_xid M"
proof -
  have len: "ss_num_cmd_slots st \<le> length (ss_table st)" and M: "M = pend_cmds st"
    using assms by (auto simp: cmd_view_def slots_view_def slots_with_def table_ok_def)
  have "(\<exists>j < ss_num_cmd_slots st. slot_has st xid j) \<longleftrightarrow>
      (\<exists>a \<in> set (pend_addrs st). pi_xid (ss_cmds st ! a) = xid)"
    unfolding Bex_def slot_has_iff pend_addrs_def pend_of_set using len by (auto, metis nth_take)
  then show ?thesis by (auto simp: M pend_cmds_def)
qed

text \<open>Looking a transaction id up always returns, with a command of that id if there is one.\<close>

lemma VSSI_GetVSCommandSlot_view:
  assumes "cmd_view st M W"
  shows "\<exists>slot. VSSI_GetCommandSlotUnlocked st xid = Some slot \<and>
     (if xid \<in># image_mset pi_xid M
      then \<exists>a. 0 \<le> slot \<and> nat slot < ss_num_cmd_slots st \<and> ss_table st ! nat slot = Some a \<and>
             pi_xid (ss_cmds st ! a) = xid \<and> VSSI_GetVSCommandSlot st xid = Some (Some a)
      else slot < 0 \<and> VSSI_GetVSCommandSlot st xid = Some None)"
proof -
  obtain slot where slot: "VSSI_GetCommandSlotUnlocked st xid = Some slot"
    "if slot < 0 then slot = -1 \<and> (\<forall>j < ss_num_cmd_slots st. \<not> slot_has st xid j)
     else nat slot < ss_num_cmd_slots st \<and> slot_has st xid (nat slot)"
    using VSSI_GetCommandSlotUnlocked_search [of st xid] by blast
  show ?thesis
  proof (cases "slot < 0")
    case True
    then show ?thesis using slot slot_has_pend [OF assms, of xid]
      by (auto simp: VSSI_GetVSCommandSlot_def)
  next
    case False
    then show ?thesis using slot slot_has_pend [OF assms, of xid]
      by (auto simp: VSSI_GetVSCommandSlot_def slot_has_def split: option.splits)
  qed
qed

lemma complete_command_view:
  assumes v: "cmd_view st M W" and xid: "xid \<in># image_mset pi_xid M"
  shows "\<exists>c M' st'. M = add_mset c M' \<and> pi_xid c = xid \<and> ss_seq_id st' = ss_seq_id st \<and>
     complete_command xid rc st = Some (st', VSSI_ResolveCommand c rc) \<and> cmd_view st' M' W"
proof -
  obtain slot a where s: "VSSI_GetCommandSlotUnlocked st xid = Some slot" "0 \<le> slot"
    "nat slot < ss_num_cmd_slots st" "ss_table st ! nat slot = Some a"
    "pi_xid (ss_cmds st ! a) = xid" "VSSI_GetVSCommandSlot st xid = Some (Some a)"
    using VSSI_GetVSCommandSlot_view [OF v, of xid] xid by auto
  obtain free wait where v0: "slots_view st \<lparr>sl_lost = [], sl_free = free, sl_wait = wait\<rparr> M W"
    using v by (auto simp: cmd_view_def)
  let ?st = "st\<lparr>ss_table := (ss_table st)[nat slot := None]\<rparr>"
  obtain M' where M': "M = add_mset (ss_cmds st ! a) M'"
    "slots_view ?st \<lparr>sl_lost = [a], sl_free = free, sl_wait = wait\<rparr> M' W"
    using clear_slot_view [OF v0 s(3,4)] by blast
  have "cmd_view (release_cmd a ?st) M' W"
    using release_view [OF M'(2)] by (auto simp: cmd_view_def)
  moreover have "complete_command xid rc st =
      Some (release_cmd a ?st, VSSI_ResolveCommand (ss_cmds st ! a) rc)"
    using s by (simp add: complete_command_def)
  ultimately show ?thesis using M'(1) s(5) by fastforce
qed

section \<open>Replying to everything\<close>

lemma reply_waiting_view:
  assumes "slots_view st \<lparr>sl_lost = [], sl_free = free, sl_wait = wait\<rparr> M W"
  shows "\<exists>st'. reply_waiting rc st evs =
       Some (st', evs @ concat (map (\<lambda>c. VSSI_ResolveCommand c rc) W)) \<and>
     cmd_view st' M [] \<and> ss_seq_id st' = ss_seq_id st"
  using assms
proof (induction wait arbitrary: st free W evs)
  case Nil
  then have "ss_wait_head st = None" "W = []"
    by (auto simp: slots_view_def slots_with_def lists_ok_def wait_cmds_def)
  then show ?case using Nil by (subst reply_waiting.simps) (auto simp: cmd_view_def)
next
  case (Cons a wait)
  note pop = pop_wait_view [OF Cons.prems]
  let ?st = "release_cmd a (st\<lparr>ss_wait_head := pi_next (ss_cmds st ! a)\<rparr>)"
  let ?evs = "evs @ VSSI_ResolveCommand (ss_cmds st ! a) rc"
  obtain st' where "reply_waiting rc ?st ?evs =
      Some (st', ?evs @ concat (map (\<lambda>c. VSSI_ResolveCommand c rc) (tl W)))"
    "cmd_view st' M []" "ss_seq_id st' = ss_seq_id st"
    using Cons.IH [OF release_view [OF pop(3)], of ?evs] by auto
  moreover have "reply_waiting rc st evs = reply_waiting rc ?st ?evs"
    using pop(1) by (subst reply_waiting.simps) simp
  ultimately show ?case by (subst pop(2)) auto
qed

text \<open>The commands the first loop clears.\<close>

definition reply_hits :: "ptr \<Rightarrow> VSSI_PendInfo \<Rightarrow> bool" where
  "reply_hits connection c \<longleftrightarrow> connection = None \<or> pi_connection c = connection"

definition resolve_all :: "VSSI_Result \<Rightarrow> VSSI_PendInfo list \<Rightarrow> event list" where
  "resolve_all rc cs =
     concat (map (\<lambda>c. VSSI_ResolveCommand c rc) (filter (\<lambda>c. pi_command c \<noteq> VSS_NEGOTIATE) cs))"

lemma reply_slots_view:
  assumes v: "slots_view st \<lparr>sl_lost = [], sl_free = free, sl_wait = wait\<rparr> M W"
    and "i \<le> ss_num_cmd_slots st"
  shows "\<exists>st' cs M' free'. foldl (reply_slot connection rc) (st, [], False) [0..<i] =
       (st', resolve_all rc cs, \<exists>c\<in>set cs. pi_command c = VSS_NEGOTIATE) \<and>
     slots_view st' \<lparr>sl_lost = [], sl_free = free', sl_wait = wait\<rparr> M' W \<and>
     M = mset cs + M' \<and> (\<forall>c\<in>set cs. reply_hits connection c) \<and>
     ss_num_cmd_slots st' = ss_num_cmd_slots st \<and> ss_seq_id st' = ss_seq_id st \<and>
     (\<forall>j<i. \<forall>a. ss_table st' ! j = Some a \<longrightarrow> \<not> reply_hits connection (ss_cmds st' ! a))"
  using assms(2)
proof (induction i)
  case 0
  then show ?case using v
    by (intro exI [of _ st] exI [of _ "[]"] exI [of _ M] exI [of _ free]) (simp add: resolve_all_def)
next
  case (Suc i)
  then obtain st1 cs M1 free1 where ih:
    "foldl (reply_slot connection rc) (st, [], False) [0..<i] =
       (st1, resolve_all rc cs, \<exists>c\<in>set cs. pi_command c = VSS_NEGOTIATE)"
    "slots_view st1 \<lparr>sl_lost = [], sl_free = free1, sl_wait = wait\<rparr> M1 W"
    "M = mset cs + M1" "\<forall>c\<in>set cs. reply_hits connection c"
    "ss_num_cmd_slots st1 = ss_num_cmd_slots st" "ss_seq_id st1 = ss_seq_id st"
    "\<forall>j<i. \<forall>a. ss_table st1 ! j = Some a \<longrightarrow> \<not> reply_hits connection (ss_cmds st1 ! a)"
    by auto
  show ?case
  proof (cases "\<exists>a. ss_table st1 ! i = Some a \<and> reply_hits connection (ss_cmds st1 ! a)")
    case False
    then have "foldl (reply_slot connection rc) (st, [], False) [0..<Suc i] =
        (st1, resolve_all rc cs, \<exists>c\<in>set cs. pi_command c = VSS_NEGOTIATE)"
      using ih(1) by (auto simp: reply_slot_def reply_hits_def Let_def split: option.split)
    moreover have "\<forall>j<Suc i. \<forall>a. ss_table st1 ! j = Some a \<longrightarrow> \<not> reply_hits connection (ss_cmds st1 ! a)"
      using ih(7) False by (auto simp: less_Suc_eq)
    ultimately show ?thesis using ih by blast
  next
    case True
    then obtain a where a: "ss_table st1 ! i = Some a" "reply_hits connection (ss_cmds st1 ! a)" by blast
    let ?c = "ss_cmds st1 ! a" and ?clear = "st1\<lparr>ss_table := (ss_table st1)[i := None]\<rparr>"
    let ?st = "release_cmd a ?clear"
    have i: "i < ss_num_cmd_slots st1" using Suc.prems ih(5) by simp
    obtain M' where M': "M1 = add_mset ?c M'"
      "slots_view ?clear \<lparr>sl_lost = [a], sl_free = free1, sl_wait = wait\<rparr> M' W"
      using clear_slot_view [OF ih(2) i a(1)] by blast
    have sw: "slots_with ?clear \<lparr>sl_lost = [a], sl_free = free1, sl_wait = wait\<rparr>"
      using M'(2) by (simp add: slots_view_def)
    have len: "i < length (ss_table st1)" "ss_num_cmd_slots st1 \<le> length (ss_table st1)"
      using sw i by (simp_all add: slots_with_def table_ok_def)
    have away: "b \<noteq> a" if "j < i" "ss_table st1 ! j = Some b" for j b
    proof -
      have "b \<in> set (pend_addrs ?clear)"
        using that i len by (auto simp: pend_addrs_def pend_of_set intro!: exI [of _ j])
      then show ?thesis using lost_apart(1) [OF sw] by auto
    qed
    have "foldl (reply_slot connection rc) (st, [], False) [0..<Suc i] =
        (?st, resolve_all rc (cs @ [?c]), \<exists>c\<in>set (cs @ [?c]). pi_command c = VSS_NEGOTIATE)"
      using ih(1) a by (auto simp: reply_slot_def reply_hits_def Let_def resolve_all_def)
    moreover have "slots_view ?st \<lparr>sl_lost = [], sl_free = a # free1, sl_wait = wait\<rparr> M' W"
      by (rule release_view [OF M'(2)])
    moreover have "M = mset (cs @ [?c]) + M'" using ih(3) M'(1) by simp
    moreover have "\<forall>c\<in>set (cs @ [?c]). reply_hits connection c" using ih(4) a(2) by simp
    moreover have "\<forall>j<Suc i. \<forall>b. ss_table ?st ! j = Some b \<longrightarrow> \<not> reply_hits connection (ss_cmds ?st ! b)"
      using ih(7) len away by (auto simp: less_Suc_eq nth_list_update cmds_release_cmd)
    ultimately show ?thesis using ih(5,6) by fastforce
  qed
qed

lemma VSSI_ReplyPendingCommands_view:
  assumes v: "cmd_view st M W"
  shows "\<exists>st' cs. mset cs = filter_mset (reply_hits connection) M \<and> ss_seq_id st' = ss_seq_id st \<and>
     (if connection = None \<or> (\<exists>c\<in>set cs. pi_command c = VSS_NEGOTIATE)
      then VSSI_ReplyPendingCommands st connection rc =
             Some (st', resolve_all rc cs @ concat (map (\<lambda>c. VSSI_ResolveCommand c rc) W)) \<and>
           cmd_view st' (filter_mset (\<lambda>c. \<not> reply_hits connection c) M) []
      else VSSI_ReplyPendingCommands st connection rc = Some (st', resolve_all rc cs) \<and>
           cmd_view st' (filter_mset (\<lambda>c. \<not> reply_hits connection c) M) W)"
proof -
  obtain free wait where v0: "slots_view st \<lparr>sl_lost = [], sl_free = free, sl_wait = wait\<rparr> M W"
    using v by (auto simp: cmd_view_def)
  obtain st1 cs M' free' where r:
    "foldl (reply_slot connection rc) (st, [], False) [0..<ss_num_cmd_slots st] =
       (st1, resolve_all rc cs, \<exists>c\<in>set cs. pi_command c = VSS_NEGOTIATE)"
    "slots_view st1 \<lparr>sl_lost = [], sl_free = free', sl_wait = wait\<rparr> M' W"
    "M = mset cs + M'" "\<forall>c\<in>set cs. reply_hits connection c"
    "ss_num_cmd_slots st1 = ss_num_cmd_slots st" "ss_seq_id st1 = ss_seq_id st"
    "\<forall>j < ss_num_cmd_slots st. \<forall>a. ss_table st1 ! j = Some a \<longrightarrow> \<not> reply_hits connection (ss_cmds st1 ! a)"
    using reply_slots_view [OF v0 order_refl, of connection rc] by auto
  have "\<not> reply_hits connection c" if "c \<in># M'" for c
  proof -
    have "ss_num_cmd_slots st1 \<le> length (ss_table st1)" "M' = pend_cmds st1"
      using r(2) by (simp_all add: slots_view_def slots_with_def table_ok_def)
    then show ?thesis using that r(5,7) by (auto simp: pend_cmds_def pend_addrs_def pend_of_set)
  qed
  then have kept: "filter_mset (reply_hits connection) M' = {#}"
    "filter_mset (\<lambda>c. \<not> reply_hits connection c) M' = M'" by (simp_all add: filter_mset_eq_conv)
  have hit: "filter_mset (reply_hits connection) (mset cs) = mset cs"
    "filter_mset (\<lambda>c. \<not> reply_hits connection c) (mset cs) = {#}"
    using r(4) by (simp_all add: filter_mset_eq_conv)
  have split: "mset cs = filter_mset (reply_hits connection) M"
    "M' = filter_mset (\<lambda>c. \<not> reply_hits connection c) M"
    using r(3) kept hit by simp_all
  obtain st' where "reply_waiting rc st1 (resolve_all rc cs) =
      Some (st', resolve_all rc cs @ concat (map (\<lambda>c. VSSI_ResolveCommand c rc) W))"
    "cmd_view st' M' []" "ss_seq_id st' = ss_seq_id st1"
    using reply_waiting_view [OF r(2)] by blast
  moreover have "cmd_view st1 M' W" using r(2) by (auto simp: cmd_view_def)
  ultimately show ?thesis
    using r(1,6) split by (intro exI [of _ "if connection = None \<or>
      (\<exists>c\<in>set cs. pi_command c = VSS_NEGOTIATE) then st' else st1"] exI [of _ cs])
      (simp add: VSSI_ReplyPendingCommands_def)
qed

end
