(* ===== verification/Vssi_Slots_Trace.thy ===== *)
theory Vssi_Slots_Trace
  imports Vssi_Slots_Ops
begin

text \<open>
  Whole histories of one send state's command table: any sequence of additions, moves from the wait
  queue, transmissions, replies and lost connections, with any outcome of the allocations. Every
  such history runs to its end, and the callbacks made, plus those still owed, are the callbacks of
  the commands accepted.
\<close>

section \<open>Histories\<close>

text \<open>
  The steps: \<open>VSSI_SendVss\<close> adds a command (to the table or to the wait queue),
  \<open>VSSI_NegotiateSessionDone\<close> takes the server's first transaction id and moves waiting commands
  over, \<open>VSSI_SendToServerUnlocked\<close> notes the connection of a command, \<open>VSSI_HandleVSBuffer\<close>
  completes the command a reply answers (a reply to none is dropped), \<open>VSSI_HandleLostConnection\<close>
  replies to the commands of a connection.
\<close>

datatype slot_op =
    Add_Pending bool bool ptr VSSI_PendInfo
  | Add_Waiting bool bool ptr VSSI_PendInfo
  | Start_Xid u32
  | Start_Waiting
  | Sent_On u32 ptr
  | Reply_To u32 VSSI_Result
  | Reply_All ptr VSSI_Result

definition start_waiting :: "VSSI_SendState \<Rightarrow> VSSI_SendState option" where
  "start_waiting st =
     (case ss_wait_head st of
        None \<Rightarrow> Some st
      | Some a \<Rightarrow> do {
          (st1, rv, xid) \<leftarrow> VSSI_WaitingCommandToPending a
                            (st\<lparr>ss_wait_head := pi_next (ss_cmds st ! a)\<rparr>);
          Some st1
        })"

definition sent_on :: "u32 \<Rightarrow> ptr \<Rightarrow> VSSI_SendState \<Rightarrow> VSSI_SendState option" where
  "sent_on xid connection st =
     do {
       info \<leftarrow> VSSI_GetVSCommandSlot st xid;
       Some (case info of
               None \<Rightarrow> st
             | Some a \<Rightarrow> upd_cmd a (\<lambda>c. c\<lparr>pi_connection := connection, pi_msg := None\<rparr>) st)
     }"

definition reply_to :: "u32 \<Rightarrow> VSSI_Result \<Rightarrow> VSSI_SendState \<Rightarrow> (VSSI_SendState \<times> event list) option" where
  "reply_to xid rc st =
     do {
       info \<leftarrow> VSSI_GetVSCommandSlot st xid;
       if info = None then Some (st, []) else complete_command xid rc st
     }"

text \<open>One step: the new state, the events and the commands accepted.\<close>

fun run_op :: "slot_op \<Rightarrow> VSSI_SendState \<Rightarrow> (VSSI_SendState \<times> event list \<times> VSSI_PendInfo list) option" where
  "run_op (Add_Pending rok cok junk cmd) st =
     do {
       (st1, rv, xid) \<leftarrow> VSSI_AddPendingCommand rok cok junk cmd st;
       Some (st1, [], if rv = VSSI_SUCCESS then [cmd] else [])
     }"
| "run_op (Add_Waiting rok cok junk cmd) st =
     do {
       (st1, rv) \<leftarrow> VSSI_AddWaitingCommand rok cok junk cmd st;
       Some (st1, [], if rv = VSSI_SUCCESS then [cmd] else [])
     }"
| "run_op (Start_Xid xid) st = Some (st\<lparr>ss_seq_id := xid\<rparr>, [], [])"
| "run_op Start_Waiting st = do { st1 \<leftarrow> start_waiting st; Some (st1, [], []) }"
| "run_op (Sent_On xid connection) st = do { st1 \<leftarrow> sent_on xid connection st; Some (st1, [], []) }"
| "run_op (Reply_To xid rc) st = do { (st1, evs) \<leftarrow> reply_to xid rc st; Some (st1, evs, []) }"
| "run_op (Reply_All connection rc) st =
     do { (st1, evs) \<leftarrow> VSSI_ReplyPendingCommands st connection rc; Some (st1, evs, []) }"

fun run_ops ::
  "slot_op list \<Rightarrow> VSSI_SendState \<Rightarrow> (VSSI_SendState \<times> event list \<times> VSSI_PendInfo list) option" where
  "run_ops [] st = Some (st, [], [])"
| "run_ops (op # ops) st =
     do {
       (st1, evs, acc) \<leftarrow> run_op op st;
       (st2, evs', acc') \<leftarrow> run_ops ops st1;
       Some (st2, evs @ evs', acc @ acc')
     }"

section \<open>Callbacks\<close>

definition calls :: "nat \<Rightarrow> ptr \<Rightarrow> event list \<Rightarrow> nat" where
  "calls cb ctx evs = length (filter (\<lambda>e. case e of Callback f x _ \<Rightarrow> f = cb \<and> x = ctx | _ \<Rightarrow> False) evs)"

definition wants :: "nat \<Rightarrow> ptr \<Rightarrow> VSSI_PendInfo \<Rightarrow> bool" where
  "wants cb ctx c \<longleftrightarrow> pi_callback c = Some cb \<and> pi_ctx c = ctx"

text \<open>\<open>VSSI_NegotiateSession\<close> gives its own command no callback.\<close>

definition silent_negotiate :: "VSSI_PendInfo \<Rightarrow> bool" where
  "silent_negotiate c \<longleftrightarrow> (pi_command c = VSS_NEGOTIATE \<longrightarrow> pi_callback c = None)"

fun op_silent :: "slot_op \<Rightarrow> bool" where
  "op_silent (Add_Pending _ _ _ cmd) = silent_negotiate cmd"
| "op_silent (Add_Waiting _ _ _ cmd) = silent_negotiate cmd"
| "op_silent _ = True"

definition owed :: "nat \<Rightarrow> ptr \<Rightarrow> VSSI_PendInfo multiset \<Rightarrow> VSSI_PendInfo list \<Rightarrow> nat" where
  "owed cb ctx M W = size (filter_mset (wants cb ctx) M) + length (filter (wants cb ctx) W)"

lemma wants_simps [simp]:
  "wants cb ctx (c\<lparr>pi_xid := x\<rparr>) = wants cb ctx c" "wants cb ctx (payload c) = wants cb ctx c"
  "wants cb ctx (c\<lparr>pi_connection := p, pi_msg := m\<rparr>) = wants cb ctx c"
  "silent_negotiate (c\<lparr>pi_xid := x\<rparr>) = silent_negotiate c"
  "silent_negotiate (payload c) = silent_negotiate c"
  "silent_negotiate (c\<lparr>pi_connection := p, pi_msg := m\<rparr>) = silent_negotiate c"
  by (simp_all add: wants_def payload_def silent_negotiate_def)

lemma calls_append [simp]: "calls cb ctx (xs @ ys) = calls cb ctx xs + calls cb ctx ys"
  by (simp add: calls_def)

lemma calls_Nil [simp]: "calls cb ctx [] = 0"
  by (simp add: calls_def)

lemma calls_resolve: "calls cb ctx (VSSI_ResolveCommand c rc) = (if wants cb ctx c then 1 else 0)"
  by (simp add: calls_def VSSI_ResolveCommand_def wants_def split: option.split)

lemma calls_concat:
  "calls cb ctx (concat (map (\<lambda>c. VSSI_ResolveCommand c rc) cs)) = length (filter (wants cb ctx) cs)"
  by (induction cs) (simp_all add: calls_resolve)

lemma calls_resolve_all:
  assumes "\<forall>c\<in>set cs. silent_negotiate c"
  shows "calls cb ctx (resolve_all rc cs) = size (filter_mset (wants cb ctx) (mset cs))"
  using assms
proof (induction cs)
  case (Cons c cs)
  then have "\<not> wants cb ctx c" if "pi_command c = VSS_NEGOTIATE"
    using that unfolding silent_negotiate_def wants_def by auto
  with Cons show ?case by (auto simp: resolve_all_def calls_resolve)
qed (simp add: resolve_all_def)

section \<open>The other steps on the view\<close>

lemma start_xid_view: "cmd_view (st\<lparr>ss_seq_id := x\<rparr>) M W = cmd_view st M W"
  by (simp add: cmd_view_def slots_view_def slots_with_def table_ok_def lists_ok_def owns_ok_def
      pend_addrs_def pend_cmds_def wait_cmds_def)

lemma start_waiting_view:
  assumes v: "cmd_view st M W"
  shows "\<exists>st'. start_waiting st = Some st' \<and>
     (case W of [] \<Rightarrow> st' = st
      | w # W' \<Rightarrow> \<exists>c. payload c = w \<and>
          cmd_view st' (add_mset (c\<lparr>pi_xid := ss_seq_id st\<rparr>) M) W')"
proof -
  obtain free wait where v0: "slots_view st \<lparr>sl_lost = [], sl_free = free, sl_wait = wait\<rparr> M W"
    using v by (auto simp: cmd_view_def)
  show ?thesis
  proof (cases wait)
    case Nil
    then have "ss_wait_head st = None" "W = []"
      using v0 by (auto simp: slots_view_def slots_with_def lists_ok_def wait_cmds_def)
    then show ?thesis by (simp add: start_waiting_def)
  next
    case (Cons a rest)
    note pop = pop_wait_view [OF v0 [unfolded Cons]]
    obtain st' where st': "VSSI_WaitingCommandToPending a (st\<lparr>ss_wait_head := pi_next (ss_cmds st ! a)\<rparr>) =
        Some (st', VSSI_SUCCESS, ss_seq_id st)"
      "cmd_view st' (add_mset ((ss_cmds st ! a)\<lparr>pi_xid := ss_seq_id st\<rparr>) M) (tl W)"
      using VSSI_WaitingCommandToPending_view [OF pop(3)] by auto
    then have "start_waiting st = Some st'" by (simp add: start_waiting_def pop(1))
    then show ?thesis using st'(2) pop(2) by (cases W) auto
  qed
qed

text \<open>A pending command's structure may be written: it is on no list.\<close>

lemma write_pending_view:
  assumes v: "cmd_view st M W" and slot: "slot < ss_num_cmd_slots st" "ss_table st ! slot = Some a"
  shows "\<exists>M'. M = add_mset (ss_cmds st ! a) M' \<and>
     cmd_view (upd_cmd a f st) (add_mset (f (ss_cmds st ! a)) M') W"
proof -
  obtain free wait where v0: "slots_view st \<lparr>sl_lost = [], sl_free = free, sl_wait = wait\<rparr> M W"
    using v by (auto simp: cmd_view_def)
  let ?clear = "st\<lparr>ss_table := (ss_table st)[slot := None]\<rparr>"
  obtain M' where M': "M = add_mset (ss_cmds st ! a) M'"
    "slots_view ?clear \<lparr>sl_lost = [a], sl_free = free, sl_wait = wait\<rparr> M' W"
    using clear_slot_view [OF v0 slot] by blast
  let ?w = "upd_cmd a f ?clear"
  note wr = write_lost_view [OF M'(2), of f]
  have sw: "slots_with ?w \<lparr>sl_lost = [a], sl_free = free, sl_wait = wait\<rparr>"
    and w: "M' = pend_cmds ?w" "W = wait_cmds ?w wait" using wr(1) by (simp_all add: slots_view_def)
  have len: "slot < length (ss_table st)" "ss_num_cmd_slots st \<le> length (ss_table st)"
    using v0 slot by (auto simp: slots_view_def slots_with_def table_ok_def)
  have refill: "?w\<lparr>ss_table := (ss_table ?w)[slot := Some a]\<rparr> = upd_cmd a f st"
  proof -
    have "(ss_table st)[slot := Some a] = ss_table st" using slot(2) by (metis list_update_id)
    then show ?thesis by (cases st) (simp add: upd_cmd_def)
  qed
  have "slots_with (upd_cmd a f st) \<lparr>sl_lost = [], sl_free = free, sl_wait = wait\<rparr>"
    using fill_slot [OF sw, of slot] slot(1) len refill by simp
  moreover have "mset (pend_addrs (upd_cmd a f st)) = add_mset a (mset (pend_addrs ?w))"
    using slot len pend_of_clear [of slot "take (ss_num_cmd_slots st) (ss_table st)" a]
    by (simp add: pend_addrs_def take_update_swap)
  then have "pend_cmds (upd_cmd a f st) = add_mset (f (ss_cmds st ! a)) M'"
    using wr(2) w(1) by (simp add: pend_cmds_def upd_cmd_def)
  moreover have "wait_cmds (upd_cmd a f st) wait = W" using w(2) by (simp add: wait_cmds_def upd_cmd_def)
  ultimately show ?thesis using M'(1) by (auto simp: cmd_view_def slots_view_def)
qed

lemma sent_on_view:
  assumes v: "cmd_view st M W"
  shows "\<exists>st'. sent_on xid p st = Some st' \<and>
     (cmd_view st' M W \<or> (\<exists>c M'. M = add_mset c M' \<and>
        cmd_view st' (add_mset (c\<lparr>pi_connection := p, pi_msg := None\<rparr>) M') W))"
proof (cases "xid \<in># image_mset pi_xid M")
  case True
  then obtain slot a where s: "nat slot < ss_num_cmd_slots st" "ss_table st ! nat slot = Some a"
    "VSSI_GetVSCommandSlot st xid = Some (Some a)"
    using VSSI_GetVSCommandSlot_view [OF v, of xid] by auto
  have "sent_on xid p st = Some (upd_cmd a (\<lambda>c. c\<lparr>pi_connection := p, pi_msg := None\<rparr>) st)"
    using s(3) by (simp add: sent_on_def)
  then show ?thesis
    using write_pending_view [OF v s(1,2), of "\<lambda>c. c\<lparr>pi_connection := p, pi_msg := None\<rparr>"] by fastforce
next
  case False
  then have "VSSI_GetVSCommandSlot st xid = Some None"
    using VSSI_GetVSCommandSlot_view [OF v, of xid] by auto
  then show ?thesis using v by (simp add: sent_on_def)
qed

lemma reply_to_view:
  assumes v: "cmd_view st M W"
  shows "\<exists>st' evs. reply_to xid rc st = Some (st', evs) \<and>
     (cmd_view st' M W \<and> evs = [] \<or>
      (\<exists>c M'. M = add_mset c M' \<and> cmd_view st' M' W \<and> evs = VSSI_ResolveCommand c rc))"
proof (cases "xid \<in># image_mset pi_xid M")
  case True
  then obtain a where s: "VSSI_GetVSCommandSlot st xid = Some (Some a)"
    using VSSI_GetVSCommandSlot_view [OF v, of xid] by auto
  show ?thesis using complete_command_view [OF v True, of rc] s by (fastforce simp: reply_to_def)
next
  case False
  then have "VSSI_GetVSCommandSlot st xid = Some None"
    using VSSI_GetVSCommandSlot_view [OF v, of xid] by auto
  then show ?thesis using v by (simp add: reply_to_def)
qed

section \<open>Every history\<close>

text \<open>One step runs, and the callbacks owed change by those accepted and those made.\<close>

lemma run_op_view:
  assumes v: "cmd_view st M W"
  shows "\<exists>st' evs acc M' W'. run_op op st = Some (st', evs, acc) \<and> cmd_view st' M' W' \<and>
     (op_silent op \<and> (\<forall>c\<in>#M. silent_negotiate c) \<and> (\<forall>c\<in>set W. silent_negotiate c) \<longrightarrow>
        (\<forall>c\<in>#M'. silent_negotiate c) \<and> (\<forall>c\<in>set W'. silent_negotiate c) \<and>
        (\<forall>cb ctx. owed cb ctx M W + length (filter (wants cb ctx) acc) =
                  calls cb ctx evs + owed cb ctx M' W'))"
proof (cases op)
  case (Add_Pending rok cok junk cmd)
  obtain st' rv xid where r: "VSSI_AddPendingCommand rok cok junk cmd st = Some (st', rv, xid)"
    "if rv = VSSI_SUCCESS then cmd_view st' (add_mset (cmd\<lparr>pi_xid := xid\<rparr>) M) W else cmd_view st' M W"
    using VSSI_AddPendingCommand_view [OF v, of rok cok junk cmd] by (auto split: if_splits)
  show ?thesis
  proof (cases "rv = VSSI_SUCCESS")
    case True
    then show ?thesis using r Add_Pending
      by (intro exI [of _ st'] exI [of _ "[]"] exI [of _ "[cmd]"] exI [of _ "add_mset (cmd\<lparr>pi_xid := xid\<rparr>) M"]
          exI [of _ W]) (auto simp: owed_def)
  next
    case False
    then show ?thesis using r Add_Pending
      by (intro exI [of _ st'] exI [of _ "[]"] exI [of _ "[]"] exI [of _ M] exI [of _ W]) (auto simp: owed_def)
  qed
next
  case (Add_Waiting rok cok junk cmd)
  obtain st' rv where r: "VSSI_AddWaitingCommand rok cok junk cmd st = Some (st', rv)"
    "cmd_view st' M (if rv = VSSI_SUCCESS then W @ [payload cmd] else W)"
    using VSSI_AddWaitingCommand_view [OF v, of rok cok junk cmd] by blast
  then show ?thesis using Add_Waiting
    by (intro exI [of _ st'] exI [of _ "[]"] exI [of _ "if rv = VSSI_SUCCESS then [cmd] else []"] exI [of _ M]
        exI [of _ "if rv = VSSI_SUCCESS then W @ [payload cmd] else W"]) (auto simp: owed_def)
next
  case (Start_Xid x)
  then show ?thesis using v
    by (intro exI [of _ "st\<lparr>ss_seq_id := x\<rparr>"] exI [of _ "[]"] exI [of _ M] exI [of _ W])
      (simp add: start_xid_view)
next
  case Start_Waiting
  obtain st' where r: "start_waiting st = Some st'"
    "case W of [] \<Rightarrow> st' = st
      | w # W' \<Rightarrow> \<exists>c. payload c = w \<and> cmd_view st' (add_mset (c\<lparr>pi_xid := ss_seq_id st\<rparr>) M) W'"
    using start_waiting_view [OF v] by blast
  show ?thesis
  proof (cases W)
    case Nil
    then show ?thesis using r v Start_Waiting
      by (intro exI [of _ st] exI [of _ "[]"] exI [of _ M] exI [of _ W]) simp
  next
    case (Cons w W')
    then obtain c where c: "payload c = w" "cmd_view st' (add_mset (c\<lparr>pi_xid := ss_seq_id st\<rparr>) M) W'"
      using r(2) by auto
    have "wants cb ctx w = wants cb ctx c" "silent_negotiate w = silent_negotiate c" for cb ctx
      using c(1) by auto
    then show ?thesis using r(1) c(2) Cons Start_Waiting
      by (intro exI [of _ st'] exI [of _ "[]"] exI [of _ "add_mset (c\<lparr>pi_xid := ss_seq_id st\<rparr>) M"] exI [of _ W'])
        (simp add: owed_def)
  qed
next
  case (Sent_On xid p)
  obtain st' where r: "sent_on xid p st = Some st'" and alt: "cmd_view st' M W \<or> (\<exists>c M'. M = add_mset c M' \<and>
      cmd_view st' (add_mset (c\<lparr>pi_connection := p, pi_msg := None\<rparr>) M') W)"
    using sent_on_view [OF v] by blast
  from alt show ?thesis
  proof
    assume "cmd_view st' M W"
    then show ?thesis using r Sent_On
      by (intro exI [of _ st'] exI [of _ "[]"] exI [of _ M] exI [of _ W]) simp
  next
    assume "\<exists>c M'. M = add_mset c M' \<and> cmd_view st' (add_mset (c\<lparr>pi_connection := p, pi_msg := None\<rparr>) M') W"
    then obtain c M' where "M = add_mset c M'"
      "cmd_view st' (add_mset (c\<lparr>pi_connection := p, pi_msg := None\<rparr>) M') W" by blast
    then show ?thesis using r Sent_On
      by (intro exI [of _ st'] exI [of _ "[]"] exI [of _ "add_mset (c\<lparr>pi_connection := p, pi_msg := None\<rparr>) M'"]
          exI [of _ W]) (simp add: owed_def)
  qed
next
  case (Reply_To xid rc)
  obtain st' evs where r: "reply_to xid rc st = Some (st', evs)"
    and alt: "cmd_view st' M W \<and> evs = [] \<or>
      (\<exists>c M'. M = add_mset c M' \<and> cmd_view st' M' W \<and> evs = VSSI_ResolveCommand c rc)"
    using reply_to_view [OF v] by blast
  from alt show ?thesis
  proof
    assume "cmd_view st' M W \<and> evs = []"
    then show ?thesis using r Reply_To
      by (intro exI [of _ st'] exI [of _ "[]"] exI [of _ M] exI [of _ W]) simp
  next
    assume "\<exists>c M'. M = add_mset c M' \<and> cmd_view st' M' W \<and> evs = VSSI_ResolveCommand c rc"
    then obtain c M' where "M = add_mset c M'" "cmd_view st' M' W" "evs = VSSI_ResolveCommand c rc" by blast
    then show ?thesis using r Reply_To
      by (intro exI [of _ st'] exI [of _ evs] exI [of _ "[]"] exI [of _ M'] exI [of _ W])
        (simp add: owed_def calls_resolve)
  qed
next
  case (Reply_All p rc)
  let ?keep = "filter_mset (\<lambda>c. \<not> reply_hits p c) M"
  obtain st' cs where cs: "mset cs = filter_mset (reply_hits p) M"
    and r: "if p = None \<or> (\<exists>c\<in>set cs. pi_command c = VSS_NEGOTIATE)
      then VSSI_ReplyPendingCommands st p rc =
             Some (st', resolve_all rc cs @ concat (map (\<lambda>c. VSSI_ResolveCommand c rc) W)) \<and>
           cmd_view st' ?keep []
      else VSSI_ReplyPendingCommands st p rc = Some (st', resolve_all rc cs) \<and> cmd_view st' ?keep W"
    using VSSI_ReplyPendingCommands_view [OF v, of p rc] by blast
  have M: "M = mset cs + ?keep" using cs by (metis multiset_partition)
  have calls: "calls cb ctx (resolve_all rc cs) = size (filter_mset (wants cb ctx) (mset cs))"
    if "\<forall>c\<in>#M. silent_negotiate c" for cb ctx
  proof -
    have "\<forall>c\<in>#mset cs. silent_negotiate c" using that by (simp add: cs)
    then show ?thesis by (intro calls_resolve_all) simp
  qed
  have owed: "owed cb ctx M W = size (filter_mset (wants cb ctx) (mset cs)) + owed cb ctx ?keep W" for cb ctx
    by (subst (1) M) (simp only: owed_def filter_union_mset size_union)
  show ?thesis
  proof (cases "p = None \<or> (\<exists>c\<in>set cs. pi_command c = VSS_NEGOTIATE)")
    case True
    have "owed cb ctx ?keep W = length (filter (wants cb ctx) W) + owed cb ctx ?keep []" for cb ctx
      by (simp add: owed_def)
    then show ?thesis using r True Reply_All calls owed
      by (intro exI [of _ st'] exI [of _ "resolve_all rc cs @ concat (map (\<lambda>c. VSSI_ResolveCommand c rc) W)"]
          exI [of _ "[]"] exI [of _ ?keep] exI [of _ "[]"]) (simp add: calls_concat)
  next
    case False
    then show ?thesis using r Reply_All calls owed
      by (intro exI [of _ st'] exI [of _ "resolve_all rc cs"] exI [of _ "[]"] exI [of _ ?keep] exI [of _ W]) simp
  qed
qed

lemma run_ops_view:
  assumes "cmd_view st M W"
  shows "\<exists>st' evs acc M' W'. run_ops ops st = Some (st', evs, acc) \<and> cmd_view st' M' W' \<and>
     ((\<forall>op\<in>set ops. op_silent op) \<and> (\<forall>c\<in>#M. silent_negotiate c) \<and> (\<forall>c\<in>set W. silent_negotiate c) \<longrightarrow>
        (\<forall>cb ctx. owed cb ctx M W + length (filter (wants cb ctx) acc) =
                  calls cb ctx evs + owed cb ctx M' W'))"
  using assms
proof (induction ops arbitrary: st M W)
  case (Cons op ops)
  obtain st1 evs acc M1 W1 where one: "run_op op st = Some (st1, evs, acc)" "cmd_view st1 M1 W1"
    "op_silent op \<and> (\<forall>c\<in>#M. silent_negotiate c) \<and> (\<forall>c\<in>set W. silent_negotiate c) \<longrightarrow>
        (\<forall>c\<in>#M1. silent_negotiate c) \<and> (\<forall>c\<in>set W1. silent_negotiate c) \<and>
        (\<forall>cb ctx. owed cb ctx M W + length (filter (wants cb ctx) acc) =
                  calls cb ctx evs + owed cb ctx M1 W1)"
    using run_op_view [OF Cons.prems, of op] by blast
  obtain st2 evs' acc' M2 W2 where rest: "run_ops ops st1 = Some (st2, evs', acc')" "cmd_view st2 M2 W2"
    "(\<forall>op\<in>set ops. op_silent op) \<and> (\<forall>c\<in>#M1. silent_negotiate c) \<and> (\<forall>c\<in>set W1. silent_negotiate c) \<longrightarrow>
        (\<forall>cb ctx. owed cb ctx M1 W1 + length (filter (wants cb ctx) acc') =
                  calls cb ctx evs' + owed cb ctx M2 W2)"
    using Cons.IH [OF one(2)] by blast
  have run: "run_ops (op # ops) st = Some (st2, evs @ evs', acc @ acc')" using one(1) rest(1) by simp
  have count: "owed cb ctx M W + length (filter (wants cb ctx) (acc @ acc')) =
      calls cb ctx (evs @ evs') + owed cb ctx M2 W2"
    if h: "(\<forall>op\<in>set (op # ops). op_silent op) \<and> (\<forall>c\<in>#M. silent_negotiate c) \<and>
      (\<forall>c\<in>set W. silent_negotiate c)" for cb ctx
  proof -
    have h1: "op_silent op \<and> (\<forall>c\<in>#M. silent_negotiate c) \<and> (\<forall>c\<in>set W. silent_negotiate c)"
      and h2: "\<forall>op\<in>set ops. op_silent op" using h by (simp, simp)
    note first = mp [OF one(3) h1]
    have h3: "(\<forall>c\<in>#M1. silent_negotiate c) \<and> (\<forall>c\<in>set W1. silent_negotiate c)"
      by (rule conjI [OF conjunct1 [OF first] conjunct1 [OF conjunct2 [OF first]]])
    note eqs = spec [OF spec [OF conjunct2 [OF conjunct2 [OF first]], of cb], of ctx]
      spec [OF spec [OF mp [OF rest(3) conjI [OF h2 h3]], of cb], of ctx]
    then show ?thesis using eqs(1) by simp
  qed
  then show ?case using run rest(2)
    by (intro exI [of _ st2] exI [of _ "evs @ evs'"] exI [of _ "acc @ acc'"] exI [of _ M2] exI [of _ W2])
      (intro conjI impI allI count, simp_all)
next
  case Nil
  then show ?case by (intro exI [of _ st] exI [of _ "[]"] exI [of _ M] exI [of _ W]) simp
qed

lemma new_send_state_view: "cmd_view (new_send_state session cluster) {#} []"
  unfolding cmd_view_def slots_view_def slots_with_def
  by (intro exI [of _ "[]"])
    (simp add: table_ok_def lists_ok_def owns_ok_def new_send_state_def pend_addrs_def pend_of_def
      pend_cmds_def wait_cmds_def)

end
