(* ===== verification/Vssi_Slots_Table.thy ===== *)
theory Vssi_Slots_Table
  imports Vssi_Slots_Trace
begin

text \<open>
  The command table as a map from transaction ids (locale \<open>xid_table\<close>, interpreted on the
  operations of the table), and the properties of the table: every history runs to its end, each
  callback is made once, replies in any order find their commands, lookups decide.
\<close>

section \<open>The contract\<close>

text \<open>What a client does: send a value under the next key, take the value a reply's key names.\<close>

datatype ('k, 'v) table_op = Send 'v | Take 'k

text \<open>The reference: a map and the next key. Sending under a key in use or taking one that is not
in use has no result.\<close>

fun map_run :: "('k \<Rightarrow> 'k) \<Rightarrow> ('k \<Rightarrow> 'v \<Rightarrow> 'v) \<Rightarrow> ('k, 'v) table_op list \<Rightarrow> ('k \<Rightarrow> 'v option) \<Rightarrow> 'k \<Rightarrow>
    (('k \<Rightarrow> 'v option) \<times> 'k \<times> 'v list) option" where
  "map_run nx tag [] m k = Some (m, k, [])"
| "map_run nx tag (Send v # ops) m k =
     (if m k = None then map_run nx tag ops (m(k \<mapsto> tag k v)) (nx k) else None)"
| "map_run nx tag (Take x # ops) m k =
     (case m x of
        None \<Rightarrow> None
      | Some v \<Rightarrow> map_option (\<lambda>(m', k', vs). (m', k', v # vs)) (map_run nx tag ops (m(x := None)) k))"

fun table_run :: "('v \<Rightarrow> 's \<Rightarrow> 's option) \<Rightarrow> ('k \<Rightarrow> 's \<Rightarrow> ('s \<times> 'v) option) \<Rightarrow>
    ('k, 'v) table_op list \<Rightarrow> 's \<Rightarrow> ('s \<times> 'v list) option" where
  "table_run put del [] s = Some (s, [])"
| "table_run put del (Send v # ops) s = Option.bind (put v s) (table_run put del ops)"
| "table_run put del (Take x # ops) s =
     Option.bind (del x s) (\<lambda>(s1, v). map_option (\<lambda>(s2, vs). (s2, v # vs)) (table_run put del ops s1))"

locale xid_table =
  fixes ok :: "'s \<Rightarrow> bool"
    and lookup :: "'s \<Rightarrow> 'k \<Rightarrow> 'v option"
    and key :: "'s \<Rightarrow> 'k"
    and nx :: "'k \<Rightarrow> 'k"
    and tag :: "'k \<Rightarrow> 'v \<Rightarrow> 'v"
    and put :: "'v \<Rightarrow> 's \<Rightarrow> 's option"
    and del :: "'k \<Rightarrow> 's \<Rightarrow> ('s \<times> 'v) option"
  assumes put_law: "ok s \<Longrightarrow> lookup s (key s) = None \<Longrightarrow>
      \<exists>s'. put v s = Some s' \<and> ok s' \<and> key s' = nx (key s) \<and>
           lookup s' = (lookup s)(key s \<mapsto> tag (key s) v)"
    and del_law: "ok s \<Longrightarrow> lookup s x = Some v \<Longrightarrow>
      \<exists>s'. del x s = Some (s', v) \<and> ok s' \<and> key s' = key s \<and> lookup s' = (lookup s)(x := None)"
begin

lemma run_simulates:
  "ok s \<Longrightarrow> map_run nx tag ops (lookup s) (key s) = Some (m, k, vs) \<Longrightarrow>
     \<exists>s'. table_run put del ops s = Some (s', vs) \<and> ok s' \<and> lookup s' = m \<and> key s' = k"
proof (induction ops arbitrary: s m k vs)
  case Nil
  then show ?case by simp
next
  case (Cons op ops)
  show ?case
  proof (cases op)
    case (Send v)
    then have free: "lookup s (key s) = None" using Cons.prems(2) by (simp split: if_splits)
    obtain s1 where s1: "put v s = Some s1" "ok s1" "key s1 = nx (key s)"
      "lookup s1 = (lookup s)(key s \<mapsto> tag (key s) v)"
      using put_law [OF Cons.prems(1) free] by blast
    have "map_run nx tag ops (lookup s1) (key s1) = Some (m, k, vs)"
      using Cons.prems(2) Send free unfolding s1(3,4) by simp
    then show ?thesis using Cons.IH [OF s1(2)] Send s1(1) by simp
  next
    case (Take x)
    then obtain v where v: "lookup s x = Some v" using Cons.prems(2) by (auto split: option.splits)
    obtain s1 where s1: "del x s = Some (s1, v)" "ok s1" "key s1 = key s"
      "lookup s1 = (lookup s)(x := None)"
      using del_law [OF Cons.prems(1) v] by blast
    then obtain vs' where vs': "map_run nx tag ops (lookup s1) (key s1) = Some (m, k, vs')" "vs = v # vs'"
      using Cons.prems(2) Take v by auto
    then show ?thesis using Cons.IH [OF s1(2) vs'(1)] Take s1(1) by auto
  qed
qed

text \<open>What was sent is what the reply takes, whatever else was sent in between.\<close>

lemma put_then_del:
  assumes "ok s" and "lookup s (key s) = None"
  shows "\<exists>s1 s2. put v s = Some s1 \<and> del (key s) s1 = Some (s2, tag (key s) v) \<and> ok s2 \<and>
           lookup s2 = lookup s"
proof -
  obtain s1 where s1: "put v s = Some s1" "ok s1" "lookup s1 = (lookup s)(key s \<mapsto> tag (key s) v)"
    using put_law [OF assms] by blast
  then obtain s2 where "del (key s) s1 = Some (s2, tag (key s) v)" "ok s2"
    "lookup s2 = (lookup s1)(key s := None)"
    using del_law [OF s1(2), of "key s" "tag (key s) v"] by auto
  then show ?thesis using s1 assms(2) by auto
qed

end

section \<open>The command table meets it\<close>

definition table_put :: "ptr \<Rightarrow> VSSI_PendInfo \<Rightarrow> VSSI_SendState \<Rightarrow> VSSI_SendState option" where
  "table_put junk cmd st =
     do {
       (st1, rv, xid) \<leftarrow> VSSI_AddPendingCommand True True junk cmd st;
       if rv = VSSI_SUCCESS then Some st1 else None
     }"

text \<open>The structure the reply handler works on, then its completion.\<close>

definition table_find :: "VSSI_SendState \<Rightarrow> u32 \<Rightarrow> VSSI_PendInfo option" where
  "table_find st xid =
     (case VSSI_GetVSCommandSlot st xid of
        Some (Some a) \<Rightarrow> Some (ss_cmds st ! a)
      | _ \<Rightarrow> None)"

definition table_take :: "VSSI_Result \<Rightarrow> u32 \<Rightarrow> VSSI_SendState \<Rightarrow> (VSSI_SendState \<times> VSSI_PendInfo) option" where
  "table_take rc xid st =
     do {
       cmd \<leftarrow> table_find st xid;
       (st1, evs) \<leftarrow> complete_command xid rc st;
       Some (st1, cmd)
     }"

definition seq_after :: "u32 \<Rightarrow> u32" where
  "seq_after xid = (if xid + 1 = 0 then 1 else xid + 1)"

definition tag_xid :: "u32 \<Rightarrow> VSSI_PendInfo \<Rightarrow> VSSI_PendInfo" where
  "tag_xid xid cmd = cmd\<lparr>pi_xid := xid\<rparr>"

text \<open>The invariant, with no transaction id on two pending commands.\<close>

definition xids_ok :: "VSSI_SendState \<Rightarrow> bool" where
  "xids_ok st \<longleftrightarrow> slots_ok st \<and> (\<forall>x. count (image_mset pi_xid (pend_cmds st)) x \<le> 1)"

lemma cmd_view_pend: "cmd_view st M W \<Longrightarrow> M = pend_cmds st"
  by (auto simp: cmd_view_def slots_view_def)

lemma table_find_some:
  assumes "cmd_view st M W" and "table_find st xid = Some c"
  shows "c \<in># M \<and> pi_xid c = xid"
proof -
  have "xid \<in># image_mset pi_xid M"
    using VSSI_GetVSCommandSlot_view [OF assms(1), of xid] assms(2)
    by (auto simp: table_find_def split: if_splits)
  then obtain slot a where a: "nat slot < ss_num_cmd_slots st" "ss_table st ! nat slot = Some a"
    "pi_xid (ss_cmds st ! a) = xid" "VSSI_GetVSCommandSlot st xid = Some (Some a)"
    using VSSI_GetVSCommandSlot_view [OF assms(1), of xid] by auto
  have "\<exists>M'. M = add_mset (ss_cmds st ! a) M'"
    using assms(1) clear_slot_view [OF _ a(1,2)] by (fastforce simp: cmd_view_def)
  then show ?thesis using a assms(2) by (auto simp: table_find_def)
qed

lemma table_find_none:
  assumes "cmd_view st M W"
  shows "table_find st xid = None \<longleftrightarrow> xid \<notin># image_mset pi_xid M"
  using VSSI_GetVSCommandSlot_view [OF assms, of xid] by (auto simp: table_find_def split: if_splits)

lemma one_xid:
  assumes "\<forall>x. count (image_mset pi_xid M) x \<le> 1" and "c \<in># M" and "d \<in># M" and "pi_xid c = pi_xid d"
  shows "c = d"
proof (rule ccontr)
  assume "c \<noteq> d"
  with assms(2,3) obtain M' where "M = add_mset c (add_mset d M')"
    by (metis insert_noteq_member multi_member_split)
  then show False using assms(1) [rule_format, of "pi_xid c"] assms(4) by simp
qed

text \<open>Under the invariant the lookup is the map the pending commands are.\<close>

lemma table_find_iff:
  assumes "cmd_view st M W" and "\<forall>x. count (image_mset pi_xid M) x \<le> 1"
  shows "table_find st xid = Some c \<longleftrightarrow> c \<in># M \<and> pi_xid c = xid"
proof
  show "table_find st xid = Some c \<Longrightarrow> c \<in># M \<and> pi_xid c = xid"
    using table_find_some [OF assms(1)] by simp
next
  assume c: "c \<in># M \<and> pi_xid c = xid"
  then obtain d where d: "table_find st xid = Some d"
    using table_find_none [OF assms(1), of xid] by (cases "table_find st xid") auto
  then show "table_find st xid = Some c"
    using table_find_some [OF assms(1) d] one_xid [OF assms(2)] c by metis
qed

lemma table_put_law:
  assumes ok: "xids_ok st" and fresh: "table_find st (ss_seq_id st) = None"
  shows "\<exists>st'. table_put junk cmd st = Some st' \<and> xids_ok st' \<and> ss_seq_id st' = seq_after (ss_seq_id st) \<and>
     table_find st' = (table_find st)(ss_seq_id st \<mapsto> tag_xid (ss_seq_id st) cmd)"
proof -
  let ?xid = "ss_seq_id st"
  let ?cmd = "tag_xid ?xid cmd"
  obtain W where v: "cmd_view st (pend_cmds st) W" using ok slots_ok_view by (auto simp: xids_ok_def)
  have uniq: "\<forall>x. count (image_mset pi_xid (pend_cmds st)) x \<le> 1" using ok by (simp add: xids_ok_def)
  obtain st' where st': "VSSI_AddPendingCommand True True junk cmd st = Some (st', VSSI_SUCCESS, ?xid)"
    "cmd_view st' (add_mset ?cmd (pend_cmds st)) W" "ss_seq_id st' = seq_after ?xid"
    using VSSI_AddPendingCommand_view [OF v, of True True junk cmd]
    by (auto simp: tag_xid_def seq_after_def)
  have new: "?xid \<notin># image_mset pi_xid (pend_cmds st)" using table_find_none [OF v] fresh by simp
  have xid: "pi_xid ?cmd = ?xid" by (simp add: tag_xid_def)
  have uniq': "\<forall>x. count (image_mset pi_xid (add_mset ?cmd (pend_cmds st))) x \<le> 1"
  proof -
    have "count (image_mset pi_xid (pend_cmds st)) ?xid = 0" using new by (simp only: not_in_iff)
    then show ?thesis using uniq by (simp add: xid)
  qed
  have "table_find st' x = ((table_find st)(?xid \<mapsto> ?cmd)) x" for x
  proof (rule option.exhaust [of "table_find st' x"])
    assume none: "table_find st' x = None"
    then have "x \<noteq> ?xid" "x \<notin># image_mset pi_xid (pend_cmds st)"
      using table_find_none [OF st'(2), of x] xid by auto
    then show ?thesis using none table_find_none [OF v, of x] by simp
  next
    fix c assume c: "table_find st' x = Some c"
    then have "c \<in># add_mset ?cmd (pend_cmds st)" "pi_xid c = x"
      using table_find_some [OF st'(2)] by auto
    moreover have "\<forall>d\<in>#pend_cmds st. pi_xid d \<noteq> ?xid"
      using new by (metis image_eqI set_image_mset)
    ultimately show ?thesis using c xid table_find_iff [OF v uniq, of x c] by (cases "x = ?xid") auto
  qed
  then have "table_find st' = (table_find st)(?xid \<mapsto> ?cmd)" by blast
  moreover have "xids_ok st'"
    using cmd_view_ok [OF st'(2)] uniq' cmd_view_pend [OF st'(2)] by (simp add: xids_ok_def)
  ultimately show ?thesis using st'(1,3) by (simp add: table_put_def)
qed

lemma table_take_law:
  assumes ok: "xids_ok st" and found: "table_find st xid = Some cmd"
  shows "\<exists>st'. table_take rc xid st = Some (st', cmd) \<and> xids_ok st' \<and> ss_seq_id st' = ss_seq_id st \<and>
     table_find st' = (table_find st)(xid := None)"
proof -
  obtain W where v: "cmd_view st (pend_cmds st) W" using ok slots_ok_view by (auto simp: xids_ok_def)
  have uniq: "\<forall>x. count (image_mset pi_xid (pend_cmds st)) x \<le> 1" using ok by (simp add: xids_ok_def)
  have "xid \<in># image_mset pi_xid (pend_cmds st)" using table_find_none [OF v, of xid] found by auto
  then obtain c M' st' where st': "pend_cmds st = add_mset c M'" "pi_xid c = xid"
    "ss_seq_id st' = ss_seq_id st" "complete_command xid rc st = Some (st', VSSI_ResolveCommand c rc)"
    "cmd_view st' M' W"
    using complete_command_view [OF v, of xid rc] by blast
  have c: "c = cmd"
    using table_find_some [OF v found] st'(1,2) one_xid [OF uniq, of c cmd] by auto
  have uniq': "\<forall>x. count (image_mset pi_xid M') x \<le> 1" "xid \<notin># image_mset pi_xid M'"
  proof -
    show "\<forall>x. count (image_mset pi_xid M') x \<le> 1"
    proof
      fix x
      have "count (image_mset pi_xid M') x \<le> count (image_mset pi_xid (pend_cmds st)) x"
        by (simp add: st'(1))
      then show "count (image_mset pi_xid M') x \<le> 1" using uniq [rule_format, of x] by linarith
    qed
    show "xid \<notin># image_mset pi_xid M'"
      using uniq [rule_format, of xid] st'(2) unfolding st'(1)
      by (simp add: not_in_iff del: set_image_mset)
  qed
  have "table_find st' x = ((table_find st)(xid := None)) x" for x
  proof (rule option.exhaust [of "table_find st' x"])
    assume none: "table_find st' x = None"
    then have "x \<notin># image_mset pi_xid M'" using table_find_none [OF st'(5)] by simp
    then show ?thesis using none table_find_none [OF v, of x] st'(1,2) by auto
  next
    fix d assume d: "table_find st' x = Some d"
    then have "d \<in># M'" "pi_xid d = x" using table_find_some [OF st'(5)] by auto
    moreover from this have "x \<noteq> xid" using uniq'(2) by auto
    ultimately show ?thesis using d st'(1) table_find_iff [OF v uniq, of x d] by auto
  qed
  then have "table_find st' = (table_find st)(xid := None)" by blast
  moreover have "xids_ok st'"
    using cmd_view_ok [OF st'(5)] uniq'(1) cmd_view_pend [OF st'(5)] by (simp add: xids_ok_def)
  ultimately show ?thesis using st'(3,4) found c by (simp add: table_take_def)
qed

interpretation cmds: xid_table xids_ok table_find ss_seq_id seq_after tag_xid
    "table_put junk" "table_take rc" for junk rc
  by unfold_locales (rule table_put_law table_take_law; assumption)+

lemma new_send_state_xids: "xids_ok (new_send_state session cluster)"
  using new_send_state_view [of session cluster] cmd_view_pend [OF new_send_state_view, of session cluster]
  by (auto simp: xids_ok_def cmd_view_ok)


section \<open>Properties\<close>

text \<open>Two commands with callbacks 7 and 8, and a history that sends one and queues the other.\<close>

definition demo_cmd :: "nat \<Rightarrow> VSSI_PendInfo" where
  "demo_cmd cb = zero_pend\<lparr>pi_callback := Some cb, pi_ctx := Some (10 * cb), pi_command := VSS_OPEN\<rparr>"

definition demo_ops :: "slot_op list" where
  "demo_ops = [Add_Pending True True None (demo_cmd 7), Add_Waiting True True None (demo_cmd 8), Reply_To 0 0]"

definition demo_state :: VSSI_SendState where
  "demo_state = new_send_state \<lparr>session_handle = 1, session_secret = [], session_signingKey = [],
     session_encryptingKey = []\<rparr> 5"

definition demo_events :: "event list" where
  "demo_events = [Callback 7 (Some 70) 0, Callback 8 (Some 80) VSSI_COMM]"

text \<open>
  C21: Every history of a send state's command table runs to its end. Whatever sequence of
  additions, moves, replies and lost connections a new send state sees, and whatever the outcome of
  each allocation, no probing loop spins, no NULL structure is dereferenced, and the table is left
  with each structure on the free stack, in the wait queue or in exactly one slot.
\<close>

theorem histories_run:
  "\<exists>st evs accepted. run_ops ops (new_send_state session cluster) = Some (st, evs, accepted) \<and>
     slots_ok st"
  using run_ops_view [OF new_send_state_view, of ops session cluster] cmd_view_ok by blast

text \<open>
  C22: Each callback is made exactly once. After a history that ends with replying to
  everything (a failed negotiation, a lost server), the calls of a callback with a context are as
  many as the commands accepted with them, provided negotiation commands carry no callback.
\<close>

theorem callbacks_made_once:
  assumes "\<forall>op\<in>set ops. op_silent op"
    and "run_ops (ops @ [Reply_All None rc]) (new_send_state session cluster) = Some (st, evs, accepted)"
  shows "calls cb ctx evs = length (filter (wants cb ctx) accepted)"
proof -
  let ?new = "new_send_state session cluster"
  have split: "run_ops (xs @ ys) s = do {
      (s1, e1, a1) \<leftarrow> run_ops xs s; (s2, e2, a2) \<leftarrow> run_ops ys s1; Some (s2, e1 @ e2, a1 @ a2)}" for xs ys s
    by (induction xs arbitrary: s) (auto simp: split_def Option.bind_assoc intro!: Option.bind_cong [OF refl])
  obtain st1 evs1 acc1 M W where one: "run_ops ops ?new = Some (st1, evs1, acc1)" "cmd_view st1 M W"
    using run_ops_view [OF new_send_state_view, of ops session cluster] by blast
  obtain st2 cs where all: "VSSI_ReplyPendingCommands st1 None rc =
      Some (st2, resolve_all rc cs @ concat (map (\<lambda>c. VSSI_ResolveCommand c rc) W))"
    "cmd_view st2 (filter_mset (\<lambda>c. \<not> reply_hits None c) M) []"
    using VSSI_ReplyPendingCommands_view [OF one(2), of None rc] by auto
  have st: "st = st2" "cmd_view st {#} []"
    using assms(2) one(1) all by (auto simp: split reply_hits_def)
  obtain st' evs' acc' M' W' where r: "run_ops (ops @ [Reply_All None rc]) ?new = Some (st', evs', acc')"
    "cmd_view st' M' W'"
    "\<forall>cb ctx. owed cb ctx {#} [] + length (filter (wants cb ctx) acc') =
       calls cb ctx evs' + owed cb ctx M' W'"
    using run_ops_view [OF new_send_state_view, of "ops @ [Reply_All None rc]" session cluster] assms(1)
    by auto
  have same: "st' = st" using r(1) assms(2) by simp
  then have "M' = {#}" using cmd_view_pend [OF r(2)] cmd_view_pend [OF st(2)] by simp
  moreover have "W' = []"
  proof -
    have "ss_wait_head st = None"
      using st(2) by (auto simp: cmd_view_def slots_view_def slots_with_def lists_ok_def wait_cmds_def)
    then show ?thesis using r(2) same
      by (auto simp: cmd_view_def slots_view_def slots_with_def lists_ok_def wait_cmds_def
          dest: chain_head split: list.splits)
  qed
  ultimately show ?thesis using r(1,3) assms(2) by (simp add: owed_def)
qed

lemma demo_run:
  "map_option snd (run_ops (demo_ops @ [Reply_All None VSSI_COMM]) demo_state) =
     Some (demo_events, [demo_cmd 7, demo_cmd 8])"
  by code_simp

theorem callbacks_made_once_witness:
  "\<exists>st. run_ops (demo_ops @ [Reply_All None VSSI_COMM]) demo_state =
          Some (st, demo_events, [demo_cmd 7, demo_cmd 8]) \<and>
     calls 8 (Some 80) demo_events = length (filter (wants 8 (Some 80)) [demo_cmd 7, demo_cmd 8])"
proof -
  obtain st where st: "run_ops (demo_ops @ [Reply_All None VSSI_COMM]) demo_state =
      Some (st, demo_events, [demo_cmd 7, demo_cmd 8])"
    using demo_run by auto
  have "\<forall>op\<in>set demo_ops. op_silent op"
    by (simp add: demo_ops_def demo_cmd_def silent_negotiate_def)
  from callbacks_made_once [OF this st [unfolded demo_state_def], of 8 "Some 80"] st show ?thesis by blast
qed

text \<open>
  C23: The command table implements a map from transaction ids to commands. Any sequence of
  sends and replies for which the map has a result (no id reused while pending, each reply for a
  pending id) has the same result on the table: each reply, in whatever order, takes the command
  sent under its id, and what is left is the map's.
\<close>

theorem table_implements_map:
  assumes "map_run seq_after tag_xid ops Map.empty 0 = Some (m, k, vs)"
  shows "\<exists>st. table_run (table_put junk) (table_take rc) ops (new_send_state session cluster) = Some (st, vs) \<and>
     slots_ok st \<and> table_find st = m \<and> ss_seq_id st = k"
proof -
  let ?new = "new_send_state session cluster"
  have "table_find ?new = Map.empty"
    using table_find_none [OF new_send_state_view [of session cluster]] by auto
  moreover have "ss_seq_id ?new = 0" by (simp add: new_send_state_def)
  ultimately show ?thesis
    using cmds.run_simulates [OF new_send_state_xids, of ops session cluster m k vs junk rc] assms
    by (auto simp: xids_ok_def)
qed

theorem table_implements_map_witness:
  "\<exists>st m. table_run (table_put None) (table_take 0) [Send (demo_cmd 7), Send (demo_cmd 8), Take 1, Take 0] demo_state =
          Some (st, [tag_xid 1 (demo_cmd 8), tag_xid 0 (demo_cmd 7)]) \<and> table_find st = m \<and> m 0 = None"
proof -
  let ?ops = "[Send (demo_cmd 7), Send (demo_cmd 8), Take 1, Take 0]"
  have "map_run seq_after tag_xid ?ops Map.empty 0 =
      Some (Map.empty, 2, [tag_xid 1 (demo_cmd 8), tag_xid 0 (demo_cmd 7)])"
    by (simp add: seq_after_def)
  from table_implements_map [OF this] show ?thesis by (fastforce simp: demo_state_def)
qed

end
