(* ===== verification/Vssi_Request.thy ===== *)
theory Vssi_Request
  imports Vssi_Msg
begin

text \<open>
  The requests of the VSS protocol (\<open>gvm_core/internal/vssi/src/vssi_vss.c\<close>, lines 32 to 1029):
  each \<open>VSSI_Send...Command\<close> fills in a zeroed header and a zeroed request and passes them to
  \<open>VSSI_SendVss\<close> with the variable parts. A definition here returns the arguments of that call
  (\<open>vss_message\<close>); \<open>None\<close> is a store outside the request array. A name is a C string; \<open>buf\<close> and
  \<open>data\<close> may be NULL. The file state is the one the command info points to. The preamble of a proxy
  connection is signed and sent here, through \<open>VSSI_Sendall\<close>, whose socket results are a list.
\<close>

section \<open>Data\<close>

record VSSI_TrashId =
  trash_version :: u64
  trash_index :: u32

record VSSI_ByteRangeLock =
  lock_lock_mask :: u64
  lock_offset :: u64
  lock_length :: u64

record vss_message =
  sv_header :: buffer
  sv_fixed_data :: buffer
  sv_fixed_len :: nat
  sv_var_data1 :: "buffer option"
  sv_var_len1 :: nat
  sv_var_data2 :: "buffer option"
  sv_var_len2 :: nat

definition vss_send ::
  "buffer \<Rightarrow> buffer \<Rightarrow> nat \<Rightarrow> buffer option \<Rightarrow> nat \<Rightarrow> buffer option \<Rightarrow> nat \<Rightarrow> vss_message" where
  "vss_send header fixed_data fixed_len var_data1 var_len1 var_data2 var_len2 =
     \<lparr>sv_header = header, sv_fixed_data = fixed_data, sv_fixed_len = fixed_len,
      sv_var_data1 = var_data1, sv_var_len1 = var_len1,
      sv_var_data2 = var_data2, sv_var_len2 = var_len2\<rparr>"

section \<open>Sending all of a buffer\<close>

definition VPL_ERR_AGAIN :: int where [vssi_consts]: "VPL_ERR_AGAIN = -9005"
definition VPL_ERR_FAIL :: int where [vssi_consts]: "VPL_ERR_FAIL = -9099"

text \<open>
  One turn of the loop: what \<open>VPLSocket_Send\<close> returns, and, when it would block, what
  \<open>VPLSocket_Poll\<close> returns and whether the socket is then reported ready to send (and only that).
\<close>

record send_turn =
  turn_send :: int
  turn_poll :: int
  turn_ready :: bool

text \<open>
  Bytes put on the wire from \<open>rv\<close> on, and the function's result; \<open>None\<close> while the loop still runs
  when the turns are used up.
\<close>

fun VSSI_Sendall :: "send_turn list \<Rightarrow> buffer \<Rightarrow> int \<Rightarrow> int \<Rightarrow> (buffer \<times> int \<times> send_turn list) option" where
  "VSSI_Sendall [] msg len rv = None"
| "VSSI_Sendall (t # ts) msg len rv =
     (let rc = turn_send t
      in if rc > 0 then
           (let sent = take (nat rc) (drop (nat rv) msg)
            in if rv + rc < len
               then map_option (\<lambda>(w, r, rest). (sent @ w, r, rest)) (VSSI_Sendall ts msg len (rv + rc))
               else Some (sent, rv + rc, ts))
         else if rc = VPL_ERR_AGAIN then
           (if turn_poll t < 0 then Some ([], turn_poll t, ts)
            else if \<not> turn_ready t then Some ([], VPL_ERR_FAIL, ts)
            else if rv < len then VSSI_Sendall ts msg len rv else Some ([], rv, ts))
         else Some ([], rc, ts))"

section \<open>The proxy request\<close>

text \<open>The two buffers as signed, then what was sent of them and the result.\<close>

definition proxy_request ::
  "VSSI_UserSession \<Rightarrow> u64 \<Rightarrow> u64 \<Rightarrow> u8 \<Rightarrow> u16 \<Rightarrow> (buffer \<times> buffer) option" where
  "proxy_request session vssi_device_id destination_device traffic_type p2p_port = do {
     h1 \<leftarrow> vss_set_command (replicate VSS_HEADER_SIZE 0) VSS_PROXY_REQUEST;
     h2 \<leftarrow> vss_set_version h1 0;
     h3 \<leftarrow> vss_set_xid h2 0;
     h4 \<leftarrow> vss_set_handle h3 (session_handle session);
     h5 \<leftarrow> vss_set_device_id h4 vssi_device_id;
     h6 \<leftarrow> vss_set_data_length h5 (word_of_nat VSS_PROXY_REQUEST_SIZE);
     b1 \<leftarrow> vss_proxy_request_set_cluster_id (replicate VSS_PROXY_REQUEST_SIZE 0) destination_device;
     b2 \<leftarrow> vss_proxy_request_set_port b1 p2p_port;
     body \<leftarrow> vss_proxy_request_set_type b2 traffic_type;
     data_hmac \<leftarrow> compute_hmac body VSS_PROXY_REQUEST_SIZE (session_secret session) VSS_HMAC_SIZE;
     h7 \<leftarrow> wr_bytes h6 VSS_DATA_HMAC_OFFSET data_hmac;
     h8 \<leftarrow> wr_bytes h7 VSS_HEADER_HMAC_OFFSET (replicate VSS_HMAC_SIZE 0);
     header_hmac \<leftarrow> compute_hmac h8 VSS_HEADER_SIZE (session_secret session) VSS_HMAC_SIZE;
     header \<leftarrow> wr_bytes h8 VSS_HEADER_HMAC_OFFSET header_hmac;
     Some (header, body)
   }"

definition VSSI_SendProxyRequest ::
  "send_turn list \<Rightarrow> VSSI_UserSession \<Rightarrow> u64 \<Rightarrow> u64 \<Rightarrow> u8 \<Rightarrow> u16 \<Rightarrow> (buffer \<times> VSSI_Result) option" where
  "VSSI_SendProxyRequest turns session vssi_device_id destination_device traffic_type p2p_port = do {
     (header, body) \<leftarrow> proxy_request session vssi_device_id destination_device traffic_type p2p_port;
     (wire1, rc1, turns1) \<leftarrow> VSSI_Sendall turns header (int VSS_HEADER_SIZE) 0;
     if rc1 \<noteq> int VSS_HEADER_SIZE then Some (wire1, VSSI_COMM)
     else do {
       (wire2, rc2, turns2) \<leftarrow> VSSI_Sendall turns1 body (int VSS_PROXY_REQUEST_SIZE) 0;
       Some (wire1 @ wire2, if rc2 \<noteq> int VSS_PROXY_REQUEST_SIZE then VSSI_COMM else VSSI_SUCCESS)
     }
   }"

section \<open>Requests on a dataset\<close>

definition VSSI_SendOpenCommand :: "VSSI_ObjectState \<Rightarrow> vss_message option" where
  "VSSI_SendOpenCommand object = do {
     header \<leftarrow> vss_set_command (replicate VSS_HEADER_SIZE 0) VSS_OPEN;
     request1 \<leftarrow> vss_open_set_mode (replicate VSS_OPEN_BASE_SIZE 0) (ucast (object_mode object));
     request2 \<leftarrow> vss_open_set_reserved request1;
     request3 \<leftarrow> vss_open_set_uid request2 (access_user_id object);
     request4 \<leftarrow> vss_open_set_did request3 (access_dataset_id object);
     Some (vss_send header request4 VSS_OPEN_BASE_SIZE None 0 None 0)
   }"

definition VSSI_SendCloseCommand :: "VSSI_ObjectState \<Rightarrow> vss_message option" where
  "VSSI_SendCloseCommand object = do {
     header \<leftarrow> vss_set_command (replicate VSS_HEADER_SIZE 0) VSS_CLOSE;
     request1 \<leftarrow> vss_close_set_handle (replicate VSS_CLOSE_SIZE 0) (access_proto_handle object);
     Some (vss_send header request1 VSS_CLOSE_SIZE None 0 None 0)
   }"

definition VSSI_SendStartSetCommand :: "VSSI_ObjectState \<Rightarrow> vss_message option" where
  "VSSI_SendStartSetCommand object = do {
     header \<leftarrow> vss_set_command (replicate VSS_HEADER_SIZE 0) VSS_START_SET;
     request1 \<leftarrow> vss_start_set_set_handle (replicate VSS_START_SET_SIZE 0) (access_proto_handle object);
     request2 \<leftarrow> vss_start_set_set_objver request1 (object_version object);
     Some (vss_send header request2 VSS_START_SET_SIZE None 0 None 0)
   }"

definition VSSI_SendCommitCommand :: "VSSI_ObjectState \<Rightarrow> vss_message option" where
  "VSSI_SendCommitCommand object = do {
     header \<leftarrow> vss_set_command (replicate VSS_HEADER_SIZE 0) VSS_COMMIT;
     request1 \<leftarrow> vss_commit_set_handle (replicate VSS_COMMIT_SIZE 0) (access_proto_handle object);
     request2 \<leftarrow> vss_commit_set_objver request1 (object_version object);
     Some (vss_send header request2 VSS_COMMIT_SIZE None 0 None 0)
   }"

definition VSSI_SendDeleteCommand :: "VSSI_ObjectState \<Rightarrow> vss_message option" where
  "VSSI_SendDeleteCommand object = do {
     header \<leftarrow> vss_set_command (replicate VSS_HEADER_SIZE 0) VSS_DELETE;
     request1 \<leftarrow> vss_delete_set_uid (replicate VSS_DELETE_BASE_SIZE 0) (access_user_id object);
     request2 \<leftarrow> vss_delete_set_did request1 (access_dataset_id object);
     Some (vss_send header request2 VSS_DELETE_BASE_SIZE None 0 None 0)
   }"

definition VSSI_SendEraseCommand :: "VSSI_ObjectState \<Rightarrow> vss_message option" where
  "VSSI_SendEraseCommand object = do {
     header \<leftarrow> vss_set_command (replicate VSS_HEADER_SIZE 0) VSS_ERASE;
     request1 \<leftarrow> vss_erase_set_handle (replicate VSS_ERASE_SIZE 0) (access_proto_handle object);
     request2 \<leftarrow> vss_erase_set_objver request1 (object_version object);
     Some (vss_send header request2 VSS_ERASE_SIZE None 0 None 0)
   }"

definition VSSI_SendReadCommand :: "VSSI_ObjectState \<Rightarrow> buffer \<Rightarrow> u64 \<Rightarrow> u32 \<Rightarrow> vss_message option" where
  "VSSI_SendReadCommand object name offset len = do {
     header \<leftarrow> vss_set_command (replicate VSS_HEADER_SIZE 0) VSS_READ;
     request1 \<leftarrow> vss_read_set_offset (replicate VSS_READ_BASE_SIZE 0) offset;
     request2 \<leftarrow> vss_read_set_length request1 len;
     request3 \<leftarrow> vss_read_set_handle request2 (access_proto_handle object);
     request4 \<leftarrow> vss_read_set_objver request3 (object_version object);
     request5 \<leftarrow> vss_read_set_name_length request4 (word_of_nat (length name));
     Some (vss_send header request5 VSS_READ_BASE_SIZE (Some name) (length name) None 0)
   }"

definition VSSI_SendReadTrashCommand :: "VSSI_ObjectState \<Rightarrow> VSSI_TrashId \<Rightarrow> buffer \<Rightarrow> u64 \<Rightarrow> u32 \<Rightarrow> vss_message option" where
  "VSSI_SendReadTrashCommand object trash_id name offset len = do {
     header \<leftarrow> vss_set_command (replicate VSS_HEADER_SIZE 0) VSS_READ_TRASH;
     request1 \<leftarrow> vss_read_trash_set_recver (replicate VSS_READ_TRASH_BASE_SIZE 0) (trash_version trash_id);
     request2 \<leftarrow> vss_read_trash_set_recidx request1 (trash_index trash_id);
     request3 \<leftarrow> vss_read_trash_set_offset request2 offset;
     request4 \<leftarrow> vss_read_trash_set_length request3 len;
     request5 \<leftarrow> vss_read_trash_set_handle request4 (access_proto_handle object);
     request6 \<leftarrow> vss_read_trash_set_objver request5 (object_version object);
     request7 \<leftarrow> vss_read_trash_set_name_length request6 (word_of_nat (length name));
     Some (vss_send header request7 VSS_READ_TRASH_BASE_SIZE (Some name) (length name) None 0)
   }"

definition VSSI_SendWriteCommand :: "VSSI_ObjectState \<Rightarrow> buffer \<Rightarrow> u64 \<Rightarrow> u32 \<Rightarrow> buffer option \<Rightarrow> vss_message option" where
  "VSSI_SendWriteCommand object name offset len buf = do {
     header \<leftarrow> vss_set_command (replicate VSS_HEADER_SIZE 0) VSS_WRITE;
     request1 \<leftarrow> vss_write_set_offset (replicate VSS_WRITE_BASE_SIZE 0) offset;
     request2 \<leftarrow> vss_write_set_length request1 len;
     request3 \<leftarrow> vss_write_set_handle request2 (access_proto_handle object);
     request4 \<leftarrow> vss_write_set_objver request3 (object_version object);
     request5 \<leftarrow> vss_write_set_name_length request4 (word_of_nat (length name));
     Some (vss_send header request5 VSS_WRITE_BASE_SIZE (Some name) (length name) buf (unat len))
   }"

definition VSSI_SendSetTimesCommand :: "VSSI_ObjectState \<Rightarrow> buffer \<Rightarrow> u64 \<Rightarrow> u64 \<Rightarrow> vss_message option" where
  "VSSI_SendSetTimesCommand object name ctime mtime = do {
     header \<leftarrow> vss_set_command (replicate VSS_HEADER_SIZE 0) VSS_SET_TIMES;
     request1 \<leftarrow> vss_set_times_set_ctime (replicate VSS_SET_TIMES_BASE_SIZE 0) ctime;
     request2 \<leftarrow> vss_set_times_set_mtime request1 mtime;
     request3 \<leftarrow> vss_set_times_set_handle request2 (access_proto_handle object);
     request4 \<leftarrow> vss_set_times_set_name_length request3 (word_of_nat (length name));
     request5 \<leftarrow> vss_set_times_set_objver request4 (object_version object);
     Some (vss_send header request5 VSS_SET_TIMES_BASE_SIZE (Some name) (length name) None 0)
   }"

definition VSSI_SendSetSizeCommand :: "VSSI_ObjectState \<Rightarrow> buffer \<Rightarrow> u64 \<Rightarrow> vss_message option" where
  "VSSI_SendSetSizeCommand object name len = do {
     header \<leftarrow> vss_set_command (replicate VSS_HEADER_SIZE 0) VSS_SET_SIZE;
     request1 \<leftarrow> vss_set_size_set_size (replicate VSS_SET_SIZE_BASE_SIZE 0) len;
     request2 \<leftarrow> vss_set_size_set_handle request1 (access_proto_handle object);
     request3 \<leftarrow> vss_set_size_set_name_length request2 (word_of_nat (length name));
     request4 \<leftarrow> vss_set_size_set_objver request3 (object_version object);
     Some (vss_send header request4 VSS_SET_SIZE_BASE_SIZE (Some name) (length name) None 0)
   }"

definition VSSI_SendRemoveCommand :: "VSSI_ObjectState \<Rightarrow> buffer \<Rightarrow> vss_message option" where
  "VSSI_SendRemoveCommand object name = do {
     header \<leftarrow> vss_set_command (replicate VSS_HEADER_SIZE 0) VSS_REMOVE;
     request1 \<leftarrow> vss_remove_set_handle (replicate VSS_REMOVE_BASE_SIZE 0) (access_proto_handle object);
     request2 \<leftarrow> vss_remove_set_name_length request1 (word_of_nat (length name));
     request3 \<leftarrow> vss_remove_set_objver request2 (object_version object);
     Some (vss_send header request3 VSS_REMOVE_BASE_SIZE (Some name) (length name) None 0)
   }"

definition VSSI_SendRenameCommand :: "VSSI_ObjectState \<Rightarrow> buffer \<Rightarrow> buffer \<Rightarrow> vss_message option" where
  "VSSI_SendRenameCommand object name new_name = do {
     header \<leftarrow> vss_set_command (replicate VSS_HEADER_SIZE 0) VSS_RENAME;
     request1 \<leftarrow> vss_rename_set_handle (replicate VSS_RENAME_BASE_SIZE 0) (access_proto_handle object);
     request2 \<leftarrow> vss_rename_set_name_length request1 (word_of_nat (length name));
     request3 \<leftarrow> vss_rename_set_new_name_length request2 (word_of_nat (length new_name));
     request4 \<leftarrow> vss_rename_set_objver request3 (object_version object);
     Some (vss_send header request4 VSS_RENAME_BASE_SIZE (Some name) (length name) (Some new_name) (length new_name))
   }"

definition VSSI_SendRename2Command :: "VSSI_ObjectState \<Rightarrow> buffer \<Rightarrow> buffer \<Rightarrow> u32 \<Rightarrow> vss_message option" where
  "VSSI_SendRename2Command object name new_name flags = do {
     header \<leftarrow> vss_set_command (replicate VSS_HEADER_SIZE 0) VSS_RENAME2;
     request1 \<leftarrow> vss_rename2_set_handle (replicate VSS_RENAME2_BASE_SIZE 0) (access_proto_handle object);
     request2 \<leftarrow> vss_rename2_set_flags request1 flags;
     request3 \<leftarrow> vss_rename2_set_name_length request2 (word_of_nat (length name));
     request4 \<leftarrow> vss_rename2_set_new_name_length request3 (word_of_nat (length new_name));
     request5 \<leftarrow> vss_rename2_set_objver request4 (object_version object);
     Some (vss_send header request5 VSS_RENAME2_BASE_SIZE (Some name) (length name) (Some new_name) (length new_name))
   }"

definition VSSI_SendCopyCommand :: "VSSI_ObjectState \<Rightarrow> buffer \<Rightarrow> buffer \<Rightarrow> vss_message option" where
  "VSSI_SendCopyCommand object source destination = do {
     header \<leftarrow> vss_set_command (replicate VSS_HEADER_SIZE 0) VSS_COPY;
     request1 \<leftarrow> vss_copy_set_handle (replicate VSS_COPY_BASE_SIZE 0) (access_proto_handle object);
     request2 \<leftarrow> vss_copy_set_source_length request1 (word_of_nat (length source));
     request3 \<leftarrow> vss_copy_set_destination_length request2 (word_of_nat (length destination));
     request4 \<leftarrow> vss_copy_set_objver request3 (object_version object);
     Some (vss_send header request4 VSS_COPY_BASE_SIZE (Some source) (length source) (Some destination) (length destination))
   }"

definition VSSI_SendCopyMatchCommand :: "VSSI_ObjectState \<Rightarrow> u64 \<Rightarrow> buffer \<Rightarrow> buffer \<Rightarrow> vss_message option" where
  "VSSI_SendCopyMatchCommand object file_size signature destination = do {
     header \<leftarrow> vss_set_command (replicate VSS_HEADER_SIZE 0) VSS_COPY_MATCH;
     request1 \<leftarrow> vss_copy_match_set_handle (replicate VSS_COPY_MATCH_BASE_SIZE 0) (access_proto_handle object);
     request2 \<leftarrow> vss_copy_match_set_objver request1 (object_version object);
     request3 \<leftarrow> vss_copy_match_set_size request2 file_size;
     request4 \<leftarrow> vss_copy_match_set_destination_length request3 (word_of_nat (length destination));
     request5 \<leftarrow> vss_copy_match_set_signature request4 signature;
     Some (vss_send header request5 VSS_COPY_MATCH_BASE_SIZE (Some destination) (length destination) None 0)
   }"

definition VSSI_SendReadDirCommand :: "VSSI_ObjectState \<Rightarrow> buffer \<Rightarrow> vss_message option" where
  "VSSI_SendReadDirCommand object name = do {
     header \<leftarrow> vss_set_command (replicate VSS_HEADER_SIZE 0) VSS_READ_DIR;
     request1 \<leftarrow> vss_read_dir_set_handle (replicate VSS_READ_DIR_BASE_SIZE 0) (access_proto_handle object);
     request2 \<leftarrow> vss_read_dir_set_objver request1 (object_version object);
     request3 \<leftarrow> vss_read_dir_set_name_length request2 (word_of_nat (length name));
     Some (vss_send header request3 VSS_READ_DIR_BASE_SIZE (Some name) (length name) None 0)
   }"

definition VSSI_SendReadDir2Command :: "VSSI_ObjectState \<Rightarrow> buffer \<Rightarrow> vss_message option" where
  "VSSI_SendReadDir2Command object name = do {
     header \<leftarrow> vss_set_command (replicate VSS_HEADER_SIZE 0) VSS_READ_DIR2;
     request1 \<leftarrow> vss_read_dir_set_handle (replicate VSS_READ_DIR_BASE_SIZE 0) (access_proto_handle object);
     request2 \<leftarrow> vss_read_dir_set_objver request1 (object_version object);
     request3 \<leftarrow> vss_read_dir_set_name_length request2 (word_of_nat (length name));
     Some (vss_send header request3 VSS_READ_DIR_BASE_SIZE (Some name) (length name) None 0)
   }"

definition VSSI_SendReadTrashDirCommand :: "VSSI_ObjectState \<Rightarrow> VSSI_TrashId \<Rightarrow> buffer \<Rightarrow> vss_message option" where
  "VSSI_SendReadTrashDirCommand object trash_id name = do {
     header \<leftarrow> vss_set_command (replicate VSS_HEADER_SIZE 0) VSS_READ_TRASH_DIR;
     request1 \<leftarrow> vss_read_trash_dir_set_handle (replicate VSS_READ_TRASH_DIR_BASE_SIZE 0) (access_proto_handle object);
     request2 \<leftarrow> vss_read_trash_dir_set_objver request1 (object_version object);
     request3 \<leftarrow> vss_read_trash_dir_set_recver request2 (trash_version trash_id);
     request4 \<leftarrow> vss_read_trash_dir_set_recidx request3 (trash_index trash_id);
     request5 \<leftarrow> vss_read_trash_dir_set_name_length request4 (word_of_nat (length name));
     Some (vss_send header request5 VSS_READ_TRASH_DIR_BASE_SIZE (Some name) (length name) None 0)
   }"

definition VSSI_SendStatCommand :: "VSSI_ObjectState \<Rightarrow> buffer \<Rightarrow> vss_message option" where
  "VSSI_SendStatCommand object name = do {
     header \<leftarrow> vss_set_command (replicate VSS_HEADER_SIZE 0) VSS_STAT;
     request1 \<leftarrow> vss_stat_set_handle (replicate VSS_STAT_BASE_SIZE 0) (access_proto_handle object);
     request2 \<leftarrow> vss_stat_set_objver request1 (object_version object);
     request3 \<leftarrow> vss_stat_set_name_length request2 (word_of_nat (length name));
     Some (vss_send header request3 VSS_STAT_BASE_SIZE (Some name) (length name) None 0)
   }"

definition VSSI_SendStat2Command :: "VSSI_ObjectState \<Rightarrow> buffer \<Rightarrow> vss_message option" where
  "VSSI_SendStat2Command object name = do {
     header \<leftarrow> vss_set_command (replicate VSS_HEADER_SIZE 0) VSS_STAT2;
     request1 \<leftarrow> vss_stat_set_handle (replicate VSS_STAT_BASE_SIZE 0) (access_proto_handle object);
     request2 \<leftarrow> vss_stat_set_objver request1 (object_version object);
     request3 \<leftarrow> vss_stat_set_name_length request2 (word_of_nat (length name));
     Some (vss_send header request3 VSS_STAT_BASE_SIZE (Some name) (length name) None 0)
   }"

definition VSSI_SendStatTrashCommand :: "VSSI_ObjectState \<Rightarrow> VSSI_TrashId \<Rightarrow> buffer \<Rightarrow> vss_message option" where
  "VSSI_SendStatTrashCommand object trash_id name = do {
     header \<leftarrow> vss_set_command (replicate VSS_HEADER_SIZE 0) VSS_STAT_TRASH;
     request1 \<leftarrow> vss_stat_trash_set_handle (replicate VSS_STAT_TRASH_BASE_SIZE 0) (access_proto_handle object);
     request2 \<leftarrow> vss_stat_trash_set_objver request1 (object_version object);
     request3 \<leftarrow> vss_stat_trash_set_recver request2 (trash_version trash_id);
     request4 \<leftarrow> vss_stat_trash_set_recidx request3 (trash_index trash_id);
     request5 \<leftarrow> vss_stat_trash_set_name_length request4 (word_of_nat (length name));
     Some (vss_send header request5 VSS_STAT_TRASH_BASE_SIZE (Some name) (length name) None 0)
   }"

definition VSSI_SendReadTrashcanCommand :: "VSSI_ObjectState \<Rightarrow> vss_message option" where
  "VSSI_SendReadTrashcanCommand object = do {
     header \<leftarrow> vss_set_command (replicate VSS_HEADER_SIZE 0) VSS_READ_TRASHCAN;
     request1 \<leftarrow> vss_read_trashcan_set_handle (replicate VSS_READ_TRASHCAN_BASE_SIZE 0) (access_proto_handle object);
     request2 \<leftarrow> vss_read_trashcan_set_objver request1 (object_version object);
     Some (vss_send header request2 VSS_READ_TRASHCAN_BASE_SIZE None 0 None 0)
   }"

definition VSSI_SendMakeDirCommand :: "VSSI_ObjectState \<Rightarrow> buffer \<Rightarrow> vss_message option" where
  "VSSI_SendMakeDirCommand object name = do {
     header \<leftarrow> vss_set_command (replicate VSS_HEADER_SIZE 0) VSS_MAKE_DIR;
     request1 \<leftarrow> vss_make_dir_set_handle (replicate VSS_MAKE_DIR_BASE_SIZE 0) (access_proto_handle object);
     request2 \<leftarrow> vss_make_dir_set_name_length request1 (word_of_nat (length name));
     request3 \<leftarrow> vss_make_dir_set_objver request2 (object_version object);
     Some (vss_send header request3 VSS_MAKE_DIR_BASE_SIZE (Some name) (length name) None 0)
   }"

definition VSSI_SendChmodCommand :: "VSSI_ObjectState \<Rightarrow> buffer \<Rightarrow> u32 \<Rightarrow> u32 \<Rightarrow> vss_message option" where
  "VSSI_SendChmodCommand object name attrs attrs_mask = do {
     header \<leftarrow> vss_set_command (replicate VSS_HEADER_SIZE 0) VSS_CHMOD;
     request1 \<leftarrow> vss_chmod_set_handle (replicate VSS_CHMOD_BASE_SIZE 0) (access_proto_handle object);
     request2 \<leftarrow> vss_chmod_set_name_length request1 (word_of_nat (length name));
     request3 \<leftarrow> vss_chmod_set_objver request2 (object_version object);
     request4 \<leftarrow> vss_chmod_set_attrs request3 attrs;
     request5 \<leftarrow> vss_chmod_set_attrs_mask request4 attrs_mask;
     Some (vss_send header request5 VSS_CHMOD_BASE_SIZE (Some name) (length name) None 0)
   }"

definition VSSI_SendMakeDir2Command :: "VSSI_ObjectState \<Rightarrow> buffer \<Rightarrow> u32 \<Rightarrow> vss_message option" where
  "VSSI_SendMakeDir2Command object name attrs = do {
     header \<leftarrow> vss_set_command (replicate VSS_HEADER_SIZE 0) VSS_MAKE_DIR2;
     request1 \<leftarrow> vss_make_dir2_set_handle (replicate VSS_MAKE_DIR2_BASE_SIZE 0) (access_proto_handle object);
     request2 \<leftarrow> vss_make_dir2_set_name_length request1 (word_of_nat (length name));
     request3 \<leftarrow> vss_make_dir2_set_objver request2 (object_version object);
     request4 \<leftarrow> vss_make_dir2_set_attrs request3 attrs;
     Some (vss_send header request4 VSS_MAKE_DIR2_BASE_SIZE (Some name) (length name) None 0)
   }"

definition VSSI_SendSetMetadataCommand :: "VSSI_ObjectState \<Rightarrow> buffer \<Rightarrow> u8 \<Rightarrow> u8 \<Rightarrow> buffer option \<Rightarrow> vss_message option" where
  "VSSI_SendSetMetadataCommand object name meta_type len data = do {
     header \<leftarrow> vss_set_command (replicate VSS_HEADER_SIZE 0) VSS_SET_METADATA;
     request1 \<leftarrow> vss_set_metadata_set_handle (replicate VSS_SET_METADATA_BASE_SIZE 0) (access_proto_handle object);
     request2 \<leftarrow> vss_set_metadata_set_objver request1 (object_version object);
     request3 \<leftarrow> vss_set_metadata_set_type request2 meta_type;
     request4 \<leftarrow> vss_set_metadata_set_length request3 len;
     request5 \<leftarrow> vss_set_metadata_set_name_length request4 (word_of_nat (length name));
     Some (vss_send header request5 VSS_SET_METADATA_BASE_SIZE (Some name) (length name) data (unat len))
   }"

definition VSSI_SendEmptyTrashCommand :: "VSSI_ObjectState \<Rightarrow> vss_message option" where
  "VSSI_SendEmptyTrashCommand object = do {
     header \<leftarrow> vss_set_command (replicate VSS_HEADER_SIZE 0) VSS_EMPTY_TRASH;
     request1 \<leftarrow> vss_empty_trash_set_handle (replicate VSS_EMPTY_TRASH_BASE_SIZE 0) (access_proto_handle object);
     request2 \<leftarrow> vss_empty_trash_set_objver request1 (object_version object);
     Some (vss_send header request2 VSS_EMPTY_TRASH_BASE_SIZE None 0 None 0)
   }"

definition VSSI_SendDeleteTrashCommand :: "VSSI_ObjectState \<Rightarrow> VSSI_TrashId \<Rightarrow> vss_message option" where
  "VSSI_SendDeleteTrashCommand object trash_id = do {
     header \<leftarrow> vss_set_command (replicate VSS_HEADER_SIZE 0) VSS_DELETE_TRASH;
     request1 \<leftarrow> vss_delete_trash_set_handle (replicate VSS_DELETE_TRASH_BASE_SIZE 0) (access_proto_handle object);
     request2 \<leftarrow> vss_delete_trash_set_objver request1 (object_version object);
     request3 \<leftarrow> vss_delete_trash_set_recver request2 (trash_version trash_id);
     request4 \<leftarrow> vss_delete_trash_set_recidx request3 (trash_index trash_id);
     Some (vss_send header request4 VSS_DELETE_TRASH_BASE_SIZE None 0 None 0)
   }"

text \<open>No name, the empty name (sent as one NUL byte, the dummy name) or a name.\<close>

definition VSSI_SendRestoreTrashCommand :: "VSSI_ObjectState \<Rightarrow> VSSI_TrashId \<Rightarrow> buffer option \<Rightarrow> vss_message option" where
  "VSSI_SendRestoreTrashCommand object trash_id name = do {
     let (destination, name_len) =
       (case name of
          None \<Rightarrow> (None, 0)
        | Some n \<Rightarrow> if length n = 0 then (Some [0], 1) else (Some n, length n));
     header \<leftarrow> vss_set_command (replicate VSS_HEADER_SIZE 0) VSS_RESTORE_TRASH;
     request1 \<leftarrow> vss_restore_trash_set_handle (replicate VSS_RESTORE_TRASH_BASE_SIZE 0) (access_proto_handle object);
     request2 \<leftarrow> vss_restore_trash_set_objver request1 (object_version object);
     request3 \<leftarrow> vss_restore_trash_set_recver request2 (trash_version trash_id);
     request4 \<leftarrow> vss_restore_trash_set_recidx request3 (trash_index trash_id);
     request5 \<leftarrow> vss_restore_trash_set_name_length request4 (word_of_nat name_len);
     Some (vss_send header request5 VSS_RESTORE_TRASH_BASE_SIZE destination name_len None 0)
   }"

definition VSSI_SendGetSpaceCommand :: "VSSI_ObjectState \<Rightarrow> vss_message option" where
  "VSSI_SendGetSpaceCommand object = do {
     header \<leftarrow> vss_set_command (replicate VSS_HEADER_SIZE 0) VSS_GET_SPACE;
     request1 \<leftarrow> vss_get_space_set_handle (replicate VSS_GET_SPACE_SIZE 0) (access_proto_handle object);
     Some (vss_send header request1 VSS_GET_SPACE_SIZE None 0 None 0)
   }"

definition VSSI_SendGetNotifyCommand :: "VSSI_ObjectState \<Rightarrow> vss_message option" where
  "VSSI_SendGetNotifyCommand object = do {
     header \<leftarrow> vss_set_command (replicate VSS_HEADER_SIZE 0) VSS_GET_NOTIFY;
     request1 \<leftarrow> vss_get_notify_set_handle (replicate VSS_GET_NOTIFY_SIZE 0) (access_proto_handle object);
     Some (vss_send header request1 VSS_GET_NOTIFY_SIZE None 0 None 0)
   }"

definition VSSI_SendSetNotifyCommand :: "VSSI_ObjectState \<Rightarrow> u64 \<Rightarrow> vss_message option" where
  "VSSI_SendSetNotifyCommand object notify_mask = do {
     header \<leftarrow> vss_set_command (replicate VSS_HEADER_SIZE 0) VSS_SET_NOTIFY;
     request1 \<leftarrow> vss_set_notify_set_handle (replicate VSS_SET_NOTIFY_SIZE 0) (access_proto_handle object);
     request2 \<leftarrow> vss_set_notify_set_mode request1 notify_mask;
     Some (vss_send header request2 VSS_SET_NOTIFY_SIZE None 0 None 0)
   }"

definition VSSI_SendOpenFileCommand :: "VSSI_ObjectState \<Rightarrow> VSSI_FileState \<Rightarrow> buffer \<Rightarrow> u32 \<Rightarrow> u32 \<Rightarrow> vss_message option" where
  "VSSI_SendOpenFileCommand object file_state name flags attrs = do {
     header \<leftarrow> vss_set_command (replicate VSS_HEADER_SIZE 0) VSS_OPEN_FILE;
     request1 \<leftarrow> vss_open_file_set_origin (replicate VSS_OPEN_FILE_BASE_SIZE 0) (file_origin file_state);
     request2 \<leftarrow> vss_open_file_set_handle request1 (access_proto_handle object);
     request3 \<leftarrow> vss_open_file_set_flags request2 flags;
     request4 \<leftarrow> vss_open_file_set_attrs request3 attrs;
     request5 \<leftarrow> vss_open_file_set_name_length request4 (word_of_nat (length name));
     Some (vss_send header request5 VSS_OPEN_FILE_BASE_SIZE (Some name) (length name) None 0)
   }"

definition VSSI_SendReleaseFileCommand :: "VSSI_ObjectState \<Rightarrow> VSSI_FileState \<Rightarrow> vss_message option" where
  "VSSI_SendReleaseFileCommand object file_state = do {
     header \<leftarrow> vss_set_command (replicate VSS_HEADER_SIZE 0) VSS_RELEASE_FILE;
     request1 \<leftarrow> vss_release_file_set_handle (replicate VSS_RELEASE_FILE_SIZE 0) (file_server_handle file_state);
     request2 \<leftarrow> vss_release_file_set_origin request1 (file_origin file_state);
     Some (vss_send header request2 VSS_RELEASE_FILE_SIZE None 0 None 0)
   }"

definition VSSI_SendCloseFileCommand :: "VSSI_ObjectState \<Rightarrow> VSSI_FileState \<Rightarrow> vss_message option" where
  "VSSI_SendCloseFileCommand object file_state = do {
     header \<leftarrow> vss_set_command (replicate VSS_HEADER_SIZE 0) VSS_CLOSE_FILE;
     request1 \<leftarrow> vss_close_file_set_handle (replicate VSS_CLOSE_FILE_SIZE 0) (file_server_handle file_state);
     request2 \<leftarrow> vss_close_file_set_origin request1 (file_origin file_state);
     Some (vss_send header request2 VSS_CLOSE_FILE_SIZE None 0 None 0)
   }"

definition VSSI_SendReadFileCommand :: "VSSI_ObjectState \<Rightarrow> VSSI_FileState \<Rightarrow> u64 \<Rightarrow> u32 \<Rightarrow> vss_message option" where
  "VSSI_SendReadFileCommand object file_state offset len = do {
     header \<leftarrow> vss_set_command (replicate VSS_HEADER_SIZE 0) VSS_READ_FILE;
     request1 \<leftarrow> vss_read_file_set_handle (replicate VSS_READ_FILE_SIZE 0) (file_server_handle file_state);
     request2 \<leftarrow> vss_read_file_set_origin request1 (file_origin file_state);
     request3 \<leftarrow> vss_read_file_set_offset request2 offset;
     request4 \<leftarrow> vss_read_file_set_length request3 len;
     Some (vss_send header request4 VSS_READ_FILE_SIZE None 0 None 0)
   }"

definition VSSI_SendWriteFileCommand :: "VSSI_ObjectState \<Rightarrow> VSSI_FileState \<Rightarrow> u64 \<Rightarrow> u32 \<Rightarrow> buffer option \<Rightarrow> vss_message option" where
  "VSSI_SendWriteFileCommand object file_state offset len buf = do {
     header \<leftarrow> vss_set_command (replicate VSS_HEADER_SIZE 0) VSS_WRITE_FILE;
     request1 \<leftarrow> vss_write_file_set_handle (replicate VSS_WRITE_FILE_BASE_SIZE 0) (file_server_handle file_state);
     request2 \<leftarrow> vss_write_file_set_origin request1 (file_origin file_state);
     request3 \<leftarrow> vss_write_file_set_offset request2 offset;
     request4 \<leftarrow> vss_write_file_set_length request3 len;
     Some (vss_send header request4 VSS_WRITE_FILE_BASE_SIZE buf (unat len) None 0)
   }"

definition VSSI_SendTruncateFileCommand :: "VSSI_ObjectState \<Rightarrow> VSSI_FileState \<Rightarrow> u64 \<Rightarrow> vss_message option" where
  "VSSI_SendTruncateFileCommand object file_state offset = do {
     header \<leftarrow> vss_set_command (replicate VSS_HEADER_SIZE 0) VSS_TRUNCATE_FILE;
     request1 \<leftarrow> vss_truncate_file_set_handle (replicate VSS_TRUNCATE_FILE_SIZE 0) (file_server_handle file_state);
     request2 \<leftarrow> vss_truncate_file_set_origin request1 (file_origin file_state);
     request3 \<leftarrow> vss_truncate_file_set_offset request2 offset;
     Some (vss_send header request3 VSS_TRUNCATE_FILE_SIZE None 0 None 0)
   }"

definition VSSI_SendChmodFileCommand :: "VSSI_ObjectState \<Rightarrow> VSSI_FileState \<Rightarrow> u32 \<Rightarrow> u32 \<Rightarrow> vss_message option" where
  "VSSI_SendChmodFileCommand object file_state attrs attrs_mask = do {
     header \<leftarrow> vss_set_command (replicate VSS_HEADER_SIZE 0) VSS_CHMOD_FILE;
     request1 \<leftarrow> vss_chmod_file_set_handle (replicate VSS_CHMOD_FILE_SIZE 0) (file_server_handle file_state);
     request2 \<leftarrow> vss_chmod_file_set_origin request1 (file_origin file_state);
     request3 \<leftarrow> vss_chmod_file_set_attrs request2 attrs;
     request4 \<leftarrow> vss_chmod_file_set_attrs_mask request3 attrs_mask;
     Some (vss_send header request4 VSS_CHMOD_FILE_SIZE None 0 None 0)
   }"

definition VSSI_SendSetLockCommand :: "VSSI_ObjectState \<Rightarrow> VSSI_FileState \<Rightarrow> u64 \<Rightarrow> vss_message option" where
  "VSSI_SendSetLockCommand object file_state lock_mask = do {
     header \<leftarrow> vss_set_command (replicate VSS_HEADER_SIZE 0) VSS_SET_LOCK;
     request1 \<leftarrow> vss_set_lock_set_fhandle (replicate VSS_SET_LOCK_SIZE 0) (file_server_handle file_state);
     request2 \<leftarrow> vss_set_lock_set_objhandle request1 (access_proto_handle object);
     request3 \<leftarrow> vss_set_lock_set_mode request2 lock_mask;
     Some (vss_send header request3 VSS_SET_LOCK_SIZE None 0 None 0)
   }"

definition VSSI_SendGetLockCommand :: "VSSI_ObjectState \<Rightarrow> VSSI_FileState \<Rightarrow> vss_message option" where
  "VSSI_SendGetLockCommand object file_state = do {
     header \<leftarrow> vss_set_command (replicate VSS_HEADER_SIZE 0) VSS_GET_LOCK;
     request1 \<leftarrow> vss_get_lock_set_fhandle (replicate VSS_GET_LOCK_SIZE 0) (file_server_handle file_state);
     request2 \<leftarrow> vss_get_lock_set_objhandle request1 (access_proto_handle object);
     Some (vss_send header request2 VSS_GET_LOCK_SIZE None 0 None 0)
   }"

definition VSSI_SendSetLockRangeCommand :: "VSSI_ObjectState \<Rightarrow> VSSI_FileState \<Rightarrow> VSSI_ByteRangeLock \<Rightarrow> u32 \<Rightarrow> vss_message option" where
  "VSSI_SendSetLockRangeCommand object file_state br_lock flags = do {
     header \<leftarrow> vss_set_command (replicate VSS_HEADER_SIZE 0) VSS_SET_LOCK_RANGE;
     request1 \<leftarrow> vss_set_lock_range_set_handle (replicate VSS_SET_LOCK_RANGE_SIZE 0) (file_server_handle file_state);
     request2 \<leftarrow> vss_set_lock_range_set_origin request1 (file_origin file_state);
     request3 \<leftarrow> vss_set_lock_range_set_start request2 (lock_offset br_lock);
     request4 \<leftarrow> vss_set_lock_range_set_end request3 (lock_offset br_lock + lock_length br_lock);
     request5 \<leftarrow> vss_set_lock_range_set_mode request4 (lock_lock_mask br_lock);
     request6 \<leftarrow> vss_set_lock_range_set_flags request5 flags;
     Some (vss_send header request6 VSS_SET_LOCK_RANGE_SIZE None 0 None 0)
   }"

end
