(* ===== verification/Vssi_Request_Correct.thy ===== *)
theory Vssi_Request_Correct
  imports Vssi_Request Vssi_Msg_Correct
begin

text \<open>
  What a request is on the wire: its command code, its fixed body as the sequence of its fields in
  network order, and its variable parts (\<open>request_code\<close>, \<open>request_body\<close>, \<open>request_parts\<close>). Each
  function of \<open>Vssi_Request\<close> lays its request out so, whatever the order it stores the fields in,
  and the peer reads back what was meant.
\<close>

section \<open>The requests as data\<close>

datatype vss_request =
    Open_Req |
    Close_Req |
    StartSet_Req |
    Commit_Req |
    Delete_Req |
    Erase_Req |
    Read_Req buffer u64 u32 |
    ReadTrash_Req VSSI_TrashId buffer u64 u32 |
    Write_Req buffer u64 u32 "buffer option" |
    SetTimes_Req buffer u64 u64 |
    SetSize_Req buffer u64 |
    Remove_Req buffer |
    Rename_Req buffer buffer |
    Rename2_Req buffer buffer u32 |
    Copy_Req buffer buffer |
    CopyMatch_Req u64 buffer buffer |
    ReadDir_Req buffer |
    ReadDir2_Req buffer |
    ReadTrashDir_Req VSSI_TrashId buffer |
    Stat_Req buffer |
    Stat2_Req buffer |
    StatTrash_Req VSSI_TrashId buffer |
    ReadTrashcan_Req |
    MakeDir_Req buffer |
    Chmod_Req buffer u32 u32 |
    MakeDir2_Req buffer u32 |
    SetMetadata_Req buffer u8 u8 "buffer option" |
    EmptyTrash_Req |
    DeleteTrash_Req VSSI_TrashId |
    RestoreTrash_Req VSSI_TrashId "buffer option" |
    GetSpace_Req |
    GetNotify_Req |
    SetNotify_Req u64 |
    OpenFile_Req buffer u32 u32 |
    ReleaseFile_Req |
    CloseFile_Req |
    ReadFile_Req u64 u32 |
    WriteFile_Req u64 u32 "buffer option" |
    TruncateFile_Req u64 |
    ChmodFile_Req u32 u32 |
    SetLock_Req u64 |
    GetLock_Req |
    SetLockRange_Req VSSI_ByteRangeLock u32

text \<open>The function each request is sent by.\<close>

fun send_request :: "vss_request \<Rightarrow> VSSI_ObjectState \<Rightarrow> VSSI_FileState \<Rightarrow> vss_message option" where
  "send_request Open_Req object file_state = VSSI_SendOpenCommand object"
| "send_request Close_Req object file_state = VSSI_SendCloseCommand object"
| "send_request StartSet_Req object file_state = VSSI_SendStartSetCommand object"
| "send_request Commit_Req object file_state = VSSI_SendCommitCommand object"
| "send_request Delete_Req object file_state = VSSI_SendDeleteCommand object"
| "send_request Erase_Req object file_state = VSSI_SendEraseCommand object"
| "send_request (Read_Req name offset len) object file_state = VSSI_SendReadCommand object name offset len"
| "send_request (ReadTrash_Req trash_id name offset len) object file_state = VSSI_SendReadTrashCommand object trash_id name offset len"
| "send_request (Write_Req name offset len buf) object file_state = VSSI_SendWriteCommand object name offset len buf"
| "send_request (SetTimes_Req name ctime mtime) object file_state = VSSI_SendSetTimesCommand object name ctime mtime"
| "send_request (SetSize_Req name len) object file_state = VSSI_SendSetSizeCommand object name len"
| "send_request (Remove_Req name) object file_state = VSSI_SendRemoveCommand object name"
| "send_request (Rename_Req name new_name) object file_state = VSSI_SendRenameCommand object name new_name"
| "send_request (Rename2_Req name new_name flags) object file_state = VSSI_SendRename2Command object name new_name flags"
| "send_request (Copy_Req source destination) object file_state = VSSI_SendCopyCommand object source destination"
| "send_request (CopyMatch_Req file_size signature destination) object file_state = VSSI_SendCopyMatchCommand object file_size signature destination"
| "send_request (ReadDir_Req name) object file_state = VSSI_SendReadDirCommand object name"
| "send_request (ReadDir2_Req name) object file_state = VSSI_SendReadDir2Command object name"
| "send_request (ReadTrashDir_Req trash_id name) object file_state = VSSI_SendReadTrashDirCommand object trash_id name"
| "send_request (Stat_Req name) object file_state = VSSI_SendStatCommand object name"
| "send_request (Stat2_Req name) object file_state = VSSI_SendStat2Command object name"
| "send_request (StatTrash_Req trash_id name) object file_state = VSSI_SendStatTrashCommand object trash_id name"
| "send_request ReadTrashcan_Req object file_state = VSSI_SendReadTrashcanCommand object"
| "send_request (MakeDir_Req name) object file_state = VSSI_SendMakeDirCommand object name"
| "send_request (Chmod_Req name attrs attrs_mask) object file_state = VSSI_SendChmodCommand object name attrs attrs_mask"
| "send_request (MakeDir2_Req name attrs) object file_state = VSSI_SendMakeDir2Command object name attrs"
| "send_request (SetMetadata_Req name meta_type len data) object file_state = VSSI_SendSetMetadataCommand object name meta_type len data"
| "send_request EmptyTrash_Req object file_state = VSSI_SendEmptyTrashCommand object"
| "send_request (DeleteTrash_Req trash_id) object file_state = VSSI_SendDeleteTrashCommand object trash_id"
| "send_request (RestoreTrash_Req trash_id name) object file_state = VSSI_SendRestoreTrashCommand object trash_id name"
| "send_request GetSpace_Req object file_state = VSSI_SendGetSpaceCommand object"
| "send_request GetNotify_Req object file_state = VSSI_SendGetNotifyCommand object"
| "send_request (SetNotify_Req notify_mask) object file_state = VSSI_SendSetNotifyCommand object notify_mask"
| "send_request (OpenFile_Req name flags attrs) object file_state = VSSI_SendOpenFileCommand object file_state name flags attrs"
| "send_request ReleaseFile_Req object file_state = VSSI_SendReleaseFileCommand object file_state"
| "send_request CloseFile_Req object file_state = VSSI_SendCloseFileCommand object file_state"
| "send_request (ReadFile_Req offset len) object file_state = VSSI_SendReadFileCommand object file_state offset len"
| "send_request (WriteFile_Req offset len buf) object file_state = VSSI_SendWriteFileCommand object file_state offset len buf"
| "send_request (TruncateFile_Req offset) object file_state = VSSI_SendTruncateFileCommand object file_state offset"
| "send_request (ChmodFile_Req attrs attrs_mask) object file_state = VSSI_SendChmodFileCommand object file_state attrs attrs_mask"
| "send_request (SetLock_Req lock_mask) object file_state = VSSI_SendSetLockCommand object file_state lock_mask"
| "send_request GetLock_Req object file_state = VSSI_SendGetLockCommand object file_state"
| "send_request (SetLockRange_Req br_lock flags) object file_state = VSSI_SendSetLockRangeCommand object file_state br_lock flags"

fun request_code :: "vss_request \<Rightarrow> u8" where
  "request_code Open_Req = VSS_OPEN"
| "request_code Close_Req = VSS_CLOSE"
| "request_code StartSet_Req = VSS_START_SET"
| "request_code Commit_Req = VSS_COMMIT"
| "request_code Delete_Req = VSS_DELETE"
| "request_code Erase_Req = VSS_ERASE"
| "request_code (Read_Req _ _ _) = VSS_READ"
| "request_code (ReadTrash_Req _ _ _ _) = VSS_READ_TRASH"
| "request_code (Write_Req _ _ _ _) = VSS_WRITE"
| "request_code (SetTimes_Req _ _ _) = VSS_SET_TIMES"
| "request_code (SetSize_Req _ _) = VSS_SET_SIZE"
| "request_code (Remove_Req _) = VSS_REMOVE"
| "request_code (Rename_Req _ _) = VSS_RENAME"
| "request_code (Rename2_Req _ _ _) = VSS_RENAME2"
| "request_code (Copy_Req _ _) = VSS_COPY"
| "request_code (CopyMatch_Req _ _ _) = VSS_COPY_MATCH"
| "request_code (ReadDir_Req _) = VSS_READ_DIR"
| "request_code (ReadDir2_Req _) = VSS_READ_DIR2"
| "request_code (ReadTrashDir_Req _ _) = VSS_READ_TRASH_DIR"
| "request_code (Stat_Req _) = VSS_STAT"
| "request_code (Stat2_Req _) = VSS_STAT2"
| "request_code (StatTrash_Req _ _) = VSS_STAT_TRASH"
| "request_code ReadTrashcan_Req = VSS_READ_TRASHCAN"
| "request_code (MakeDir_Req _) = VSS_MAKE_DIR"
| "request_code (Chmod_Req _ _ _) = VSS_CHMOD"
| "request_code (MakeDir2_Req _ _) = VSS_MAKE_DIR2"
| "request_code (SetMetadata_Req _ _ _ _) = VSS_SET_METADATA"
| "request_code EmptyTrash_Req = VSS_EMPTY_TRASH"
| "request_code (DeleteTrash_Req _) = VSS_DELETE_TRASH"
| "request_code (RestoreTrash_Req _ _) = VSS_RESTORE_TRASH"
| "request_code GetSpace_Req = VSS_GET_SPACE"
| "request_code GetNotify_Req = VSS_GET_NOTIFY"
| "request_code (SetNotify_Req _) = VSS_SET_NOTIFY"
| "request_code (OpenFile_Req _ _ _) = VSS_OPEN_FILE"
| "request_code ReleaseFile_Req = VSS_RELEASE_FILE"
| "request_code CloseFile_Req = VSS_CLOSE_FILE"
| "request_code (ReadFile_Req _ _) = VSS_READ_FILE"
| "request_code (WriteFile_Req _ _ _) = VSS_WRITE_FILE"
| "request_code (TruncateFile_Req _) = VSS_TRUNCATE_FILE"
| "request_code (ChmodFile_Req _ _) = VSS_CHMOD_FILE"
| "request_code (SetLock_Req _) = VSS_SET_LOCK"
| "request_code GetLock_Req = VSS_GET_LOCK"
| "request_code (SetLockRange_Req _ _) = VSS_SET_LOCK_RANGE"

text \<open>The dummy name a restore without a new name's text sends.\<close>

definition restore_name :: "buffer option \<Rightarrow> buffer" where
  "restore_name name = (case name of None \<Rightarrow> [] | Some n \<Rightarrow> if n = [] then [0] else n)"

fun request_body :: "vss_request \<Rightarrow> VSSI_ObjectState \<Rightarrow> VSSI_FileState \<Rightarrow> buffer" where
  "request_body Open_Req object file_state =
     [ucast (object_mode object)] @ replicate 7 0 @ be_enc 8 (access_user_id object) @ be_enc 8 (access_dataset_id object)"
| "request_body Close_Req object file_state =
     be_enc 4 (access_proto_handle object)"
| "request_body StartSet_Req object file_state =
     be_enc 4 (access_proto_handle object) @ be_enc 8 (object_version object)"
| "request_body Commit_Req object file_state =
     be_enc 4 (access_proto_handle object) @ be_enc 8 (object_version object)"
| "request_body Delete_Req object file_state =
     replicate 4 0 @ be_enc 8 (access_user_id object) @ be_enc 8 (access_dataset_id object)"
| "request_body Erase_Req object file_state =
     be_enc 4 (access_proto_handle object) @ be_enc 8 (object_version object)"
| "request_body (Read_Req name offset len) object file_state =
     be_enc 4 (access_proto_handle object) @ be_enc 8 (object_version object) @ be_enc 8 offset @ be_enc 4 len @ be_enc 2 (word_of_nat (length name) :: u16)"
| "request_body (ReadTrash_Req trash_id name offset len) object file_state =
     be_enc 4 (access_proto_handle object) @ be_enc 8 (object_version object) @ be_enc 8 (trash_version trash_id) @ be_enc 4 (trash_index trash_id) @ be_enc 8 offset @ be_enc 4 len @ be_enc 2 (word_of_nat (length name) :: u16)"
| "request_body (Write_Req name offset len buf) object file_state =
     be_enc 4 (access_proto_handle object) @ be_enc 8 (object_version object) @ be_enc 8 offset @ be_enc 4 len @ be_enc 2 (word_of_nat (length name) :: u16)"
| "request_body (SetTimes_Req name ctime mtime) object file_state =
     be_enc 4 (access_proto_handle object) @ be_enc 8 (object_version object) @ be_enc 8 ctime @ be_enc 8 mtime @ be_enc 2 (word_of_nat (length name) :: u16)"
| "request_body (SetSize_Req name len) object file_state =
     be_enc 8 len @ be_enc 4 (access_proto_handle object) @ be_enc 8 (object_version object) @ be_enc 2 (word_of_nat (length name) :: u16)"
| "request_body (Remove_Req name) object file_state =
     be_enc 4 (access_proto_handle object) @ be_enc 8 (object_version object) @ be_enc 2 (word_of_nat (length name) :: u16)"
| "request_body (Rename_Req name new_name) object file_state =
     be_enc 4 (access_proto_handle object) @ be_enc 8 (object_version object) @ be_enc 2 (word_of_nat (length name) :: u16) @ be_enc 2 (word_of_nat (length new_name) :: u16)"
| "request_body (Rename2_Req name new_name flags) object file_state =
     be_enc 4 (access_proto_handle object) @ be_enc 4 flags @ be_enc 8 (object_version object) @ be_enc 2 (word_of_nat (length name) :: u16) @ be_enc 2 (word_of_nat (length new_name) :: u16)"
| "request_body (Copy_Req source destination) object file_state =
     be_enc 4 (access_proto_handle object) @ be_enc 8 (object_version object) @ be_enc 2 (word_of_nat (length source) :: u16) @ be_enc 2 (word_of_nat (length destination) :: u16)"
| "request_body (CopyMatch_Req file_size signature destination) object file_state =
     be_enc 4 (access_proto_handle object) @ be_enc 8 (object_version object) @ be_enc 8 file_size @ be_enc 2 (word_of_nat (length destination) :: u16) @ take 20 signature"
| "request_body (ReadDir_Req name) object file_state =
     be_enc 4 (access_proto_handle object) @ be_enc 8 (object_version object) @ be_enc 2 (word_of_nat (length name) :: u16)"
| "request_body (ReadDir2_Req name) object file_state =
     be_enc 4 (access_proto_handle object) @ be_enc 8 (object_version object) @ be_enc 2 (word_of_nat (length name) :: u16)"
| "request_body (ReadTrashDir_Req trash_id name) object file_state =
     be_enc 4 (access_proto_handle object) @ be_enc 8 (object_version object) @ be_enc 8 (trash_version trash_id) @ be_enc 4 (trash_index trash_id) @ be_enc 2 (word_of_nat (length name) :: u16)"
| "request_body (Stat_Req name) object file_state =
     be_enc 4 (access_proto_handle object) @ be_enc 8 (object_version object) @ be_enc 2 (word_of_nat (length name) :: u16)"
| "request_body (Stat2_Req name) object file_state =
     be_enc 4 (access_proto_handle object) @ be_enc 8 (object_version object) @ be_enc 2 (word_of_nat (length name) :: u16)"
| "request_body (StatTrash_Req trash_id name) object file_state =
     be_enc 4 (access_proto_handle object) @ be_enc 8 (object_version object) @ be_enc 8 (trash_version trash_id) @ be_enc 4 (trash_index trash_id) @ be_enc 2 (word_of_nat (length name) :: u16)"
| "request_body ReadTrashcan_Req object file_state =
     be_enc 4 (access_proto_handle object) @ be_enc 8 (object_version object)"
| "request_body (MakeDir_Req name) object file_state =
     be_enc 4 (access_proto_handle object) @ be_enc 8 (object_version object) @ be_enc 2 (word_of_nat (length name) :: u16)"
| "request_body (Chmod_Req name attrs attrs_mask) object file_state =
     be_enc 4 (access_proto_handle object) @ be_enc 8 (object_version object) @ be_enc 4 attrs @ be_enc 4 attrs_mask @ be_enc 2 (word_of_nat (length name) :: u16)"
| "request_body (MakeDir2_Req name attrs) object file_state =
     be_enc 4 (access_proto_handle object) @ be_enc 8 (object_version object) @ be_enc 4 attrs @ be_enc 2 (word_of_nat (length name) :: u16)"
| "request_body (SetMetadata_Req name meta_type len data) object file_state =
     be_enc 4 (access_proto_handle object) @ be_enc 8 (object_version object) @ [meta_type] @ [len] @ be_enc 2 (word_of_nat (length name) :: u16)"
| "request_body EmptyTrash_Req object file_state =
     be_enc 4 (access_proto_handle object) @ be_enc 8 (object_version object)"
| "request_body (DeleteTrash_Req trash_id) object file_state =
     be_enc 4 (access_proto_handle object) @ be_enc 8 (object_version object) @ be_enc 8 (trash_version trash_id) @ be_enc 4 (trash_index trash_id)"
| "request_body (RestoreTrash_Req trash_id name) object file_state =
     be_enc 4 (access_proto_handle object) @ be_enc 8 (object_version object) @ be_enc 8 (trash_version trash_id) @ be_enc 4 (trash_index trash_id) @ be_enc 2 (word_of_nat (length (restore_name name)) :: u16)"
| "request_body GetSpace_Req object file_state =
     be_enc 4 (access_proto_handle object)"
| "request_body GetNotify_Req object file_state =
     be_enc 4 (access_proto_handle object)"
| "request_body (SetNotify_Req notify_mask) object file_state =
     be_enc 4 (access_proto_handle object) @ be_enc 8 notify_mask"
| "request_body (OpenFile_Req name flags attrs) object file_state =
     replicate 8 0 @ be_enc 8 (file_origin file_state) @ be_enc 4 (access_proto_handle object) @ be_enc 4 flags @ be_enc 4 attrs @ be_enc 2 (word_of_nat (length name) :: u16)"
| "request_body ReleaseFile_Req object file_state =
     be_enc 8 (file_origin file_state) @ be_enc 4 (file_server_handle file_state)"
| "request_body CloseFile_Req object file_state =
     be_enc 8 (file_origin file_state) @ be_enc 4 (file_server_handle file_state)"
| "request_body (ReadFile_Req offset len) object file_state =
     be_enc 8 (file_origin file_state) @ be_enc 8 offset @ be_enc 4 (file_server_handle file_state) @ be_enc 4 len"
| "request_body (WriteFile_Req offset len buf) object file_state =
     be_enc 8 (file_origin file_state) @ be_enc 8 offset @ be_enc 4 (file_server_handle file_state) @ be_enc 4 len"
| "request_body (TruncateFile_Req offset) object file_state =
     be_enc 8 (file_origin file_state) @ be_enc 8 offset @ be_enc 4 (file_server_handle file_state)"
| "request_body (ChmodFile_Req attrs attrs_mask) object file_state =
     be_enc 8 (file_origin file_state) @ be_enc 4 attrs @ be_enc 4 attrs_mask @ be_enc 4 (file_server_handle file_state)"
| "request_body (SetLock_Req lock_mask) object file_state =
     be_enc 8 lock_mask @ be_enc 4 (access_proto_handle object) @ be_enc 4 (file_server_handle file_state)"
| "request_body GetLock_Req object file_state =
     be_enc 4 (access_proto_handle object) @ be_enc 4 (file_server_handle file_state)"
| "request_body (SetLockRange_Req br_lock flags) object file_state =
     be_enc 8 (file_origin file_state) @ be_enc 8 (lock_offset br_lock) @ be_enc 8 (lock_offset br_lock + lock_length br_lock) @ be_enc 8 (lock_lock_mask br_lock) @ be_enc 4 (file_server_handle file_state) @ be_enc 4 flags"

fun request_parts :: "vss_request \<Rightarrow> buffer option \<times> nat \<times> buffer option \<times> nat" where
  "request_parts (Read_Req name offset len) = (Some name, length name, None, 0)"
| "request_parts (ReadTrash_Req trash_id name offset len) = (Some name, length name, None, 0)"
| "request_parts (Write_Req name offset len buf) = (Some name, length name, buf, unat len)"
| "request_parts (SetTimes_Req name ctime mtime) = (Some name, length name, None, 0)"
| "request_parts (SetSize_Req name len) = (Some name, length name, None, 0)"
| "request_parts (Remove_Req name) = (Some name, length name, None, 0)"
| "request_parts (Rename_Req name new_name) = (Some name, length name, Some new_name, length new_name)"
| "request_parts (Rename2_Req name new_name flags) = (Some name, length name, Some new_name, length new_name)"
| "request_parts (Copy_Req source destination) = (Some source, length source, Some destination, length destination)"
| "request_parts (CopyMatch_Req file_size signature destination) = (Some destination, length destination, None, 0)"
| "request_parts (ReadDir_Req name) = (Some name, length name, None, 0)"
| "request_parts (ReadDir2_Req name) = (Some name, length name, None, 0)"
| "request_parts (ReadTrashDir_Req trash_id name) = (Some name, length name, None, 0)"
| "request_parts (Stat_Req name) = (Some name, length name, None, 0)"
| "request_parts (Stat2_Req name) = (Some name, length name, None, 0)"
| "request_parts (StatTrash_Req trash_id name) = (Some name, length name, None, 0)"
| "request_parts (MakeDir_Req name) = (Some name, length name, None, 0)"
| "request_parts (Chmod_Req name attrs attrs_mask) = (Some name, length name, None, 0)"
| "request_parts (MakeDir2_Req name attrs) = (Some name, length name, None, 0)"
| "request_parts (SetMetadata_Req name meta_type len data) = (Some name, length name, data, unat len)"
| "request_parts (RestoreTrash_Req trash_id name) = (map_option (\<lambda>_. restore_name name) name, length (restore_name name), None, 0)"
| "request_parts (OpenFile_Req name flags attrs) = (Some name, length name, None, 0)"
| "request_parts (WriteFile_Req offset len buf) = (buf, unat len, None, 0)"
| "request_parts _ = (None, 0, None, 0)"

text \<open>A signature has the 20 bytes of a SHA-1 digest.\<close>

fun request_ok :: "vss_request \<Rightarrow> bool" where
  "request_ok (CopyMatch_Req _ signature _) \<longleftrightarrow> 20 \<le> length signature"
| "request_ok _ \<longleftrightarrow> True"

definition command_header :: "u8 \<Rightarrow> buffer" where
  "command_header command = [0, command] @ replicate 46 0"

section \<open>Filling a zeroed array\<close>

lemma set_command_header: "vss_set_command (replicate 48 0) c = Some (command_header c)"
  by (simp add: wire wr_bytes_def command_header_def)

lemma put_front [simp]:
  "length bs \<le> n \<Longrightarrow> wr_bytes (replicate n 0) 0 bs = Some (bs @ replicate (n - length bs) 0)"
  by (simp add: wr_bytes_def)

lemma put_zeros [simp]:
  "off + length bs \<le> n \<Longrightarrow>
     wr_bytes (replicate n 0) off bs = Some (replicate off 0 @ bs @ replicate (n - (off + length bs)) 0)"
  by (simp add: wr_bytes_def)

lemma put_skip [simp]:
  "length a \<le> off \<Longrightarrow> wr_bytes (a @ b) off bs = map_option (\<lambda>b'. a @ b') (wr_bytes b (off - length a) bs)"
  by (auto simp: wr_bytes_def)

lemma put_hit [simp]:
  "off + length bs \<le> n \<Longrightarrow>
     wr_bytes (replicate n 0 @ c) off bs =
       Some (replicate off 0 @ bs @ replicate (n - (off + length bs)) 0 @ c)"
  by (simp add: wr_bytes_def)

lemma put_hit_front [simp]:
  "length bs \<le> n \<Longrightarrow> wr_bytes (replicate n 0 @ c) 0 bs = Some (bs @ replicate (n - length bs) 0 @ c)"
  by (simp add: wr_bytes_def)

lemma put_skip_Cons [simp]:
  "0 < off \<Longrightarrow> wr_bytes (x # b) off bs = map_option (\<lambda>b'. x # b') (wr_bytes b (off - 1) bs)"
  using put_skip [of "[x]" off b bs] by simp

lemma put_one [simp]: "wr_bytes (x # b) 0 [y] = Some (y # b)"
  by (simp add: wr_bytes_def)

section \<open>Every request is laid out as specified\<close>

lemmas send_defs =
  VSSI_SendOpenCommand_def
  VSSI_SendCloseCommand_def
  VSSI_SendStartSetCommand_def
  VSSI_SendCommitCommand_def
  VSSI_SendDeleteCommand_def
  VSSI_SendEraseCommand_def
  VSSI_SendReadCommand_def
  VSSI_SendReadTrashCommand_def
  VSSI_SendWriteCommand_def
  VSSI_SendSetTimesCommand_def
  VSSI_SendSetSizeCommand_def
  VSSI_SendRemoveCommand_def
  VSSI_SendRenameCommand_def
  VSSI_SendRename2Command_def
  VSSI_SendCopyCommand_def
  VSSI_SendCopyMatchCommand_def
  VSSI_SendReadDirCommand_def
  VSSI_SendReadDir2Command_def
  VSSI_SendReadTrashDirCommand_def
  VSSI_SendStatCommand_def
  VSSI_SendStat2Command_def
  VSSI_SendStatTrashCommand_def
  VSSI_SendReadTrashcanCommand_def
  VSSI_SendMakeDirCommand_def
  VSSI_SendChmodCommand_def
  VSSI_SendMakeDir2Command_def
  VSSI_SendSetMetadataCommand_def
  VSSI_SendEmptyTrashCommand_def
  VSSI_SendDeleteTrashCommand_def
  VSSI_SendRestoreTrashCommand_def
  VSSI_SendGetSpaceCommand_def
  VSSI_SendGetNotifyCommand_def
  VSSI_SendSetNotifyCommand_def
  VSSI_SendOpenFileCommand_def
  VSSI_SendReleaseFileCommand_def
  VSSI_SendCloseFileCommand_def
  VSSI_SendReadFileCommand_def
  VSSI_SendWriteFileCommand_def
  VSSI_SendTruncateFileCommand_def
  VSSI_SendChmodFileCommand_def
  VSSI_SendSetLockCommand_def
  VSSI_SendGetLockCommand_def
  VSSI_SendSetLockRangeCommand_def

lemma send_request_layout:
  assumes "request_ok r" and "request_parts r = (p1, l1, p2, l2)"
  shows "send_request r object file_state =
    Some (vss_send (command_header (request_code r)) (request_body r object file_state)
            (length (request_body r object file_state)) p1 l1 p2 l2)"
  using assms
  by (cases r)
    (simp_all only: request_parts.simps prod.inject send_request.simps request_code.simps
      request_body.simps request_ok.simps send_defs,
     auto simp: wire vss_send_def command_header_def memcpy_at_def rd_bytes_def restore_name_def
       VPLConv_hton_u8_def VPLConv_ntoh_u8_def split: option.splits)

lemma command_header_facts:
  "length (command_header c) = 48" "vss_get_command (command_header c) = Some c"
  "rd_bytes (command_header c) 38 10 = Some (replicate 10 0)"
  by (simp_all add: command_header_def wire rd_bytes_def flip: replicate_add)

text \<open>
  C25: Every request is sent with its own command code, its fixed fields in network order at
  the places the format gives them, nothing else in the fixed part but zeros, and its variable parts
  after it with their lengths; no store leaves the request array. (A copy by match needs the 20
  bytes of its signature.)
\<close>

theorem requests_laid_out:
  assumes "request_ok r"
  shows "case request_parts r of (p1, l1, p2, l2) \<Rightarrow>
    send_request r object file_state =
      Some (vss_send (command_header (request_code r)) (request_body r object file_state)
              (length (request_body r object file_state)) p1 l1 p2 l2)"
  using send_request_layout [OF assms] by (simp split: prod.split)

definition demo_object :: VSSI_ObjectState where
  "demo_object = \<lparr>access_cluster_id = 3, access_user_id = 4, access_dataset_id = 5,
     access_proto_handle = 6, object_mode = 1, object_version = 17, object_new_version = 0,
     object_request_size = 1024\<rparr>"

definition demo_file :: VSSI_FileState where
  "demo_file = \<lparr>file_flags = 1, file_origin = 2, file_server_handle = 3\<rparr>"

theorem requests_laid_out_witness:
  "case request_parts (CopyMatch_Req 100 (replicate 20 1) [65, 66]) of (p1, l1, p2, l2) \<Rightarrow>
    send_request (CopyMatch_Req 100 (replicate 20 1) [65, 66]) demo_object demo_file =
      Some (vss_send (command_header (request_code (CopyMatch_Req 100 (replicate 20 1) [65, 66])))
              (request_body (CopyMatch_Req 100 (replicate 20 1) [65, 66]) demo_object demo_file)
              (length (request_body (CopyMatch_Req 100 (replicate 20 1) [65, 66]) demo_object demo_file))
              p1 l1 p2 l2)"
  by (rule requests_laid_out) simp

text \<open>
  C24: A request reaches its server intact. For each request and every signing and encryption
  mode, what the client builds, prepares, numbers and composes is accepted by a server that shares
  the session, which then holds the request's code, transaction id, fixed fields and variable parts.
\<close>

theorem request_delivered:
  assumes "session_ok s" and "request_ok r" and "request_parts r = (p1, l1, p2, l2)"
    and "part_ok p1 l1" and "part_ok p2 l2"
    and "body_length_ok et (length (request_body r object file_state) + l1 + l2)"
  shows "\<exists>rq msg r' m out H pad.
     send_request r object file_state = Some rq \<and>
     VSSI_PrepareMessage True dev rnd (sv_header rq) (Some (sv_fixed_data rq)) (sv_fixed_len rq)
       (sv_var_data1 rq) (sv_var_len1 rq) (sv_var_data2 rq) (sv_var_len2 rq) = Some (Some msg, r') \<and>
     vss_set_xid (msg_msg msg) xid = Some m \<and>
     VSSI_ComposeMessage True s sm st et (msg\<lparr>msg_msg := m\<rparr>) = Some (Some out) \<and>
     delivers s sm st et (wire_bytes out) H
       (sent_body et (request_body r object file_state @ part_bytes p1 l1 @ part_bytes p2 l2) pad) \<and>
     vss_get_xid H = Some xid \<and> vss_get_command H = Some (request_code r) \<and>
     vss_get_device_id H = Some dev"
proof -
  let ?h = "command_header (request_code r)" and ?b = "request_body r object file_state"
  have "part_ok (Some ?b) (length ?b)" by (simp add: part_ok_def)
  from prepare_compose_delivers [OF assms(1) command_header_facts(1) [of "request_code r"] _ this assms(4,5,6),
      where r = rnd and dev = dev and xid = xid and sm = sm and st = st]
  obtain msg r' m out H pad where
    "VSSI_PrepareMessage True dev rnd ?h (Some ?b) (length ?b) p1 l1 p2 l2 = Some (Some msg, r')"
    "vss_set_xid (msg_msg msg) xid = Some m"
    "VSSI_ComposeMessage True s sm st et (msg\<lparr>msg_msg := m\<rparr>) = Some (Some out)"
    "delivers s sm st et (wire_bytes out) H
       (sent_body et (part_bytes (Some ?b) (length ?b) @ part_bytes p1 l1 @ part_bytes p2 l2) pad)"
    "vss_get_xid H = Some xid" "vss_get_command H = vss_get_command ?h" "vss_get_device_id H = Some dev"
    by (auto simp: command_header_facts)
  moreover have "part_bytes (Some ?b) (length ?b) = ?b" by (simp add: part_bytes_def)
  ultimately show ?thesis
    using send_request_layout [OF assms(2,3), of object file_state] command_header_facts(2)
    by (simp add: vss_send_def) blast
qed

theorem request_delivered_witness:
  "\<exists>rq msg r' m out H pad.
     send_request (Write_Req [97, 98] 0 3 (Some [1, 2, 3])) demo_object demo_file = Some rq \<and>
     VSSI_PrepareMessage True 9 1 (sv_header rq) (Some (sv_fixed_data rq)) (sv_fixed_len rq)
       (sv_var_data1 rq) (sv_var_len1 rq) (sv_var_data2 rq) (sv_var_len2 rq) = Some (Some msg, r') \<and>
     vss_set_xid (msg_msg msg) 5 = Some m \<and>
     VSSI_ComposeMessage True demo_session VSS_NEGOTIATE_SIGNING_MODE_FULL
       VSS_NEGOTIATE_SIGN_TYPE_SHA1 VSS_NEGOTIATE_ENCRYPT_TYPE_AES128 (msg\<lparr>msg_msg := m\<rparr>) =
       Some (Some out) \<and>
     delivers demo_session VSS_NEGOTIATE_SIGNING_MODE_FULL VSS_NEGOTIATE_SIGN_TYPE_SHA1
       VSS_NEGOTIATE_ENCRYPT_TYPE_AES128 (wire_bytes out) H
       (sent_body VSS_NEGOTIATE_ENCRYPT_TYPE_AES128
          (request_body (Write_Req [97, 98] 0 3 (Some [1, 2, 3])) demo_object demo_file @
           part_bytes (Some [97, 98]) 2 @ part_bytes (Some [1, 2, 3]) 3) pad) \<and>
     vss_get_xid H = Some 5 \<and> vss_get_command H = Some (request_code (Write_Req [97, 98] 0 3 (Some [1, 2, 3]))) \<and>
     vss_get_device_id H = Some 9"
  by (rule request_delivered)
    (simp_all add: session_ok_def demo_session_def part_ok_def body_length_ok_def)

text \<open>
  The server reads a write request back. From the body of a write whose name has fewer
  than 65536 bytes, the accessors of the format give handle, object version, offset, length, name
  and data; a longer name's length is stored modulo 65536 while all of it is sent.
\<close>

theorem write_request_read_back:
  assumes "length name < 2 ^ 16"
    and "body = request_body (Write_Req name offset len buf) object file_state @ name @ data"
  shows "vss_write_get_handle body = Some (access_proto_handle object) \<and>
    vss_write_get_objver body = Some (object_version object) \<and>
    vss_write_get_offset body = Some offset \<and> vss_write_get_length body = Some len \<and>
    (\<exists>n. vss_write_get_name_length body = Some n \<and> unat n = length name) \<and>
    map_option (take (length name)) (vss_write_get_name body) = Some name \<and>
    vss_write_get_data body = Some data"
proof -
  have "unat (word_of_nat (length name) :: u16) = length name"
    using assms(1) by (simp add: unsigned_of_nat take_bit_nat_eq_self)
  then show ?thesis by (simp add: assms(2) wire rd_bytes_def ptr_at_def)
qed

theorem write_request_read_back_witness:
  "vss_write_get_data (request_body (Write_Req [97, 98] 0 1 None) demo_object demo_file @ [97, 98] @ [1]) = Some [1]"
  using write_request_read_back [of "[97, 98]", OF _ refl, of 0 1 None demo_object demo_file "[1]"] by simp


section \<open>Sending all of a buffer\<close>

text \<open>The socket sends no more than it was asked to.\<close>

fun turns_ok :: "send_turn list \<Rightarrow> int \<Rightarrow> bool" where
  "turns_ok [] todo \<longleftrightarrow> True"
| "turns_ok (t # ts) todo \<longleftrightarrow>
     turn_send t \<le> todo \<and> turns_ok ts (if turn_send t > 0 then todo - turn_send t else todo)"

lemma VSSI_Sendall_prefix:
  assumes "VSSI_Sendall ts msg len rv = Some (w, r, rest)" and "turns_ok ts (len - rv)"
    and "0 \<le> rv" and "rv < len" and "len \<le> int (length msg)"
  shows "\<exists>n. int n \<le> len - rv \<and> w = take n (drop (nat rv) msg) \<and>
    (if r = len then int n = len - rv else r \<le> 0 \<and> int n < len - rv)"
  using assms
proof (induction ts msg len rv arbitrary: w rule: VSSI_Sendall.induct)
  case (2 t ts msg len rv)
  note IH = "2.IH" and prems = "2.prems"
  let ?rc = "turn_send t"
  have le: "?rc \<le> len - rv" using prems(2) by simp
  have "0 < ?rc \<and> rv + ?rc < len \<or> 0 < ?rc \<and> rv + ?rc = len \<or>
      \<not> 0 < ?rc \<and> ?rc = VPL_ERR_AGAIN \<or> ?rc \<le> 0 \<and> ?rc \<noteq> VPL_ERR_AGAIN"
    using le by linarith
  then consider (go_on) "0 < ?rc" "rv + ?rc < len" | (sent) "0 < ?rc" "rv + ?rc = len"
    | (blocked) "\<not> 0 < ?rc" "?rc = VPL_ERR_AGAIN" | (failed) "?rc \<le> 0" "?rc \<noteq> VPL_ERR_AGAIN"
    by blast
  then show ?case
  proof cases
    case go_on
    then obtain w' where w': "VSSI_Sendall ts msg len (rv + ?rc) = Some (w', r, rest)"
      "w = take (nat ?rc) (drop (nat rv) msg) @ w'"
      using prems(1) by (auto simp: Let_def)
    have "turns_ok ts (len - (rv + ?rc))" using prems(2) go_on(1) by (simp add: algebra_simps)
    moreover have "0 \<le> rv + ?rc" using prems(3) go_on(1) by linarith
    ultimately obtain n where n: "int n \<le> len - (rv + ?rc)" "w' = take n (drop (nat (rv + ?rc)) msg)"
      "if r = len then int n = len - (rv + ?rc) else r \<le> 0 \<and> int n < len - (rv + ?rc)"
      using IH(1) [OF refl go_on(1) refl go_on(2) w'(1) _ _ go_on(2) prems(5)] by blast
    have "nat (rv + ?rc) = nat ?rc + nat rv" using go_on(1) prems(3) by (simp add: nat_add_distrib)
    then have "w = take (nat ?rc + n) (drop (nat rv) msg)"
      using w'(2) n(2) by (simp add: take_add)
    moreover have "int (nat ?rc + n) = ?rc + int n" using go_on(1) by simp
    ultimately show ?thesis using n(1,3)
      by (intro exI [of _ "nat ?rc + n"]) (simp split: if_splits)
  next
    case sent
    then show ?thesis using prems(1) by (intro exI [of _ "nat ?rc"]) (auto simp: Let_def)
  next
    case blocked
    show ?thesis
    proof (cases "turn_poll t < 0 \<or> \<not> turn_ready t")
      case True
      then show ?thesis using blocked prems(1,3,4)
        by (intro exI [of _ 0]) (auto simp: Let_def vssi_consts split: if_splits)
    next
      case False
      then have "VSSI_Sendall ts msg len rv = Some (w, r, rest)"
        using blocked prems(1,4) by (simp add: Let_def)
      then show ?thesis using IH(2) blocked False prems by auto
    qed
  next
    case failed
    then show ?thesis using prems(1,3,4) by (intro exI [of _ 0]) (auto simp: Let_def)
  qed
qed simp

text \<open>
  C27: \<open>VSSI_Sendall\<close> sends the bytes of the buffer once, in order. Whatever the socket does,
  what is on the wire when it returns is a prefix of the buffer, all of it exactly when the length
  is returned; any other result is zero or an error code.
\<close>

theorem sendall_sends_prefix:
  assumes "VSSI_Sendall turns msg len 0 = Some (w, r, rest)" and "turns_ok turns len"
    and "0 < len" and "len = int (length msg)"
  shows "w = take (length w) msg \<and> (if r = len then w = msg else r \<le> 0 \<and> length w < length msg)"
proof -
  have ok: "turns_ok turns (len - 0)" and le: "len \<le> int (length msg)" using assms(2,4) by simp_all
  obtain n where n: "int n \<le> len - 0" "w = take n (drop (nat 0) msg)"
    "if r = len then int n = len - 0 else r \<le> 0 \<and> int n < len - 0"
    using VSSI_Sendall_prefix [OF assms(1) ok order_refl assms(3) le] by (elim exE conjE)
  then have w: "w = take n msg" by simp
  show ?thesis
  proof (cases "r = len")
    case True
    then show ?thesis using n(3) w assms(4) by simp
  next
    case False
    then show ?thesis using n(3) w assms(4) by simp
  qed
qed

theorem sendall_sends_prefix_witness:
  "VSSI_Sendall [\<lparr>turn_send = 2, turn_poll = 0, turn_ready = True\<rparr>, \<lparr>turn_send = -9005, turn_poll = 1, turn_ready = True\<rparr>,
      \<lparr>turn_send = 1, turn_poll = 0, turn_ready = True\<rparr>] [7, 8, 9] 3 0 = Some ([7, 8, 9], 3, []) \<and>
   ([7, 8, 9] :: buffer) = take (length ([7, 8, 9] :: buffer)) [7, 8, 9]"
proof -
  let ?ts = "[\<lparr>turn_send = 2, turn_poll = 0, turn_ready = True\<rparr>, \<lparr>turn_send = -9005, turn_poll = 1, turn_ready = True\<rparr>,
      \<lparr>turn_send = 1, turn_poll = 0, turn_ready = True\<rparr>]"
  have run: "VSSI_Sendall ?ts [7, 8, 9] 3 0 = Some ([7, 8, 9], 3, [])"
    by (simp add: Let_def vssi_consts)
  have ok: "turns_ok ?ts 3" by (simp add: vssi_consts)
  have "([7, 8, 9] :: buffer) = take (length ([7, 8, 9] :: buffer)) [7, 8, 9]"
    by (rule conjunct1 [OF sendall_sends_prefix [OF run ok]]) simp_all
  then show ?thesis using run by (rule conjI [rotated])
qed

section \<open>The proxy preamble\<close>

lemma proxy_request_signed:
  assumes "session_ok s"
  shows "\<exists>H header body. proxy_request s dev dest ty port = Some (header, body) \<and>
    length H = 48 \<and> length header = 48 \<and> body = be_enc 8 dest @ be_enc 2 port @ [ty] \<and>
    vss_get_version header = Some 0 \<and> vss_get_version H = Some 0 \<and>
    vss_get_command H = Some VSS_PROXY_REQUEST \<and>
    vss_get_handle H = Some (session_handle s) \<and> vss_get_device_id H = Some dev \<and>
    wr_bytes header 38 (replicate 10 0) = Some H \<and>
    compute_hmac H 48 (session_secret s) 10 = rd_bytes header 38 10 \<and>
    compute_hmac body 11 (session_secret s) 10 = rd_bytes H 28 10"
proof -
  let ?body = "be_enc 8 dest @ be_enc 2 port @ [ty]"
  let ?h6 = "0 # 0x7e # replicate 2 0 @ be_enc 4 (0 :: u32) @ be_enc 8 dev @
      be_enc 8 (session_handle s) @ be_enc 4 (11 :: u32)"
  obtain dh where dh: "compute_hmac ?body 11 (session_secret s) 10 = Some dh" "length dh = 10"
    using compute_hmac_total [of 11 ?body "session_secret s"] assms by (auto simp: session_ok_def)
  let ?H = "?h6 @ dh @ replicate 10 0"
  obtain hh where hh: "compute_hmac ?H 48 (session_secret s) 10 = Some hh" "length hh = 10"
    using compute_hmac_total [of 48 ?H "session_secret s"] assms dh(2) by (auto simp: session_ok_def)
  let ?header = "?h6 @ dh @ hh"
  have "proxy_request s dev dest ty port = Some (?header, ?body)"
    using dh hh by (simp add: proxy_request_def wire VPLConv_hton_u8_def VPLConv_ntoh_u8_def)
  moreover have "vss_get_version ?header = Some 0" "vss_get_version ?H = Some 0"
    "vss_get_command ?H = Some VSS_PROXY_REQUEST" "vss_get_handle ?H = Some (session_handle s)"
    "vss_get_device_id ?H = Some dev" by (simp_all add: wire rd_bytes_def)
  moreover have "wr_bytes ?header 38 (replicate 10 0) = Some ?H"
    using dh(2) hh(2) by (simp add: wr_bytes_def)
  moreover have "rd_bytes ?header 38 10 = Some hh" "rd_bytes ?H 28 10 = Some dh"
    using dh(2) hh(2) by (simp_all add: rd_bytes_def)
  moreover have "length ?H = 48" "length ?header = 48" using dh(2) hh(2) by simp_all
  ultimately show ?thesis using dh(1) hh(1)
    by (intro exI [of _ ?H] exI [of _ ?header] exI [of _ ?body] conjI) (simp_all only:)
qed

text \<open>
  C28: The preamble of a proxy connection verifies. A peer that shares the session accepts
  header and body of the preamble as built, in any negotiated mode (its version, 0, is always
  signed, with the session secret), and reads the destination, port, connection type, session
  handle and device id in it.
\<close>

theorem proxy_request_accepted:
  assumes "session_ok s"
  shows "\<exists>H header body. proxy_request s dev dest ty port = Some (header, body) \<and>
    VSSI_VerifyHeader (header @ body) s sm st = Some (H @ body, VSSI_SUCCESS) \<and>
    VSSI_VerifyData tmp (H @ body) (VSS_HEADER_SIZE + VSS_PROXY_REQUEST_SIZE) s sm st et =
      Some (H @ body, VSSI_SUCCESS) \<and>
    vss_get_command H = Some VSS_PROXY_REQUEST \<and> vss_get_handle H = Some (session_handle s) \<and>
    vss_get_device_id H = Some dev \<and> vss_proxy_request_get_cluster_id body = Some dest \<and>
    vss_proxy_request_get_port body = Some port \<and> vss_proxy_request_get_type body = Some ty"
proof -
  obtain H header body where r: "proxy_request s dev dest ty port = Some (header, body)"
    "length H = 48" "length header = 48" "body = be_enc 8 dest @ be_enc 2 port @ [ty]"
    "vss_get_version header = Some 0" "vss_get_version H = Some 0"
    "vss_get_command H = Some VSS_PROXY_REQUEST" "vss_get_handle H = Some (session_handle s)"
    "vss_get_device_id H = Some dev" "wr_bytes header 38 (replicate 10 0) = Some H"
    "compute_hmac H 48 (session_secret s) 10 = rd_bytes header 38 10"
    "compute_hmac body 11 (session_secret s) 10 = rd_bytes H 28 10"
    using proxy_request_signed [OF assms, of dev dest ty port] by (elim exE conjE)
  have vh: "vss_get_version (header @ body) = Some 0" "vss_get_version (H @ body) = Some 0"
    using r(2,3,5,6) by (simp_all add: wire)
  have zero: "wr_bytes (header @ body) 38 (replicate 10 0) = Some (H @ body)"
    using r(3,10) by (simp add: wr_bytes_append)
  obtain hh where hh: "rd_bytes header 38 10 = Some hh" using r(3) by (auto simp: rd_bytes_def)
  have mac: "compute_hmac (H @ body) 48 (session_secret s) 10 = Some hh"
    using compute_hmac_prefix [of 48 H "session_secret s" body] r(2,11) hh assms
    by (simp add: session_ok_def)
  have "VSSI_VerifyHeader (header @ body) s sm st = Some (H @ body, VSSI_SUCCESS)"
    using vh(1) zero mac hh r(3) by (simp add: VSSI_VerifyHeader_def)
  moreover have len: "length body = 11" using r(4) by simp
  then have "verify_body_hmac (H @ body) (48 + 11) (session_secret s) = Some VSSI_SUCCESS"
    using verify_body_hmac_ok [of H body "session_secret s"] r(2,12) assms by (simp add: session_ok_def)
  then have "VSSI_VerifyData tmp (H @ body) (VSS_HEADER_SIZE + VSS_PROXY_REQUEST_SIZE) s sm st et =
      Some (H @ body, VSSI_SUCCESS)"
    using vh(2) by (simp add: VSSI_VerifyData_def)
  moreover have "vss_proxy_request_get_cluster_id body = Some dest"
    "vss_proxy_request_get_port body = Some port" "vss_proxy_request_get_type body = Some ty"
    by (simp_all add: r(4) wire rd_bytes_def VPLConv_ntoh_u8_def)
  ultimately show ?thesis using r(1,7,8,9) by blast
qed

theorem proxy_request_accepted_witness:
  "\<exists>H header body. proxy_request demo_session 9 3 1 443 = Some (header, body) \<and>
    VSSI_VerifyHeader (header @ body) demo_session 0 0 = Some (H @ body, VSSI_SUCCESS) \<and>
    vss_proxy_request_get_port body = Some 443"
proof -
  have "session_ok demo_session" by (simp add: session_ok_def demo_session_def)
  from proxy_request_accepted [OF this, of 9 3 1 443 0 0] show ?thesis by blast
qed

end
