(* ===== verification/Vssi_Dir.thy ===== *)
theory Vssi_Dir
  imports Vssi_Types Vssi_Request
begin

text \<open>
  Walking the listings a server sends (\<open>vssi.c\<close>, \<open>VSSI_ReadDir\<close> to \<open>VSSI_RewindTrashcan\<close>, on the
  structures of \<open>vssi_internal.h\<close> and \<open>vssi_types.h\<close>): a directory, version 1 or 2, the metadata of
  an entry, the trashcan. Each is a block of raw bytes and an offset into it; reading an entry
  decodes the bytes at the offset and moves it.

  An operation is \<open>None\<close> where the C code reads outside the raw data. A NULL handle is the handle
  \<open>None\<close>; pointers of an entry into the raw data are the suffixes that start there. An entry's
  \<open>metadata\<close> pointer is the metadata state it points to. \<open>size_t\<close> is \<open>nat\<close>: an offset exceeds the
  32-bit length of the data by less than \<open>2 ^ 18\<close>, far below \<open>2 ^ 64\<close>.
\<close>

section \<open>Entries and the states of the walks\<close>

record VSSI_Metadata =
  meta_type :: u8
  meta_length :: u8
  meta_data :: buffer

record VSSI_DirentMetadataState =
  meta_dataSize :: nat
  meta_curOffset :: nat
  meta_curEntry :: VSSI_Metadata
  meta_raw :: buffer

record VSSI_Dirent =
  de_size :: u64
  de_ctime :: u64
  de_mtime :: u64
  de_changeVer :: u64
  de_isDir :: u8
  de_signature :: buffer
  de_name :: buffer
  de_metadata :: "VSSI_DirentMetadataState option"

record VSSI_Dirent2 =
  de2_size :: u64
  de2_ctime :: u64
  de2_mtime :: u64
  de2_changeVer :: u64
  de2_attrs :: u32
  de2_isDir :: u8
  de2_signature :: buffer
  de2_name :: buffer
  de2_metadata :: "VSSI_DirentMetadataState option"

record VSSI_DirectoryState =
  dir_version :: int
  dir_raw_data :: buffer
  dir_data_len :: nat
  dir_offset :: nat
  dir_cur_entry :: VSSI_Dirent
  dir_cur_entry2 :: VSSI_Dirent2
  dir_cur_metadata :: VSSI_DirentMetadataState

record VSSI_TrashRecord =
  tr_id :: VSSI_TrashId
  tr_ctime :: u64
  tr_mtime :: u64
  tr_dtime :: u64
  tr_isDir :: u8
  tr_size :: u64
  tr_name :: buffer

record VSSI_TrashcanState =
  trash_raw_data :: buffer
  trash_data_len :: nat
  trash_offset :: nat
  trash_cur_record :: VSSI_TrashRecord

section \<open>Directories\<close>

definition read_dir_entry :: "VSSI_DirectoryState \<Rightarrow> (VSSI_Dirent \<times> VSSI_DirectoryState) option" where
  "read_dir_entry directory = do {
     entry \<leftarrow> ptr_at (dir_raw_data directory) (dir_offset directory);
     file_size \<leftarrow> vss_dirent_get_size entry;
     ctime \<leftarrow> vss_dirent_get_ctime entry;
     mtime \<leftarrow> vss_dirent_get_mtime entry;
     changeVer \<leftarrow> vss_dirent_get_change_ver entry;
     isDir \<leftarrow> vss_dirent_get_is_dir entry;
     signature \<leftarrow> vss_dirent_get_signature entry;
     name \<leftarrow> vss_dirent_get_name entry;
     meta_size \<leftarrow> vss_dirent_get_meta_size entry;
     data \<leftarrow> vss_dirent_get_metadata entry;
     name_len \<leftarrow> vss_dirent_get_name_len entry;
     let metadata = (dir_cur_metadata directory)
           \<lparr>meta_dataSize := unat meta_size, meta_curOffset := 0, meta_raw := data\<rparr>;
         cur_entry = \<lparr>de_size = file_size, de_ctime = ctime, de_mtime = mtime, de_changeVer = changeVer,
           de_isDir = isDir, de_signature = signature, de_name = name, de_metadata = Some metadata\<rparr>
     in Some (cur_entry, directory\<lparr>dir_cur_entry := cur_entry, dir_cur_metadata := metadata,
          dir_offset := dir_offset directory + VSS_DIRENT_BASE_SIZE + unat name_len + unat meta_size\<rparr>) }"

definition VSSI_ReadDir ::
  "VSSI_DirectoryState option \<Rightarrow> (VSSI_Dirent option \<times> VSSI_DirectoryState option) option" where
  "VSSI_ReadDir dir = (case dir of
     None \<Rightarrow> Some (None, dir)
   | Some directory \<Rightarrow>
       if dir_version directory \<noteq> 1 then Some (None, dir)
       else if dir_data_len directory \<le> dir_offset directory then Some (None, dir)
       else map_option (\<lambda>(entry, directory'). (Some entry, Some directory')) (read_dir_entry directory))"

definition read_dir2_entry :: "VSSI_DirectoryState \<Rightarrow> (VSSI_Dirent2 \<times> VSSI_DirectoryState) option" where
  "read_dir2_entry directory = do {
     entry \<leftarrow> ptr_at (dir_raw_data directory) (dir_offset directory);
     file_size \<leftarrow> vss_dirent2_get_size entry;
     ctime \<leftarrow> vss_dirent2_get_ctime entry;
     mtime \<leftarrow> vss_dirent2_get_mtime entry;
     changeVer \<leftarrow> vss_dirent2_get_change_ver entry;
     isDir \<leftarrow> vss_dirent2_get_is_dir entry;
     attrs \<leftarrow> vss_dirent2_get_attrs entry;
     signature \<leftarrow> vss_dirent2_get_signature entry;
     name \<leftarrow> vss_dirent2_get_name entry;
     meta_size \<leftarrow> vss_dirent2_get_meta_size entry;
     data \<leftarrow> vss_dirent2_get_metadata entry;
     name_len \<leftarrow> vss_dirent2_get_name_len entry;
     let metadata = (dir_cur_metadata directory)
           \<lparr>meta_dataSize := unat meta_size, meta_curOffset := 0, meta_raw := data\<rparr>;
         cur_entry2 = \<lparr>de2_size = file_size, de2_ctime = ctime, de2_mtime = mtime,
           de2_changeVer = changeVer, de2_attrs = attrs, de2_isDir = isDir,
           de2_signature = signature, de2_name = name, de2_metadata = Some metadata\<rparr>
     in Some (cur_entry2, directory\<lparr>dir_cur_entry2 := cur_entry2, dir_cur_metadata := metadata,
          dir_offset := dir_offset directory + VSS_DIRENT2_BASE_SIZE + unat name_len + unat meta_size\<rparr>) }"

definition VSSI_ReadDir2 ::
  "VSSI_DirectoryState option \<Rightarrow> (VSSI_Dirent2 option \<times> VSSI_DirectoryState option) option" where
  "VSSI_ReadDir2 dir = (case dir of
     None \<Rightarrow> Some (None, dir)
   | Some directory \<Rightarrow>
       if dir_version directory \<noteq> 2 then Some (None, dir)
       else if dir_data_len directory \<le> dir_offset directory then Some (None, dir)
       else map_option (\<lambda>(entry, directory'). (Some entry, Some directory')) (read_dir2_entry directory))"

definition VSSI_RewindDir :: "VSSI_DirectoryState option \<Rightarrow> VSSI_DirectoryState option" where
  "VSSI_RewindDir dir = (case dir of None \<Rightarrow> None | Some directory \<Rightarrow> Some (directory\<lparr>dir_offset := 0\<rparr>))"

definition VSSI_RewindDir2 :: "VSSI_DirectoryState option \<Rightarrow> VSSI_DirectoryState option" where
  "VSSI_RewindDir2 dir = VSSI_RewindDir dir"

section \<open>Metadata of an entry\<close>

definition read_metadata_entry ::
  "VSSI_DirentMetadataState \<Rightarrow> (VSSI_Metadata option \<times> VSSI_DirentMetadataState) option" where
  "read_metadata_entry metaState =
     (if meta_curOffset metaState < meta_dataSize metaState then do {
        entry \<leftarrow> ptr_at (meta_raw metaState) (meta_curOffset metaState);
        t \<leftarrow> vss_dirent_metadata_get_type entry;
        n \<leftarrow> vss_dirent_metadata_get_length entry;
        data \<leftarrow> vss_dirent_metadata_get_value entry;
        let rv = \<lparr>meta_type = t, meta_length = n, meta_data = data\<rparr>
        in Some (Some rv, metaState\<lparr>meta_curEntry := rv,
             meta_curOffset := meta_curOffset metaState + VSS_DIRENT_META_BASE_SIZE + unat n\<rparr>) }
      else Some (None, metaState))"

definition VSSI_ReadMetadata :: "VSSI_Dirent option \<Rightarrow> (VSSI_Metadata option \<times> VSSI_Dirent option) option" where
  "VSSI_ReadMetadata dirent = (case dirent of
     None \<Rightarrow> Some (None, dirent)
   | Some d \<Rightarrow> (case de_metadata d of
       None \<Rightarrow> Some (None, dirent)
     | Some metaState \<Rightarrow> map_option (\<lambda>(rv, metaState'). (rv, Some (d\<lparr>de_metadata := Some metaState'\<rparr>)))
         (read_metadata_entry metaState)))"

definition VSSI_RewindMetadata :: "VSSI_Dirent option \<Rightarrow> VSSI_Dirent option" where
  "VSSI_RewindMetadata dirent = (case dirent of
     None \<Rightarrow> None
   | Some d \<Rightarrow> (case de_metadata d of
       None \<Rightarrow> dirent
     | Some metaState \<Rightarrow> Some (d\<lparr>de_metadata := Some (metaState\<lparr>meta_curOffset := 0\<rparr>)\<rparr>)))"

text \<open>The search loop: entries are read until one has the type, or the metadata ends.\<close>

lemma read_metadata_entry_advances:
  "read_metadata_entry s = Some (Some m, s') \<Longrightarrow>
     meta_dataSize s' = meta_dataSize s \<and> meta_curOffset s < meta_curOffset s' \<and>
     meta_curOffset s < meta_dataSize s"
  by (auto simp: read_metadata_entry_def Let_def split: if_splits bind_splits)

function find_metadata ::
  "u8 \<Rightarrow> VSSI_DirentMetadataState \<Rightarrow> (VSSI_Metadata option \<times> VSSI_DirentMetadataState) option" where
  "find_metadata t metaState = (case read_metadata_entry metaState of
     None \<Rightarrow> None
   | Some (None, metaState') \<Rightarrow> Some (None, metaState')
   | Some (Some rv, metaState') \<Rightarrow>
       if meta_type rv = t then Some (Some rv, metaState') else find_metadata t metaState')"
  by pat_completeness auto
termination
  by (relation "measure (\<lambda>(t, s). meta_dataSize s - meta_curOffset s)")
    (auto dest: read_metadata_entry_advances)

declare find_metadata.simps [simp del]

definition VSSI_GetMetadataByType ::
  "VSSI_Dirent option \<Rightarrow> u8 \<Rightarrow> (VSSI_Metadata option \<times> VSSI_Dirent option) option" where
  "VSSI_GetMetadataByType dirent t = (case dirent of
     None \<Rightarrow> Some (None, dirent)
   | Some d \<Rightarrow> (case de_metadata d of
       None \<Rightarrow> Some (None, dirent)
     | Some metaState \<Rightarrow> (case find_metadata t metaState of
         None \<Rightarrow> None
       | Some (rv, metaState') \<Rightarrow>
           let restored = metaState'\<lparr>meta_curOffset := meta_curOffset metaState\<rparr>;
               found = (case rv of Some m \<Rightarrow> if meta_type m \<noteq> t then None else rv | None \<Rightarrow> None)
           in Some (found, Some (d\<lparr>de_metadata := Some restored\<rparr>)))))"

section \<open>The trashcan\<close>

definition read_trash_record :: "VSSI_TrashcanState \<Rightarrow> (VSSI_TrashRecord \<times> VSSI_TrashcanState) option" where
  "read_trash_record trash = do {
     record_ptr \<leftarrow> ptr_at (trash_raw_data trash) (trash_offset trash);
     version \<leftarrow> vss_trashrec_get_recver record_ptr;
     index \<leftarrow> vss_trashrec_get_recidx record_ptr;
     ctime \<leftarrow> vss_trashrec_get_ctime record_ptr;
     mtime \<leftarrow> vss_trashrec_get_mtime record_ptr;
     dtime \<leftarrow> vss_trashrec_get_dtime record_ptr;
     isDir \<leftarrow> vss_trashrec_get_is_dir record_ptr;
     file_size \<leftarrow> vss_trashrec_get_size record_ptr;
     name \<leftarrow> vss_trashrec_get_name record_ptr;
     name_len \<leftarrow> vss_trashrec_get_name_len record_ptr;
     let cur_record = \<lparr>tr_id = \<lparr>trash_version = version, trash_index = index\<rparr>, tr_ctime = ctime,
           tr_mtime = mtime, tr_dtime = dtime, tr_isDir = isDir, tr_size = file_size, tr_name = name\<rparr>
     in Some (cur_record, trash\<lparr>trash_cur_record := cur_record,
          trash_offset := trash_offset trash + VSS_TRASHREC_BASE_SIZE + unat name_len\<rparr>) }"

definition VSSI_ReadTrashcan ::
  "VSSI_TrashcanState option \<Rightarrow> (VSSI_TrashRecord option \<times> VSSI_TrashcanState option) option" where
  "VSSI_ReadTrashcan trashcan = (case trashcan of
     None \<Rightarrow> Some (None, trashcan)
   | Some trash \<Rightarrow>
       if trash_data_len trash \<le> trash_offset trash then Some (None, trashcan)
       else map_option (\<lambda>(r, trash'). (Some r, Some trash')) (read_trash_record trash))"

definition VSSI_RewindTrashcan :: "VSSI_TrashcanState option \<Rightarrow> VSSI_TrashcanState option" where
  "VSSI_RewindTrashcan trashcan = (case trashcan of
     None \<Rightarrow> None
   | Some trash \<Rightarrow> Some (trash\<lparr>trash_offset := 0\<rparr>))"

end
