(* ===== verification/Vssi_Reply.thy ===== *)
theory Vssi_Reply
  imports Vssi_Dir Vssi_Slots
begin

text \<open>
  Taking the results of a command out of its reply: \<open>VSSI_HandleErrorReply\<close> to
  \<open>VSSI_HandleGetNotifyReply\<close> of \<open>vssi_vss.c\<close>, in their order.

  A reply is the message's bytes, header first; the NULL reply is \<open>None\<close>. What a handler stores
  through its pointers is returned beside its result, unchanged where the code does not store.
  A handler is \<open>None\<close> where the code reads behind the end of the reply or writes behind the end of
  the caller's buffer. What \<open>malloc\<close> returns is an argument: the fresh state, whose fields hold
  anything, or NULL; for a block the handler fills whole, whether it was granted.
\<close>

definition reply_data :: "buffer \<Rightarrow> buffer option" where
  "reply_data reply = ptr_at reply VSS_HEADER_SIZE"

section \<open>Replies that carry a result\<close>

definition VSSI_HandleErrorReply :: "buffer option \<Rightarrow> VSSI_Result option" where
  "VSSI_HandleErrorReply reply = (case reply of None \<Rightarrow> Some VSSI_INVALID | Some r \<Rightarrow> vss_get_status r)"

definition VSSI_HandleCloseReply :: "buffer option \<Rightarrow> VSSI_ObjectState \<Rightarrow> VSSI_Result option" where
  "VSSI_HandleCloseReply reply object =
     (case reply of None \<Rightarrow> Some VSSI_INVALID | Some r \<Rightarrow> vss_get_status r)"

definition VSSI_HandleDeleteReply :: "buffer option \<Rightarrow> VSSI_Result option" where
  "VSSI_HandleDeleteReply reply = (case reply of None \<Rightarrow> Some VSSI_INVALID | Some r \<Rightarrow> vss_get_status r)"

definition VSSI_HandleTruncateFileReply :: "buffer option \<Rightarrow> VSSI_Result option" where
  "VSSI_HandleTruncateFileReply reply =
     (case reply of None \<Rightarrow> Some VSSI_INVALID | Some r \<Rightarrow> vss_get_status r)"

definition VSSI_HandleChmodFileReply :: "buffer option \<Rightarrow> VSSI_Result option" where
  "VSSI_HandleChmodFileReply reply = (case reply of None \<Rightarrow> Some VSSI_INVALID | Some r \<Rightarrow> vss_get_status r)"

definition VSSI_HandleSetFileLockReply :: "buffer option \<Rightarrow> VSSI_Result option" where
  "VSSI_HandleSetFileLockReply reply =
     (case reply of None \<Rightarrow> Some VSSI_INVALID | Some r \<Rightarrow> vss_get_status r)"

definition VSSI_HandleSetLockRangeReply :: "buffer option \<Rightarrow> VSSI_Result option" where
  "VSSI_HandleSetLockRangeReply reply =
     (case reply of None \<Rightarrow> Some VSSI_INVALID | Some r \<Rightarrow> vss_get_status r)"

section \<open>Objects\<close>

definition VSSI_HandleOpenReply ::
  "buffer option \<Rightarrow> VSSI_ObjectState \<Rightarrow> (VSSI_Result \<times> VSSI_ObjectState) option" where
  "VSSI_HandleOpenReply reply object = (case reply of
     None \<Rightarrow> Some (VSSI_INVALID, object)
   | Some r \<Rightarrow> do {
       rv \<leftarrow> vss_get_status r;
       if rv = VSSI_SUCCESS then do {
         data \<leftarrow> reply_data r;
         objver \<leftarrow> vss_open_reply_get_objver data;
         handle \<leftarrow> vss_open_reply_get_handle data;
         Some (rv, object\<lparr>object_version := objver, object_new_version := objver,
                     access_proto_handle := handle\<rparr>) }
       else Some (rv, object) })"

definition VSSI_HandleReadReply ::
  "buffer option \<Rightarrow> VSSI_ObjectState \<Rightarrow> u32 \<Rightarrow> buffer \<Rightarrow> (VSSI_Result \<times> VSSI_ObjectState \<times> u32 \<times> buffer) option" where
  "VSSI_HandleReadReply reply object len buf = (case reply of
     None \<Rightarrow> Some (VSSI_INVALID, object, len, buf)
   | Some r \<Rightarrow> do {
       data \<leftarrow> reply_data r;
       rv \<leftarrow> vss_get_status r;
       (len', buf') \<leftarrow> (if rv = VSSI_SUCCESS then do {
            n \<leftarrow> vss_read_reply_get_length data;
            src \<leftarrow> vss_read_reply_get_data data;
            buf' \<leftarrow> memcpy_at buf 0 src (unat n);
            Some (n, buf') }
          else Some (len, buf));
       objver \<leftarrow> vss_read_reply_get_objver data;
       Some (rv, object\<lparr>object_new_version := objver\<rparr>, len', buf') })"

definition VSSI_HandleWriteReply ::
  "buffer option \<Rightarrow> VSSI_ObjectState \<Rightarrow> u32 \<Rightarrow> (VSSI_Result \<times> VSSI_ObjectState \<times> u32) option" where
  "VSSI_HandleWriteReply reply object len = (case reply of
     None \<Rightarrow> Some (VSSI_INVALID, object, len)
   | Some r \<Rightarrow> do {
       data \<leftarrow> reply_data r;
       rv \<leftarrow> vss_get_status r;
       len' \<leftarrow> (if rv = VSSI_SUCCESS then vss_write_reply_get_length data else Some len);
       objver \<leftarrow> vss_write_reply_get_objver data;
       Some (rv, object\<lparr>object_new_version := objver\<rparr>, len') })"

definition VSSI_HandleVersionReply ::
  "buffer option \<Rightarrow> VSSI_ObjectState \<Rightarrow> (VSSI_Result \<times> VSSI_ObjectState) option" where
  "VSSI_HandleVersionReply reply object = (case reply of
     None \<Rightarrow> Some (VSSI_INVALID, object)
   | Some r \<Rightarrow> do {
       data \<leftarrow> reply_data r;
       rv \<leftarrow> vss_get_status r;
       objver \<leftarrow> vss_version_reply_get_objver data;
       let object' = object\<lparr>object_new_version := objver\<rparr>
       in Some (rv, if rv = VSSI_SUCCESS then object'\<lparr>object_version := object_new_version object'\<rparr> else object') })"

section \<open>Listings and stats\<close>

definition VSSI_HandleReadDirReply ::
  "VSSI_DirectoryState option \<Rightarrow> bool \<Rightarrow> buffer option \<Rightarrow> VSSI_ObjectState \<Rightarrow> VSSI_DirectoryState option \<Rightarrow> int \<Rightarrow>
     (VSSI_Result \<times> VSSI_ObjectState \<times> VSSI_DirectoryState option) option" where
  "VSSI_HandleReadDirReply malloc_state malloc_data reply object directory version = (case reply of
     None \<Rightarrow> Some (VSSI_INVALID, object, directory)
   | Some r \<Rightarrow> do {
       data \<leftarrow> reply_data r;
       rv \<leftarrow> vss_get_status r;
       if rv = VSSI_SUCCESS then (case malloc_state of
           None \<Rightarrow> Some (VSSI_NOMEM, object, directory)
         | Some dir \<Rightarrow> do {
             data_len \<leftarrow> vss_read_dir_reply_get_length data;
             if \<not> malloc_data then Some (VSSI_NOMEM, object, directory)
             else do {
               src \<leftarrow> vss_read_dir_reply_get_data data;
               raw \<leftarrow> rd_bytes src 0 (unat data_len);
               objver \<leftarrow> vss_read_dir_reply_get_objver data;
               Some (rv, object\<lparr>object_new_version := objver\<rparr>,
                 Some (dir\<lparr>dir_version := version, dir_data_len := unat data_len,
                   dir_raw_data := raw, dir_offset := 0\<rparr>)) } })
       else do {
         objver \<leftarrow> vss_read_dir_reply_get_objver data;
         Some (rv, object\<lparr>object_new_version := objver\<rparr>, directory) } })"

definition stat_entry :: "VSSI_DirentMetadataState \<Rightarrow> buffer \<Rightarrow> VSSI_Dirent option" where
  "stat_entry metadata entryData = do {
     name_len \<leftarrow> vss_dirent_get_name_len entryData;
     meta_size \<leftarrow> vss_dirent_get_meta_size entryData;
     file_size \<leftarrow> vss_dirent_get_size entryData;
     ctime \<leftarrow> vss_dirent_get_ctime entryData;
     mtime \<leftarrow> vss_dirent_get_mtime entryData;
     changeVer \<leftarrow> vss_dirent_get_change_ver entryData;
     isDir \<leftarrow> vss_dirent_get_is_dir entryData;
     sig_ptr \<leftarrow> vss_dirent_get_signature entryData;
     signature \<leftarrow> rd_bytes sig_ptr 0 VSS_DIRENT_SIGNATURE_SIZE;
     name_ptr \<leftarrow> vss_dirent_get_name entryData;
     name \<leftarrow> rd_bytes name_ptr 0 (unat name_len);
     meta_ptr \<leftarrow> vss_dirent_get_metadata entryData;
     data \<leftarrow> rd_bytes meta_ptr 0 (unat meta_size);
     Some \<lparr>de_size = file_size, de_ctime = ctime, de_mtime = mtime, de_changeVer = changeVer,
       de_isDir = isDir, de_signature = signature, de_name = name,
       de_metadata = Some (metadata\<lparr>meta_dataSize := unat meta_size, meta_curOffset := 0, meta_raw := data\<rparr>)\<rparr> }"

definition VSSI_HandleStatReply ::
  "VSSI_DirentMetadataState option \<Rightarrow> buffer option \<Rightarrow> VSSI_ObjectState \<Rightarrow> VSSI_Dirent option \<Rightarrow>
     (VSSI_Result \<times> VSSI_ObjectState \<times> VSSI_Dirent option) option" where
  "VSSI_HandleStatReply malloc_stats reply object stats = (case reply of
     None \<Rightarrow> Some (VSSI_INVALID, object, stats)
   | Some r \<Rightarrow> do {
       data \<leftarrow> reply_data r;
       rv \<leftarrow> vss_get_status r;
       if rv = VSSI_SUCCESS then do {
         entryData \<leftarrow> vss_read_dir_reply_get_data data;
         name_len \<leftarrow> vss_dirent_get_name_len entryData;
         meta_size \<leftarrow> vss_dirent_get_meta_size entryData;
         case malloc_stats of
           None \<Rightarrow> Some (VSSI_NOMEM, object, None)
         | Some metadata \<Rightarrow> do {
             entry \<leftarrow> stat_entry metadata entryData;
             objver \<leftarrow> vss_read_dir_reply_get_objver data;
             Some (rv, object\<lparr>object_new_version := objver\<rparr>, Some entry) } }
       else do {
         objver \<leftarrow> vss_read_dir_reply_get_objver data;
         Some (rv, object\<lparr>object_new_version := objver\<rparr>, stats) } })"

definition stat2_entry :: "VSSI_DirentMetadataState \<Rightarrow> buffer \<Rightarrow> VSSI_Dirent2 option" where
  "stat2_entry metadata entryData = do {
     name_len \<leftarrow> vss_dirent2_get_name_len entryData;
     meta_size \<leftarrow> vss_dirent2_get_meta_size entryData;
     file_size \<leftarrow> vss_dirent2_get_size entryData;
     ctime \<leftarrow> vss_dirent2_get_ctime entryData;
     mtime \<leftarrow> vss_dirent2_get_mtime entryData;
     changeVer \<leftarrow> vss_dirent2_get_change_ver entryData;
     isDir \<leftarrow> vss_dirent2_get_is_dir entryData;
     attrs \<leftarrow> vss_dirent2_get_attrs entryData;
     sig_ptr \<leftarrow> vss_dirent2_get_signature entryData;
     signature \<leftarrow> rd_bytes sig_ptr 0 VSS_DIRENT2_SIGNATURE_SIZE;
     name_ptr \<leftarrow> vss_dirent2_get_name entryData;
     name \<leftarrow> rd_bytes name_ptr 0 (unat name_len);
     meta_ptr \<leftarrow> vss_dirent2_get_metadata entryData;
     data \<leftarrow> rd_bytes meta_ptr 0 (unat meta_size);
     Some \<lparr>de2_size = file_size, de2_ctime = ctime, de2_mtime = mtime, de2_changeVer = changeVer,
       de2_attrs = attrs, de2_isDir = isDir, de2_signature = signature, de2_name = name,
       de2_metadata = Some (metadata\<lparr>meta_dataSize := unat meta_size, meta_curOffset := 0, meta_raw := data\<rparr>)\<rparr> }"

definition VSSI_HandleStat2Reply ::
  "VSSI_DirentMetadataState option \<Rightarrow> buffer option \<Rightarrow> VSSI_ObjectState \<Rightarrow> VSSI_Dirent2 option \<Rightarrow>
     (VSSI_Result \<times> VSSI_ObjectState \<times> VSSI_Dirent2 option) option" where
  "VSSI_HandleStat2Reply malloc_stats reply object stats = (case reply of
     None \<Rightarrow> Some (VSSI_INVALID, object, stats)
   | Some r \<Rightarrow> do {
       data \<leftarrow> reply_data r;
       rv \<leftarrow> vss_get_status r;
       if rv = VSSI_SUCCESS then do {
         entryData \<leftarrow> vss_read_dir_reply_get_data data;
         name_len \<leftarrow> vss_dirent2_get_name_len entryData;
         meta_size \<leftarrow> vss_dirent2_get_meta_size entryData;
         case malloc_stats of
           None \<Rightarrow> Some (VSSI_NOMEM, object, None)
         | Some metadata \<Rightarrow> do {
             entry \<leftarrow> stat2_entry metadata entryData;
             objver \<leftarrow> vss_read_dir_reply_get_objver data;
             Some (rv, object\<lparr>object_new_version := objver\<rparr>, Some entry) } }
       else do {
         objver \<leftarrow> vss_read_dir_reply_get_objver data;
         Some (rv, object\<lparr>object_new_version := objver\<rparr>, stats) } })"

definition VSSI_HandleReadTrashcanReply ::
  "VSSI_TrashcanState option \<Rightarrow> bool \<Rightarrow> buffer option \<Rightarrow> VSSI_ObjectState \<Rightarrow> VSSI_TrashcanState option \<Rightarrow>
     (VSSI_Result \<times> VSSI_ObjectState \<times> VSSI_TrashcanState option) option" where
  "VSSI_HandleReadTrashcanReply malloc_state malloc_data reply object trashcan = (case reply of
     None \<Rightarrow> Some (VSSI_INVALID, object, trashcan)
   | Some r \<Rightarrow> do {
       data \<leftarrow> reply_data r;
       rv \<leftarrow> vss_get_status r;
       if rv = VSSI_SUCCESS then (case malloc_state of
           None \<Rightarrow> Some (VSSI_NOMEM, object, trashcan)
         | Some trash \<Rightarrow> do {
             data_len \<leftarrow> vss_read_dir_reply_get_length data;
             if \<not> malloc_data then Some (VSSI_NOMEM, object, trashcan)
             else do {
               src \<leftarrow> vss_read_dir_reply_get_data data;
               raw \<leftarrow> rd_bytes src 0 (unat data_len);
               objver \<leftarrow> vss_read_dir_reply_get_objver data;
               Some (rv, object\<lparr>object_new_version := objver\<rparr>,
                 Some (trash\<lparr>trash_data_len := unat data_len, trash_raw_data := raw,
                   trash_offset := 0\<rparr>)) } })
       else do {
         objver \<leftarrow> vss_read_dir_reply_get_objver data;
         Some (rv, object\<lparr>object_new_version := objver\<rparr>, trashcan) } })"

definition VSSI_HandleGetSpaceReply ::
  "buffer option \<Rightarrow> VSSI_ObjectState \<Rightarrow> u64 \<Rightarrow> u64 \<Rightarrow> u64 \<Rightarrow> (VSSI_Result \<times> u64 \<times> u64 \<times> u64) option" where
  "VSSI_HandleGetSpaceReply reply object disk_size dataset_size avail_size = (case reply of
     None \<Rightarrow> Some (VSSI_INVALID, disk_size, dataset_size, avail_size)
   | Some r \<Rightarrow> do {
       data \<leftarrow> reply_data r;
       rv \<leftarrow> vss_get_status r;
       if rv = VSSI_SUCCESS then do {
         disk_size' \<leftarrow> vss_get_space_reply_get_disk_size data;
         dataset_size' \<leftarrow> vss_get_space_reply_get_dataset_size data;
         avail_size' \<leftarrow> vss_get_space_reply_get_avail_size data;
         Some (rv, disk_size', dataset_size', avail_size') }
       else Some (rv, disk_size, dataset_size, avail_size) })"

section \<open>Files\<close>

text \<open>The object of a file is \<open>file_state->object\<close>, possibly NULL.\<close>

definition VSSI_HandleOpenFileReply ::
  "buffer option \<Rightarrow> VSSI_FileState \<Rightarrow> VSSI_ObjectState option \<Rightarrow>
     (VSSI_Result \<times> VSSI_FileState \<times> VSSI_ObjectState option) option" where
  "VSSI_HandleOpenFileReply reply file_state file_object = (case reply of
     None \<Rightarrow> Some (VSSI_INVALID, file_state, file_object)
   | Some r \<Rightarrow> do {
       rv \<leftarrow> vss_get_status r;
       if rv = VSSI_SUCCESS \<or> rv = VSSI_EXISTS then do {
         data \<leftarrow> reply_data r;
         case file_object of
           None \<Rightarrow> Some (VSSI_INVALID, file_state, file_object)
         | Some object \<Rightarrow> do {
             objver \<leftarrow> vss_open_file_reply_get_objver data;
             handle \<leftarrow> vss_open_file_reply_get_handle data;
             Some (rv, file_state\<lparr>file_server_handle := handle\<rparr>,
               Some (object\<lparr>object_version := objver, object_new_version := objver\<rparr>)) } }
       else Some (rv, file_state, file_object) })"

definition VSSI_HandleCloseFileReply ::
  "buffer option \<Rightarrow> VSSI_ObjectState \<Rightarrow> int \<Rightarrow>
     (VSSI_Result \<times> VSSI_ObjectState \<times> int) option" where
  "VSSI_HandleCloseFileReply reply object delete_filestate_when = (case reply of
     None \<Rightarrow> Some (VSSI_INVALID, object, delete_filestate_when)
   | Some r \<Rightarrow> do {
       data \<leftarrow> reply_data r;
       rv \<leftarrow> vss_get_status r;
       objver \<leftarrow> vss_version_reply_get_objver data;
       let object' = object\<lparr>object_new_version := objver\<rparr>
       in Some (rv, if rv = VSSI_SUCCESS then object'\<lparr>object_version := object_new_version object'\<rparr> else object',
            DELETE_ALWAYS) })"

definition VSSI_HandleReadFileReply :: "buffer option \<Rightarrow> u32 \<Rightarrow> buffer \<Rightarrow> (VSSI_Result \<times> u32 \<times> buffer) option" where
  "VSSI_HandleReadFileReply reply len buf = (case reply of
     None \<Rightarrow> Some (VSSI_INVALID, len, buf)
   | Some r \<Rightarrow> do {
       rv \<leftarrow> vss_get_status r;
       if rv = VSSI_SUCCESS then do {
         data \<leftarrow> reply_data r;
         n \<leftarrow> vss_read_file_reply_get_length data;
         src \<leftarrow> vss_read_file_reply_get_data data;
         buf' \<leftarrow> memcpy_at buf 0 src (unat n);
         Some (rv, n, buf') }
       else Some (rv, len, buf) })"

definition VSSI_HandleWriteFileReply :: "buffer option \<Rightarrow> u32 \<Rightarrow> (VSSI_Result \<times> u32) option" where
  "VSSI_HandleWriteFileReply reply len = (case reply of
     None \<Rightarrow> Some (VSSI_INVALID, len)
   | Some r \<Rightarrow> do {
       rv \<leftarrow> vss_get_status r;
       if rv = VSSI_SUCCESS then do {
         data \<leftarrow> reply_data r;
         n \<leftarrow> vss_write_file_reply_get_length data;
         Some (rv, n) }
       else Some (rv, len) })"

text \<open>The last pointers may be NULL: the caller's variable is then \<open>None\<close>.\<close>

definition VSSI_HandleGetFileLockReply :: "buffer option \<Rightarrow> u64 option \<Rightarrow> (VSSI_Result \<times> u64 option) option" where
  "VSSI_HandleGetFileLockReply reply lock_state = (case reply of
     None \<Rightarrow> Some (VSSI_INVALID, lock_state)
   | Some r \<Rightarrow> do {
       data \<leftarrow> reply_data r;
       rv \<leftarrow> vss_get_status r;
       if rv = VSSI_SUCCESS then do {
         mode \<leftarrow> vss_get_lock_reply_get_mode data;
         Some (rv, map_option (\<lambda>_. mode) lock_state) }
       else Some (rv, lock_state) })"

definition VSSI_HandleGetNotifyReply :: "buffer option \<Rightarrow> u64 option \<Rightarrow> (VSSI_Result \<times> u64 option) option" where
  "VSSI_HandleGetNotifyReply reply mask_out = do {
     (rv, notify_mask) \<leftarrow> (case reply of
         None \<Rightarrow> Some (VSSI_INVALID, 0)
       | Some r \<Rightarrow> do {
           data \<leftarrow> reply_data r;
           rv \<leftarrow> vss_get_status r;
           if rv = VSSI_SUCCESS then do {
             mode \<leftarrow> vss_get_notify_reply_get_mode data;
             Some (rv, mode) }
           else Some (rv, 0) });
     Some (rv, map_option (\<lambda>_. notify_mask) mask_out) }"

end
