(* ===== verification/Vssi_Dir_Correct.thy ===== *)
theory Vssi_Dir_Correct
  imports Vssi_Dir
begin

text \<open>
  What a listing holds and what a walk over it shows. A listing is the sequence of its entries'
  encodings (\<open>dirent_bytes\<close>, \<open>dirent2_bytes\<close>, \<open>meta_bytes\<close>, \<open>trash_bytes\<close>); the contract of a walk
  over it is the locale \<open>wire_cursor\<close>, which the four walks of \<open>Vssi_Dir\<close> interpret.
\<close>

section \<open>Listings as data\<close>

type_synonym meta_entry = "u8 \<times> buffer"

record dir_entry =
  ent_size :: u64
  ent_ctime :: u64
  ent_mtime :: u64
  ent_changeVer :: u64
  ent_attrs :: u32
  ent_isDir :: u8
  ent_signature :: buffer
  ent_name :: buffer
  ent_metadata :: "meta_entry list"

record trash_entry =
  tre_id :: VSSI_TrashId
  tre_size :: u64
  tre_ctime :: u64
  tre_mtime :: u64
  tre_dtime :: u64
  tre_isDir :: u8
  tre_name :: buffer

definition meta_entry_bytes :: "meta_entry \<Rightarrow> buffer" where
  "meta_entry_bytes m = fst m # word_of_nat (length (snd m)) # snd m"

definition meta_bytes :: "meta_entry list \<Rightarrow> buffer" where
  "meta_bytes ms = concat (map meta_entry_bytes ms)"

definition dirent_bytes :: "dir_entry \<Rightarrow> buffer" where
  "dirent_bytes e =
     be_enc 8 (ent_size e) @ be_enc 8 (ent_ctime e) @ be_enc 8 (ent_mtime e) @
     be_enc 8 (ent_changeVer e) @ ent_signature e @ [ent_isDir e] @ [0] @
     be_enc 2 (word_of_nat (length (meta_bytes (ent_metadata e))) :: u16) @
     be_enc 2 (word_of_nat (length (ent_name e)) :: u16) @ ent_name e @ meta_bytes (ent_metadata e)"

definition dirent2_bytes :: "dir_entry \<Rightarrow> buffer" where
  "dirent2_bytes e =
     be_enc 8 (ent_size e) @ be_enc 8 (ent_ctime e) @ be_enc 8 (ent_mtime e) @
     be_enc 8 (ent_changeVer e) @ ent_signature e @ be_enc 4 (ent_attrs e) @ [ent_isDir e] @ [0] @
     be_enc 2 (word_of_nat (length (meta_bytes (ent_metadata e))) :: u16) @
     be_enc 2 (word_of_nat (length (ent_name e)) :: u16) @ ent_name e @ meta_bytes (ent_metadata e)"

definition trash_bytes :: "trash_entry \<Rightarrow> buffer" where
  "trash_bytes e =
     be_enc 8 (trash_version (tre_id e)) @ be_enc 4 (trash_index (tre_id e)) @
     be_enc 8 (tre_size e) @ be_enc 8 (tre_ctime e) @ be_enc 8 (tre_mtime e) @
     be_enc 8 (tre_dtime e) @ [tre_isDir e] @ [0] @
     be_enc 2 (word_of_nat (length (tre_name e)) :: u16) @ tre_name e"

definition meta_ok :: "meta_entry \<Rightarrow> bool" where
  "meta_ok m \<longleftrightarrow> length (snd m) < 256"

definition entry_ok :: "dir_entry \<Rightarrow> bool" where
  "entry_ok e \<longleftrightarrow> length (ent_signature e) = 20 \<and> length (ent_name e) < 65536 \<and>
     list_all meta_ok (ent_metadata e) \<and> length (meta_bytes (ent_metadata e)) < 65536"

definition trash_ok :: "trash_entry \<Rightarrow> bool" where
  "trash_ok e \<longleftrightarrow> length (tre_name e) < 65536"

section \<open>The contract of a walk\<close>

text \<open>Reading at most \<open>n\<close> entries, until the walk is at its end.\<close>

fun drain :: "('s \<Rightarrow> ('v option \<times> 's) option) \<Rightarrow> nat \<Rightarrow> 's \<Rightarrow> ('v list \<times> 's) option" where
  "drain step 0 s = Some ([], s)"
| "drain step (Suc n) s = (case step s of
     None \<Rightarrow> None
   | Some (None, s') \<Rightarrow> Some ([], s')
   | Some (Some v, s') \<Rightarrow> map_option (\<lambda>(vs, s''). (v # vs, s'')) (drain step n s'))"

text \<open>From \<open>s\<close> the entries \<open>es\<close> are handed out, each once and in order; then, at \<open>s'\<close>, the end.\<close>

definition hands_out ::
  "('s \<Rightarrow> ('v option \<times> 's) option) \<Rightarrow> ('e \<Rightarrow> 'v \<Rightarrow> bool) \<Rightarrow> 'e list \<Rightarrow> 's \<Rightarrow> 's \<Rightarrow> bool" where
  "hands_out step shown es s s' \<longleftrightarrow>
     (\<exists>vs. drain step (length es) s = Some (vs, s') \<and> list_all2 shown es vs \<and> step s' = Some (None, s'))"

locale wire_cursor =
  fixes step :: "'s \<Rightarrow> ('v option \<times> 's) option"
    and rewind :: "'s \<Rightarrow> 's"
    and holds :: "'s \<Rightarrow> 'e list \<Rightarrow> 'e list \<Rightarrow> bool"
    and shows_entry :: "'e \<Rightarrow> 'v \<Rightarrow> bool"
  assumes step_end: "holds s es [] \<Longrightarrow> step s = Some (None, s)"
    and step_entry: "holds s es (e # rs) \<Longrightarrow>
      \<exists>v s'. step s = Some (Some v, s') \<and> shows_entry e v \<and> holds s' es rs"
    and rewind_all: "holds s es rs \<Longrightarrow> holds (rewind s) es es"
begin

lemma drain_all:
  "holds s es rs \<Longrightarrow> length rs \<le> n \<Longrightarrow>
     \<exists>vs s'. drain step n s = Some (vs, s') \<and> list_all2 shows_entry rs vs \<and> holds s' es []"
proof (induction n arbitrary: s rs)
  case 0
  then show ?case by simp
next
  case (Suc n)
  show ?case
  proof (cases rs)
    case Nil
    then show ?thesis using Suc.prems step_end by simp
  next
    case (Cons e rs')
    with Suc.prems obtain v s' where s': "step s = Some (Some v, s')" "shows_entry e v" "holds s' es rs'"
      using step_entry by blast
    with Suc.IH [of s' rs'] Suc.prems Cons show ?thesis by (auto simp: Cons)
  qed
qed

text \<open>A whole walk, and another after a rewind.\<close>

lemma walk:
  assumes "holds s es es"
  shows "\<exists>s'. hands_out step shows_entry es s s' \<and> (\<exists>s''. hands_out step shows_entry es (rewind s') s'')"
proof -
  have all: "\<exists>s'. hands_out step shows_entry es s s' \<and> holds s' es []" if "holds s es es" for s
    using drain_all [OF that order.refl] step_end by (fastforce simp: hands_out_def)
  then show ?thesis using assms rewind_all by blast
qed

end

section \<open>Metadata\<close>

definition meta_holds :: "VSSI_DirentMetadataState \<Rightarrow> meta_entry list \<Rightarrow> meta_entry list \<Rightarrow> bool" where
  "meta_holds s ms rs \<longleftrightarrow> list_all meta_ok ms \<and> meta_dataSize s = length (meta_bytes ms) \<and>
     take (meta_dataSize s) (meta_raw s) = meta_bytes ms \<and>
     (\<exists>ps. ms = ps @ rs \<and> meta_curOffset s = length (meta_bytes ps))"

definition meta_shown :: "meta_entry \<Rightarrow> VSSI_Metadata \<Rightarrow> bool" where
  "meta_shown m v \<longleftrightarrow> meta_type v = fst m \<and> unat (meta_length v) = length (snd m) \<and>
     take (length (snd m)) (meta_data v) = snd m"

lemma unat_of_nat_u8: "n < 256 \<Longrightarrow> unat (word_of_nat n :: u8) = n"
  by (simp add: unsigned_of_nat take_bit_nat_eq_self)

lemma unat_of_nat_u16: "n < 65536 \<Longrightarrow> unat (word_of_nat n :: u16) = n"
  by (simp add: unsigned_of_nat take_bit_nat_eq_self)

lemma meta_bytes_simps [simp]:
  "meta_bytes [] = []" "meta_bytes (m # ms) = meta_entry_bytes m @ meta_bytes ms"
  "meta_bytes (ms @ ms') = meta_bytes ms @ meta_bytes ms'"
  by (simp_all add: meta_bytes_def)

lemma length_meta_entry_bytes [simp]: "length (meta_entry_bytes m) = 2 + length (snd m)"
  by (simp add: meta_entry_bytes_def)

lemma ptr_at_append [simp]: "ptr_at (b @ c) (length b) = Some c"
  by (simp add: ptr_at_def)

text \<open>The bytes behind a pointer into a listing that is a prefix of its buffer.\<close>

lemma ptr_at_take:
  assumes "take n raw = xs @ ys" and "n = length xs + length ys"
  shows "\<exists>rest. ptr_at raw (length xs) = Some (ys @ rest)"
proof -
  have "raw = xs @ ys @ drop n raw"
    using assms by (metis append_assoc append_take_drop_id)
  then show ?thesis by (metis ptr_at_append)
qed

lemma read_meta_shown:
  "meta_ok m \<Longrightarrow> vss_dirent_metadata_get_type (meta_entry_bytes m @ rest) = Some (fst m) \<and>
     vss_dirent_metadata_get_length (meta_entry_bytes m @ rest) = Some (word_of_nat (length (snd m))) \<and>
     vss_dirent_metadata_get_value (meta_entry_bytes m @ rest) = Some (snd m @ rest)"
  by (simp add: wire meta_entry_bytes_def rd_bytes_def ptr_at_def VPLConv_ntoh_u8_def)

lemma read_metadata_entry_shows:
  assumes "meta_holds s ms (m # rs)"
  shows "\<exists>v s'. read_metadata_entry s = Some (Some v, s') \<and> meta_shown m v \<and> meta_holds s' ms rs \<and>
           meta_raw s' = meta_raw s \<and> meta_dataSize s' = meta_dataSize s"
proof -
  obtain ps where ps: "ms = ps @ m # rs" "meta_curOffset s = length (meta_bytes ps)"
    and raw: "take (meta_dataSize s) (meta_raw s) = meta_bytes ms"
      "meta_dataSize s = length (meta_bytes ms)" and ok: "list_all meta_ok ms"
    using assms by (auto simp: meta_holds_def)
  obtain rest where rest: "ptr_at (meta_raw s) (meta_curOffset s) = Some (meta_entry_bytes m @ rest)"
    using ptr_at_take [of "meta_dataSize s" "meta_raw s" "meta_bytes ps" "meta_bytes (m # rs)"] ps raw
    by auto
  have m: "meta_ok m" using ok ps by simp
  have len: "unat (word_of_nat (length (snd m)) :: u8) = length (snd m)"
    using m by (simp add: meta_ok_def unat_of_nat_u8)
  define v where "v = \<lparr>meta_type = fst m, meta_length = word_of_nat (length (snd m)), meta_data = snd m @ rest\<rparr>"
  define s' where "s' = s\<lparr>meta_curEntry := v, meta_curOffset := meta_curOffset s + 2 + length (snd m)\<rparr>"
  have "meta_curOffset s < meta_dataSize s"
    using ps raw by simp
  then have "read_metadata_entry s = Some (Some v, s')"
    using read_meta_shown [OF m, of rest]
    by (simp add: read_metadata_entry_def rest len v_def s'_def Let_def)
  moreover have "meta_shown m v"
    by (simp add: meta_shown_def v_def len)
  moreover have "meta_holds s' ms rs"
    using ps raw ok by (auto simp: meta_holds_def s'_def intro!: exI [of _ "ps @ [m]"])
  ultimately show ?thesis by (auto simp: s'_def)
qed

lemma read_metadata_entry_end:
  "meta_holds s ms [] \<Longrightarrow> read_metadata_entry s = Some (None, s)"
  by (auto simp: meta_holds_def read_metadata_entry_def)

interpretation metadata_walk: wire_cursor read_metadata_entry "\<lambda>s. s\<lparr>meta_curOffset := 0\<rparr>"
  meta_holds meta_shown
proof
  show "meta_holds s ms [] \<Longrightarrow> read_metadata_entry s = Some (None, s)" for s ms
    by (rule read_metadata_entry_end)
  show "meta_holds s ms (m # rs) \<Longrightarrow>
      \<exists>v s'. read_metadata_entry s = Some (Some v, s') \<and> meta_shown m v \<and> meta_holds s' ms rs" for s ms m rs
    using read_metadata_entry_shows by blast
  show "meta_holds s ms rs \<Longrightarrow> meta_holds (s\<lparr>meta_curOffset := 0\<rparr>) ms ms" for s ms rs
    by (auto simp: meta_holds_def)
qed


section \<open>Directories and the trashcan\<close>

lemma length_bytes:
  "entry_ok e \<Longrightarrow> length (dirent_bytes e) = 58 + length (ent_name e) + length (meta_bytes (ent_metadata e))"
  "entry_ok e \<Longrightarrow> length (dirent2_bytes e) = 62 + length (ent_name e) + length (meta_bytes (ent_metadata e))"
  "length (trash_bytes t) = 48 + length (tre_name t)"
  by (simp_all add: dirent_bytes_def dirent2_bytes_def trash_bytes_def entry_ok_def)

lemma dirent_fields:
  assumes "entry_ok e"
  defines "b \<equiv> \<lambda>rest. dirent_bytes e @ rest"
  shows "vss_dirent_get_size (b rest) = Some (ent_size e)"
    and "vss_dirent_get_ctime (b rest) = Some (ent_ctime e)"
    and "vss_dirent_get_mtime (b rest) = Some (ent_mtime e)"
    and "vss_dirent_get_change_ver (b rest) = Some (ent_changeVer e)"
    and "vss_dirent_get_is_dir (b rest) = Some (ent_isDir e)"
    and "vss_dirent_get_signature (b rest) = Some (ent_signature e @ drop 52 (dirent_bytes e) @ rest)"
    and "vss_dirent_get_name (b rest) = Some (ent_name e @ meta_bytes (ent_metadata e) @ rest)"
    and "vss_dirent_get_meta_size (b rest) = Some (word_of_nat (length (meta_bytes (ent_metadata e))))"
    and "vss_dirent_get_metadata (b rest) = Some (meta_bytes (ent_metadata e) @ rest)"
    and "vss_dirent_get_name_len (b rest) = Some (word_of_nat (length (ent_name e)))"
  using assms(1)
  by (simp_all add: b_def wire dirent_bytes_def entry_ok_def rd_bytes_def ptr_at_def
      VPLConv_ntoh_u8_def unat_of_nat_u16 drop_Cons')

lemma dirent2_fields:
  assumes "entry_ok e"
  defines "b \<equiv> \<lambda>rest. dirent2_bytes e @ rest"
  shows "vss_dirent2_get_size (b rest) = Some (ent_size e)"
    and "vss_dirent2_get_ctime (b rest) = Some (ent_ctime e)"
    and "vss_dirent2_get_mtime (b rest) = Some (ent_mtime e)"
    and "vss_dirent2_get_change_ver (b rest) = Some (ent_changeVer e)"
    and "vss_dirent2_get_is_dir (b rest) = Some (ent_isDir e)"
    and "vss_dirent2_get_attrs (b rest) = Some (ent_attrs e)"
    and "vss_dirent2_get_signature (b rest) = Some (ent_signature e @ drop 52 (dirent2_bytes e) @ rest)"
    and "vss_dirent2_get_name (b rest) = Some (ent_name e @ meta_bytes (ent_metadata e) @ rest)"
    and "vss_dirent2_get_meta_size (b rest) = Some (word_of_nat (length (meta_bytes (ent_metadata e))))"
    and "vss_dirent2_get_metadata (b rest) = Some (meta_bytes (ent_metadata e) @ rest)"
    and "vss_dirent2_get_name_len (b rest) = Some (word_of_nat (length (ent_name e)))"
  using assms(1)
  by (simp_all add: b_def wire dirent2_bytes_def entry_ok_def rd_bytes_def ptr_at_def
      VPLConv_ntoh_u8_def unat_of_nat_u16 drop_Cons')

lemma trashrec_fields:
  assumes "trash_ok e"
  defines "b \<equiv> \<lambda>rest. trash_bytes e @ rest"
  shows "vss_trashrec_get_recver (b rest) = Some (trash_version (tre_id e))"
    and "vss_trashrec_get_recidx (b rest) = Some (trash_index (tre_id e))"
    and "vss_trashrec_get_size (b rest) = Some (tre_size e)"
    and "vss_trashrec_get_ctime (b rest) = Some (tre_ctime e)"
    and "vss_trashrec_get_mtime (b rest) = Some (tre_mtime e)"
    and "vss_trashrec_get_dtime (b rest) = Some (tre_dtime e)"
    and "vss_trashrec_get_is_dir (b rest) = Some (tre_isDir e)"
    and "vss_trashrec_get_name (b rest) = Some (tre_name e @ rest)"
    and "vss_trashrec_get_name_len (b rest) = Some (word_of_nat (length (tre_name e)))"
  using assms(1)
  by (simp_all add: b_def wire trash_bytes_def trash_ok_def rd_bytes_def ptr_at_def
      VPLConv_ntoh_u8_def unat_of_nat_u16 drop_Cons')

text \<open>What the entry handed to the caller shows of the entry sent.\<close>

definition dirent_shown :: "dir_entry \<Rightarrow> VSSI_Dirent \<Rightarrow> bool" where
  "dirent_shown e d \<longleftrightarrow> de_size d = ent_size e \<and> de_ctime d = ent_ctime e \<and> de_mtime d = ent_mtime e \<and>
     de_changeVer d = ent_changeVer e \<and> de_isDir d = ent_isDir e \<and>
     take 20 (de_signature d) = ent_signature e \<and> take (length (ent_name e)) (de_name d) = ent_name e \<and>
     (\<exists>ms. de_metadata d = Some ms \<and> meta_holds ms (ent_metadata e) (ent_metadata e))"

definition dirent2_shown :: "dir_entry \<Rightarrow> VSSI_Dirent2 \<Rightarrow> bool" where
  "dirent2_shown e d \<longleftrightarrow> de2_size d = ent_size e \<and> de2_ctime d = ent_ctime e \<and>
     de2_mtime d = ent_mtime e \<and> de2_changeVer d = ent_changeVer e \<and> de2_attrs d = ent_attrs e \<and>
     de2_isDir d = ent_isDir e \<and> take 20 (de2_signature d) = ent_signature e \<and>
     take (length (ent_name e)) (de2_name d) = ent_name e \<and>
     (\<exists>ms. de2_metadata d = Some ms \<and> meta_holds ms (ent_metadata e) (ent_metadata e))"

definition trash_shown :: "trash_entry \<Rightarrow> VSSI_TrashRecord \<Rightarrow> bool" where
  "trash_shown e r \<longleftrightarrow> tr_id r = tre_id e \<and> tr_size r = tre_size e \<and> tr_ctime r = tre_ctime e \<and>
     tr_mtime r = tre_mtime e \<and> tr_dtime r = tre_dtime e \<and> tr_isDir r = tre_isDir e \<and>
     take (length (tre_name e)) (tr_name r) = tre_name e"

text \<open>A listing in its raw buffer, with the offset after the entries already read.\<close>

definition listing :: "('e \<Rightarrow> buffer) \<Rightarrow> ('e \<Rightarrow> bool) \<Rightarrow> buffer \<Rightarrow> nat \<Rightarrow> nat \<Rightarrow> 'e list \<Rightarrow> 'e list \<Rightarrow> bool" where
  "listing enc ok raw n off es rs \<longleftrightarrow> list_all ok es \<and> raw = concat (map enc es) \<and> n = length raw \<and>
     (\<exists>ps. es = ps @ rs \<and> off = length (concat (map enc ps)))"

lemma listing_end: "listing enc ok raw n off es [] \<Longrightarrow> n \<le> off"
  by (auto simp: listing_def)

lemma listing_rewind: "listing enc ok raw n off es rs \<Longrightarrow> listing enc ok raw n 0 es es"
  by (auto simp: listing_def)

lemma listing_entry:
  assumes "listing enc ok raw n off es (e # rs)"
  shows "ok e \<and> (\<exists>rest. ptr_at raw off = Some (enc e @ rest)) \<and>
    listing enc ok raw n (off + length (enc e)) es rs \<and> off + length (enc e) \<le> n"
proof -
  obtain ps where ps: "es = ps @ e # rs" "off = length (concat (map enc ps))"
    and l: "list_all ok es" "raw = concat (map enc es)" "n = length raw"
    using assms by (auto simp: listing_def)
  have "ptr_at raw off = Some (enc e @ concat (map enc rs))"
    using ptr_at_append [of "concat (map enc ps)"] ps l by simp
  moreover have "listing enc ok raw n (off + length (enc e)) es rs"
    using ps l by (auto simp: listing_def intro!: exI [of _ "ps @ [e]"])
  ultimately show ?thesis using ps l by simp
qed

definition dir_holds :: "VSSI_DirectoryState option \<Rightarrow> dir_entry list \<Rightarrow> dir_entry list \<Rightarrow> bool" where
  "dir_holds dir es rs \<longleftrightarrow> (\<exists>d. dir = Some d \<and> dir_version d = 1 \<and>
     listing dirent_bytes entry_ok (dir_raw_data d) (dir_data_len d) (dir_offset d) es rs)"

definition dir2_holds :: "VSSI_DirectoryState option \<Rightarrow> dir_entry list \<Rightarrow> dir_entry list \<Rightarrow> bool" where
  "dir2_holds dir es rs \<longleftrightarrow> (\<exists>d. dir = Some d \<and> dir_version d = 2 \<and>
     listing dirent2_bytes entry_ok (dir_raw_data d) (dir_data_len d) (dir_offset d) es rs)"

definition trash_holds :: "VSSI_TrashcanState option \<Rightarrow> trash_entry list \<Rightarrow> trash_entry list \<Rightarrow> bool" where
  "trash_holds can es rs \<longleftrightarrow> (\<exists>t. can = Some t \<and>
     listing trash_bytes trash_ok (trash_raw_data t) (trash_data_len t) (trash_offset t) es rs)"

lemma entry_ok_signature: "entry_ok e \<Longrightarrow> length (ent_signature e) = 20"
  by (simp add: entry_ok_def)

lemma entry_lens:
  "entry_ok e \<Longrightarrow> unat (word_of_nat (length (meta_bytes (ent_metadata e))) :: u16) = length (meta_bytes (ent_metadata e))"
  "entry_ok e \<Longrightarrow> unat (word_of_nat (length (ent_name e)) :: u16) = length (ent_name e)"
  by (simp_all add: entry_ok_def unat_of_nat_u16)

text \<open>The metadata state an entry hands out, at the start of the entry's metadata.\<close>

lemma meta_holds_start:
  "entry_ok e \<Longrightarrow> meta_holds (ms\<lparr>meta_dataSize := length (meta_bytes (ent_metadata e)),
     meta_curOffset := 0, meta_raw := meta_bytes (ent_metadata e) @ rest\<rparr>) (ent_metadata e) (ent_metadata e)"
  by (auto simp: meta_holds_def entry_ok_def)

lemma read_dir_shows:
  assumes "dir_holds s es (e # rs)"
  shows "\<exists>v s'. VSSI_ReadDir s = Some (Some v, s') \<and> dirent_shown e v \<and> dir_holds s' es rs"
proof -
  obtain d where d: "s = Some d" "dir_version d = 1"
    "listing dirent_bytes entry_ok (dir_raw_data d) (dir_data_len d) (dir_offset d) es (e # rs)"
    using assms by (auto simp: dir_holds_def)
  then obtain rest where ok: "entry_ok e"
    and p: "ptr_at (dir_raw_data d) (dir_offset d) = Some (dirent_bytes e @ rest)"
    and l: "listing dirent_bytes entry_ok (dir_raw_data d) (dir_data_len d)
              (dir_offset d + length (dirent_bytes e)) es rs"
    and n: "dir_offset d + length (dirent_bytes e) \<le> dir_data_len d"
    using listing_entry [OF d(3)] by blast
  have lt: "dir_offset d < dir_data_len d"
    using n length_bytes(1) [OF ok] by simp
  note lens = entry_lens [OF ok]
  define md where "md = (dir_cur_metadata d)\<lparr>meta_dataSize := length (meta_bytes (ent_metadata e)),
     meta_curOffset := 0, meta_raw := meta_bytes (ent_metadata e) @ rest\<rparr>"
  have md: "meta_holds md (ent_metadata e) (ent_metadata e)"
    unfolding md_def by (rule meta_holds_start [OF ok])
  define v where "v = \<lparr>de_size = ent_size e, de_ctime = ent_ctime e, de_mtime = ent_mtime e,
     de_changeVer = ent_changeVer e, de_isDir = ent_isDir e,
     de_signature = ent_signature e @ drop 52 (dirent_bytes e) @ rest,
     de_name = ent_name e @ meta_bytes (ent_metadata e) @ rest, de_metadata = Some md\<rparr>"
  define d' where "d' = d\<lparr>dir_cur_entry := v, dir_cur_metadata := md,
     dir_offset := dir_offset d + length (dirent_bytes e)\<rparr>"
  have "read_dir_entry d = Some (v, d')"
    by (simp add: read_dir_entry_def p dirent_fields [OF ok] lens length_bytes(1) [OF ok] Let_def
        md_def [symmetric]) (simp add: v_def d'_def length_bytes(1) [OF ok] ac_simps)
  then have "VSSI_ReadDir s = Some (Some v, Some d')"
    using d lt by (simp add: VSSI_ReadDir_def)
  moreover have "dirent_shown e v"
    using md entry_ok_signature [OF ok] by (simp add: dirent_shown_def v_def)
  moreover have "dir_holds (Some d') es rs"
    using l d(2) by (simp add: dir_holds_def d'_def)
  ultimately show ?thesis by blast
qed

lemma read_dir2_shows:
  assumes "dir2_holds s es (e # rs)"
  shows "\<exists>v s'. VSSI_ReadDir2 s = Some (Some v, s') \<and> dirent2_shown e v \<and> dir2_holds s' es rs"
proof -
  obtain d where d: "s = Some d" "dir_version d = 2"
    "listing dirent2_bytes entry_ok (dir_raw_data d) (dir_data_len d) (dir_offset d) es (e # rs)"
    using assms by (auto simp: dir2_holds_def)
  then obtain rest where ok: "entry_ok e"
    and p: "ptr_at (dir_raw_data d) (dir_offset d) = Some (dirent2_bytes e @ rest)"
    and l: "listing dirent2_bytes entry_ok (dir_raw_data d) (dir_data_len d)
              (dir_offset d + length (dirent2_bytes e)) es rs"
    and n: "dir_offset d + length (dirent2_bytes e) \<le> dir_data_len d"
    using listing_entry [OF d(3)] by blast
  have lt: "dir_offset d < dir_data_len d"
    using n length_bytes(2) [OF ok] by simp
  note lens = entry_lens [OF ok]
  define md where "md = (dir_cur_metadata d)\<lparr>meta_dataSize := length (meta_bytes (ent_metadata e)),
     meta_curOffset := 0, meta_raw := meta_bytes (ent_metadata e) @ rest\<rparr>"
  have md: "meta_holds md (ent_metadata e) (ent_metadata e)"
    unfolding md_def by (rule meta_holds_start [OF ok])
  define v where "v = \<lparr>de2_size = ent_size e, de2_ctime = ent_ctime e, de2_mtime = ent_mtime e,
     de2_changeVer = ent_changeVer e, de2_attrs = ent_attrs e, de2_isDir = ent_isDir e,
     de2_signature = ent_signature e @ drop 52 (dirent2_bytes e) @ rest,
     de2_name = ent_name e @ meta_bytes (ent_metadata e) @ rest, de2_metadata = Some md\<rparr>"
  define d' where "d' = d\<lparr>dir_cur_entry2 := v, dir_cur_metadata := md,
     dir_offset := dir_offset d + length (dirent2_bytes e)\<rparr>"
  have "read_dir2_entry d = Some (v, d')"
    by (simp add: read_dir2_entry_def p dirent2_fields [OF ok] lens length_bytes(2) [OF ok] Let_def
        md_def [symmetric]) (simp add: v_def d'_def length_bytes(2) [OF ok] ac_simps)
  then have "VSSI_ReadDir2 s = Some (Some v, Some d')"
    using d lt by (simp add: VSSI_ReadDir2_def)
  moreover have "dirent2_shown e v"
    using md entry_ok_signature [OF ok] by (simp add: dirent2_shown_def v_def)
  moreover have "dir2_holds (Some d') es rs"
    using l d(2) by (simp add: dir2_holds_def d'_def)
  ultimately show ?thesis by blast
qed

lemma read_trashcan_shows:
  assumes "trash_holds s es (e # rs)"
  shows "\<exists>v s'. VSSI_ReadTrashcan s = Some (Some v, s') \<and> trash_shown e v \<and> trash_holds s' es rs"
proof -
  obtain d where d: "s = Some d"
    "listing trash_bytes trash_ok (trash_raw_data d) (trash_data_len d) (trash_offset d) es (e # rs)"
    using assms by (auto simp: trash_holds_def)
  then obtain rest where ok: "trash_ok e"
    and p: "ptr_at (trash_raw_data d) (trash_offset d) = Some (trash_bytes e @ rest)"
    and l: "listing trash_bytes trash_ok (trash_raw_data d) (trash_data_len d)
              (trash_offset d + length (trash_bytes e)) es rs"
    and n: "trash_offset d + length (trash_bytes e) \<le> trash_data_len d"
    using listing_entry [OF d(2)] by blast
  have lt: "trash_offset d < trash_data_len d"
    using n length_bytes(3) by simp
  have lens: "unat (word_of_nat (length (tre_name e)) :: u16) = length (tre_name e)"
    using ok by (simp add: trash_ok_def unat_of_nat_u16)
  define v where "v = \<lparr>tr_id = tre_id e, tr_ctime = tre_ctime e, tr_mtime = tre_mtime e,
     tr_dtime = tre_dtime e, tr_isDir = tre_isDir e, tr_size = tre_size e, tr_name = tre_name e @ rest\<rparr>"
  define d' where "d' = d\<lparr>trash_cur_record := v, trash_offset := trash_offset d + length (trash_bytes e)\<rparr>"
  have "read_trash_record d = Some (v, d')"
    by (simp add: read_trash_record_def p trashrec_fields [OF ok] lens length_bytes(3) Let_def
        v_def d'_def ac_simps)
  then have "VSSI_ReadTrashcan s = Some (Some v, Some d')"
    using d lt by (simp add: VSSI_ReadTrashcan_def)
  moreover have "trash_shown e v" by (simp add: trash_shown_def v_def)
  moreover have "trash_holds (Some d') es rs" using l by (simp add: trash_holds_def d'_def)
  ultimately show ?thesis by blast
qed

interpretation dir_walk: wire_cursor VSSI_ReadDir VSSI_RewindDir dir_holds dirent_shown
proof
  show "dir_holds s es [] \<Longrightarrow> VSSI_ReadDir s = Some (None, s)" for s es
    by (auto simp: dir_holds_def VSSI_ReadDir_def dest: listing_end)
  show "dir_holds s es (e # rs) \<Longrightarrow>
      \<exists>v s'. VSSI_ReadDir s = Some (Some v, s') \<and> dirent_shown e v \<and> dir_holds s' es rs" for s es e rs
    by (rule read_dir_shows)
  show "dir_holds s es rs \<Longrightarrow> dir_holds (VSSI_RewindDir s) es es" for s es rs
    by (auto simp: dir_holds_def VSSI_RewindDir_def intro: listing_rewind)
qed

interpretation dir2_walk: wire_cursor VSSI_ReadDir2 VSSI_RewindDir2 dir2_holds dirent2_shown
proof
  show "dir2_holds s es [] \<Longrightarrow> VSSI_ReadDir2 s = Some (None, s)" for s es
    by (auto simp: dir2_holds_def VSSI_ReadDir2_def dest: listing_end)
  show "dir2_holds s es (e # rs) \<Longrightarrow>
      \<exists>v s'. VSSI_ReadDir2 s = Some (Some v, s') \<and> dirent2_shown e v \<and> dir2_holds s' es rs" for s es e rs
    by (rule read_dir2_shows)
  show "dir2_holds s es rs \<Longrightarrow> dir2_holds (VSSI_RewindDir2 s) es es" for s es rs
    by (auto simp: dir2_holds_def VSSI_RewindDir2_def VSSI_RewindDir_def intro: listing_rewind)
qed

interpretation trash_walk: wire_cursor VSSI_ReadTrashcan VSSI_RewindTrashcan trash_holds trash_shown
proof
  show "trash_holds s es [] \<Longrightarrow> VSSI_ReadTrashcan s = Some (None, s)" for s es
    by (auto simp: trash_holds_def VSSI_ReadTrashcan_def dest: listing_end)
  show "trash_holds s es (e # rs) \<Longrightarrow>
      \<exists>v s'. VSSI_ReadTrashcan s = Some (Some v, s') \<and> trash_shown e v \<and> trash_holds s' es rs" for s es e rs
    by (rule read_trashcan_shows)
  show "trash_holds s es rs \<Longrightarrow> trash_holds (VSSI_RewindTrashcan s) es es" for s es rs
    by (auto simp: trash_holds_def VSSI_RewindTrashcan_def intro: listing_rewind)
qed

section \<open>Properties\<close>

text \<open>The directory a concrete listing gives, for the witnesses.\<close>

definition blank_metadata :: VSSI_DirentMetadataState where
  "blank_metadata = \<lparr>meta_dataSize = 0, meta_curOffset = 0,
     meta_curEntry = \<lparr>meta_type = 0, meta_length = 0, meta_data = []\<rparr>, meta_raw = []\<rparr>"

definition demo_directory :: "int \<Rightarrow> buffer \<Rightarrow> VSSI_DirectoryState" where
  "demo_directory version raw = \<lparr>dir_version = version, dir_raw_data = raw,
     dir_data_len = length raw, dir_offset = 0,
     dir_cur_entry = \<lparr>de_size = 0, de_ctime = 0, de_mtime = 0, de_changeVer = 0, de_isDir = 0,
       de_signature = [], de_name = [], de_metadata = None\<rparr>,
     dir_cur_entry2 = \<lparr>de2_size = 0, de2_ctime = 0, de2_mtime = 0, de2_changeVer = 0, de2_attrs = 0,
       de2_isDir = 0, de2_signature = [], de2_name = [], de2_metadata = None\<rparr>,
     dir_cur_metadata = blank_metadata\<rparr>"

definition demo_entries :: "dir_entry list" where
  "demo_entries =
     [\<lparr>ent_size = 5, ent_ctime = 1, ent_mtime = 2, ent_changeVer = 3, ent_attrs = 0, ent_isDir = 0,
       ent_signature = replicate 20 7, ent_name = [97, 0], ent_metadata = [(1, [8, 9]), (2, [])]\<rparr>,
      \<lparr>ent_size = 0, ent_ctime = 4, ent_mtime = 4, ent_changeVer = 9, ent_attrs = 1, ent_isDir = 1,
       ent_signature = replicate 20 0, ent_name = [98, 99, 0], ent_metadata = []\<rparr>]"

lemma demo_entries_ok: "list_all entry_ok demo_entries"
  by (simp add: demo_entries_def entry_ok_def meta_ok_def meta_entry_bytes_def)

text \<open>
  C30: A directory opened on a listing the server laid out (version 1 or 2) hands out, call by
  call, each entry of the listing once and in order, with its times, sizes, flags, signature, name
  and all of its metadata; after the last entry it returns NULL and stays where it is; and after
  \<open>VSSI_RewindDir\<close> the same entries come again. No call reads outside the data.
\<close>
theorem directory_walk:
  assumes "list_all entry_ok es" and "dir_offset d = 0" and "dir_data_len d = length (dir_raw_data d)"
  shows "(dir_version d = 1 \<and> dir_raw_data d = concat (map dirent_bytes es) \<longrightarrow>
      (\<exists>d'. hands_out VSSI_ReadDir dirent_shown es (Some d) d' \<and>
        (\<exists>d''. hands_out VSSI_ReadDir dirent_shown es (VSSI_RewindDir d') d''))) \<and>
    (dir_version d = 2 \<and> dir_raw_data d = concat (map dirent2_bytes es) \<longrightarrow>
      (\<exists>d'. hands_out VSSI_ReadDir2 dirent2_shown es (Some d) d' \<and>
        (\<exists>d''. hands_out VSSI_ReadDir2 dirent2_shown es (VSSI_RewindDir2 d') d'')))"
  using assms
  by (intro conjI impI dir_walk.walk dir2_walk.walk) (auto simp: dir_holds_def dir2_holds_def listing_def)

theorem directory_walk_witness:
  "(\<exists>d'. hands_out VSSI_ReadDir dirent_shown demo_entries
       (Some (demo_directory 1 (concat (map dirent_bytes demo_entries)))) d') \<and>
   (\<exists>d'. hands_out VSSI_ReadDir2 dirent2_shown demo_entries
       (Some (demo_directory 2 (concat (map dirent2_bytes demo_entries)))) d')"
  using directory_walk [OF demo_entries_ok, of "demo_directory 1 (concat (map dirent_bytes demo_entries))"]
    directory_walk [OF demo_entries_ok, of "demo_directory 2 (concat (map dirent2_bytes demo_entries))"]
  by (auto simp: demo_directory_def)

text \<open>
  The trashcan hands out each record of its listing once and in order, then NULL, and the
  same again after \<open>VSSI_RewindTrashcan\<close>.
\<close>
theorem trashcan_walk:
  assumes "list_all trash_ok es" and "trash_offset t = 0"
    and "trash_raw_data t = concat (map trash_bytes es)" and "trash_data_len t = length (trash_raw_data t)"
  shows "\<exists>t'. hands_out VSSI_ReadTrashcan trash_shown es (Some t) t' \<and>
      (\<exists>t''. hands_out VSSI_ReadTrashcan trash_shown es (VSSI_RewindTrashcan t') t'')"
  using assms by (intro trash_walk.walk) (auto simp: trash_holds_def listing_def)

definition demo_trash :: "trash_entry list" where
  "demo_trash = [\<lparr>tre_id = \<lparr>trash_version = 6, trash_index = 1\<rparr>, tre_size = 3, tre_ctime = 1,
     tre_mtime = 2, tre_dtime = 5, tre_isDir = 0, tre_name = [120, 0]\<rparr>]"

definition demo_trashcan :: "buffer \<Rightarrow> VSSI_TrashcanState" where
  "demo_trashcan raw = \<lparr>trash_raw_data = raw, trash_data_len = length raw, trash_offset = 0,
     trash_cur_record = \<lparr>tr_id = \<lparr>trash_version = 0, trash_index = 0\<rparr>, tr_ctime = 0, tr_mtime = 0,
       tr_dtime = 0, tr_isDir = 0, tr_size = 0, tr_name = []\<rparr>\<rparr>"

lemma demo_trash_ok: "list_all trash_ok demo_trash"
  by (simp add: demo_trash_def trash_ok_def)

theorem trashcan_walk_witness:
  "\<exists>t'. hands_out VSSI_ReadTrashcan trash_shown demo_trash
      (Some (demo_trashcan (concat (map trash_bytes demo_trash)))) t'"
  using trashcan_walk [OF demo_trash_ok, of "demo_trashcan (concat (map trash_bytes demo_trash))"]
  by (auto simp: demo_trashcan_def)

text \<open>The search loop finds the first entry of the type among those not read yet.\<close>

lemma find_metadata_finds:
  "meta_holds s ms rs \<Longrightarrow> \<exists>r s'. find_metadata t s = Some (r, s') \<and>
     (\<exists>rs'. meta_holds s' ms rs') \<and> rel_option meta_shown (find (\<lambda>m. fst m = t) rs) r \<and>
     pred_option (\<lambda>v. meta_type v = t) r"
proof (induction rs arbitrary: s)
  case Nil
  then show ?case
    by (auto simp: find_metadata.simps [of t s] read_metadata_entry_end)
next
  case (Cons m rs)
  then obtain v s' where s': "read_metadata_entry s = Some (Some v, s')" "meta_shown m v" "meta_holds s' ms rs"
    using read_metadata_entry_shows by blast
  then show ?case
    using Cons.IH [OF s'(3)] by (auto simp: find_metadata.simps [of t s] meta_shown_def)
qed

text \<open>
  C31: \<open>VSSI_GetMetadataByType\<close> returns the first entry of the given type among the metadata
  not read yet, NULL exactly when there is none, always returns, and leaves the caller's position in
  the metadata where it was.
\<close>
theorem metadata_by_type:
  assumes "de_metadata d = Some s" and "meta_holds s ms rs"
  shows "\<exists>r s'. VSSI_GetMetadataByType (Some d) t = Some (r, Some (d\<lparr>de_metadata := Some s'\<rparr>)) \<and>
      rel_option meta_shown (find (\<lambda>m. fst m = t) rs) r \<and>
      meta_curOffset s' = meta_curOffset s \<and> meta_holds s' ms rs"
proof -
  obtain r s' rs' where f: "find_metadata t s = Some (r, s')" "meta_holds s' ms rs'"
    "rel_option meta_shown (find (\<lambda>m. fst m = t) rs) r" "pred_option (\<lambda>v. meta_type v = t) r"
    using find_metadata_finds [OF assms(2), of t] by blast
  define s'' where "s'' = s'\<lparr>meta_curOffset := meta_curOffset s\<rparr>"
  have "(case r of Some m \<Rightarrow> if meta_type m \<noteq> t then None else r | None \<Rightarrow> None) = r"
    using f(4) by (cases r) auto
  then have "VSSI_GetMetadataByType (Some d) t = Some (r, Some (d\<lparr>de_metadata := Some s''\<rparr>))"
    by (simp add: VSSI_GetMetadataByType_def assms(1) f(1) s''_def)
  moreover have "meta_holds s'' ms rs"
    using f(2) assms(2) by (auto simp: meta_holds_def s''_def)
  ultimately show ?thesis using f(3) by (auto simp: s''_def)
qed

definition demo_dirent :: VSSI_Dirent where
  "demo_dirent = \<lparr>de_size = 0, de_ctime = 0, de_mtime = 0, de_changeVer = 0, de_isDir = 0,
     de_signature = [], de_name = [],
     de_metadata = Some (blank_metadata\<lparr>meta_dataSize := 6, meta_raw := [1, 2, 8, 9, 2, 0]\<rparr>)\<rparr>"

theorem metadata_by_type_witness:
  "(\<exists>v s'. VSSI_GetMetadataByType (Some demo_dirent) 2 = Some (Some v, s') \<and> meta_length v = 0) \<and>
   (\<exists>s'. VSSI_GetMetadataByType (Some demo_dirent) 3 = Some (None, s'))"
proof -
  let ?s = "blank_metadata\<lparr>meta_dataSize := 6, meta_raw := [1, 2, 8, 9, 2, 0]\<rparr>"
  have "meta_holds ?s [(1, [8, 9]), (2, [])] [(1, [8, 9]), (2, [])]"
    by (simp add: meta_holds_def meta_ok_def meta_entry_bytes_def blank_metadata_def)
  then show ?thesis
    using metadata_by_type [of demo_dirent ?s "[(1, [8, 9]), (2, [])]" "[(1, [8, 9]), (2, [])]" 2]
      metadata_by_type [of demo_dirent ?s "[(1, [8, 9]), (2, [])]" "[(1, [8, 9]), (2, [])]" 3]
    by (auto simp: demo_dirent_def meta_shown_def option_rel_Some1 unat_eq_0)
qed



end
