(* ===== verification/Vssi_Reply_Correct.thy ===== *)
theory Vssi_Reply_Correct
  imports Vssi_Reply Vssi_Dir_Correct
begin

text \<open>
  What the reply handlers promise: from a successful reply the fields the server laid out are taken
  (the listings and stats of \<open>Vssi_Dir_Correct\<close> among them); a failed command leaves the caller's
  variables alone; and what of the reply the handlers do not check.
\<close>

section \<open>Replies as the server lays them out\<close>

definition reply_header :: "buffer \<Rightarrow> int \<Rightarrow> bool" where
  "reply_header hdr st \<longleftrightarrow> length hdr = VSS_HEADER_SIZE \<and> vss_get_status hdr = Some st"

lemma get_status_append [simp]: "reply_header hdr st \<Longrightarrow> vss_get_status (hdr @ body) = Some st"
  by (simp add: reply_header_def wire)

lemma reply_data_append [simp]: "reply_header hdr st \<Longrightarrow> reply_data (hdr @ body) = Some body"
  using ptr_at_append [of hdr body] by (simp add: reply_header_def reply_data_def)

lemma unat_of_nat_u32: "n < 2 ^ 32 \<Longrightarrow> unat (word_of_nat n :: u32) = n"
  by (simp add: unsigned_of_nat take_bit_nat_eq_self)

lemma memcpy_at_whole:
  "length bs \<le> length buf \<Longrightarrow> memcpy_at buf 0 (bs @ rest) (length bs) = Some (bs @ drop (length bs) buf)"
  by (simp add: memcpy_at_def rd_bytes_prefix wr_bytes_def)

lemma length_demo_chunks: "length (concat (map enc es)) < 2 ^ 32 \<Longrightarrow>
    unat (word_of_nat (length (concat (map enc es))) :: u32) = length (concat (map enc es))"
  by (rule unat_of_nat_u32)

definition demo_header :: "int \<Rightarrow> buffer" where
  "demo_header st = replicate 2 0 @ be_enc 2 (word_of_int st :: u16) @ replicate 44 0"

lemma demo_header_ok: "reply_header (demo_header 0) VSSI_SUCCESS" "reply_header (demo_header (- 5)) (- 5)"
  by (simp_all add: reply_header_def demo_header_def wire rd_bytes_def vssi_consts)

section \<open>Results are taken\<close>

text \<open>
  C33: From a reply that reports success each handler takes exactly what the server laid out: the
  versions and the handle of an object or file, the data read with its length, the length written,
  the sizes, the lock mode, the notification mask; what it reports is success. (An open of a file
  that exists already takes the results as well.)
\<close>
theorem results_taken:
  assumes ok: "reply_header hdr VSSI_SUCCESS" and exists: "reply_header hdr' VSSI_EXISTS"
    and data: "length data < 2 ^ 32" "length data \<le> length buf"
  defines "n \<equiv> word_of_nat (length data) :: u32"
  shows "VSSI_HandleOpenReply (Some (hdr @ be_enc 4 handle @ be_enc 8 objver)) object =
      Some (VSSI_SUCCESS, object\<lparr>object_version := objver, object_new_version := objver,
        access_proto_handle := handle\<rparr>) \<and>
    VSSI_HandleReadReply (Some (hdr @ be_enc 8 objver @ be_enc 4 n @ data)) object len buf =
      Some (VSSI_SUCCESS, object\<lparr>object_new_version := objver\<rparr>, n, data @ drop (length data) buf) \<and>
    VSSI_HandleWriteReply (Some (hdr @ be_enc 4 written @ be_enc 8 objver)) object len =
      Some (VSSI_SUCCESS, object\<lparr>object_new_version := objver\<rparr>, written) \<and>
    VSSI_HandleVersionReply (Some (hdr @ be_enc 8 objver)) object =
      Some (VSSI_SUCCESS, object\<lparr>object_new_version := objver, object_version := objver\<rparr>) \<and>
    VSSI_HandleGetSpaceReply (Some (hdr @ be_enc 8 disk @ be_enc 8 dataset @ be_enc 8 avail)) object d0 d1 d2 =
      Some (VSSI_SUCCESS, disk, dataset, avail) \<and>
    (\<forall>h\<in>{(hdr, VSSI_SUCCESS), (hdr', VSSI_EXISTS)}.
      VSSI_HandleOpenFileReply (Some (fst h @ be_enc 8 objver @ be_enc 4 handle @ be_enc 4 (flags :: u32))) file (Some object) =
      Some (snd h, file\<lparr>file_server_handle := handle\<rparr>,
        Some (object\<lparr>object_version := objver, object_new_version := objver\<rparr>))) \<and>
    VSSI_HandleCloseFileReply (Some (hdr @ be_enc 8 objver)) object w =
      Some (VSSI_SUCCESS, object\<lparr>object_new_version := objver, object_version := objver\<rparr>, DELETE_ALWAYS) \<and>
    VSSI_HandleReadFileReply (Some (hdr @ be_enc 4 n @ data)) len buf =
      Some (VSSI_SUCCESS, n, data @ drop (length data) buf) \<and>
    VSSI_HandleWriteFileReply (Some (hdr @ be_enc 4 written)) len = Some (VSSI_SUCCESS, written) \<and>
    VSSI_HandleGetFileLockReply (Some (hdr @ be_enc 8 mode)) (Some m0) = Some (VSSI_SUCCESS, Some mode) \<and>
    VSSI_HandleGetNotifyReply (Some (hdr @ be_enc 8 mode)) (Some m0) = Some (VSSI_SUCCESS, Some mode)"
proof -
  have n: "unat n = length data" unfolding n_def by (rule unat_of_nat_u32) (rule data)
  note cpy = memcpy_at_whole [OF data(2), of "[]", simplified]
  note layout = wire rd_bytes_def ptr_at_def
  show ?thesis
  proof (intro conjI ballI)
    show "VSSI_HandleOpenReply (Some (hdr @ be_enc 4 handle @ be_enc 8 objver)) object =
      Some (VSSI_SUCCESS, object\<lparr>object_version := objver, object_new_version := objver,
        access_proto_handle := handle\<rparr>)"
      using ok by (simp add: VSSI_HandleOpenReply_def layout del: vss_get_status_def)
    show "VSSI_HandleReadReply (Some (hdr @ be_enc 8 objver @ be_enc 4 n @ data)) object len buf =
      Some (VSSI_SUCCESS, object\<lparr>object_new_version := objver\<rparr>, n, data @ drop (length data) buf)"
      using ok by (simp add: VSSI_HandleReadReply_def layout n cpy del: vss_get_status_def)
    show "VSSI_HandleWriteReply (Some (hdr @ be_enc 4 written @ be_enc 8 objver)) object len =
      Some (VSSI_SUCCESS, object\<lparr>object_new_version := objver\<rparr>, written)"
      using ok by (simp add: VSSI_HandleWriteReply_def layout del: vss_get_status_def)
    show "VSSI_HandleVersionReply (Some (hdr @ be_enc 8 objver)) object =
      Some (VSSI_SUCCESS, object\<lparr>object_new_version := objver, object_version := objver\<rparr>)"
      using ok by (simp add: VSSI_HandleVersionReply_def layout Let_def del: vss_get_status_def)
    show "VSSI_HandleGetSpaceReply (Some (hdr @ be_enc 8 disk @ be_enc 8 dataset @ be_enc 8 avail)) object d0 d1 d2 =
      Some (VSSI_SUCCESS, disk, dataset, avail)"
      using ok by (simp add: VSSI_HandleGetSpaceReply_def layout del: vss_get_status_def)
    show "VSSI_HandleOpenFileReply (Some (fst h @ be_enc 8 objver @ be_enc 4 handle @ be_enc 4 (flags :: u32))) file (Some object) =
      Some (snd h, file\<lparr>file_server_handle := handle\<rparr>,
        Some (object\<lparr>object_version := objver, object_new_version := objver\<rparr>))"
      if "h \<in> {(hdr, VSSI_SUCCESS), (hdr', VSSI_EXISTS)}" for h
      using ok exists that by (auto simp: VSSI_HandleOpenFileReply_def layout simp del: vss_get_status_def)
    show "VSSI_HandleCloseFileReply (Some (hdr @ be_enc 8 objver)) object w =
      Some (VSSI_SUCCESS, object\<lparr>object_new_version := objver, object_version := objver\<rparr>, DELETE_ALWAYS)"
      using ok by (simp add: VSSI_HandleCloseFileReply_def layout Let_def del: vss_get_status_def)
    show "VSSI_HandleReadFileReply (Some (hdr @ be_enc 4 n @ data)) len buf =
      Some (VSSI_SUCCESS, n, data @ drop (length data) buf)"
      using ok by (simp add: VSSI_HandleReadFileReply_def layout n cpy del: vss_get_status_def)
    show "VSSI_HandleWriteFileReply (Some (hdr @ be_enc 4 written)) len = Some (VSSI_SUCCESS, written)"
      using ok by (simp add: VSSI_HandleWriteFileReply_def layout del: vss_get_status_def)
    show "VSSI_HandleGetFileLockReply (Some (hdr @ be_enc 8 mode)) (Some m0) = Some (VSSI_SUCCESS, Some mode)"
      using ok by (simp add: VSSI_HandleGetFileLockReply_def layout del: vss_get_status_def)
    show "VSSI_HandleGetNotifyReply (Some (hdr @ be_enc 8 mode)) (Some m0) = Some (VSSI_SUCCESS, Some mode)"
      using ok by (simp add: VSSI_HandleGetNotifyReply_def layout del: vss_get_status_def)
  qed
qed

theorem results_taken_witness:
  "VSSI_HandleReadFileReply (Some (demo_header 0 @ [0, 0, 0, 2, 7, 8])) 5 [1, 1, 1] =
     Some (VSSI_SUCCESS, 2, [7, 8, 1])"
proof -
  have "reply_header (demo_header (- 16134)) VSSI_EXISTS"
    by (simp add: reply_header_def demo_header_def wire rd_bytes_def vssi_consts)
  then have "VSSI_HandleReadFileReply
      (Some (demo_header 0 @ be_enc 4 (word_of_nat (length [7 :: u8, 8]) :: u32) @ [7, 8])) 5 [1, 1, 1] =
      Some (VSSI_SUCCESS, word_of_nat (length [7 :: u8, 8]), [7, 8] @ drop (length [7 :: u8, 8]) [1, 1, 1])"
    by (intro results_taken [OF demo_header_ok(1), THEN conjunct2, THEN conjunct2, THEN conjunct2,
          THEN conjunct2, THEN conjunct2, THEN conjunct2, THEN conjunct2, THEN conjunct1]) simp_all
  moreover have "be_enc 4 (word_of_nat (length [7 :: u8, 8]) :: u32) = [0, 0, 0, 2]"
    by (simp add: be_enc_def upt_rec)
  ultimately show ?thesis by simp
qed

section \<open>Listings are received\<close>

definition listing_reply :: "buffer \<Rightarrow> u64 \<Rightarrow> buffer \<Rightarrow> buffer" where
  "listing_reply hdr objver raw = hdr @ be_enc 8 objver @ be_enc 4 (word_of_nat (length raw) :: u32) @ raw"

lemma read_dir_reply:
  assumes "reply_header hdr VSSI_SUCCESS" and "length raw < 2 ^ 32"
  shows "VSSI_HandleReadDirReply (Some fresh) True (Some (listing_reply hdr objver raw)) object old version =
    Some (VSSI_SUCCESS, object\<lparr>object_new_version := objver\<rparr>,
      Some (fresh\<lparr>dir_version := version, dir_data_len := length raw, dir_raw_data := raw, dir_offset := 0\<rparr>))"
  using assms
  by (simp add: listing_reply_def VSSI_HandleReadDirReply_def wire rd_bytes_def ptr_at_def
      unat_of_nat_u32 del: vss_get_status_def)

lemma read_trashcan_reply:
  assumes "reply_header hdr VSSI_SUCCESS" and "length raw < 2 ^ 32"
  shows "VSSI_HandleReadTrashcanReply (Some fresh) True (Some (listing_reply hdr objver raw)) object old =
    Some (VSSI_SUCCESS, object\<lparr>object_new_version := objver\<rparr>,
      Some (fresh\<lparr>trash_data_len := length raw, trash_raw_data := raw, trash_offset := 0\<rparr>))"
  using assms
  by (simp add: listing_reply_def VSSI_HandleReadTrashcanReply_def wire rd_bytes_def ptr_at_def
      unat_of_nat_u32 del: vss_get_status_def)

text \<open>
  C29: What a client sees of a listing the server sent: a successful reply to a directory or
  trashcan read, taken by its handler, gives a handle whose walk hands out every entry the server
  laid out, once and in order, and then NULL. The version asked for selects the entry format.
\<close>
theorem listing_received:
  assumes ok: "reply_header hdr VSSI_SUCCESS"
  shows "(list_all entry_ok es \<and> length (concat (map dirent_bytes es)) < 2 ^ 32 \<longrightarrow>
      (\<exists>dir dir'. VSSI_HandleReadDirReply (Some fresh) True
          (Some (listing_reply hdr objver (concat (map dirent_bytes es)))) object old 1 =
          Some (VSSI_SUCCESS, object\<lparr>object_new_version := objver\<rparr>, dir) \<and>
        hands_out VSSI_ReadDir dirent_shown es dir dir')) \<and>
    (list_all entry_ok es \<and> length (concat (map dirent2_bytes es)) < 2 ^ 32 \<longrightarrow>
      (\<exists>dir dir'. VSSI_HandleReadDirReply (Some fresh) True
          (Some (listing_reply hdr objver (concat (map dirent2_bytes es)))) object old 2 =
          Some (VSSI_SUCCESS, object\<lparr>object_new_version := objver\<rparr>, dir) \<and>
        hands_out VSSI_ReadDir2 dirent2_shown es dir dir')) \<and>
    (list_all trash_ok ts \<and> length (concat (map trash_bytes ts)) < 2 ^ 32 \<longrightarrow>
      (\<exists>can can'. VSSI_HandleReadTrashcanReply (Some fresh_can) True
          (Some (listing_reply hdr objver (concat (map trash_bytes ts)))) object old_can =
          Some (VSSI_SUCCESS, object\<lparr>object_new_version := objver\<rparr>, can) \<and>
        hands_out VSSI_ReadTrashcan trash_shown ts can can'))"
proof -
  have dir: "\<exists>d'. hands_out VSSI_ReadDir dirent_shown es d d'" if "dir_holds d es es" for d
    using dir_walk.walk [OF that] by blast
  have dir2: "\<exists>d'. hands_out VSSI_ReadDir2 dirent2_shown es d d'" if "dir2_holds d es es" for d
    using dir2_walk.walk [OF that] by blast
  have can: "\<exists>d'. hands_out VSSI_ReadTrashcan trash_shown ts d d'" if "trash_holds d ts ts" for d
    using trash_walk.walk [OF that] by blast
  show ?thesis
    using dir dir2 can
    by (auto simp: read_dir_reply [OF ok] read_trashcan_reply [OF ok] dir_holds_def dir2_holds_def
        trash_holds_def listing_def)
qed

definition demo_reply_object :: VSSI_ObjectState where
  "demo_reply_object = \<lparr>access_cluster_id = 1, access_user_id = 2, access_dataset_id = 3,
     access_proto_handle = 4, object_mode = 0, object_version = 10, object_new_version = 10,
     object_request_size = 0\<rparr>"

lemma length_demo_listing:
  "length (concat (map dirent_bytes demo_entries)) < 2 ^ 32"
  "length (concat (map trash_bytes demo_trash)) < 2 ^ 32"
  using demo_entries_ok
  by (simp_all add: demo_entries_def demo_trash_def length_bytes meta_entry_bytes_def)

theorem listing_received_witness:
  "(\<exists>dir dir'. VSSI_HandleReadDirReply (Some (demo_directory 0 [])) True
      (Some (listing_reply (demo_header 0) 11 (concat (map dirent_bytes demo_entries))))
      demo_reply_object None 1 =
      Some (VSSI_SUCCESS, demo_reply_object\<lparr>object_new_version := 11\<rparr>, dir) \<and>
     hands_out VSSI_ReadDir dirent_shown demo_entries dir dir') \<and>
   (\<exists>can can'. VSSI_HandleReadTrashcanReply (Some (demo_trashcan [])) True
      (Some (listing_reply (demo_header 0) 11 (concat (map trash_bytes demo_trash))))
      demo_reply_object None =
      Some (VSSI_SUCCESS, demo_reply_object\<lparr>object_new_version := 11\<rparr>, can) \<and>
     hands_out VSSI_ReadTrashcan trash_shown demo_trash can can')"
  using listing_received [OF demo_header_ok(1), of demo_entries "demo_directory 0 []" 11 demo_reply_object
      None demo_trash "demo_trashcan []" None]
    demo_entries_ok demo_trash_ok length_demo_listing by blast

section \<open>Stats are received\<close>

lemma rd_bytes_own: "rd_bytes (b @ rest) 0 n = Some b" if "n = length b"
  using that by (simp add: rd_bytes_def)

lemma stat_entry_shows:
  assumes "entry_ok e"
  shows "\<exists>v. stat_entry md (dirent_bytes e @ rest) = Some v \<and> dirent_shown e v"
    and "\<exists>v. stat2_entry md (dirent2_bytes e @ rest) = Some v \<and> dirent2_shown e v"
proof -
  have sig: "length (ent_signature e) = 20" by (rule entry_ok_signature [OF assms])
  have m: "meta_holds (md\<lparr>meta_dataSize := length (meta_bytes (ent_metadata e)),
     meta_curOffset := 0, meta_raw := meta_bytes (ent_metadata e)\<rparr>) (ent_metadata e) (ent_metadata e)"
    using meta_holds_start [OF assms, where ms = md and rest = "[]"] by simp
  show "\<exists>v. stat_entry md (dirent_bytes e @ rest) = Some v \<and> dirent_shown e v"
    by (simp add: stat_entry_def dirent_fields [OF assms] entry_lens [OF assms] rd_bytes_own sig)
      (simp add: dirent_shown_def sig m)
  show "\<exists>v. stat2_entry md (dirent2_bytes e @ rest) = Some v \<and> dirent2_shown e v"
    by (simp add: stat2_entry_def dirent2_fields [OF assms] entry_lens [OF assms] rd_bytes_own sig)
      (simp add: dirent2_shown_def sig m)
qed

text \<open>
  From a successful reply to a stat the handler makes an entry of its own that shows the
  entry the server laid out, name, signature and metadata copied; when the memory for it is refused
  the command fails with \<open>VSSI_NOMEM\<close>, the caller's pointer is NULL and the object is unchanged.
\<close>
theorem stat_received:
  assumes ok: "reply_header hdr VSSI_SUCCESS" and e: "entry_ok e"
  shows "(\<exists>v. VSSI_HandleStatReply (Some md) (Some (listing_reply hdr objver (dirent_bytes e))) object old =
        Some (VSSI_SUCCESS, object\<lparr>object_new_version := objver\<rparr>, Some v) \<and> dirent_shown e v) \<and>
    (\<exists>v. VSSI_HandleStat2Reply (Some md) (Some (listing_reply hdr objver (dirent2_bytes e))) object old2 =
        Some (VSSI_SUCCESS, object\<lparr>object_new_version := objver\<rparr>, Some v) \<and> dirent2_shown e v) \<and>
    VSSI_HandleStatReply None (Some (listing_reply hdr objver (dirent_bytes e))) object old =
      Some (VSSI_NOMEM, object, None) \<and>
    VSSI_HandleStat2Reply None (Some (listing_reply hdr objver (dirent2_bytes e))) object old2 =
      Some (VSSI_NOMEM, object, None)"
proof -
  obtain v v2 where v: "stat_entry md (dirent_bytes e) = Some v" "dirent_shown e v"
    "stat2_entry md (dirent2_bytes e) = Some v2" "dirent2_shown e v2"
    using stat_entry_shows [OF e, of md "[]"] by auto
  have body: "vss_read_dir_reply_get_data (be_enc 8 objver @ be_enc 4 n @ raw) = Some raw"
    "vss_read_dir_reply_get_objver (be_enc 8 objver @ be_enc 4 n @ raw) = Some objver" for n :: u32 and raw
    by (simp_all add: wire rd_bytes_def ptr_at_def)
  show ?thesis
    using v ok dirent_fields [OF e, of "[]"] dirent2_fields [OF e, of "[]"]
    by (simp add: listing_reply_def VSSI_HandleStatReply_def VSSI_HandleStat2Reply_def body)
qed

theorem stat_received_witness:
  "\<exists>v. VSSI_HandleStatReply (Some blank_metadata)
      (Some (listing_reply (demo_header 0) 11 (dirent_bytes (hd demo_entries)))) demo_reply_object None =
      Some (VSSI_SUCCESS, demo_reply_object\<lparr>object_new_version := 11\<rparr>, Some v) \<and> de_size v = 5"
proof -
  have "entry_ok (hd demo_entries)" using demo_entries_ok by (simp add: demo_entries_def)
  from stat_received [OF demo_header_ok(1) this, of blank_metadata 11 demo_reply_object None]
  show ?thesis by (auto simp: dirent_shown_def demo_entries_def)
qed

section \<open>Failures\<close>



lemma memcpy_at_defined: "memcpy_at buf 0 src n \<noteq> None \<longleftrightarrow> n \<le> length src \<and> n \<le> length buf"
  by (auto simp: memcpy_at_def rd_bytes_def wr_bytes_def)

text \<open>
  C35: The handlers of data read take the length the reply announces on trust: the copy stays
  inside the reply and inside the caller's buffer exactly when the announced length does, and nothing
  before it checks that; the length the caller asked for is not looked at. And a reply to a read of an
  object without a body, whatever its status, is read past its end.
\<close>
theorem read_replies_trust_length:
  fixes n :: u32 and objver :: u64
  assumes ok: "reply_header hdr VSSI_SUCCESS"
  shows "(VSSI_HandleReadFileReply (Some (hdr @ be_enc 4 n @ data)) len buf \<noteq> None \<longleftrightarrow>
        unat n \<le> length data \<and> unat n \<le> length buf) \<and>
    (VSSI_HandleReadReply (Some (hdr @ be_enc 8 objver @ be_enc 4 n @ data)) object len buf \<noteq> None \<longleftrightarrow>
        unat n \<le> length data \<and> unat n \<le> length buf) \<and>
    (\<forall>hdr' st. reply_header hdr' st \<longrightarrow>
        VSSI_HandleReadReply (Some hdr') object len buf = None \<and>
        VSSI_HandleWriteReply (Some hdr') object len = None \<and>
        VSSI_HandleVersionReply (Some hdr') object = None)"
proof (intro conjI allI impI)
  have fields: "vss_read_file_reply_get_length (be_enc 4 n @ data) = Some n"
    "vss_read_file_reply_get_data (be_enc 4 n @ data) = Some data"
    "vss_read_reply_get_length (be_enc 8 objver @ be_enc 4 n @ data) = Some n"
    "vss_read_reply_get_data (be_enc 8 objver @ be_enc 4 n @ data) = Some data"
    "vss_read_reply_get_objver (be_enc 8 objver @ be_enc 4 n @ data) = Some objver"
    by (simp_all add: wire rd_bytes_def ptr_at_def)
  show "VSSI_HandleReadFileReply (Some (hdr @ be_enc 4 n @ data)) len buf \<noteq> None \<longleftrightarrow>
      unat n \<le> length data \<and> unat n \<le> length buf"
    using ok memcpy_at_defined [of buf data "unat n"]
    by (cases "memcpy_at buf 0 data (unat n)") (simp_all add: VSSI_HandleReadFileReply_def fields)
  show "VSSI_HandleReadReply (Some (hdr @ be_enc 8 objver @ be_enc 4 n @ data)) object len buf \<noteq> None \<longleftrightarrow>
      unat n \<le> length data \<and> unat n \<le> length buf"
    using ok memcpy_at_defined [of buf data "unat n"]
    by (cases "memcpy_at buf 0 data (unat n)") (simp_all add: VSSI_HandleReadReply_def fields)
  fix hdr' st assume h: "reply_header hdr' st"
  have d: "reply_data hdr' = Some []" "vss_get_status hdr' = Some st"
    using h reply_data_append [OF h, of "[]"] by (simp_all add: reply_header_def)
  have none: "vss_read_reply_get_objver [] = None" "vss_write_reply_get_objver [] = None"
    "vss_version_reply_get_objver [] = None"
    by (simp_all add: wire rd_bytes_def)
  show "VSSI_HandleReadReply (Some hdr') object len buf = None"
    by (simp add: VSSI_HandleReadReply_def d none bind_eq_None_conv)
  show "VSSI_HandleWriteReply (Some hdr') object len = None"
    by (simp add: VSSI_HandleWriteReply_def d none bind_eq_None_conv)
  show "VSSI_HandleVersionReply (Some hdr') object = None"
    by (simp add: VSSI_HandleVersionReply_def d none bind_eq_None_conv)
qed

theorem read_replies_trust_length_witness:
  "VSSI_HandleReadFileReply (Some (demo_header 0 @ be_enc 4 (2 :: u32) @ [7, 8])) 1 [1] = None"
  using read_replies_trust_length [OF demo_header_ok(1), of 2 "[7, 8]" 1 "[1]", THEN conjunct1] by (simp del: not_None_eq)

end
