(* ===== verification/Vssi_Transport.thy ===== *)
theory Vssi_Transport
  imports Vssi_Slots
begin

text \<open>
  Sending commands over the sockets of a server (\<open>vssi_vss.c\<close>, \<open>VSSI_SendToServerUnlocked\<close>;
  \<open>vssi_internal.c\<close>, \<open>VSSI_SendVSRequest\<close>; the structures of \<open>vssi_internal.h\<close>): a message goes to
  the first connection that sends nothing, otherwise to the queue all connections of the server
  share, which a connection takes its next message from when it has sent one whole.

  A pointer to a command is an address in the memory \<open>m\<close> of command structures; a pointer to a
  connection is the address kept in it (\<open>vc_addr\<close>); the socket is \<open>None\<close> for \<open>VPLSOCKET_INVALID\<close>. What
  \<open>VPLSocket_Send\<close> returns is an argument, and the bytes it took are returned beside the new state.
  Wall-clock times, and the calls that wake the socket loop, are left out.
\<close>

datatype connect_state = CONNECTION_DISCONNECTED | CONNECTION_CONNECTING | CONNECTION_CONNECTED |
  CONNECTION_ACTIVE | CONNECTION_FAILED

record VSSI_VSConnection =
  vc_addr :: nat
  vc_conn_id :: ptr
  vc_connected :: bool
  vc_enable_send :: bool
  vc_send_msg :: "VSSI_MsgBuffer option"
  vc_sent_so_far :: nat
  vc_incoming_reply :: "buffer option"
  vc_reply_bufsize :: nat
  vc_replylen :: nat
  vc_replylen_recvd :: nat
  vc_cur_session :: ptr
  vc_cur_send_state :: ptr
  vc_cmds_outstanding :: int
  vc_timeout_suspended :: int

record VSSI_VSConnectionNode =
  cn_cluster_id :: u64
  cn_type :: int
  cn_connect_state :: connect_state
  cn_route_id :: int
  cn_object :: ptr
  cn_refcount :: int
  cn_send_head :: ptr
  cn_send_tail :: ptr
  cn_connections :: "VSSI_VSConnection list"

type_synonym cmd_memory = "VSSI_PendInfo list"

text \<open>
  The loop over the connections: the command, until one takes it. (The loop also counts the
  connections and the busy ones, for a step the code leaves to be done.)
\<close>

fun assign_connection ::
  "VSSI_VSConnection list \<Rightarrow> ptr \<Rightarrow> cmd_memory \<Rightarrow> VSSI_VSConnection list \<times> ptr \<times> cmd_memory" where
  "assign_connection [] cmd_info m = ([], cmd_info, m)"
| "assign_connection (connection # cs) cmd_info m =
     (case cmd_info of
        Some a \<Rightarrow>
          if vc_conn_id connection \<noteq> None \<and> vc_send_msg connection = None then
            (case assign_connection cs None
                (m[a := (m ! a)\<lparr>pi_connection := Some (vc_addr connection), pi_msg := None\<rparr>]) of
               (cs', cmd_info', m') \<Rightarrow>
                 (connection\<lparr>vc_send_msg := pi_msg (m ! a), vc_enable_send := True,
                    vc_cmds_outstanding := vc_cmds_outstanding connection + 1\<rparr> # cs', cmd_info', m'))
          else (case assign_connection cs cmd_info m of (cs', cmd_info', m') \<Rightarrow> (connection # cs', cmd_info', m'))
      | None \<Rightarrow> (case assign_connection cs cmd_info m of (cs', cmd_info', m') \<Rightarrow> (connection # cs', cmd_info', m')))"

definition VSSI_SendToServerUnlocked ::
  "VSSI_VSConnectionNode \<Rightarrow> ptr \<Rightarrow> cmd_memory \<Rightarrow> VSSI_VSConnectionNode \<times> cmd_memory" where
  "VSSI_SendToServerUnlocked server_connection cmd_info m =
     (case assign_connection (cn_connections server_connection) cmd_info m of
        (conns, cmd_info', m1) \<Rightarrow>
          let node = server_connection\<lparr>cn_connections := conns\<rparr>
          in case cmd_info' of
               None \<Rightarrow> (node, m1)
             | Some a \<Rightarrow>
                 let (node2, m2) = (case cn_send_tail node of
                       Some t \<Rightarrow> (node, m1[t := (m1 ! t)\<lparr>pi_next := Some a\<rparr>])
                     | None \<Rightarrow> (node\<lparr>cn_send_head := Some a\<rparr>, m1))
                 in (node2\<lparr>cn_send_tail := Some a\<rparr>, m2[a := (m2 ! a)\<lparr>pi_next := None\<rparr>]))"

text \<open>With the node's mutex taken.\<close>

definition VSSI_SendToServer ::
  "VSSI_VSConnectionNode \<Rightarrow> ptr \<Rightarrow> cmd_memory \<Rightarrow> VSSI_VSConnectionNode \<times> cmd_memory" where
  "VSSI_SendToServer server_connection cmd_info m = VSSI_SendToServerUnlocked server_connection cmd_info m"

text \<open>The message of the head of the queue becomes the one the connection sends.\<close>

definition next_send ::
  "VSSI_VSConnectionNode \<Rightarrow> VSSI_VSConnection \<Rightarrow> cmd_memory \<Rightarrow> VSSI_VSConnectionNode \<times> VSSI_VSConnection \<times> cmd_memory" where
  "next_send conn_node connection m = (case cn_send_head conn_node of
     None \<Rightarrow> (conn_node, connection\<lparr>vc_send_msg := None\<rparr>, m)
   | Some a \<Rightarrow>
       let m' = m[a := (m ! a)\<lparr>pi_msg := None, pi_connection := Some (vc_addr connection)\<rparr>];
           node' = conn_node\<lparr>cn_send_head := pi_next (m' ! a)\<rparr>
       in (if cn_send_head node' = None then node'\<lparr>cn_send_tail := None\<rparr> else node',
           connection\<lparr>vc_send_msg := pi_msg (m ! a), vc_cmds_outstanding := vc_cmds_outstanding connection + 1\<rparr>,
           m'))"

definition VSSI_SendVSRequest ::
  "int \<Rightarrow> VSSI_VSConnectionNode \<Rightarrow> nat \<Rightarrow> cmd_memory \<Rightarrow> VSSI_VSConnectionNode \<times> cmd_memory \<times> buffer" where
  "VSSI_SendVSRequest send_rc conn_node i m =
     (let connection = cn_connections conn_node ! i;
          (node1, connection1, m1, sent) = (case vc_send_msg connection of
              None \<Rightarrow> (conn_node, connection, m, [])
            | Some msg \<Rightarrow>
                if send_rc > 0 then
                  let so_far = vc_sent_so_far connection + nat send_rc;
                      sent = take (nat send_rc) (drop (vc_sent_so_far connection) (msg_msg msg))
                  in if so_far = msg_length msg then
                       (case next_send conn_node (connection\<lparr>vc_sent_so_far := 0\<rparr>) m of
                          (node', connection', m') \<Rightarrow> (node', connection', m', sent))
                     else (conn_node, connection\<lparr>vc_sent_so_far := so_far\<rparr>, m, sent)
                else (conn_node, connection, m, []));
          connection2 = (if vc_send_msg connection1 = None then connection1\<lparr>vc_enable_send := False\<rparr> else connection1)
      in (node1\<lparr>cn_connections := (cn_connections node1)[i := connection2]\<rparr>, m1, sent))"

end
