(* ===== verification/Vssi_Transport_Correct.thy ===== *)
theory Vssi_Transport_Correct
  imports Vssi_Transport Vssi_Slots_Correct
begin

text \<open>
  What the sockets carry: over any history of commands given to a server and of sends on its
  sockets, every socket carries whole messages, one after the other, messages are taken in the order
  they were given, nothing waits while a socket is idle, and every send that takes bytes brings the
  end nearer.
\<close>

section \<open>The queue and the connections\<close>

text \<open>The bytes of a message on the wire, and those a connection has still to send.\<close>

definition wire_image :: "VSSI_MsgBuffer \<Rightarrow> buffer" where
  "wire_image x = take (msg_length x) (msg_msg x)"

definition unsent :: "VSSI_VSConnection \<Rightarrow> buffer" where
  "unsent c = (case vc_send_msg c of None \<Rightarrow> [] | Some x \<Rightarrow> drop (vc_sent_so_far c) (wire_image x))"

definition msg_ok :: "VSSI_MsgBuffer \<Rightarrow> bool" where
  "msg_ok x \<longleftrightarrow> 0 < msg_length x \<and> msg_length x \<le> length (msg_msg x)"

definition conn_ok :: "VSSI_VSConnection \<Rightarrow> bool" where
  "conn_ok c \<longleftrightarrow> (case vc_send_msg c of
     None \<Rightarrow> vc_sent_so_far c = 0
   | Some x \<Rightarrow> msg_ok x \<and> vc_sent_so_far c < msg_length x \<and> vc_enable_send c \<and> vc_conn_id c \<noteq> None)"

definition idle :: "VSSI_VSConnection \<Rightarrow> bool" where
  "idle c \<longleftrightarrow> vc_conn_id c \<noteq> None \<and> vc_send_msg c = None"

definition has_msg :: "cmd_memory \<Rightarrow> nat \<Rightarrow> bool" where
  "has_msg m a \<longleftrightarrow> a < length m \<and> (\<exists>x. pi_msg (m ! a) = Some x \<and> msg_ok x)"

definition queue_of :: "VSSI_VSConnectionNode \<Rightarrow> cmd_memory \<Rightarrow> nat list \<Rightarrow> bool" where
  "queue_of node m qs \<longleftrightarrow> chain (\<lambda>a. pi_next (m ! a)) (cn_send_head node) qs \<and> distinct qs \<and>
     cn_send_tail node = (if qs = [] then None else Some (last qs))"

definition node_ok :: "VSSI_VSConnectionNode \<Rightarrow> cmd_memory \<Rightarrow> nat list \<Rightarrow> bool" where
  "node_ok node m qs \<longleftrightarrow> queue_of node m qs \<and> list_all (has_msg m) qs \<and>
     list_all conn_ok (cn_connections node) \<and>
     (qs \<noteq> [] \<longrightarrow> list_all (\<lambda>c. \<not> idle c) (cn_connections node))"

definition cmd_image :: "cmd_memory \<Rightarrow> nat \<Rightarrow> buffer" where
  "cmd_image m a = wire_image (the (pi_msg (m ! a)))"

lemma assign_connection_none [simp]: "assign_connection cs None m = (cs, None, m)"
  by (induction cs) auto

lemma assign_connection_cases:
  obtains (taken) i where "i < length cs" and "idle (cs ! i)" and
      "assign_connection cs (Some a) m =
        (cs[i := (cs ! i)\<lparr>vc_send_msg := pi_msg (m ! a), vc_enable_send := True,
                    vc_cmds_outstanding := vc_cmds_outstanding (cs ! i) + 1\<rparr>], None,
         m[a := (m ! a)\<lparr>pi_connection := Some (vc_addr (cs ! i)), pi_msg := None\<rparr>])"
  | (queued) "list_all (\<lambda>c. \<not> idle c) cs" and "assign_connection cs (Some a) m = (cs, Some a, m)"
proof (induction cs arbitrary: thesis)
  case Nil
  then show ?case by simp
next
  case (Cons c cs)
  show ?case
  proof (cases "idle c")
    case True
    then show ?thesis using Cons.prems(1) [of 0] by (simp add: idle_def)
  next
    case False
    show ?thesis
    proof (rule Cons.IH)
      fix i assume "i < length cs" "idle (cs ! i)" and
        "assign_connection cs (Some a) m =
          (cs[i := (cs ! i)\<lparr>vc_send_msg := pi_msg (m ! a), vc_enable_send := True,
                      vc_cmds_outstanding := vc_cmds_outstanding (cs ! i) + 1\<rparr>], None,
           m[a := (m ! a)\<lparr>pi_connection := Some (vc_addr (cs ! i)), pi_msg := None\<rparr>])"
      with False show thesis using Cons.prems(1) [of "Suc i"] by (auto simp: idle_def)
    next
      assume "list_all (\<lambda>c. \<not> idle c) cs" "assign_connection cs (Some a) m = (cs, Some a, m)"
      with False show thesis using Cons.prems(2) by (auto simp: idle_def)
    qed
  qed
qed

section \<open>A command is given\<close>

lemma has_msg_upd: "has_msg m q \<Longrightarrow> q \<noteq> a \<Longrightarrow> has_msg (m[a := v]) q"
  by (simp add: has_msg_def)

lemma cmd_image_upd [simp]: "q \<noteq> a \<Longrightarrow> cmd_image (m[a := v]) q = cmd_image m q"
  by (simp add: cmd_image_def)

lemma has_msg_next: "has_msg (m[a := (m ! a)\<lparr>pi_next := p\<rparr>]) q \<longleftrightarrow> has_msg m q"
  by (cases "a < length m") (auto simp: has_msg_def nth_list_update list_update_beyond not_less)

lemma cmd_image_next [simp]: "cmd_image (m[a := (m ! a)\<lparr>pi_next := p\<rparr>]) q = cmd_image m q"
  by (cases "a < length m") (auto simp: cmd_image_def nth_list_update list_update_beyond not_less)

lemma chain_upd:
  "a \<notin> set qs \<Longrightarrow> chain (\<lambda>x. pi_next (m[a := v] ! x)) p qs = chain (\<lambda>x. pi_next (m ! x)) p qs"
  by (rule chain_cong) (metis nth_list_update_neq)

lemma queue_of_upd:
  "queue_of node m qs \<Longrightarrow> a \<notin> set qs \<Longrightarrow> queue_of (node\<lparr>cn_connections := cs\<rparr>) (m[a := v]) qs"
  by (simp add: queue_of_def chain_upd)

text \<open>Linking \<open>a\<close> behind the queue.\<close>

definition link_send :: "VSSI_VSConnectionNode \<Rightarrow> nat \<Rightarrow> cmd_memory \<Rightarrow> VSSI_VSConnectionNode \<times> cmd_memory" where
  "link_send node a m =
     (let (node2, m2) = (case cn_send_tail node of
            Some t \<Rightarrow> (node, m[t := (m ! t)\<lparr>pi_next := Some a\<rparr>])
          | None \<Rightarrow> (node\<lparr>cn_send_head := Some a\<rparr>, m))
      in (node2\<lparr>cn_send_tail := Some a\<rparr>, m2[a := (m2 ! a)\<lparr>pi_next := None\<rparr>]))"

lemma link_send_queue:
  assumes q: "queue_of node m qs" and qs: "list_all (has_msg m) qs"
    and a: "a \<notin> set qs" "has_msg m a" and r: "link_send node a m = (node', m')"
  shows "queue_of node' m' (qs @ [a])" and "list_all (has_msg m') (qs @ [a])"
    and "cmd_image m' = cmd_image m" and "cn_connections node' = cn_connections node"
proof -
  have bound: "a < length m" "\<And>x. x \<in> set qs \<Longrightarrow> x < length m"
    using a qs by (auto simp: has_msg_def list_all_iff)
  show "queue_of node' m' (qs @ [a])"
  proof (cases "qs = []")
    case True
    with q r bound a show ?thesis by (auto simp: queue_of_def link_send_def)
  next
    case False
    then have last: "last qs \<in> set qs" by simp
    with False q r a bound have m': "m' = (m[last qs := (m ! last qs)\<lparr>pi_next := Some a\<rparr>])
        [a := (m ! a)\<lparr>pi_next := None\<rparr>]" "cn_send_head node' = cn_send_head node"
        "cn_send_tail node' = Some a"
      by (auto simp: queue_of_def link_send_def nth_list_update)
    have "chain (\<lambda>x. pi_next (m' ! x)) (cn_send_head node) (qs @ [a])"
      by (rule chain_snoc [where nx = "\<lambda>x. pi_next (m ! x)"])
        (use q False a bound last in \<open>auto simp: queue_of_def m' nth_list_update\<close>)
    then show ?thesis using q a m' by (simp add: queue_of_def)
  qed
  show "list_all (has_msg m') (qs @ [a])"
    using qs a r by (auto simp: link_send_def has_msg_next list_all_iff split: option.splits)
  show "cmd_image m' = cmd_image m"
    using r by (auto simp: link_send_def fun_eq_iff split: option.splits)
  show "cn_connections node' = cn_connections node"
    using r by (auto simp: link_send_def split: option.splits)
qed

lemma VSSI_SendToServer_step:
  assumes ok: "node_ok node m qs" and a: "a \<notin> set qs" "has_msg m a"
    and r: "VSSI_SendToServer node (Some a) m = (node', m')"
  obtains (taken) i where "i < length (cn_connections node)" and "qs = []"
      and "unsent (cn_connections node ! i) = []"
      and "map unsent (cn_connections node') = (map unsent (cn_connections node))[i := cmd_image m a]"
      and "node_ok node' m' []"
  | (queued) "cn_connections node' = cn_connections node" and "cmd_image m' = cmd_image m"
      and "node_ok node' m' (qs @ [a])"
proof (rule assign_connection_cases [of "cn_connections node" a m])
  fix i
  let ?c = "cn_connections node ! i"
  let ?c' = "?c\<lparr>vc_send_msg := pi_msg (m ! a), vc_enable_send := True,
      vc_cmds_outstanding := vc_cmds_outstanding ?c + 1\<rparr>"
  let ?m' = "m[a := (m ! a)\<lparr>pi_connection := Some (vc_addr ?c), pi_msg := None\<rparr>]"
  assume i: "i < length (cn_connections node)" "idle ?c"
    and as: "assign_connection (cn_connections node) (Some a) m = ((cn_connections node)[i := ?c'], None, ?m')"
  have c: "conn_ok ?c" using ok i by (auto simp: node_ok_def list_all_length)
  have qs: "qs = []" using ok i by (auto simp: node_ok_def list_all_length)
  have r': "node' = node\<lparr>cn_connections := (cn_connections node)[i := ?c']\<rparr>" "m' = ?m'"
    using r as by (simp_all add: VSSI_SendToServer_def VSSI_SendToServerUnlocked_def)
  obtain x where x: "pi_msg (m ! a) = Some x" "msg_ok x" using a by (auto simp: has_msg_def)
  have un: "unsent ?c' = cmd_image m a" and c': "conn_ok ?c'"
    using c i x by (auto simp: unsent_def cmd_image_def conn_ok_def idle_def msg_ok_def)
  show thesis
  proof (rule taken [OF i(1) qs])
    show "unsent ?c = []" using i by (simp add: unsent_def idle_def)
    show "map unsent (cn_connections node') = (map unsent (cn_connections node))[i := cmd_image m a]"
      using un by (simp add: r' map_update)
    show "node_ok node' m' []"
      using ok qs queue_of_upd [of node m "[]" a] c' i
      by (auto simp: node_ok_def r' list_all_length nth_list_update)
  qed
next
  assume busy: "list_all (\<lambda>c. \<not> idle c) (cn_connections node)"
    and as: "assign_connection (cn_connections node) (Some a) m = (cn_connections node, Some a, m)"
  have l: "link_send node a m = (node', m')"
    using r as by (cases node)
      (simp add: VSSI_SendToServer_def VSSI_SendToServerUnlocked_def link_send_def Let_def)
  have q: "queue_of node m qs" "list_all (has_msg m) qs" using ok by (auto simp: node_ok_def)
  note L = link_send_queue [OF q a l]
  show thesis
    using ok busy L by (intro queued) (auto simp: node_ok_def)
qed

section \<open>A socket takes bytes\<close>

lemma node_ok_set_conn:
  assumes "node_ok node m qs" and "conn_ok c" and "idle c \<Longrightarrow> qs = []"
  shows "node_ok (node\<lparr>cn_connections := (cn_connections node)[i := c]\<rparr>) m qs"
  using assms
  by (cases "i < length (cn_connections node)")
    (auto simp: node_ok_def queue_of_def list_all_length nth_list_update list_update_beyond not_less)

lemma next_send_step:
  assumes ok: "node_ok node m qs" and c: "vc_conn_id c \<noteq> None" "vc_sent_so_far c = 0" "vc_enable_send c"
    and r: "next_send node c m = (node', c', m')"
  shows "cn_connections node' = cn_connections node"
    and "qs = [] \<Longrightarrow> node' = node \<and> m' = m \<and> c' = c\<lparr>vc_send_msg := None\<rparr>"
    and "qs = q # qs' \<Longrightarrow> unsent c' = cmd_image m q \<and> conn_ok c' \<and> \<not> idle c' \<and>
      vc_send_msg c' \<noteq> None \<and> node_ok node' m' qs' \<and> (\<forall>x\<in>set qs'. cmd_image m' x = cmd_image m x)"
proof -
  have head: "cn_send_head node = (case qs of [] \<Rightarrow> None | q # _ \<Rightarrow> Some q)"
    using ok chain_head by (fastforce simp: node_ok_def queue_of_def)
  show "cn_connections node' = cn_connections node"
    using r by (auto simp: next_send_def Let_def split: option.splits)
  show "node' = node \<and> m' = m \<and> c' = c\<lparr>vc_send_msg := None\<rparr>" if "qs = []"
    using r head that by (simp add: next_send_def)
  assume qs: "qs = q # qs'"
  define m1 where "m1 = m[q := (m ! q)\<lparr>pi_msg := None, pi_connection := Some (vc_addr c)\<rparr>]"
  have q: "q < length m" "q \<notin> set qs'" and "\<exists>x. pi_msg (m ! q) = Some x \<and> msg_ok x"
    using ok qs by (auto simp: node_ok_def queue_of_def has_msg_def)
  then obtain x where x: "pi_msg (m ! q) = Some x" "msg_ok x" by blast
  have next_q: "pi_next (m1 ! q) = pi_next (m ! q)" using q by (simp add: m1_def)
  have chain': "chain (\<lambda>a. pi_next (m ! a)) (pi_next (m ! q)) qs'"
    using ok qs by (simp add: node_ok_def queue_of_def)
  have r': "m' = m1" "c' = c\<lparr>vc_send_msg := Some x, vc_cmds_outstanding := vc_cmds_outstanding c + 1\<rparr>"
    "cn_send_head node' = pi_next (m ! q)"
    "cn_send_tail node' = (if pi_next (m ! q) = None then None else cn_send_tail node)"
    "cn_connections node' = cn_connections node"
    using r head qs x next_q by (auto simp: next_send_def Let_def m1_def [symmetric])
  have "queue_of node' m' qs'"
    using ok qs q chain' chain_head [OF chain']
    by (cases qs') (auto simp: queue_of_def node_ok_def r' m1_def chain_upd)
  then have "node_ok node' m' qs'"
    using ok qs q r' by (auto simp: node_ok_def m1_def list_all_iff intro!: has_msg_upd)
  moreover have "\<forall>x\<in>set qs'. cmd_image m' x = cmd_image m x" using q by (auto simp: r' m1_def intro!: cmd_image_upd)
  ultimately show "unsent c' = cmd_image m q \<and> conn_ok c' \<and> \<not> idle c' \<and>
      vc_send_msg c' \<noteq> None \<and> node_ok node' m' qs' \<and> (\<forall>x\<in>set qs'. cmd_image m' x = cmd_image m x)"
    using x c by (auto simp: r' unsent_def conn_ok_def idle_def msg_ok_def) (simp_all add: cmd_image_def)
qed

lemma VSSI_SendVSRequest_step:
  assumes ok: "node_ok node m qs" and i: "i < length (cn_connections node)"
    and rc: "send_rc \<le> int (length (unsent (cn_connections node ! i)))"
    and r: "VSSI_SendVSRequest send_rc node i m = (node', m', sent)"
  obtains (part) rest where "unsent (cn_connections node ! i) = sent @ rest"
      and "map unsent (cn_connections node') = (map unsent (cn_connections node))[i := rest]"
      and "m' = m" and "node_ok node' m qs"
  | (whole) q qs' where "qs = q # qs'" and "unsent (cn_connections node ! i) = sent"
      and "map unsent (cn_connections node') = (map unsent (cn_connections node))[i := cmd_image m q]"
      and "node_ok node' m' qs'" and "\<forall>x\<in>set qs'. cmd_image m' x = cmd_image m x"
proof -
  let ?c = "cn_connections node ! i"
  have c: "conn_ok ?c" using ok i by (auto simp: node_ok_def list_all_length)
  show thesis
  proof (cases "vc_send_msg ?c")
    case None
    let ?c' = "?c\<lparr>vc_enable_send := False\<rparr>"
    have r': "node' = node\<lparr>cn_connections := (cn_connections node)[i := ?c']\<rparr>" "m' = m" "sent = []"
      using r None by (auto simp: VSSI_SendVSRequest_def Let_def)
    have "node_ok node' m qs"
      unfolding r' using ok i None c
      by (intro node_ok_set_conn) (auto simp: conn_ok_def idle_def node_ok_def list_all_length)
    moreover have "unsent ?c' = []" "unsent ?c = []" using None by (simp_all add: unsent_def)
    ultimately show thesis using None by (intro part [of "[]"]) (simp_all add: r' map_update)
  next
    case (Some x)
    have x: "msg_ok x" "vc_sent_so_far ?c < msg_length x" "vc_enable_send ?c" "vc_conn_id ?c \<noteq> None"
      using c Some by (simp_all add: conn_ok_def)
    have un: "unsent ?c = drop (vc_sent_so_far ?c) (wire_image x)" by (simp add: unsent_def Some)
    have len: "length (unsent ?c) = msg_length x - vc_sent_so_far ?c"
      using x by (simp add: un wire_image_def msg_ok_def)
    show thesis
    proof (cases "0 < send_rc")
      case False
      have "node' = node" "m' = m" "sent = []"
        using r Some False by (auto simp: VSSI_SendVSRequest_def Let_def)
      then show thesis using ok i by (intro part [of "unsent ?c"]) (simp_all add: map_update [symmetric])
    next
      case True
      then obtain k where k: "send_rc = int k" "0 < k" by (metis zero_less_imp_eq_int)
      have k_le: "vc_sent_so_far ?c + k \<le> msg_length x" using rc len x by (simp add: k)
      have sent: "take k (drop (vc_sent_so_far ?c) (msg_msg x)) = take k (unsent ?c)"
        using k_le by (simp add: un wire_image_def drop_take min_def)
      show thesis
      proof (cases "vc_sent_so_far ?c + k = msg_length x")
        case False
        let ?c' = "?c\<lparr>vc_sent_so_far := vc_sent_so_far ?c + k\<rparr>"
        have r': "node' = node\<lparr>cn_connections := (cn_connections node)[i := ?c']\<rparr>" "m' = m"
          "sent = take k (unsent ?c)"
          using r Some False k sent by (auto simp: VSSI_SendVSRequest_def Let_def)
        have "node_ok node' m qs"
          unfolding r' using ok Some False x k_le
          by (intro node_ok_set_conn) (auto simp: conn_ok_def idle_def)
        moreover have "unsent ?c' = drop k (unsent ?c)"
          by (simp add: un unsent_def Some add.commute)
        ultimately show thesis using r' by (intro part [of "drop k (unsent ?c)"]) (simp_all add: map_update)
      next
        case whole_sent: True
        let ?clear = "?c\<lparr>vc_sent_so_far := 0\<rparr>"
        obtain n1 c1 m1 where ns: "next_send node ?clear m = (n1, c1, m1)" by (metis prod_cases3)
        have sent_all: "sent = unsent ?c"
          using r Some k whole_sent ns sent len by (simp add: VSSI_SendVSRequest_def Let_def)
        have c0: "vc_conn_id ?clear \<noteq> None" "vc_sent_so_far ?clear = 0" "vc_enable_send ?clear" using x by simp_all
        note step = next_send_step [OF ok c0 ns]
        show thesis
        proof (cases qs)
          case Nil
          let ?c' = "?clear\<lparr>vc_send_msg := None, vc_enable_send := False\<rparr>"
          have r': "node' = node\<lparr>cn_connections := (cn_connections node)[i := ?c']\<rparr>" "m' = m"
            using r Some k whole_sent ns step(2) [OF Nil] by (auto simp: VSSI_SendVSRequest_def Let_def)
          have "node_ok node' m qs"
            unfolding r' using ok Nil by (intro node_ok_set_conn) (auto simp: conn_ok_def)
          moreover have "unsent ?c' = []" by (simp add: unsent_def)
          ultimately show thesis using r' sent_all by (intro part [of "[]"]) (simp_all add: map_update)
        next
          case (Cons q qs')
          note step3 = step(3) [OF Cons]
          have r': "node' = n1\<lparr>cn_connections := (cn_connections n1)[i := c1]\<rparr>" "m' = m1"
            using r Some k whole_sent ns step3 by (auto simp: VSSI_SendVSRequest_def Let_def)
          have "node_ok node' m' qs'"
            unfolding r' using step3 by (intro node_ok_set_conn) auto
          then show thesis
            using Cons sent_all step(1) step3 by (intro whole [of q qs']) (simp_all add: r' map_update)
        qed
      qed
    qed
  qed
qed

section \<open>Histories\<close>

text \<open>
  What happens at a server: a command whose structure holds no message is given with a message
  (\<open>cmd_info->msg = msg\<close>, then \<open>VSSI_SendToServer\<close>), or the socket of connection \<open>i\<close> takes what
  \<open>VPLSocket_Send\<close> says, at most what it was handed. \<open>w\<close> is what every socket has carried so far.
\<close>

datatype net_op = Give nat VSSI_MsgBuffer | Send nat int

definition give_cmd :: "nat \<Rightarrow> VSSI_MsgBuffer \<Rightarrow> VSSI_VSConnectionNode \<Rightarrow> cmd_memory \<Rightarrow> VSSI_VSConnectionNode \<times> cmd_memory" where
  "give_cmd a x node m = VSSI_SendToServer node (Some a) (m[a := (m ! a)\<lparr>pi_msg := Some x\<rparr>])"

fun net_allowed :: "net_op \<Rightarrow> VSSI_VSConnectionNode \<Rightarrow> cmd_memory \<Rightarrow> bool" where
  "net_allowed (Give a x) node m \<longleftrightarrow> a < length m \<and> pi_msg (m ! a) = None \<and> msg_ok x"
| "net_allowed (Send i rc) node m \<longleftrightarrow> i < length (cn_connections node) \<and>
     rc \<le> int (length (unsent (cn_connections node ! i)))"

fun net_step ::
  "net_op \<Rightarrow> VSSI_VSConnectionNode \<times> cmd_memory \<times> (nat \<Rightarrow> buffer) \<Rightarrow>
     VSSI_VSConnectionNode \<times> cmd_memory \<times> (nat \<Rightarrow> buffer)" where
  "net_step (Give a x) (node, m, w) = (case give_cmd a x node m of (node', m') \<Rightarrow> (node', m', w))"
| "net_step (Send i rc) (node, m, w) =
     (case VSSI_SendVSRequest rc node i m of (node', m', sent) \<Rightarrow> (node', m', w(i := w i @ sent)))"

fun run_net ::
  "net_op list \<Rightarrow> VSSI_VSConnectionNode \<times> cmd_memory \<times> (nat \<Rightarrow> buffer) \<Rightarrow>
     (VSSI_VSConnectionNode \<times> cmd_memory \<times> (nat \<Rightarrow> buffer)) option" where
  "run_net [] s = Some s"
| "run_net (p # ops) s = (if net_allowed p (fst s) (fst (snd s)) then run_net ops (net_step p s) else None)"

definition given :: "net_op list \<Rightarrow> buffer list" where
  "given ops = concat (map (\<lambda>p. case p of Give a x \<Rightarrow> [wire_image x] | Send i rc \<Rightarrow> []) ops)"

text \<open>The messages a socket was handed, of those taken (\<open>al\<close>) in their order.\<close>

definition taken_by :: "nat \<Rightarrow> (nat \<times> buffer) list \<Rightarrow> buffer list" where
  "taken_by i al = map snd (filter (\<lambda>p. fst p = i) al)"

definition net_view ::
  "VSSI_VSConnectionNode \<Rightarrow> cmd_memory \<Rightarrow> (nat \<Rightarrow> buffer) \<Rightarrow> (nat \<times> buffer) list \<Rightarrow> nat list \<Rightarrow> buffer list \<Rightarrow> bool" where
  "net_view node m w al qs given_msgs \<longleftrightarrow> node_ok node m qs \<and>
     map snd al @ map (cmd_image m) qs = given_msgs \<and>
     (\<forall>i < length (cn_connections node).
        w i @ unsent (cn_connections node ! i) = concat (taken_by i al))"

lemma unsent_eq_nth:
  assumes "map unsent cs' = (map unsent cs)[i := r]"
  shows "length cs' = length cs"
    and "j < length cs \<Longrightarrow> unsent (cs' ! j) = (if j = i then r else unsent (cs ! j))"
proof -
  show len: "length cs' = length cs" using arg_cong [OF assms, of length] by simp
  show "unsent (cs' ! j) = (if j = i then r else unsent (cs ! j))" if "j < length cs"
    using arg_cong [OF assms, of "\<lambda>l. l ! j"] that len by (simp add: nth_list_update)
qed

lemma has_msg_Some: "list_all (has_msg m) qs \<Longrightarrow> pi_msg (m ! a) = None \<Longrightarrow> a \<notin> set qs"
  by (auto simp: list_all_iff has_msg_def)

lemma give_view:
  assumes v: "net_view node m w al qs g" and a: "net_allowed (Give a x) node m"
    and r: "give_cmd a x node m = (node', m')"
  shows "\<exists>al' qs'. net_view node' m' w al' qs' (g @ [wire_image x]) \<and>
    length (cn_connections node') = length (cn_connections node)"
proof -
  let ?m = "m[a := (m ! a)\<lparr>pi_msg := Some x\<rparr>]"
  have ok: "node_ok node m qs" using v by (simp add: net_view_def)
  have aq: "a \<notin> set qs" using ok a has_msg_Some by (auto simp: node_ok_def)
  have q: "queue_of node ?m qs"
    using ok aq queue_of_upd [of node m qs a "cn_connections node"] by (simp add: node_ok_def)
  have ok': "node_ok node ?m qs"
    using ok aq q by (auto simp: node_ok_def list_all_iff intro!: has_msg_upd)
  have img: "cmd_image ?m a = wire_image x" "map (cmd_image ?m) qs = map (cmd_image m) qs"
    using a aq by (auto simp: cmd_image_def) (metis nth_list_update_neq)
  have am: "has_msg ?m a" using a by (simp add: has_msg_def)
  show ?thesis
  proof (rule VSSI_SendToServer_step [OF ok' aq am r [unfolded give_cmd_def]])
    fix i assume i: "i < length (cn_connections node)" "qs = []" "unsent (cn_connections node ! i) = []"
      and un: "map unsent (cn_connections node') = (map unsent (cn_connections node))[i := cmd_image ?m a]"
      and ok'': "node_ok node' m' []"
    have "net_view node' m' w (al @ [(i, wire_image x)]) [] (g @ [wire_image x])"
      using v ok'' unsent_eq_nth [OF un] i img by (auto simp: net_view_def taken_by_def)
    then show ?thesis using unsent_eq_nth(1) [OF un] by blast
  next
    assume eq: "cn_connections node' = cn_connections node" "cmd_image m' = cmd_image ?m"
      and ok'': "node_ok node' m' (qs @ [a])"
    have "net_view node' m' w al (qs @ [a]) (g @ [wire_image x])"
      using v ok'' eq img(1) by (simp add: net_view_def img(2) del: map_eq_conv)
    then show ?thesis using eq by auto
  qed
qed

lemma send_view:
  assumes v: "net_view node m w al qs g" and a: "net_allowed (Send i rc) node m"
    and r: "VSSI_SendVSRequest rc node i m = (node', m', sent)"
  shows "\<exists>al' qs'. net_view node' m' (w(i := w i @ sent)) al' qs' g \<and>
    length (cn_connections node') = length (cn_connections node)"
proof -
  have ok: "node_ok node m qs" using v by (simp add: net_view_def)
  have i: "i < length (cn_connections node)" and rc: "rc \<le> int (length (unsent (cn_connections node ! i)))"
    using a by simp_all
  have whole: "\<And>j. j < length (cn_connections node) \<Longrightarrow>
      w j @ unsent (cn_connections node ! j) = concat (taken_by j al)"
    and g: "map snd al @ map (cmd_image m) qs = g"
    using v by (simp_all add: net_view_def)
  show ?thesis
  proof (rule VSSI_SendVSRequest_step [OF ok i rc r])
    fix rest assume u: "unsent (cn_connections node ! i) = sent @ rest" "m' = m" "node_ok node' m qs"
      and un: "map unsent (cn_connections node') = (map unsent (cn_connections node))[i := rest]"
    note len = unsent_eq_nth(1) [OF un]
    have wi: "w i @ unsent (cn_connections node ! i) = concat (taken_by i al)" by (rule whole [OF i])
    have "net_view node' m' (w(i := w i @ sent)) al qs g"
      using u g whole unsent_eq_nth(2) [OF un] wi by (auto simp: net_view_def len)
    then show ?thesis using len by blast
  next
    fix q qs' assume u: "qs = q # qs'" "unsent (cn_connections node ! i) = sent" "node_ok node' m' qs'"
        "\<forall>x\<in>set qs'. cmd_image m' x = cmd_image m x"
      and un: "map unsent (cn_connections node') = (map unsent (cn_connections node))[i := cmd_image m q]"
    note len = unsent_eq_nth(1) [OF un]
    have wi: "w i @ unsent (cn_connections node ! i) = concat (taken_by i al)" by (rule whole [OF i])
    have "net_view node' m' (w(i := w i @ sent)) (al @ [(i, cmd_image m q)]) qs' g"
      using u g whole unsent_eq_nth(2) [OF un] wi by (auto simp: net_view_def len taken_by_def)
    then show ?thesis using len by blast
  qed
qed

lemma run_view:
  "run_net ops (node, m, w) = Some (node', m', w') \<Longrightarrow> net_view node m w al qs g \<Longrightarrow>
     \<exists>al' qs'. net_view node' m' w' al' qs' (g @ given ops) \<and>
       length (cn_connections node') = length (cn_connections node)"
proof (induction ops arbitrary: node m w al qs g)
  case Nil
  then show ?case by (auto simp: given_def)
next
  case (Cons p ops)
  obtain n1 m1 w1 where s: "net_step p (node, m, w) = (n1, m1, w1)" by (metis prod_cases3)
  from Cons.prems(1) have allowed: "net_allowed p node m" and run: "run_net ops (n1, m1, w1) = Some (node', m', w')"
    by (auto simp: s split: if_splits)
  have "\<exists>al' qs'. net_view n1 m1 w1 al' qs' (g @ given [p]) \<and> length (cn_connections n1) = length (cn_connections node)"
  proof (cases p)
    case (Give a x)
    with s have "give_cmd a x node m = (n1, m1)" "w1 = w" by (auto split: prod.splits)
    with give_view [OF Cons.prems(2) allowed [unfolded Give]] Give show ?thesis by (simp add: given_def)
  next
    case (Send i rc)
    with s obtain sent where "VSSI_SendVSRequest rc node i m = (n1, m1, sent)" "w1 = w(i := w i @ sent)"
      by (auto split: prod.splits)
    with send_view [OF Cons.prems(2) allowed [unfolded Send]] Send show ?thesis by (simp add: given_def)
  qed
  then obtain al1 qs1 where v1: "net_view n1 m1 w1 al1 qs1 (g @ given [p])"
    and len: "length (cn_connections n1) = length (cn_connections node)" by blast
  from Cons.IH [OF run v1] len show ?case by (simp add: given_def)
qed

lemma idle_node_view:
  assumes "cn_send_head node = None" and "cn_send_tail node = None"
    and "\<forall>c\<in>set (cn_connections node). vc_send_msg c = None \<and> vc_sent_so_far c = 0"
  shows "net_view node m (\<lambda>_. []) [] [] []"
  using assms
  by (auto simp: net_view_def node_ok_def queue_of_def taken_by_def conn_ok_def unsent_def list_all_iff)

text \<open>
  C36: From a server at rest, over any history of commands given and of sends on any of its
  sockets, whatever sizes the sends take: the messages taken by sockets so far (\<open>al\<close>, socket and bytes)
  followed by the messages in the queue are the messages given, in the order they were given; every
  socket has carried the messages it took one after the other, none mixed with another, all but the
  unsent end of its last one; and while a message waits in the queue no connected socket is idle.
\<close>
theorem sockets_carry_whole_messages:
  assumes "cn_send_head node = None" and "cn_send_tail node = None"
    and "\<forall>c\<in>set (cn_connections node). vc_send_msg c = None \<and> vc_sent_so_far c = 0"
    and "run_net ops (node, m, \<lambda>_. []) = Some (node', m', w)"
  shows "\<exists>al qs. queue_of node' m' qs \<and>
      map snd al @ map (cmd_image m') qs = given ops \<and>
      (\<forall>i < length (cn_connections node).
         w i @ unsent (cn_connections node' ! i) = concat (taken_by i al)) \<and>
      (qs \<noteq> [] \<longrightarrow> (\<forall>c\<in>set (cn_connections node'). vc_conn_id c \<noteq> None \<longrightarrow> vc_send_msg c \<noteq> None))"
proof -
  obtain al qs where v: "net_view node' m' w al qs (given ops)"
    and len: "length (cn_connections node') = length (cn_connections node)"
    using run_view [OF assms(4) idle_node_view [OF assms(1-3)]] by auto
  show ?thesis
    using v by (intro exI [of _ al] exI [of _ qs])
      (auto simp: net_view_def node_ok_def len list_all_iff idle_def)
qed

definition demo_conn :: "nat \<Rightarrow> VSSI_VSConnection" where
  "demo_conn a = \<lparr>vc_addr = a, vc_conn_id = Some a, vc_connected = True, vc_enable_send = False,
     vc_send_msg = None, vc_sent_so_far = 0, vc_incoming_reply = None, vc_reply_bufsize = 0,
     vc_replylen = 0, vc_replylen_recvd = 0, vc_cur_session = None, vc_cur_send_state = None,
     vc_cmds_outstanding = 0, vc_timeout_suspended = 0\<rparr>"

definition demo_node :: VSSI_VSConnectionNode where
  "demo_node = \<lparr>cn_cluster_id = 1, cn_type = 0, cn_connect_state = CONNECTION_ACTIVE, cn_route_id = 0,
     cn_object = None, cn_refcount = 1, cn_send_head = None, cn_send_tail = None,
     cn_connections = [demo_conn 10, demo_conn 11]\<rparr>"

definition demo_net_ops :: "net_op list" where
  "demo_net_ops = [Give 0 \<lparr>msg_length = 2, msg_msg = [1, 2]\<rparr>, Give 1 \<lparr>msg_length = 1, msg_msg = [3]\<rparr>,
     Give 2 \<lparr>msg_length = 1, msg_msg = [4]\<rparr>, Give 3 \<lparr>msg_length = 1, msg_msg = [5]\<rparr>,
     Send 0 1, Send 0 (- 1), Send 1 1, Send 0 1]"

lemma demo_net_runs:
  "\<exists>n m. run_net demo_net_ops (demo_node, replicate 4 zero_pend, \<lambda>_. []) =
     Some (n, m, (\<lambda>_. [])(0 := [1, 2], 1 := [3])) \<and> cn_send_head n = None"
  by (simp add: demo_net_ops_def demo_node_def demo_conn_def give_cmd_def zero_pend_def numeral_eq_Suc msg_ok_def
      VSSI_SendToServer_def VSSI_SendToServerUnlocked_def VSSI_SendVSRequest_def next_send_def
      unsent_def wire_image_def Let_def fun_eq_iff)

theorem sockets_carry_whole_messages_witness:
  "\<exists>al rest0 rest1. map snd al = [[1, 2], [3], [4], [5]] \<and>
     [1, 2] @ rest0 = concat (taken_by 0 al) \<and> [3] @ rest1 = concat (taken_by 1 (al :: (nat \<times> buffer) list))"
proof -
  obtain n m where r: "run_net demo_net_ops (demo_node, replicate 4 zero_pend, \<lambda>_. []) =
      Some (n, m, (\<lambda>_. [])(0 := [1, 2], 1 := [3]))" and h: "cn_send_head n = None"
    using demo_net_runs by blast
  have g: "given demo_net_ops = [[1, 2], [3], [4], [5]]"
    by (simp add: given_def demo_net_ops_def wire_image_def)
  have start: "cn_send_head demo_node = None" "cn_send_tail demo_node = None"
    "\<forall>c\<in>set (cn_connections demo_node). vc_send_msg c = None \<and> vc_sent_so_far c = 0"
    and two: "length (cn_connections demo_node) = 2"
    by (simp_all add: demo_node_def demo_conn_def)
  from sockets_carry_whole_messages [OF start r] obtain al qs where
    v: "queue_of n m qs" "map snd al @ map (cmd_image m) qs = given demo_net_ops"
    "\<forall>i<2. ((\<lambda>_. [])(0 := [1, 2], 1 := [3])) i @ unsent (cn_connections n ! i) = concat (taken_by i al)"
    unfolding two by (elim exE conjE)
  have "qs = []" using v(1) h by (cases qs) (auto simp: queue_of_def)
  then have "map snd al = [[1, 2], [3], [4], [5]]" using v(2) g by simp
  moreover have "[1, 2] @ unsent (cn_connections n ! 0) = concat (taken_by 0 al)"
    "[3] @ unsent (cn_connections n ! 1) = concat (taken_by 1 al)"
    using v(3) [rule_format, of 0] v(3) [rule_format, of 1] by simp_all
  ultimately show ?thesis by (intro exI conjI)
qed

section \<open>Progress\<close>

text \<open>The bytes given and not yet carried.\<close>

definition backlog :: "VSSI_VSConnectionNode \<Rightarrow> cmd_memory \<Rightarrow> nat list \<Rightarrow> nat" where
  "backlog node m qs = sum_list (map (length \<circ> unsent) (cn_connections node)) + sum_list (map (length \<circ> cmd_image m) qs)"

lemma sum_list_set_nth:
  "i < length xs \<Longrightarrow> sum_list (xs[i := v]) + xs ! i = sum_list xs + (v :: nat)"
  by (induction xs arbitrary: i) (auto split: nat.splits)

lemma sum_list_map_pos: "0 < sum_list (map f xs) \<Longrightarrow> \<exists>x\<in>set xs. f x \<noteq> (0 :: nat)"
  by (induction xs) auto

text \<open>Whatever a send takes is off the backlog.\<close>

lemma send_backlog:
  assumes ok: "node_ok node m qs" and i: "i < length (cn_connections node)"
    and rc: "send_rc \<le> int (length (unsent (cn_connections node ! i)))"
    and r: "VSSI_SendVSRequest send_rc node i m = (node', m', sent)"
  shows "\<exists>qs'. node_ok node' m' qs' \<and> backlog node' m' qs' + length sent = backlog node m qs"
proof -
  have total: "sum_list (map (length \<circ> unsent) (cn_connections node')) + length (unsent (cn_connections node ! i)) =
      sum_list (map (length \<circ> unsent) (cn_connections node)) + length v"
    if "map unsent (cn_connections node') = (map unsent (cn_connections node))[i := v]" for v
    using sum_list_set_nth [of i "map (length \<circ> unsent) (cn_connections node)" "length v"] i
      arg_cong [OF that, of "map length"] by (simp add: map_update)
  show ?thesis
  proof (rule VSSI_SendVSRequest_step [OF ok i rc r])
    fix rest assume "unsent (cn_connections node ! i) = sent @ rest" "m' = m" "node_ok node' m qs"
      "map unsent (cn_connections node') = (map unsent (cn_connections node))[i := rest]"
    then show ?thesis using total [of rest] by (auto simp: backlog_def)
  next
    fix q qs' assume u: "qs = q # qs'" "unsent (cn_connections node ! i) = sent" "node_ok node' m' qs'"
      "map unsent (cn_connections node') = (map unsent (cn_connections node))[i := cmd_image m q]"
      "\<forall>x\<in>set qs'. cmd_image m' x = cmd_image m x"
    have "sum_list (map (length \<circ> cmd_image m') qs') = sum_list (map (length \<circ> cmd_image m) qs')"
      by (rule arg_cong [of _ _ sum_list]) (use u(5) in simp)
    then show ?thesis using u total [OF u(4)] by (intro exI [of _ qs']) (simp add: backlog_def)
  qed
qed

text \<open>
  C37: A server with a connected socket never stops short: as long as bytes given are not
  carried, some connection has its sending enabled and bytes to send, and each send there that takes
  bytes leaves exactly that many fewer, whether or not it brings the next message out of the queue.
\<close>
theorem sending_progresses:
  assumes ok: "node_ok node m qs" and connected: "\<exists>c\<in>set (cn_connections node). vc_conn_id c \<noteq> None"
    and todo: "0 < backlog node m qs"
  shows "\<exists>i < length (cn_connections node). vc_enable_send (cn_connections node ! i) \<and>
      0 < length (unsent (cn_connections node ! i)) \<and>
      (\<forall>k \<in> {1..length (unsent (cn_connections node ! i))}. \<exists>node' m' sent qs'.
         VSSI_SendVSRequest (int k) node i m = (node', m', sent) \<and> length sent = k \<and>
         node_ok node' m' qs' \<and> backlog node' m' qs' + k = backlog node m qs)"
proof -
  have "\<exists>c\<in>set (cn_connections node). vc_send_msg c \<noteq> None"
  proof (cases "qs = []")
    case True
    then have "\<exists>c\<in>set (cn_connections node). (length \<circ> unsent) c \<noteq> 0"
      using todo by (intro sum_list_map_pos) (simp add: backlog_def comp_def)
    then have "\<exists>c\<in>set (cn_connections node). unsent c \<noteq> []" by simp
    then show ?thesis by (auto simp: unsent_def split: option.splits)
  next
    case False
    with ok connected show ?thesis by (fastforce simp: node_ok_def list_all_iff idle_def)
  qed
  then obtain i x where i: "i < length (cn_connections node)" "vc_send_msg (cn_connections node ! i) = Some x"
    by (auto simp: in_set_conv_nth)
  have c: "conn_ok (cn_connections node ! i)" using ok i by (auto simp: node_ok_def list_all_length)
  then have ready: "vc_enable_send (cn_connections node ! i)" "0 < length (unsent (cn_connections node ! i))"
    using i by (auto simp: conn_ok_def unsent_def wire_image_def msg_ok_def)
  have "\<exists>node' m' sent qs'. VSSI_SendVSRequest (int k) node i m = (node', m', sent) \<and> length sent = k \<and>
      node_ok node' m' qs' \<and> backlog node' m' qs' + k = backlog node m qs"
    if k: "k \<in> {1..length (unsent (cn_connections node ! i))}" for k
  proof -
    obtain node' m' sent where r: "VSSI_SendVSRequest (int k) node i m = (node', m', sent)"
      by (metis prod_cases3)
    have len: "length sent = k"
      using r i k c
      by (auto simp: VSSI_SendVSRequest_def Let_def unsent_def wire_image_def conn_ok_def msg_ok_def
          next_send_def split: if_splits option.splits)
    have rc: "int k \<le> int (length (unsent (cn_connections node ! i)))" using k by simp
    from send_backlog [OF ok i(1) rc r] show ?thesis using r len by blast
  qed
  with i(1) ready show ?thesis by blast
qed

theorem sending_progresses_witness:
  "\<exists>node' m' sent. VSSI_SendVSRequest 1 (fst (give_cmd 0 \<lparr>msg_length = 2, msg_msg = [1, 2]\<rparr> demo_node [zero_pend])) 0
      (snd (give_cmd 0 \<lparr>msg_length = 2, msg_msg = [1, 2]\<rparr> demo_node [zero_pend])) = (node', m', sent) \<and>
    length sent = 1"
proof -
  let ?x = "\<lparr>msg_length = 2, msg_msg = [1, 2]\<rparr> :: VSSI_MsgBuffer"
  let ?n = "fst (give_cmd 0 ?x demo_node [zero_pend])" and ?m = "snd (give_cmd 0 ?x demo_node [zero_pend])"
  have n: "node_ok ?n ?m []"
    and b: "0 < backlog ?n ?m []" and c: "\<exists>c\<in>set (cn_connections ?n). vc_conn_id c \<noteq> None"
    and one: "\<And>i. i < length (cn_connections ?n) \<Longrightarrow> 0 < length (unsent (cn_connections ?n ! i)) \<Longrightarrow> i = 0"
    and two: "length (unsent (cn_connections ?n ! 0)) = 2"
    by (auto simp: give_cmd_def demo_node_def demo_conn_def zero_pend_def VSSI_SendToServer_def
        VSSI_SendToServerUnlocked_def node_ok_def queue_of_def conn_ok_def idle_def msg_ok_def backlog_def
        unsent_def wire_image_def less_Suc_eq Let_def split: if_splits)
  from sending_progresses [OF n c b] obtain i where i: "i < length (cn_connections ?n)"
    "0 < length (unsent (cn_connections ?n ! i))"
    "\<forall>k \<in> {1..length (unsent (cn_connections ?n ! i))}. \<exists>node' m' sent qs'.
         VSSI_SendVSRequest (int k) ?n i ?m = (node', m', sent) \<and> length sent = k \<and>
         node_ok node' m' qs' \<and> backlog node' m' qs' + k = backlog ?n ?m []"
    by blast
  have "i = 0" by (rule one [OF i(1,2)])
  with i(3) [rule_format, of 1] two show ?thesis by auto
qed

end
