(* ===== verification/Vssi_Link.thy ===== *)
theory Vssi_Link
  imports Vssi_Transport Vssi_Msg Vssi_Dir
begin

text \<open>
  The state the functions of a session share, and the lookups that make its parts
  (\<open>vssi_internal.h\<close>; \<open>vssi_internal.c\<close>, \<open>VSSI_FreeFileState\<close>, \<open>VSSI_FreeObject\<close>,
  \<open>VSSI_GetServerConnection\<close>, \<open>VSSI_ReleaseServerConnection\<close>, \<open>VSSI_GetSendState\<close>,
  \<open>VSSI_DestroySendState\<close>).

  A \<open>vs_link\<close> is one user session and one server: the session, its send state for the server, the
  server's connection node, the session's objects with their files and routes, and the caller's
  variables results go to. The session is the only one that uses the server, so the walks over all
  sessions meet it alone. The command structures of the send state are the memory of
  \<open>Vssi_Transport\<close>. Objects and files have addresses of their own; a file structure that is freed
  leaves the list, and freeing an address that is in no list does nothing.

  \<open>vs_env\<close> holds what comes from outside in one call: whether allocations succeed and what fresh
  memory holds, the sockets the routes give, the bytes the socket takes. Calls out (callbacks, proxy
  connects, bytes written directly, sockets closed) are events in their order.
\<close>

section \<open>State\<close>

record vs_object =
  vo_addr :: nat
  vo_state :: VSSI_ObjectState
  vo_notify_callback :: ptr
  vo_notify_ctx :: ptr
  vo_notify_connection :: ptr

record vs_file =
  vf_addr :: nat
  vf_state :: VSSI_FileState
  vf_object :: ptr

text \<open>The caller's variables, by address: handles, lengths, buffers, listings, stats, 64-bit results.\<close>

record user_memory =
  um_handle :: "nat \<Rightarrow> ptr"
  um_file :: "nat \<Rightarrow> ptr"
  um_length :: "nat \<Rightarrow> u32"
  um_buf :: "nat \<Rightarrow> buffer"
  um_directory :: "nat \<Rightarrow> VSSI_DirectoryState option"
  um_trashcan :: "nat \<Rightarrow> VSSI_TrashcanState option"
  um_stats :: "nat \<Rightarrow> VSSI_Dirent option"
  um_stats2 :: "nat \<Rightarrow> VSSI_Dirent2 option"
  um_word :: "nat \<Rightarrow> u64"

record vs_link =
  lk_session :: VSSI_UserSession
  lk_cluster :: u64
  lk_routes :: "int list"
  lk_send_state :: "VSSI_SendState option"
  lk_node :: VSSI_VSConnectionNode
  lk_objects :: "vs_object list"
  lk_files :: "vs_file list"
  lk_memory :: user_memory
  lk_randomness :: u32

text \<open>
  \<open>env_stack\<close> is what an uninitialised \<open>VSSI_PendInfo\<close> on the stack holds, \<open>env_xid\<close> an uninitialised
  id, \<open>env_fresh\<close> the address of a new connection, \<open>env_tmp\<close> the buffer a body is decrypted through,
  \<open>env_bytes\<close> what \<open>realloc\<close> leaves in new bytes.
\<close>

record vs_env =
  env_send_state :: bool
  env_realloc :: bool
  env_calloc :: bool
  env_junk :: ptr
  env_message :: bool
  env_crypt :: bool
  env_node :: bool
  env_connection :: bool
  env_fresh :: nat
  env_proxy_state :: bool
  env_device_id :: u64
  env_sockets :: "nat \<Rightarrow> ptr"
  env_routable :: bool
  env_turns :: "send_turn list"
  env_stack :: VSSI_PendInfo
  env_xid :: u32
  env_tmp :: "buffer option"
  env_header :: bool
  env_reply :: bool
  env_bytes :: "nat \<Rightarrow> u8"
  env_directory :: "VSSI_DirectoryState option"
  env_trashcan :: "VSSI_TrashcanState option"
  env_stats :: "VSSI_DirentMetadataState option"
  env_data :: bool

datatype net_event =
    Command_Event event
  | Notify_Event nat ptr u64 buffer u32
  | Socket_Bytes nat buffer
  | Socket_Close nat
  | Proxy_Connect nat

section \<open>Freeing files and objects\<close>

definition VSSI_FreeFileState :: "nat \<Rightarrow> vs_link \<Rightarrow> vs_link" where
  "VSSI_FreeFileState filestate link =
     link\<lparr>lk_files := filter (\<lambda>f. vf_addr f \<noteq> filestate) (lk_files link)\<rparr>"

definition VSSI_FreeObject :: "nat \<Rightarrow> vs_link \<Rightarrow> vs_link" where
  "VSSI_FreeObject ob link =
     link\<lparr>lk_objects := filter (\<lambda>x. vo_addr x \<noteq> ob) (lk_objects link),
          lk_files := filter (\<lambda>f. vf_object f \<noteq> Some ob) (lk_files link)\<rparr>"

text \<open>What resolving commands frees.\<close>

fun settle :: "event list \<Rightarrow> vs_link \<Rightarrow> vs_link" where
  "settle [] link = link"
| "settle (FreeFileState f # evs) link = settle evs (VSSI_FreeFileState f link)"
| "settle (FreeObject ob # evs) link = settle evs (VSSI_FreeObject ob link)"
| "settle (Callback cb ctx rc # evs) link = settle evs link"

definition settled :: "event list \<Rightarrow> vs_link \<Rightarrow> vs_link \<times> net_event list" where
  "settled evs link = (settle evs link, map Command_Event evs)"

section \<open>Send states and server connections\<close>

definition VSSI_GetSendState ::
  "bool \<Rightarrow> VSSI_UserSession \<Rightarrow> u64 \<Rightarrow> VSSI_SendState list \<Rightarrow> VSSI_SendState list \<times> VSSI_SendState option" where
  "VSSI_GetSendState alloc user_session cluster_id send_states =
     (case find (\<lambda>s. ss_cluster_id s = cluster_id) send_states of
        Some s \<Rightarrow> (send_states, Some s)
      | None \<Rightarrow> if \<not> alloc then (send_states, None)
                else let s = new_send_state user_session cluster_id in (s # send_states, Some s))"

text \<open>On a link: the session's send states for other servers do not matter.\<close>

definition link_send_state :: "vs_env \<Rightarrow> vs_link \<Rightarrow> vs_link \<times> VSSI_SendState option" where
  "link_send_state env link =
     (case VSSI_GetSendState (env_send_state env) (lk_session link) (lk_cluster link)
             (case lk_send_state link of None \<Rightarrow> [] | Some s \<Rightarrow> [s]) of
        (states, rv) \<Rightarrow> (link\<lparr>lk_send_state := rv\<rparr>, rv))"

text \<open>A fresh connection structure, as \<open>calloc\<close> and its makers leave it, at address \<open>a\<close>.\<close>

definition new_connection :: "nat \<Rightarrow> VSSI_VSConnection" where
  "new_connection a = \<lparr>vc_addr = a, vc_conn_id = None, vc_connected = False, vc_enable_send = False,
     vc_send_msg = None, vc_sent_so_far = 0, vc_incoming_reply = None, vc_reply_bufsize = 0,
     vc_replylen = 0, vc_replylen_recvd = 0, vc_cur_session = None, vc_cur_send_state = None,
     vc_cmds_outstanding = 0, vc_timeout_suspended = 0\<rparr>"

text \<open>
  The node for the cluster: the one at hand unless it is another server's or has failed, otherwise a
  new one. (A failed node also stands for there being none.)
\<close>

definition VSSI_GetServerConnection ::
  "bool \<Rightarrow> nat \<Rightarrow> u64 \<Rightarrow> VSSI_VSConnectionNode \<Rightarrow> VSSI_VSConnectionNode option" where
  "VSSI_GetServerConnection alloc fresh cluster_id node =
     (if cn_cluster_id node = cluster_id \<and> cn_connect_state node \<noteq> CONNECTION_FAILED
      then Some (node\<lparr>cn_refcount := cn_refcount node + 1\<rparr>)
      else if \<not> alloc then None
      else Some \<lparr>cn_cluster_id = cluster_id, cn_type = 0, cn_connect_state = CONNECTION_DISCONNECTED,
             cn_route_id = 0, cn_object = None, cn_refcount = 1, cn_send_head = None, cn_send_tail = None,
             cn_connections = [new_connection fresh]\<rparr>)"

definition VSSI_ReleaseServerConnection :: "VSSI_VSConnectionNode \<Rightarrow> VSSI_VSConnectionNode" where
  "VSSI_ReleaseServerConnection node = node\<lparr>cn_refcount := cn_refcount node - 1\<rparr>"

definition VSSI_DestroySendState :: "vs_link \<Rightarrow> vs_link" where
  "VSSI_DestroySendState link =
     (case lk_send_state link of
        None \<Rightarrow> link
      | Some st \<Rightarrow> link\<lparr>lk_send_state := None,
          lk_node := (if ss_server_connection st \<noteq> None
                      then VSSI_ReleaseServerConnection (lk_node link) else lk_node link)\<rparr>)"

text \<open>The server's node is at address 0: \<open>ss_server_connection\<close> is that or NULL.\<close>

definition put_state :: "VSSI_SendState \<Rightarrow> vs_link \<Rightarrow> vs_link" where
  "put_state st link = link\<lparr>lk_send_state := Some st\<rparr>"

definition put_node :: "VSSI_VSConnectionNode \<Rightarrow> vs_link \<Rightarrow> vs_link" where
  "put_node node link = link\<lparr>lk_node := node\<rparr>"

text \<open>Field updates of the first connection of a node.\<close>

definition upd_first :: "(VSSI_VSConnection \<Rightarrow> VSSI_VSConnection) \<Rightarrow> VSSI_VSConnectionNode \<Rightarrow> VSSI_VSConnectionNode" where
  "upd_first f node = node\<lparr>cn_connections := (case cn_connections node of [] \<Rightarrow> [] | c # cs \<Rightarrow> f c # cs)\<rparr>"

text \<open>\<open>VSSI_SendToServer\<close> on the link: the commands live in the send state.\<close>

definition link_send_cmd :: "nat \<Rightarrow> VSSI_SendState \<Rightarrow> vs_link \<Rightarrow> vs_link" where
  "link_send_cmd a st link =
     (case VSSI_SendToServer (lk_node link) (Some a) (ss_cmds st) of (node, cmds) \<Rightarrow>
        put_node node (put_state (st\<lparr>ss_cmds := cmds\<rparr>) link))"

end
