(* ===== verification/Vssi_Session.thy ===== *)
theory Vssi_Session
  imports Vssi_Link
begin

text \<open>
  The life of a session with a server: making the connection (\<open>vssi_internal.c\<close>,
  \<open>VSSI_ConnectVSServer\<close>, \<open>VSSI_ConnectVSServerDone\<close>, \<open>VSSI_HandleLostConnection\<close>), negotiating the
  session and sending commands on it (\<open>vssi_vss.c\<close>, \<open>VSSI_SendVss\<close>, \<open>VSSI_NegotiateSession\<close>,
  \<open>VSSI_NegotiateSessionDone\<close>).

  A result \<open>None\<close> is a NULL pointer dereferenced, an access outside a buffer or an array, or the
  blocking send of the authentication still running when the turns of the socket are used up.
\<close>

definition VSSI_ROUTE_DIRECT_INTERNAL :: int where [simp]: "VSSI_ROUTE_DIRECT_INTERNAL = 1"
definition VSSI_ROUTE_DIRECT_EXTERNAL :: int where [simp]: "VSSI_ROUTE_DIRECT_EXTERNAL = 2"
definition VSSI_ROUTE_PROXY :: int where [simp]: "VSSI_ROUTE_PROXY = 3"
definition VSSI_NOTIFY_DISCONNECTED_EVENT :: u64 where [simp]: "VSSI_NOTIFY_DISCONNECTED_EVENT = 0"

text \<open>A composed message for a header, a fixed body and a variable part, with the crypto given.\<close>

definition make_message ::
  "vs_env \<Rightarrow> VSSI_UserSession \<Rightarrow> u8 \<times> u8 \<times> u8 \<Rightarrow> u32 \<Rightarrow> buffer \<Rightarrow> buffer option \<Rightarrow> nat \<Rightarrow> buffer option \<Rightarrow> nat \<Rightarrow>
     (VSSI_MsgBuffer option \<times> u32) option" where
  "make_message env session crypto randomness header fixed_data fixed_len var_data1 var_len1 =
     (case crypto of (sign_mode, sign_type, enc_type) \<Rightarrow> do {
        (msg, r) \<leftarrow> VSSI_PrepareMessage (env_message env) (env_device_id env) randomness header
                     fixed_data fixed_len var_data1 var_len1 None 0;
        case msg of
          None \<Rightarrow> Some (None, r)
        | Some m \<Rightarrow> do {
            out \<leftarrow> VSSI_ComposeMessage (env_crypt env) session sign_mode sign_type enc_type m;
            Some (out, r) } })"

definition full_crypto :: "u8 \<times> u8 \<times> u8" where
  "full_crypto = (VSS_NEGOTIATE_SIGNING_MODE_FULL, VSS_NEGOTIATE_SIGN_TYPE_SHA1, VSS_NEGOTIATE_ENCRYPT_TYPE_AES128)"

section \<open>Losing a connection\<close>

text \<open>The notifications an object asked for on the connection are over.\<close>

definition cancel_notify :: "ptr \<Rightarrow> vs_object \<Rightarrow> vs_object \<times> net_event list" where
  "cancel_notify connection object =
     (if vo_notify_connection object = connection then
        (object\<lparr>vo_notify_connection := None\<rparr>,
         case vo_notify_callback object of
           None \<Rightarrow> []
         | Some cb \<Rightarrow> [Notify_Event cb (vo_notify_ctx object) VSSI_NOTIFY_DISCONNECTED_EVENT [] 0])
      else (object, []))"

text \<open>The second half of \<open>VSSI_HandleLostConnection\<close>, under the library's mutex.\<close>

definition lost_send_states ::
  "ptr \<Rightarrow> VSSI_Result \<Rightarrow> vs_link \<Rightarrow> (vs_link \<times> net_event list) option" where
  "lost_send_states connection result link =
     (let objects = map (cancel_notify connection) (lk_objects link);
          evs0 = concat (map snd objects);
          link0 = link\<lparr>lk_objects := map fst objects\<rparr>;
          failed = (cn_connect_state (lk_node link) = CONNECTION_FAILED)
      in case lk_send_state link0 of
           None \<Rightarrow> Some (link0, evs0)
         | Some st0 \<Rightarrow>
             if ss_server_connection st0 = None then Some (link0, evs0)
             else do {
               let st1 = (if failed then st0\<lparr>ss_sign_mode := VSS_NEGOTIATE_SIGNING_MODE_FULL,
                             ss_sign_type := VSS_NEGOTIATE_SIGN_TYPE_SHA1,
                             ss_enc_type := VSS_NEGOTIATE_ENCRYPT_TYPE_AES128,
                             ss_negotiated := NEGOTIATE_NEEDED\<rparr> else st0);
               (st2, evs2) \<leftarrow> VSSI_ReplyPendingCommands st1 connection result;
               if cn_connections (lk_node link) = [] \<or> failed then do {
                 (st3, evs3) \<leftarrow> VSSI_ReplyPendingCommands st2 None result;
                 let (link3, evs4) = settled (evs2 @ evs3) link0;
                 Some (VSSI_DestroySendState (put_state st3 link3), evs0 @ evs4) }
               else do {
                 let (link3, evs4) = settled evs2 link0;
                 Some (put_state st2 link3, evs0 @ evs4) } })"

section \<open>Making the connection\<close>

text \<open>\<open>VSS_AUTHENTICATE\<close>, composed with the session of the connecting object.\<close>

definition authenticate_message ::
  "vs_env \<Rightarrow> VSSI_UserSession \<Rightarrow> u64 \<Rightarrow> u32 \<Rightarrow> (VSSI_MsgBuffer option \<times> u32) option" where
  "authenticate_message env session cluster_id randomness = do {
     h1 \<leftarrow> vss_set_command (replicate VSS_HEADER_SIZE 0) VSS_AUTHENTICATE;
     header \<leftarrow> vss_set_xid h1 0;
     request \<leftarrow> vss_authenticate_set_cluster_id (replicate VSS_AUTHENTICATE_SIZE_EXT_VER_0 0) cluster_id;
     make_message env session full_crypto randomness header
       (Some request) VSS_AUTHENTICATE_SIZE_EXT_VER_0 None 0 }"

text \<open>
  The loop over the routes, the first of them number \<open>i\<close>: whether a route was taken, to be completed
  by a reply.
\<close>

fun try_routes :: "vs_env \<Rightarrow> nat \<Rightarrow> int list \<Rightarrow> vs_link \<Rightarrow> (vs_link \<times> net_event list \<times> bool) option" where
  "try_routes env i [] link = Some (link, [], False)"
| "try_routes env i (route # routes) link0 =
     (let link = put_node ((lk_node link0)\<lparr>cn_route_id := int i + 1\<rparr>) link0
      in if route = VSSI_ROUTE_PROXY then
           (if env_proxy_state env then Some (link, [Proxy_Connect i], True)
            else try_routes env (Suc i) routes link)
         else case env_sockets env i of
             None \<Rightarrow> try_routes env (Suc i) routes link
           | Some socket \<Rightarrow> do {
               let node1 = upd_first (\<lambda>c. c\<lparr>vc_conn_id := Some socket\<rparr>) (lk_node link);
               (msg, r) \<leftarrow> authenticate_message env (lk_session link) (cn_cluster_id node1) (lk_randomness link);
               case msg of
                 None \<Rightarrow> try_routes env (Suc i) routes
                   (put_node (node1\<lparr>cn_connect_state := CONNECTION_CONNECTING\<rparr>) (link\<lparr>lk_randomness := r\<rparr>))
               | Some m \<Rightarrow> do {
                   (sent, rc, turns) \<leftarrow> VSSI_Sendall (env_turns env) (msg_msg m) (int (msg_length m)) 0;
                   let node2 = upd_first (\<lambda>c. c\<lparr>vc_connected := True, vc_cmds_outstanding := vc_cmds_outstanding c + 1\<rparr>)
                     (node1\<lparr>cn_type := route, cn_connect_state := CONNECTION_CONNECTED\<rparr>);
                   Some (put_node node2 (link\<lparr>lk_randomness := r\<rparr>), [Socket_Bytes socket sent], True) } })"

text \<open>Out of memory for the connection, the code marks the connection it does not have: \<open>None\<close>.\<close>

definition VSSI_ConnectVSServer ::
  "vs_env \<Rightarrow> VSSI_Result \<Rightarrow> vs_link \<Rightarrow> (vs_link \<times> net_event list) option" where
  "VSSI_ConnectVSServer env result link = do {
     (node1, evs1) \<leftarrow> (case cn_connections (lk_node link) of
         c # cs \<Rightarrow> (case vc_conn_id c of
             None \<Rightarrow> Some (lk_node link, [])
           | Some socket \<Rightarrow> Some (upd_first (\<lambda>c. c\<lparr>vc_conn_id := None, vc_connected := False\<rparr>) (lk_node link),
                                [Socket_Close socket]))
       | [] \<Rightarrow> if env_connection env
               then Some ((lk_node link)\<lparr>cn_connections := [new_connection (env_fresh env)]\<rparr>, []) else None);
     let next_route = nat (cn_route_id node1);
     (link2, evs2, taken) \<leftarrow> try_routes env next_route (drop next_route (lk_routes link)) (put_node node1 link);
     if taken then Some (link2, evs1 @ evs2)
     else do {
       let node3 = upd_first (\<lambda>c. c\<lparr>vc_connected := True\<rparr>)
         ((lk_node link2)\<lparr>cn_connect_state := CONNECTION_FAILED\<rparr>);
       (link3, evs3) \<leftarrow> lost_send_states None VSSI_COMM (put_node node3 link2);
       Some (link3, evs1 @ evs2 @ evs3) } }"

section \<open>Negotiating the session\<close>

text \<open>The request: what security is asked for, and how long the challenge response is.\<close>

definition negotiate_request :: "vs_env \<Rightarrow> int \<Rightarrow> u8 \<Rightarrow> buffer option" where
  "negotiate_request env route_type len = do {
     r1 \<leftarrow> (if route_type = VSSI_ROUTE_DIRECT_INTERNAL \<and> \<not> env_routable env then do {
              a \<leftarrow> vss_negotiate_set_signing_mode (replicate VSS_NEGOTIATE_BASE_SIZE 0) VSS_NEGOTIATE_SIGNING_MODE_HEADER_ONLY;
              b \<leftarrow> vss_negotiate_set_sign_type a VSS_NEGOTIATE_SIGN_TYPE_SHA1;
              vss_negotiate_set_encrypt_type b VSS_NEGOTIATE_ENCRYPT_TYPE_NONE }
            else do {
              a \<leftarrow> vss_negotiate_set_signing_mode (replicate VSS_NEGOTIATE_BASE_SIZE 0) VSS_NEGOTIATE_SIGNING_MODE_FULL;
              b \<leftarrow> vss_negotiate_set_sign_type a VSS_NEGOTIATE_SIGN_TYPE_SHA1;
              vss_negotiate_set_encrypt_type b VSS_NEGOTIATE_ENCRYPT_TYPE_AES128 });
     vss_negotiate_set_chal_resp_len r1 len }"

definition negotiate_message ::
  "vs_env \<Rightarrow> VSSI_UserSession \<Rightarrow> int \<Rightarrow> u32 \<Rightarrow> buffer option \<Rightarrow> u8 \<Rightarrow> u32 \<Rightarrow> (VSSI_MsgBuffer option \<times> u32) option" where
  "negotiate_message env session route_type xid challenge len randomness = do {
     h1 \<leftarrow> vss_set_command (replicate VSS_HEADER_SIZE 0) VSS_NEGOTIATE;
     header \<leftarrow> vss_set_xid h1 xid;
     request \<leftarrow> negotiate_request env route_type len;
     make_message env session full_crypto randomness header
       (Some request) VSS_NEGOTIATE_BASE_SIZE challenge (unat len) }"

text \<open>
  The negotiation's command: the fields the function sets over whatever the stack holds. When the
  table refuses the command, the id is uninitialised too, and the code goes on.
\<close>

definition negotiate_cmd :: "vs_env \<Rightarrow> VSSI_PendInfo" where
  "negotiate_cmd env = (env_stack env)\<lparr>pi_command := VSS_NEGOTIATE, pi_delete_obj_when := DELETE_NEVER,
     pi_object := None, pi_callback := None, pi_ctx := None\<rparr>"

definition send_negotiate ::
  "vs_env \<Rightarrow> VSSI_SendState \<Rightarrow> buffer option \<Rightarrow> u8 \<Rightarrow> vs_link \<Rightarrow> (vs_link \<times> VSSI_Result) option" where
  "send_negotiate env st challenge len link = do {
     (st1, rv, new_xid) \<leftarrow> VSSI_AddPendingCommand (env_realloc env) (env_calloc env) (env_junk env)
                             (negotiate_cmd env) st;
     let xid = (if rv = VSSI_SUCCESS then new_xid else env_xid env);
     (msg, r) \<leftarrow> negotiate_message env (lk_session link) (cn_type (lk_node link)) xid challenge len
                   (lk_randomness link);
     let link1 = put_state st1 (link\<lparr>lk_randomness := r\<rparr>);
     case msg of
       None \<Rightarrow> Some (link1, VSSI_NOMEM)
     | Some m \<Rightarrow> do {
         cmd_info_p \<leftarrow> VSSI_GetVSCommandSlot st1 xid;
         a \<leftarrow> cmd_info_p;
         Some (link_send_cmd a (upd_cmd a (\<lambda>c. c\<lparr>pi_msg := Some m\<rparr>) st1) link1, rv) } }"

text \<open>The send state gets its server's node, if it has none.\<close>

definition attach_server :: "vs_env \<Rightarrow> VSSI_SendState \<Rightarrow> vs_link \<Rightarrow> (VSSI_SendState \<times> vs_link) option" where
  "attach_server env st link =
     (if ss_server_connection st \<noteq> None then Some (st, link)
      else do {
        node \<leftarrow> VSSI_GetServerConnection (env_node env) (env_fresh env) (lk_cluster link) (lk_node link);
        let st' = st\<lparr>ss_server_connection := Some 0\<rparr>;
        Some (st', put_state st' (put_node node link)) })"

definition VSSI_NegotiateSession ::
  "vs_env \<Rightarrow> buffer option \<Rightarrow> u8 \<Rightarrow> vs_link \<Rightarrow> (vs_link \<times> net_event list \<times> VSSI_Result) option" where
  "VSSI_NegotiateSession env challenge len link0 = do {
     st0 \<leftarrow> lk_send_state link0;
     case attach_server env st0 link0 of
       None \<Rightarrow> Some (link0, [], VSSI_NOMEM)
     | Some (st, link) \<Rightarrow>
         let state = cn_connect_state (lk_node link)
         in if state = CONNECTION_ACTIVE then do {
              (link1, rv) \<leftarrow> send_negotiate env st challenge len link;
              Some (link1, [], rv) }
            else if state = CONNECTION_DISCONNECTED \<or> state = CONNECTION_FAILED then do {
              (link1, evs) \<leftarrow> VSSI_ConnectVSServer env VSSI_SUCCESS
                (put_node ((lk_node link)\<lparr>cn_connect_state := CONNECTION_CONNECTING, cn_route_id := 0\<rparr>) link);
              Some (link1, evs, VSSI_SUCCESS) }
            else Some (link, [], VSSI_SUCCESS) }"

text \<open>The route that made the connection, \<open>routes[route_id - 1]\<close>.\<close>

definition used_route :: "vs_link \<Rightarrow> int option" where
  "used_route link =
     (let route_id = cn_route_id (lk_node link)
      in if 0 < route_id \<and> route_id \<le> int (length (lk_routes link))
         then Some (lk_routes link ! nat (route_id - 1)) else None)"

definition VSSI_ConnectVSServerDone ::
  "vs_env \<Rightarrow> VSSI_Result \<Rightarrow> vs_link \<Rightarrow> (vs_link \<times> net_event list) option" where
  "VSSI_ConnectVSServerDone env result link =
     (if result = VSSI_SUCCESS then do {
        route \<leftarrow> used_route link;
        if cn_connections (lk_node link) = [] then None
        else do {
          let link1 = put_node (upd_first (\<lambda>c. c\<lparr>vc_connected := True\<rparr>)
            ((lk_node link)\<lparr>cn_type := route, cn_connect_state := CONNECTION_ACTIVE\<rparr>)) link;
          case lk_send_state link1 of
            None \<Rightarrow> Some (link1, [])
          | Some st \<Rightarrow>
              if ss_server_connection st = None then Some (link1, [])
              else do {
                (link2, evs, rc) \<leftarrow> VSSI_NegotiateSession env None 0 link1;
                if rc \<noteq> VSSI_SUCCESS then do {
                  st2 \<leftarrow> lk_send_state link2;
                  (st3, evs3) \<leftarrow> VSSI_ReplyPendingCommands st2 None rc;
                  let (link3, evs4) = settled evs3 link2;
                  Some (put_state st3 link3, evs @ evs4) }
                else Some (link2, evs) } } }
      else VSSI_ConnectVSServer env result link)"

text \<open>One turn of the loop that composes and sends the waiting messages.\<close>

definition send_waiting_one :: "vs_env \<Rightarrow> nat \<Rightarrow> VSSI_SendState \<Rightarrow> vs_link \<Rightarrow> vs_link option" where
  "send_waiting_one env a st link = do {
     msg \<leftarrow> pi_msg (ss_cmds st ! a);
     (st2, rv, xid) \<leftarrow> VSSI_WaitingCommandToPending a
       (upd_cmd a (\<lambda>c. c\<lparr>pi_msg := None\<rparr>) (st\<lparr>ss_wait_head := pi_next (ss_cmds st ! a)\<rparr>));
     bytes \<leftarrow> vss_set_xid (msg_msg msg) xid;
     out \<leftarrow> VSSI_ComposeMessage (env_crypt env) (ss_session st2) (ss_sign_mode st2) (ss_sign_type st2)
       (ss_enc_type st2) (msg\<lparr>msg_msg := bytes\<rparr>);
     cmd_info \<leftarrow> VSSI_GetVSCommandSlot st2 xid;
     a' \<leftarrow> cmd_info;
     Some (link_send_cmd a' (upd_cmd a' (\<lambda>c. c\<lparr>pi_msg := out\<rparr>) st2) link) }"

partial_function (option) send_waiting :: "vs_env \<Rightarrow> vs_link \<Rightarrow> vs_link option" where
  "send_waiting env link =
     Option.bind (lk_send_state link) (\<lambda>st.
       case ss_wait_head st of
         None \<Rightarrow> Some link
       | Some a \<Rightarrow> Option.bind (send_waiting_one env a st link) (send_waiting env))"

definition release_negotiate :: "u32 \<Rightarrow> VSSI_SendState \<Rightarrow> VSSI_SendState option" where
  "release_negotiate xid st = do {
     slot \<leftarrow> VSSI_GetCommandSlotUnlocked st xid;
     if slot \<ge> 0 then do {
       a \<leftarrow> ss_table st ! nat slot;
       Some (release_cmd a (st\<lparr>ss_table := (ss_table st)[nat slot := None]\<rparr>)) }
     else Some st }"

text \<open>The fatal end of a negotiation.\<close>

definition give_up :: "VSSI_Result \<Rightarrow> vs_link \<Rightarrow> (vs_link \<times> net_event list) option" where
  "give_up rc link = do {
     st \<leftarrow> lk_send_state link;
     (st', evs) \<leftarrow> VSSI_ReplyPendingCommands st None rc;
     let (link', evs') = settled evs link;
     Some (VSSI_DestroySendState (put_state st' link'), evs') }"

definition VSSI_NegotiateSessionDone ::
  "vs_env \<Rightarrow> buffer \<Rightarrow> vs_link \<Rightarrow> (vs_link \<times> net_event list) option" where
  "VSSI_NegotiateSessionDone env msg link = do {
     st0 \<leftarrow> lk_send_state link;
     body \<leftarrow> ptr_at msg VSS_HEADER_SIZE;
     rc \<leftarrow> vss_get_status msg;
     xid \<leftarrow> vss_get_xid msg;
     st \<leftarrow> release_negotiate xid st0;
     if rc = VSSI_SUCCESS then do {
       sign_mode \<leftarrow> vss_negotiate_reply_get_signing_mode body;
       sign_type \<leftarrow> vss_negotiate_reply_get_sign_type body;
       enc_type \<leftarrow> vss_negotiate_reply_get_encrypt_type body;
       seq_id \<leftarrow> vss_negotiate_reply_get_xid_start body;
       link1 \<leftarrow> send_waiting env (put_state (st\<lparr>ss_negotiated := NEGOTIATE_DONE,
                 ss_sign_mode := sign_mode, ss_sign_type := sign_type, ss_enc_type := enc_type,
                 ss_seq_id := seq_id\<rparr>) link);
       st1 \<leftarrow> lk_send_state link1;
       Some (put_state (st1\<lparr>ss_wait_tail := None\<rparr>) link1, []) }
     else if rc = VSSI_AGAIN then do {
       challenge \<leftarrow> vss_negotiate_reply_get_challenge body;
       len \<leftarrow> vss_negotiate_reply_get_challenge_len body;
       if lk_objects link = [] then None
       else do {
         (link1, evs, rc1) \<leftarrow> VSSI_NegotiateSession env (Some challenge) len (put_state st link);
         if rc1 = VSSI_SUCCESS then Some (link1, evs)
         else do { (link2, evs2) \<leftarrow> give_up rc1 link1; Some (link2, evs @ evs2) } } }
     else give_up rc (put_state st link) }"

section \<open>Sending a command\<close>

text \<open>\<open>reply:\<close>, what \<open>VSSI_SendVss\<close> does with a command it cannot send.\<close>

definition refuse :: "VSSI_PendInfo \<Rightarrow> VSSI_Result \<Rightarrow> vs_link \<Rightarrow> vs_link \<times> net_event list" where
  "refuse cmd_info rv link = settled (VSSI_ResolveCommand cmd_info rv) link"

definition send_now ::
  "vs_env \<Rightarrow> VSSI_PendInfo \<Rightarrow> VSSI_MsgBuffer \<Rightarrow> VSSI_SendState \<Rightarrow> vs_link \<Rightarrow> (vs_link \<times> net_event list) option" where
  "send_now env cmd_info msg st link = do {
     (st1, rv, xid) \<leftarrow> VSSI_AddPendingCommand (env_realloc env) (env_calloc env) (env_junk env) cmd_info st;
     if rv \<noteq> VSSI_SUCCESS then Some (refuse cmd_info rv (put_state st1 link))
     else do {
       bytes \<leftarrow> vss_set_xid (msg_msg msg) xid;
       out \<leftarrow> VSSI_ComposeMessage (env_crypt env) (ss_session st1) (ss_sign_mode st1) (ss_sign_type st1)
                (ss_enc_type st1) (msg\<lparr>msg_msg := bytes\<rparr>);
       slot \<leftarrow> VSSI_GetVSCommandSlot st1 xid;
       a \<leftarrow> slot;
       Some (link_send_cmd a (upd_cmd a (\<lambda>c. c\<lparr>pi_msg := out\<rparr>) st1) link, []) } }"

definition send_later ::
  "vs_env \<Rightarrow> VSSI_PendInfo \<Rightarrow> VSSI_MsgBuffer \<Rightarrow> VSSI_SendState \<Rightarrow> vs_link \<Rightarrow> (vs_link \<times> net_event list) option" where
  "send_later env cmd_info msg st link = do {
     (st1, rv) \<leftarrow> VSSI_AddWaitingCommand (env_realloc env) (env_calloc env) (env_junk env) cmd_info st;
     if rv \<noteq> VSSI_SUCCESS then Some (refuse cmd_info rv (put_state st1 link))
     else do {
       t \<leftarrow> ss_wait_tail st1;
       let st2 = upd_cmd t (\<lambda>c. c\<lparr>pi_msg := Some msg\<rparr>) st1;
       if ss_negotiated st2 = NEGOTIATE_NEEDED then do {
         (link3, evs, rv3) \<leftarrow> VSSI_NegotiateSession env None 0
           (put_state (st2\<lparr>ss_negotiated := NEGOTIATE_PENDING\<rparr>) link);
         if rv3 \<noteq> VSSI_SUCCESS then do {
           let (link4, evs4) = refuse cmd_info rv3 link3;
           Some (link4, evs @ evs4) }
         else Some (link3, evs) }
       else Some (put_state st2 link, []) } }"

definition VSSI_SendVss ::
  "vs_env \<Rightarrow> VSSI_PendInfo \<Rightarrow> vss_message \<Rightarrow> vs_link \<Rightarrow> (vs_link \<times> net_event list) option" where
  "VSSI_SendVss env cmd_info v link0 = (case link_send_state env link0 of
     (link, None) \<Rightarrow> Some (refuse cmd_info VSSI_NOMEM link)
   | (link, Some st) \<Rightarrow> do {
       (prepared, r) \<leftarrow> VSSI_PrepareMessage (env_message env) (env_device_id env) (lk_randomness link)
          (sv_header v) (Some (sv_fixed_data v)) (sv_fixed_len v) (sv_var_data1 v) (sv_var_len1 v)
          (sv_var_data2 v) (sv_var_len2 v);
       let link1 = link\<lparr>lk_randomness := r\<rparr>;
       case prepared of
         None \<Rightarrow> Some (refuse cmd_info VSSI_NOMEM link1)
       | Some msg \<Rightarrow>
           if ss_negotiated st = NEGOTIATE_DONE then send_now env cmd_info msg st link1
           else send_later env cmd_info msg st link1 })"

section \<open>Losing a connection, the whole\<close>

text \<open>\<open>lost\<close>: which connection of the node, or NULL.\<close>

definition VSSI_HandleLostConnection ::
  "vs_env \<Rightarrow> nat option \<Rightarrow> VSSI_Result \<Rightarrow> vs_link \<Rightarrow> (vs_link \<times> net_event list) option" where
  "VSSI_HandleLostConnection env lost result link = (case lost of
     None \<Rightarrow> lost_send_states None result link
   | Some i \<Rightarrow> do {
       let connection = cn_connections (lk_node link) ! i;
       let node = (lk_node link)\<lparr>cn_connections :=
             take i (cn_connections (lk_node link)) @ drop (Suc i) (cn_connections (lk_node link))\<rparr>;
       (link1, evs1) \<leftarrow> (if cn_connect_state node = CONNECTION_CONNECTED
            then VSSI_ConnectVSServerDone env result (put_node node link)
            else Some (put_node node link, []));
       let link2 = (if cn_connections (lk_node link1) = []
            then put_node ((lk_node link1)\<lparr>cn_connect_state := CONNECTION_FAILED\<rparr>) link1 else link1);
       (link3, evs3) \<leftarrow> lost_send_states (Some (vc_addr connection)) result link2;
       Some (link3, evs1 @ (case vc_conn_id connection of None \<Rightarrow> [] | Some socket \<Rightarrow> [Socket_Close socket]) @ evs3) })"

declare send_waiting.simps [code]

end
