(* ===== verification/Vssi_Dispatch.thy ===== *)
theory Vssi_Dispatch
  imports Vssi_Session Vssi_Reply
begin

text \<open>
  What a reply does (\<open>vssi_internal.c\<close>, the switch of \<open>VSSI_HandleVSBuffer\<close>): the handlers of
  \<open>Vssi_Reply\<close> on the object, the file and the caller's variables the command points to, the
  notifications of an object, and the end of the command.

  A handler gets what the pointers of the command point to; a pointer that is NULL or points to
  nothing makes the result \<open>None\<close>, also where the handler would not follow it.
\<close>

section \<open>Objects, files and variables by address\<close>

definition object_at :: "nat \<Rightarrow> vs_link \<Rightarrow> vs_object option" where
  "object_at a link = find (\<lambda>ob. vo_addr ob = a) (lk_objects link)"

definition file_at :: "nat \<Rightarrow> vs_link \<Rightarrow> vs_file option" where
  "file_at a link = find (\<lambda>f. vf_addr f = a) (lk_files link)"

definition upd_object :: "nat \<Rightarrow> (vs_object \<Rightarrow> vs_object) \<Rightarrow> vs_link \<Rightarrow> vs_link" where
  "upd_object a f link = link\<lparr>lk_objects := map (\<lambda>ob. if vo_addr ob = a then f ob else ob) (lk_objects link)\<rparr>"

definition put_file :: "nat \<Rightarrow> VSSI_FileState \<Rightarrow> vs_link \<Rightarrow> vs_link" where
  "put_file a v link = link\<lparr>lk_files := map (\<lambda>f. if vf_addr f = a then f\<lparr>vf_state := v\<rparr> else f) (lk_files link)\<rparr>"

definition upd_mem :: "(user_memory \<Rightarrow> user_memory) \<Rightarrow> vs_link \<Rightarrow> vs_link" where
  "upd_mem f link = link\<lparr>lk_memory := f (lk_memory link)\<rparr>"

text \<open>A handler that works on the command's object, and what else it returns.\<close>

definition on_object ::
  "ptr \<Rightarrow> (VSSI_ObjectState \<Rightarrow> (VSSI_Result \<times> VSSI_ObjectState \<times> 'a) option) \<Rightarrow> vs_link \<Rightarrow>
     (VSSI_Result \<times> 'a \<times> vs_link) option" where
  "on_object p h link = do {
     a \<leftarrow> p;
     ob \<leftarrow> object_at a link;
     (rc, v, out) \<leftarrow> h (vo_state ob);
     Some (rc, out, upd_object a (\<lambda>ob. ob\<lparr>vo_state := v\<rparr>) link) }"

section \<open>Notifications\<close>

definition upd_conn :: "nat \<Rightarrow> (VSSI_VSConnection \<Rightarrow> VSSI_VSConnection) \<Rightarrow> vs_link \<Rightarrow> vs_link" where
  "upd_conn i f link = put_node ((lk_node link)\<lparr>cn_connections :=
     (cn_connections (lk_node link))[i := f (cn_connections (lk_node link) ! i)]\<rparr>) link"

text \<open>\<open>notify_connection->timeout_suspended += n\<close>.\<close>

definition suspend_timeout :: "ptr \<Rightarrow> int \<Rightarrow> vs_link \<Rightarrow> vs_link" where
  "suspend_timeout connection n link = (case connection of
     None \<Rightarrow> link
   | Some p \<Rightarrow> put_node ((lk_node link)\<lparr>cn_connections := map (\<lambda>c. if vc_addr c = p
         then c\<lparr>vc_timeout_suspended := vc_timeout_suspended c + n\<rparr> else c) (cn_connections (lk_node link))\<rparr>) link)"

text \<open>No events: notifications of the object end.\<close>

definition end_notify :: "nat \<Rightarrow> vs_link \<Rightarrow> vs_link option" where
  "end_notify a link = do {
     ob \<leftarrow> object_at a link;
     Some (if vo_notify_connection ob \<noteq> None then
             upd_object a (\<lambda>ob. ob\<lparr>vo_notify_callback := None, vo_notify_ctx := None, vo_notify_connection := None\<rparr>)
               (suspend_timeout (vo_notify_connection ob) (- 1) link)
           else link) }"

text \<open>Events: the object's callback is the command's, its connection the one of the reply.\<close>

definition begin_notify :: "nat \<Rightarrow> nat \<Rightarrow> pend_results \<Rightarrow> vs_link \<Rightarrow> vs_link option" where
  "begin_notify i a results link = do {
     ob \<leftarrow> object_at a link;
     let connection = Some (vc_addr (cn_connections (lk_node link) ! i));
     Some (suspend_timeout connection 1
       (upd_object a (\<lambda>ob. ob\<lparr>vo_notify_callback := pr_notify_callback results,
            vo_notify_ctx := pr_notify_ctx results, vo_notify_connection := connection\<rparr>)
         (suspend_timeout (vo_notify_connection ob) (- 1) link))) }"

text \<open>\<open>VSS_NOTIFICATION\<close>: the first object with the handle that is notified over this connection.\<close>

definition take_notification :: "nat \<Rightarrow> buffer \<Rightarrow> vs_link \<Rightarrow> (vs_link \<times> net_event list) option" where
  "take_notification i reply link = do {
     data \<leftarrow> reply_data reply;
     let connection = cn_connections (lk_node link) ! i;
     evs \<leftarrow> (if lk_objects link = [] then Some []
       else do {
         handle \<leftarrow> vss_notification_get_handle data;
         case find (\<lambda>ob. access_proto_handle (vo_state ob) = handle \<and>
                      vo_notify_connection ob = Some (vc_addr connection)) (lk_objects link) of
           None \<Rightarrow> Some []
         | Some ob \<Rightarrow> (case vo_notify_callback ob of
               None \<Rightarrow> Some []
             | Some cb \<Rightarrow> do {
                 mask \<leftarrow> vss_notification_get_mask data;
                 body \<leftarrow> vss_notification_get_data data;
                 len \<leftarrow> vss_notification_get_length data;
                 Some [Notify_Event cb (vo_notify_ctx ob) mask body len] }) });
     Some (upd_conn i (\<lambda>c. c\<lparr>vc_cmds_outstanding := vc_cmds_outstanding c + 1\<rparr>) link, evs) }"

section \<open>The replies\<close>

definition no_out :: "(VSSI_Result \<times> VSSI_ObjectState) option \<Rightarrow> (VSSI_Result \<times> VSSI_ObjectState \<times> unit) option" where
  "no_out r = map_option (\<lambda>(rc, ob). (rc, ob, ())) r"

definition open_reply :: "buffer \<Rightarrow> VSSI_PendInfo \<Rightarrow> vs_link \<Rightarrow> (VSSI_Result \<times> vs_link) option" where
  "open_reply reply cmd link = do {
     (rc, _, link1) \<leftarrow> on_object (pi_object cmd) (\<lambda>ob. no_out (VSSI_HandleOpenReply (Some reply) ob)) link;
     if rc = VSSI_SUCCESS then do {
       p \<leftarrow> pr_handle (pi_results cmd);
       Some (rc, upd_mem (\<lambda>m. m\<lparr>um_handle := (um_handle m)(p := pi_object cmd)\<rparr>) link1) }
     else Some (rc, link1) }"

definition close_reply :: "buffer \<Rightarrow> VSSI_PendInfo \<Rightarrow> vs_link \<Rightarrow> (VSSI_Result \<times> vs_link) option" where
  "close_reply reply cmd link = do {
     (rc, _, link1) \<leftarrow> on_object (pi_object cmd)
       (\<lambda>ob. map_option (\<lambda>rc. (rc, ob, ())) (VSSI_HandleCloseReply (Some reply) ob)) link;
     Some (rc, link1) }"

definition version_reply :: "buffer \<Rightarrow> VSSI_PendInfo \<Rightarrow> vs_link \<Rightarrow> (VSSI_Result \<times> vs_link) option" where
  "version_reply reply cmd link = do {
     (rc, _, link1) \<leftarrow> on_object (pi_object cmd) (\<lambda>ob. no_out (VSSI_HandleVersionReply (Some reply) ob)) link;
     Some (rc, link1) }"

definition read_reply :: "buffer \<Rightarrow> VSSI_PendInfo \<Rightarrow> vs_link \<Rightarrow> (VSSI_Result \<times> vs_link) option" where
  "read_reply reply cmd link = do {
     l \<leftarrow> pr_length (pi_results cmd);
     b \<leftarrow> pr_buf (pi_results cmd);
     let m = lk_memory link;
     (rc, (len, buf), link1) \<leftarrow> on_object (pi_object cmd)
       (\<lambda>ob. VSSI_HandleReadReply (Some reply) ob (um_length m l) (um_buf m b)) link;
     Some (rc, upd_mem (\<lambda>m. m\<lparr>um_length := (um_length m)(l := len), um_buf := (um_buf m)(b := buf)\<rparr>) link1) }"

definition write_reply :: "buffer \<Rightarrow> VSSI_PendInfo \<Rightarrow> vs_link \<Rightarrow> (VSSI_Result \<times> vs_link) option" where
  "write_reply reply cmd link = do {
     l \<leftarrow> pr_length (pi_results cmd);
     (rc, len, link1) \<leftarrow> on_object (pi_object cmd)
       (\<lambda>ob. VSSI_HandleWriteReply (Some reply) ob (um_length (lk_memory link) l)) link;
     Some (rc, upd_mem (\<lambda>m. m\<lparr>um_length := (um_length m)(l := len)\<rparr>) link1) }"

definition read_dir_reply ::
  "vs_env \<Rightarrow> buffer \<Rightarrow> int \<Rightarrow> VSSI_PendInfo \<Rightarrow> vs_link \<Rightarrow> (VSSI_Result \<times> vs_link) option" where
  "read_dir_reply env reply version cmd link = do {
     p \<leftarrow> pr_directory (pi_results cmd);
     (rc, dir, link1) \<leftarrow> on_object (pi_object cmd) (\<lambda>ob. VSSI_HandleReadDirReply (env_directory env)
         (env_data env) (Some reply) ob (um_directory (lk_memory link) p) version) link;
     Some (rc, upd_mem (\<lambda>m. m\<lparr>um_directory := (um_directory m)(p := dir)\<rparr>) link1) }"

definition stat_reply :: "vs_env \<Rightarrow> buffer \<Rightarrow> VSSI_PendInfo \<Rightarrow> vs_link \<Rightarrow> (VSSI_Result \<times> vs_link) option" where
  "stat_reply env reply cmd link = do {
     p \<leftarrow> pr_stats (pi_results cmd);
     (rc, stats, link1) \<leftarrow> on_object (pi_object cmd)
       (\<lambda>ob. VSSI_HandleStatReply (env_stats env) (Some reply) ob (um_stats (lk_memory link) p)) link;
     Some (rc, upd_mem (\<lambda>m. m\<lparr>um_stats := (um_stats m)(p := stats)\<rparr>) link1) }"

definition stat2_reply :: "vs_env \<Rightarrow> buffer \<Rightarrow> VSSI_PendInfo \<Rightarrow> vs_link \<Rightarrow> (VSSI_Result \<times> vs_link) option" where
  "stat2_reply env reply cmd link = do {
     p \<leftarrow> pr_stats2 (pi_results cmd);
     (rc, stats, link1) \<leftarrow> on_object (pi_object cmd)
       (\<lambda>ob. VSSI_HandleStat2Reply (env_stats env) (Some reply) ob (um_stats2 (lk_memory link) p)) link;
     Some (rc, upd_mem (\<lambda>m. m\<lparr>um_stats2 := (um_stats2 m)(p := stats)\<rparr>) link1) }"

definition read_trashcan_reply :: "vs_env \<Rightarrow> buffer \<Rightarrow> VSSI_PendInfo \<Rightarrow> vs_link \<Rightarrow> (VSSI_Result \<times> vs_link) option" where
  "read_trashcan_reply env reply cmd link = do {
     p \<leftarrow> pr_trashcan (pi_results cmd);
     (rc, can, link1) \<leftarrow> on_object (pi_object cmd) (\<lambda>ob. VSSI_HandleReadTrashcanReply (env_trashcan env)
         (env_data env) (Some reply) ob (um_trashcan (lk_memory link) p)) link;
     Some (rc, upd_mem (\<lambda>m. m\<lparr>um_trashcan := (um_trashcan m)(p := can)\<rparr>) link1) }"

definition get_space_reply :: "buffer \<Rightarrow> VSSI_PendInfo \<Rightarrow> vs_link \<Rightarrow> (VSSI_Result \<times> vs_link) option" where
  "get_space_reply reply cmd link = do {
     d0 \<leftarrow> pr_disk_size (pi_results cmd);
     d1 \<leftarrow> pr_dataset_size (pi_results cmd);
     d2 \<leftarrow> pr_avail_size (pi_results cmd);
     let m = lk_memory link;
     (rc, (disk, dataset, avail), link1) \<leftarrow> on_object (pi_object cmd)
       (\<lambda>ob. map_option (\<lambda>(rc, v). (rc, ob, v))
          (VSSI_HandleGetSpaceReply (Some reply) ob (um_word m d0) (um_word m d1) (um_word m d2))) link;
     Some (rc, if rc = VSSI_SUCCESS
       then upd_mem (\<lambda>m. m\<lparr>um_word := (um_word m)(d0 := disk, d1 := dataset, d2 := avail)\<rparr>) link1 else link1) }"

definition open_file_reply :: "buffer \<Rightarrow> VSSI_PendInfo \<Rightarrow> vs_link \<Rightarrow> (VSSI_Result \<times> vs_link) option" where
  "open_file_reply reply cmd link = do {
     f \<leftarrow> pi_file_state cmd;
     file \<leftarrow> file_at f link;
     file_object \<leftarrow> (case vf_object file of None \<Rightarrow> Some None
                    | Some a \<Rightarrow> map_option (\<lambda>ob. Some (vo_state ob)) (object_at a link));
     (rc, file', object') \<leftarrow> VSSI_HandleOpenFileReply (Some reply) (vf_state file) file_object;
     let link1 = put_file f file' (case (vf_object file, object') of
           (Some a, Some v) \<Rightarrow> upd_object a (\<lambda>ob. ob\<lparr>vo_state := v\<rparr>) link | _ \<Rightarrow> link);
     if rc = VSSI_SUCCESS \<or> rc = VSSI_EXISTS then do {
       p \<leftarrow> pr_file (pi_results cmd);
       Some (rc, upd_mem (\<lambda>m. m\<lparr>um_file := (um_file m)(p := Some f)\<rparr>) link1) }
     else Some (rc, link1) }"

text \<open>The handler also decides that the file state goes: it writes the command itself, at address \<open>a\<close>.\<close>

definition close_file_reply :: "buffer \<Rightarrow> nat \<Rightarrow> VSSI_SendState \<Rightarrow> vs_link \<Rightarrow> (VSSI_Result \<times> vs_link) option" where
  "close_file_reply reply a st link = do {
     let cmd = ss_cmds st ! a;
     (rc, del, link1) \<leftarrow> on_object (pi_object cmd)
       (\<lambda>ob. VSSI_HandleCloseFileReply (Some reply) ob (pi_delete_filestate_when cmd)) link;
     Some (rc, put_state (upd_cmd a (\<lambda>c. c\<lparr>pi_delete_filestate_when := del\<rparr>) st) link1) }"

definition read_file_reply :: "buffer \<Rightarrow> VSSI_PendInfo \<Rightarrow> vs_link \<Rightarrow> (VSSI_Result \<times> vs_link) option" where
  "read_file_reply reply cmd link = do {
     l \<leftarrow> pr_length (pi_results cmd);
     b \<leftarrow> pr_buf (pi_results cmd);
     let m = lk_memory link;
     (rc, len, buf) \<leftarrow> VSSI_HandleReadFileReply (Some reply) (um_length m l) (um_buf m b);
     Some (rc, upd_mem (\<lambda>m. m\<lparr>um_length := (um_length m)(l := len), um_buf := (um_buf m)(b := buf)\<rparr>) link) }"

definition write_file_reply :: "buffer \<Rightarrow> VSSI_PendInfo \<Rightarrow> vs_link \<Rightarrow> (VSSI_Result \<times> vs_link) option" where
  "write_file_reply reply cmd link = do {
     l \<leftarrow> pr_length (pi_results cmd);
     (rc, len) \<leftarrow> VSSI_HandleWriteFileReply (Some reply) (um_length (lk_memory link) l);
     Some (rc, upd_mem (\<lambda>m. m\<lparr>um_length := (um_length m)(l := len)\<rparr>) link) }"

text \<open>Stores a 64-bit result if the pointer is not NULL.\<close>

definition put_word :: "ptr \<Rightarrow> u64 option \<Rightarrow> vs_link \<Rightarrow> vs_link" where
  "put_word p v link = (case (p, v) of
     (Some q, Some w) \<Rightarrow> upd_mem (\<lambda>m. m\<lparr>um_word := (um_word m)(q := w)\<rparr>) link | _ \<Rightarrow> link)"

definition get_lock_reply :: "buffer \<Rightarrow> VSSI_PendInfo \<Rightarrow> vs_link \<Rightarrow> (VSSI_Result \<times> vs_link) option" where
  "get_lock_reply reply cmd link = do {
     let p = pr_lock_state (pi_results cmd);
     (rc, v) \<leftarrow> VSSI_HandleGetFileLockReply (Some reply) (map_option (um_word (lk_memory link)) p);
     Some (rc, put_word p v link) }"

definition get_notify_reply :: "buffer \<Rightarrow> VSSI_PendInfo \<Rightarrow> vs_link \<Rightarrow> (VSSI_Result \<times> vs_link) option" where
  "get_notify_reply reply cmd link = do {
     (rc, mask) \<leftarrow> VSSI_HandleGetNotifyReply (Some reply) (Some 0);
     link1 \<leftarrow> (if mask = Some 0 then do { a \<leftarrow> pi_object cmd; end_notify a link } else Some link);
     Some (rc, put_word (pr_notify_mask (pi_results cmd)) mask link1) }"

text \<open>The test is whether the command has a mask pointer, not what the mask is.\<close>

definition set_notify_reply :: "nat \<Rightarrow> buffer \<Rightarrow> VSSI_PendInfo \<Rightarrow> vs_link \<Rightarrow> (VSSI_Result \<times> vs_link) option" where
  "set_notify_reply i reply cmd link = do {
     (rc, mask) \<leftarrow> VSSI_HandleGetNotifyReply (Some reply) (Some 0);
     a \<leftarrow> pi_object cmd;
     link1 \<leftarrow> (if pr_notify_mask (pi_results cmd) = None then end_notify a link
               else begin_notify i a (pi_results cmd) link);
     Some (rc, link1) }"

definition plain_reply :: "VSSI_Result option \<Rightarrow> vs_link \<Rightarrow> (VSSI_Result \<times> vs_link) option" where
  "plain_reply r link = map_option (\<lambda>rc. (rc, link)) r"

section \<open>The switch\<close>

definition version_replies :: "u8 list" where
  "version_replies = [VSS_START_SET_REPLY, VSS_COMMIT_REPLY, VSS_ERASE_REPLY, VSS_MAKE_REF_REPLY,
     VSS_SET_METADATA_REPLY, VSS_SET_SIZE_REPLY, VSS_SET_TIMES_REPLY, VSS_REMOVE_REPLY,
     VSS_RENAME_REPLY, VSS_RENAME2_REPLY, VSS_COPY_REPLY, VSS_COPY_MATCH_REPLY,
     VSS_EMPTY_TRASH_REPLY, VSS_DELETE_TRASH_REPLY, VSS_RESTORE_TRASH_REPLY, VSS_MAKE_DIR_REPLY,
     VSS_MAKE_DIR2_REPLY, VSS_CHMOD_REPLY, VSS_RELEASE_FILE_REPLY]"

definition dispatch_reply ::
  "vs_env \<Rightarrow> nat \<Rightarrow> u8 \<Rightarrow> buffer \<Rightarrow> nat \<Rightarrow> VSSI_SendState \<Rightarrow> vs_link \<Rightarrow> (VSSI_Result \<times> vs_link) option" where
  "dispatch_reply env i command reply a st link =
     (let cmd = ss_cmds st ! a
      in if command = VSS_ERROR then plain_reply (VSSI_HandleErrorReply (Some reply)) link
         else if command = VSS_OPEN_REPLY then open_reply reply cmd link
         else if command = VSS_CLOSE_REPLY then close_reply reply cmd link
         else if command \<in> set version_replies then version_reply reply cmd link
         else if command = VSS_DELETE_REPLY then plain_reply (VSSI_HandleDeleteReply (Some reply)) link
         else if command = VSS_READ_REPLY \<or> command = VSS_READ_TRASH_REPLY then read_reply reply cmd link
         else if command = VSS_WRITE_REPLY then write_reply reply cmd link
         else if command = VSS_READ_DIR_REPLY \<or> command = VSS_READ_TRASH_DIR_REPLY
              then read_dir_reply env reply 1 cmd link
         else if command = VSS_READ_DIR2_REPLY then read_dir_reply env reply 2 cmd link
         else if command = VSS_STAT_REPLY \<or> command = VSS_STAT_TRASH_REPLY then stat_reply env reply cmd link
         else if command = VSS_STAT2_REPLY then stat2_reply env reply cmd link
         else if command = VSS_READ_TRASHCAN_REPLY then read_trashcan_reply env reply cmd link
         else if command = VSS_GET_SPACE_REPLY then get_space_reply reply cmd link
         else if command = VSS_OPEN_FILE_REPLY then open_file_reply reply cmd link
         else if command = VSS_CLOSE_FILE_REPLY then close_file_reply reply a st link
         else if command = VSS_READ_FILE_REPLY then read_file_reply reply cmd link
         else if command = VSS_WRITE_FILE_REPLY then write_file_reply reply cmd link
         else if command = VSS_TRUNCATE_FILE_REPLY then plain_reply (VSSI_HandleTruncateFileReply (Some reply)) link
         else if command = VSS_CHMOD_FILE_REPLY then plain_reply (VSSI_HandleChmodFileReply (Some reply)) link
         else if command = VSS_SET_LOCK_REPLY then plain_reply (VSSI_HandleSetFileLockReply (Some reply)) link
         else if command = VSS_GET_LOCK_REPLY then get_lock_reply reply cmd link
         else if command = VSS_SET_LOCK_RANGE_REPLY then plain_reply (VSSI_HandleSetLockRangeReply (Some reply)) link
         else if command = VSS_GET_NOTIFY_REPLY then get_notify_reply reply cmd link
         else if command = VSS_SET_NOTIFY_REPLY then set_notify_reply i reply cmd link
         else Some (VSSI_INVALID, link))"

text \<open>Handling the reply of a command that was found, then the end of the command.\<close>

definition handle_reply ::
  "vs_env \<Rightarrow> nat \<Rightarrow> buffer \<Rightarrow> nat \<Rightarrow> VSSI_SendState \<Rightarrow> vs_link \<Rightarrow> (vs_link \<times> net_event list) option" where
  "handle_reply env i reply a st link = do {
     command \<leftarrow> vss_get_command reply;
     xid \<leftarrow> vss_get_xid reply;
     (rc, link1) \<leftarrow> dispatch_reply env i command reply a st link;
     st1 \<leftarrow> lk_send_state link1;
     (st2, evs) \<leftarrow> complete_command xid rc st1;
     Some (settled evs (put_state st2 link1)) }"

end
