(* ===== verification/Vssi_Receive.thy ===== *)
theory Vssi_Receive
  imports Vssi_Dispatch
begin

text \<open>
  Receiving from a server (\<open>vssi_internal.c\<close>, \<open>VSSI_ReceiveVSBuffer\<close>, \<open>VSSI_HandleVSBuffer\<close>,
  \<open>VSSI_ReceiveVSResponse\<close>): where the next bytes of the reply go, what is done when the header and
  when the whole reply is there, and what becomes of the connection when the socket fails.

  The buffer \<open>incoming_reply\<close> is its contents, as long as it was allocated; it is kept from one reply
  to the next. Lengths are \<open>size_t\<close>; the reply's is a 32-bit sum before it becomes one. What
  \<open>VPLSocket_Recv\<close> returns and the bytes it stores are an argument.
\<close>

definition VPL_ERR_INTR :: int where [vssi_consts]: "VPL_ERR_INTR = -9002"

text \<open>Subtraction of sizes.\<close>

definition size_minus :: "nat \<Rightarrow> nat \<Rightarrow> nat" where
  "size_minus a b = (a + 2 ^ 64 - b) mod 2 ^ 64"

definition realloc_bytes :: "(nat \<Rightarrow> u8) \<Rightarrow> nat \<Rightarrow> buffer \<Rightarrow> buffer" where
  "realloc_bytes junk n b = take n b @ map junk [length b..<n]"

text \<open>How many bytes to receive, and where in the buffer they go: \<open>None\<close> is NULL.\<close>

definition VSSI_ReceiveVSBuffer ::
  "vs_env \<Rightarrow> VSSI_VSConnection \<Rightarrow> VSSI_VSConnection \<times> nat \<times> nat option" where
  "VSSI_ReceiveVSBuffer env connection =
     (let recvd = vc_replylen_recvd connection; replylen = vc_replylen connection
      in if replylen = 0 then
           (if vc_incoming_reply connection = None \<and> \<not> env_header env then (connection, 0, None)
            else (if vc_incoming_reply connection = None
                  then connection\<lparr>vc_incoming_reply := Some (replicate VSS_HEADER_SIZE 0)\<rparr> else connection,
                  size_minus VSS_HEADER_SIZE recvd, Some recvd))
         else if recvd = VSS_HEADER_SIZE \<and> vc_reply_bufsize connection < replylen then
           (if \<not> env_reply env then (connection, 0, None)
            else (connection\<lparr>vc_incoming_reply := map_option (realloc_bytes (env_bytes env) replylen)
                      (vc_incoming_reply connection), vc_reply_bufsize := replylen\<rparr>,
                  size_minus replylen recvd, Some recvd))
         else (connection, size_minus replylen recvd, Some recvd))"

section \<open>A header\<close>

text \<open>
  Finds the session and its send state, verifies the header (which clears its signature in the
  buffer) and sets the length to expect. The flag tells whether to go on.
\<close>

definition take_header :: "vs_env \<Rightarrow> nat \<Rightarrow> vs_link \<Rightarrow> (vs_link \<times> bool) option" where
  "take_header env i link = do {
     reply \<leftarrow> vc_incoming_reply (cn_connections (lk_node link) ! i);
     handle \<leftarrow> vss_get_handle reply;
     if handle \<noteq> session_handle (lk_session link) then Some (link, False)
     else case link_send_state env (upd_conn i (\<lambda>c. c\<lparr>vc_cur_session := Some 0\<rparr>) link) of
         (link1, None) \<Rightarrow> Some (upd_conn i (\<lambda>c. c\<lparr>vc_cur_send_state := None\<rparr>) link1, False)
       | (link1, Some st) \<Rightarrow> do {
           let link2 = upd_conn i (\<lambda>c. c\<lparr>vc_cur_send_state := Some 0\<rparr>) link1;
           command \<leftarrow> vss_get_command reply;
           if command = VSS_ERROR
           then Some (upd_conn i (\<lambda>c. c\<lparr>vc_replylen := VSS_HEADER_SIZE\<rparr>) link2, True)
           else do {
             (reply1, rc) \<leftarrow> VSSI_VerifyHeader reply (lk_session link) (ss_sign_mode st) (ss_sign_type st);
             let link3 = upd_conn i (\<lambda>c. c\<lparr>vc_incoming_reply := Some reply1\<rparr>) link2;
             if rc = VSSI_SUCCESS then do {
               data_length \<leftarrow> vss_get_data_length reply1;
               Some (upd_conn i (\<lambda>c. c\<lparr>vc_replylen := unat (word_of_nat VSS_HEADER_SIZE + data_length)\<rparr>) link3, True) }
             else Some (link3, False) } } }"

section \<open>A whole reply\<close>

text \<open>Who the reply is for.\<close>

definition handle_message :: "vs_env \<Rightarrow> nat \<Rightarrow> buffer \<Rightarrow> vs_link \<Rightarrow> (vs_link \<times> net_event list) option" where
  "handle_message env i reply link =
     (if cn_connect_state (lk_node link) = CONNECTION_CONNECTED then do {
        rc \<leftarrow> vss_get_status reply;
        VSSI_ConnectVSServerDone env rc link }
      else do {
        st \<leftarrow> lk_send_state link;
        if ss_negotiated st = NEGOTIATE_PENDING then VSSI_NegotiateSessionDone env reply link
        else do {
          command \<leftarrow> vss_get_command reply;
          if command = VSS_NOTIFICATION then take_notification i reply link
          else do {
            xid \<leftarrow> vss_get_xid reply;
            cmd_info \<leftarrow> VSSI_GetVSCommandSlot st xid;
            case cmd_info of
              None \<Rightarrow> Some (link, [])
            | Some a \<Rightarrow> handle_reply env i reply a st link } } })"

text \<open>\<open>reply_done:\<close>\<close>

definition reply_done :: "nat \<Rightarrow> vs_link \<Rightarrow> vs_link" where
  "reply_done i = upd_conn i (\<lambda>c. c\<lparr>vc_replylen := 0, vc_replylen_recvd := 0, vc_cur_session := None,
     vc_cur_send_state := None\<rparr>)"

text \<open>What the bytes received so far are: part of a reply, a broken one, or a whole one to handle.\<close>

datatype reading = Partial vs_link | Broken vs_link | Whole vs_link buffer

definition check_reply :: "vs_env \<Rightarrow> nat \<Rightarrow> vs_link \<Rightarrow> reading option" where
  "check_reply env i link = do {
     let connection = cn_connections (lk_node link) ! i;
     reply \<leftarrow> vc_incoming_reply connection;
     _ \<leftarrow> vc_cur_send_state connection;
     st \<leftarrow> lk_send_state link;
     (reply1, rc) \<leftarrow> (if vc_replylen connection > VSS_HEADER_SIZE
        then VSSI_VerifyData (env_tmp env) reply (vc_replylen connection) (lk_session link)
               (ss_sign_mode st) (ss_sign_type st) (ss_enc_type st)
        else Some (reply, VSSI_SUCCESS));
     let link1 = upd_conn i (\<lambda>c. c\<lparr>vc_incoming_reply := Some reply1\<rparr>) link;
     Some (if rc = VSSI_SUCCESS then Whole link1 reply1 else Broken (reply_done i link1)) }"

definition take_bytes :: "vs_env \<Rightarrow> nat \<Rightarrow> nat \<Rightarrow> vs_link \<Rightarrow> reading option" where
  "take_bytes env i bufsize link = do {
     let link1 = upd_conn i (\<lambda>c. c\<lparr>vc_replylen_recvd := vc_replylen_recvd c + bufsize\<rparr>) link;
     let recvd = vc_replylen_recvd (cn_connections (lk_node link1) ! i);
     if recvd < VSS_HEADER_SIZE then Some (Partial link1)
     else do {
       (link2, go_on) \<leftarrow> (if recvd = VSS_HEADER_SIZE then take_header env i link1 else Some (link1, True));
       if \<not> go_on then Some (Broken link2)
       else if vc_replylen (cn_connections (lk_node link2) ! i) = recvd then check_reply env i link2
       else Some (Partial link2) } }"

definition VSSI_HandleVSBuffer ::
  "vs_env \<Rightarrow> nat \<Rightarrow> nat \<Rightarrow> vs_link \<Rightarrow> (vs_link \<times> net_event list \<times> int) option" where
  "VSSI_HandleVSBuffer env i bufsize link = do {
     r \<leftarrow> take_bytes env i bufsize link;
     case r of
       Partial link1 \<Rightarrow> Some (link1, [], 0)
     | Broken link1 \<Rightarrow> Some (link1, [], - 1)
     | Whole link1 reply \<Rightarrow> do {
         (link2, evs) \<leftarrow> handle_message env i reply link1;
         Some (upd_conn i (\<lambda>c. c\<lparr>vc_cmds_outstanding := vc_cmds_outstanding c - 1\<rparr>) (reply_done i link2),
               evs, 0) } }"

section \<open>A socket that is ready\<close>

text \<open>\<open>recv_rc\<close> and \<open>bytes\<close>: what \<open>VPLSocket_Recv\<close> returns and stores.\<close>

definition VSSI_ReceiveVSResponse ::
  "vs_env \<Rightarrow> nat \<Rightarrow> int \<Rightarrow> buffer \<Rightarrow> vs_link \<Rightarrow> (vs_link \<times> net_event list) option" where
  "VSSI_ReceiveVSResponse env i recv_rc bytes link =
     (case VSSI_ReceiveVSBuffer env (cn_connections (lk_node link) ! i) of
        (connection, bufsize, None) \<Rightarrow> Some (upd_conn i (\<lambda>_. connection) link, [])
      | (connection, bufsize, Some off) \<Rightarrow>
          let link1 = upd_conn i (\<lambda>_. connection) link
          in if bufsize = 0 then Some (link1, [])
             else do {
               (link2, evs, rc) \<leftarrow>
                 (if recv_rc = 0 then Some (link1, [], - 1)
                  else if recv_rc < 0
                  then Some (link1, [], if recv_rc = VPL_ERR_AGAIN \<or> recv_rc = VPL_ERR_INTR then 1 else - 1)
                  else do {
                    buf \<leftarrow> vc_incoming_reply connection;
                    buf1 \<leftarrow> wr_bytes buf off bytes;
                    VSSI_HandleVSBuffer env i (nat recv_rc)
                      (upd_conn i (\<lambda>c. c\<lparr>vc_incoming_reply := Some buf1\<rparr>) link1) });
               if rc = - 1 then do {
                 (link3, evs3) \<leftarrow> VSSI_HandleLostConnection env (Some i) VSSI_COMM link2;
                 Some (link3, evs @ evs3) }
               else Some (link2, evs) })"

section \<open>A turn of the socket loop\<close>

text \<open>
  \<open>VSSI_InternalHandleSockets\<close> for one connection of a server that is connected at least: what the
  socket is ready for, what sending and receiving give, and whether it was inactive for too long.
  After a failure the connection is gone.
\<close>

record socket_turn =
  tu_send_now :: bool
  tu_recv_now :: bool
  tu_send_rc :: int
  tu_recv_rc :: int
  tu_bytes :: buffer
  tu_inactive :: bool

definition VSSI_TIMEOUT :: VSSI_Result where [vssi_consts]: "VSSI_TIMEOUT = -16125"

text \<open>\<open>VSSI_SendVSRequest\<close> on the link; without a send state no command is queued.\<close>

definition link_send_ready :: "int \<Rightarrow> nat \<Rightarrow> vs_link \<Rightarrow> vs_link \<times> buffer" where
  "link_send_ready send_rc i link =
     (case VSSI_SendVSRequest send_rc (lk_node link) i
             (case lk_send_state link of None \<Rightarrow> [] | Some st \<Rightarrow> ss_cmds st) of
        (node, cmds, sent) \<Rightarrow>
          (put_node node (case lk_send_state link of
             None \<Rightarrow> link | Some st \<Rightarrow> put_state (st\<lparr>ss_cmds := cmds\<rparr>) link), sent))"

definition handle_socket ::
  "vs_env \<Rightarrow> nat \<Rightarrow> socket_turn \<Rightarrow> vs_link \<Rightarrow> (vs_link \<times> net_event list) option" where
  "handle_socket env i t link =
     (let c = cn_connections (lk_node link) ! i
      in if cn_connect_state (lk_node link) \<in> {CONNECTION_DISCONNECTED, CONNECTION_CONNECTING} \<or> \<not> vc_connected c
         then Some (link, [])
         else case vc_conn_id c of
             None \<Rightarrow> VSSI_HandleLostConnection env (Some i) VSSI_COMM link
           | Some socket \<Rightarrow> do {
               let (link1, sent) = (if tu_send_now t then link_send_ready (tu_send_rc t) i link else (link, []));
               let evs1 = (if sent = [] then [] else [Socket_Bytes socket sent]);
               if tu_recv_now t then do {
                 (link2, evs2) \<leftarrow> VSSI_ReceiveVSResponse env i (tu_recv_rc t) (tu_bytes t) link1;
                 Some (link2, evs1 @ evs2) }
               else if \<not> tu_send_now t \<and> vc_timeout_suspended c = 0 \<and> vc_cmds_outstanding c = 0 \<and> tu_inactive t
               then VSSI_HandleLostConnection env (Some i) VSSI_TIMEOUT link1
               else Some (link1, evs1) })"

end
