(* ===== verification/Vssi_Link_Correct.thy ===== *)
theory Vssi_Link_Correct
  imports Vssi_Link Vssi_Slots_Table Vssi_Msg_Correct Vssi_Transport_Correct
begin

text \<open>
  What holds of a link whatever happens to it: \<open>link_inv\<close>, the invariant that ties the command
  table, the queue of the server's node and the phase of the session together, and the lemmas by
  which the components' operations keep their parts of it. \<open>core\<close> is what sending leaves alone in a
  command.
\<close>

section \<open>Commands that are being sent\<close>

definition core :: "VSSI_PendInfo \<Rightarrow> VSSI_PendInfo" where
  "core c = c\<lparr>pi_next_free := None, pi_next := None, pi_msg := None, pi_connection := None\<rparr>"

lemma core_upd [simp]:
  "core (c\<lparr>pi_next_free := p\<rparr>) = core c" "core (c\<lparr>pi_next := p\<rparr>) = core c"
  "core (c\<lparr>pi_msg := m\<rparr>) = core c" "core (c\<lparr>pi_connection := p\<rparr>) = core c"
  "core (payload c) = core c" "core (c\<lparr>pi_xid := x\<rparr>) = (core c)\<lparr>pi_xid := x\<rparr>"
  by (simp_all add: core_def payload_def)

lemma core_fields:
  assumes "core c = core d"
  shows "pi_xid c = pi_xid d" "pi_command c = pi_command d" "pi_callback c = pi_callback d"
    "wants cb ctx c = wants cb ctx d" "silent_negotiate c = silent_negotiate d"
    "VSSI_ResolveCommand c rc = VSSI_ResolveCommand d rc"
proof -
  have *: "pi_xid (core e) = pi_xid e" "pi_command (core e) = pi_command e" "pi_callback (core e) = pi_callback e"
    "pi_ctx (core e) = pi_ctx e" "VSSI_ResolveCommand (core e) rc = VSSI_ResolveCommand e rc" for e
    by (simp_all add: core_def VSSI_ResolveCommand_def split: option.split)
  show "pi_xid c = pi_xid d" and cd: "pi_command c = pi_command d" and cb: "pi_callback c = pi_callback d"
    and "VSSI_ResolveCommand c rc = VSSI_ResolveCommand d rc"
    using assms * by metis+
  have "pi_ctx c = pi_ctx d" using assms * by metis
  then show "wants cb ctx c = wants cb ctx d" "silent_negotiate c = silent_negotiate d"
    using cd cb by (simp_all add: wants_def silent_negotiate_def)
qed

lemma core_image:
  assumes "image_mset core M' = image_mset core M"
  shows "image_mset pi_xid M' = image_mset pi_xid M"
    and "size M' = size M"
    and "size (filter_mset (wants cb ctx) M') = size (filter_mset (wants cb ctx) M)"
    and "(\<forall>c\<in>#M'. silent_negotiate c) = (\<forall>c\<in>#M. silent_negotiate c)"
    and "(\<forall>c\<in>#M'. pi_command c = k \<and> pi_callback c = p) = (\<forall>c\<in>#M. pi_command c = k \<and> pi_callback c = p)"
proof -
  have core_idem: "core (core c) = core c" for c by (simp add: core_def)
  note f = core_fields [OF core_idem]
  have "image_mset pi_xid N = image_mset pi_xid (image_mset core N)" for N
    by (simp add: f(1) image_mset.compositionality comp_def)
  then show "image_mset pi_xid M' = image_mset pi_xid M" using assms by metis
  show "size M' = size M" using assms by (metis size_image_mset)
  have "size (filter_mset (wants cb ctx) N) = size (filter_mset (wants cb ctx) (image_mset core N))" for N
    by (simp add: filter_mset_image_mset f(4))
  then show "size (filter_mset (wants cb ctx) M') = size (filter_mset (wants cb ctx) M)" using assms by metis
  have "(\<forall>c\<in>#N. silent_negotiate c) = (\<forall>c\<in>#image_mset core N. silent_negotiate c)" for N
    by (simp add: f(5))
  then show "(\<forall>c\<in>#M'. silent_negotiate c) = (\<forall>c\<in>#M. silent_negotiate c)" using assms by metis
  have "(\<forall>c\<in>#N. pi_command c = k \<and> pi_callback c = p) = (\<forall>c\<in>#image_mset core N. pi_command c = k \<and> pi_callback c = p)" for N
    by (simp add: f(2,3))
  then show "(\<forall>c\<in>#M'. pi_command c = k \<and> pi_callback c = p) = (\<forall>c\<in>#M. pi_command c = k \<and> pi_callback c = p)"
    using assms by metis
qed

text \<open>Writing the commands in the table, all but their links to free and waiting ones.\<close>

lemma cmds_change:
  assumes v: "cmd_view st M W" and len: "length m = length (ss_cmds st)"
    and same: "\<And>b. b \<notin> set (pend_addrs st) \<Longrightarrow> m ! b = ss_cmds st ! b"
    and core: "\<And>b. core (m ! b) = core (ss_cmds st ! b)"
  shows "\<exists>M'. cmd_view (st\<lparr>ss_cmds := m\<rparr>) M' W \<and> image_mset core M' = image_mset core M"
proof -
  let ?st = "st\<lparr>ss_cmds := m\<rparr>"
  obtain free wait where sv: "slots_view st \<lparr>sl_lost = [], sl_free = free, sl_wait = wait\<rparr> M W"
    using v by (auto simp: cmd_view_def)
  let ?l = "\<lparr>sl_lost = [], sl_free = free, sl_wait = wait\<rparr>"
  have sw: "slots_with st ?l" and M: "M = pend_cmds st" and W: "W = wait_cmds st wait"
    using sv by (simp_all add: slots_view_def)
  have pa: "pend_addrs ?st = pend_addrs st" by (simp add: pend_addrs_def)
  have "distinct (free @ wait @ pend_addrs st)"
    using owns_distinct(1) [of st ?l] sw by (simp add: slots_with_def)
  then have apart: "b \<notin> set (pend_addrs st)" if "b \<in> set free \<or> b \<in> set wait" for b
    using that by auto
  have l: "lists_ok st ?l" using sw by (simp add: slots_with_def)
  have "chain (\<lambda>a. pi_next_free (m ! a)) p free = chain (\<lambda>a. pi_next_free (ss_cmds st ! a)) p free" for p
    by (rule chain_cong) (simp add: same apart)
  moreover have "chain (\<lambda>a. pi_next (m ! a)) p wait = chain (\<lambda>a. pi_next (ss_cmds st ! a)) p wait" for p
    by (rule chain_cong) (simp add: same apart)
  ultimately have "lists_ok ?st ?l" using l by (simp add: lists_ok_def)
  moreover have "table_ok ?st" using sw len table_ok_cong [of ?st st] by (simp add: slots_with_def)
  moreover have "owns_ok ?st ?l" using sw pa by (simp add: slots_with_def owns_ok_def)
  moreover have "wait_cmds ?st wait = W" by (simp add: W wait_cmds_def same apart)
  ultimately have "cmd_view ?st (pend_cmds ?st) W"
    by (auto simp: cmd_view_def slots_view_def slots_with_def)
  moreover have "image_mset core (pend_cmds ?st) = image_mset core M"
    by (simp add: pend_cmds_def M pa image_mset.compositionality comp_def core)
  ultimately show ?thesis by blast
qed

section \<open>Operations on the table keep what is queued\<close>

text \<open>The commands \<open>B\<close> stay in the table, as they are.\<close>

definition kept :: "nat set \<Rightarrow> VSSI_SendState \<Rightarrow> VSSI_SendState \<Rightarrow> bool" where
  "kept B st st' \<longleftrightarrow> (\<forall>b\<in>B. b \<in> set (pend_addrs st') \<and> ss_cmds st' ! b = ss_cmds st ! b)"

lemma kept_trans: "kept B st st1 \<Longrightarrow> kept B st1 st2 \<Longrightarrow> kept B st st2"
  by (simp add: kept_def)

lemma kept_same:
  "pend_addrs st' = pend_addrs st \<Longrightarrow> \<forall>b\<in>set (pend_addrs st). ss_cmds st' ! b = ss_cmds st ! b \<Longrightarrow>
     B \<subseteq> set (pend_addrs st) \<Longrightarrow> kept B st st'"
  by (auto simp: kept_def)

lemma set_pend_addrs:
  "a \<in> set (pend_addrs st) \<longleftrightarrow>
     (\<exists>i < ss_num_cmd_slots st. i < length (ss_table st) \<and> ss_table st ! i = Some a)"
  by (auto simp: pend_addrs_def pend_of_set)

lemma view_below:
  assumes "cmd_view st M W" and "b \<in> set (pend_addrs st)"
  shows "b < length (ss_cmds st)"
  using assms pend_below by (fastforce simp: cmd_view_def slots_view_def slots_with_def table_ok_def)

lemma expand_kept:
  assumes v: "slots_view st \<lparr>sl_lost = [], sl_free = free, sl_wait = wait\<rparr> M W"
    and r: "VSSI_ExpandCommandSlots realloc_ok calloc_ok junk st = (st1, rv)"
    and B: "B \<subseteq> set (pend_addrs st)"
  shows "kept B st st1"
proof (cases "ss_num_cmd_slots_active st = ss_num_cmd_slots st")
  case False
  then show ?thesis using r B by (auto simp: VSSI_ExpandCommandSlots_def kept_def)
next
  case True
  have sw: "slots_with st \<lparr>sl_lost = [], sl_free = free, sl_wait = wait\<rparr>" using v by (simp add: slots_view_def)
  have below: "b < ss_num_cmd_slots st" if "b \<in> set (pend_addrs st)" for b using pend_below [OF sw] that by simp
  show ?thesis
  proof (cases "realloc_ok \<and> calloc_ok")
    case True
    with VSSI_ExpandCommandSlots_grow [OF sw \<open>ss_num_cmd_slots_active st = ss_num_cmd_slots st\<close>, of junk] r
    have "pend_addrs st1 = pend_addrs st" "\<forall>a < ss_num_cmd_slots st. ss_cmds st1 ! a = ss_cmds st ! a" by auto
    then show ?thesis using B below by (intro kept_same) auto
  next
    case False
    with VSSI_ExpandCommandSlots_fail [OF sw True False, of junk] r
    have "pend_addrs st1 = pend_addrs st" "ss_cmds st1 = ss_cmds st" by auto
    then show ?thesis using B by (intro kept_same) auto
  qed
qed

lemma place_pending_kept:
  assumes v: "slots_view st \<lparr>sl_lost = [a], sl_free = free, sl_wait = wait\<rparr> M W"
    and r: "place_pending a xid st = Some st'" and B: "B \<subseteq> set (pend_addrs st)"
  shows "kept B st st'" and "a \<notin> B" and "ss_cmds st' = ss_cmds st"
proof -
  obtain slot where slot: "find_open (ss_table st) (ss_num_cmd_slots st) (unat xid mod ss_num_cmd_slots st) = Some slot"
    and st': "st' = st\<lparr>ss_table := (ss_table st)[slot := Some a]\<rparr>"
    using r by (auto simp: place_pending_def elim!: bind_eq_SomeE)
  have sw: "slots_with st \<lparr>sl_lost = [a], sl_free = free, sl_wait = wait\<rparr>" using v by (simp add: slots_view_def)
  then have len: "ss_num_cmd_slots st \<le> length (ss_table st)" by (simp add: slots_with_def table_ok_def)
  have "length (pend_addrs st) < length (take (ss_num_cmd_slots st) (ss_table st))"
    using owns_lengths [of st "\<lparr>sl_lost = [a], sl_free = free, sl_wait = wait\<rparr>"] sw len by (simp add: slots_with_def)
  then obtain j where "j < ss_num_cmd_slots st" "ss_table st ! j = None"
    using open_slot_exists [of "take (ss_num_cmd_slots st) (ss_table st)"] len by (auto simp: pend_addrs_def)
  then have "ss_table st ! slot = None"
    using find_open_returns [of j "ss_num_cmd_slots st" "ss_table st" "unat xid mod ss_num_cmd_slots st"] slot by auto
  then have "set (pend_addrs st) \<subseteq> set (pend_addrs st')"
    by (auto simp: st' set_pend_addrs) (metis nth_list_update_neq option.distinct(1))
  then show "kept B st st'" using B by (auto simp: kept_def st')
  show "a \<notin> B" using lost_apart(1) [OF sw] B by blast
  show "ss_cmds st' = ss_cmds st" by (simp add: st')
qed

lemma next_xid_kept: "next_xid st = (st', xid) \<Longrightarrow> B \<subseteq> set (pend_addrs st) \<Longrightarrow> kept B st st'"
  by (auto simp: next_xid_def Let_def kept_def pend_addrs_def)

lemma upd_cmd_kept: "a \<notin> B \<Longrightarrow> B \<subseteq> set (pend_addrs st) \<Longrightarrow> kept B st (upd_cmd a f st)"
  by (auto simp: kept_def cmds_upd_cmd pend_addrs_def)

lemma VSSI_AddPendingCommand_kept:
  assumes v: "cmd_view st M W" and B: "B \<subseteq> set (pend_addrs st)"
    and r: "VSSI_AddPendingCommand realloc_ok calloc_ok junk cmd st = Some (st', rv, xid)"
  shows "kept B st st'"
proof -
  obtain free wait where v0: "slots_view st \<lparr>sl_lost = [], sl_free = free, sl_wait = wait\<rparr> M W"
    using v by (auto simp: cmd_view_def)
  obtain st1 rv1 free' where e: "VSSI_ExpandCommandSlots realloc_ok calloc_ok junk st = (st1, rv1)"
    "slots_view st1 \<lparr>sl_lost = [], sl_free = free', sl_wait = wait\<rparr> M W" "rv1 = VSSI_SUCCESS \<longleftrightarrow> free' \<noteq> []"
    using expand_view [OF v0] by metis
  have k1: "kept B st st1" by (rule expand_kept [OF v0 e(1) B])
  show ?thesis
  proof (cases "rv1 = VSSI_SUCCESS")
    case False
    then show ?thesis using r e(1) k1 by (simp add: VSSI_AddPendingCommand_def)
  next
    case True
    then obtain a rest where free': "free' = a # rest" using e(3) by (cases free') auto
    obtain st2 where st2: "next_xid st1 = (st2, ss_seq_id st1)" by (metis next_xid_simps(1) prod.collapse)
    have v2: "slots_view st2 \<lparr>sl_lost = [], sl_free = a # rest, sl_wait = wait\<rparr> M W"
      using e(2) next_xid_simps(3) [of st1] st2 free' by (metis fst_conv)
    have B1: "B \<subseteq> set (pend_addrs st1)" using k1 by (auto simp: kept_def)
    have k2: "kept B st1 st2" by (rule next_xid_kept [OF st2 B1])
    then have B2: "B \<subseteq> set (pend_addrs st2)" by (auto simp: kept_def)
    note take = take_free_view [OF v2]
    let ?taken = "st2\<lparr>ss_free_stack := pi_next_free (ss_cmds st2 ! a),
             ss_num_cmd_slots_active := ss_num_cmd_slots_active st2 + 1\<rparr>"
    obtain st3 where st3: "place_pending a (ss_seq_id st1) st2 = Some st3"
      and st': "st' = upd_cmd a (\<lambda>c. cmd\<lparr>pi_xid := ss_seq_id st1\<rparr>)
          (st3\<lparr>ss_free_stack := pi_next_free (ss_cmds st3 ! a)\<rparr>)\<lparr>ss_num_cmd_slots_active := ss_num_cmd_slots_active st3 + 1\<rparr>"
      using r True e(1) st2 take(1) by (auto simp: VSSI_AddPendingCommand_def Let_def elim!: bind_eq_SomeE)
    have "place_pending a (ss_seq_id st1) ?taken = Some (st3\<lparr>ss_free_stack := pi_next_free (ss_cmds st2 ! a),
             ss_num_cmd_slots_active := ss_num_cmd_slots_active st2 + 1\<rparr>)"
      using st3 by (auto simp: place_pending_def elim!: bind_eq_SomeE)
    note place_pending_kept [OF take(2) this, of B]
    then have "kept B st2 st3" "a \<notin> B" using B2 by (simp_all add: kept_def pend_addrs_def)
    then have "kept B st2 st'" by (auto simp: st' kept_def cmds_upd_cmd pend_addrs_def)
    then show ?thesis using k1 k2 kept_trans by blast
  qed
qed

lemma link_wait_kept:
  assumes v: "slots_view st \<lparr>sl_lost = [a], sl_free = free, sl_wait = wait\<rparr> M W"
    and B: "B \<subseteq> set (pend_addrs st)"
  shows "kept B st (link_wait a st)"
proof -
  let ?l = "\<lparr>sl_lost = [a], sl_free = free, sl_wait = wait\<rparr>"
  have sw: "slots_with st ?l" using v by (simp add: slots_view_def)
  have d: "set wait \<inter> set (pend_addrs st) = {}"
    using owns_distinct(1) [of st ?l] sw by (auto simp: slots_with_def)
  have tail: "ss_wait_head st \<noteq> None \<Longrightarrow> \<exists>t\<in>set wait. ss_wait_tail st = Some t"
    using sw chain_head [of "\<lambda>a. pi_next (ss_cmds st ! a)" "ss_wait_head st" wait]
    by (auto simp: slots_with_def lists_ok_def split: list.splits intro!: last_in_set)
  show ?thesis
  proof (cases "ss_wait_head st")
    case None
    then show ?thesis using B by (auto simp: link_wait_def kept_def pend_addrs_def)
  next
    case (Some h)
    then obtain t where t: "t \<in> set wait" "ss_wait_tail st = Some t" using tail by auto
    then have "t \<notin> B" using d B by auto
    then show ?thesis using B t Some by (auto simp: link_wait_def kept_def pend_addrs_def cmds_upd_cmd)
  qed
qed

lemma VSSI_AddWaitingCommand_kept:
  assumes v: "cmd_view st M W" and B: "B \<subseteq> set (pend_addrs st)"
    and r: "VSSI_AddWaitingCommand realloc_ok calloc_ok junk cmd st = Some (st', rv)"
  shows "kept B st st'"
proof -
  obtain free wait where v0: "slots_view st \<lparr>sl_lost = [], sl_free = free, sl_wait = wait\<rparr> M W"
    using v by (auto simp: cmd_view_def)
  obtain st1 rv1 free' where e: "VSSI_ExpandCommandSlots realloc_ok calloc_ok junk st = (st1, rv1)"
    "slots_view st1 \<lparr>sl_lost = [], sl_free = free', sl_wait = wait\<rparr> M W" "rv1 = VSSI_SUCCESS \<longleftrightarrow> free' \<noteq> []"
    using expand_view [OF v0] by metis
  have k1: "kept B st st1" by (rule expand_kept [OF v0 e(1) B])
  show ?thesis
  proof (cases "rv1 = VSSI_SUCCESS")
    case False
    then show ?thesis using r e(1) k1 by (simp add: VSSI_AddWaitingCommand_def)
  next
    case True
    then obtain a rest where free': "free' = a # rest" using e(3) by (cases free') auto
    have B1: "B \<subseteq> set (pend_addrs st1)" using k1 by (auto simp: kept_def)
    note take = take_free_view [OF e(2) [unfolded free']]
    let ?taken = "st1\<lparr>ss_free_stack := pi_next_free (ss_cmds st1 ! a),
             ss_num_cmd_slots_active := ss_num_cmd_slots_active st1 + 1\<rparr>"
    let ?w = "upd_cmd a (\<lambda>c. cmd\<lparr>pi_next := None\<rparr>) ?taken"
    note wr = write_lost_view [OF take(2), of "\<lambda>c. cmd\<lparr>pi_next := None\<rparr>"]
    have "a \<notin> B" using lost_apart(1) [of ?taken a rest wait] take(2) B1
      by (auto simp: slots_view_def pend_addrs_def)
    then have k2: "kept B st1 ?w" using B1 by (auto simp: kept_def cmds_upd_cmd pend_addrs_def)
    then have "B \<subseteq> set (pend_addrs ?w)" by (auto simp: kept_def)
    then have k3: "kept B ?w (link_wait a ?w)" by (rule link_wait_kept [OF wr(1)])
    have "st' = link_wait a ?w"
      using r True by (auto simp: VSSI_AddWaitingCommand_def e(1) take(1) Let_def link_wait_def
          split: option.splits elim!: bind_eq_SomeE)
    then show ?thesis using k1 k2 k3 kept_trans by blast
  qed
qed

lemma VSSI_WaitingCommandToPending_kept:
  assumes v: "slots_view st \<lparr>sl_lost = [a], sl_free = free, sl_wait = wait\<rparr> M W"
    and r: "VSSI_WaitingCommandToPending a st = Some (st', rv, xid)" and B: "B \<subseteq> set (pend_addrs st)"
  shows "kept B st st'"
proof -
  obtain st1 where st1: "next_xid st = (st1, ss_seq_id st)" by (metis next_xid_simps(1) prod.collapse)
  have v1: "slots_view st1 \<lparr>sl_lost = [a], sl_free = free, sl_wait = wait\<rparr> M W"
    using v next_xid_simps(3) [of st] st1 by (simp del: next_xid_simps)
  obtain st2 where st2: "place_pending a (ss_seq_id st) st1 = Some st2"
    and st': "st' = upd_cmd a (\<lambda>c. c\<lparr>pi_xid := ss_seq_id st\<rparr>) st2"
    using r by (auto simp: VSSI_WaitingCommandToPending_def st1 elim!: bind_eq_SomeE)
  have k1: "kept B st st1" by (rule next_xid_kept [OF st1 B])
  then have B1: "B \<subseteq> set (pend_addrs st1)" by (auto simp: kept_def)
  note p = place_pending_kept [OF v1 st2 B1]
  then have "kept B st2 st'" unfolding st' by (intro upd_cmd_kept) (auto simp: kept_def)
  then show ?thesis using k1 p(1) kept_trans by blast
qed

text \<open>Clearing the slot of one command and giving it back.\<close>

lemma clear_kept:
  assumes v: "cmd_view st M W" and slot: "slot < ss_num_cmd_slots st" "ss_table st ! slot = Some a"
    and B: "B \<subseteq> set (pend_addrs st)" "a \<notin> B"
  shows "kept B st (release_cmd a (st\<lparr>ss_table := (ss_table st)[slot := None]\<rparr>))"
proof -
  have "b \<in> set (pend_addrs (st\<lparr>ss_table := (ss_table st)[slot := None]\<rparr>))" if "b \<in> B" for b
  proof -
    have "b \<noteq> a" "b \<in> set (pend_addrs st)" using that B by auto
    then show ?thesis using slot by (auto simp: set_pend_addrs) (metis nth_list_update_neq option.inject)
  qed
  then show ?thesis using B by (auto simp: kept_def cmds_release_cmd)
qed

section \<open>Operations on the table leave the rest of the send state\<close>

definition frame ::
  "VSSI_SendState \<Rightarrow> u64 \<times> VSSI_UserSession \<times> u8 \<times> u8 \<times> u8 \<times> negotiated \<times> ptr" where
  "frame st = (ss_cluster_id st, ss_session st, ss_sign_mode st, ss_sign_type st, ss_enc_type st,
     ss_negotiated st, ss_server_connection st)"

lemma frame_eq:
  assumes "frame st = frame st'"
  shows "ss_cluster_id st = ss_cluster_id st'" "ss_session st = ss_session st'"
    "ss_sign_mode st = ss_sign_mode st'" "ss_sign_type st = ss_sign_type st'"
    "ss_enc_type st = ss_enc_type st'" "ss_negotiated st = ss_negotiated st'"
    "ss_server_connection st = ss_server_connection st'"
  using assms by (simp_all add: frame_def)

lemma frame_upd [simp]:
  "frame (st\<lparr>ss_num_cmd_slots := n\<rparr>) = frame st" "frame (st\<lparr>ss_num_cmd_slots_active := n\<rparr>) = frame st"
  "frame (st\<lparr>ss_num_chunks := n\<rparr>) = frame st" "frame (st\<lparr>ss_cmd_chunks := n\<rparr>) = frame st"
  "frame (st\<lparr>ss_table := t\<rparr>) = frame st" "frame (st\<lparr>ss_cmds := m\<rparr>) = frame st"
  "frame (st\<lparr>ss_free_stack := p\<rparr>) = frame st" "frame (st\<lparr>ss_wait_head := p\<rparr>) = frame st"
  "frame (st\<lparr>ss_wait_tail := p\<rparr>) = frame st" "frame (st\<lparr>ss_seq_id := x\<rparr>) = frame st"
  by (simp_all add: frame_def)

lemma frame_cmds [simp]:
  "frame (upd_cmd a f st) = frame st" "frame (push_free a st) = frame st" "frame (release_cmd a st) = frame st"
  by (simp_all add: frame_def upd_cmd_def push_free_def release_cmd_def)

lemma frame_push_range [simp]: "frame (push_range base n st) = frame st"
  by (induction n) (simp_all add: push_range_Suc, simp add: push_range_def)

lemma frame_expand:
  assumes "VSSI_ExpandCommandSlots realloc_ok calloc_ok junk st = (st', rv)"
  shows "frame st' = frame st"
  using assms
  by (auto simp: VSSI_ExpandCommandSlots_def Let_def push_range_def [symmetric] split: if_splits)

lemma frame_next_xid: "next_xid st = (st', xid) \<Longrightarrow> frame st' = frame st"
  by (auto simp: next_xid_def Let_def)

lemma frame_place: "place_pending a xid st = Some st' \<Longrightarrow> frame st' = frame st"
  by (auto simp: place_pending_def elim!: bind_eq_SomeE)

lemma frame_add_pending:
  "VSSI_AddPendingCommand realloc_ok calloc_ok junk cmd st = Some (st', rv, xid) \<Longrightarrow> frame st' = frame st"
  by (auto simp: VSSI_AddPendingCommand_def Let_def split: prod.splits if_splits elim!: bind_eq_SomeE
      dest!: frame_expand frame_next_xid frame_place)

lemma frame_add_waiting:
  "VSSI_AddWaitingCommand realloc_ok calloc_ok junk cmd st = Some (st', rv) \<Longrightarrow> frame st' = frame st"
  by (auto simp: VSSI_AddWaitingCommand_def Let_def split: prod.splits if_splits elim!: bind_eq_SomeE
      dest!: frame_expand)

lemma frame_waiting_to_pending:
  "VSSI_WaitingCommandToPending a st = Some (st', rv, xid) \<Longrightarrow> frame st' = frame st"
  by (auto simp: VSSI_WaitingCommandToPending_def split: prod.splits elim!: bind_eq_SomeE
      dest!: frame_next_xid frame_place)

text \<open>With nothing pending there is nothing to reply to on one connection.\<close>

lemma reply_nothing:
  assumes v: "cmd_view st {#} W"
  shows "VSSI_ReplyPendingCommands st (Some c) rc = Some (st, [])"
proof -
  have "pend_cmds st = {#}" using v by (auto simp: cmd_view_def slots_view_def)
  then have none: "pend_addrs st = []" by (simp add: pend_cmds_def)
  have len: "ss_num_cmd_slots st \<le> length (ss_table st)"
    using v by (auto simp: cmd_view_def slots_view_def slots_with_def table_ok_def)
  have free: "ss_table st ! i = None" if "i < ss_num_cmd_slots st" for i
  proof (rule ccontr)
    assume "ss_table st ! i \<noteq> None"
    then obtain a where "ss_table st ! i = Some a" by auto
    then have "a \<in> set (pend_addrs st)" using that len by (auto simp: set_pend_addrs)
    then show False using none by simp
  qed
  have "foldl (reply_slot (Some c) rc) (st, [], False) [0..<n] = (st, [], False)" if "n \<le> ss_num_cmd_slots st" for n
    using that
  proof (induction n)
    case (Suc n)
    then show ?case using free [of n] by (simp add: reply_slot_def)
  qed simp
  then show ?thesis by (simp add: VSSI_ReplyPendingCommands_def)
qed

section \<open>Sending keeps the table\<close>

lemma assign_memory:
  assumes "assign_connection cs (Some a) m = (cs', p, m')" and "a < length m"
  shows "length m' = length m" and "\<And>b. b \<noteq> a \<Longrightarrow> m' ! b = m ! b" and "\<And>b. core (m' ! b) = core (m ! b)"
    and "length cs' = length cs" and "map vc_conn_id cs' = map vc_conn_id cs"
proof -
  have nth: "core ((m[a := v]) ! b) = core (m ! b)" if "core v = core (m ! a)" for v b
    using that assms(2) by (cases "b = a") simp_all
  show "length m' = length m" "\<And>b. b \<noteq> a \<Longrightarrow> m' ! b = m ! b" "\<And>b. core (m' ! b) = core (m ! b)"
    "length cs' = length cs" "map vc_conn_id cs' = map vc_conn_id cs"
    using assms(1)
    by (cases rule: assign_connection_cases [of cs a m]; auto simp: nth map_update nth_map list_update_same_conv)+
qed

lemma VSSI_SendToServer_memory:
  assumes r: "VSSI_SendToServer node (Some a) m = (node', m')" and a: "a < length m"
    and q: "queue_of node m qs" and below: "\<And>b. b \<in> set qs \<Longrightarrow> b < length m"
  shows "length m' = length m" and "\<And>b. b \<noteq> a \<Longrightarrow> b \<notin> set qs \<Longrightarrow> m' ! b = m ! b"
    and "\<And>b. core (m' ! b) = core (m ! b)"
    and "map vc_conn_id (cn_connections node') = map vc_conn_id (cn_connections node)"
    and "cn_connect_state node' = cn_connect_state node" and "cn_route_id node' = cn_route_id node"
    and "cn_cluster_id node' = cn_cluster_id node" and "cn_type node' = cn_type node"
proof -
  obtain cs p m1 where as: "assign_connection (cn_connections node) (Some a) m = (cs, p, m1)" by (metis prod_cases3)
  note A = assign_memory [OF as a]
  have tail: "cn_send_tail node = Some t \<Longrightarrow> t \<in> set qs" for t
    using q by (auto simp: queue_of_def split: if_splits)
  have nth: "core ((n[t := (n ! t)\<lparr>pi_next := x\<rparr>]) ! b) = core (n ! b)" for n t x b
    by (cases "t < length n"; cases "b = t") (simp_all add: list_update_beyond not_less)
  have p: "p = None \<or> p = Some a"
    using as by (cases rule: assign_connection_cases [of "cn_connections node" a m]) auto
  note sends = VSSI_SendToServer_def VSSI_SendToServerUnlocked_def Let_def
  show "\<And>b. b \<noteq> a \<Longrightarrow> b \<notin> set qs \<Longrightarrow> m' ! b = m ! b"
    using r as A p tail below by (auto simp: sends nth_list_update split: option.splits)
  show "length m' = length m" "\<And>b. core (m' ! b) = core (m ! b)"
    "map vc_conn_id (cn_connections node') = map vc_conn_id (cn_connections node)"
    "cn_connect_state node' = cn_connect_state node" "cn_route_id node' = cn_route_id node"
    "cn_cluster_id node' = cn_cluster_id node" "cn_type node' = cn_type node"
    using r as A p by (auto simp: sends nth split: option.splits)
qed

lemma next_send_memory:
  assumes "next_send node c m = (node', c', m')"
  shows "length m' = length m" and "\<And>b. b \<noteq> the (cn_send_head node) \<Longrightarrow> m' ! b = m ! b"
    and "\<And>b. core (m' ! b) = core (m ! b)" and "vc_conn_id c' = vc_conn_id c"
    and "cn_connections node' = cn_connections node"
    and "cn_connect_state node' = cn_connect_state node" and "cn_route_id node' = cn_route_id node"
    and "cn_cluster_id node' = cn_cluster_id node" and "cn_send_head node = None \<Longrightarrow> m' = m"
proof -
  have nth: "core ((n[t := (n ! t)\<lparr>pi_msg := x, pi_connection := y\<rparr>]) ! b) = core (n ! b)" for n t x y b
    by (cases "t < length n"; cases "b = t") (simp_all add: list_update_beyond not_less)
  show "length m' = length m" "\<And>b. b \<noteq> the (cn_send_head node) \<Longrightarrow> m' ! b = m ! b"
    "\<And>b. core (m' ! b) = core (m ! b)" "vc_conn_id c' = vc_conn_id c" "cn_connections node' = cn_connections node"
    "cn_connect_state node' = cn_connect_state node" "cn_route_id node' = cn_route_id node"
    "cn_cluster_id node' = cn_cluster_id node" "cn_send_head node = None \<Longrightarrow> m' = m"
    using assms by (auto simp: next_send_def Let_def nth split: option.splits if_splits)
qed

lemma VSSI_SendVSRequest_memory:
  assumes r: "VSSI_SendVSRequest rc node i m = (node', m', sent)" and q: "queue_of node m qs"
  shows "length m' = length m" and "\<And>b. b \<notin> set qs \<Longrightarrow> m' ! b = m ! b"
    and "\<And>b. core (m' ! b) = core (m ! b)"
    and "map vc_conn_id (cn_connections node') = map vc_conn_id (cn_connections node)"
    and "cn_connect_state node' = cn_connect_state node" and "cn_route_id node' = cn_route_id node"
    and "cn_cluster_id node' = cn_cluster_id node"
proof -
  have head: "the (cn_send_head node) \<in> set qs" if "cn_send_head node \<noteq> None"
    using q that chain_head by (fastforce simp: queue_of_def split: list.splits)
  have ids: "map vc_conn_id (cs[i := c]) = map vc_conn_id cs" if "vc_conn_id c = vc_conn_id (cs ! i)" for cs c
    using that by (simp add: map_update list_update_same_conv) (metis list_update_beyond list_update_id map_update not_less nth_map)
  show "length m' = length m" "\<And>b. core (m' ! b) = core (m ! b)"
    "map vc_conn_id (cn_connections node') = map vc_conn_id (cn_connections node)"
    "cn_connect_state node' = cn_connect_state node" "cn_route_id node' = cn_route_id node"
    "cn_cluster_id node' = cn_cluster_id node"
    using r by (auto simp: VSSI_SendVSRequest_def Let_def next_send_memory intro!: ids
        split: option.splits if_splits prod.splits dest: next_send_memory(1,3,4,5,6,7,8))
  show "m' ! b = m ! b" if "b \<notin> set qs" for b
  proof (cases "cn_send_head node = None")
    case True
    then show ?thesis using r by (auto simp: VSSI_SendVSRequest_def Let_def
        split: option.splits if_splits prod.splits dest: next_send_memory(9))
  next
    case False
    then have "b \<noteq> the (cn_send_head node)" using head that by blast
    then show ?thesis using r by (auto simp: VSSI_SendVSRequest_def Let_def
        split: option.splits if_splits prod.splits dest: next_send_memory(2))
  qed
qed

section \<open>The invariant\<close>

text \<open>
  A prepared message: header and body as \<open>VSSI_PrepareMessage\<close> leaves them, with room for padding, and
  short enough for the cipher's 32-bit bit count.
\<close>

definition msg_prepared :: "VSSI_MsgBuffer \<Rightarrow> bool" where
  "msg_prepared x \<longleftrightarrow> (\<exists>H B P. x = \<lparr>msg_length = 48 + length B, msg_msg = H @ B @ P\<rparr> \<and> length H = 48 \<and>
     rd_bytes H 38 10 = Some (replicate 10 0) \<and> vss_get_version H = Some 2 \<and>
     vss_get_data_length H = Some (word_of_nat (length B)) \<and> length P = pad_len_of (length B) \<and>
     length B + 16 < 2 ^ 28)"

text \<open>
  The node's: a failed one has no socket, any other one connection; before it is active nothing was
  given to it to send; while it connects, a route is tried.
\<close>

definition node_inv :: "int list \<Rightarrow> VSSI_VSConnectionNode \<Rightarrow> bool" where
  "node_inv routes node \<longleftrightarrow>
     (cn_connect_state node = CONNECTION_FAILED \<longrightarrow> (\<forall>c\<in>set (cn_connections node). vc_conn_id c = None)) \<and>
     (cn_connect_state node \<noteq> CONNECTION_FAILED \<longrightarrow> length (cn_connections node) = 1) \<and>
     (cn_connect_state node \<notin> {CONNECTION_FAILED, CONNECTION_ACTIVE} \<longrightarrow>
        node_ok node [] [] \<and> (\<forall>c\<in>set (cn_connections node). vc_send_msg c = None)) \<and>
     (cn_connect_state node \<in> {CONNECTION_CONNECTING, CONNECTION_CONNECTED} \<longrightarrow>
        0 < cn_route_id node \<and> cn_route_id node \<le> int (length routes))"

text \<open>Nothing of this session is queued at the node.\<close>

definition quiet :: "VSSI_VSConnectionNode \<Rightarrow> bool" where
  "quiet node \<longleftrightarrow> cn_connect_state node = CONNECTION_FAILED \<or> node_ok node [] []"

definition queue_inv :: "VSSI_VSConnectionNode \<Rightarrow> VSSI_SendState \<Rightarrow> nat list \<Rightarrow> bool" where
  "queue_inv node st qs \<longleftrightarrow> (if ss_server_connection st = None then qs = [] \<and> quiet node
     else node_ok node (ss_cmds st) qs \<and> set qs \<subseteq> set (pend_addrs st))"

text \<open>The phases of a session: what is pending (\<open>M\<close>) and waiting (\<open>W\<close>) in each.\<close>

definition phase_ok ::
  "connect_state \<Rightarrow> VSSI_SendState \<Rightarrow> VSSI_PendInfo multiset \<Rightarrow> VSSI_PendInfo list \<Rightarrow> bool" where
  "phase_ok cs st M W \<longleftrightarrow> (case ss_negotiated st of
     NEGOTIATE_NEEDED \<Rightarrow> M = {#} \<and> W = [] \<and> ss_server_connection st = None
   | NEGOTIATE_PENDING \<Rightarrow> ss_server_connection st \<noteq> None \<and>
       (\<forall>c\<in>#M. pi_command c = VSS_NEGOTIATE \<and> pi_callback c = None) \<and>
       (if cs = CONNECTION_ACTIVE then size M = 1
        else M = {#} \<and> cs \<in> {CONNECTION_CONNECTING, CONNECTION_CONNECTED})
   | NEGOTIATE_DONE \<Rightarrow> ss_server_connection st \<noteq> None \<and> W = [] \<and> cs = CONNECTION_ACTIVE)"

definition waiting_ok :: "VSSI_PendInfo \<Rightarrow> bool" where
  "waiting_ok c \<longleftrightarrow> silent_negotiate c \<and> (\<exists>x. pi_msg c = Some x \<and> msg_prepared x)"

definition state_inv ::
  "vs_link \<Rightarrow> VSSI_SendState \<Rightarrow> nat list \<Rightarrow> VSSI_PendInfo multiset \<Rightarrow> VSSI_PendInfo list \<Rightarrow> bool" where
  "state_inv link st qs M W \<longleftrightarrow> cmd_view st M W \<and> ss_session st = lk_session link \<and>
     ss_cluster_id st = lk_cluster link \<and> (\<forall>x. count (image_mset pi_xid M) x \<le> 1) \<and>
     (\<forall>c\<in>#M. silent_negotiate c) \<and> (\<forall>c\<in>set W. waiting_ok c) \<and>
     phase_ok (cn_connect_state (lk_node link)) st M W \<and> queue_inv (lk_node link) st qs"

definition link_inv ::
  "vs_link \<Rightarrow> nat list \<Rightarrow> VSSI_PendInfo multiset \<Rightarrow> VSSI_PendInfo list \<Rightarrow> bool" where
  "link_inv link qs M W \<longleftrightarrow> session_ok (lk_session link) \<and> node_inv (lk_routes link) (lk_node link) \<and>
     (case lk_send_state link of
        None \<Rightarrow> M = {#} \<and> W = [] \<and> qs = [] \<and> quiet (lk_node link)
      | Some st \<Rightarrow> state_inv link st qs M W)"

lemma node_ok_cong:
  assumes "node_ok node m qs" and "\<And>b. b \<in> set qs \<Longrightarrow> m' ! b = m ! b" and "\<And>b. b \<in> set qs \<Longrightarrow> b < length m'"
  shows "node_ok node m' qs"
proof -
  have "chain (\<lambda>a. pi_next (m' ! a)) (cn_send_head node) qs = chain (\<lambda>a. pi_next (m ! a)) (cn_send_head node) qs"
    by (rule chain_cong) (simp add: assms(2))
  then show ?thesis using assms by (auto simp: node_ok_def queue_of_def list_all_iff has_msg_def)
qed

lemma node_ok_empty: "node_ok node m [] \<longleftrightarrow> node_ok node [] []"
  by (auto simp: node_ok_def queue_of_def)

lemma queue_kept:
  assumes "node_ok node (ss_cmds st) qs" and "kept (set qs) st st'" and "cmd_view st' M W"
  shows "node_ok node (ss_cmds st') qs \<and> set qs \<subseteq> set (pend_addrs st')"
  using assms view_below [OF assms(3)] by (auto simp: kept_def intro: node_ok_cong [OF assms(1)])

section \<open>Giving a command to the server\<close>

text \<open>Where a message is: on a connection that sends nothing else, or last in the queue.\<close>

definition posted ::
  "buffer \<Rightarrow> VSSI_VSConnectionNode \<Rightarrow> cmd_memory \<Rightarrow> nat list \<Rightarrow> VSSI_VSConnectionNode \<Rightarrow> cmd_memory \<Rightarrow> nat list \<Rightarrow> bool" where
  "posted bytes node m qs node' m' qs' \<longleftrightarrow>
     (qs = [] \<and> qs' = [] \<and> (\<exists>i < length (cn_connections node). unsent (cn_connections node ! i) = [] \<and>
        map unsent (cn_connections node') = (map unsent (cn_connections node))[i := bytes])) \<or>
     (cn_connections node' = cn_connections node \<and> (\<forall>b\<in>set qs. cmd_image m' b = cmd_image m b) \<and>
        (\<exists>a. qs' = qs @ [a] \<and> cmd_image m' a = bytes))"

text \<open>With one connection the bytes that go to the server have an order.\<close>

definition outgoing :: "VSSI_VSConnectionNode \<Rightarrow> cmd_memory \<Rightarrow> nat list \<Rightarrow> buffer" where
  "outgoing node m qs = concat (map unsent (cn_connections node)) @ concat (map (cmd_image m) qs)"

lemma posted_outgoing:
  assumes "posted bytes node m qs node' m' qs'" and "length (cn_connections node) = 1"
  shows "outgoing node' m' qs' = outgoing node m qs @ bytes"
proof -
  obtain c where "cn_connections node = [c]" using assms(2) by (cases "cn_connections node") auto
  moreover have "map (cmd_image m') qs = map (cmd_image m) qs" if "\<forall>b\<in>set qs. cmd_image m' b = cmd_image m b"
    using that by simp
  ultimately show ?thesis using assms(1) by (auto simp: posted_def outgoing_def simp del: map_eq_conv)
qed

lemma link_send_cmd_view:
  assumes v: "cmd_view st M W" and q: "node_ok (lk_node link) (ss_cmds st) qs" "set qs \<subseteq> set (pend_addrs st)"
    and a: "a \<in> set (pend_addrs st)" "a \<notin> set qs" and x: "msg_ok x"
  obtains node' st' M' qs' where
    "link_send_cmd a (upd_cmd a (\<lambda>c. c\<lparr>pi_msg := Some x\<rparr>) st) link = put_node node' (put_state st' link)"
    and "cmd_view st' M' W" and "image_mset core M' = image_mset core M" and "frame st' = frame st"
    and "ss_seq_id st' = ss_seq_id st" and "pend_addrs st' = pend_addrs st"
    and "ss_wait_head st' = ss_wait_head st" and "ss_num_cmd_slots st' = ss_num_cmd_slots st"
    and "node_ok node' (ss_cmds st') qs'" and "set qs' \<subseteq> set (pend_addrs st')"
    and "posted (wire_image x) (lk_node link) (ss_cmds st) qs node' (ss_cmds st') qs'"
    and "map vc_conn_id (cn_connections node') = map vc_conn_id (cn_connections (lk_node link))"
    and "cn_connect_state node' = cn_connect_state (lk_node link)"
    and "cn_route_id node' = cn_route_id (lk_node link)" and "cn_cluster_id node' = cn_cluster_id (lk_node link)"
proof -
  let ?st = "upd_cmd a (\<lambda>c. c\<lparr>pi_msg := Some x\<rparr>) st"
  let ?m = "ss_cmds ?st"
  have below: "b < length (ss_cmds st)" if "b \<in> set (pend_addrs st)" for b by (rule view_below [OF v that])
  have m_a: "?m ! a = (ss_cmds st ! a)\<lparr>pi_msg := Some x\<rparr>" using below [OF a(1)] by (simp add: cmds_upd_cmd)
  have m_b: "?m ! b = ss_cmds st ! b" if "b \<noteq> a" for b using that by (simp add: cmds_upd_cmd)
  have ok: "node_ok (lk_node link) ?m qs"
    by (rule node_ok_cong [OF q(1)]) (metis m_b a(2), use q(2) below in auto)
  have has: "has_msg ?m a" using m_a x below [OF a(1)] by (simp add: has_msg_def)
  obtain node' m' where r: "VSSI_SendToServer (lk_node link) (Some a) ?m = (node', m')" by fastforce
  have qo: "queue_of (lk_node link) ?m qs" using ok by (simp add: node_ok_def)
  have len: "length ?m = length (ss_cmds st)" by simp
  note mem = VSSI_SendToServer_memory [OF r _ qo]
  have mem': "length m' = length (ss_cmds st)" "\<And>b. b \<noteq> a \<Longrightarrow> b \<notin> set qs \<Longrightarrow> m' ! b = ss_cmds st ! b"
    "\<And>b. core (m' ! b) = core (ss_cmds st ! b)"
    using mem(1-3) below a(1) q(2) m_a m_b by (auto simp: subset_iff) (metis core_upd(3))
  let ?st' = "st\<lparr>ss_cmds := m'\<rparr>"
  obtain M' where M': "cmd_view ?st' M' W" "image_mset core M' = image_mset core M"
    using cmds_change [OF v mem'(1) _ mem'(3)] mem'(2) a(1) q(2) by (metis subsetD)
  have pend: "pend_addrs ?st' = pend_addrs st" by (simp add: pend_addrs_def)
  have img: "cmd_image ?m a = wire_image x" by (simp add: cmd_image_def m_a)
  have "\<exists>qs'. node_ok node' m' qs' \<and> set qs' \<subseteq> insert a (set qs) \<and> posted (wire_image x) (lk_node link) (ss_cmds st) qs node' m' qs'"
    using ok a(2) has r
  proof (cases rule: VSSI_SendToServer_step)
    case (taken i)
    then show ?thesis by (intro exI [of _ "[]"]) (auto simp: posted_def img)
  next
    case queued
    have "cmd_image ?m b = cmd_image (ss_cmds st) b" if "b \<in> set qs" for b
      using m_b [of b] a(2) that by (cases "b = a") (simp_all add: cmd_image_def del: ss_upd_cmd)
    with queued show ?thesis by (intro exI [of _ "qs @ [a]"]) (auto simp: posted_def img)
  qed
  then obtain qs' where qs': "node_ok node' m' qs'" "set qs' \<subseteq> insert a (set qs)"
    "posted (wire_image x) (lk_node link) (ss_cmds st) qs node' m' qs'" by blast
  have "link_send_cmd a ?st link = put_node node' (put_state ?st' link)"
    using r by (simp add: link_send_cmd_def upd_cmd_def put_state_def)
  then show thesis
    using that [of node' ?st' M' qs'] M' qs' pend q(2) a(1) mem(4-7) below by auto
qed

text \<open>The command just added is the one its id finds, and it is not queued yet.\<close>

lemma found_new:
  assumes v: "cmd_view st M W" and one: "\<forall>x. count (image_mset pi_xid M) x \<le> 1"
    and v1: "cmd_view st1 (add_mset c M) W1" and fresh: "pi_xid c \<notin># image_mset pi_xid M"
    and k: "kept B st st1" and B: "B \<subseteq> set (pend_addrs st)"
  obtains a where "VSSI_GetVSCommandSlot st1 (pi_xid c) = Some (Some a)" and "a \<in> set (pend_addrs st1)"
    and "a \<notin> B" and "ss_cmds st1 ! a = c"
proof -
  obtain slot a where a: "nat slot < ss_num_cmd_slots st1" "ss_table st1 ! nat slot = Some a"
    "pi_xid (ss_cmds st1 ! a) = pi_xid c" "VSSI_GetVSCommandSlot st1 (pi_xid c) = Some (Some a)"
    using VSSI_GetVSCommandSlot_view [OF v1, of "pi_xid c"] by auto
  have len: "ss_num_cmd_slots st1 \<le> length (ss_table st1)"
    using v1 by (auto simp: cmd_view_def slots_view_def slots_with_def table_ok_def)
  have pend: "a \<in> set (pend_addrs st1)" using a(1,2) len by (auto simp: set_pend_addrs)
  have M1: "add_mset c M = pend_cmds st1" by (rule cmd_view_pend [OF v1])
  then have "ss_cmds st1 ! a \<in># add_mset c M" using pend by (simp add: pend_cmds_def)
  moreover have "ss_cmds st1 ! a \<notin># M" using fresh a(3) by (metis image_eqI set_image_mset)
  ultimately have c: "ss_cmds st1 ! a = c" by simp
  have "a \<notin> B"
  proof
    assume "a \<in> B"
    then have "ss_cmds st ! a = c" "a \<in> set (pend_addrs st)" using k B c by (auto simp: kept_def)
    then have "c \<in># M" using cmd_view_pend [OF v] by (simp add: pend_cmds_def) blast
    then show False using fresh by auto
  qed
  then show thesis using that a(4) pend c by blast
qed

lemma count_add_fresh:
  "\<forall>x. count (image_mset pi_xid M) x \<le> 1 \<Longrightarrow> pi_xid c \<notin># image_mset pi_xid M \<Longrightarrow>
     \<forall>x. count (image_mset pi_xid (add_mset c M)) x \<le> 1"
  by (auto simp del: in_image_mset set_image_mset simp: not_in_iff)

section \<open>Transaction ids\<close>

text \<open>From any start, the next \<open>2 ^ 32 - 1\<close> ids are different: the sequence leaves out 0 when it wraps.\<close>

definition id_after :: "u32 \<Rightarrow> nat \<Rightarrow> u32" where
  "id_after x k = (seq_after ^^ k) x"

lemma id_after_simps [simp]: "id_after x 0 = x" "id_after (seq_after x) k = id_after x (Suc k)"
  by (simp_all add: id_after_def funpow_swap1)

lemma unat_u32: "unat (x :: u32) < 2 ^ 32"
  using unsigned_less [of x] by simp

lemma unat_seq_after: "unat (seq_after x) = (if unat x + 1 < 2 ^ 32 then unat x + 1 else 1)"
proof -
  have "unat (x + 1) = (unat x + 1) mod 2 ^ 32" by (simp add: unat_word_ariths)
  moreover have "x + 1 = 0 \<longleftrightarrow> unat (x + 1) = 0" by (simp add: unat_eq_0)
  moreover have "unat x + 1 < 2 ^ 32 \<or> unat x + 1 = 2 ^ 32" using unat_u32 [of x] by linarith
  ultimately show ?thesis by (auto simp: seq_after_def)
qed

lemma unat_id_after:
  "k < 2 ^ 32 - 1 \<Longrightarrow> unat (id_after x k) =
     (if unat x + k < 2 ^ 32 then unat x + k else unat x + k + 1 - 2 ^ 32)"
proof (induction k)
  case (Suc k)
  have "id_after x (Suc k) = seq_after (id_after x k)" by (simp add: id_after_def)
  then show ?case using Suc unat_u32 [of x] by (auto simp: unat_seq_after)
qed (use unat_u32 [of x] in simp)

lemma id_after_inj:
  assumes "id_after x j = id_after x k" and "j < 2 ^ 32 - 1" and "k < 2 ^ 32 - 1"
  shows "j = k"
proof -
  have "unat (id_after x j) = unat (id_after x k)" using assms(1) by simp
  then show ?thesis using assms(2,3) unat_u32 [of x] by (auto simp: unat_id_after split: if_splits)
qed

end
