(* ===== verification/Vssi_Session_Correct.thy ===== *)
theory Vssi_Session_Correct
  imports Vssi_Session Vssi_Link_Correct
begin

text \<open>
  A session keeps its invariant, whatever order commands, connections and negotiations come in
  (\<open>Vssi_Session\<close>), and every command it takes is answered once. Each operation has a lemma that it
  returns, that \<open>link_inv\<close> holds after it, and which callbacks it makes.
\<close>

section \<open>Composing\<close>

lemma prepare_prepared:
  assumes header: "length header = 48"
    "rd_bytes header VSS_HEADER_HMAC_OFFSET VSS_HMAC_SIZE = Some (replicate VSS_HMAC_SIZE 0)"
    and parts: "part_ok d0 l0" "part_ok d1 l1" "part_ok d2 l2" and len: "l0 + l1 + l2 + 16 < 2 ^ 28"
  shows "\<exists>msg r'. VSSI_PrepareMessage True dev r header d0 l0 d1 l1 d2 l2 = Some (Some msg, r') \<and> msg_prepared msg"
proof -
  let ?n = "l0 + l1 + l2" and ?B = "part_bytes d0 l0 @ part_bytes d1 l1 @ part_bytes d2 l2"
  obtain pad r' where pad: "pad_random (pad_len_of ?n) r = (pad, r')" by fastforce
  have plen: "length pad = pad_len_of ?n" using pad_random_length [of "pad_len_of ?n" r] pad by simp
  have blen: "length ?B = ?n" using parts by (simp add: length_part_bytes)
  obtain h where h: "prepared_header dev ?n header = Some h" "length h = 48" "vss_get_version h = Some 2"
    "vss_get_data_length h = Some (word_of_nat ?n)" "\<And>off k. 28 \<le> off \<Longrightarrow> rd_bytes h off k = rd_bytes header off k"
    using prepared_header_fields [OF header(1), of ?n dev] len by auto
  have "msg_prepared \<lparr>msg_length = 48 + ?n, msg_msg = h @ ?B @ pad\<rparr>"
    unfolding msg_prepared_def using h header(2) blen plen len by (intro exI [of _ h] exI [of _ ?B] exI [of _ pad]) auto
  then show ?thesis using VSSI_PrepareMessage_bytes [OF h(1,2) parts, of r] pad by simp
qed

text \<open>Storing the id and composing, in any mode.\<close>

lemma compose_prepared:
  assumes s: "session_ok s" and x: "msg_prepared x"
  obtains bytes out H B P where "vss_set_xid (msg_msg x) xid = Some bytes"
    and "VSSI_ComposeMessage True s sm st et (x\<lparr>msg_msg := bytes\<rparr>) = Some (Some out)" and "msg_ok out"
    and "delivers s sm st et (wire_image out) H (sent_body et B P)" and "vss_get_xid H = Some xid"
    and "x = \<lparr>msg_length = 48 + length B, msg_msg = take 48 (msg_msg x) @ B @ P\<rparr>"
    and "vss_get_command H = vss_get_command (take 48 (msg_msg x))"
proof -
  obtain h B P where x: "x = \<lparr>msg_length = 48 + length B, msg_msg = h @ B @ P\<rparr>" and h: "length h = 48"
    "rd_bytes h 38 10 = Some (replicate 10 0)" "vss_get_version h = Some 2"
    "vss_get_data_length h = Some (word_of_nat (length B))" and P: "length P = pad_len_of (length B)"
    and len: "length B + 16 < 2 ^ 28"
    using x by (auto simp: msg_prepared_def)
  obtain H where H: "wr_bytes h 4 (be_enc 4 xid) = Some H" "length H = 48"
    using wr_bytes_total [of 4 "be_enc 4 xid" h] h(1) by auto
  have f: "rd_bytes H off k = rd_bytes h off k" if "off + k \<le> 4 \<or> 8 \<le> off" for off k
    using rd_wr_bytes_disjoint [OF H(1)] that by auto
  have "rd_bytes H 4 4 = Some (be_enc 4 xid)" using rd_wr_bytes_same [OF H(1)] by simp
  then have xid: "vss_get_xid H = Some xid" "vss_get_command H = vss_get_command h" using f by (simp_all add: wire)
  have setx: "vss_set_xid (h @ B @ P) xid = Some (H @ B @ P)" using H(1) h(1) by (simp add: wire wr_bytes_append)
  have "rd_bytes H 38 10 = Some (replicate 10 0)" "vss_get_version H = Some 2"
    "vss_get_data_length H = Some (word_of_nat (length B))"
    using f h by (simp_all add: wire)
  moreover have "body_length_ok et (length B)" using len by (simp add: body_length_ok_def)
  ultimately obtain out where out: "VSSI_ComposeMessage True s sm st et \<lparr>msg_length = 48 + length B, msg_msg = H @ B @ P\<rparr> =
      Some (Some out)" "delivers s sm st et (wire_bytes out) H (sent_body et B P)"
    "48 \<le> msg_length out" "msg_length out \<le> length (msg_msg out)"
    using VSSI_ComposeMessage_delivers [OF s H(2), of B P et sm st] P by auto
  show thesis
    by (rule that [of "H @ B @ P" out H B P])
      (use x setx out xid h(1) in \<open>simp_all add: msg_ok_def wire_image_def wire_bytes_def\<close>)
qed

lemma make_message_ok:
  assumes s: "session_ok s" and env: "env_message env" "env_crypt env" and header: "length header = 48"
    "rd_bytes header 38 10 = Some (replicate 10 0)"
    and parts: "part_ok d0 l0" "part_ok d1 l1" and len: "l0 + l1 + 16 < 2 ^ 28"
  shows "\<exists>out r'. make_message env s (sm, st, et) r header d0 l0 d1 l1 = Some (Some out, r') \<and> msg_ok out \<and>
     msg_length out = 48 + (if et = VSS_NEGOTIATE_ENCRYPT_TYPE_AES128 then l0 + l1 + pad_len_of (l0 + l1) else l0 + l1)"
proof -
  have "part_ok None 0" by (simp add: part_ok_def)
  with prepare_prepared [OF header(1) _ parts, of None 0 "env_device_id env" r] header(2) len
  obtain msg r' where m: "VSSI_PrepareMessage True (env_device_id env) r header d0 l0 d1 l1 None 0 = Some (Some msg, r')"
    "msg_prepared msg" by auto
  then obtain h B P where x: "msg = \<lparr>msg_length = 48 + length B, msg_msg = h @ B @ P\<rparr>" and h: "length h = 48"
    "rd_bytes h 38 10 = Some (replicate 10 0)" "vss_get_version h = Some 2"
    "vss_get_data_length h = Some (word_of_nat (length B))" and P: "length P = pad_len_of (length B)"
    and B: "length B + 16 < 2 ^ 28"
    by (auto simp: msg_prepared_def)
  have lB: "length B = l0 + l1"
    using m(1) x by (auto simp: VSSI_PrepareMessage_def Let_def elim!: bind_eq_SomeE split: prod.splits)
  have "body_length_ok et (length B)" using B by (simp add: body_length_ok_def)
  then obtain out where out: "VSSI_ComposeMessage True s sm st et msg = Some (Some out)"
    "delivers s sm st et (wire_bytes out) (h) (sent_body et B P)"
    "48 \<le> msg_length out" "msg_length out \<le> length (msg_msg out)"
    using VSSI_ComposeMessage_delivers [OF s h P, of et sm st] x by auto
  have "length (wire_bytes out) = 48 + length (sent_body et B P)" using out(2) by (auto simp: delivers_def)
  then have "msg_length out = 48 + length (sent_body et B P)" using out(4) by (simp add: wire_bytes_def)
  then show ?thesis using m(1) out env P lB
    by (simp add: make_message_def msg_ok_def length_sent_body)
qed

section \<open>Callbacks\<close>

text \<open>How often the callback \<open>cb\<close> is called with \<open>ctx\<close>.\<close>

definition net_calls :: "nat \<Rightarrow> ptr \<Rightarrow> net_event list \<Rightarrow> nat" where
  "net_calls cb ctx evs = length (filter (\<lambda>e. case e of Command_Event (Callback f x _) \<Rightarrow> f = cb \<and> x = ctx | _ \<Rightarrow> False) evs)"

lemma net_calls_simps [simp]:
  "net_calls cb ctx [] = 0" "net_calls cb ctx (xs @ ys) = net_calls cb ctx xs + net_calls cb ctx ys"
  "net_calls cb ctx (map Command_Event evs) = calls cb ctx evs"
  "net_calls cb ctx (Socket_Bytes i b # xs) = net_calls cb ctx xs"
  "net_calls cb ctx (Socket_Close i # xs) = net_calls cb ctx xs"
  "net_calls cb ctx (Proxy_Connect i # xs) = net_calls cb ctx xs"
  "net_calls cb ctx (Notify_Event f x k d n # xs) = net_calls cb ctx xs"
  by (simp_all add: net_calls_def calls_def filter_map comp_def cong: event.case_cong)

text \<open>Commands are not lost: with what was accepted, what was owed is answered or still owed.\<close>

definition answered ::
  "VSSI_PendInfo multiset \<Rightarrow> VSSI_PendInfo list \<Rightarrow> VSSI_PendInfo list \<Rightarrow> net_event list \<Rightarrow>
     VSSI_PendInfo multiset \<Rightarrow> VSSI_PendInfo list \<Rightarrow> bool" where
  "answered M W accepted evs M' W' \<longleftrightarrow> (\<forall>cb ctx.
     owed cb ctx M W + length (filter (wants cb ctx) accepted) = net_calls cb ctx evs + owed cb ctx M' W')"

lemma owed_core: "image_mset core M' = image_mset core M \<Longrightarrow> owed cb ctx M' W = owed cb ctx M W"
  using core_image(3) [of M' M cb ctx] by (simp only: owed_def)

lemma answered_none [simp]: "answered M W [] [] M W"
  by (simp add: answered_def)

lemma answered_append:
  assumes "answered M W xs evs M1 W1" and "answered M1 W1 ys evs' M' W'"
  shows "answered M W (xs @ ys) (evs @ evs') M' W'"
proof -
  have "owed cb ctx M W + length (filter (wants cb ctx) (xs @ ys)) = net_calls cb ctx (evs @ evs') + owed cb ctx M' W'" for cb ctx
    using assms [unfolded answered_def, rule_format, of cb ctx] by simp
  then show ?thesis by (simp add: answered_def)
qed

lemma reply_all:
  assumes v: "cmd_view st M W" and "\<forall>c\<in>#M. silent_negotiate c" and "\<forall>c\<in>set W. silent_negotiate c"
  obtains st' evs where "VSSI_ReplyPendingCommands st None rc = Some (st', evs)" and "cmd_view st' {#} []"
    and "\<And>cb ctx. calls cb ctx evs = owed cb ctx M W"
proof -
  obtain st' cs where cs: "mset cs = filter_mset (reply_hits None) M"
    "VSSI_ReplyPendingCommands st None rc = Some (st', resolve_all rc cs @ concat (map (\<lambda>c. VSSI_ResolveCommand c rc) W))"
    "cmd_view st' (filter_mset (\<lambda>c. \<not> reply_hits None c) M) []"
    using VSSI_ReplyPendingCommands_view [OF v, of None rc] by auto
  have all: "reply_hits None = (\<lambda>_. True)" by (simp add: reply_hits_def fun_eq_iff)
  then have "mset cs = M" using cs(1) by simp
  then have "set cs = set_mset M" by (metis set_mset_mset)
  then have silent: "\<forall>c\<in>set cs. silent_negotiate c" using assms(2) by simp
  have "calls cb ctx (resolve_all rc cs @ concat (map (\<lambda>c. VSSI_ResolveCommand c rc) W)) = owed cb ctx M W" for cb ctx
    using calls_resolve_all [OF silent] \<open>mset cs = M\<close> by (simp add: calls_concat owed_def)
  moreover have "cmd_view st' {#} []" using cs(3) by (simp add: all)
  ultimately show thesis by (intro that [OF cs(2)])
qed

lemma reply_some:
  assumes v: "cmd_view st M W" and "\<forall>c\<in>#M. silent_negotiate c" and "\<forall>c\<in>set W. silent_negotiate c"
  obtains st' evs M' W' where "VSSI_ReplyPendingCommands st p rc = Some (st', evs)" and "cmd_view st' M' W'"
    and "\<forall>c\<in>#M'. silent_negotiate c" and "\<forall>c\<in>set W'. silent_negotiate c"
    and "\<And>cb ctx. owed cb ctx M W = calls cb ctx evs + owed cb ctx M' W'"
proof -
  obtain st' evs acc M' W' where r: "run_op (Reply_All p rc) st = Some (st', evs, acc)" "cmd_view st' M' W'"
    "(\<forall>c\<in>#M'. silent_negotiate c) \<and> (\<forall>c\<in>set W'. silent_negotiate c) \<and>
       (\<forall>cb ctx. owed cb ctx M W + length (filter (wants cb ctx) acc) = calls cb ctx evs + owed cb ctx M' W')"
    using run_op_view [OF v, of "Reply_All p rc"] assms(2,3) by (metis op_silent.simps(7))
  then have "VSSI_ReplyPendingCommands st p rc = Some (st', evs)" "acc = []"
    by (auto elim!: bind_eq_SomeE)
  then show thesis using that r by simp
qed

section \<open>Freeing and notifications leave the session alone\<close>

definition rest :: "vs_link \<Rightarrow> VSSI_UserSession \<times> u64 \<times> int list" where
  "rest link = (lk_session link, lk_cluster link, lk_routes link)"

lemma rest_simps [simp]:
  "rest (put_state st link) = rest link" "rest (put_node n link) = rest link"
  "rest (link\<lparr>lk_randomness := r\<rparr>) = rest link" "rest (link\<lparr>lk_objects := obs\<rparr>) = rest link"
  "rest (link\<lparr>lk_files := fs\<rparr>) = rest link" "rest (link\<lparr>lk_memory := m\<rparr>) = rest link"
  "rest (link\<lparr>lk_send_state := s\<rparr>) = rest link"
  "rest (VSSI_DestroySendState link) = rest link"
  by (simp_all add: rest_def put_state_def put_node_def VSSI_DestroySendState_def split: option.split)

lemma put_simps [simp]:
  "lk_send_state (put_state st link) = Some st" "lk_node (put_state st link) = lk_node link"
  "lk_send_state (put_node n link) = lk_send_state link" "lk_node (put_node n link) = n"
  "lk_objects (put_state st link) = lk_objects link" "lk_objects (put_node n link) = lk_objects link"
  "lk_randomness (put_state st link) = lk_randomness link" "lk_randomness (put_node n link) = lk_randomness link"
  "lk_session (put_state st link) = lk_session link" "lk_session (put_node n link) = lk_session link"
  "lk_cluster (put_state st link) = lk_cluster link" "lk_cluster (put_node n link) = lk_cluster link"
  "lk_routes (put_state st link) = lk_routes link" "lk_routes (put_node n link) = lk_routes link"
  by (simp_all add: put_state_def put_node_def)

lemma rest_eq:
  assumes "rest link' = rest link"
  shows "lk_session link' = lk_session link" "lk_cluster link' = lk_cluster link" "lk_routes link' = lk_routes link"
  using assms by (simp_all add: rest_def)

lemma settle_rest:
  "rest (settle evs link) = rest link" "lk_send_state (settle evs link) = lk_send_state link"
  "lk_node (settle evs link) = lk_node link" "lk_randomness (settle evs link) = lk_randomness link"
  by (induction evs link rule: settle.induct)
    (simp_all add: VSSI_FreeFileState_def VSSI_FreeObject_def rest_def)

lemma cancel_notify_calls:
  "net_calls cb ctx (concat (map snd (map (cancel_notify connection) obs))) = 0"
  by (induction obs) (auto simp: cancel_notify_def split: option.split)

section \<open>Losing the server\<close>

text \<open>Fields that are not the table's do not matter to what is pending and waiting.\<close>

lemma cmd_view_cong:
  assumes "ss_num_cmd_slots st' = ss_num_cmd_slots st" "ss_num_cmd_slots_active st' = ss_num_cmd_slots_active st"
    "ss_num_chunks st' = ss_num_chunks st" "ss_cmd_chunks st' = ss_cmd_chunks st" "ss_table st' = ss_table st"
    "ss_cmds st' = ss_cmds st" "ss_free_stack st' = ss_free_stack st" "ss_wait_head st' = ss_wait_head st"
    "ss_wait_tail st' = ss_wait_tail st"
  shows "cmd_view st' M W = cmd_view st M W"
  unfolding cmd_view_def slots_view_def slots_with_def table_ok_def lists_ok_def owns_ok_def pend_addrs_def
    pend_cmds_def wait_cmds_def assms ..

text \<open>
  What the invariant says of the session, whatever the node is: \<open>session_facts\<close>; and the part of it
  that lets an operation answer everything, for any pending commands: \<open>answerable\<close>.
\<close>

definition session_facts :: "vs_link \<Rightarrow> VSSI_SendState \<Rightarrow> bool" where
  "session_facts link st \<longleftrightarrow> ss_session st = lk_session link \<and> ss_cluster_id st = lk_cluster link"

definition answerable :: "vs_link \<Rightarrow> VSSI_PendInfo multiset \<Rightarrow> VSSI_PendInfo list \<Rightarrow> bool" where
  "answerable link M W \<longleftrightarrow> session_ok (lk_session link) \<and> (case lk_send_state link of
     None \<Rightarrow> M = {#} \<and> W = []
   | Some st \<Rightarrow> cmd_view st M W \<and> session_facts link st \<and>
       (\<forall>c\<in>#M. silent_negotiate c) \<and> (\<forall>c\<in>set W. silent_negotiate c) \<and>
       (ss_server_connection st = None \<longrightarrow> ss_negotiated st = NEGOTIATE_NEEDED \<and> M = {#} \<and> W = []))"

lemma link_inv_answerable: "link_inv link qs M W \<Longrightarrow> answerable link M W"
  by (auto simp: link_inv_def answerable_def state_inv_def session_facts_def waiting_ok_def phase_ok_def
      split: option.splits negotiated.splits)

lemma node_ok_ref [simp]:
  "node_ok (node\<lparr>cn_refcount := r\<rparr>) m qs = node_ok node m qs"
  "node_inv routes (node\<lparr>cn_refcount := r\<rparr>) = node_inv routes node"
  "quiet (node\<lparr>cn_refcount := r\<rparr>) = quiet node"
  by (simp_all add: node_inv_def quiet_def, simp_all add: node_ok_def queue_of_def)

lemma destroyed_inv:
  assumes "lk_send_state link = Some st" and "session_ok (lk_session link)"
    and "node_inv (lk_routes link) (lk_node link)" and "quiet (lk_node link)"
  shows "link_inv (VSSI_DestroySendState link) [] {#} []"
  using assms by (simp add: link_inv_def VSSI_DestroySendState_def VSSI_ReleaseServerConnection_def)

lemma give_up_ok:
  assumes a: "answerable link M W" and st: "lk_send_state link = Some st"
    and node: "node_inv (lk_routes link) (lk_node link)" "quiet (lk_node link)"
  shows "\<exists>link' evs. give_up rc link = Some (link', evs) \<and> link_inv link' [] {#} [] \<and>
     answered M W [] evs {#} [] \<and> rest link' = rest link"
proof -
  have v: "cmd_view st M W" "\<forall>c\<in>#M. silent_negotiate c" "\<forall>c\<in>set W. silent_negotiate c"
    "session_ok (lk_session link)"
    using a st by (auto simp: answerable_def)
  obtain st' evs where r: "VSSI_ReplyPendingCommands st None rc = Some (st', evs)"
    "\<And>cb ctx. calls cb ctx evs = owed cb ctx M W"
    using reply_all [OF v(1-3)] by metis
  let ?link = "put_state st' (settle evs link)"
  note f = settle_rest [of evs link] and g = rest_eq [OF settle_rest(1) [of evs link]]
  have "link_inv (VSSI_DestroySendState ?link) [] {#} []"
    by (rule destroyed_inv) (use v(4) node f g in simp_all)
  moreover have "answered M W [] (map Command_Event evs) {#} []"
    using r(2) by (simp add: answered_def owed_def)
  ultimately show ?thesis using r(1) st f by (auto simp: give_up_def settled_def)
qed

text \<open>A server that failed: everything is answered and the send state is gone.\<close>

lemma lost_failed:
  assumes a: "answerable link M W" and failed: "cn_connect_state (lk_node link) = CONNECTION_FAILED"
    and closed: "\<forall>c\<in>set (cn_connections (lk_node link)). vc_conn_id c = None"
  shows "\<exists>link' evs. lost_send_states p rc link = Some (link', evs) \<and> link_inv link' [] {#} [] \<and>
     answered M W [] evs {#} [] \<and> rest link' = rest link"
proof -
  let ?objects = "map (cancel_notify p) (lk_objects link)"
  let ?link0 = "link\<lparr>lk_objects := map fst ?objects\<rparr>" and ?evs0 = "concat (map snd ?objects)"
  have node: "node_inv (lk_routes link) (lk_node link)" "quiet (lk_node link)"
    using failed closed by (simp_all add: node_inv_def quiet_def)
  have s: "session_ok (lk_session link)" using a by (simp add: answerable_def)
  have evs0: "net_calls cb ctx ?evs0 = 0" for cb ctx by (rule cancel_notify_calls)
  show ?thesis
  proof (cases "lk_send_state link")
    case None
    then have MW: "M = {#}" "W = []" using a by (simp_all add: answerable_def)
    have "lost_send_states p rc link = Some (?link0, ?evs0)"
      using None by (simp add: lost_send_states_def Let_def comp_def)
    moreover have "link_inv ?link0 [] {#} []" using None node s by (simp add: link_inv_def)
    ultimately show ?thesis using MW evs0 by (simp add: answered_def)
  next
    case (Some st0)
    then have v: "cmd_view st0 M W" "\<forall>c\<in>#M. silent_negotiate c" "\<forall>c\<in>set W. silent_negotiate c"
      and facts: "session_facts link st0"
      and none: "ss_server_connection st0 = None \<Longrightarrow> ss_negotiated st0 = NEGOTIATE_NEEDED \<and> M = {#} \<and> W = []"
      using a by (auto simp: answerable_def)
    show ?thesis
    proof (cases "ss_server_connection st0 = None")
      case True
      then have "lost_send_states p rc link = Some (?link0, ?evs0)"
        using Some by (simp add: lost_send_states_def Let_def comp_def)
      moreover have "link_inv ?link0 [] {#} []"
        using Some True none v facts node s
        by (simp add: link_inv_def state_inv_def session_facts_def phase_ok_def queue_inv_def)
      ultimately show ?thesis using none True evs0 by (simp add: answered_def)
    next
      case False
      let ?st1 = "st0\<lparr>ss_sign_mode := VSS_NEGOTIATE_SIGNING_MODE_FULL, ss_sign_type := VSS_NEGOTIATE_SIGN_TYPE_SHA1,
          ss_enc_type := VSS_NEGOTIATE_ENCRYPT_TYPE_AES128, ss_negotiated := NEGOTIATE_NEEDED\<rparr>"
      have v1: "cmd_view ?st1 M W"
        using v(1) cmd_view_cong [of ?st1 st0 M W] by simp
      obtain st2 evs2 M2 W2 where r2: "VSSI_ReplyPendingCommands ?st1 p rc = Some (st2, evs2)" "cmd_view st2 M2 W2"
        "\<forall>c\<in>#M2. silent_negotiate c" "\<forall>c\<in>set W2. silent_negotiate c"
        "\<And>cb ctx. owed cb ctx M W = calls cb ctx evs2 + owed cb ctx M2 W2"
        using reply_some [OF v1 v(2,3)] by metis
      obtain st3 evs3 where r3: "VSSI_ReplyPendingCommands st2 None rc = Some (st3, evs3)"
        "\<And>cb ctx. calls cb ctx evs3 = owed cb ctx M2 W2"
        using reply_all [OF r2(2-4)] by metis
      let ?link3 = "settle (evs2 @ evs3) ?link0"
      note f = settle_rest [of "evs2 @ evs3" ?link0] and g = rest_eq [OF settle_rest(1) [of "evs2 @ evs3" ?link0]]
      have "lost_send_states p rc link =
          Some (VSSI_DestroySendState (put_state st3 ?link3), ?evs0 @ map Command_Event (evs2 @ evs3))"
        using Some False failed r2(1) r3(1)
        by (simp add: lost_send_states_def Let_def comp_def settled_def del: not_None_eq)
      moreover have "link_inv (VSSI_DestroySendState (put_state st3 ?link3)) [] {#} []"
        by (rule destroyed_inv) (use s node f g in simp_all)
      moreover have "answered M W [] (?evs0 @ map Command_Event (evs2 @ evs3)) {#} []"
        using evs0 r2(5) r3(2) by (simp add: answered_def owed_def)
      ultimately show ?thesis using f by auto
    qed
  qed
qed

section \<open>Connecting\<close>

text \<open>
  The environments in which the invariant is kept: allocations succeed, and the blocking send of an
  authentication, 64 bytes, comes to an end.
\<close>

definition env_good :: "vs_env \<Rightarrow> bool" where
  "env_good env \<longleftrightarrow> env_send_state env \<and> env_realloc env \<and> env_calloc env \<and> env_message env \<and> env_crypt env \<and>
     env_node env \<and> env_connection env \<and> VSSI_Sendall (env_turns env) [] 64 0 \<noteq> None"

lemma Sendall_ends: "VSSI_Sendall ts b n rv = None \<longleftrightarrow> VSSI_Sendall ts b' n rv = None"
  by (induction ts arbitrary: rv) (auto simp: Let_def)

lemma request_header:
  "\<exists>h. (vss_set_command (replicate 48 0) k \<bind> (\<lambda>h1. vss_set_xid h1 x)) = Some h \<and> length h = 48 \<and>
     rd_bytes h 38 10 = Some (replicate 10 0) \<and> vss_get_command h = Some k \<and> vss_get_xid h = Some x"
proof -
  obtain h1 where h1: "wr_bytes (replicate 48 0) 1 [k] = Some h1" "length h1 = 48"
    using wr_bytes_total [of 1 "[k]" "replicate 48 0"] by auto
  obtain h where h: "wr_bytes h1 4 (be_enc 4 x) = Some h" "length h = 48"
    using wr_bytes_total [of 4 "be_enc 4 x" h1] h1(2) by auto
  have f: "rd_bytes h off n = rd_bytes h1 off n" if "off + n \<le> 4 \<or> 8 \<le> off" for off n
    using rd_wr_bytes_disjoint [OF h(1)] that by auto
  have g: "rd_bytes h1 off n = rd_bytes (replicate 48 0) off n" if "off + n \<le> 1 \<or> 2 \<le> off" for off n
    using rd_wr_bytes_disjoint [OF h1(1)] that by auto
  have "rd_bytes h 4 4 = Some (be_enc 4 x)" "rd_bytes h1 1 1 = Some [k]"
    using rd_wr_bytes_same [OF h(1)] rd_wr_bytes_same [OF h1(1)] by simp_all
  moreover have "rd_bytes h 38 10 = Some (replicate 10 0)" using f [of 38 10] g [of 38 10] by (simp add: rd_bytes_def)
  ultimately show ?thesis using h1 h f [of 1 1]
    by (simp add: wire put_u8_eq_wr get_u8_eq_rd)
qed

lemma authenticate_ok:
  assumes "session_ok s" and "env_message env" and "env_crypt env"
  shows "\<exists>m r'. authenticate_message env s cluster r = Some (Some m, r') \<and> msg_length m = 64"
proof -
  obtain h where h: "(vss_set_command (replicate 48 0) VSS_AUTHENTICATE \<bind> (\<lambda>h1. vss_set_xid h1 0)) = Some h" "length h = 48"
    "rd_bytes h 38 10 = Some (replicate 10 0)"
    using request_header by blast
  obtain b where b: "vss_authenticate_set_cluster_id (replicate 8 0) cluster = Some b" "length b = 8"
    using wr_bytes_total [of 0 "be_enc 8 cluster" "replicate 8 0"] by (auto simp: wire)
  have "part_ok (Some b) 8" "part_ok None 0" using b(2) by (simp_all add: part_ok_def)
  from make_message_ok [OF assms h(2,3) this, of VSS_NEGOTIATE_SIGNING_MODE_FULL VSS_NEGOTIATE_SIGN_TYPE_SHA1
      VSS_NEGOTIATE_ENCRYPT_TYPE_AES128 r]
  show ?thesis using h(1) b(1)
    by (auto simp: authenticate_message_def full_crypto_def pad_len_of_def elim!: bind_eq_SomeE)
qed

text \<open>A node nothing was given to yet.\<close>

definition fresh_node :: "VSSI_VSConnectionNode \<Rightarrow> bool" where
  "fresh_node node \<longleftrightarrow> node_ok node [] [] \<and> length (cn_connections node) = 1 \<and>
     (\<forall>c\<in>set (cn_connections node). vc_send_msg c = None)"

lemma fresh_node_simps [simp]:
  "fresh_node (node\<lparr>cn_route_id := r\<rparr>) = fresh_node node" "fresh_node (node\<lparr>cn_connect_state := s\<rparr>) = fresh_node node"
  "fresh_node (node\<lparr>cn_type := t\<rparr>) = fresh_node node"
  by (simp_all add: fresh_node_def node_ok_def queue_of_def)

lemma fresh_node_upd_first:
  assumes "fresh_node node" and "\<And>c. vc_send_msg (f c) = vc_send_msg c \<and> vc_sent_so_far (f c) = vc_sent_so_far c"
  shows "fresh_node (upd_first f node)"
  using assms by (cases "cn_connections node") (auto simp: fresh_node_def upd_first_def node_ok_def queue_of_def conn_ok_def)

lemma upd_first_simps [simp]:
  "cn_connect_state (upd_first f node) = cn_connect_state node" "cn_route_id (upd_first f node) = cn_route_id node"
  "cn_cluster_id (upd_first f node) = cn_cluster_id node"
  by (simp_all add: upd_first_def)

lemma fresh_node_inv:
  assumes "fresh_node node" and "cn_connect_state node \<in> {CONNECTION_CONNECTING, CONNECTION_CONNECTED}"
    and "0 < cn_route_id node" and "cn_route_id node \<le> int (length routes)"
  shows "node_inv routes node"
  using assms by (auto simp: node_inv_def fresh_node_def)

text \<open>What trying the routes comes to.\<close>

definition tried :: "vs_link \<Rightarrow> (vs_link \<times> net_event list \<times> bool) option \<Rightarrow> bool" where
  "tried link r \<longleftrightarrow> (\<exists>link' evs taken. r = Some (link', evs, taken) \<and> rest link' = rest link \<and>
      lk_send_state link' = lk_send_state link \<and> fresh_node (lk_node link') \<and>
      cn_connect_state (lk_node link') \<in> {CONNECTION_CONNECTING, CONNECTION_CONNECTED} \<and>
      (taken \<longrightarrow> 0 < cn_route_id (lk_node link') \<and> cn_route_id (lk_node link') \<le> int (length (lk_routes link))) \<and>
      (\<not> taken \<longrightarrow> (\<forall>c\<in>set (cn_connections (lk_node link')). vc_conn_id c = None)) \<and>
      (\<forall>cb ctx. net_calls cb ctx evs = 0))"

lemma tried_Some:
  "tried link (Some (link', evs, taken)) \<longleftrightarrow> rest link' = rest link \<and>
      lk_send_state link' = lk_send_state link \<and> fresh_node (lk_node link') \<and>
      cn_connect_state (lk_node link') \<in> {CONNECTION_CONNECTING, CONNECTION_CONNECTED} \<and>
      (taken \<longrightarrow> 0 < cn_route_id (lk_node link') \<and> cn_route_id (lk_node link') \<le> int (length (lk_routes link))) \<and>
      (\<not> taken \<longrightarrow> (\<forall>c\<in>set (cn_connections (lk_node link')). vc_conn_id c = None)) \<and>
      (\<forall>cb ctx. net_calls cb ctx evs = 0)"
  by (simp add: tried_def)

lemma try_routes_ok:
  assumes env: "env_good env"
  shows "rs = drop i (lk_routes link) \<Longrightarrow> session_ok (lk_session link) \<Longrightarrow> fresh_node (lk_node link) \<Longrightarrow>
    \<forall>c\<in>set (cn_connections (lk_node link)). vc_conn_id c = None \<Longrightarrow>
    cn_connect_state (lk_node link) \<in> {CONNECTION_CONNECTING, CONNECTION_CONNECTED} \<Longrightarrow>
    tried link (try_routes env i rs link)"
proof (induction rs arbitrary: i link)
  case (Cons route rs)
  have i: "i < length (lk_routes link)" "rs = drop (Suc i) (lk_routes link)"
    using Cons.prems(1) by (metis drop_all list.distinct(1) not_le, metis drop_Suc tl_drop list.sel(3))
  let ?link = "put_node ((lk_node link)\<lparr>cn_route_id := int i + 1\<rparr>) link"
  have "tried ?link (try_routes env (Suc i) rs ?link)"
    by (rule Cons.IH) (use Cons.prems(2-5) i in simp_all)
  then have next_ok: "tried link (try_routes env (Suc i) rs ?link)" by (simp add: tried_def)
  show ?case
  proof (cases "route = VSSI_ROUTE_PROXY")
    case True
    have "tried link (Some (?link, [Proxy_Connect i], True))"
      using Cons.prems(2-5) i(1) by (simp add: tried_Some)
    then show ?thesis using True next_ok by (simp add: Let_def)
  next
    case direct: False
    show ?thesis
    proof (cases "env_sockets env i")
      case None
      then show ?thesis using direct next_ok by (simp add: Let_def)
    next
      case (Some socket)
      obtain m r where m: "authenticate_message env (lk_session link) (cn_cluster_id (lk_node link)) (lk_randomness link) =
          Some (Some m, r)" "msg_length m = 64"
        using authenticate_ok Cons.prems(2) env by (metis env_good_def)
      have "VSSI_Sendall (env_turns env) (msg_msg m) 64 0 \<noteq> None"
        using env Sendall_ends [of "env_turns env" "[]" 64 0 "msg_msg m"] by (simp add: env_good_def)
      then obtain sent rc turns where sent: "VSSI_Sendall (env_turns env) (msg_msg m) 64 0 = Some (sent, rc, turns)"
        by (metis not_None_eq prod_cases3)
      let ?node = "upd_first (\<lambda>c. c\<lparr>vc_connected := True, vc_cmds_outstanding := vc_cmds_outstanding c + 1\<rparr>)
          ((upd_first (\<lambda>c. c\<lparr>vc_conn_id := Some socket\<rparr>) ((lk_node link)\<lparr>cn_route_id := int i + 1\<rparr>))
            \<lparr>cn_type := route, cn_connect_state := CONNECTION_CONNECTED\<rparr>)"
      have "fresh_node ?node"
        using Cons.prems(3) by (intro fresh_node_upd_first) (simp_all add: fresh_node_upd_first)
      moreover have "try_routes env i (route # rs) link =
          Some (put_node ?node (?link\<lparr>lk_randomness := r\<rparr>), [Socket_Bytes socket sent], True)"
        using direct Some m sent by (simp add: Let_def)
      ultimately show ?thesis using i(1) by (simp add: tried_Some)
    qed
  qed
qed (simp add: tried_Some)

text \<open>A session with nothing pending, that may be connecting.\<close>

definition resting :: "vs_link \<Rightarrow> VSSI_PendInfo list \<Rightarrow> bool" where
  "resting link W \<longleftrightarrow> session_ok (lk_session link) \<and> (case lk_send_state link of
     None \<Rightarrow> W = []
   | Some st \<Rightarrow> cmd_view st {#} W \<and> session_facts link st \<and> (\<forall>c\<in>set W. waiting_ok c) \<and>
       phase_ok CONNECTION_CONNECTING st {#} W)"

lemma resting_answerable: "resting link W \<Longrightarrow> answerable link {#} W"
  by (auto simp: resting_def answerable_def waiting_ok_def phase_ok_def split: option.splits negotiated.splits)

lemma resting_cong:
  "rest link' = rest link \<Longrightarrow> lk_send_state link' = lk_send_state link \<Longrightarrow> resting link' W = resting link W"
  by (cases "lk_send_state link") (auto simp: resting_def session_facts_def rest_def)

lemma phase_ok_connected: "phase_ok CONNECTION_CONNECTED st M W = phase_ok CONNECTION_CONNECTING st M W"
  by (simp add: phase_ok_def split: negotiated.split)

lemma resting_inv:
  assumes r: "resting link W" and node: "fresh_node (lk_node link)" "node_inv (lk_routes link) (lk_node link)"
    and state: "cn_connect_state (lk_node link) \<in> {CONNECTION_CONNECTING, CONNECTION_CONNECTED}"
  shows "link_inv link [] {#} W"
proof -
  have q: "node_ok (lk_node link) [] []" using node(1) by (simp add: fresh_node_def)
  have "phase_ok (cn_connect_state (lk_node link)) st {#} W" if "phase_ok CONNECTION_CONNECTING st {#} W" for st
    using that state phase_ok_connected [of st "{#}" W] by auto
  then show ?thesis
    using r node(2) q node_ok_empty [of "lk_node link"]
    by (auto simp: resting_def link_inv_def state_inv_def session_facts_def queue_inv_def quiet_def split: option.splits)
qed

lemma fresh_node_new: "node_ok node [] [] \<Longrightarrow> fresh_node (node\<lparr>cn_connections := [new_connection a]\<rparr>)"
  by (simp add: fresh_node_def node_ok_def queue_of_def new_connection_def conn_ok_def)

text \<open>A node to connect, with the connection of the last attempt or none.\<close>

definition connectable :: "VSSI_VSConnectionNode \<Rightarrow> bool" where
  "connectable node \<longleftrightarrow> node_ok node [] [] \<and> length (cn_connections node) \<le> 1 \<and>
     (\<forall>c\<in>set (cn_connections node). vc_send_msg c = None) \<and>
     cn_connect_state node \<in> {CONNECTION_CONNECTING, CONNECTION_CONNECTED}"

text \<open>
  What an operation on a session with nothing pending comes to: it goes on connecting with the
  commands still waiting, or all are answered and the send state is gone.
\<close>

definition connected_or_failed ::
  "vs_link \<Rightarrow> VSSI_PendInfo list \<Rightarrow> vs_link \<Rightarrow> net_event list \<Rightarrow> bool" where
  "connected_or_failed link W link' evs \<longleftrightarrow> rest link' = rest link \<and>
     ((cn_connect_state (lk_node link') \<in> {CONNECTION_CONNECTING, CONNECTION_CONNECTED} \<and>
        lk_send_state link' = lk_send_state link \<and> link_inv link' [] {#} W \<and> answered {#} W [] evs {#} W) \<or>
      (link_inv link' [] {#} [] \<and> answered {#} W [] evs {#} []))"

lemma VSSI_ConnectVSServer_ok:
  assumes env: "env_good env" and r: "resting link W" and node: "connectable (lk_node link)"
  shows "\<exists>link' evs. VSSI_ConnectVSServer env rc link = Some (link', evs) \<and> connected_or_failed link W link' evs"
proof -
  let ?prep = "case cn_connections (lk_node link) of
      c # cs \<Rightarrow> (case vc_conn_id c of
          None \<Rightarrow> Some (lk_node link, [])
        | Some socket \<Rightarrow> Some (upd_first (\<lambda>c. c\<lparr>vc_conn_id := None, vc_connected := False\<rparr>) (lk_node link),
                             [Socket_Close socket]))
    | [] \<Rightarrow> if env_connection env
            then Some ((lk_node link)\<lparr>cn_connections := [new_connection (env_fresh env)]\<rparr>, []) else None"
  obtain node1 evs1 where prep: "?prep = Some (node1, evs1)" and node1: "fresh_node node1"
    "\<forall>c\<in>set (cn_connections node1). vc_conn_id c = None"
    "cn_connect_state node1 \<in> {CONNECTION_CONNECTING, CONNECTION_CONNECTED}"
    and evs1: "\<And>cb ctx. net_calls cb ctx evs1 = 0"
  proof (cases "cn_connections (lk_node link)")
    case Nil
    have "fresh_node ((lk_node link)\<lparr>cn_connections := [new_connection (env_fresh env)]\<rparr>)"
      using node by (intro fresh_node_new) (simp add: connectable_def)
    with Nil env node show ?thesis
      by (intro that) (auto simp: env_good_def connectable_def new_connection_def)
  next
    case (Cons c cs)
    then have f: "fresh_node (lk_node link)" "cs = []" using node by (simp_all add: connectable_def fresh_node_def)
    show ?thesis
    proof (cases "vc_conn_id c")
      case None
      with Cons f node show ?thesis by (intro that) (auto simp: connectable_def)
    next
      case (Some socket)
      have "fresh_node (upd_first (\<lambda>c. c\<lparr>vc_conn_id := None, vc_connected := False\<rparr>) (lk_node link))"
        using f(1) by (intro fresh_node_upd_first) simp_all
      with Some Cons f node show ?thesis
        by (intro that [of "upd_first (\<lambda>c. c\<lparr>vc_conn_id := None, vc_connected := False\<rparr>) (lk_node link)"
              "[Socket_Close socket]"])
          (auto simp: connectable_def upd_first_def)
    qed
  qed
  let ?i = "nat (cn_route_id node1)" and ?link1 = "put_node node1 link"
  have "tried ?link1 (try_routes env ?i (drop ?i (lk_routes link)) ?link1)"
    using r node1 by (intro try_routes_ok [OF env]) (simp_all add: resting_def)
  then obtain link2 evs2 taken where t: "try_routes env ?i (drop ?i (lk_routes link)) ?link1 = Some (link2, evs2, taken)"
    and t2: "tried ?link1 (Some (link2, evs2, taken))"
    by (metis tried_def)
  have r2: "resting link2 W" using resting_cong [of link2 link W] r t2 by (simp add: tried_Some)
  have evs: "net_calls cb ctx (evs1 @ evs2) = 0" for cb ctx using evs1 t2 by (simp add: tried_Some)
  show ?thesis
  proof (cases taken)
    case True
    have "lk_routes link2 = lk_routes link" using t2 by (simp add: tried_Some rest_def)
    then have "link_inv link2 [] {#} W"
      using t2 True by (intro resting_inv [OF r2] fresh_node_inv) (auto simp: tried_Some)
    then show ?thesis using prep t True t2 evs
      by (auto simp: VSSI_ConnectVSServer_def Let_def connected_or_failed_def answered_def tried_Some)
  next
    case False
    let ?link3 = "put_node (upd_first (\<lambda>c. c\<lparr>vc_connected := True\<rparr>)
        ((lk_node link2)\<lparr>cn_connect_state := CONNECTION_FAILED\<rparr>)) link2"
    have "resting ?link3 W" using resting_cong [of ?link3 link2 W] r2 by simp
    moreover have "\<forall>c\<in>set (cn_connections (lk_node ?link3)). vc_conn_id c = None"
      using t2 False by (cases "cn_connections (lk_node link2)") (auto simp: tried_Some upd_first_def)
    ultimately obtain link' evs' where l: "lost_send_states None VSSI_COMM ?link3 = Some (link', evs')"
      "link_inv link' [] {#} []" "answered {#} W [] evs' {#} []" "rest link' = rest ?link3"
      using lost_failed [OF resting_answerable, of ?link3 W None VSSI_COMM] by auto
    have "answered {#} W [] ((evs1 @ evs2) @ evs') {#} []"
      using evs l(3) by (simp add: answered_def)
    then show ?thesis using prep t False l t2
      by (simp add: VSSI_ConnectVSServer_def Let_def connected_or_failed_def tried_Some)
  qed
qed

section \<open>Giving a command to the server\<close>

definition node_kept :: "VSSI_VSConnectionNode \<Rightarrow> VSSI_VSConnectionNode \<Rightarrow> bool" where
  "node_kept node node' \<longleftrightarrow> map vc_conn_id (cn_connections node') = map vc_conn_id (cn_connections node) \<and>
     cn_connect_state node' = cn_connect_state node \<and> cn_route_id node' = cn_route_id node \<and>
     cn_cluster_id node' = cn_cluster_id node"

lemma node_kept_active:
  "node_kept node node' \<Longrightarrow> cn_connect_state node = CONNECTION_ACTIVE \<Longrightarrow> node_inv routes node \<Longrightarrow>
     node_inv routes node'"
  by (auto simp: node_kept_def node_inv_def dest: map_eq_imp_length_eq)

text \<open>A command just made pending is found under its id and its message goes to the server.\<close>

lemma place_and_send:
  assumes v: "cmd_view st M W0" and one: "\<forall>x. count (image_mset pi_xid M) x \<le> 1"
    and v1: "cmd_view st1 (add_mset c M) W" and fresh: "pi_xid c \<notin># image_mset pi_xid M"
    and k: "kept (set qs) st st1"
    and q: "node_ok (lk_node link) (ss_cmds st) qs" "set qs \<subseteq> set (pend_addrs st)" and x: "msg_ok x"
  obtains a node' st' M' qs' where "VSSI_GetVSCommandSlot st1 (pi_xid c) = Some (Some a)"
    and "link_send_cmd a (upd_cmd a (\<lambda>c. c\<lparr>pi_msg := Some x\<rparr>) st1) link = put_node node' (put_state st' link)"
    and "cmd_view st' M' W" and "image_mset core M' = image_mset core (add_mset c M)" and "frame st' = frame st1"
    and "ss_seq_id st' = ss_seq_id st1" and "ss_wait_head st' = ss_wait_head st1"
    and "node_ok node' (ss_cmds st') qs'" and "set qs' \<subseteq> set (pend_addrs st')"
    and "posted (wire_image x) (lk_node link) (ss_cmds st) qs node' (ss_cmds st') qs'" and "node_kept (lk_node link) node'"
proof -
  obtain a where a: "VSSI_GetVSCommandSlot st1 (pi_xid c) = Some (Some a)" "a \<in> set (pend_addrs st1)" "a \<notin> set qs"
    using found_new [OF v one v1 fresh k q(2)] by metis
  have q1: "node_ok (lk_node link) (ss_cmds st1) qs" "set qs \<subseteq> set (pend_addrs st1)"
    using queue_kept [OF q(1) k v1] by simp_all
  have img: "posted b n (ss_cmds st1) qs n' m' qs' = posted b n (ss_cmds st) qs n' m' qs'" for b n n' m' qs'
    using k by (simp add: posted_def cmd_image_def kept_def)
  obtain node' st' M' qs' where r:
    "link_send_cmd a (upd_cmd a (\<lambda>c. c\<lparr>pi_msg := Some x\<rparr>) st1) link = put_node node' (put_state st' link)"
    "cmd_view st' M' W" "image_mset core M' = image_mset core (add_mset c M)" "frame st' = frame st1"
    "ss_seq_id st' = ss_seq_id st1" "ss_wait_head st' = ss_wait_head st1"
    "node_ok node' (ss_cmds st') qs'" "set qs' \<subseteq> set (pend_addrs st')"
    "posted (wire_image x) (lk_node link) (ss_cmds st) qs node' (ss_cmds st') qs'" "node_kept (lk_node link) node'"
    by (rule link_send_cmd_view [OF v1 q1 a(2,3) x]) (simp add: node_kept_def img)
  then show thesis by (rule that [OF a(1)])
qed

lemma owed_add: "owed cb ctx (add_mset (c\<lparr>pi_xid := x\<rparr>) M) W = owed cb ctx M W + length (filter (wants cb ctx) [c])"
  by (simp add: owed_def)

lemma sent_inv:
  assumes link: "session_ok (lk_session link)" "node_inv (lk_routes link) (lk_node link)"
      "cn_connect_state (lk_node link) = CONNECTION_ACTIVE"
    and st: "frame st' = frame st" "ss_server_connection st \<noteq> None" "session_facts link st"
    and v: "cmd_view st' M' W" "image_mset core M' = image_mset core (add_mset c M)"
    and M: "\<forall>x. count (image_mset pi_xid M) x \<le> 1" "pi_xid c \<notin># image_mset pi_xid M"
      "\<forall>c\<in>#M. silent_negotiate c" "silent_negotiate c" and W: "\<forall>c\<in>set W. waiting_ok c"
    and node: "node_kept (lk_node link) node'" "node_ok node' (ss_cmds st') qs'" "set qs' \<subseteq> set (pend_addrs st')"
    and phase: "ss_negotiated st = NEGOTIATE_DONE \<and> W = [] \<or>
      ss_negotiated st = NEGOTIATE_PENDING \<and> M = {#} \<and> pi_command c = VSS_NEGOTIATE \<and> pi_callback c = None"
  shows "link_inv (put_node node' (put_state st' link)) qs' M' W"
proof -
  have cs: "cn_connect_state node' = CONNECTION_ACTIVE" using node(1) link(3) by (simp add: node_kept_def)
  have f: "ss_session st' = lk_session link" "ss_cluster_id st' = lk_cluster link" "ss_server_connection st' \<noteq> None"
    "ss_negotiated st' = ss_negotiated st"
    using frame_eq [OF st(1)] st(2,3) by (simp_all add: session_facts_def)
  have ids: "\<forall>x. count (image_mset pi_xid M') x \<le> 1"
    using core_image(1) [OF v(2)] count_add_fresh [OF M(1,2)] by (simp only:) simp
  have silent: "\<forall>c\<in>#M'. silent_negotiate c" using core_image(4) [OF v(2)] M(3,4) by simp
  have one: "size M' = 1 \<and> (\<forall>c\<in>#M'. pi_command c = VSS_NEGOTIATE \<and> pi_callback c = None)"
    if "M = {#}" "pi_command c = VSS_NEGOTIATE" "pi_callback c = None"
    using core_image(2) [OF v(2)] core_image(5) [OF v(2), of VSS_NEGOTIATE None] that by simp
  have "phase_ok CONNECTION_ACTIVE st' M' W" using phase f one by (auto simp: phase_ok_def)
  then have "state_inv (put_node node' (put_state st' link)) st' qs' M' W"
    using v(1) ids silent W node(2,3) f cs by (simp add: state_inv_def queue_inv_def del: not_None_eq)
  then show ?thesis using link(1) node_kept_active [OF node(1) link(3,2)] by (simp add: link_inv_def)
qed

text \<open>What the server makes of a message sent under an id: the prepared message, with that id.\<close>

definition sent_as :: "VSSI_SendState \<Rightarrow> u32 \<Rightarrow> VSSI_MsgBuffer \<Rightarrow> buffer \<Rightarrow> bool" where
  "sent_as st xid x bytes \<longleftrightarrow> (\<exists>H B P. delivers (ss_session st) (ss_sign_mode st) (ss_sign_type st) (ss_enc_type st)
       bytes H (sent_body (ss_enc_type st) B P) \<and> vss_get_xid H = Some xid \<and>
     vss_get_command H = vss_get_command (take 48 (msg_msg x)) \<and>
     x = \<lparr>msg_length = 48 + length B, msg_msg = take 48 (msg_msg x) @ B @ P\<rparr>)"

lemma send_now_ok:
  assumes env: "env_good env" and inv: "link_inv link qs M W" and st: "lk_send_state link = Some st"
    and negotiated: "ss_negotiated st = NEGOTIATE_DONE" and cmd: "silent_negotiate cmd" and x: "msg_prepared x"
    and fresh: "ss_seq_id st \<notin># image_mset pi_xid M"
  shows "\<exists>link' qs' M' st' bytes. send_now env cmd x st link = Some (link', []) \<and> link_inv link' qs' M' W \<and>
     answered M W [cmd] [] M' W \<and> rest link' = rest link \<and> lk_send_state link' = Some st' \<and>
     ss_seq_id st' = seq_after (ss_seq_id st) \<and> frame st' = frame st \<and>
     sent_as st (ss_seq_id st) x bytes \<and>
     outgoing (lk_node link') (ss_cmds st') qs' = outgoing (lk_node link) (ss_cmds st) qs @ bytes \<and>
     image_mset core M' = image_mset core (add_mset (cmd\<lparr>pi_xid := ss_seq_id st\<rparr>) M)"
proof -
  have i: "session_ok (lk_session link)" "node_inv (lk_routes link) (lk_node link)" "state_inv link st qs M W"
    using inv st by (simp_all add: link_inv_def)
  then have v: "cmd_view st M W" and facts: "session_facts link st" and one: "\<forall>x. count (image_mset pi_xid M) x \<le> 1"
    and silent: "\<forall>c\<in>#M. silent_negotiate c" and W: "W = []"
    and active: "cn_connect_state (lk_node link) = CONNECTION_ACTIVE" "ss_server_connection st \<noteq> None"
    and q: "node_ok (lk_node link) (ss_cmds st) qs" "set qs \<subseteq> set (pend_addrs st)"
    using negotiated by (auto simp: state_inv_def session_facts_def phase_ok_def queue_inv_def)
  let ?c = "cmd\<lparr>pi_xid := ss_seq_id st\<rparr>"
  obtain st1 where add: "VSSI_AddPendingCommand True True (env_junk env) cmd st = Some (st1, VSSI_SUCCESS, ss_seq_id st)"
    and v1: "cmd_view st1 (add_mset ?c M) W" and seq: "ss_seq_id st1 = seq_after (ss_seq_id st)"
    using VSSI_AddPendingCommand_view [OF v, of True True "env_junk env" cmd] by (auto simp: seq_after_def)
  have f1: "frame st1 = frame st" using frame_add_pending [OF add] .
  have s: "session_ok (ss_session st1)" using i(1) facts frame_eq [OF f1] by (simp add: session_facts_def)
  obtain bytes out H B P where out: "vss_set_xid (msg_msg x) (ss_seq_id st) = Some bytes"
    "VSSI_ComposeMessage True (ss_session st1) (ss_sign_mode st1) (ss_sign_type st1) (ss_enc_type st1)
       (x\<lparr>msg_msg := bytes\<rparr>) = Some (Some out)" "msg_ok out"
    "delivers (ss_session st1) (ss_sign_mode st1) (ss_sign_type st1) (ss_enc_type st1) (wire_image out) H
       (sent_body (ss_enc_type st1) B P)" "vss_get_xid H = Some (ss_seq_id st)"
    "x = \<lparr>msg_length = 48 + length B, msg_msg = take 48 (msg_msg x) @ B @ P\<rparr>"
    "vss_get_command H = vss_get_command (take 48 (msg_msg x))"
    using compose_prepared [OF s x] by metis
  have xid: "pi_xid ?c = ss_seq_id st" by simp
  have k: "kept (set qs) st st1" using VSSI_AddPendingCommand_kept [OF v q(2) add] .
  obtain a node' st' M' qs' where p: "VSSI_GetVSCommandSlot st1 (ss_seq_id st) = Some (Some a)"
    "link_send_cmd a (upd_cmd a (\<lambda>c. c\<lparr>pi_msg := Some out\<rparr>) st1) link = put_node node' (put_state st' link)"
    "cmd_view st' M' W" "image_mset core M' = image_mset core (add_mset ?c M)" "frame st' = frame st1"
    "ss_seq_id st' = ss_seq_id st1" "node_ok node' (ss_cmds st') qs'" "set qs' \<subseteq> set (pend_addrs st')"
    "posted (wire_image out) (lk_node link) (ss_cmds st) qs node' (ss_cmds st') qs'" "node_kept (lk_node link) node'"
    using place_and_send [OF v one v1 _ k q out(3)] fresh unfolding xid by metis
  let ?link' = "put_node node' (put_state st' link)"
  have "length (cn_connections (lk_node link)) = 1" using i(2) active(1) by (simp add: node_inv_def)
  note wire_out = posted_outgoing [OF p(9) this]
  have "send_now env cmd x st link = Some (?link', [])"
    using env add out(1,2) p(1,2) by (simp add: send_now_def env_good_def)
  moreover have "link_inv ?link' qs' M' W"
    by (rule sent_inv [of link st' st M' W ?c M node' qs'])
      (use i(1,2) active f1 p(3-5,7,8,10) facts one fresh silent cmd W negotiated in simp_all)
  moreover have "answered M W [cmd] [] M' W"
    using owed_core [OF p(4)] owed_add by (simp add: answered_def)
  moreover have "sent_as st (ss_seq_id st) x (wire_image out)"
    unfolding sent_as_def using out(4-7) frame_eq [OF f1] by metis
  ultimately show ?thesis using p(4-6) wire_out f1 seq by auto
qed

section \<open>Negotiating\<close>

lemma negotiate_request_ok:
  "\<exists>b. negotiate_request env route len = Some b \<and> length b = VSS_NEGOTIATE_BASE_SIZE"
  by (simp add: negotiate_request_def wire wr_bytes_def)

lemma negotiate_message_ok:
  assumes s: "session_ok s" and env: "env_message env" "env_crypt env" and challenge: "part_ok challenge (unat len)"
  shows "\<exists>m r'. negotiate_message env s route xid challenge len r = Some (Some m, r') \<and> msg_ok m"
proof -
  obtain h where h: "(vss_set_command (replicate 48 0) VSS_NEGOTIATE \<bind> (\<lambda>h1. vss_set_xid h1 xid)) = Some h" "length h = 48"
    "rd_bytes h 38 10 = Some (replicate 10 0)"
    using request_header by blast
  obtain b where b: "negotiate_request env route len = Some b" "length b = VSS_NEGOTIATE_BASE_SIZE"
    using negotiate_request_ok by blast
  have "part_ok (Some b) VSS_NEGOTIATE_BASE_SIZE" using b(2) by (simp add: part_ok_def)
  moreover have "unat len < 256" using unsigned_less [where 'b = 8 and 'a = nat, of len] by simp
  then have "4 + unat len + 16 < 276" by linarith
  then have "VSS_NEGOTIATE_BASE_SIZE + unat len + 16 < 2 ^ 28"
    unfolding VSS_NEGOTIATE_BASE_SIZE_def by (rule order.strict_trans) simp
  ultimately obtain m r' where "make_message env s full_crypto r h (Some b) VSS_NEGOTIATE_BASE_SIZE challenge (unat len) =
      Some (Some m, r')" "msg_ok m"
    using make_message_ok [OF s env h(2,3) _ challenge] unfolding full_crypto_def by metis
  then show ?thesis using h(1) b(1)
    by (auto simp: negotiate_message_def elim!: bind_eq_SomeE)
qed

text \<open>A session about to negotiate.\<close>

definition negotiable :: "vs_link \<Rightarrow> VSSI_PendInfo list \<Rightarrow> bool" where
  "negotiable link W \<longleftrightarrow> session_ok (lk_session link) \<and> node_inv (lk_routes link) (lk_node link) \<and> quiet (lk_node link) \<and>
     (\<exists>st. lk_send_state link = Some st \<and> cmd_view st {#} W \<and> session_facts link st \<and> (\<forall>c\<in>set W. waiting_ok c) \<and>
        ss_negotiated st = NEGOTIATE_PENDING \<and>
        (ss_server_connection st \<noteq> None \<longrightarrow> cn_connect_state (lk_node link) \<noteq> CONNECTION_FAILED))"

lemma attach_server_ok:
  assumes env: "env_good env" and n: "negotiable link W" and st: "lk_send_state link = Some st0"
  obtains st link' where "attach_server env st0 link = Some (st, link')" and "lk_send_state link' = Some st"
    and "ss_server_connection st \<noteq> None" and "negotiable link' W" and "rest link' = rest link"
    and "node_ok (lk_node link') [] []"
proof (cases "ss_server_connection st0 = None")
  case False
  then have "node_ok (lk_node link) [] []" using n st by (auto simp: negotiable_def quiet_def)
  with False show thesis by (intro that [of st0 link]) (use n st in \<open>auto simp: attach_server_def\<close>)
next
  case True
  let ?st = "st0\<lparr>ss_server_connection := Some 0\<rparr>"
  obtain node where node: "VSSI_GetServerConnection (env_node env) (env_fresh env) (lk_cluster link) (lk_node link) = Some node"
    and ok: "node_inv (lk_routes link) node" "node_ok node [] []" "cn_connect_state node \<noteq> CONNECTION_FAILED"
  proof (cases "cn_cluster_id (lk_node link) = lk_cluster link \<and> cn_connect_state (lk_node link) \<noteq> CONNECTION_FAILED")
    case True
    then show thesis using n
      by (intro that [of "(lk_node link)\<lparr>cn_refcount := cn_refcount (lk_node link) + 1\<rparr>"])
        (auto simp: VSSI_GetServerConnection_def negotiable_def quiet_def)
  next
    case False
    then show thesis using env
      by (intro that, unfold VSSI_GetServerConnection_def env_good_def)
        (auto simp: node_inv_def new_connection_def node_ok_def queue_of_def conn_ok_def)
  qed
  have "cmd_view ?st {#} W" if "cmd_view st0 {#} W" using that cmd_view_cong [of ?st st0 "{#}" W] by simp
  then have "negotiable (put_state ?st (put_node node link)) W"
    using n st ok by (auto simp: negotiable_def session_facts_def quiet_def)
  then show thesis using True node ok(2)
    by (intro that [of ?st "put_state ?st (put_node node link)"]) (simp_all add: attach_server_def Let_def)
qed

lemma send_negotiate_ok:
  assumes env: "env_good env" and n: "negotiable link W" and st: "lk_send_state link = Some st"
    and attached: "ss_server_connection st \<noteq> None" and active: "cn_connect_state (lk_node link) = CONNECTION_ACTIVE"
    and challenge: "part_ok challenge (unat len)"
  shows "\<exists>link' qs' M'. send_negotiate env st challenge len link = Some (link', VSSI_SUCCESS) \<and>
     link_inv link' qs' M' W \<and> answered {#} W [] [] M' W \<and> rest link' = rest link"
proof -
  have v: "cmd_view st {#} W" and facts: "session_facts link st" and W: "\<forall>c\<in>set W. waiting_ok c"
    and pending: "ss_negotiated st = NEGOTIATE_PENDING" and s: "session_ok (lk_session link)"
    and node: "node_inv (lk_routes link) (lk_node link)" "node_ok (lk_node link) (ss_cmds st) []"
    using n st active node_ok_empty [of "lk_node link" "ss_cmds st"] by (auto simp: negotiable_def quiet_def)
  let ?c = "(negotiate_cmd env)\<lparr>pi_xid := ss_seq_id st\<rparr>"
  obtain st1 where add: "VSSI_AddPendingCommand True True (env_junk env) (negotiate_cmd env) st =
      Some (st1, VSSI_SUCCESS, ss_seq_id st)" and v1: "cmd_view st1 (add_mset ?c {#}) W"
    using VSSI_AddPendingCommand_view [OF v, of True True "env_junk env" "negotiate_cmd env"] by auto
  obtain m r where m: "negotiate_message env (lk_session link) (cn_type (lk_node link)) (ss_seq_id st) challenge len
      (lk_randomness link) = Some (Some m, r)" "msg_ok m"
    using negotiate_message_ok [OF s _ _ challenge] env by (metis env_good_def)
  let ?link1 = "put_state st1 (link\<lparr>lk_randomness := r\<rparr>)"
  have xid: "pi_xid ?c = ss_seq_id st" and lk: "lk_node ?link1 = lk_node link" by simp_all
  have node1: "node_ok (lk_node ?link1) (ss_cmds st) []" "set [] \<subseteq> set (pend_addrs st)" using node(2) by simp_all
  have k: "kept (set []) st st1" by (simp add: kept_def)
  have one: "\<forall>x. count (image_mset pi_xid {#}) x \<le> 1" "pi_xid ?c \<notin># image_mset pi_xid {#}" by simp_all
  obtain a node' st' M' qs' where p: "VSSI_GetVSCommandSlot st1 (ss_seq_id st) = Some (Some a)"
    "link_send_cmd a (upd_cmd a (\<lambda>c. c\<lparr>pi_msg := Some m\<rparr>) st1) ?link1 = put_node node' (put_state st' ?link1)"
    "cmd_view st' M' W" "image_mset core M' = image_mset core (add_mset ?c {#})" "frame st' = frame st1"
    "node_ok node' (ss_cmds st') qs'" "set qs' \<subseteq> set (pend_addrs st')" "node_kept (lk_node link) node'"
    using place_and_send [OF v one(1) v1 one(2) k node1 m(2)] unfolding xid lk by metis
  let ?link' = "put_node node' (put_state st' ?link1)"
  have neg: "pi_command ?c = VSS_NEGOTIATE" "pi_callback ?c = None" "silent_negotiate ?c"
    by (simp_all add: negotiate_cmd_def silent_negotiate_def)
  have "send_negotiate env st challenge len link = Some (?link', VSSI_SUCCESS)"
    using env add m(1) p(1,2) by (simp add: send_negotiate_def env_good_def)
  moreover have "link_inv ?link' qs' M' W"
    by (rule sent_inv [of ?link1 st' st M' W ?c "{#}" node' qs'])
      (use s node(1) active attached facts p(3-8) one neg W pending frame_add_pending [OF add]
        in \<open>simp_all add: session_facts_def\<close>)
  moreover have "answered {#} W [] [] M' W"
    using owed_core [OF p(4)] neg(2) by (simp add: answered_def owed_def wants_def)
  ultimately show ?thesis by auto
qed

text \<open>Starting a negotiation, or the connection it needs first.\<close>

lemma VSSI_NegotiateSession_ok:
  assumes env: "env_good env" and n: "negotiable link W" and challenge: "part_ok challenge (unat len)"
  shows "\<exists>link' evs qs' M' W'. VSSI_NegotiateSession env challenge len link = Some (link', evs, VSSI_SUCCESS) \<and>
     link_inv link' qs' M' W' \<and> answered {#} W [] evs M' W' \<and> rest link' = rest link"
proof -
  obtain st0 where st0: "lk_send_state link = Some st0" using n by (auto simp: negotiable_def)
  obtain st link1 where a: "attach_server env st0 link = Some (st, link1)" "lk_send_state link1 = Some st"
    "ss_server_connection st \<noteq> None" "negotiable link1 W" "rest link1 = rest link" "node_ok (lk_node link1) [] []"
    using attach_server_ok [OF env n st0] by blast
  have f: "cmd_view st {#} W" "session_facts link1 st" "\<forall>c\<in>set W. waiting_ok c" "ss_negotiated st = NEGOTIATE_PENDING"
    "cn_connect_state (lk_node link1) \<noteq> CONNECTION_FAILED" "node_inv (lk_routes link1) (lk_node link1)"
    "session_ok (lk_session link1)"
    using a(2-4) by (auto simp: negotiable_def)
  have r: "resting link1 W"
    using f a(2,3) by (simp add: resting_def phase_ok_def del: not_None_eq)
  let ?cs = "cn_connect_state (lk_node link1)"
  consider (active) "?cs = CONNECTION_ACTIVE" | (new) "?cs = CONNECTION_DISCONNECTED"
    | (underway) "?cs \<in> {CONNECTION_CONNECTING, CONNECTION_CONNECTED}"
    using f(5) by (cases ?cs) auto
  then show ?thesis
  proof cases
    case active
    then obtain link' qs' M' where sn: "send_negotiate env st challenge len link1 = Some (link', VSSI_SUCCESS)"
      "link_inv link' qs' M' W" "answered {#} W [] [] M' W" "rest link' = rest link1"
      using send_negotiate_ok [OF env a(4,2,3) active challenge] by blast
    then have "VSSI_NegotiateSession env challenge len link = Some (link', [], VSSI_SUCCESS)"
      using st0 a(1) active by (simp add: VSSI_NegotiateSession_def)
    then show ?thesis using sn(2-4) a(5) by metis
  next
    case new
    let ?link2 = "put_node ((lk_node link1)\<lparr>cn_connect_state := CONNECTION_CONNECTING, cn_route_id := 0\<rparr>) link1"
    have "connectable (lk_node ?link2)"
      using f(6) new a(6) by (auto simp: connectable_def node_inv_def node_ok_def queue_of_def)
    moreover have "resting ?link2 W" using resting_cong [of ?link2 link1 W] r by simp
    ultimately obtain link' evs where c: "VSSI_ConnectVSServer env VSSI_SUCCESS ?link2 = Some (link', evs)"
      "connected_or_failed ?link2 W link' evs"
      using VSSI_ConnectVSServer_ok [OF env] by blast
    then show ?thesis using st0 a(1,5) new
      by (auto simp: VSSI_NegotiateSession_def connected_or_failed_def)
  next
    case underway
    then have "fresh_node (lk_node link1)"
      using f(6) a(6) by (auto simp: fresh_node_def node_inv_def)
    then have "link_inv link1 [] {#} W" by (rule resting_inv [OF r _ f(6) underway])
    moreover have "VSSI_NegotiateSession env challenge len link = Some (link1, [], VSSI_SUCCESS)"
      using st0 a(1) underway by (auto simp: VSSI_NegotiateSession_def)
    ultimately show ?thesis using a(5) answered_none by metis
  qed
qed

section \<open>Sending\<close>

lemma link_inv_randomness [simp]: "link_inv (link\<lparr>lk_randomness := r\<rparr>) qs M W = link_inv link qs M W"
  by (simp add: link_inv_def state_inv_def split: option.split)

text \<open>The message of the command just queued.\<close>

lemma write_tail_view:
  assumes v: "cmd_view st M (W @ [w])"
  obtains t where "ss_wait_tail st = Some t" and "t \<notin> set (pend_addrs st)"
    and "cmd_view (upd_cmd t (\<lambda>c. c\<lparr>pi_msg := m\<rparr>) st) M (W @ [w\<lparr>pi_msg := m\<rparr>])"
proof -
  obtain free wait where sv: "slots_view st \<lparr>sl_lost = [], sl_free = free, sl_wait = wait\<rparr> M (W @ [w])"
    using v by (auto simp: cmd_view_def)
  then have sw: "slots_with st \<lparr>sl_lost = [], sl_free = free, sl_wait = wait\<rparr>" and M: "M = pend_cmds st"
    and W: "map (\<lambda>a. payload (ss_cmds st ! a)) wait = W @ [w]"
    by (simp_all add: slots_view_def wait_cmds_def)
  then obtain wait0 t where wait: "wait = wait0 @ [t]" by (metis list.map_disc_iff snoc_eq_iff_butlast)
  let ?st = "upd_cmd t (\<lambda>c. c\<lparr>pi_msg := m\<rparr>) st"
  have d: "distinct (free @ wait @ pend_addrs st)" using owns_distinct(1) sw by (fastforce simp: slots_with_def)
  then have t: "t \<notin> set (pend_addrs st)" "t \<notin> set wait0" using wait by auto
  have len: "t < length (ss_cmds st)"
    using pend_below [OF sw, of t] wait sw by (simp add: slots_with_def table_ok_def)
  have "chain (\<lambda>a. pi_next_free (ss_cmds ?st ! a)) p xs = chain (\<lambda>a. pi_next_free (ss_cmds st ! a)) p xs"
    "chain (\<lambda>a. pi_next (ss_cmds ?st ! a)) p xs = chain (\<lambda>a. pi_next (ss_cmds st ! a)) p xs" for p xs
    by (rule chain_cong, simp add: cmds_upd_cmd)+
  then have "lists_ok ?st \<lparr>sl_lost = [], sl_free = free, sl_wait = wait\<rparr>"
    using sw by (simp add: slots_with_def lists_ok_def)
  moreover have "table_ok ?st" using sw table_ok_cong [of ?st st] by (simp add: slots_with_def)
  moreover have p: "pend_addrs ?st = pend_addrs st" by (rule pend_addrs_cong) simp_all
  ultimately have sw': "slots_with ?st \<lparr>sl_lost = [], sl_free = free, sl_wait = wait\<rparr>"
    using sw by (simp add: slots_with_def owns_ok_def)
  have "pend_cmds ?st = M"
    unfolding M pend_cmds_def p by (rule image_mset_cong) (use t(1) in \<open>auto simp: cmds_upd_cmd\<close>)
  moreover have "wait_cmds ?st wait = W @ [w\<lparr>pi_msg := m\<rparr>]"
  proof -
    have "map (\<lambda>a. payload (ss_cmds ?st ! a)) wait0 = map (\<lambda>a. payload (ss_cmds st ! a)) wait0"
      using t(2) by (auto simp: cmds_upd_cmd)
    moreover have "payload (ss_cmds ?st ! t) = (payload (ss_cmds st ! t))\<lparr>pi_msg := m\<rparr>"
      using len by (simp add: cmds_upd_cmd payload_def)
    ultimately show ?thesis using W wait by (simp add: wait_cmds_def del: map_eq_conv)
  qed
  ultimately have "cmd_view ?st M (W @ [w\<lparr>pi_msg := m\<rparr>])"
    unfolding cmd_view_def slots_view_def using sw'
    by (intro exI [of _ free] exI [of _ wait]) simp
  moreover have "ss_wait_tail st = Some t" using sw wait by (simp add: slots_with_def lists_ok_def)
  ultimately show thesis using t(1) by (intro that)
qed

lemma send_later_ok:
  assumes env: "env_good env" and inv: "link_inv link qs M W" and st: "lk_send_state link = Some st"
    and negotiated: "ss_negotiated st \<noteq> NEGOTIATE_DONE" and cmd: "silent_negotiate cmd" and x: "msg_prepared x"
  shows "\<exists>link' evs qs' M' W'. send_later env cmd x st link = Some (link', evs) \<and> link_inv link' qs' M' W' \<and>
     answered M W [cmd] evs M' W' \<and> rest link' = rest link"
proof -
  have i: "session_ok (lk_session link)" "node_inv (lk_routes link) (lk_node link)" "state_inv link st qs M W"
    using inv st by (simp_all add: link_inv_def)
  then have v: "cmd_view st M W" and facts: "session_facts link st" and W: "\<forall>c\<in>set W. waiting_ok c"
    by (simp_all add: state_inv_def session_facts_def)
  obtain st1 where add: "VSSI_AddWaitingCommand True True (env_junk env) cmd st = Some (st1, VSSI_SUCCESS)"
    and v1: "cmd_view st1 M (W @ [payload cmd])"
    using VSSI_AddWaitingCommand_view [OF v, of True True "env_junk env" cmd] by auto
  let ?w = "(payload cmd)\<lparr>pi_msg := Some x\<rparr>"
  obtain t where t: "ss_wait_tail st1 = Some t" "t \<notin> set (pend_addrs st1)"
    "cmd_view (upd_cmd t (\<lambda>c. c\<lparr>pi_msg := Some x\<rparr>) st1) M (W @ [?w])"
    using write_tail_view [OF v1] by metis
  let ?st2 = "upd_cmd t (\<lambda>c. c\<lparr>pi_msg := Some x\<rparr>) st1"
  have f2: "frame ?st2 = frame st" using frame_add_waiting [OF add] by simp
  note fs = frame_eq [OF f2]
  have "silent_negotiate ?w" using cmd by (simp add: silent_negotiate_def payload_def)
  then have W2: "\<forall>c\<in>set (W @ [?w]). waiting_ok c" using W x by (auto simp: waiting_ok_def)
  have once: "answered M W [cmd] [] M (W @ [?w])"
    by (simp add: answered_def owed_def wants_def payload_def)
  show ?thesis
  proof (cases "ss_negotiated st = NEGOTIATE_NEEDED")
    case True
    then have MW: "M = {#}" "W = []" and server: "ss_server_connection st = None"
      using i(3) by (simp_all add: state_inv_def phase_ok_def)
    let ?link2 = "put_state (?st2\<lparr>ss_negotiated := NEGOTIATE_PENDING\<rparr>) link"
    have q: "quiet (lk_node link)" using i(3) server by (simp add: state_inv_def queue_inv_def)
    have "cmd_view (?st2\<lparr>ss_negotiated := NEGOTIATE_PENDING\<rparr>) {#} [?w]"
      using t(3) MW cmd_view_cong [of "?st2\<lparr>ss_negotiated := NEGOTIATE_PENDING\<rparr>" ?st2 "{#}" "[?w]"] by simp
    then have "negotiable ?link2 [?w]"
      using i(1,2) q facts fs W2 server by (simp add: negotiable_def session_facts_def)
    moreover have "part_ok None (unat (0 :: u8))" by (simp add: part_ok_def)
    ultimately obtain link' evs qs' M' W' where n: "VSSI_NegotiateSession env None 0 ?link2 = Some (link', evs, VSSI_SUCCESS)"
      "link_inv link' qs' M' W'" "answered {#} [?w] [] evs M' W'" "rest link' = rest ?link2"
      using VSSI_NegotiateSession_ok [OF env] by blast
    then have "answered M W [cmd] evs M' W'"
      using answered_append [OF once, of "[]" evs M' W'] MW by simp
    moreover have "send_later env cmd x st link = Some (link', evs)"
      using env add t(1) n(1) True fs(6) by (simp add: send_later_def env_good_def)
    ultimately show ?thesis using n(2,4) by auto
  next
    case False
    then have pending: "ss_negotiated st = NEGOTIATE_PENDING" using negotiated by (cases "ss_negotiated st") auto
    then have server: "ss_server_connection st \<noteq> None" using i(3) by (simp add: state_inv_def phase_ok_def)
    then have q: "node_ok (lk_node link) (ss_cmds st) qs" "set qs \<subseteq> set (pend_addrs st)"
      using i(3) by (simp_all add: state_inv_def queue_inv_def del: not_None_eq)
    have k1: "kept (set qs) st st1" using VSSI_AddWaitingCommand_kept [OF v q(2) add] .
    have q1: "set qs \<subseteq> set (pend_addrs st1)" using queue_kept [OF q(1) k1 v1] by simp
    have "kept (set qs) st1 ?st2" using t(2) q1 by (intro upd_cmd_kept) auto
    then have q2: "node_ok (lk_node link) (ss_cmds ?st2) qs" "set qs \<subseteq> set (pend_addrs ?st2)"
      using queue_kept [OF q(1) kept_trans [OF k1] t(3)] by simp_all
    have "phase_ok (cn_connect_state (lk_node link)) ?st2 M (W @ [?w])"
      using i(3) pending fs by (auto simp: state_inv_def phase_ok_def split: if_splits)
    then have "state_inv (put_state ?st2 link) ?st2 qs M (W @ [?w])"
      using i(3) t(3) W2 q2 fs server by (simp add: state_inv_def queue_inv_def del: not_None_eq)
    then have "link_inv (put_state ?st2 link) qs M (W @ [?w])" using i(1,2) by (simp add: link_inv_def)
    moreover have "send_later env cmd x st link = Some (put_state ?st2 link, [])"
      using env add t(1) pending fs(6) by (simp add: send_later_def env_good_def)
    ultimately show ?thesis using once by auto
  qed
qed

lemma link_send_state_ok:
  assumes env: "env_good env" and inv: "link_inv link qs M W"
  obtains link1 st where "link_send_state env link = (link1, Some st)" and "lk_send_state link1 = Some st"
    and "link_inv link1 qs M W" and "rest link1 = rest link" and "lk_node link1 = lk_node link"
    and "lk_randomness link1 = lk_randomness link"
    and "lk_send_state link = None \<Longrightarrow> ss_negotiated st = NEGOTIATE_NEEDED"
    and "\<And>st0. lk_send_state link = Some st0 \<Longrightarrow> st = st0"
proof (cases "lk_send_state link")
  case None
  let ?st = "new_send_state (lk_session link) (lk_cluster link)"
  have f: "ss_negotiated ?st = NEGOTIATE_NEEDED" "ss_server_connection ?st = None" "ss_session ?st = lk_session link"
    "ss_cluster_id ?st = lk_cluster link"
    by (simp_all add: new_send_state_def)
  have "link_inv (put_state ?st link) qs M W"
    using inv None f new_send_state_view by (simp add: link_inv_def state_inv_def phase_ok_def queue_inv_def)
  then show thesis using None env f
    by (intro that [of "put_state ?st link" ?st])
      (simp_all add: link_send_state_def VSSI_GetSendState_def env_good_def put_state_def rest_def Let_def)
next
  case (Some st)
  then have "ss_cluster_id st = lk_cluster link" using inv by (simp add: link_inv_def state_inv_def)
  then show thesis using Some inv
    by (intro that [of link st]) (simp_all add: link_send_state_def VSSI_GetSendState_def)
qed

text \<open>The message a caller hands over.\<close>

definition message_fits :: "vss_message \<Rightarrow> bool" where
  "message_fits v \<longleftrightarrow> length (sv_header v) = 48 \<and>
     rd_bytes (sv_header v) VSS_HEADER_HMAC_OFFSET VSS_HMAC_SIZE = Some (replicate VSS_HMAC_SIZE 0) \<and>
     sv_fixed_len v \<le> length (sv_fixed_data v) \<and> part_ok (sv_var_data1 v) (sv_var_len1 v) \<and>
     part_ok (sv_var_data2 v) (sv_var_len2 v) \<and> sv_fixed_len v + sv_var_len1 v + sv_var_len2 v + 16 < 2 ^ 28"

text \<open>The id the next command would get is not pending; needed only once negotiation is done.\<close>

definition next_id_free :: "vs_link \<Rightarrow> VSSI_PendInfo multiset \<Rightarrow> bool" where
  "next_id_free link M \<longleftrightarrow> (case lk_send_state link of None \<Rightarrow> True
     | Some st \<Rightarrow> ss_negotiated st = NEGOTIATE_DONE \<longrightarrow> ss_seq_id st \<notin># image_mset pi_xid M)"

lemma VSSI_SendVss_ok:
  assumes env: "env_good env" and inv: "link_inv link qs M W" and cmd: "silent_negotiate cmd"
    and x: "message_fits v" and fresh: "next_id_free link M"
  shows "\<exists>link' evs qs' M' W'. VSSI_SendVss env cmd v link = Some (link', evs) \<and> link_inv link' qs' M' W' \<and>
     answered M W [cmd] evs M' W' \<and> rest link' = rest link"
proof -
  obtain link1 st where s: "link_send_state env link = (link1, Some st)" "lk_send_state link1 = Some st"
    "link_inv link1 qs M W" "rest link1 = rest link"
    and new: "lk_send_state link = None \<Longrightarrow> ss_negotiated st = NEGOTIATE_NEEDED"
    and old: "\<And>st0. lk_send_state link = Some st0 \<Longrightarrow> st = st0"
    using link_send_state_ok [OF env inv] by metis
  have part: "part_ok (Some (sv_fixed_data v)) (sv_fixed_len v)" using x by (simp add: message_fits_def part_ok_def)
  obtain msg r where m: "VSSI_PrepareMessage True (env_device_id env) (lk_randomness link1) (sv_header v)
      (Some (sv_fixed_data v)) (sv_fixed_len v) (sv_var_data1 v) (sv_var_len1 v) (sv_var_data2 v) (sv_var_len2 v) =
      Some (Some msg, r)" "msg_prepared msg"
    using prepare_prepared [OF _ _ part, of "sv_header v" "sv_var_data1 v" "sv_var_len1 v" "sv_var_data2 v"
        "sv_var_len2 v" "env_device_id env" "lk_randomness link1"] x
    by (auto simp: message_fits_def)
  let ?link2 = "link1\<lparr>lk_randomness := r\<rparr>"
  have run: "VSSI_SendVss env cmd v link =
      (if ss_negotiated st = NEGOTIATE_DONE then send_now env cmd msg st ?link2 else send_later env cmd msg st ?link2)"
    using s(1) m(1) env by (simp add: VSSI_SendVss_def env_good_def)
  have inv2: "link_inv ?link2 qs M W" "lk_send_state ?link2 = Some st" "rest ?link2 = rest link"
    using s(2-4) by simp_all
  show ?thesis
  proof (cases "ss_negotiated st = NEGOTIATE_DONE")
    case True
    then obtain st0 where "lk_send_state link = Some st0" using new by fastforce
    then have "ss_seq_id st \<notin># image_mset pi_xid M" using fresh old True by (auto simp: next_id_free_def)
    then show ?thesis
      using send_now_ok [OF env inv2(1,2) True cmd m(2)] run True inv2(3) by auto
  next
    case False
    then show ?thesis using send_later_ok [OF env inv2(1,2) False cmd m(2)] run inv2(3) by auto
  qed
qed

section \<open>The end of a negotiation\<close>

lemma waiting_to_pending_seq:
  "VSSI_WaitingCommandToPending a st = Some (st', rv, xid) \<Longrightarrow> ss_seq_id st' = seq_after (ss_seq_id st)"
  by (auto simp: VSSI_WaitingCommandToPending_def place_pending_def next_xid_def seq_after_def Let_def
      elim!: bind_eq_SomeE split: prod.splits if_splits)

text \<open>A session that is negotiated, with the commands that waited for it still to be sent.\<close>

definition negotiated_view ::
  "vs_link \<Rightarrow> VSSI_SendState \<Rightarrow> nat list \<Rightarrow> VSSI_PendInfo multiset \<Rightarrow> VSSI_PendInfo list \<Rightarrow> bool" where
  "negotiated_view link st qs M W \<longleftrightarrow> session_ok (lk_session link) \<and> node_inv (lk_routes link) (lk_node link) \<and>
     cn_connect_state (lk_node link) = CONNECTION_ACTIVE \<and> lk_send_state link = Some st \<and> session_facts link st \<and>
     ss_server_connection st \<noteq> None \<and> ss_negotiated st = NEGOTIATE_DONE \<and> cmd_view st M W \<and>
     (\<forall>x. count (image_mset pi_xid M) x \<le> 1) \<and> (\<forall>c\<in>#M. silent_negotiate c) \<and> (\<forall>c\<in>set W. waiting_ok c) \<and>
     node_ok (lk_node link) (ss_cmds st) qs \<and> set qs \<subseteq> set (pend_addrs st)"

lemma negotiated_view_inv: "negotiated_view link st qs M [] \<Longrightarrow> link_inv link qs M []"
  by (simp add: negotiated_view_def link_inv_def state_inv_def session_facts_def phase_ok_def queue_inv_def
      del: not_None_eq)

text \<open>What goes out grows by the message of a waiting command, under an id.\<close>

definition posts :: "VSSI_SendState \<Rightarrow> u32 \<Rightarrow> VSSI_PendInfo \<Rightarrow> buffer \<Rightarrow> buffer \<Rightarrow> bool" where
  "posts st xid w out out' \<longleftrightarrow> (\<exists>x bytes. pi_msg w = Some x \<and> sent_as st xid x bytes \<and> out' = out @ bytes)"

lemma send_waiting_one_ok:
  assumes env: "env_good env" and n: "negotiated_view link st qs M (w # W)"
    and fresh: "ss_seq_id st \<notin># image_mset pi_xid M"
  obtains a link' st' qs' M' where "ss_wait_head st = Some a" and "send_waiting_one env a st link = Some link'"
    and "negotiated_view link' st' qs' M' W" and "ss_seq_id st' = seq_after (ss_seq_id st)"
    and "image_mset core M' = image_mset core (add_mset (w\<lparr>pi_xid := ss_seq_id st\<rparr>) M)" and "rest link' = rest link"
    and "frame st' = frame st" and "posts st (ss_seq_id st) w (outgoing (lk_node link) (ss_cmds st) qs)
           (outgoing (lk_node link') (ss_cmds st') qs')"
proof -
  have v: "cmd_view st M (w # W)" and one: "\<forall>x. count (image_mset pi_xid M) x \<le> 1"
    and q: "node_ok (lk_node link) (ss_cmds st) qs" "set qs \<subseteq> set (pend_addrs st)"
    and s: "session_ok (ss_session st)" and w: "waiting_ok w"
    using n by (simp_all add: negotiated_view_def session_facts_def)
  obtain free wait0 where sv0: "slots_view st \<lparr>sl_lost = [], sl_free = free, sl_wait = wait0\<rparr> M (w # W)"
    using v by (auto simp: cmd_view_def)
  then obtain a wait where wait0: "wait0 = a # wait" by (cases wait0) (simp_all add: slots_view_def wait_cmds_def)
  note sv = sv0 [unfolded wait0]
  let ?c = "ss_cmds st ! a"
  have w_eq: "w = payload ?c" using pop_wait_view(2) [OF sv] by simp
  then obtain x where x: "pi_msg ?c = Some x" "msg_prepared x" using w by (auto simp: waiting_ok_def payload_def)
  let ?st1 = "st\<lparr>ss_wait_head := pi_next ?c\<rparr>"
  let ?st' = "upd_cmd a (\<lambda>c. c\<lparr>pi_msg := None\<rparr>) ?st1"
  have sv': "slots_view ?st' \<lparr>sl_lost = [a], sl_free = free, sl_wait = wait\<rparr> M W"
    "ss_cmds ?st' ! a = ?c\<lparr>pi_msg := None\<rparr>"
    using write_lost_view [OF pop_wait_view(3) [OF sv]] by simp_all
  obtain st2 where p: "VSSI_WaitingCommandToPending a ?st' = Some (st2, VSSI_SUCCESS, ss_seq_id st)"
    and v2: "cmd_view st2 (add_mset (?c\<lparr>pi_msg := None, pi_xid := ss_seq_id st\<rparr>) M) W"
    using VSSI_WaitingCommandToPending_view [OF sv'(1)] sv'(2) by auto
  let ?c2 = "?c\<lparr>pi_msg := None, pi_xid := ss_seq_id st\<rparr>"
  have f2: "frame st2 = frame st" using frame_waiting_to_pending [OF p] by simp
  have a_new: "a \<notin> set (pend_addrs st)" "pend_addrs ?st' = pend_addrs st"
    using lost_apart(1) [of ?st' a free wait] sv'(1) pend_addrs_cong [of ?st' st]
    by (simp_all add: slots_view_def)
  have k1: "kept (set qs) st ?st'"
    using a_new q(2) by (intro kept_same) (auto simp: cmds_upd_cmd)
  have k: "kept (set qs) st st2"
    using kept_trans [OF k1 VSSI_WaitingCommandToPending_kept [OF sv'(1) p]] a_new(2) q(2) by simp
  have s2: "session_ok (ss_session st2)" using s frame_eq [OF f2] by simp
  obtain bytes out H B P where out: "vss_set_xid (msg_msg x) (ss_seq_id st) = Some bytes"
    "VSSI_ComposeMessage True (ss_session st2) (ss_sign_mode st2) (ss_sign_type st2) (ss_enc_type st2)
       (x\<lparr>msg_msg := bytes\<rparr>) = Some (Some out)" "msg_ok out"
    "delivers (ss_session st2) (ss_sign_mode st2) (ss_sign_type st2) (ss_enc_type st2) (wire_image out) H
       (sent_body (ss_enc_type st2) B P)" "vss_get_xid H = Some (ss_seq_id st)"
    "x = \<lparr>msg_length = 48 + length B, msg_msg = take 48 (msg_msg x) @ B @ P\<rparr>"
    "vss_get_command H = vss_get_command (take 48 (msg_msg x))"
    using compose_prepared [OF s2 x(2)] by metis
  have "sent_as st (ss_seq_id st) x (wire_image out)"
    unfolding sent_as_def using out(4-7) frame_eq [OF f2] by metis
  moreover have "pi_msg w = Some x" using x(1) by (simp add: w_eq payload_def)
  ultimately have posts: "posts st (ss_seq_id st) w o1 (o1 @ wire_image out)" for o1 by (auto simp: posts_def)
  have xid: "pi_xid ?c2 = ss_seq_id st" by simp
  obtain a' node' st' M' qs' where r: "VSSI_GetVSCommandSlot st2 (ss_seq_id st) = Some (Some a')"
    "link_send_cmd a' (upd_cmd a' (\<lambda>c. c\<lparr>pi_msg := Some out\<rparr>) st2) link = put_node node' (put_state st' link)"
    "cmd_view st' M' W" "image_mset core M' = image_mset core (add_mset ?c2 M)" "frame st' = frame st2"
    "ss_seq_id st' = ss_seq_id st2" "node_ok node' (ss_cmds st') qs'" "set qs' \<subseteq> set (pend_addrs st')"
    "node_kept (lk_node link) node'" "posted (wire_image out) (lk_node link) (ss_cmds st) qs node' (ss_cmds st') qs'"
    using place_and_send [OF v one v2 _ k q out(3)] fresh unfolding xid by metis
  have "length (cn_connections (lk_node link)) = 1" using n by (simp add: negotiated_view_def node_inv_def)
  note wire_out = posted_outgoing [OF r(10) this]
  let ?link' = "put_node node' (put_state st' link)"
  have core2: "core ?c2 = core (w\<lparr>pi_xid := ss_seq_id st\<rparr>)" by (simp add: w_eq)
  have silent: "silent_negotiate ?c2" using w by (simp add: w_eq waiting_ok_def silent_negotiate_def payload_def)
  have fr: "frame st' = frame st" using r(5) f2 by simp
  have ids: "\<forall>x. count (image_mset pi_xid M') x \<le> 1"
    using core_image(1) [OF r(4)] count_add_fresh [OF one, of ?c2] fresh by (simp only:) simp
  have sil: "\<forall>c\<in>#M'. silent_negotiate c"
    using core_image(4) [OF r(4)] n silent by (simp add: negotiated_view_def)
  have cs: "cn_connect_state node' = CONNECTION_ACTIVE" "node_inv (lk_routes link) node'"
    using r(9) n node_kept_active by (auto simp: node_kept_def negotiated_view_def)
  have "send_waiting_one env a st link = Some ?link'"
    using env x(1) p out(1,2) r(1,2) by (simp add: send_waiting_one_def env_good_def)
  moreover have "negotiated_view ?link' st' qs' M' W"
    using n cs ids sil r(3,7,8) frame_eq [OF fr]
    by (simp add: negotiated_view_def session_facts_def del: not_None_eq)
  moreover have "ss_seq_id st' = seq_after (ss_seq_id st)"
    using r(6) waiting_to_pending_seq [OF p] by simp
  moreover have "image_mset core M' = image_mset core (add_mset (w\<lparr>pi_xid := ss_seq_id st\<rparr>) M)"
    using r(4) core2 by simp
  ultimately show thesis using pop_wait_view(1) [OF sv]
    by (intro that [of a ?link' st' qs' M']) (simp_all add: fr wire_out posts)
qed

text \<open>The waiting commands under the ids they get.\<close>

fun numbered :: "u32 \<Rightarrow> VSSI_PendInfo list \<Rightarrow> VSSI_PendInfo list" where
  "numbered x [] = []"
| "numbered x (w # ws) = w\<lparr>pi_xid := x\<rparr> # numbered (seq_after x) ws"

fun posts_all :: "VSSI_SendState \<Rightarrow> u32 \<Rightarrow> VSSI_PendInfo list \<Rightarrow> buffer \<Rightarrow> buffer \<Rightarrow> bool" where
  "posts_all st xid [] out out' \<longleftrightarrow> out' = out"
| "posts_all st xid (w # ws) out out' \<longleftrightarrow>
     (\<exists>out1. posts st xid w out out1 \<and> posts_all st (seq_after xid) ws out1 out')"

lemma posts_all_frame: "frame st' = frame st \<Longrightarrow> posts_all st' xid W out out' = posts_all st xid W out out'"
  by (induction W arbitrary: xid out) (simp_all add: posts_def sent_as_def frame_def)

lemma send_waiting_ok:
  assumes env: "env_good env"
  shows "negotiated_view link st qs M W \<Longrightarrow> length W < 2 ^ 32 - 1 \<Longrightarrow>
    \<forall>j < length W. id_after (ss_seq_id st) j \<notin># image_mset pi_xid M \<Longrightarrow>
    \<exists>link' st' qs' M'. send_waiting env link = Some link' \<and> negotiated_view link' st' qs' M' [] \<and>
      rest link' = rest link \<and> image_mset core M' = image_mset core (M + mset (numbered (ss_seq_id st) W)) \<and>
      ss_seq_id st' = id_after (ss_seq_id st) (length W) \<and> frame st' = frame st \<and>
      posts_all st (ss_seq_id st) W (outgoing (lk_node link) (ss_cmds st) qs) (outgoing (lk_node link') (ss_cmds st') qs')"
proof (induction W arbitrary: link st qs M)
  case Nil
  then obtain free wait where "slots_view st \<lparr>sl_lost = [], sl_free = free, sl_wait = wait\<rparr> M []"
    by (auto simp: negotiated_view_def cmd_view_def)
  then have "ss_wait_head st = None"
    using chain_head by (fastforce simp: slots_view_def wait_cmds_def slots_with_def lists_ok_def)
  then have "send_waiting env link = Some link" using Nil.prems(1)
    by (subst send_waiting.simps) (simp add: negotiated_view_def)
  with Nil.prems(1) show ?case by (intro exI [of _ link] exI [of _ st] exI [of _ qs] exI [of _ M]) simp
next
  case (Cons w W)
  have "ss_seq_id st \<notin># image_mset pi_xid M" using Cons.prems(3) [rule_format, of 0] by simp
  then obtain a link1 st1 qs1 M1 where one: "ss_wait_head st = Some a" "send_waiting_one env a st link = Some link1"
    "negotiated_view link1 st1 qs1 M1 W" "ss_seq_id st1 = seq_after (ss_seq_id st)"
    "image_mset core M1 = image_mset core (add_mset (w\<lparr>pi_xid := ss_seq_id st\<rparr>) M)" "rest link1 = rest link"
    "frame st1 = frame st" "posts st (ss_seq_id st) w (outgoing (lk_node link) (ss_cmds st) qs)
       (outgoing (lk_node link1) (ss_cmds st1) qs1)"
    using send_waiting_one_ok [OF env Cons.prems(1)] by metis
  have "id_after (ss_seq_id st1) j \<notin># image_mset pi_xid M1" if j: "j < length W" for j
  proof -
    have "id_after (ss_seq_id st) (Suc j) \<noteq> id_after (ss_seq_id st) 0"
      using id_after_inj [of "ss_seq_id st" "Suc j" 0] j Cons.prems(2) by auto
    moreover have "id_after (ss_seq_id st) (Suc j) \<notin># image_mset pi_xid M" using Cons.prems(3) j by auto
    ultimately show ?thesis using core_image(1) [OF one(5)] one(4) by simp
  qed
  moreover have "length W < 2 ^ 32 - 1" using Cons.prems(2) by simp
  ultimately obtain link' st' qs' M' where r: "send_waiting env link1 = Some link'"
    "negotiated_view link' st' qs' M' []" "rest link' = rest link1"
    "image_mset core M' = image_mset core (M1 + mset (numbered (ss_seq_id st1) W))"
    "ss_seq_id st' = id_after (ss_seq_id st1) (length W)" "frame st' = frame st1"
    "posts_all st1 (ss_seq_id st1) W (outgoing (lk_node link1) (ss_cmds st1) qs1)
       (outgoing (lk_node link') (ss_cmds st') qs')"
    using Cons.IH [OF one(3)] by blast
  have "lk_send_state link = Some st" using Cons.prems(1) by (simp add: negotiated_view_def)
  then have "send_waiting env link = Some link'"
    using one(1,2) r(1) by (subst send_waiting.simps) simp
  moreover have "image_mset core M' = image_mset core (M + mset (numbered (ss_seq_id st) (w # W)))"
    using r(4) one(4,5) by simp
  moreover have "posts_all st (ss_seq_id st) (w # W) (outgoing (lk_node link) (ss_cmds st) qs)
      (outgoing (lk_node link') (ss_cmds st') qs')"
    using one(8) r(7) posts_all_frame [OF one(7)] one(4) by auto
  ultimately show ?case using r(2,3,5,6) one(4,6,7) by (intro exI [of _ link'] exI [of _ st'] exI [of _ qs'] exI [of _ M']) simp
qed

lemma owed_numbered: "size (filter_mset (wants cb ctx) (mset (numbered x W))) = length (filter (wants cb ctx) W)"
  by (induction W arbitrary: x) simp_all

lemma wait_tail_view: "cmd_view st M [] \<Longrightarrow> cmd_view (st\<lparr>ss_wait_tail := p\<rparr>) M []"
  by (auto simp: cmd_view_def slots_view_def slots_with_def table_ok_def lists_ok_def owns_ok_def pend_addrs_def
      pend_cmds_def wait_cmds_def)

text \<open>Releasing the negotiation's command.\<close>

lemma release_negotiate_ok:
  assumes v: "cmd_view st {#c#} W"
  obtains st' where "release_negotiate (pi_xid c) st = Some st'" and "cmd_view st' {#} W" and "frame st' = frame st"
proof -
  obtain slot a where g: "VSSI_GetCommandSlotUnlocked st (pi_xid c) = Some slot" "0 \<le> slot" "nat slot < ss_num_cmd_slots st"
    "ss_table st ! nat slot = Some a" "pi_xid (ss_cmds st ! a) = pi_xid c"
    using VSSI_GetVSCommandSlot_view [OF v, of "pi_xid c"] by (auto split: if_splits)
  obtain free wait where sv: "slots_view st \<lparr>sl_lost = [], sl_free = free, sl_wait = wait\<rparr> {#c#} W"
    using v by (auto simp: cmd_view_def)
  let ?st1 = "st\<lparr>ss_table := (ss_table st)[nat slot := None]\<rparr>"
  obtain M' where M': "{#c#} = add_mset (ss_cmds st ! a) M'"
    "slots_view ?st1 \<lparr>sl_lost = [a], sl_free = free, sl_wait = wait\<rparr> M' W"
    using clear_slot_view [OF sv g(3,4)] by blast
  have "M' = {#}" using M'(1) by simp
  then have "cmd_view (release_cmd a ?st1) {#} W" using release_view [OF M'(2)] by (auto simp: cmd_view_def)
  then show thesis using g by (intro that [of "release_cmd a ?st1"]) (simp_all add: release_negotiate_def)
qed

lemma wait_length: "cmd_view st M W \<Longrightarrow> length W \<le> ss_num_cmd_slots st"
  by (auto simp: cmd_view_def slots_view_def wait_cmds_def slots_with_def dest!: owns_lengths)

text \<open>A reply to the negotiation \<open>xid\<close> that is as long as it says.\<close>

definition negotiate_reply_ok :: "u32 \<Rightarrow> buffer \<Rightarrow> bool" where
  "negotiate_reply_ok xid msg \<longleftrightarrow> 56 \<le> length msg \<and> vss_get_xid msg = Some xid \<and>
     (vss_get_status msg = Some VSSI_AGAIN \<longrightarrow> 56 + unat (msg ! 55) \<le> length msg)"

lemma negotiate_reply_fields:
  assumes "56 \<le> length msg"
  shows "\<exists>a b c x rc. vss_negotiate_reply_get_signing_mode (drop 48 msg) = Some a \<and>
     vss_negotiate_reply_get_sign_type (drop 48 msg) = Some b \<and>
     vss_negotiate_reply_get_encrypt_type (drop 48 msg) = Some c \<and>
     vss_negotiate_reply_get_xid_start (drop 48 msg) = Some x \<and> vss_get_status msg = Some rc"
    and "vss_negotiate_reply_get_challenge (drop 48 msg) = Some (drop 56 msg)"
    and "vss_negotiate_reply_get_challenge_len (drop 48 msg) = Some (msg ! 55)"
    and "ptr_at msg VSS_HEADER_SIZE = Some (drop 48 msg)"
  using assms by (auto simp: wire get_u8_def get_host32_def ptr_at_def rd_bytes_def get_u8_eq_rd hd_drop_conv_nth)

text \<open>The reply releases the negotiation's command: then nothing is pending.\<close>

lemma negotiation_reply:
  assumes inv: "link_inv link qs M W" and st: "lk_send_state link = Some st"
    and pending: "ss_negotiated st = NEGOTIATE_PENDING" "cn_connect_state (lk_node link) = CONNECTION_ACTIVE"
    and sent: "cn_send_head (lk_node link) = None" and reply: "\<forall>c\<in>#M. negotiate_reply_ok (pi_xid c) msg"
  obtains c st1 where "vss_get_xid msg = Some (pi_xid c)" and "release_negotiate (pi_xid c) st = Some st1"
    and "cmd_view st1 {#} W" and "frame st1 = frame st" and "node_ok (lk_node link) [] []" and "qs = []"
    and "session_facts link st" and "\<forall>c\<in>set W. waiting_ok c" and "ss_server_connection st \<noteq> None"
    and "negotiate_reply_ok (pi_xid c) msg" and "cmd_view st {#c#} W"
    and "\<forall>cb ctx. owed cb ctx M W = owed cb ctx {#} W"
proof -
  have i: "state_inv link st qs M W" using inv st by (simp_all add: link_inv_def)
  have "size M = 1" and callback: "\<forall>c\<in>#M. pi_callback c = None" and server: "ss_server_connection st \<noteq> None"
    using i pending by (auto simp: state_inv_def phase_ok_def)
  then obtain c where M: "M = {#c#}" by (metis size_1_singleton_mset)
  have v: "cmd_view st {#c#} W" and facts: "session_facts link st" and W: "\<forall>c\<in>set W. waiting_ok c"
    using i M by (simp_all add: state_inv_def session_facts_def)
  have "node_ok (lk_node link) (ss_cmds st) qs" using i server by (simp add: state_inv_def queue_inv_def)
  then have q: "node_ok (lk_node link) [] []" "qs = []" using sent node_ok_empty [of "lk_node link" "ss_cmds st"]
    by (cases qs; auto simp: node_ok_def queue_of_def)+
  have owed: "owed cb ctx M W = owed cb ctx {#} W" for cb ctx
    using callback M by (simp add: owed_def wants_def)
  obtain st1 where r: "release_negotiate (pi_xid c) st = Some st1" "cmd_view st1 {#} W" "frame st1 = frame st"
    using release_negotiate_ok [OF v] by metis
  have "negotiate_reply_ok (pi_xid c) msg" using reply M by simp
  then show thesis using that [of c st1] r q facts W server v owed by (simp add: negotiate_reply_ok_def del: not_None_eq)
qed

text \<open>On success every command that waited is sent, in order, under the ids the server starts from.\<close>

lemma negotiation_succeeds:
  assumes env: "env_good env" and inv: "link_inv link qs M W" and st: "lk_send_state link = Some st"
    and pending: "ss_negotiated st = NEGOTIATE_PENDING" "cn_connect_state (lk_node link) = CONNECTION_ACTIVE"
    and sent: "cn_send_head (lk_node link) = None" and reply: "\<forall>c\<in>#M. negotiate_reply_ok (pi_xid c) msg"
    and slots: "ss_num_cmd_slots st < 2 ^ 32 - 1" and ok: "vss_get_status msg = Some VSSI_SUCCESS"
  obtains sm ty enc x link' st' qs' M' where "VSSI_NegotiateSessionDone env msg link = Some (link', [])"
    and "vss_negotiate_reply_get_signing_mode (drop 48 msg) = Some sm"
    and "vss_negotiate_reply_get_sign_type (drop 48 msg) = Some ty"
    and "vss_negotiate_reply_get_encrypt_type (drop 48 msg) = Some enc"
    and "vss_negotiate_reply_get_xid_start (drop 48 msg) = Some x"
    and "negotiated_view link' st' qs' M' []" and "rest link' = rest link"
    and "image_mset core M' = image_mset core (mset (numbered x W))"
    and "posts_all (st\<lparr>ss_sign_mode := sm, ss_sign_type := ty, ss_enc_type := enc\<rparr>) x W
           (outgoing (lk_node link) (ss_cmds st) qs) (outgoing (lk_node link') (ss_cmds st') qs')"
proof -
  have i: "session_ok (lk_session link)" "node_inv (lk_routes link) (lk_node link)" using inv by (simp_all add: link_inv_def)
  obtain c :: VSSI_PendInfo and st1 where r: "vss_get_xid msg = Some (pi_xid c)" "release_negotiate (pi_xid c) st = Some st1"
    "cmd_view st1 {#} W" "frame st1 = frame st" "node_ok (lk_node link) [] []" "qs = []" "session_facts link st"
    "\<forall>c\<in>set W. waiting_ok c" "ss_server_connection st \<noteq> None" "negotiate_reply_ok (pi_xid c) msg" "cmd_view st {#c#} W"
    using negotiation_reply [OF inv st pending sent reply] by metis
  note fr = frame_eq [OF r(4)]
  have len: "56 \<le> length msg" using r(10) by (simp add: negotiate_reply_ok_def)
  note fields = negotiate_reply_fields [OF len]
  obtain sm ty enc x where f: "vss_negotiate_reply_get_signing_mode (drop 48 msg) = Some sm"
    "vss_negotiate_reply_get_sign_type (drop 48 msg) = Some ty"
    "vss_negotiate_reply_get_encrypt_type (drop 48 msg) = Some enc"
    "vss_negotiate_reply_get_xid_start (drop 48 msg) = Some x"
    using fields(1) by metis
  let ?st = "st1\<lparr>ss_negotiated := NEGOTIATE_DONE, ss_sign_mode := sm, ss_sign_type := ty, ss_enc_type := enc,
      ss_seq_id := x\<rparr>"
  have "cmd_view ?st {#} W" using r(3) cmd_view_cong [of ?st st1 "{#}" W] by simp
  then have n: "negotiated_view (put_state ?st link) ?st [] {#} W"
    using i pending(2) r(5,7-9) node_ok_empty [of "lk_node link" "ss_cmds st1"] fr
    by (simp add: negotiated_view_def session_facts_def del: not_None_eq)
  have "length W < 2 ^ 32 - 1" using wait_length [OF r(11)] slots by linarith
  then obtain link' st' qs' M' where w: "send_waiting env (put_state ?st link) = Some link'"
    "negotiated_view link' st' qs' M' []" "rest link' = rest (put_state ?st link)"
    "image_mset core M' = image_mset core ({#} + mset (numbered x W))"
    "posts_all ?st x W (outgoing (lk_node link) (ss_cmds ?st) []) (outgoing (lk_node link') (ss_cmds st') qs')"
    using send_waiting_ok [OF env n] by auto
  let ?st2 = "st'\<lparr>ss_wait_tail := None\<rparr>"
  have "negotiated_view (put_state ?st2 link') ?st2 qs' M' []"
    using w(2) wait_tail_view [of st' M' None] pend_addrs_cong [of ?st2 st']
    by (simp add: negotiated_view_def session_facts_def del: not_None_eq)
  moreover have "VSSI_NegotiateSessionDone env msg link = Some (put_state ?st2 link', [])"
    using st fields(4) f r(1,2) ok w(1,2) by (simp add: VSSI_NegotiateSessionDone_def negotiated_view_def)
  moreover have "posts_all (st\<lparr>ss_sign_mode := sm, ss_sign_type := ty, ss_enc_type := enc\<rparr>) x W out out' =
      posts_all ?st x W out out'" for x W out out'
    by (induction W arbitrary: x out) (simp_all add: posts_def sent_as_def fr)
  ultimately show thesis
    using that [of "put_state ?st2 link'" sm ty enc x ?st2 qs' M'] f w(3-5) r(6) by (simp add: outgoing_def)
qed

lemma VSSI_NegotiateSessionDone_ok:
  assumes env: "env_good env" and inv: "link_inv link qs M W" and st: "lk_send_state link = Some st"
    and pending: "ss_negotiated st = NEGOTIATE_PENDING" "cn_connect_state (lk_node link) = CONNECTION_ACTIVE"
    and sent: "cn_send_head (lk_node link) = None" and reply: "\<forall>c\<in>#M. negotiate_reply_ok (pi_xid c) msg"
    and slots: "ss_num_cmd_slots st < 2 ^ 32 - 1" and objects: "lk_objects link \<noteq> []"
  shows "\<exists>link' evs qs' M' W'. VSSI_NegotiateSessionDone env msg link = Some (link', evs) \<and>
     link_inv link' qs' M' W' \<and> answered M W [] evs M' W' \<and> rest link' = rest link"
proof -
  have i: "session_ok (lk_session link)" "node_inv (lk_routes link) (lk_node link)" using inv by (simp_all add: link_inv_def)
  obtain c :: VSSI_PendInfo and st1 where r: "vss_get_xid msg = Some (pi_xid c)" "release_negotiate (pi_xid c) st = Some st1"
    "cmd_view st1 {#} W" "frame st1 = frame st" "node_ok (lk_node link) [] []" "session_facts link st"
    "\<forall>c\<in>set W. waiting_ok c" "ss_server_connection st \<noteq> None" "negotiate_reply_ok (pi_xid c) msg"
    and owed: "\<forall>cb ctx. owed cb ctx M W = owed cb ctx {#} W"
    using negotiation_reply [OF inv st pending sent reply] by metis
  note fr = frame_eq [OF r(4)]
  have len: "56 \<le> length msg" "vss_get_status msg = Some VSSI_AGAIN \<Longrightarrow> 56 + unat (msg ! 55) \<le> length msg"
    using r(9) by (simp_all add: negotiate_reply_ok_def)
  note fields = negotiate_reply_fields [OF len(1)]
  obtain rc where rc: "vss_get_status msg = Some rc" using fields(1) by metis
  note run = VSSI_NegotiateSessionDone_def [of env msg link]
  consider (success) "rc = VSSI_SUCCESS" | (again) "rc \<noteq> VSSI_SUCCESS" "rc = VSSI_AGAIN"
    | (failed) "rc \<noteq> VSSI_SUCCESS" "rc \<noteq> VSSI_AGAIN"
    by auto
  then show ?thesis
  proof cases
    case success
    then obtain x link' st' qs' M' where d: "VSSI_NegotiateSessionDone env msg link = Some (link', [])"
      "negotiated_view link' st' qs' M' []" "rest link' = rest link"
      "image_mset core M' = image_mset core (mset (numbered x W))"
      using negotiation_succeeds [OF env inv st pending sent reply slots] rc by metis
    have "answered M W [] [] M' []"
      using owed_core [OF d(4)] owed_numbered [of _ _ x W] owed by (simp add: answered_def owed_def)
    then show ?thesis using d(1,3) negotiated_view_inv [OF d(2)] by blast
  next
    case again
    have "negotiable (put_state st1 link) W"
      using i r(3,5-7) fr pending by (simp add: negotiable_def session_facts_def quiet_def)
    moreover have "part_ok (Some (drop 56 msg)) (unat (msg ! 55))" using len(2) rc again by (simp add: part_ok_def)
    ultimately obtain link' evs qs' M' W' where n:
      "VSSI_NegotiateSession env (Some (drop 56 msg)) (msg ! 55) (put_state st1 link) = Some (link', evs, VSSI_SUCCESS)"
      "link_inv link' qs' M' W'" "answered {#} W [] evs M' W'" "rest link' = rest (put_state st1 link)"
      using VSSI_NegotiateSession_ok [OF env] by blast
    moreover have "VSSI_NegotiateSessionDone env msg link = Some (link', evs)"
      using st fields rc r(1,2) again n(1) objects by (simp add: run)
    moreover have "answered M W [] evs M' W'" using n(3) owed by (simp add: answered_def)
    ultimately show ?thesis by auto
  next
    case failed
    have "answerable (put_state st1 link) {#} W"
      using i(1) r(3,6-8) fr by (auto simp: answerable_def session_facts_def waiting_ok_def)
    moreover have "quiet (lk_node link)" using r(5) by (simp add: quiet_def)
    ultimately obtain link' evs where g: "give_up rc (put_state st1 link) = Some (link', evs)" "link_inv link' [] {#} []"
      "answered {#} W [] evs {#} []" "rest link' = rest (put_state st1 link)"
      using give_up_ok [of "put_state st1 link" "{#}" W st1 rc] i(2) by auto
    moreover have "VSSI_NegotiateSessionDone env msg link = Some (link', evs)"
      using st fields(4) rc r(1,2) failed g(1) by (simp add: run)
    moreover have "answered M W [] evs {#} []" using g(3) owed by (simp add: answered_def)
    ultimately show ?thesis by auto
  qed
qed

section \<open>The connection made, or lost\<close>

text \<open>Until a server is connected nothing is pending.\<close>

lemma connecting_resting:
  assumes inv: "link_inv link qs M W" and state: "cn_connect_state (lk_node link) \<in> {CONNECTION_CONNECTING, CONNECTION_CONNECTED}"
  shows "M = {#}" and "resting link W" and "fresh_node (lk_node link)" and "qs = []"
proof -
  have node: "node_ok (lk_node link) [] []" "length (cn_connections (lk_node link)) = 1"
    "\<forall>c\<in>set (cn_connections (lk_node link)). vc_send_msg c = None"
    using inv state by (auto simp: link_inv_def node_inv_def)
  then show "fresh_node (lk_node link)" by (simp add: fresh_node_def)
  show "M = {#}"
    using inv state by (auto simp: link_inv_def state_inv_def phase_ok_def split: option.splits negotiated.splits)
  moreover have "phase_ok CONNECTION_CONNECTING st {#} W" if "phase_ok (cn_connect_state (lk_node link)) st {#} W" for st
    using that state by (auto simp: phase_ok_def split: negotiated.splits)
  ultimately show "resting link W"
    using inv by (auto simp: link_inv_def state_inv_def resting_def session_facts_def split: option.splits)
  show "qs = []"
  proof (cases "lk_send_state link")
    case (Some st)
    have "cn_send_head (lk_node link) = None" using node(1) by (simp add: node_ok_def queue_of_def)
    then show ?thesis using inv Some
      by (cases qs) (auto simp: link_inv_def state_inv_def queue_inv_def node_ok_def queue_of_def split: if_splits)
  qed (use inv in \<open>simp add: link_inv_def\<close>)
qed

lemma fresh_connectable:
  "fresh_node node \<Longrightarrow> cn_connect_state node \<in> {CONNECTION_CONNECTING, CONNECTION_CONNECTED} \<Longrightarrow> connectable node"
  by (simp add: fresh_node_def connectable_def)

lemma VSSI_ConnectVSServerDone_ok:
  assumes env: "env_good env" and inv: "link_inv link qs M W"
    and state: "cn_connect_state (lk_node link) \<in> {CONNECTION_CONNECTING, CONNECTION_CONNECTED}"
  shows "\<exists>link' evs qs' M' W'. VSSI_ConnectVSServerDone env rc link = Some (link', evs) \<and>
     link_inv link' qs' M' W' \<and> answered M W [] evs M' W' \<and> rest link' = rest link"
proof -
  note c = connecting_resting [OF inv state]
  show ?thesis
  proof (cases "rc = VSSI_SUCCESS")
    case False
    obtain link' evs where "VSSI_ConnectVSServer env rc link = Some (link', evs)" "connected_or_failed link W link' evs"
      using VSSI_ConnectVSServer_ok [OF env c(2) fresh_connectable [OF c(3) state]] by blast
    then show ?thesis using False c(1) by (auto simp: VSSI_ConnectVSServerDone_def connected_or_failed_def)
  next
    case True
    have i: "session_ok (lk_session link)" "node_inv (lk_routes link) (lk_node link)" using inv by (simp_all add: link_inv_def)
    have bounds: "0 < cn_route_id (lk_node link)" "cn_route_id (lk_node link) \<le> int (length (lk_routes link))"
      using i(2) state by (auto simp: node_inv_def)
    obtain route where route: "used_route link = Some route" using bounds by (simp add: used_route_def Let_def)
    have one: "cn_connections (lk_node link) \<noteq> []" using c(3) by (auto simp: fresh_node_def)
    let ?node = "upd_first (\<lambda>c. c\<lparr>vc_connected := True\<rparr>)
        ((lk_node link)\<lparr>cn_type := route, cn_connect_state := CONNECTION_ACTIVE\<rparr>)"
    let ?link1 = "put_node ?node link"
    have fresh: "fresh_node ?node" using c(3) by (intro fresh_node_upd_first) simp_all
    then have node: "node_ok ?node [] []" "node_inv (lk_routes link) ?node"
      by (simp_all add: fresh_node_def node_inv_def)
    have quiet: "quiet ?node" using node(1) by (simp add: quiet_def)
    show ?thesis
    proof (cases "lk_send_state link")
      case None
      then have "link_inv ?link1 [] {#} []" using i(1) node(2) quiet by (simp add: link_inv_def)
      moreover have "W = []" using c(2) None by (simp add: resting_def)
      moreover have "VSSI_ConnectVSServerDone env rc link = Some (?link1, [])"
        using True route one None by (simp add: VSSI_ConnectVSServerDone_def)
      ultimately show ?thesis using c(1) by (metis answered_none rest_simps(2))
    next
      case (Some st)
      then have r: "cmd_view st {#} W" "session_facts link st" "\<forall>c\<in>set W. waiting_ok c" "phase_ok CONNECTION_CONNECTING st {#} W"
        using c(2) by (simp_all add: resting_def)
      show ?thesis
      proof (cases "ss_server_connection st = None")
        case True
        then have needed: "ss_negotiated st = NEGOTIATE_NEEDED" "W = []"
          using r(4) by (auto simp: phase_ok_def split: negotiated.splits)
        then have "link_inv ?link1 [] {#} []"
          using i(1) node(2) quiet True Some r
          by (simp add: link_inv_def state_inv_def session_facts_def phase_ok_def queue_inv_def)
        moreover have "VSSI_ConnectVSServerDone env rc link = Some (?link1, [])"
          using \<open>rc = VSSI_SUCCESS\<close> route one Some True by (simp add: VSSI_ConnectVSServerDone_def)
        ultimately show ?thesis using c(1) needed(2) by (metis answered_none rest_simps(2))
      next
        case False
        then have "ss_negotiated st = NEGOTIATE_PENDING"
          using r(4) by (auto simp: phase_ok_def split: negotiated.splits)
        then have "negotiable ?link1 W"
          using i(1) node(2) quiet Some r by (simp add: negotiable_def session_facts_def)
        moreover have "part_ok None (unat (0 :: u8))" by (simp add: part_ok_def)
        ultimately obtain link' evs qs' M' W' where n: "VSSI_NegotiateSession env None 0 ?link1 = Some (link', evs, VSSI_SUCCESS)"
          "link_inv link' qs' M' W'" "answered {#} W [] evs M' W'" "rest link' = rest ?link1"
          using VSSI_NegotiateSession_ok [OF env] by blast
        moreover have "VSSI_ConnectVSServerDone env rc link = Some (link', evs)"
          using \<open>rc = VSSI_SUCCESS\<close> route one Some False n(1)
          by (simp add: VSSI_ConnectVSServerDone_def del: not_None_eq)
        ultimately show ?thesis using c(1) by auto
      qed
    qed
  qed
qed

lemma answerable_cong:
  "lk_session link' = lk_session link \<Longrightarrow> lk_cluster link' = lk_cluster link \<Longrightarrow>
     lk_send_state link' = lk_send_state link \<Longrightarrow> answerable link' M W = answerable link M W"
  by (cases "lk_send_state link") (simp_all add: answerable_def session_facts_def)

lemma link_inv_objects [simp]: "link_inv (link\<lparr>lk_objects := obs\<rparr>) qs M W = link_inv link qs M W"
  by (simp add: link_inv_def state_inv_def split: option.split)

text \<open>A connection nothing is pending on, of a server that is not lost: only notifications end.\<close>

lemma lost_nothing:
  assumes inv: "link_inv link qs {#} W" and alive: "cn_connect_state (lk_node link) \<noteq> CONNECTION_FAILED"
  shows "\<exists>link' evs. lost_send_states (Some p) rc link = Some (link', evs) \<and> link_inv link' qs {#} W \<and>
     answered {#} W [] evs {#} W \<and> rest link' = rest link"
proof -
  let ?objects = "map (cancel_notify (Some p)) (lk_objects link)"
  let ?link0 = "link\<lparr>lk_objects := map fst ?objects\<rparr>" and ?evs0 = "concat (map snd ?objects)"
  have "length (cn_connections (lk_node link)) = 1" using inv alive by (simp add: link_inv_def node_inv_def)
  then have conns: "cn_connections (lk_node link) \<noteq> []" by auto
  have evs0: "answered {#} W [] ?evs0 {#} W" using cancel_notify_calls by (simp add: answered_def)
  show ?thesis
  proof (cases "lk_send_state link")
    case None
    then show ?thesis using inv evs0 by (simp add: lost_send_states_def Let_def comp_def)
  next
    case (Some st)
    then have v: "cmd_view st {#} W" using inv by (simp add: link_inv_def state_inv_def)
    have same: "put_state st ?link0 = ?link0" using Some by (simp add: put_state_def)
    have "lost_send_states (Some p) rc link = Some (?link0, ?evs0)"
      using Some conns alive reply_nothing [OF v] same
      by (cases "ss_server_connection st = None")
        (simp_all add: lost_send_states_def Let_def comp_def settled_def del: not_None_eq)
    then show ?thesis using inv evs0 by simp
  qed
qed

lemma VSSI_HandleLostConnection_ok:
  assumes env: "env_good env" and inv: "link_inv link qs M W" and i: "i < length (cn_connections (lk_node link))"
    and state: "cn_connect_state (lk_node link) \<notin> {CONNECTION_DISCONNECTED, CONNECTION_CONNECTING}"
    and rc: "rc \<noteq> VSSI_SUCCESS"
  shows "\<exists>link' evs qs' M' W'. VSSI_HandleLostConnection env (Some i) rc link = Some (link', evs) \<and>
     link_inv link' qs' M' W' \<and> answered M W [] evs M' W' \<and> rest link' = rest link"
proof -
  let ?connection = "cn_connections (lk_node link) ! i"
  let ?conns = "take i (cn_connections (lk_node link)) @ drop (Suc i) (cn_connections (lk_node link))"
  let ?node = "(lk_node link)\<lparr>cn_connections := ?conns\<rparr>"
  let ?close = "case vc_conn_id ?connection of None \<Rightarrow> [] | Some socket \<Rightarrow> [Socket_Close socket]"
  have close: "net_calls cb ctx ?close = 0" for cb ctx by (simp split: option.split)
  let ?failed = "\<lambda>link1. if cn_connections (lk_node link1) = []
      then put_node ((lk_node link1)\<lparr>cn_connect_state := CONNECTION_FAILED\<rparr>) link1 else link1"
  have run: "VSSI_HandleLostConnection env (Some i) rc link = Some (link', evs1 @ ?close @ evs3)"
    if "(if cn_connect_state (lk_node link) = CONNECTION_CONNECTED
         then VSSI_ConnectVSServerDone env rc (put_node ?node link) else Some (put_node ?node link, [])) = Some (link1, evs1)"
      and "lost_send_states (Some (vc_addr ?connection)) rc (?failed link1) = Some (link', evs3)" for link1 evs1 link' evs3
    using that by (simp add: VSSI_HandleLostConnection_def Let_def)
  have single: "?conns = []" if "cn_connect_state (lk_node link) \<noteq> CONNECTION_FAILED"
    using inv that i by (auto simp: link_inv_def node_inv_def)
  have once: "\<exists>link' evs qs' M' W'. VSSI_HandleLostConnection env (Some i) rc link = Some (link', evs) \<and>
     link_inv link' qs' M' W' \<and> answered M W [] evs M' W' \<and> rest link' = rest link"
    if "cn_connect_state (lk_node link) \<noteq> CONNECTION_CONNECTED"
      and f: "cn_connect_state (lk_node (?failed (put_node ?node link))) = CONNECTION_FAILED"
      and closed: "\<forall>c\<in>set ?conns. vc_conn_id c = None"
  proof -
    let ?link2 = "?failed (put_node ?node link)"
    have same: "rest ?link2 = rest link" "lk_send_state ?link2 = lk_send_state link" by simp_all
    have "answerable ?link2 M W"
      using answerable_cong [of ?link2 link M W] rest_eq [OF same(1)] same(2) link_inv_answerable [OF inv] by simp
    moreover have "\<forall>c\<in>set (cn_connections (lk_node ?link2)). vc_conn_id c = None" using closed by simp
    ultimately obtain link' evs where l: "lost_send_states (Some (vc_addr ?connection)) rc ?link2 = Some (link', evs)"
      "link_inv link' [] {#} []" "answered M W [] evs {#} []" "rest link' = rest ?link2"
      using lost_failed [OF _ f] by metis
    have "answered M W [] ([] @ ?close @ evs) {#} []" using l(3) close by (simp add: answered_def)
    moreover have "VSSI_HandleLostConnection env (Some i) rc link = Some (link', [] @ ?close @ evs)"
      using that(1) by (intro run [OF _ l(1)]) simp
    moreover have "rest link' = rest link" using l(4) same(1) by (rule trans)
    ultimately show ?thesis using l(2) by blast
  qed
  consider (connected) "cn_connect_state (lk_node link) = CONNECTION_CONNECTED"
    | (active) "cn_connect_state (lk_node link) = CONNECTION_ACTIVE"
    | (failed) "cn_connect_state (lk_node link) = CONNECTION_FAILED"
    using state by (cases "cn_connect_state (lk_node link)") auto
  then show ?thesis
  proof cases
    case active
    with single show ?thesis by (intro once) auto
  next
    case failed
    then have "\<forall>c\<in>set (cn_connections (lk_node link)). vc_conn_id c = None"
      using inv by (simp add: link_inv_def node_inv_def)
    then have "\<forall>c\<in>set ?conns. vc_conn_id c = None" by (auto dest: in_set_takeD in_set_dropD)
    with failed show ?thesis by (intro once) simp_all
  next
    case connected
    then have state': "cn_connect_state (lk_node link) \<in> {CONNECTION_CONNECTING, CONNECTION_CONNECTED}" by simp
    note c = connecting_resting [OF inv state']
    have conns: "?conns = []" using single connected by simp
    have "connectable (lk_node (put_node ?node link))"
      using c(3) conns connected by (auto simp: connectable_def fresh_node_def node_ok_def queue_of_def)
    moreover have "resting (put_node ?node link) W" using resting_cong [of "put_node ?node link" link W] c(2) by simp
    ultimately obtain link1 evs1 where co: "VSSI_ConnectVSServer env rc (put_node ?node link) = Some (link1, evs1)"
      "connected_or_failed (put_node ?node link) W link1 evs1"
      using VSSI_ConnectVSServer_ok [OF env] by blast
    then obtain W1 where W1: "link_inv link1 [] {#} W1" "answered {#} W [] evs1 {#} W1" "rest link1 = rest link"
      by (auto simp: connected_or_failed_def)
    have "\<exists>link' evs W'. lost_send_states (Some (vc_addr ?connection)) rc (?failed link1) = Some (link', evs) \<and>
        link_inv link' [] {#} W' \<and> answered {#} W1 [] evs {#} W' \<and> rest link' = rest link1"
    proof (cases "cn_connect_state (lk_node link1) = CONNECTION_FAILED")
      case True
      define link2 where "link2 = ?failed link1"
      have "\<forall>c\<in>set (cn_connections (lk_node link1)). vc_conn_id c = None"
        using W1(1) True by (simp add: link_inv_def node_inv_def)
      then have f: "\<forall>c\<in>set (cn_connections (lk_node link2)). vc_conn_id c = None"
        "cn_connect_state (lk_node link2) = CONNECTION_FAILED" "rest link2 = rest link1"
        using True by (simp_all add: link2_def)
      have "answerable link2 {#} W1"
        using answerable_cong [of link2 link1 "{#}" W1] link_inv_answerable [OF W1(1)] by (simp add: link2_def)
      then obtain link' evs where l: "lost_send_states (Some (vc_addr ?connection)) rc link2 = Some (link', evs)"
        "link_inv link' [] {#} []" "answered {#} W1 [] evs {#} []" "rest link' = rest link2"
        using lost_failed [OF _ f(2,1)] by blast
      show ?thesis unfolding link2_def [symmetric] using l(1-3) l(4) [unfolded f(3)] by blast
    next
      case False
      then have same: "?failed link1 = link1" using W1(1) by (auto simp: link_inv_def node_inv_def)
      show ?thesis unfolding same using lost_nothing [OF W1(1) False, of "vc_addr ?connection" rc] by blast
    qed
    then obtain link' evs W' where l: "lost_send_states (Some (vc_addr ?connection)) rc (?failed link1) = Some (link', evs)"
      "link_inv link' [] {#} W'" "answered {#} W1 [] evs {#} W'" "rest link' = rest link1"
      by blast
    have "answered {#} W [] (evs1 @ ?close @ evs) {#} W'"
      using answered_append [OF W1(2), of "[]" "?close @ evs" "{#}" W'] l(3) close by (simp add: answered_def)
    moreover have "VSSI_HandleLostConnection env (Some i) rc link = Some (link', evs1 @ ?close @ evs)"
      using co(1) connected rc by (intro run [OF _ l(1)]) (simp add: VSSI_ConnectVSServerDone_def)
    ultimately show ?thesis using l(2,4) W1(3) c(1) by auto
  qed
qed

end
