(* ===== verification/Vssi_Receive_Correct.thy ===== *)
theory Vssi_Receive_Correct
  imports Vssi_Receive Vssi_Session_Correct
begin

text \<open>
  What a reply and a ready socket do to a session (\<open>Vssi_Dispatch\<close>, \<open>Vssi_Receive\<close>): the invariant of
  \<open>Vssi_Link_Correct\<close> is kept, and the command a reply is for is answered.
\<close>

section \<open>What the invariant depends on\<close>

definition conn_key :: "VSSI_VSConnection \<Rightarrow> ptr \<times> bool \<times> VSSI_MsgBuffer option \<times> nat" where
  "conn_key c = (vc_conn_id c, vc_enable_send c, vc_send_msg c, vc_sent_so_far c)"

definition node_key ::
  "VSSI_VSConnectionNode \<Rightarrow> connect_state \<times> int \<times> ptr \<times> ptr \<times> (ptr \<times> bool \<times> VSSI_MsgBuffer option \<times> nat) list" where
  "node_key node = (cn_connect_state node, cn_route_id node, cn_send_head node, cn_send_tail node,
     map conn_key (cn_connections node))"

definition link_key :: "vs_link \<Rightarrow> _" where
  "link_key link = (rest link, lk_send_state link, node_key (lk_node link))"

lemma conn_ok_key:
  "conn_ok c = (case conn_key c of (i, e, m, s) \<Rightarrow> case m of None \<Rightarrow> s = 0
     | Some x \<Rightarrow> msg_ok x \<and> s < msg_length x \<and> e \<and> i \<noteq> None)"
  "idle c = (case conn_key c of (i, e, m, s) \<Rightarrow> i \<noteq> None \<and> m = None)"
  by (simp_all add: conn_ok_def idle_def conn_key_def split: option.split)

lemma list_all_key:
  assumes "map conn_key cs' = map conn_key cs"
  shows "list_all (\<lambda>c. P (conn_key c)) cs' = list_all (\<lambda>c. P (conn_key c)) cs"
proof -
  have "list_all (\<lambda>c. P (conn_key c)) xs = list_all P (map conn_key xs)" for xs by (simp add: list_all_iff)
  then show ?thesis using assms by metis
qed

lemma node_key_eq:
  assumes "node_key node' = node_key node"
  shows "node_ok node' m qs = node_ok node m qs" and "quiet node' = quiet node"
    and "node_inv routes node' = node_inv routes node" and "cn_connect_state node' = cn_connect_state node"
    and "cn_send_head node' = cn_send_head node" and "length (cn_connections node') = length (cn_connections node)"
proof -
  have cs: "map conn_key (cn_connections node') = map conn_key (cn_connections node)"
    and s: "cn_connect_state node' = cn_connect_state node" "cn_route_id node' = cn_route_id node"
      "cn_send_head node' = cn_send_head node" "cn_send_tail node' = cn_send_tail node"
    using assms by (simp_all add: node_key_def)
  show l: "length (cn_connections node') = length (cn_connections node)" using cs by (rule map_eq_imp_length_eq)
  have "list_all conn_ok (cn_connections node') = list_all conn_ok (cn_connections node)"
    "list_all (\<lambda>c. \<not> idle c) (cn_connections node') = list_all (\<lambda>c. \<not> idle c) (cn_connections node)"
    unfolding conn_ok_key
    using list_all_key [OF cs, of "\<lambda>(i, e, m, s). case m of None \<Rightarrow> s = 0
       | Some x \<Rightarrow> msg_ok x \<and> s < msg_length x \<and> e \<and> i \<noteq> None"]
      list_all_key [OF cs, of "\<lambda>k. \<not> (case k of (i, e, m, s) \<Rightarrow> i \<noteq> None \<and> m = None)"]
    by simp_all
  then have ok: "node_ok node' m qs = node_ok node m qs" for m qs using s by (simp add: node_ok_def queue_of_def)
  then show "node_ok node' m qs = node_ok node m qs" .
  show "quiet node' = quiet node" using ok s by (simp add: quiet_def)
  have "list_all (\<lambda>c. vc_conn_id c = None) (cn_connections node') = list_all (\<lambda>c. vc_conn_id c = None) (cn_connections node)"
    "list_all (\<lambda>c. vc_send_msg c = None) (cn_connections node') = list_all (\<lambda>c. vc_send_msg c = None) (cn_connections node)"
    using list_all_key [OF cs, of "\<lambda>k. fst k = None"] list_all_key [OF cs, of "\<lambda>k. fst (snd (snd k)) = None"]
    by (simp_all add: conn_key_def)
  then show "node_inv routes node' = node_inv routes node" using ok s l by (simp add: node_inv_def list_all_iff)
  show "cn_connect_state node' = cn_connect_state node" "cn_send_head node' = cn_send_head node" using s by simp_all
qed

lemma link_inv_key:
  assumes "link_key link' = link_key link"
  shows "link_inv link' qs M W = link_inv link qs M W"
proof -
  have n: "node_key (lk_node link') = node_key (lk_node link)" and s: "lk_send_state link' = lk_send_state link"
    and r: "rest link' = rest link"
    using assms by (simp_all add: link_key_def)
  have "state_inv link' st qs M W = state_inv link st qs M W" for st
    using node_key_eq(1,2,4) [OF n] rest_eq [OF r] by (simp add: state_inv_def queue_inv_def)
  then show ?thesis using node_key_eq(2,3) [OF n] s rest_eq [OF r] by (simp add: link_inv_def split: option.split)
qed

text \<open>Results, notifications and what resolving frees leave it alone.\<close>

lemma link_key_conns:
  assumes "\<And>c. conn_key (f c) = conn_key c"
  shows "link_key (put_node ((lk_node link)\<lparr>cn_connections := map f (cn_connections (lk_node link))\<rparr>) link) = link_key link"
  using assms by (simp add: link_key_def node_key_def)

lemma link_key_upd [simp]:
  "link_key (upd_object a f link) = link_key link" "link_key (put_file b v link) = link_key link"
  "link_key (upd_mem g link) = link_key link" "link_key (put_word p w link) = link_key link"
  "link_key (suspend_timeout q n link) = link_key link" "link_key (link\<lparr>lk_objects := obs\<rparr>) = link_key link"
  by (auto simp: link_key_def rest_def upd_object_def put_file_def upd_mem_def put_word_def suspend_timeout_def
      put_node_def node_key_def conn_key_def split: option.split)

lemma link_key_settle [simp]: "link_key (settle evs link) = link_key link"
  using settle_rest [of evs link] by (simp add: link_key_def)

lemma link_key_upd_conn:
  assumes "\<And>c. conn_key (f c) = conn_key c"
  shows "link_key (upd_conn i f link) = link_key link"
proof -
  have "map conn_key ((cn_connections (lk_node link))[i := f (cn_connections (lk_node link) ! i)]) =
      map conn_key (cn_connections (lk_node link))"
    by (cases "i < length (cn_connections (lk_node link))")
      (simp_all add: map_update assms list_update_same_conv list_update_beyond)
  then show ?thesis by (simp add: upd_conn_def link_key_def node_key_def)
qed

lemma link_key_state: "link_key link1 = link_key link \<Longrightarrow> link_key (put_state st link1) = link_key (put_state st link)"
  by (simp add: link_key_def)

section \<open>Replies\<close>

text \<open>Handlers that work on an object.\<close>

lemma on_object_key: "on_object p h link = Some (rc, out, link1) \<Longrightarrow> link_key link1 = link_key link"
  by (auto simp: on_object_def elim!: bind_eq_SomeE)

lemma end_notify_key: "end_notify a link = Some link1 \<Longrightarrow> link_key link1 = link_key link"
  by (auto simp: end_notify_def elim!: bind_eq_SomeE split: if_splits)

lemma begin_notify_key: "begin_notify i a r link = Some link1 \<Longrightarrow> link_key link1 = link_key link"
  by (auto simp: begin_notify_def Let_def elim!: bind_eq_SomeE)

lemmas reply_defs = open_reply_def close_reply_def version_reply_def read_reply_def write_reply_def
  read_dir_reply_def stat_reply_def stat2_reply_def read_trashcan_reply_def get_space_reply_def

lemma object_reply_key:
  "open_reply reply cmd link = Some (rc, link1) \<Longrightarrow> link_key link1 = link_key link"
  "close_reply reply cmd link = Some (rc, link1) \<Longrightarrow> link_key link1 = link_key link"
  "version_reply reply cmd link = Some (rc, link1) \<Longrightarrow> link_key link1 = link_key link"
  "read_reply reply cmd link = Some (rc, link1) \<Longrightarrow> link_key link1 = link_key link"
  "write_reply reply cmd link = Some (rc, link1) \<Longrightarrow> link_key link1 = link_key link"
  "read_dir_reply env reply n cmd link = Some (rc, link1) \<Longrightarrow> link_key link1 = link_key link"
  "stat_reply env reply cmd link = Some (rc, link1) \<Longrightarrow> link_key link1 = link_key link"
  "stat2_reply env reply cmd link = Some (rc, link1) \<Longrightarrow> link_key link1 = link_key link"
  "read_trashcan_reply env reply cmd link = Some (rc, link1) \<Longrightarrow> link_key link1 = link_key link"
  "get_space_reply reply cmd link = Some (rc, link1) \<Longrightarrow> link_key link1 = link_key link"
  by (auto simp: reply_defs Let_def dest!: on_object_key elim!: bind_eq_SomeE split: if_splits prod.splits)

lemma file_reply_key:
  "open_file_reply reply cmd link = Some (rc, link1) \<Longrightarrow> link_key link1 = link_key link"
  "read_file_reply reply cmd link = Some (rc, link1) \<Longrightarrow> link_key link1 = link_key link"
  "write_file_reply reply cmd link = Some (rc, link1) \<Longrightarrow> link_key link1 = link_key link"
  "get_lock_reply reply cmd link = Some (rc, link1) \<Longrightarrow> link_key link1 = link_key link"
  "get_notify_reply reply cmd link = Some (rc, link1) \<Longrightarrow> link_key link1 = link_key link"
  "set_notify_reply i reply cmd link = Some (rc, link1) \<Longrightarrow> link_key link1 = link_key link"
  "plain_reply r link = Some (rc, link1) \<Longrightarrow> link_key link1 = link_key link"
  by (auto simp: open_file_reply_def read_file_reply_def write_file_reply_def get_lock_reply_def get_notify_reply_def
      set_notify_reply_def plain_reply_def Let_def dest!: end_notify_key begin_notify_key elim!: bind_eq_SomeE
      split: if_splits prod.splits option.splits)

lemma close_file_reply_key:
  assumes "close_file_reply reply a st link = Some (rc, link1)"
  obtains del where "link_key link1 = link_key (put_state (upd_cmd a (\<lambda>c. c\<lparr>pi_delete_filestate_when := del\<rparr>) st) link)"
  using assms by (auto simp: close_file_reply_def Let_def elim!: bind_eq_SomeE dest!: on_object_key intro: link_key_state)

lemma dispatch_reply_key:
  assumes "dispatch_reply env i k reply a st link = Some (rc, link1)"
  obtains (same) "link_key link1 = link_key link"
  | (close) del where "link_key link1 = link_key (put_state (upd_cmd a (\<lambda>c. c\<lparr>pi_delete_filestate_when := del\<rparr>) st) link)"
proof (cases "k = VSS_CLOSE_FILE_REPLY")
  case True
  then have "close_file_reply reply a st link = Some (rc, link1)"
    using assms by (simp add: dispatch_reply_def Let_def version_replies_def)
  then show thesis using close close_file_reply_key by metis
next
  case False
  have "link_key link1 = link_key link"
    using assms False unfolding dispatch_reply_def Let_def
    by (simp only: refl if_False split: if_split_asm) (auto dest: object_reply_key file_reply_key)
  then show thesis by (rule same)
qed

section \<open>The end of a command\<close>

lemma slot_upd_cmd:
  assumes "\<And>c. pi_xid (f c) = pi_xid c"
  shows "VSSI_GetVSCommandSlot (upd_cmd a f st) xid = VSSI_GetVSCommandSlot st xid"
proof -
  have "slot_has (upd_cmd a f st) xid = slot_has st xid"
    by (rule ext) (simp add: slot_has_def cmds_upd_cmd assms split: option.split)
  then show ?thesis by (simp add: VSSI_GetVSCommandSlot_def VSSI_GetCommandSlotUnlocked_def Let_def cong: if_cong)
qed

lemma complete_ok:
  assumes v: "cmd_view st M W" and a: "VSSI_GetVSCommandSlot st xid = Some (Some a)" "a \<notin> set qs"
    and q: "node_ok node (ss_cmds st) qs" "set qs \<subseteq> set (pend_addrs st)"
  obtains st' c M' where "complete_command xid rc st = Some (st', VSSI_ResolveCommand c rc)" and "M = add_mset c M'"
    and "cmd_view st' M' W" and "frame st' = frame st" and "node_ok node (ss_cmds st') qs" and "set qs \<subseteq> set (pend_addrs st')"
    and "ss_seq_id st' = ss_seq_id st"
proof -
  have xid: "xid \<in># image_mset pi_xid M" using VSSI_GetVSCommandSlot_view [OF v, of xid] a(1) by (auto split: if_splits)
  obtain c M' st' where c: "M = add_mset c M'" "complete_command xid rc st = Some (st', VSSI_ResolveCommand c rc)"
    "cmd_view st' M' W" "ss_seq_id st' = ss_seq_id st"
    using complete_command_view [OF v xid, of rc] by metis
  obtain slot where slot: "VSSI_GetCommandSlotUnlocked st xid = Some slot" "0 \<le> slot" "nat slot < ss_num_cmd_slots st"
    "ss_table st ! nat slot = Some a"
    using VSSI_GetVSCommandSlot_view [OF v, of xid] xid a(1) by auto
  have st': "st' = release_cmd a (st\<lparr>ss_table := (ss_table st)[nat slot := None]\<rparr>)"
    using c(2) a(1) slot by (simp add: complete_command_def)
  have k: "kept (set qs) st st'" unfolding st' by (rule clear_kept [OF v slot(3,4) q(2) a(2)])
  show thesis using c queue_kept [OF q(1) k c(3)] by (intro that [of st' c M']) (simp_all add: st')
qed

text \<open>Closing a file writes the command it completes; otherwise the table is left alone.\<close>

lemma delete_when_view:
  fixes del :: int
  defines "f \<equiv> \<lambda>c. c\<lparr>pi_delete_filestate_when := del\<rparr>"
  assumes v: "cmd_view st M W" and a: "VSSI_GetVSCommandSlot st xid = Some (Some a)" "a \<notin> set qs"
    and q: "node_ok node (ss_cmds st) qs" "set qs \<subseteq> set (pend_addrs st)"
  obtains M1 where "cmd_view (upd_cmd a f st) M1 W" and "image_mset pi_xid M1 = image_mset pi_xid M"
    and "\<And>cb ctx. owed cb ctx M1 W = owed cb ctx M W" and "(\<forall>c\<in>#M1. silent_negotiate c) = (\<forall>c\<in>#M. silent_negotiate c)"
    and "node_ok node (ss_cmds (upd_cmd a f st)) qs" and "set qs \<subseteq> set (pend_addrs (upd_cmd a f st))"
    and "VSSI_GetVSCommandSlot (upd_cmd a f st) xid = Some (Some a)"
proof -
  have "xid \<in># image_mset pi_xid M" using VSSI_GetVSCommandSlot_view [OF v, of xid] a(1) by (auto split: if_splits)
  then obtain slot where slot: "nat slot < ss_num_cmd_slots st" "ss_table st ! nat slot = Some a"
    using VSSI_GetVSCommandSlot_view [OF v, of xid] a(1) by auto
  obtain M0 where M0: "M = add_mset (ss_cmds st ! a) M0" "cmd_view (upd_cmd a f st) (add_mset (f (ss_cmds st ! a)) M0) W"
    using write_pending_view [OF v slot, of f] by auto
  have "node_ok node (ss_cmds (upd_cmd a f st)) qs \<and> set qs \<subseteq> set (pend_addrs (upd_cmd a f st))"
    by (rule queue_kept [OF q(1) upd_cmd_kept M0(2)]) (use a(2) q(2) in auto)
  moreover have "VSSI_GetVSCommandSlot (upd_cmd a f st) xid = Some (Some a)" using a(1) slot_upd_cmd [of f a st xid] by (simp add: f_def)
  ultimately show thesis using M0
    by (intro that [of "add_mset (f (ss_cmds st ! a)) M0"])
      (simp_all add: f_def owed_def wants_def silent_negotiate_def)
qed

lemma handle_reply_ok:
  assumes inv: "link_inv link qs M W" and st: "lk_send_state link = Some st" "ss_negotiated st = NEGOTIATE_DONE"
    and reply: "vss_get_command reply = Some k" "vss_get_xid reply = Some xid"
    and a: "VSSI_GetVSCommandSlot st xid = Some (Some a)" "pi_msg (ss_cmds st ! a) = None"
    and d: "dispatch_reply env i k reply a st link = Some (rc, link1)"
  shows "\<exists>link' evs M'. handle_reply env i reply a st link = Some (link', evs) \<and> link_inv link' qs M' W \<and>
     answered M W [] evs M' W \<and> rest link' = rest link"
proof -
  have i: "session_ok (lk_session link)" "node_inv (lk_routes link) (lk_node link)" "state_inv link st qs M W"
    using inv st(1) by (simp_all add: link_inv_def)
  then have v: "cmd_view st M W" and ids: "\<forall>x. count (image_mset pi_xid M) x \<le> 1"
    and silent: "\<forall>c\<in>#M. silent_negotiate c" and server: "ss_server_connection st \<noteq> None"
    and q: "node_ok (lk_node link) (ss_cmds st) qs" "set qs \<subseteq> set (pend_addrs st)"
    using st(2) by (auto simp: state_inv_def phase_ok_def queue_inv_def)
  have aq: "a \<notin> set qs" using q(1) a(2) has_msg_Some by (auto simp: node_ok_def)
  obtain st1 M1 where st1: "lk_send_state link1 = Some st1" "rest link1 = rest link" "node_key (lk_node link1) = node_key (lk_node link)"
    "frame st1 = frame st" "cmd_view st1 M1 W" "image_mset pi_xid M1 = image_mset pi_xid M"
    "\<And>cb ctx. owed cb ctx M1 W = owed cb ctx M W" "\<forall>c\<in>#M1. silent_negotiate c"
    "node_ok (lk_node link) (ss_cmds st1) qs" "set qs \<subseteq> set (pend_addrs st1)"
    "VSSI_GetVSCommandSlot st1 xid = Some (Some a)"
  proof (rule dispatch_reply_key [OF d])
    assume "link_key link1 = link_key link"
    then show thesis using st(1) v silent q a(1) by (intro that [of st M]) (simp_all add: link_key_def)
  next
    fix del
    assume key: "link_key link1 = link_key (put_state (upd_cmd a (\<lambda>c. c\<lparr>pi_delete_filestate_when := del\<rparr>) st) link)"
    show thesis
      by (rule delete_when_view [OF v a(1) aq q, of del], rule that)
        (use key silent in \<open>auto simp: link_key_def\<close>)
  qed
  obtain st2 c M2 where c: "complete_command xid rc st1 = Some (st2, VSSI_ResolveCommand c rc)" "M1 = add_mset c M2"
    "cmd_view st2 M2 W" "frame st2 = frame st1" "node_ok (lk_node link) (ss_cmds st2) qs" "set qs \<subseteq> set (pend_addrs st2)"
    using complete_ok [OF st1(5,11) aq st1(9,10)] by metis
  let ?link' = "settle (VSSI_ResolveCommand c rc) (put_state st2 link1)"
  have fr: "frame st2 = frame st" using c(4) st1(4) by simp
  have "count (image_mset pi_xid M2) x \<le> 1" for x
    using ids [rule_format, of x] st1(6) [symmetric] c(2) by (simp split: if_splits)
  then have "state_inv (put_state st2 link) st2 qs M2 W"
    using i(3) c st1(8) st fr frame_eq [OF fr] server
    by (auto simp: state_inv_def phase_ok_def queue_inv_def)
  then have "link_inv (put_state st2 link) qs M2 W" using i(1,2) by (simp add: link_inv_def)
  moreover have "link_key ?link' = link_key (put_state st2 link)"
    using st1(2,3) settle_rest [of "VSSI_ResolveCommand c rc" "put_state st2 link1"] by (simp add: link_key_def)
  ultimately have "link_inv ?link' qs M2 W" using link_inv_key by metis
  moreover have "handle_reply env i reply a st link = Some (?link', map Command_Event (VSSI_ResolveCommand c rc))"
    using reply d st1(1) c(1) by (simp add: handle_reply_def settled_def)
  moreover have "owed cb ctx M W = calls cb ctx (VSSI_ResolveCommand c rc) + owed cb ctx M2 W" for cb ctx
    using st1(7) [of cb ctx, symmetric] c(2) calls_resolve [of cb ctx c rc] by (simp add: owed_def)
  then have "answered M W [] (map Command_Event (VSSI_ResolveCommand c rc)) M2 W" by (simp add: answered_def)
  moreover have "rest ?link' = rest link" using settle_rest(1) st1(2) by simp
  ultimately show ?thesis by blast
qed

section \<open>A message\<close>

text \<open>
  What is asked of a message of the server: it is long enough to be read, a reply to a negotiation
  answers the one that was sent, and a reply to a command comes after the command left the queue.
\<close>

definition answers :: "vs_env \<Rightarrow> nat \<Rightarrow> buffer \<Rightarrow> vs_link \<Rightarrow> VSSI_SendState \<Rightarrow> u8 \<Rightarrow> u32 \<Rightarrow> bool" where
  "answers env i reply link st command xid \<longleftrightarrow>
     (if ss_negotiated st = NEGOTIATE_PENDING
      then cn_send_head (lk_node link) = None \<and> ss_num_cmd_slots st < 2 ^ 32 - 1 \<and> lk_objects link \<noteq> [] \<and>
        negotiate_reply_ok xid reply \<and> VSSI_GetVSCommandSlot st xid \<noteq> Some None
      else if command = VSS_NOTIFICATION then take_notification i reply link \<noteq> None
      else case VSSI_GetVSCommandSlot st xid of
          Some (Some a) \<Rightarrow> pi_msg (ss_cmds st ! a) = None \<and> dispatch_reply env i command reply a st link \<noteq> None
        | _ \<Rightarrow> True)"

definition expected :: "vs_env \<Rightarrow> nat \<Rightarrow> buffer \<Rightarrow> vs_link \<Rightarrow> bool" where
  "expected env i reply link \<longleftrightarrow>
     (if cn_connect_state (lk_node link) = CONNECTION_CONNECTED then vss_get_status reply \<noteq> None
      else cn_connect_state (lk_node link) = CONNECTION_ACTIVE \<and>
        (case (lk_send_state link, vss_get_command reply, vss_get_xid reply) of
           (Some st, Some command, Some xid) \<Rightarrow> answers env i reply link st command xid
         | _ \<Rightarrow> False))"

lemma take_notification_key:
  assumes "take_notification i reply link = Some (link', evs)"
  shows "link_key link' = link_key link" and "net_calls cb ctx evs = 0"
proof -
  have "link_key (upd_conn i (\<lambda>c. c\<lparr>vc_cmds_outstanding := vc_cmds_outstanding c + 1\<rparr>) link) = link_key link"
    by (rule link_key_upd_conn) (simp add: conn_key_def)
  then show "link_key link' = link_key link" and "net_calls cb ctx evs = 0"
    using assms by (auto simp: take_notification_def Let_def elim!: bind_eq_SomeE split: if_splits option.splits)
qed

lemma link_key_rest: "link_key link' = link_key link \<Longrightarrow> rest link' = rest link"
  by (simp add: link_key_def)

lemma expected_negotiation:
  assumes inv: "link_inv link qs M W" and st: "lk_send_state link = Some st" "ss_negotiated st = NEGOTIATE_PENDING"
    and active: "cn_connect_state (lk_node link) = CONNECTION_ACTIVE" and ex: "expected env i reply link"
  shows "cn_send_head (lk_node link) = None" and "ss_num_cmd_slots st < 2 ^ 32 - 1" and "lk_objects link \<noteq> []"
    and "\<forall>c\<in>#M. negotiate_reply_ok (pi_xid c) reply"
    and "handle_message env i reply link = VSSI_NegotiateSessionDone env reply link"
proof -
  have si: "state_inv link st qs M W" using inv st(1) by (simp add: link_inv_def)
  then have v: "cmd_view st M W" by (simp add: state_inv_def)
  obtain command xid where e: "vss_get_xid reply = Some xid" "answers env i reply link st command xid"
    using ex active st(1) by (auto simp: expected_def split: option.splits)
  then show "cn_send_head (lk_node link) = None" "ss_num_cmd_slots st < 2 ^ 32 - 1" "lk_objects link \<noteq> []"
    using st(2) by (simp_all add: answers_def)
  have a: "negotiate_reply_ok xid reply" "VSSI_GetVSCommandSlot st xid \<noteq> Some None"
    using e(2) st(2) by (simp_all add: answers_def)
  have "xid \<in># image_mset pi_xid M" using VSSI_GetVSCommandSlot_view [OF v, of xid] a(2) by (auto split: if_splits)
  moreover have "size M = 1" using si st(2) active by (simp add: state_inv_def phase_ok_def)
  ultimately have "\<forall>c\<in>#M. pi_xid c = xid" using size_1_singleton_mset by fastforce
  then show "\<forall>c\<in>#M. negotiate_reply_ok (pi_xid c) reply" using a(1) by simp
  show "handle_message env i reply link = VSSI_NegotiateSessionDone env reply link"
    using active st by (simp add: handle_message_def)
qed

lemma handle_message_ok:
  assumes env: "env_good env" and inv: "link_inv link qs M W" and ex: "expected env i reply link"
  shows "\<exists>link' evs qs' M' W'. handle_message env i reply link = Some (link', evs) \<and>
     link_inv link' qs' M' W' \<and> answered M W [] evs M' W' \<and> rest link' = rest link"
proof (cases "cn_connect_state (lk_node link) = CONNECTION_CONNECTED")
  case True
  then obtain rc where "vss_get_status reply = Some rc" using ex by (auto simp: expected_def)
  then have "handle_message env i reply link = VSSI_ConnectVSServerDone env rc link"
    using True by (simp add: handle_message_def)
  then show ?thesis using VSSI_ConnectVSServerDone_ok [OF env inv, of rc] True by simp
next
  case False
  then obtain st command xid where e: "cn_connect_state (lk_node link) = CONNECTION_ACTIVE" "lk_send_state link = Some st"
    "vss_get_command reply = Some command" "vss_get_xid reply = Some xid" "answers env i reply link st command xid"
    using ex by (auto simp: expected_def split: option.splits)
  have si: "state_inv link st qs M W" using inv e(2) by (simp add: link_inv_def)
  then have v: "cmd_view st M W" by (simp add: state_inv_def)
  consider (pending) "ss_negotiated st = NEGOTIATE_PENDING"
    | (notification) "ss_negotiated st \<noteq> NEGOTIATE_PENDING" "command = VSS_NOTIFICATION"
    | (unknown) "ss_negotiated st \<noteq> NEGOTIATE_PENDING" "command \<noteq> VSS_NOTIFICATION" "VSSI_GetVSCommandSlot st xid = Some None"
    | (known) a where "ss_negotiated st \<noteq> NEGOTIATE_PENDING" "command \<noteq> VSS_NOTIFICATION"
        "VSSI_GetVSCommandSlot st xid = Some (Some a)"
    using VSSI_GetVSCommandSlot_view [OF v, of xid] by (auto split: if_splits)
  then show ?thesis
  proof cases
    case pending
    note n = expected_negotiation [OF inv e(2) pending e(1) ex]
    then show ?thesis using VSSI_NegotiateSessionDone_ok [OF env inv e(2) pending e(1) n(1,4,2,3)] by simp
  next
    case notification
    then obtain link' evs where t: "take_notification i reply link = Some (link', evs)"
      using e(5) by (auto simp: answers_def)
    note k = take_notification_key [OF t]
    have "link_inv link' qs M W" using link_inv_key [OF k(1)] inv by simp
    moreover have "answered M W [] evs M W" using k(2) by (simp add: answered_def)
    moreover have "handle_message env i reply link = Some (link', evs)"
      using e(1-4) notification t by (simp add: handle_message_def)
    ultimately show ?thesis using link_key_rest [OF k(1)] by blast
  next
    case unknown
    then have "handle_message env i reply link = Some (link, [])" using e(1-4) by (simp add: handle_message_def)
    then show ?thesis using inv answered_none by blast
  next
    case known
    then obtain rc link1 where a: "pi_msg (ss_cmds st ! a) = None" "dispatch_reply env i command reply a st link = Some (rc, link1)"
      using e(5) by (auto simp: answers_def)
    have "M \<noteq> {#}" using VSSI_GetVSCommandSlot_view [OF v, of xid] known(3) by (auto split: if_splits)
    then have "ss_negotiated st = NEGOTIATE_DONE"
      using si known(1) by (cases "ss_negotiated st") (auto simp: state_inv_def phase_ok_def)
    moreover have "handle_message env i reply link = handle_reply env i reply a st link"
      using e(1-4) known by (simp add: handle_message_def)
    ultimately show ?thesis using handle_reply_ok [OF inv e(2) _ e(3,4) known(3) a] by metis
  qed
qed

section \<open>A socket ready to send\<close>

lemma link_inv_queue:
  assumes inv: "link_inv link qs M W" and alive: "cn_connect_state (lk_node link) \<noteq> CONNECTION_FAILED"
  shows "node_ok (lk_node link) (case lk_send_state link of None \<Rightarrow> [] | Some st \<Rightarrow> ss_cmds st) qs"
    and "qs \<noteq> [] \<Longrightarrow> \<exists>st. lk_send_state link = Some st \<and> ss_server_connection st \<noteq> None \<and> set qs \<subseteq> set (pend_addrs st)"
proof -
  have q: "node_ok (lk_node link) m []" if "quiet (lk_node link)" for m
    using that alive node_ok_empty [of "lk_node link" m] by (auto simp: quiet_def)
  show "node_ok (lk_node link) (case lk_send_state link of None \<Rightarrow> [] | Some st \<Rightarrow> ss_cmds st) qs"
    using inv q by (auto simp: link_inv_def state_inv_def queue_inv_def split: option.splits if_splits)
  show "\<exists>st. lk_send_state link = Some st \<and> ss_server_connection st \<noteq> None \<and> set qs \<subseteq> set (pend_addrs st)" if "qs \<noteq> []"
    using inv that by (auto simp: link_inv_def state_inv_def queue_inv_def split: option.splits if_splits)
qed

lemma send_ready_node:
  assumes ok: "node_ok node m qs" and inv: "node_inv routes node" and i: "i < length (cn_connections node)"
    and state: "cn_connect_state node \<in> {CONNECTION_CONNECTED, CONNECTION_ACTIVE}"
    and rc: "send_rc \<le> int (length (unsent (cn_connections node ! i)))"
    and r: "VSSI_SendVSRequest send_rc node i m = (node', m', sent)"
  obtains qs' where "node_ok node' m' qs'" and "set qs' \<subseteq> set qs" and "node_inv routes node'"
proof -
  have q: "queue_of node m qs" using ok by (simp add: node_ok_def)
  note mem = VSSI_SendVSRequest_memory [OF r q]
  have len: "length (cn_connections node') = length (cn_connections node)" using mem(4) by (rule map_eq_imp_length_eq)
  have inv': "node_inv routes node'"
  proof (cases "cn_connect_state node = CONNECTION_ACTIVE")
    case True
    then show ?thesis using inv mem(5) len by (simp add: node_inv_def)
  next
    case False
    then have c: "cn_connect_state node = CONNECTION_CONNECTED" using state by simp
    then have quiet: "\<forall>c\<in>set (cn_connections node). vc_send_msg c = None" "node_ok node [] []"
      using inv by (simp_all add: node_inv_def)
    then have "vc_send_msg (cn_connections node ! i) = None" using i by simp
    then have node': "node' = node\<lparr>cn_connections := (cn_connections node)[i :=
        (cn_connections node ! i)\<lparr>vc_enable_send := False\<rparr>]\<rparr>"
      using r by (auto simp: VSSI_SendVSRequest_def Let_def)
    have "node_ok node' [] []" "\<forall>c\<in>set (cn_connections node'). vc_send_msg c = None"
      using quiet i unfolding node'
      by (auto simp: node_ok_def queue_of_def list_all_iff conn_ok_def dest!: set_update_subset_insert [THEN subsetD])
    then show ?thesis using inv c mem(5,6) len by (simp add: node_inv_def)
  qed
  show thesis
  proof (rule VSSI_SendVSRequest_step [OF ok i rc r])
    assume "m' = m" "node_ok node' m qs"
    then show thesis using inv' by (intro that [of qs]) simp_all
  next
    fix a qs'
    assume "qs = a # qs'" "node_ok node' m' qs'"
    then show thesis using inv' by (intro that [of qs']) auto
  qed
qed

lemma link_send_ready_ok:
  assumes inv: "link_inv link qs M W" and i: "i < length (cn_connections (lk_node link))"
    and state: "cn_connect_state (lk_node link) \<in> {CONNECTION_CONNECTED, CONNECTION_ACTIVE}"
    and rc: "send_rc \<le> int (length (unsent (cn_connections (lk_node link) ! i)))"
  shows "\<exists>link' sent qs' M'. link_send_ready send_rc i link = (link', sent) \<and> link_inv link' qs' M' W \<and>
     answered M W [] [] M' W \<and> rest link' = rest link"
proof -
  have alive: "cn_connect_state (lk_node link) \<noteq> CONNECTION_FAILED" using state by auto
  let ?m = "case lk_send_state link of None \<Rightarrow> [] | Some st \<Rightarrow> ss_cmds st"
  note q = link_inv_queue [OF inv alive]
  obtain node' m' sent where r: "VSSI_SendVSRequest send_rc (lk_node link) i ?m = (node', m', sent)" by (metis prod_cases3)
  have ni: "node_inv (lk_routes link) (lk_node link)" using inv by (simp add: link_inv_def)
  obtain qs' where qs': "node_ok node' m' qs'" "set qs' \<subseteq> set qs" "node_inv (lk_routes link) node'"
    using send_ready_node [OF q(1) ni i state rc r] by metis
  have queue: "queue_of (lk_node link) ?m qs" using q(1) by (simp add: node_ok_def)
  note mem = VSSI_SendVSRequest_memory [OF r queue]
  have quiet': "quiet node'" if "qs' = []" using qs'(1) that node_ok_empty [of node' m'] by (simp add: quiet_def)
  show ?thesis
  proof (cases "lk_send_state link")
    case None
    then have "M = {#}" "W = []" "qs = []" using inv by (simp_all add: link_inv_def)
    then have "link_inv (put_node node' link) [] {#} []"
      using None inv qs' quiet' by (simp add: link_inv_def)
    moreover have "link_send_ready send_rc i link = (put_node node' link, sent)"
      using None r by (simp add: link_send_ready_def)
    moreover have "answered M W [] [] {#} W" "rest (put_node node' link) = rest link" using \<open>M = {#}\<close> by simp_all
    ultimately show ?thesis using \<open>W = []\<close> by metis
  next
    case (Some st)
    let ?st = "st\<lparr>ss_cmds := m'\<rparr>" and ?link' = "put_node node' (put_state (st\<lparr>ss_cmds := m'\<rparr>) link)"
    have si: "state_inv link st qs M W" and s: "session_ok (lk_session link)" using inv Some by (simp_all add: link_inv_def)
    have v: "cmd_view st M W" using si by (simp add: state_inv_def)
    have sub: "set qs \<subseteq> set (pend_addrs st)" using q(2) Some by (cases "qs = []") auto
    obtain M' where M': "cmd_view ?st M' W" "image_mset core M' = image_mset core M"
      using cmds_change [OF v, of m'] mem(1-3) Some sub by auto
    have p: "pend_addrs ?st = pend_addrs st" by (rule pend_addrs_cong) simp_all
    have "queue_inv node' ?st qs'"
      using si qs' sub p quiet' by (auto simp: queue_inv_def state_inv_def split: if_splits)
    moreover have "phase_ok (cn_connect_state node') ?st M' W"
      using si mem(5) core_image(2) [OF M'(2)] core_image(5) [OF M'(2), of VSS_NEGOTIATE None]
      by (auto simp: state_inv_def phase_ok_def split: negotiated.splits if_splits)
    moreover have "\<forall>x. count (image_mset pi_xid M') x \<le> 1" "\<forall>c\<in>#M'. silent_negotiate c"
      using si core_image(1) [OF M'(2)] core_image(4) [OF M'(2)] by (simp_all add: state_inv_def)
    ultimately have "state_inv ?link' ?st qs' M' W"
      using si M'(1) by (simp add: state_inv_def)
    then have "link_inv ?link' qs' M' W" using s qs'(3) by (simp add: link_inv_def)
    moreover have "answered M W [] [] M' W" using owed_core [OF M'(2)] by (simp add: answered_def)
    ultimately show ?thesis using Some r by (auto simp: link_send_ready_def)
  qed
qed

end
