(* ===== verification/Vssi_Session_Run.thy ===== *)
theory Vssi_Session_Run
  imports Vssi_Receive_Correct Vssi_Request_Correct
begin

text \<open>
  The life of a session as a state machine: its operations in any order, from the first command to
  the loss of the server, and what holds in every state it reaches.
\<close>

section \<open>Systems that keep accounts\<close>

text \<open>Histories of enabled operations that return: the events, what was asked, the state they reach.\<close>

inductive reach ::
  "('o \<Rightarrow> 's \<Rightarrow> bool) \<Rightarrow> ('o \<Rightarrow> 's \<Rightarrow> ('s \<times> 'e list \<times> 'c list) option) \<Rightarrow> 's \<Rightarrow> 'e list \<Rightarrow> 'c list \<Rightarrow> 's \<Rightarrow> bool"
  for enabled run s0 where
  reach_start: "reach enabled run s0 [] [] s0"
| reach_step: "reach enabled run s0 evs cs s \<Longrightarrow> enabled op s \<Longrightarrow> run op s = Some (s', evs', cs') \<Longrightarrow>
     reach enabled run s0 (evs @ evs') (cs @ cs') s'"

text \<open>
  A system whose operations return when they are enabled, keep an invariant, and lose nothing: what a
  state owes and what an operation is asked for is what it answers and what is owed after it.
\<close>

locale accounted =
  fixes inv :: "'s \<Rightarrow> 'm \<Rightarrow> bool"
    and owes :: "'m \<Rightarrow> 'k \<Rightarrow> nat"
    and enabled :: "'o \<Rightarrow> 's \<Rightarrow> bool"
    and run :: "'o \<Rightarrow> 's \<Rightarrow> ('s \<times> 'e list \<times> 'c list) option"
    and asks :: "'c list \<Rightarrow> 'k \<Rightarrow> nat"
    and gives :: "'e list \<Rightarrow> 'k \<Rightarrow> nat"
  assumes step_law: "inv s m \<Longrightarrow> enabled op s \<Longrightarrow>
      \<exists>s' evs cs m'. run op s = Some (s', evs, cs) \<and> inv s' m' \<and> (\<forall>k. owes m k + asks cs k = gives evs k + owes m' k)"
    and asks_Nil [simp]: "asks [] k = 0"
    and asks_append [simp]: "asks (xs @ ys) k = asks xs k + asks ys k"
    and gives_Nil [simp]: "gives [] k = 0"
    and gives_append [simp]: "gives (es @ fs) k = gives es k + gives fs k"
begin

lemma reach_accounts:
  "reach enabled run s0 evs cs s \<Longrightarrow> inv s0 m0 \<Longrightarrow> \<exists>m. inv s m \<and> (\<forall>k. owes m0 k + asks cs k = gives evs k + owes m k)"
proof (induction rule: reach.induct)
  case (reach_step evs cs s op s' evs' cs')
  then obtain m where m: "inv s m" "\<And>k. owes m0 k + asks cs k = gives evs k + owes m k" by blast
  then obtain m' where "inv s' m'" "\<And>k. owes m k + asks cs' k = gives evs' k + owes m' k"
    using step_law [OF m(1) reach_step.hyps(2)] reach_step.hyps(3) by auto
  moreover have "owes m0 k + asks (cs @ cs') k = gives (evs @ evs') k + owes m' k" for k
    using m(2) [of k] calculation(2) [of k] by simp
  ultimately show ?case by blast
qed auto

lemma reach_not_stuck:
  assumes "reach enabled run s0 evs cs s" and "inv s0 m0" and "enabled op s"
  shows "\<exists>s' evs' cs'. run op s = Some (s', evs', cs') \<and> reach enabled run s0 (evs @ evs') (cs @ cs') s'"
proof -
  obtain m where "inv s m" using reach_accounts [OF assms(1,2)] by blast
  then obtain s' evs' cs' where "run op s = Some (s', evs', cs')" using step_law assms(3) by blast
  then show ?thesis using reach_step [OF assms(1,3)] by blast
qed

end

section \<open>The operations of a session\<close>

text \<open>
  A caller sends a command; a socket takes bytes; a whole message of the server arrives; a connection
  is lost; the proxy connect ends.
\<close>

datatype session_op =
    Send_Command vs_env VSSI_PendInfo vss_message
  | Socket_Writable int nat
  | Message_Received vs_env nat buffer
  | Connection_Lost vs_env nat VSSI_Result
  | Proxy_Connected vs_env VSSI_Result

fun perform :: "session_op \<Rightarrow> vs_link \<Rightarrow> (vs_link \<times> net_event list \<times> VSSI_PendInfo list) option" where
  "perform (Send_Command env cmd v) link = map_option (\<lambda>(l, evs). (l, evs, [cmd])) (VSSI_SendVss env cmd v link)"
| "perform (Socket_Writable rc i) link = Some (fst (link_send_ready rc i link), [], [])"
| "perform (Message_Received env i reply) link =
     map_option (\<lambda>(l, evs). (l, evs, [])) (handle_message env i reply link)"
| "perform (Connection_Lost env i rc) link =
     map_option (\<lambda>(l, evs). (l, evs, [])) (VSSI_HandleLostConnection env (Some i) rc link)"
| "perform (Proxy_Connected env rc) link =
     map_option (\<lambda>(l, evs). (l, evs, [])) (VSSI_ConnectVSServerDone env rc link)"

text \<open>
  When an operation can take place. Allocations succeed (\<open>env_good\<close>); the id the next command gets is
  not that of a command that is pending since \<open>2 ^ 32\<close> others; a socket takes at most the bytes it is
  offered; messages are as \<open>expected\<close>.
\<close>

definition id_unused :: "vs_link \<Rightarrow> bool" where
  "id_unused link \<longleftrightarrow> (case lk_send_state link of None \<Rightarrow> True
     | Some st \<Rightarrow> ss_negotiated st = NEGOTIATE_DONE \<longrightarrow> VSSI_GetVSCommandSlot st (ss_seq_id st) = Some None)"

fun allowed :: "session_op \<Rightarrow> vs_link \<Rightarrow> bool" where
  "allowed (Send_Command env cmd v) link \<longleftrightarrow> env_good env \<and> silent_negotiate cmd \<and> message_fits v \<and> id_unused link"
| "allowed (Socket_Writable rc i) link \<longleftrightarrow> i < length (cn_connections (lk_node link)) \<and>
     cn_connect_state (lk_node link) \<in> {CONNECTION_CONNECTED, CONNECTION_ACTIVE} \<and>
     rc \<le> int (length (unsent (cn_connections (lk_node link) ! i)))"
| "allowed (Message_Received env i reply) link \<longleftrightarrow> env_good env \<and> expected env i reply link"
| "allowed (Connection_Lost env i rc) link \<longleftrightarrow> env_good env \<and> i < length (cn_connections (lk_node link)) \<and>
     cn_connect_state (lk_node link) \<notin> {CONNECTION_DISCONNECTED, CONNECTION_CONNECTING} \<and> rc \<noteq> VSSI_SUCCESS"
| "allowed (Proxy_Connected env rc) link \<longleftrightarrow> env_good env \<and> cn_connect_state (lk_node link) = CONNECTION_CONNECTING"

text \<open>What the session owes: the pending and the waiting commands.\<close>

definition session_inv :: "vs_link \<Rightarrow> VSSI_PendInfo multiset \<times> VSSI_PendInfo list \<Rightarrow> bool" where
  "session_inv link m \<longleftrightarrow> (\<exists>qs. link_inv link qs (fst m) (snd m))"

definition session_owes :: "VSSI_PendInfo multiset \<times> VSSI_PendInfo list \<Rightarrow> nat \<times> ptr \<Rightarrow> nat" where
  "session_owes m k = owed (fst k) (snd k) (fst m) (snd m)"

definition asked :: "VSSI_PendInfo list \<Rightarrow> nat \<times> ptr \<Rightarrow> nat" where
  "asked cs k = length (filter (wants (fst k) (snd k)) cs)"

definition given :: "net_event list \<Rightarrow> nat \<times> ptr \<Rightarrow> nat" where
  "given evs k = net_calls (fst k) (snd k) evs"

lemma answered_accounts:
  "answered M W cs evs M' W' \<longleftrightarrow> (\<forall>k. session_owes (M, W) k + asked cs k = given evs k + session_owes (M', W') k)"
  by (simp add: answered_def session_owes_def asked_def given_def split_paired_All)

lemma id_unused_next: "link_inv link qs M W \<Longrightarrow> id_unused link \<Longrightarrow> next_id_free link M"
proof (cases "lk_send_state link")
  case (Some st)
  assume "link_inv link qs M W" and unused: "id_unused link"
  then have "cmd_view st M W" using Some by (simp add: link_inv_def state_inv_def)
  then show ?thesis using Some unused VSSI_GetVSCommandSlot_view [of st M W "ss_seq_id st"]
    by (auto simp: id_unused_def next_id_free_def split: if_splits)
qed (simp add: next_id_free_def)

lemma perform_step:
  assumes inv: "link_inv link qs M W" and op: "allowed op link"
  shows "\<exists>link' evs cs qs' M' W'. perform op link = Some (link', evs, cs) \<and> link_inv link' qs' M' W' \<and>
     answered M W cs evs M' W'"
proof -
  have fin: ?thesis if "perform op link = map_option (\<lambda>(l, evs). (l, evs, cs)) r"
    and "\<exists>link' evs qs' M' W'. r = Some (link', evs) \<and> link_inv link' qs' M' W' \<and> answered M W cs evs M' W' \<and> rest link' = rest link"
    for r cs
  proof -
    from that(2) obtain link' evs qs' M' W' where "r = Some (link', evs)" "link_inv link' qs' M' W'" "answered M W cs evs M' W'"
      by blast
    moreover have "perform op link = Some (link', evs, cs)" using that(1) calculation(1) by simp
    ultimately show ?thesis by blast
  qed
  show ?thesis
  proof (cases op)
    case (Send_Command env cmd v)
    then show ?thesis using VSSI_SendVss_ok [OF _ inv, of env cmd v] op id_unused_next [OF inv] by (intro fin) simp_all
  next
    case (Socket_Writable rc i)
    then obtain link' sent qs' M' where "link_send_ready rc i link = (link', sent)" "link_inv link' qs' M' W"
      "answered M W [] [] M' W"
      using link_send_ready_ok [OF inv, of i rc] op by auto
    then show ?thesis using Socket_Writable by (intro exI conjI) simp_all
  next
    case (Message_Received env i reply)
    then show ?thesis using handle_message_ok [OF _ inv, of env i reply] op by (intro fin) simp_all
  next
    case (Connection_Lost env i rc)
    then show ?thesis using VSSI_HandleLostConnection_ok [OF _ inv, of env i rc] op by (intro fin) simp_all
  next
    case (Proxy_Connected env rc)
    then show ?thesis using VSSI_ConnectVSServerDone_ok [OF _ inv, of env rc] op by (intro fin) simp_all
  qed
qed

interpretation ses: accounted session_inv session_owes allowed perform asked given
proof
  fix link m op
  assume "session_inv link m" and op: "allowed op link"
  then obtain qs where "link_inv link qs (fst m) (snd m)" by (auto simp: session_inv_def)
  then obtain link' evs cs qs' M' W' where "perform op link = Some (link', evs, cs)" "link_inv link' qs' M' W'"
    "answered (fst m) (snd m) cs evs M' W'"
    using perform_step op by blast
  then show "\<exists>link' evs cs m'. perform op link = Some (link', evs, cs) \<and> session_inv link' m' \<and>
      (\<forall>k. session_owes m k + asked cs k = given evs k + session_owes m' k)"
    by (intro exI [of _ link'] exI [of _ evs] exI [of _ cs] exI [of _ "(M', W')"])
      (auto simp: session_inv_def answered_accounts)
qed (simp_all add: asked_def given_def)

section \<open>Every history of a session\<close>

text \<open>Before the first command: no send state, no connection to the server.\<close>

definition session_start :: "vs_link \<Rightarrow> bool" where
  "session_start link \<longleftrightarrow> session_ok (lk_session link) \<and> lk_send_state link = None \<and>
     cn_connect_state (lk_node link) = CONNECTION_FAILED \<and> cn_connections (lk_node link) = []"

abbreviation session_history :: "vs_link \<Rightarrow> net_event list \<Rightarrow> VSSI_PendInfo list \<Rightarrow> vs_link \<Rightarrow> bool" where
  "session_history \<equiv> reach allowed perform"

lemma session_start_inv: "session_start link \<Longrightarrow> session_inv link ({#}, [])"
  by (auto simp: session_start_def session_inv_def link_inv_def node_inv_def quiet_def)

lemma history_inv:
  assumes "session_start link0" and "session_history link0 evs cs link"
  obtains qs M W where "link_inv link qs M W"
    and "\<And>cb ctx. length (filter (wants cb ctx) cs) = net_calls cb ctx evs + owed cb ctx M W"
proof -
  obtain m where m: "session_inv link m" "\<forall>k. session_owes ({#}, []) k + asked cs k = given evs k + session_owes m k"
    using ses.reach_accounts [OF assms(2) session_start_inv [OF assms(1)]] by blast
  then obtain qs where "link_inv link qs (fst m) (snd m)" by (auto simp: session_inv_def)
  moreover have "length (filter (wants cb ctx) cs) = net_calls cb ctx evs + owed cb ctx (fst m) (snd m)" for cb ctx
    using m(2) [rule_format, of "(cb, ctx)"] by (simp add: session_owes_def asked_def given_def owed_def)
  ultimately show thesis by (rule that)
qed

lemma view_wait_none: "cmd_view st M [] \<Longrightarrow> ss_wait_head st = None"
  using chain_head by (fastforce simp: cmd_view_def slots_view_def wait_cmds_def slots_with_def lists_ok_def)

text \<open>A session to try it on: a server that is reached through a proxy, or by no route at all.\<close>

definition demo_env :: "int \<Rightarrow> vs_env" where
  "demo_env len = \<lparr>env_send_state = True, env_realloc = True, env_calloc = True, env_junk = None, env_message = True,
     env_crypt = True, env_node = True, env_connection = True, env_fresh = 1, env_proxy_state = True,
     env_device_id = 5, env_sockets = (\<lambda>_. None), env_routable = False, env_turns = [\<lparr>turn_send = len, turn_poll = 1, turn_ready = True\<rparr>],
     env_stack = zero_pend, env_xid = 0, env_tmp = None, env_header = True, env_reply = True, env_bytes = (\<lambda>_. 0),
     env_directory = None, env_trashcan = None, env_stats = None, env_data = True\<rparr>"

definition demo_link :: "int list \<Rightarrow> vs_link" where
  "demo_link routes = \<lparr>lk_session = demo_session, lk_cluster = 9, lk_routes = routes, lk_send_state = None,
     lk_node = \<lparr>cn_cluster_id = 9, cn_type = 0, cn_connect_state = CONNECTION_FAILED, cn_route_id = 0, cn_object = None,
       cn_refcount = 0, cn_send_head = None, cn_send_tail = None, cn_connections = []\<rparr>,
     lk_objects = [], lk_files = [],
     lk_memory = \<lparr>um_handle = (\<lambda>_. None), um_file = (\<lambda>_. None), um_length = (\<lambda>_. 0), um_buf = (\<lambda>_. []),
       um_directory = (\<lambda>_. None), um_trashcan = (\<lambda>_. None), um_stats = (\<lambda>_. None), um_stats2 = (\<lambda>_. None),
       um_word = (\<lambda>_. 0)\<rparr>,
     lk_randomness = 1\<rparr>"

definition demo_message :: vss_message where
  "demo_message = \<lparr>sv_header = replicate 48 0, sv_fixed_data = [1, 2, 3, 4], sv_fixed_len = 4, sv_var_data1 = None,
     sv_var_len1 = 0, sv_var_data2 = None, sv_var_len2 = 0\<rparr>"

definition demo_send :: session_op where
  "demo_send = Send_Command (demo_env 64) (demo_cmd 7) demo_message"

lemma demo_allowed: "allowed demo_send (demo_link routes)"
  by (simp add: demo_send_def demo_env_def env_good_def silent_negotiate_def demo_cmd_def message_fits_def
      demo_message_def rd_bytes_def part_ok_def id_unused_def demo_link_def)

lemma demo_start: "session_start (demo_link routes)"
  by (simp add: session_start_def demo_link_def session_ok_def demo_session_def)



lemma demo_run_failed:
  "map_option (\<lambda>(l, evs, cs). (Option.is_none (lk_send_state l), evs, cs)) (perform demo_send (demo_link [])) =
     Some (True, [Command_Event (Callback 7 (Some 70) VSSI_COMM)], [demo_cmd 7])"
  by code_simp

lemma demo_run_proxy:
  "map_option (\<lambda>(l, evs, cs). (map_option ss_negotiated (lk_send_state l), evs, cs))
     (perform demo_send (demo_link [VSSI_ROUTE_PROXY])) =
     Some (Some NEGOTIATE_PENDING, [Proxy_Connect 0], [demo_cmd 7])"
  by code_simp

lemma demo_history:
  assumes "perform demo_send (demo_link routes) = Some (link, evs, cs)"
  shows "session_history (demo_link routes) evs cs link"
proof -
  have "session_history (demo_link routes) ([] @ evs) ([] @ cs) link"
    by (rule reach_step, rule reach_start, rule demo_allowed, rule assms)
  then show ?thesis by simp
qed





section \<open>What the server gets\<close>

lemma VSSI_SendVss_done:
  assumes st: "lk_send_state link = Some st" "ss_cluster_id st = lk_cluster link" "ss_negotiated st = NEGOTIATE_DONE"
    and env: "env_good env"
    and m: "VSSI_PrepareMessage True (env_device_id env) (lk_randomness link) (sv_header v) (Some (sv_fixed_data v))
       (sv_fixed_len v) (sv_var_data1 v) (sv_var_len1 v) (sv_var_data2 v) (sv_var_len2 v) = Some (Some x, r)"
  shows "VSSI_SendVss env cmd v link = send_now env cmd x st (link\<lparr>lk_randomness := r\<rparr>)"
proof -
  have "link_send_state env link = (link, Some st)"
    using st(1,2) by (cases link) (simp add: link_send_state_def VSSI_GetSendState_def)
  then show ?thesis using st(3) m env by (simp add: VSSI_SendVss_def env_good_def)
qed

text \<open>
  C6: on a negotiated session a command sent is prepared, put into the table under the next
  id, and the bytes that go to the server grow by exactly its message, which the server verifies and
  decrypts to the prepared message with that id.
\<close>

theorem command_reaches_server:
  assumes "env_good env" and "link_inv link qs M W" and "lk_send_state link = Some st"
    and "ss_negotiated st = NEGOTIATE_DONE" and "silent_negotiate cmd" and "message_fits v" and "id_unused link"
  shows "\<exists>x r link' st' qs' M' bytes.
     VSSI_PrepareMessage True (env_device_id env) (lk_randomness link) (sv_header v) (Some (sv_fixed_data v))
       (sv_fixed_len v) (sv_var_data1 v) (sv_var_len1 v) (sv_var_data2 v) (sv_var_len2 v) = Some (Some x, r) \<and>
     VSSI_SendVss env cmd v link = Some (link', []) \<and> lk_send_state link' = Some st' \<and> link_inv link' qs' M' W \<and>
     image_mset core M' = image_mset core (add_mset (cmd\<lparr>pi_xid := ss_seq_id st\<rparr>) M) \<and>
     ss_seq_id st' = seq_after (ss_seq_id st) \<and> sent_as st (ss_seq_id st) x bytes \<and>
     outgoing (lk_node link') (ss_cmds st') qs' = outgoing (lk_node link) (ss_cmds st) qs @ bytes"
proof -
  have part: "part_ok (Some (sv_fixed_data v)) (sv_fixed_len v)" using assms(6) by (simp add: message_fits_def part_ok_def)
  obtain x r where x: "VSSI_PrepareMessage True (env_device_id env) (lk_randomness link) (sv_header v)
      (Some (sv_fixed_data v)) (sv_fixed_len v) (sv_var_data1 v) (sv_var_len1 v) (sv_var_data2 v) (sv_var_len2 v) =
      Some (Some x, r)" "msg_prepared x"
    using prepare_prepared [OF _ _ part] assms(6) by (metis message_fits_def)
  have "ss_cluster_id st = lk_cluster link" using assms(2,3) by (simp add: link_inv_def state_inv_def)
  note run = VSSI_SendVss_done [OF assms(3) this assms(4,1) x(1)]
  have "ss_seq_id st \<notin># image_mset pi_xid M"
    using id_unused_next [OF assms(2,7)] assms(3,4) by (simp add: next_id_free_def)
  then show ?thesis
    using send_now_ok [of env "link\<lparr>lk_randomness := r\<rparr>" qs M W st cmd x] assms(1-5) x by (auto simp: run)
qed

definition demo_negotiated :: vs_link where
  "demo_negotiated = (demo_link [VSSI_ROUTE_DIRECT_INTERNAL])
     \<lparr>lk_send_state := Some ((new_send_state demo_session 9)\<lparr>ss_negotiated := NEGOTIATE_DONE, ss_server_connection := Some 0\<rparr>),
      lk_node := (lk_node (demo_link []))\<lparr>cn_connect_state := CONNECTION_ACTIVE,
        cn_connections := [(new_connection 1)\<lparr>vc_conn_id := Some 3\<rparr>]\<rparr>\<rparr>"

lemma demo_negotiated_inv: "link_inv demo_negotiated [] {#} []"
proof -
  let ?st = "(new_send_state demo_session 9)\<lparr>ss_negotiated := NEGOTIATE_DONE, ss_server_connection := Some 0\<rparr>"
  have "cmd_view ?st {#} []"
    using cmd_view_cong [of ?st "new_send_state demo_session 9" "{#}" "[]"] new_send_state_view by simp
  then show ?thesis
    by (simp add: demo_negotiated_def demo_link_def link_inv_def state_inv_def phase_ok_def queue_inv_def node_inv_def
        node_ok_def queue_of_def new_connection_def conn_ok_def session_ok_def demo_session_def new_send_state_def)
qed

theorem command_reaches_server_witness:
  "\<exists>x r link' st' qs' M' bytes.
     VSSI_PrepareMessage True 5 1 (replicate 48 0) (Some [1, 2, 3, 4]) 4 None 0 None 0 = Some (Some x, r) \<and>
     VSSI_SendVss (demo_env 64) (demo_cmd 7) demo_message demo_negotiated = Some (link', []) \<and>
     lk_send_state link' = Some st' \<and> link_inv link' qs' M' [] \<and> ss_seq_id st' = 1 \<and>
     sent_as (the (lk_send_state demo_negotiated)) 0 x bytes \<and> outgoing (lk_node link') (ss_cmds st') qs' = bytes"
proof -
  let ?st = "(new_send_state demo_session 9)\<lparr>ss_negotiated := NEGOTIATE_DONE, ss_server_connection := Some 0\<rparr>"
  have env: "env_good (demo_env 64)" "env_device_id (demo_env 64) = 5" by (simp_all add: demo_env_def env_good_def)
  have link: "lk_send_state demo_negotiated = Some ?st" "lk_randomness demo_negotiated = 1"
    "outgoing (lk_node demo_negotiated) (ss_cmds ?st) [] = []"
    by (simp_all add: demo_negotiated_def demo_link_def outgoing_def new_connection_def unsent_def)
  have st: "ss_negotiated ?st = NEGOTIATE_DONE" "ss_seq_id ?st = 0" by (simp_all add: new_send_state_def)
  have free: "id_unused demo_negotiated"
    by (simp add: id_unused_def link(1) VSSI_GetVSCommandSlot_def VSSI_GetCommandSlotUnlocked_def new_send_state_def)
  have cmd: "silent_negotiate (demo_cmd 7)" "message_fits demo_message"
    using demo_allowed [of "[]"] by (simp_all add: demo_send_def)
  have v: "sv_header demo_message = replicate 48 0" "sv_fixed_data demo_message = [1, 2, 3, 4]" "sv_fixed_len demo_message = 4"
    "sv_var_data1 demo_message = None" "sv_var_len1 demo_message = 0" "sv_var_data2 demo_message = None"
    "sv_var_len2 demo_message = 0"
    by (simp_all add: demo_message_def)
  have next_id: "seq_after 0 = 1" by (simp add: seq_after_def)
  show ?thesis
    using command_reaches_server [OF env(1) demo_negotiated_inv link(1) st(1) cmd free]
    unfolding v env(2) link(2,3) st(2) next_id unfolding link(1) option.sel append_Nil by blast
qed

text \<open>
  C5: when the server accepts a negotiation, every command that waited for it is put into the
  table and sent, in the order they were given, under consecutive ids from the one the server chose,
  with the signing and encryption it chose; then nothing waits.
\<close>

theorem waiting_commands_sent:
  assumes "env_good env" and "link_inv link qs M W" and "lk_send_state link = Some st"
    and "ss_negotiated st = NEGOTIATE_PENDING" and "cn_connect_state (lk_node link) = CONNECTION_ACTIVE"
    and "expected env i reply link" and "vss_get_status reply = Some VSSI_SUCCESS"
  shows "\<exists>sm ty enc x link' st' qs' M'.
     vss_negotiate_reply_get_signing_mode (drop 48 reply) = Some sm \<and>
     vss_negotiate_reply_get_sign_type (drop 48 reply) = Some ty \<and>
     vss_negotiate_reply_get_encrypt_type (drop 48 reply) = Some enc \<and>
     vss_negotiate_reply_get_xid_start (drop 48 reply) = Some x \<and>
     handle_message env i reply link = Some (link', []) \<and> link_inv link' qs' M' [] \<and>
     lk_send_state link' = Some st' \<and> ss_negotiated st' = NEGOTIATE_DONE \<and>
     image_mset core M' = image_mset core (mset (numbered x W)) \<and>
     posts_all (st\<lparr>ss_sign_mode := sm, ss_sign_type := ty, ss_enc_type := enc\<rparr>) x W
       (outgoing (lk_node link) (ss_cmds st) qs) (outgoing (lk_node link') (ss_cmds st') qs')"
proof -
  note n = expected_negotiation [OF assms(2-6)]
  obtain sm ty enc x link' st' qs' M' where d: "VSSI_NegotiateSessionDone env reply link = Some (link', [])"
    "vss_negotiate_reply_get_signing_mode (drop 48 reply) = Some sm"
    "vss_negotiate_reply_get_sign_type (drop 48 reply) = Some ty"
    "vss_negotiate_reply_get_encrypt_type (drop 48 reply) = Some enc"
    "vss_negotiate_reply_get_xid_start (drop 48 reply) = Some x"
    "negotiated_view link' st' qs' M' []" "image_mset core M' = image_mset core (mset (numbered x W))"
    "posts_all (st\<lparr>ss_sign_mode := sm, ss_sign_type := ty, ss_enc_type := enc\<rparr>) x W
       (outgoing (lk_node link) (ss_cmds st) qs) (outgoing (lk_node link') (ss_cmds st') qs')"
    using negotiation_succeeds [OF assms(1-5) n(1,4,2) assms(7)] by metis
  have "lk_send_state link' = Some st'" "ss_negotiated st' = NEGOTIATE_DONE" using d(6) by (simp_all add: negotiated_view_def)
  then show ?thesis using d n(5) negotiated_view_inv [OF d(6)]
    by (intro exI [of _ sm] exI [of _ ty] exI [of _ enc] exI [of _ x] exI [of _ link'] exI [of _ st'] exI [of _ qs'] exI [of _ M'])
      simp
qed

text \<open>A session whose negotiation is under way with one command waiting.\<close>

definition demo_waiting_state :: "VSSI_SendState option" where
  "demo_waiting_state = do {
     (st1, rv) \<leftarrow> VSSI_AddWaitingCommand True True None (demo_cmd 7) (new_send_state demo_session 9);
     t \<leftarrow> ss_wait_tail st1;
     (x, r) \<leftarrow> VSSI_PrepareMessage True 5 1 (replicate 48 0) (Some [1, 2, 3, 4]) 4 None 0 None 0;
     (st2, rv, xid) \<leftarrow> VSSI_AddPendingCommand True True None (negotiate_cmd (demo_env 64))
       (upd_cmd t (\<lambda>c. c\<lparr>pi_msg := x\<rparr>) st1);
     Some (st2\<lparr>ss_negotiated := NEGOTIATE_PENDING, ss_server_connection := Some 0\<rparr>) }"

definition demo_waiting :: "VSSI_SendState \<Rightarrow> vs_link" where
  "demo_waiting st = demo_negotiated\<lparr>lk_send_state := Some st,
     lk_objects := [\<lparr>vo_addr = 4, vo_state = demo_object, vo_notify_callback = None, vo_notify_ctx = None,
       vo_notify_connection = None\<rparr>]\<rparr>"

lemma demo_waiting_run:
  "map_option (\<lambda>st. (ss_num_cmd_slots st, VSSI_GetVSCommandSlot st 0)) demo_waiting_state = Some (16, Some (Some 14))"
  by code_simp

lemma demo_add_seq:
  "map_option (\<lambda>(st, rv). ss_seq_id st)
     (VSSI_AddWaitingCommand True True None (demo_cmd 7) (new_send_state demo_session 9)) = Some 0"
  by code_simp

lemma demo_waiting_inv:
  obtains st w where "demo_waiting_state = Some st" and "ss_negotiated st = NEGOTIATE_PENDING"
    and "link_inv (demo_waiting st) [] {#(negotiate_cmd (demo_env 64))\<lparr>pi_xid := 0\<rparr>#} [w]"
proof -
  let ?s0 = "new_send_state demo_session 9" and ?neg = "negotiate_cmd (demo_env 64)"
  obtain st1 where st1: "VSSI_AddWaitingCommand True True None (demo_cmd 7) ?s0 = Some (st1, VSSI_SUCCESS)"
    "cmd_view st1 {#} [payload (demo_cmd 7)]"
    using VSSI_AddWaitingCommand_view [OF new_send_state_view, of True True None "demo_cmd 7"] by auto
  have header: "length (replicate 48 (0 :: u8)) = 48"
    "rd_bytes (replicate 48 0) VSS_HEADER_HMAC_OFFSET VSS_HMAC_SIZE = Some (replicate VSS_HMAC_SIZE 0)"
    by (simp_all add: rd_bytes_def)
  obtain x r where x: "VSSI_PrepareMessage True 5 1 (replicate 48 0) (Some [1, 2, 3, 4]) 4 None 0 None 0 = Some (Some x, r)"
    "msg_prepared x"
    using prepare_prepared [OF header, of "Some [1, 2, 3, 4]" 4 None 0 None 0 5 1] by (auto simp: part_ok_def)
  let ?w = "(payload (demo_cmd 7))\<lparr>pi_msg := Some x\<rparr>"
  have view1: "cmd_view st1 {#} ([] @ [payload (demo_cmd 7)])" using st1(2) by simp
  obtain t where t: "ss_wait_tail st1 = Some t" "cmd_view (upd_cmd t (\<lambda>c. c\<lparr>pi_msg := Some x\<rparr>) st1) {#} [?w]"
    using write_tail_view [OF view1, of "Some x"] by auto
  let ?s1 = "upd_cmd t (\<lambda>c. c\<lparr>pi_msg := Some x\<rparr>) st1"
  have seq: "ss_seq_id ?s1 = 0" using st1(1) demo_add_seq by simp
  obtain st2 where st2: "VSSI_AddPendingCommand True True None ?neg ?s1 = Some (st2, VSSI_SUCCESS, 0)"
    "cmd_view st2 {#?neg\<lparr>pi_xid := 0\<rparr>#} [?w]"
    using VSSI_AddPendingCommand_view [OF t(2), of True True None ?neg] seq by auto
  let ?st = "st2\<lparr>ss_negotiated := NEGOTIATE_PENDING, ss_server_connection := Some 0\<rparr>"
  have "frame st2 = frame ?s0" using frame_add_pending [OF st2(1)] frame_add_waiting [OF st1(1)] by simp
  note fr = frame_eq [OF this]
  have "cmd_view ?st {#?neg\<lparr>pi_xid := 0\<rparr>#} [?w]"
    using st2(2) cmd_view_cong [of ?st st2] by simp
  then have "link_inv (demo_waiting ?st) [] {#?neg\<lparr>pi_xid := 0\<rparr>#} [?w]"
    using x(2) fr by (simp add: demo_waiting_def demo_negotiated_def demo_link_def link_inv_def state_inv_def phase_ok_def
      queue_inv_def node_inv_def node_ok_def queue_of_def new_connection_def conn_ok_def session_ok_def demo_session_def
      new_send_state_def negotiate_cmd_def silent_negotiate_def waiting_ok_def payload_def demo_cmd_def)
  moreover have "demo_waiting_state = Some ?st" using st1(1) t(1) x(1) st2(1) by (simp add: demo_waiting_state_def)
  ultimately show thesis by (intro that) simp_all
qed

lemma demo_accept_fields:
  "vss_get_status (replicate 56 0) = Some VSSI_SUCCESS" "vss_get_xid (replicate 56 0) = Some 0"
  "vss_get_command (replicate 56 0) = Some 0" "negotiate_reply_ok 0 (replicate 56 0)"
  "vss_negotiate_reply_get_xid_start (drop 48 (replicate 56 0)) = Some 0"
  by code_simp+

theorem waiting_commands_sent_witness:
  "\<exists>st w link' st' qs' M'. demo_waiting_state = Some st \<and>
     handle_message (demo_env 64) 0 (replicate 56 0) (demo_waiting st) = Some (link', []) \<and>
     link_inv link' qs' M' [] \<and> lk_send_state link' = Some st' \<and> ss_negotiated st' = NEGOTIATE_DONE \<and>
     image_mset core M' = {#core (w\<lparr>pi_xid := 0\<rparr>)#}"
proof -
  obtain st w where st: "demo_waiting_state = Some st" "ss_negotiated st = NEGOTIATE_PENDING"
    "link_inv (demo_waiting st) [] {#(negotiate_cmd (demo_env 64))\<lparr>pi_xid := 0\<rparr>#} [w]"
    using demo_waiting_inv by blast
  have env: "env_good (demo_env 64)" by (simp add: demo_env_def env_good_def)
  have link: "lk_send_state (demo_waiting st) = Some st" "cn_connect_state (lk_node (demo_waiting st)) = CONNECTION_ACTIVE"
    "cn_send_head (lk_node (demo_waiting st)) = None" "lk_objects (demo_waiting st) \<noteq> []"
    by (simp_all add: demo_waiting_def demo_negotiated_def demo_link_def)
  note reply = demo_accept_fields
  have run: "ss_num_cmd_slots st = 16" "VSSI_GetVSCommandSlot st 0 = Some (Some 14)"
    using demo_waiting_run unfolding st(1) by simp_all
  have "expected (demo_env 64) 0 (replicate 56 0) (demo_waiting st)"
    using link st(2) run reply by (simp add: expected_def answers_def)
  from waiting_commands_sent [OF env st(3) link(1) st(2) link(2) this reply(1)]
  obtain x link' st' qs' M' where "vss_negotiate_reply_get_xid_start (drop 48 (replicate 56 0)) = Some x"
    "handle_message (demo_env 64) 0 (replicate 56 0) (demo_waiting st) = Some (link', [])" "link_inv link' qs' M' []"
    "lk_send_state link' = Some st'" "ss_negotiated st' = NEGOTIATE_DONE" "image_mset core M' = {#core (w\<lparr>pi_xid := x\<rparr>)#}"
    by auto
  moreover have "x = 0" using calculation(1) reply(5) by simp
  ultimately show ?thesis using st(1) by blast
qed

end
