(* ===== verification/Vssi_Receive_Stream.thy ===== *)
theory Vssi_Receive_Stream
  imports Vssi_Session_Run
begin

text \<open>
  The stream of bytes from a server and the messages in it (\<open>vssi_internal.c\<close>,
  \<open>VSSI_ReceiveVSBuffer\<close>, \<open>VSSI_HandleVSBuffer\<close>, \<open>VSSI_ReceiveVSResponse\<close>): the window asked for
  lies in the reply buffer, how the network cuts the bytes into pieces does not matter, and a message
  composed by the other side is handed over as it was composed. One theorem shows the limit of this:
  a data length at the end of the 32-bit range wraps.
\<close>

section \<open>A connection between two receives\<close>

definition receiving :: "VSSI_VSConnection \<Rightarrow> bool" where
  "receiving c \<longleftrightarrow> vc_replylen c < 2 ^ 32 \<and>
     (if vc_replylen c = 0
      then vc_replylen_recvd c < VSS_HEADER_SIZE \<and> (vc_incoming_reply c = None \<longrightarrow>
        vc_replylen_recvd c = 0 \<and> vc_reply_bufsize c = 0)
      else VSS_HEADER_SIZE \<le> vc_replylen_recvd c \<and> vc_replylen_recvd c < vc_replylen c \<and>
        (\<exists>b. vc_incoming_reply c = Some b \<and> (VSS_HEADER_SIZE < vc_replylen_recvd c \<longrightarrow> vc_replylen c \<le> length b))) \<and>
     (\<forall>b. vc_incoming_reply c = Some b \<longrightarrow> VSS_HEADER_SIZE \<le> length b \<and> vc_reply_bufsize c \<le> length b)"

text \<open>The bytes still missing: of the header, or of the reply.\<close>

definition missing :: "VSSI_VSConnection \<Rightarrow> nat" where
  "missing c = (if vc_replylen c = 0 then VSS_HEADER_SIZE else vc_replylen c) - vc_replylen_recvd c"

lemma size_minus_le: "b \<le> a \<Longrightarrow> a < 2 ^ 64 \<Longrightarrow> size_minus a b = a - b"
proof -
  assume b: "b \<le> a" and a: "a < 2 ^ 64"
  have "a + 2 ^ 64 - b = (a - b) + 2 ^ 64" using b by simp
  moreover have "(a - b) mod 2 ^ 64 = a - b" using a by (intro mod_less) simp
  ultimately show ?thesis unfolding size_minus_def by (metis mod_add_self2)
qed

lemma window:
  assumes ok: "receiving c" and r: "VSSI_ReceiveVSBuffer env c = (c', n, Some off)"
  obtains b where "vc_incoming_reply c' = Some b" and "0 < n" and "off = vc_replylen_recvd c" and "n = missing c"
    and "off + n \<le> length b" and "receiving c'" and "vc_replylen c' = vc_replylen c"
    and "vc_replylen_recvd c' = vc_replylen_recvd c"
proof (cases "vc_replylen c = 0")
  case True
  then have c: "vc_replylen_recvd c < 48" "vc_incoming_reply c = None \<Longrightarrow> vc_replylen_recvd c = 0 \<and> vc_reply_bufsize c = 0"
    "\<And>b. vc_incoming_reply c = Some b \<Longrightarrow> 48 \<le> length b \<and> vc_reply_bufsize c \<le> length b"
    using ok by (auto simp: receiving_def VSS_HEADER_SIZE_def)
  show thesis
  proof (cases "vc_incoming_reply c")
    case None
    then show thesis using True r c ok
      by (intro that [of "replicate VSS_HEADER_SIZE 0"])
        (auto simp: VSSI_ReceiveVSBuffer_def Let_def receiving_def missing_def VSS_HEADER_SIZE_def size_minus_le split: if_splits)
  next
    case (Some b)
    then show thesis using True r c ok
      by (intro that [of b])
        (auto simp: VSSI_ReceiveVSBuffer_def Let_def receiving_def missing_def VSS_HEADER_SIZE_def size_minus_le split: if_splits)
  qed
next
  case False
  then obtain b where c: "48 \<le> vc_replylen_recvd c" "vc_replylen_recvd c < vc_replylen c" "vc_replylen c < 2 ^ 32"
    "vc_incoming_reply c = Some b" "48 < vc_replylen_recvd c \<Longrightarrow> vc_replylen c \<le> length b"
    "48 \<le> length b" "vc_reply_bufsize c \<le> length b"
    using ok by (auto simp: receiving_def VSS_HEADER_SIZE_def)
  then have n: "size_minus (vc_replylen c) (vc_replylen_recvd c) = vc_replylen c - vc_replylen_recvd c"
    by (intro size_minus_le) simp_all
  show thesis
  proof (cases "vc_replylen_recvd c = 48 \<and> vc_reply_bufsize c < vc_replylen c")
    case grow: True
    then show thesis using False r c n
      by (intro that [of "realloc_bytes (env_bytes env) (vc_replylen c) b"])
        (auto simp: VSSI_ReceiveVSBuffer_def Let_def receiving_def missing_def VSS_HEADER_SIZE_def realloc_bytes_def
          split: if_splits)
  next
    case keep: False
    then have "vc_replylen c \<le> length b" using c by auto
    then show thesis using False r c n keep ok
      by (intro that [of b]) (auto simp: VSSI_ReceiveVSBuffer_def Let_def missing_def VSS_HEADER_SIZE_def split: if_splits)
  qed
qed

text \<open>Storing and counting bytes.\<close>

lemma wr_bytes_pieces:
  assumes "wr_bytes b off xs = Some b1"
  shows "wr_bytes b1 (off + length xs) ys = wr_bytes b off (xs @ ys)"
  using assms by (auto simp: wr_bytes_def ac_simps split: if_splits)

lemma wr_bytes_Some: "off + length xs \<le> length b \<Longrightarrow> \<exists>b1. wr_bytes b off xs = Some b1 \<and> length b1 = length b"
  by (auto simp: wr_bytes_def)

lemma upd_conn_nth [simp]:
  "i < length (cn_connections (lk_node link)) \<Longrightarrow>
    cn_connections (lk_node (upd_conn i f link)) ! i = f (cn_connections (lk_node link) ! i)"
  by (simp add: upd_conn_def put_node_def)

lemma upd_conn_length [simp]:
  "length (cn_connections (lk_node (upd_conn i f link))) = length (cn_connections (lk_node link))"
  by (simp add: upd_conn_def put_node_def)

lemma upd_conn_twice [simp]:
  "i < length (cn_connections (lk_node link)) \<Longrightarrow> upd_conn i f (upd_conn i g link) = upd_conn i (\<lambda>c. f (g c)) link"
  by (simp add: upd_conn_def put_node_def)

text \<open>Part of what is missing: it is stored and counted, and nothing else happens.\<close>

lemma part_received:
  assumes ok: "receiving (cn_connections (lk_node link) ! i)" and i: "i < length (cn_connections (lk_node link))"
    and r: "VSSI_ReceiveVSBuffer env (cn_connections (lk_node link) ! i) = (c, n, Some off)"
    and xs: "xs \<noteq> []" "length xs < n" and b: "vc_incoming_reply c = Some b" "wr_bytes b off xs = Some b1"
  defines "c1 \<equiv> c\<lparr>vc_incoming_reply := Some b1, vc_replylen_recvd := vc_replylen_recvd c + length xs\<rparr>"
  shows "VSSI_ReceiveVSResponse env i (int (length xs)) xs link = Some (upd_conn i (\<lambda>_. c1) link, [])"
    and "receiving c1" and "VSSI_ReceiveVSBuffer env c1 = (c1, n - length xs, Some (off + length xs))"
    and "take_bytes env i (length xs) (upd_conn i (\<lambda>_. c\<lparr>vc_incoming_reply := Some b1\<rparr>) link) =
      Some (Partial (upd_conn i (\<lambda>_. c1) link))"
proof -
  let ?c = "cn_connections (lk_node link) ! i"
  obtain b0 where w0: "vc_incoming_reply c = Some b0" "0 < n" "off = vc_replylen_recvd ?c" "n = missing ?c"
    "off + n \<le> length b0" "receiving c" "vc_replylen c = vc_replylen ?c" "vc_replylen_recvd c = vc_replylen_recvd ?c"
    by (rule window [OF ok r])
  have "b0 = b" using w0(1) b(1) by simp
  moreover have "missing c = missing ?c" unfolding missing_def w0(7,8) ..
  ultimately have w: "0 < n" "off = vc_replylen_recvd c" "n = missing c" "off + n \<le> length b" "receiving c"
    "vc_replylen c = vc_replylen ?c" "vc_replylen_recvd c = vc_replylen_recvd ?c"
    using w0 by simp_all
  have len: "length b1 = length b" using wr_bytes_length [OF b(2)] .
  have c1: "vc_replylen c1 = vc_replylen c" "vc_replylen_recvd c1 = vc_replylen_recvd c + length xs"
    "vc_incoming_reply c1 = Some b1" "vc_reply_bufsize c1 = vc_reply_bufsize c"
    by (simp_all add: c1_def)
  have pos: "0 < length xs" using xs(1) by simp
  show rc1: "receiving c1"
  proof (cases "vc_replylen c = 0")
    case True
    then have "vc_replylen_recvd c1 < 48" using w(2,3,6,7) xs(2) c1(2) by (simp add: missing_def VSS_HEADER_SIZE_def)
    then show ?thesis using True w(5) len b(1) c1 by (simp add: receiving_def VSS_HEADER_SIZE_def)
  next
    case False
    then have "vc_replylen_recvd c1 < vc_replylen c" "48 < vc_replylen_recvd c1" "vc_replylen c \<le> length b"
      using w xs(2) pos c1(2) ok
      by (simp_all add: missing_def receiving_def VSS_HEADER_SIZE_def del: length_greater_0_conv)
    then show ?thesis using False w(5) len b(1) c1 by (simp add: receiving_def VSS_HEADER_SIZE_def)
  qed
  have lt: "vc_replylen_recvd c + length xs \<noteq> 48"
    "\<not> vc_replylen_recvd c + length xs < 48 \<Longrightarrow> vc_replylen c \<noteq> vc_replylen_recvd c + length xs"
    using w xs(2) pos ok by (auto simp: missing_def receiving_def VSS_HEADER_SIZE_def simp del: length_greater_0_conv split: if_splits)
  show "take_bytes env i (length xs) (upd_conn i (\<lambda>_. c\<lparr>vc_incoming_reply := Some b1\<rparr>) link) =
      Some (Partial (upd_conn i (\<lambda>_. c1) link))"
    using i lt by (simp add: take_bytes_def Let_def c1_def VSS_HEADER_SIZE_def)
  then have "VSSI_HandleVSBuffer env i (length xs) (upd_conn i (\<lambda>_. c\<lparr>vc_incoming_reply := Some b1\<rparr>) link) =
      Some (upd_conn i (\<lambda>_. c1) link, [], 0)"
    by (simp add: VSSI_HandleVSBuffer_def)
  then show "VSSI_ReceiveVSResponse env i (int (length xs)) xs link = Some (upd_conn i (\<lambda>_. c1) link, [])"
    using r w(1) b pos i by (simp add: VSSI_ReceiveVSResponse_def Let_def)
  show "VSSI_ReceiveVSBuffer env c1 = (c1, n - length xs, Some (off + length xs))"
  proof (cases "vc_replylen c = 0")
    case True
    then show ?thesis using w xs(2) c1
      by (simp add: VSSI_ReceiveVSBuffer_def Let_def missing_def VSS_HEADER_SIZE_def size_minus_le)
  next
    case False
    then have "size_minus (vc_replylen c1) (vc_replylen_recvd c1) = n - length xs"
      using w xs(2) rc1 c1 ok by (subst size_minus_le) (auto simp: missing_def receiving_def)
    moreover have "vc_replylen_recvd c1 \<noteq> 48" using lt(1) c1(2) by simp
    ultimately show ?thesis using False w(2) c1
      by (simp add: VSSI_ReceiveVSBuffer_def Let_def VSS_HEADER_SIZE_def)
  qed
qed

lemma receive_split:
  assumes ok: "receiving (cn_connections (lk_node link) ! i)" and i: "i < length (cn_connections (lk_node link))"
    and r: "VSSI_ReceiveVSBuffer env (cn_connections (lk_node link) ! i) = (c, n, Some off)"
    and xs: "xs \<noteq> []" and ys: "ys \<noteq> []" and le: "length xs + length ys \<le> n"
  obtains link1 where "VSSI_ReceiveVSResponse env i (int (length xs)) xs link = Some (link1, [])"
    and "VSSI_ReceiveVSResponse env i (int (length ys)) ys link1 =
           VSSI_ReceiveVSResponse env i (int (length (xs @ ys))) (xs @ ys) link"
    and "receiving (cn_connections (lk_node link1) ! i)" and "i < length (cn_connections (lk_node link1))"
    and "\<exists>c'. VSSI_ReceiveVSBuffer env (cn_connections (lk_node link1) ! i) = (c', n - length xs, Some (off + length xs))"
proof -
  obtain b where b: "vc_incoming_reply c = Some b" "off + n \<le> length b" by (rule window [OF ok r])
  have lt: "length xs < n" using le ys by (cases ys) auto
  obtain b1 where b1: "wr_bytes b off xs = Some b1" using wr_bytes_Some [of off xs b] b(2) lt by auto
  obtain b2 where b2: "wr_bytes b off (xs @ ys) = Some b2" using wr_bytes_Some [of off "xs @ ys" b] b(2) le by auto
  define c1 where "c1 = c\<lparr>vc_incoming_reply := Some b1, vc_replylen_recvd := vc_replylen_recvd c + length xs\<rparr>"
  define link1 where "link1 = upd_conn i (\<lambda>_. c1) link"
  note p = part_received [OF ok i r xs lt b(1) b1, folded c1_def]
  have z: "(int (length xs) + int (length ys) = 0) = False" using xs by (cases xs) simp_all
  have c: "cn_connections (lk_node link1) ! i = c1" using i by (simp add: link1_def)
  have "VSSI_HandleVSBuffer env i (length ys) (upd_conn i (\<lambda>_. c1\<lparr>vc_incoming_reply := Some b2\<rparr>) link) =
      VSSI_HandleVSBuffer env i (length (xs @ ys)) (upd_conn i (\<lambda>_. c\<lparr>vc_incoming_reply := Some b2\<rparr>) link)"
    using i by (simp add: VSSI_HandleVSBuffer_def take_bytes_def c1_def add.assoc)
  moreover have "wr_bytes b1 (off + length xs) ys = Some b2" using wr_bytes_pieces [OF b1, of ys] b2 by simp
  moreover have "n - length xs \<noteq> 0" "n \<noteq> 0" using lt by simp_all
  moreover have "0 < length ys" "0 < length xs" using xs ys by simp_all
  ultimately have "VSSI_ReceiveVSResponse env i (int (length ys)) ys link1 =
      VSSI_ReceiveVSResponse env i (int (length (xs @ ys))) (xs @ ys) link"
    using p(3) r b(1) b2 i unfolding VSSI_ReceiveVSResponse_def c
    by (simp add: link1_def c1_def Let_def nat_int_add z)
  then show thesis using p i by (intro that [of link1]) (simp_all add: link1_def)
qed

text \<open>Pieces received one after another.\<close>

fun receive_pieces :: "vs_env \<Rightarrow> nat \<Rightarrow> buffer list \<Rightarrow> vs_link \<Rightarrow> (vs_link \<times> net_event list) option" where
  "receive_pieces env i [] link = Some (link, [])"
| "receive_pieces env i (p # ps) link = do {
     (link1, evs1) \<leftarrow> VSSI_ReceiveVSResponse env i (int (length p)) p link;
     (link2, evs2) \<leftarrow> receive_pieces env i ps link1;
     Some (link2, evs1 @ evs2) }"

lemma pieces_same:
  assumes "receiving (cn_connections (lk_node link) ! i)" and "i < length (cn_connections (lk_node link))"
    and "VSSI_ReceiveVSBuffer env (cn_connections (lk_node link) ! i) = (c, n, Some off)"
    and "ps \<noteq> []" and "[] \<notin> set ps" and "length (concat ps) \<le> n"
  shows "receive_pieces env i ps link = VSSI_ReceiveVSResponse env i (int (length (concat ps))) (concat ps) link"
  using assms
proof (induction ps arbitrary: link c n off)
  case (Cons p ps)
  have one: "do { (l, e) \<leftarrow> x; (l2, e2) \<leftarrow> Some (l, []); Some (l2, e @ e2) } = x"
    for x :: "(vs_link \<times> net_event list) option" by (cases x) auto
  show ?case
  proof (cases "ps = []")
    case True
    then show ?thesis using one by simp
  next
    case False
    then have "concat ps \<noteq> []" using Cons.prems(5) by (cases ps) auto
    then obtain link1 c' where l: "VSSI_ReceiveVSResponse env i (int (length p)) p link = Some (link1, [])"
      "VSSI_ReceiveVSResponse env i (int (length (concat ps))) (concat ps) link1 =
         VSSI_ReceiveVSResponse env i (int (length (p @ concat ps))) (p @ concat ps) link"
      "receiving (cn_connections (lk_node link1) ! i)" "i < length (cn_connections (lk_node link1))"
      "VSSI_ReceiveVSBuffer env (cn_connections (lk_node link1) ! i) = (c', n - length p, Some (off + length p))"
      using receive_split [OF Cons.prems(1-3), of p "concat ps"] Cons.prems(5,6) by force
    have "receive_pieces env i ps link1 =
        VSSI_ReceiveVSResponse env i (int (length (concat ps))) (concat ps) link1"
      using Cons.IH [OF l(3-5) False] Cons.prems(5,6) by simp
    then show ?thesis using l(1,2) by (cases "receive_pieces env i ps link1") auto
  qed
qed simp

section \<open>The bytes after a message\<close>

text \<open>
  The reply buffer is kept from one reply to the next, so a message may be shorter than it. Neither
  check looks at what comes after the message.
\<close>

lemma compute_hmac_after:
  assumes "len \<le> length b" and "len < 2 ^ 32"
  shows "compute_hmac (b @ z) len key n = compute_hmac b len key n"
  using CSL_InputHmac_prefix [OF refl assms(2), of "b @ z"] CSL_InputHmac_prefix [OF refl assms(2,1)] assms(1)
  by (simp add: compute_hmac_def)

lemma VSSI_VerifyHeader_after:
  assumes "length h = 48"
  shows "VSSI_VerifyHeader (h @ z) s sm st = map_option (\<lambda>(h', rc). (h' @ z, rc)) (VSSI_VerifyHeader h s sm st)"
proof -
  have "vss_get_version (h @ z) = vss_get_version h"
    by (rule vss_header_fields_local) (use assms in simp)
  moreover obtain h1 where "wr_bytes h 38 (replicate 10 0) = Some h1" "length h1 = 48"
    using wr_bytes_total [of 38 "replicate 10 0" h] assms by auto
  moreover from this have "compute_hmac (h1 @ z) 48 key 10 = compute_hmac h1 48 key 10" for key
    by (intro compute_hmac_after) simp_all
  ultimately show ?thesis using assms
    by (auto simp: VSSI_VerifyHeader_def VSS_HEADER_HMAC_OFFSET_def VSS_HMAC_SIZE_def VSS_HEADER_SIZE_def
        wr_bytes_append split: option.split Option.bind_splits)
qed

lemma cbc_dec_after: "16 * n \<le> length c \<Longrightarrow> cbc_dec f n iv (c @ z) = cbc_dec f n iv c"
  by (induction n arbitrary: iv c) simp_all

lemma verify_decrypt_after:
  assumes len: "length h = 48" "length e = n" "length tmp = n" and ok: "aes_cbc_length_ok (word_of_nat n)" "n < 2 ^ 32"
  shows "verify_decrypt tmp (h @ e @ z) (48 + n) s = map_option (\<lambda>b. b @ z) (verify_decrypt tmp (h @ e) (48 + n) s)"
proof -
  have n: "unat (word_of_nat n :: u32) = n" by (rule unat_word_of_nat32 [OF ok(2)])
  have "16 dvd n" using ok(1) n by (simp add: aes_cbc_length_ok_def)
  then have k: "16 * (n div 16) = n" by simp
  have iv: "rd_bytes (h @ y) 0 16 = Some (take 16 h)" for y using len(1) by (simp add: rd_bytes_def)
  let ?d = "cbc_dec (rijndaelDecrypt (aes_dec_key (session_encryptingKey s)) 10) (n div 16) (take 16 h) e"
  have "aes_SwDecrypt (session_encryptingKey s) (take 16 h) (Some (e @ y)) (word_of_nat n) tmp = Some (?d, 0)" for y
    using aes_SwDecrypt_cbc [OF ok(1), of "take 16 h" "e @ y" tmp "session_encryptingKey s"] n len k
    by (simp add: cbc_dec_after)
  from this [of z] this [of "[]"] show ?thesis
    using len k iv [of "e @ z"] iv [of e] aes128.length_cbc_dec [of "take 16 h" "n div 16" e]
    by (simp add: verify_decrypt_def decrypt_data_def ptr_at_def VSS_HEADER_SIZE_def CSL_AES_IVSIZE_BYTES_def
        memcpy_at_def wr_bytes_append_right wr_bytes_append option.map_comp comp_def)
qed

lemma verify_body_hmac_after:
  assumes "length c = 48 + n" and "n < 2 ^ 32"
  shows "verify_body_hmac (c @ z) (48 + n) key = verify_body_hmac c (48 + n) key"
  using assms compute_hmac_after [of n "drop 48 c" z key 10]
  by (simp add: verify_body_hmac_def ptr_at_def VSS_HEADER_SIZE_def VSS_DATA_HMAC_OFFSET_def VSS_HMAC_SIZE_def)

lemma VSSI_VerifyData_after:
  assumes len: "length h = 48" "length e = n" and n: "n < 2 ^ 32"
    and aes: "et = VSS_NEGOTIATE_ENCRYPT_TYPE_AES128 \<Longrightarrow> length tmp = n \<and> aes_cbc_length_ok (word_of_nat n)"
  shows "VSSI_VerifyData (Some tmp) (h @ e @ z) (48 + n) s sm st et =
    map_option (\<lambda>(b, rc). (b @ z, rc)) (VSSI_VerifyData (Some tmp) (h @ e) (48 + n) s sm st et)"
proof -
  have v: "vss_get_version (h @ y) = vss_get_version h" for y
    by (rule vss_header_fields_local) (use len in simp)
  have plain: "verify_body_hmac (h @ e @ z) (48 + n) key = verify_body_hmac (h @ e) (48 + n) key" for key
    using verify_body_hmac_after [of "h @ e" n z key] len n by simp
  have after: "verify_body_hmac (c @ z) (48 + n) key = verify_body_hmac c (48 + n) key"
    if "verify_decrypt tmp (h @ e) (48 + n) s = Some c" for c key
  proof -
    have "length c = 48 + n" using that len
      by (auto simp: verify_decrypt_def decrypt_data_def memcpy_at_def dest!: wr_bytes_length elim!: bind_eq_SomeE)
    then show ?thesis by (rule verify_body_hmac_after) (rule n)
  qed
  show ?thesis
  proof (cases "et = VSS_NEGOTIATE_ENCRYPT_TYPE_AES128")
    case True
    then show ?thesis using v aes verify_decrypt_after [OF len _ _ n, where tmp = tmp and s = s and z = z] plain after
      by (auto simp: VSSI_VerifyData_def split: option.split Option.bind_splits)
  next
    case False
    then show ?thesis using v plain by (auto simp: VSSI_VerifyData_def split: option.split Option.bind_splits)
  qed
qed

section \<open>A message received\<close>

lemma link_send_state_same:
  assumes "lk_send_state link = Some st" and "ss_cluster_id st = lk_cluster link"
  shows "link_send_state env link = (link, Some st)"
  using assms by (simp add: link_send_state_def VSSI_GetSendState_def)

lemma upd_conn_rest [simp]:
  "lk_session (upd_conn i f link) = lk_session link" "lk_send_state (upd_conn i f link) = lk_send_state link"
  "lk_cluster (upd_conn i f link) = lk_cluster link"
  by (simp_all add: upd_conn_def put_node_def)

text \<open>What \<open>delivers\<close> says of the header and of the body apart, with other bytes after them.\<close>

lemma delivers_parts:
  assumes d: "delivers s sm st et wire H body"
  obtains H' where "length wire = 48 + length body" and "length H' = 48"
    and "\<And>y. VSSI_VerifyHeader (take 48 wire @ y) s sm st = Some (H' @ y, VSSI_SUCCESS)"
    and "\<And>y. vss_get_handle (take 48 wire @ y) = Some (session_handle s)"
    and "\<And>y. vss_get_command (take 48 wire @ y) = vss_get_command H"
    and "\<And>y. vss_get_data_length (H' @ y) = Some (word_of_nat (length body))"
    and "\<And>y. vss_get_xid (H' @ y) = vss_get_xid H" and "\<And>y. vss_get_command (H' @ y) = vss_get_command H"
    and "\<And>y. vss_get_device_id (H' @ y) = vss_get_device_id H"
    and "\<And>tmp. length tmp = length body \<Longrightarrow>
      VSSI_VerifyData (Some tmp) (H' @ drop 48 wire) (48 + length body) s sm st et = Some (H' @ body, VSSI_SUCCESS)"
proof -
  obtain H' E where w: "VSSI_VerifyHeader wire s sm st = Some (H' @ E, VSSI_SUCCESS)" "length H' = 48"
    "length wire = 48 + length body" "vss_get_data_length H' = Some (word_of_nat (length body))"
    "vss_get_handle H' = Some (session_handle s)" "vss_get_xid H' = vss_get_xid H" "vss_get_command H' = vss_get_command H"
    "vss_get_device_id H' = vss_get_device_id H"
    "\<And>tmp. length tmp = length body \<Longrightarrow>
       VSSI_VerifyData (Some tmp) (H' @ E) (length wire) s sm st et = Some (H' @ body, VSSI_SUCCESS)"
    using d unfolding delivers_def by blast
  let ?h = "take 48 wire"
  have h: "length ?h = 48" using w(3) by simp
  have cut: "?h @ drop 48 wire = wire" by simp
  obtain h1 where h1: "VSSI_VerifyHeader ?h s sm st = Some (h1, VSSI_SUCCESS)" "h1 @ drop 48 wire = H' @ E"
    using w(1) VSSI_VerifyHeader_after [OF h, of "drop 48 wire" s sm st] unfolding cut by (auto split: prod.splits)
  have "length (h1 @ drop 48 wire) = length h1 + length body" using w(3) by simp
  have sig: "length h1 = 48 \<and> (\<forall>off k. off + k \<le> 28 \<longrightarrow> rd_bytes h1 off k = rd_bytes ?h off k)"
  proof (cases "h1 = ?h")
    case False
    then have "wr_bytes ?h 38 (replicate 10 0) = Some h1"
      using h1(1) by (auto simp: VSSI_VerifyHeader_def split: if_splits elim!: bind_eq_SomeE)
    then show ?thesis using rd_wr_bytes_disjoint [of ?h 38 "replicate 10 0" h1] wr_bytes_length h by fastforce
  qed (use h in simp)
  then have E: "h1 = H'" "E = drop 48 wire" using h1(2) w(2) by (simp_all add: append_eq_append_conv)
  have f: "vss_get_handle (?h @ y) = vss_get_handle H'" "vss_get_command (?h @ y) = vss_get_command H'" for y
    by (rule vss_header_fields_local, use sig h E in simp)+
  have g: "vss_get_data_length (H' @ y) = vss_get_data_length H'" "vss_get_xid (H' @ y) = vss_get_xid H'"
    "vss_get_command (H' @ y) = vss_get_command H'" "vss_get_device_id (H' @ y) = vss_get_device_id H'" for y
    by (rule vss_header_fields_local, use w(2) in simp)+
  show thesis
  proof (rule that [OF w(3,2)])
    fix y :: buffer
    show "VSSI_VerifyHeader (?h @ y) s sm st = Some (H' @ y, VSSI_SUCCESS)"
      using VSSI_VerifyHeader_after [OF h, of y s sm st] h1(1) E by simp
  qed (use w f g E in \<open>simp_all del: take_drop\<close>)
qed

text \<open>What handling a whole reply does, and then the end of it.\<close>

definition hand_over :: "vs_env \<Rightarrow> nat \<Rightarrow> buffer \<Rightarrow> vs_link \<Rightarrow> (vs_link \<times> net_event list) option" where
  "hand_over env i reply link = do {
     (link1, evs) \<leftarrow> handle_message env i reply link;
     Some (upd_conn i (\<lambda>c. c\<lparr>vc_cmds_outstanding := vc_cmds_outstanding c - 1\<rparr>) (reply_done i link1), evs) }"

lemma receive_all:
  assumes ok: "receiving (cn_connections (lk_node link) ! i)"
    and r: "VSSI_ReceiveVSBuffer env (cn_connections (lk_node link) ! i) = (c, length xs, Some off)"
    and b: "vc_incoming_reply c = Some b" and i: "i < length (cn_connections (lk_node link))"
    and w: "wr_bytes b off xs = Some b1"
    and t: "take_bytes env i (length xs) (upd_conn i (\<lambda>_. c\<lparr>vc_incoming_reply := Some b1\<rparr>) link) = Some r1"
    and whole: "r1 = Partial link1 \<or> r1 = Whole link1 reply"
  shows "VSSI_ReceiveVSResponse env i (int (length xs)) xs link =
    (if r1 = Partial link1 then Some (link1, []) else hand_over env i reply link1)"
proof -
  have "0 < length xs" by (rule window [OF ok r])
  then show ?thesis using assms
    by (auto simp: VSSI_ReceiveVSResponse_def VSSI_HandleVSBuffer_def hand_over_def Let_def split: Option.bind_splits)
qed

lemma body_received:
  assumes i: "i < length (cn_connections (lk_node link))" and n: "length e = n" "length body = n" "0 < n" "n < 2 ^ 32 - 48"
    and c: "cn_connections (lk_node link) ! i = c" "vc_replylen c = 48 + n" "vc_replylen_recvd c = 48"
      "vc_incoming_reply c = Some (H' @ z)" "receiving c" "vc_cur_send_state c \<noteq> None"
    and H': "length H' = 48" and st: "lk_send_state link = Some st"
    and v: "VSSI_VerifyData (Some tmp) (H' @ e) (48 + n) (lk_session link) (ss_sign_mode st) (ss_sign_type st)
        (ss_enc_type st) = Some (H' @ body, VSSI_SUCCESS)"
    and aes: "ss_enc_type st = VSS_NEGOTIATE_ENCRYPT_TYPE_AES128 \<Longrightarrow> aes_cbc_length_ok (word_of_nat n)"
    and env: "env_reply env" "env_tmp env = Some tmp" "length tmp = n"
  obtains c' z' where "VSSI_ReceiveVSBuffer env c = (c', n, Some 48)"
    and "VSSI_ReceiveVSResponse env i (int n) e link = hand_over env i (H' @ body @ z') (upd_conn i (\<lambda>_. c'\<lparr>vc_replylen_recvd := 48 + n,
      vc_incoming_reply := Some (H' @ body @ z')\<rparr>) link)" and "conn_key c' = conn_key c"
proof -
  have "size_minus (48 + n) 48 = n" using n(4) by (subst size_minus_le) simp_all
  then obtain c' z1 where r: "VSSI_ReceiveVSBuffer env c = (c', n, Some 48)" "vc_incoming_reply c' = Some (H' @ z1)"
    and k: "conn_key c' = conn_key c" "vc_cur_send_state c' = vc_cur_send_state c"
    using n(3) c(2-4) H' env(1)
    by (cases "vc_reply_bufsize c < 48 + n")
      (auto simp: VSSI_ReceiveVSBuffer_def Let_def conn_key_def realloc_bytes_def)
  then have keep: "vc_replylen c' = 48 + n" "vc_replylen_recvd c' = 48" "48 + n \<le> length (H' @ z1)"
    using window [OF c(5) r(1)] c(2,3) by (metis option.inject)+
  have z1: "wr_bytes (H' @ z1) 48 e = Some (H' @ e @ drop n z1)"
    using keep(3) H' n by (simp add: wr_bytes_def)
  let ?l = "upd_conn i (\<lambda>_. c'\<lparr>vc_replylen_recvd := 48 + n, vc_incoming_reply := Some (H' @ body @ drop n z1)\<rparr>) link"
  have "VSSI_VerifyData (Some tmp) (H' @ e @ drop n z1) (48 + n) (lk_session link) (ss_sign_mode st) (ss_sign_type st)
      (ss_enc_type st) = Some (H' @ body @ drop n z1, VSSI_SUCCESS)"
    using VSSI_VerifyData_after [OF H' n(1), of "ss_enc_type st" tmp "drop n z1"] v aes env(3) n by simp
  then have "take_bytes env i (length e) (upd_conn i (\<lambda>_. c'\<lparr>vc_incoming_reply := Some (H' @ e @ drop n z1)\<rparr>) link) =
      Some (Whole ?l (H' @ body @ drop n z1))"
    using i n keep k(2) c(6) st env(2) by (auto simp: take_bytes_def check_reply_def Let_def)
  from receive_all [OF _ _ r(2) i z1 this] have
    "VSSI_ReceiveVSResponse env i (int n) e link = hand_over env i (H' @ body @ drop n z1) ?l"
    using c(1,5) r(1) n(1) by simp
  then show thesis using r(1) k(1) by (rule_tac that)
qed

text \<open>A connection between two messages, and after the header of one.\<close>

definition between :: "VSSI_VSConnection \<Rightarrow> bool" where
  "between c \<longleftrightarrow> receiving c \<and> vc_replylen c = 0 \<and> vc_replylen_recvd c = 0"

definition after_header :: "buffer \<Rightarrow> nat \<Rightarrow> VSSI_VSConnection \<Rightarrow> VSSI_VSConnection" where
  "after_header b n c = c\<lparr>vc_replylen_recvd := 48, vc_cur_session := Some 0, vc_cur_send_state := Some 0,
     vc_incoming_reply := Some b, vc_replylen := 48 + n\<rparr>"

lemma conn_update_order:
  "c\<lparr>vc_replylen := n, vc_incoming_reply := b\<rparr> = c\<lparr>vc_incoming_reply := b, vc_replylen := n\<rparr>"
  by simp

lemma header_received:
  assumes i: "i < length (cn_connections (lk_node link))" and c: "between (cn_connections (lk_node link) ! i)"
    and st: "lk_send_state link = Some st" "ss_cluster_id st = lk_cluster link"
    and h: "length h = 48" "\<And>y. VSSI_VerifyHeader (h @ y) (lk_session link) (ss_sign_mode st) (ss_sign_type st) =
        Some (H' @ y, VSSI_SUCCESS)"
      "\<And>y. vss_get_handle (h @ y) = Some (session_handle (lk_session link))"
      "\<And>y. vss_get_command (h @ y) = Some k" "k \<noteq> VSS_ERROR"
      "\<And>y. vss_get_data_length (H' @ y) = Some (word_of_nat n)" "n < 2 ^ 32 - 48" "length H' = 48"
    and env: "env_header env"
  obtains c' y where "VSSI_ReceiveVSBuffer env (cn_connections (lk_node link) ! i) = (c', 48, Some 0)"
    and "VSSI_ReceiveVSResponse env i 48 h link =
      (if n = 0 then hand_over env i (H' @ y) (upd_conn i (\<lambda>_. after_header (H' @ y) n c') link)
       else Some (upd_conn i (\<lambda>_. after_header (H' @ y) n c') link, []))"
    and "conn_key c' = conn_key (cn_connections (lk_node link) ! i)"
    and "n \<noteq> 0 \<longrightarrow> receiving (after_header (H' @ y) n c')"
proof -
  let ?c = "cn_connections (lk_node link) ! i"
  have c0: "vc_replylen ?c = 0" "vc_replylen_recvd ?c = 0" "receiving ?c" using c by (simp_all add: between_def)
  have m: "size_minus 48 0 = 48" by (subst size_minus_le) simp_all
  have "\<exists>c' b. VSSI_ReceiveVSBuffer env ?c = (c', 48, Some 0) \<and> vc_incoming_reply c' = Some b \<and> conn_key c' = conn_key ?c"
    using c0(1,2) env m by (cases "vc_incoming_reply ?c") (auto simp: VSSI_ReceiveVSBuffer_def Let_def conn_key_def)
  then obtain c' b where r: "VSSI_ReceiveVSBuffer env ?c = (c', 48, Some 0)" "vc_incoming_reply c' = Some b"
    "conn_key c' = conn_key ?c" by blast
  have keep: "48 \<le> length b" "vc_replylen c' = 0" "vc_replylen_recvd c' = 0" "receiving c'"
    using window [OF c0(3) r(1)] c0(1,2) r(2) by (metis option.inject add_0)+
  define y where "y = drop 48 b"
  have w: "wr_bytes b 0 h = Some (h @ y)" using keep(1) h(1) by (simp add: wr_bytes_def y_def)
  let ?l = "upd_conn i (\<lambda>_. after_header (H' @ y) n c') link"
  have "word_of_nat (48 + n) = (48 + word_of_nat n :: u32)" by simp
  then have "unat (48 + word_of_nat n :: u32) = 48 + n"
    using unat_word_of_nat32 [of "48 + n"] h(7) by simp
  moreover have "link_send_state env (upd_conn i f link) = (upd_conn i f link, Some st)" for f
    using st by (intro link_send_state_same) simp_all
  ultimately have "take_bytes env i (length h) (upd_conn i (\<lambda>_. c'\<lparr>vc_incoming_reply := Some (h @ y)\<rparr>) link) =
      Some (if n = 0 then Whole ?l (H' @ y) else Partial ?l)"
    using i h st keep(2,3) by (simp add: take_bytes_def take_header_def check_reply_def Let_def after_header_def conn_update_order)
  from receive_all [OF c0(3) _ r(2) i w this, of ?l "H' @ y"]
  have "VSSI_ReceiveVSResponse env i 48 h link =
      (if n = 0 then hand_over env i (H' @ y) ?l else Some (?l, []))"
    using r(1) h(1) by (auto split: if_splits)
  moreover have "n \<noteq> 0 \<longrightarrow> receiving (after_header (H' @ y) n c')"
    using keep h(7,8) r(2) by (auto simp: receiving_def after_header_def y_def)
  ultimately show thesis using r(1,3) by (rule_tac that)
qed

lemma hand_over_eq:
  "hand_over env i reply link = map_option (\<lambda>(link1, evs).
     (upd_conn i (\<lambda>c. c\<lparr>vc_cmds_outstanding := vc_cmds_outstanding c - 1\<rparr>) (reply_done i link1), evs))
     (handle_message env i reply link)"
  by (cases "handle_message env i reply link") (auto simp: hand_over_def)

lemma hand_over_again: "do { (link1, evs) \<leftarrow> hand_over env i reply link; Some (link1, evs) } = hand_over env i reply link"
  by (cases "hand_over env i reply link") auto

lemma receive_pieces_append:
  "receive_pieces env i (ps @ qs) link = do {
     (link1, evs1) \<leftarrow> receive_pieces env i ps link;
     (link2, evs2) \<leftarrow> receive_pieces env i qs link1;
     Some (link2, evs1 @ evs2) }"
  by (induction ps arbitrary: link) (auto split: Option.bind_splits)

section \<open>The buffer and the window\<close>

lemma verify_decrypt_length: "verify_decrypt tmp b n s = Some b' \<Longrightarrow> length b' = length b"
  by (auto simp: verify_decrypt_def memcpy_at_def dest!: wr_bytes_length elim!: bind_eq_SomeE)

lemma VSSI_VerifyData_length: "VSSI_VerifyData tmp b n s sm st et = Some (b', rc) \<Longrightarrow> length b' = length b"
  by (auto simp: VSSI_VerifyData_def dest!: verify_decrypt_length elim!: bind_eq_SomeE split: if_splits)

lemma VSSI_VerifyHeader_keeps:
  assumes "VSSI_VerifyHeader b s sm st = Some (b', rc)"
  shows "length b' = length b" and "vss_get_data_length b' = vss_get_data_length b"
proof -
  have "b' = b \<or> wr_bytes b 38 (replicate 10 0) = Some b'"
    using assms by (auto simp: VSSI_VerifyHeader_def elim!: bind_eq_SomeE split: if_splits)
  then show "length b' = length b" and "vss_get_data_length b' = vss_get_data_length b"
    using rd_wr_bytes_disjoint [of b 38 "replicate 10 0" b'] wr_bytes_length [of b 38 "replicate 10 0" b']
    by (auto intro!: vss_header_fields_local)
qed

text \<open>A header that announces a length that fits.\<close>

definition length_ok :: "buffer \<Rightarrow> bool" where
  "length_ok reply \<longleftrightarrow> (\<forall>d. vss_get_data_length reply = Some d \<longrightarrow> unat d < 2 ^ 32 - 48)"

lemma unat_header_plus: "unat d < 2 ^ 32 - 48 \<Longrightarrow> unat (48 + d :: u32) = 48 + unat d"
  by (subst unat_add_lem [THEN iffD1]) simp_all

definition well_received :: "nat \<Rightarrow> reading option \<Rightarrow> bool" where
  "well_received i r \<longleftrightarrow> (case r of
     Some (Partial link) \<Rightarrow> receiving (cn_connections (lk_node link) ! i)
   | Some (Whole link reply) \<Rightarrow> between (cn_connections (lk_node (reply_done i link)) ! i) \<and>
       vc_incoming_reply (cn_connections (lk_node link) ! i) = Some reply
   | _ \<Rightarrow> True)"

lemma take_header_sets:
  assumes i: "i < length (cn_connections (lk_node link))" and c: "cn_connections (lk_node link) ! i = c"
    and b: "vc_incoming_reply c = Some b"
    and r: "vc_replylen_recvd c = 48" and t: "take_header env i link = Some (link2, True)"
  obtains b2 where "vc_incoming_reply (cn_connections (lk_node link2) ! i) = Some b2" and "length b2 = length b"
    and "if vss_get_command b = Some VSS_ERROR then vc_replylen (cn_connections (lk_node link2) ! i) = 48
       else \<exists>d. vss_get_data_length b = Some d \<and> vc_replylen (cn_connections (lk_node link2) ! i) = unat (48 + d)"
    and "vc_replylen_recvd (cn_connections (lk_node link2) ! i) = 48"
    and "vc_reply_bufsize (cn_connections (lk_node link2) ! i) = vc_reply_bufsize c"
    and "i < length (cn_connections (lk_node link2))"
proof -
  have s: "cn_connections (lk_node (fst (link_send_state env l))) = cn_connections (lk_node l)" for l
    by (simp add: link_send_state_def split: prod.split)
  obtain link1 st where l: "link_send_state env (upd_conn i (\<lambda>c. c\<lparr>vc_cur_session := Some 0\<rparr>) link) = (link1, Some st)"
    using t b c by (auto simp: take_header_def split: prod.splits option.splits if_splits elim!: bind_eq_SomeE)
  have cs: "cn_connections (lk_node link1) ! i = c\<lparr>vc_cur_session := Some 0\<rparr>"
    "length (cn_connections (lk_node link1)) = length (cn_connections (lk_node link))"
    using s [of "upd_conn i (\<lambda>c. c\<lparr>vc_cur_session := Some 0\<rparr>) link"] l i c by simp_all
  obtain k where k: "vss_get_command b = Some k"
    using t b c l by (auto simp: take_header_def Let_def split: if_splits elim!: bind_eq_SomeE)
  show thesis
  proof (cases "k = VSS_ERROR")
    case True
    then show thesis using t b c l k cs i r
      by (intro that [of b]) (auto simp: take_header_def Let_def split: if_splits elim!: bind_eq_SomeE)
  next
    case False
    obtain b2 d where v: "VSSI_VerifyHeader b (lk_session link) (ss_sign_mode st) (ss_sign_type st) = Some (b2, VSSI_SUCCESS)"
      "vss_get_data_length b2 = Some d" and link2: "link2 = upd_conn i (\<lambda>c. c\<lparr>vc_replylen := unat (word_of_nat VSS_HEADER_SIZE + d)\<rparr>)
        (upd_conn i (\<lambda>c. c\<lparr>vc_incoming_reply := Some b2\<rparr>) (upd_conn i (\<lambda>c. c\<lparr>vc_cur_send_state := Some 0\<rparr>) link1))"
      using t b c l k False cs i
      by (auto simp: take_header_def Let_def split: if_splits prod.splits elim!: bind_eq_SomeE)
    note h = VSSI_VerifyHeader_keeps [OF v(1)]
    show thesis
      using v(2) h k False cs i r by (intro that [of b2]) (simp_all add: link2)
  qed
qed

lemma take_header_receiving:
  assumes i: "i < length (cn_connections (lk_node link))" and c: "cn_connections (lk_node link) ! i = c"
    and b: "vc_incoming_reply c = Some b" "length_ok b"
    and r: "vc_replylen_recvd c = 48" and t: "take_header env i link = Some (link2, True)"
  obtains b2 m where "vc_incoming_reply (cn_connections (lk_node link2) ! i) = Some b2" and "length b2 = length b"
    and "vc_replylen (cn_connections (lk_node link2) ! i) = 48 + m" and "m < 2 ^ 32 - 48"
    and "vc_replylen_recvd (cn_connections (lk_node link2) ! i) = 48"
    and "vc_reply_bufsize (cn_connections (lk_node link2) ! i) = vc_reply_bufsize c"
    and "i < length (cn_connections (lk_node link2))"
proof (rule take_header_sets [OF i c b(1) r t])
  fix b2
  assume h: "vc_incoming_reply (cn_connections (lk_node link2) ! i) = Some b2" "length b2 = length b"
    "if vss_get_command b = Some VSS_ERROR then vc_replylen (cn_connections (lk_node link2) ! i) = 48
     else \<exists>d. vss_get_data_length b = Some d \<and> vc_replylen (cn_connections (lk_node link2) ! i) = unat (48 + d)"
    "vc_replylen_recvd (cn_connections (lk_node link2) ! i) = 48"
    "vc_reply_bufsize (cn_connections (lk_node link2) ! i) = vc_reply_bufsize c"
    "i < length (cn_connections (lk_node link2))"
  obtain m where "vc_replylen (cn_connections (lk_node link2) ! i) = 48 + m" "m < 2 ^ 32 - 48"
    using h(3) b(2) unat_header_plus by (fastforce simp: length_ok_def split: if_splits)
  with h show thesis by (rule_tac that)
qed

lemma check_reply_between:
  assumes i: "i < length (cn_connections (lk_node link))" and c: "check_reply env i link = Some (Whole link1 reply)"
    and b: "vc_incoming_reply (cn_connections (lk_node link) ! i) = Some b"
      "48 \<le> length b" "vc_reply_bufsize (cn_connections (lk_node link) ! i) \<le> length b"
  shows "between (cn_connections (lk_node (reply_done i link1)) ! i)"
    and "vc_incoming_reply (cn_connections (lk_node link1) ! i) = Some reply"
proof -
  have "length reply = length b \<and> link1 = upd_conn i (\<lambda>c. c\<lparr>vc_incoming_reply := Some reply\<rparr>) link"
    using c b(1) by (auto simp: check_reply_def Let_def dest: VSSI_VerifyData_length split: if_splits prod.splits elim!: bind_eq_SomeE)
  then show "between (cn_connections (lk_node (reply_done i link1)) ! i)"
    and "vc_incoming_reply (cn_connections (lk_node link1) ! i) = Some reply"
    using b i by (simp_all add: reply_done_def between_def receiving_def)
qed

lemma check_reply_not_partial: "check_reply env i link \<noteq> Some (Partial link1)"
  by (auto simp: check_reply_def Let_def split: if_splits prod.splits elim!: bind_eq_SomeE)

lemma all_received:
  assumes ok: "receiving (cn_connections (lk_node link) ! i)" and i: "i < length (cn_connections (lk_node link))"
    and r: "VSSI_ReceiveVSBuffer env (cn_connections (lk_node link) ! i) = (c, length bs, Some off)"
    and b: "vc_incoming_reply c = Some b" "wr_bytes b off bs = Some b1" "length_ok b1"
  shows "well_received i (take_bytes env i (length bs) (upd_conn i (\<lambda>_. c\<lparr>vc_incoming_reply := Some b1\<rparr>) link))"
proof -
  let ?c = "cn_connections (lk_node link) ! i"
  let ?c1 = "c\<lparr>vc_incoming_reply := Some b1, vc_replylen_recvd := vc_replylen_recvd c + length bs\<rparr>"
  let ?l = "upd_conn i (\<lambda>_. ?c1) link"
  obtain b0 where w: "vc_incoming_reply c = Some b0" "0 < length bs" "length bs = missing ?c" "receiving c"
    "vc_replylen c = vc_replylen ?c" "vc_replylen_recvd c = vc_replylen_recvd ?c"
    by (rule window [OF ok r])
  have len: "length b1 = length b" using wr_bytes_length [OF b(2)] .
  have big: "48 \<le> length b1" "vc_reply_bufsize c \<le> length b1" using w(4) b(1) len by (simp_all add: receiving_def)
  have all: "vc_replylen_recvd c + length bs = (if vc_replylen c = 0 then 48 else vc_replylen c)"
    using w ok by (auto simp: missing_def receiving_def split: if_splits)
  have chk: "well_received i (check_reply env i l)"
    if "vc_incoming_reply (cn_connections (lk_node l) ! i) = Some b2" "length b2 = length b1"
      "vc_reply_bufsize (cn_connections (lk_node l) ! i) = vc_reply_bufsize c" "i < length (cn_connections (lk_node l))" for l b2
    using check_reply_between [OF that(4) _ that(1)] check_reply_not_partial [of env i l] that big
    by (auto simp: well_received_def split: option.split reading.split)
  show ?thesis
  proof (cases "vc_replylen c = 0")
    case True
    then have t: "take_bytes env i (length bs) (upd_conn i (\<lambda>_. c\<lparr>vc_incoming_reply := Some b1\<rparr>) link) = do {
        (link2, go_on) \<leftarrow> take_header env i ?l;
        if \<not> go_on then Some (Broken link2)
        else if vc_replylen (cn_connections (lk_node link2) ! i) = 48 then check_reply env i link2
        else Some (Partial link2) }"
      using i all by (simp add: take_bytes_def Let_def cong: if_cong)
    show ?thesis
    proof (cases "take_header env i ?l")
      case (Some x)
      then obtain link2 g where x: "take_header env i ?l = Some (link2, g)" by (cases x) auto
      show ?thesis
      proof (cases g)
        case True
        then have go: "take_header env i ?l = Some (link2, True)" using x by simp
        obtain b2 m where h: "vc_incoming_reply (cn_connections (lk_node link2) ! i) = Some b2" "length b2 = length b1"
          "vc_replylen (cn_connections (lk_node link2) ! i) = 48 + m" "m < 2 ^ 32 - 48"
          "vc_replylen_recvd (cn_connections (lk_node link2) ! i) = 48"
          "vc_reply_bufsize (cn_connections (lk_node link2) ! i) = vc_reply_bufsize c"
          "i < length (cn_connections (lk_node link2))"
          by (rule take_header_receiving [of i ?l ?c1 b1 env link2]) (use i go b(3) all \<open>vc_replylen c = 0\<close> in simp_all)
        show ?thesis
        proof (cases "m = 0")
          case True
          then show ?thesis using t go h(3) chk [OF h(1,2,6,7)] by simp
        next
          case False
          then have "receiving (cn_connections (lk_node link2) ! i)" using h big by (simp add: receiving_def)
          then show ?thesis using t go h(3) False by (simp add: well_received_def)
        qed
      qed (use t x in \<open>simp add: well_received_def\<close>)
    qed (use t in \<open>simp add: well_received_def\<close>)
  next
    case False
    then have "48 < vc_replylen_recvd c + length bs" using all w(2,4) by (auto simp: receiving_def)
    then have "take_bytes env i (length bs) (upd_conn i (\<lambda>_. c\<lparr>vc_incoming_reply := Some b1\<rparr>) link) = check_reply env i ?l"
      using i all False by (simp add: take_bytes_def Let_def)
    then show ?thesis using chk [of ?l b1] i by simp
  qed
qed

section \<open>A session to try it on\<close>

text \<open>A session that neither signs nor encrypts, and a message to it of two bytes.\<close>

definition demo_plain :: vs_link where
  "demo_plain = demo_negotiated\<lparr>lk_send_state := map_option (\<lambda>st. st\<lparr>ss_sign_mode := 0, ss_sign_type := 0, ss_enc_type := 0\<rparr>)
     (lk_send_state demo_negotiated)\<rparr>"

definition demo_header :: "u8 list \<Rightarrow> buffer" where
  "demo_header len = [2, VSS_NOTIFICATION, 0, 0, 0, 0, 0, 77] @ replicate 8 0 @ [0, 0, 0, 0, 0, 0, 0, 7] @ len @ replicate 20 0"

definition demo_inbound :: VSSI_VSConnection where
  "demo_inbound = (new_connection 1)\<lparr>vc_conn_id := Some 3\<rparr>"

lemma demo_header_fields:
  assumes "length len = 4"
  shows "length (demo_header len) = 48" and "vss_get_version (demo_header len) = Some 2"
    and "vss_get_command (demo_header len) = Some VSS_NOTIFICATION" and "vss_get_xid (demo_header len) = Some 77"
    and "vss_get_handle (demo_header len) = Some 7"
    and "vss_get_data_length (demo_header len) = Some (VPLConv_ntoh_u32 (host_dec len))"
  using assms
  by (simp_all add: demo_header_def wire get_u8_def get_host16_def get_host32_def get_host64_def rd_bytes_def)
    code_simp+

lemma demo_plain_parts:
  "cn_connections (lk_node demo_plain) = [demo_inbound]" "lk_session demo_plain = demo_session" "lk_cluster demo_plain = 9"
  "\<exists>st. lk_send_state demo_plain = Some st \<and> ss_cluster_id st = 9 \<and> ss_sign_mode st = 0 \<and> ss_sign_type st = 0 \<and>
     ss_enc_type st = 0"
  by (simp_all add: demo_plain_def demo_negotiated_def demo_link_def demo_inbound_def new_send_state_def)

lemma demo_between: "between demo_inbound"
  by (simp add: demo_inbound_def new_connection_def between_def receiving_def)

lemma demo_window: "VSSI_ReceiveVSBuffer (demo_env 0) demo_inbound =
   (demo_inbound\<lparr>vc_incoming_reply := Some (replicate 48 0)\<rparr>, 48, Some 0)"
  by (simp add: demo_inbound_def new_connection_def VSSI_ReceiveVSBuffer_def demo_env_def size_minus_def)

lemma demo_delivers: "delivers demo_session 0 0 0 (demo_header [0, 0, 0, 2] @ [8, 9]) (demo_header [0, 0, 0, 2]) [8, 9]"
proof -
  let ?h = "demo_header [0, 0, 0, 2]"
  have len: "vss_get_data_length ?h = Some 2" by code_simp
  have v: "vss_get_version (?h @ [8, 9]) = Some 2" by code_simp
  show ?thesis
    unfolding delivers_def
    by (rule exI [of _ ?h], rule exI [of _ "[8, 9]"])
      (simp add: demo_header_fields VSSI_VerifyHeader_def VSSI_VerifyData_def v len demo_session_def)
qed

section \<open>Properties\<close>

text \<open>
  C7: a message the other side composed (for the modes of the session's send state), arriving
  at a connection between two messages in pieces cut in any way that does not join the header and the
  body, is handled once, with the header's fields and the body as they were before signing and
  encryption, and nothing else changes that the session depends on; a last condition is that the
  length fits in 32 bits together with the header.
\<close>

theorem message_received:
  assumes "i < length (cn_connections (lk_node link))" and "between (cn_connections (lk_node link) ! i)"
    and "lk_send_state link = Some st" and "ss_cluster_id st = lk_cluster link"
    and "delivers (lk_session link) (ss_sign_mode st) (ss_sign_type st) (ss_enc_type st) wire H body"
    and "length body < 2 ^ 32 - 48" and "vss_get_command H = Some k" and "k \<noteq> VSS_ERROR"
    and "ss_enc_type st = VSS_NEGOTIATE_ENCRYPT_TYPE_AES128 \<Longrightarrow> aes_cbc_length_ok (word_of_nat (length body))"
    and "env_header env" and "env_reply env" and "env_tmp env = Some tmp" and "length tmp = length body"
    and "concat ps = take 48 wire" and "concat qs = drop 48 wire" and "[] \<notin> set (ps @ qs)"
  shows "\<exists>H' z link1. receive_pieces env i (ps @ qs) link = map_option (\<lambda>(link2, evs).
      (upd_conn i (\<lambda>c. c\<lparr>vc_cmds_outstanding := vc_cmds_outstanding c - 1\<rparr>) (reply_done i link2), evs))
      (handle_message env i (H' @ body @ z) link1) \<and>
    link_key link1 = link_key link \<and> length H' = 48 \<and> vss_get_xid (H' @ body @ z) = vss_get_xid H \<and>
    vss_get_command (H' @ body @ z) = Some k"
proof -
  note a = assms
  let ?c = "cn_connections (lk_node link) ! i" and ?n = "length body"
  obtain H' where w: "length wire = 48 + ?n" "length H' = 48"
    "\<And>y. VSSI_VerifyHeader (take 48 wire @ y) (lk_session link) (ss_sign_mode st) (ss_sign_type st) = Some (H' @ y, VSSI_SUCCESS)"
    "\<And>y. vss_get_handle (take 48 wire @ y) = Some (session_handle (lk_session link))"
    "\<And>y. vss_get_command (take 48 wire @ y) = Some k"
    "\<And>y. vss_get_data_length (H' @ y) = Some (word_of_nat ?n)"
    "\<And>y. vss_get_xid (H' @ y) = vss_get_xid H" "\<And>y. vss_get_command (H' @ y) = Some k"
    "VSSI_VerifyData (Some tmp) (H' @ drop 48 wire) (48 + ?n) (lk_session link) (ss_sign_mode st) (ss_sign_type st)
       (ss_enc_type st) = Some (H' @ body, VSSI_SUCCESS)"
    using delivers_parts [OF a(5)] a(7,13) by metis
  have h: "length (take 48 wire) = 48" and rc: "receiving ?c" using w(1) a(2) by (simp_all add: between_def)
  obtain c' y where r: "VSSI_ReceiveVSBuffer env ?c = (c', 48, Some 0)"
    "VSSI_ReceiveVSResponse env i 48 (take 48 wire) link =
      (if ?n = 0 then hand_over env i (H' @ y) (upd_conn i (\<lambda>_. after_header (H' @ y) ?n c') link)
       else Some (upd_conn i (\<lambda>_. after_header (H' @ y) ?n c') link, []))"
    "conn_key c' = conn_key ?c" "?n \<noteq> 0 \<longrightarrow> receiving (after_header (H' @ y) ?n c')"
    by (rule header_received [OF a(1-4) h w(3-5) a(8) w(6) a(6) w(2) a(10)])
  let ?c1 = "after_header (H' @ y) ?n c'"
  let ?l = "upd_conn i (\<lambda>_. ?c1) link"
  have key: "link_key (upd_conn i (\<lambda>_. c) link) = link_key link" if "conn_key c = conn_key ?c" for c
    using link_key_upd_conn [of "\<lambda>d. if d = ?c then c else d" i link] that by (auto simp: upd_conn_def)
  have "ps \<noteq> []" "[] \<notin> set ps" "length (concat ps) = 48" using a(14,16) h by auto
  from pieces_same [OF rc a(1) r(1) this(1,2)] this(3) a(14)
  have first: "receive_pieces env i ps link = VSSI_ReceiveVSResponse env i 48 (take 48 wire) link" by simp
  show ?thesis
  proof (cases "?n = 0")
    case True
    then have "qs = []" using a(15,16) w(1) by (cases qs) auto
    moreover have "body = []" using True by simp
    moreover have "receive_pieces env i ps link = hand_over env i (H' @ y) ?l"
      unfolding first r(2) by (simp only: True if_True refl)
    ultimately have "receive_pieces env i (ps @ qs) link = hand_over env i (H' @ body @ y) ?l"
      by (simp only: append_Nil append_Nil2)
    note rp = this [unfolded hand_over_eq]
    have lk: "link_key ?l = link_key link" using r(3) by (rule_tac key) (simp add: after_header_def conn_key_def)
    show ?thesis by (intro exI conjI, rule rp, rule lk, rule w, rule w, rule w)
  next
    case False
    have c1: "cn_connections (lk_node ?l) ! i = ?c1" "i < length (cn_connections (lk_node ?l))" using a(1) by simp_all
    obtain c2 z where b: "VSSI_ReceiveVSBuffer env ?c1 = (c2, ?n, Some 48)"
      "VSSI_ReceiveVSResponse env i (int ?n) (drop 48 wire) ?l = hand_over env i (H' @ body @ z) (upd_conn i (\<lambda>_.
         c2\<lparr>vc_replylen_recvd := 48 + ?n, vc_incoming_reply := Some (H' @ body @ z)\<rparr>) ?l)"
      "conn_key c2 = conn_key ?c1"
    proof (rule body_received [OF c1(2) _ refl _ a(6) c1(1), of "drop 48 wire" H' y st tmp env])
      show "receiving ?c1" using r(4) False by simp
    qed (use False w(1,2,9) a(3,9,11-13) in \<open>simp_all add: after_header_def\<close>)
    have "qs \<noteq> []" "[] \<notin> set qs" "length (concat qs) = ?n" using a(15,16) w(1) False by auto
    from pieces_same [OF _ c1(2) _ this(1,2), unfolded c1(1), OF _ b(1)] this(3) a(15) r(4) False
    have "receive_pieces env i qs ?l = VSSI_ReceiveVSResponse env i (int ?n) (drop 48 wire) ?l" by simp
    then have rp: "receive_pieces env i (ps @ qs) link = hand_over env i (H' @ body @ z) (upd_conn i (\<lambda>_.
         c2\<lparr>vc_replylen_recvd := 48 + ?n, vc_incoming_reply := Some (H' @ body @ z)\<rparr>) ?l)"
      unfolding receive_pieces_append first r(2) by (simp only: False if_False b(2) bind.bind_lunit prod.case append_Nil hand_over_again)
    have lk: "link_key (upd_conn i (\<lambda>_. c2\<lparr>vc_replylen_recvd := 48 + ?n,
        vc_incoming_reply := Some (H' @ body @ z)\<rparr>) ?l) = link_key link"
      unfolding upd_conn_twice [OF a(1)] using b(3) r(3) by (rule_tac key) (simp add: after_header_def conn_key_def)
    show ?thesis by (intro exI conjI, rule rp [unfolded hand_over_eq], rule lk, rule w, rule w, rule w)
  qed
qed

theorem message_received_witness:
  "\<exists>H' z link1. receive_pieces ((demo_env 0)\<lparr>env_tmp := Some [0, 0]\<rparr>) 0
       ([take 1 (demo_header [0, 0, 0, 2]), take 4 (drop 1 (demo_header [0, 0, 0, 2])), drop 5 (demo_header [0, 0, 0, 2])] @
         [[8], [9]]) demo_plain = map_option (\<lambda>(link2, evs).
      (upd_conn 0 (\<lambda>c. c\<lparr>vc_cmds_outstanding := vc_cmds_outstanding c - 1\<rparr>) (reply_done 0 link2), evs))
      (handle_message ((demo_env 0)\<lparr>env_tmp := Some [0, 0]\<rparr>) 0 (H' @ [8, 9] @ z) link1) \<and>
    link_key link1 = link_key demo_plain \<and> length H' = 48 \<and>
    vss_get_xid (H' @ [8, 9] @ z) = vss_get_xid (demo_header [0, 0, 0, 2]) \<and>
    vss_get_command (H' @ [8, 9] @ z) = Some VSS_NOTIFICATION"
proof -
  let ?h = "demo_header [0, 0, 0, 2]"
  obtain st where st: "lk_send_state demo_plain = Some st" "ss_cluster_id st = 9" "ss_sign_mode st = 0" "ss_sign_type st = 0"
    "ss_enc_type st = 0"
    using demo_plain_parts(4) by blast
  have h: "length ?h = 48" "vss_get_command ?h = Some VSS_NOTIFICATION" "?h \<noteq> []"
    by (simp_all add: demo_header_fields) (simp add: demo_header_def)
  show ?thesis
  proof (rule message_received [where st = st and wire = "?h @ [8, 9]" and tmp = "[0, 0]"])
    show "delivers (lk_session demo_plain) (ss_sign_mode st) (ss_sign_type st) (ss_enc_type st) (?h @ [8, 9]) ?h [8, 9]"
      using st demo_delivers by (simp add: demo_plain_parts(2))
    show "concat [take 1 ?h, take 4 (drop 1 ?h), drop 5 ?h] = take 48 (?h @ [8, 9])"
      using h(1) append_take_drop_id [of 4 "drop 1 ?h"] by simp
  qed (use st h demo_between in \<open>simp_all add: demo_plain_parts demo_env_def\<close>)
qed

text \<open>
  C8: however the network cuts the bytes of a header, or of a body, into pieces, receiving the
  pieces one after another does what receiving them at once does: the same answers, the same calls,
  the same connection afterwards.
\<close>

theorem pieces_do_not_matter:
  assumes "receiving (cn_connections (lk_node link) ! i)" and "i < length (cn_connections (lk_node link))"
    and "VSSI_ReceiveVSBuffer env (cn_connections (lk_node link) ! i) = (c, n, Some off)"
    and "ps \<noteq> []" and "[] \<notin> set ps" and "length (concat ps) \<le> n"
  shows "receive_pieces env i ps link = VSSI_ReceiveVSResponse env i (int (length (concat ps))) (concat ps) link"
  by (rule pieces_same [OF assms])

theorem pieces_do_not_matter_witness:
  "receive_pieces (demo_env 0) 0 [[1, 2], [3], [4, 5, 6]] demo_plain =
     VSSI_ReceiveVSResponse (demo_env 0) 0 (int (length (concat [[1, 2], [3], [4, 5, 6 :: u8]]))) (concat [[1, 2], [3], [4, 5, 6]]) demo_plain"
  by (rule pieces_do_not_matter [where c = "demo_inbound\<lparr>vc_incoming_reply := Some (replicate 48 0)\<rparr>" and n = 48 and off = 0])
    (use demo_between demo_window in \<open>simp_all add: demo_plain_parts between_def\<close>)

text \<open>
  C9: the bytes a socket may store always lie in the reply buffer, and so it goes on: if the
  header does not announce a length at the end of the 32-bit range, the connection is again one of
  this kind after the bytes that are part of a reply, and after a whole reply, which is what is in the
  buffer.
\<close>

theorem window_in_buffer:
  assumes "receiving (cn_connections (lk_node link) ! i)" and "i < length (cn_connections (lk_node link))"
    and "VSSI_ReceiveVSBuffer env (cn_connections (lk_node link) ! i) = (c, n, Some off)"
    and "bs \<noteq> []" and "length bs \<le> n"
  shows "\<exists>b b1. vc_incoming_reply c = Some b \<and> off + n \<le> length b \<and> wr_bytes b off bs = Some b1 \<and>
     (length_ok b1 \<longrightarrow>
        well_received i (take_bytes env i (length bs) (upd_conn i (\<lambda>_. c\<lparr>vc_incoming_reply := Some b1\<rparr>) link)))"
proof -
  obtain b where b: "vc_incoming_reply c = Some b" "off + n \<le> length b" by (rule window [OF assms(1,3)])
  obtain b1 where b1: "wr_bytes b off bs = Some b1" using wr_bytes_Some [of off bs b] b(2) assms(5) by auto
  have "well_received i (take_bytes env i (length bs) (upd_conn i (\<lambda>_. c\<lparr>vc_incoming_reply := Some b1\<rparr>) link))"
    if "length_ok b1"
  proof (cases "length bs = n")
    case True
    then show ?thesis using all_received [OF assms(1,2) _ b(1) b1 that] assms(3) by simp
  next
    case False
    then have "length bs < n" using assms(5) by simp
    from part_received(2,4) [OF assms(1,2,3,4) this b(1) b1] show ?thesis
      using assms(2) by (simp add: well_received_def)
  qed
  then show ?thesis using b b1 by blast
qed

theorem window_in_buffer_witness:
  "\<exists>b b1. vc_incoming_reply (demo_inbound\<lparr>vc_incoming_reply := Some (replicate 48 0)\<rparr>) = Some b \<and> 0 + 48 \<le> length b \<and>
     wr_bytes b 0 [1, 2] = Some b1 \<and>
     (length_ok b1 \<longrightarrow> well_received 0 (take_bytes (demo_env 0) 0 (length [1, 2 :: u8]) (upd_conn 0
        (\<lambda>_. demo_inbound\<lparr>vc_incoming_reply := Some (replicate 48 0), vc_incoming_reply := Some b1\<rparr>) demo_plain)))"
  by (rule window_in_buffer) (use demo_between demo_window in \<open>simp_all add: demo_plain_parts between_def\<close>)

text \<open>
  C40: without that condition the bound fails. After a header (other than an error's) whose data
  length is above \<open>2 ^ 32 - 48\<close> the window begins after the header, in a buffer that has been cut to
  48 bytes at most, and is nearly \<open>2 ^ 64\<close> bytes long.
\<close>

theorem reply_length_wraps:
  assumes "i < length (cn_connections (lk_node link))" and "take_header env i link = Some (link2, True)"
    and "vc_incoming_reply (cn_connections (lk_node link) ! i) = Some reply" and "length reply = 48"
    and "vc_replylen_recvd (cn_connections (lk_node link) ! i) = 48"
    and "vss_get_command reply \<noteq> Some VSS_ERROR" and "vss_get_data_length reply = Some d"
    and "2 ^ 32 - 48 < unat d" and "env_reply env"
  shows "\<exists>c b. VSSI_ReceiveVSBuffer env (cn_connections (lk_node link2) ! i) =
       (c, 2 ^ 64 + unat d - 2 ^ 32, Some 48) \<and> vc_incoming_reply c = Some b \<and> length b \<le> 48"
proof -
  let ?c = "cn_connections (lk_node link2) ! i"
  obtain b2 where h: "vc_incoming_reply ?c = Some b2" "length b2 = 48" "vc_replylen ?c = unat (48 + d)"
    "vc_replylen_recvd ?c = 48"
    using take_header_sets [OF assms(1) refl assms(3,5,2)] assms(4,6,7) by (metis option.inject)
  have d: "unat d < 2 ^ 32" using unsigned_less [of d] by simp
  have "unat (48 + d) = (48 + unat d) mod 2 ^ 32" by (simp add: unat_word_ariths)
  also have "\<dots> = 48 + unat d - 2 ^ 32" using d assms(8) by (subst le_mod_geq) simp_all
  finally have r: "vc_replylen ?c = 48 + unat d - 2 ^ 32" using h(3) by simp
  then have "0 < vc_replylen ?c" "vc_replylen ?c < 48" using d assms(8) by simp_all
  moreover have "size_minus (vc_replylen ?c) 48 = 2 ^ 64 + unat d - 2 ^ 32"
    using r d assms(8) by (simp add: size_minus_def)
  ultimately show ?thesis using h assms(9)
    by (cases "vc_reply_bufsize ?c < vc_replylen ?c")
      (simp_all add: VSSI_ReceiveVSBuffer_def Let_def realloc_bytes_def)
qed

definition demo_wrapping :: vs_link where
  "demo_wrapping = upd_conn 0 (\<lambda>c. c\<lparr>vc_incoming_reply := Some (demo_header [255, 255, 255, 240]), vc_replylen_recvd := 48\<rparr>)
     demo_plain"

theorem reply_length_wraps_witness:
  "\<exists>link2 c b. take_header (demo_env 0) 0 demo_wrapping = Some (link2, True) \<and>
     VSSI_ReceiveVSBuffer (demo_env 0) (cn_connections (lk_node link2) ! 0) =
       (c, 2 ^ 64 + unat (2 ^ 32 - 16 :: u32) - 2 ^ 32, Some 48) \<and> vc_incoming_reply c = Some b \<and> length b \<le> 48"
proof -
  let ?h = "demo_header [255, 255, 255, 240]"
  have f: "vss_get_version ?h = Some 2" "vss_get_command ?h = Some VSS_NOTIFICATION" "vss_get_handle ?h = Some 7"
    "length ?h = 48" by (simp_all add: demo_header_fields)
  have d: "vss_get_data_length ?h = Some (2 ^ 32 - 16)" by code_simp
  have c: "cn_connections (lk_node demo_wrapping) ! 0 =
      demo_inbound\<lparr>vc_incoming_reply := Some ?h, vc_replylen_recvd := 48\<rparr>" "length (cn_connections (lk_node demo_wrapping)) = 1"
    using demo_plain_parts(1) by (simp_all add: demo_wrapping_def)
  obtain st where st: "lk_send_state demo_wrapping = Some st" "ss_cluster_id st = 9" "ss_sign_mode st = 0" "ss_sign_type st = 0"
    using demo_plain_parts(4) by (auto simp: demo_wrapping_def)
  have l: "lk_cluster demo_wrapping = 9" "lk_session demo_wrapping = demo_session"
    by (simp_all add: demo_wrapping_def demo_plain_parts)
  have same: "link_send_state (demo_env 0) (upd_conn 0 f demo_wrapping) = (upd_conn 0 f demo_wrapping, Some st)" for f
    by (rule link_send_state_same) (simp_all only: upd_conn_rest st l)
  have "0 < length (cn_connections (lk_node demo_wrapping))" using c(2) by simp
  moreover have "VSSI_VerifyHeader ?h demo_session 0 0 = Some (?h, VSSI_SUCCESS)"
    by (simp add: VSSI_VerifyHeader_def f)
  moreover have "session_handle demo_session = 7" by (simp add: demo_session_def)
  ultimately have "\<exists>link2. take_header (demo_env 0) 0 demo_wrapping = Some (link2, True)"
    unfolding take_header_def c(1) by (simp add: Let_def same st(3,4) f d l)
  then obtain link2 where t: "take_header (demo_env 0) 0 demo_wrapping = Some (link2, True)" by blast
  have "unat (2 ^ 32 - 16 :: u32) = 2 ^ 32 - 16" by simp
  then show ?thesis
    using reply_length_wraps [OF _ t, of ?h "2 ^ 32 - 16"] c d f t by (simp add: demo_env_def)
qed

end
