(* ===== verification/Spec2Isabelle.thy ===== *)
theory Spec2Isabelle
  imports Csl_Bigint_Inv Csl_Oaep_Correct Vssi_Msg_Correct Vssi_Slots_Table Vssi_Request_Correct Vssi_Reply_Correct Vssi_Transport_Correct Vssi_Receive_Stream
begin

text \<open>
  The virtual storage client of \<open>gvm_core\<close>: a library through which a device reads and writes
  datasets kept by a personal storage server. Its C sources are under \<open>src/sw_x/gvm_core/internal\<close>,
  in \<open>vssi\<close> (the client), \<open>csl\<close> (the cryptography) and, for the byte order, \<open>vpl/include\<close>.

  \<^bold>\<open>The parts and how they meet.\<close>

  \<^item> The wire format (\<open>vss_comm.h\<close>): every message is a header of 48 bytes and a body of named fields
    at fixed offsets, in network byte order, read and written by accessors.
  \<^item> The message layer (\<open>vssi_vss.c\<close>, \<open>VSSI_PrepareMessage\<close>, \<open>VSSI_ComposeMessage\<close>,
    \<open>VSSI_VerifyHeader\<close>, \<open>VSSI_VerifyData\<close>): header and body are signed with HMAC-SHA-1, the body is
    encrypted with AES-128 in CBC mode, as the session negotiated.
  \<^item> Public keys (\<open>integer_math.c\<close>, \<open>convrsa.c\<close>, \<open>cslrsa.c\<close>, \<open>cslrsa_sign.c\<close>, \<open>sha1.c\<close>, \<open>csloaep.c\<close>): big
    integers as arrays of 32-bit digits, RSA signatures over them, the OAEP padding. The device's keys use them, the sessions do not.
  \<^item> The command table (\<open>vssi_internal.c\<close>): a send state keeps the commands sent and not answered yet
    in a table searched by id, the free and the waiting ones in lists threaded through it.
  \<^item> Requests and replies (\<open>vssi_vss.c\<close>): one function per operation lays the request out, one takes
    its reply's results. Directories, trashcans and metadata are walked over later (\<open>vssi.c\<close>).
  \<^item> The transport (\<open>vssi_vss.c\<close>, \<open>vssi_internal.c\<close>): a queue of commands per server, drained by
    whichever of the server's sockets is free.
  \<^item> The session (\<open>vssi_vss.c\<close>, \<open>vssi_internal.c\<close>): connecting to a server route by route,
    negotiating, sending at once or keeping commands until it is done, losing connections.
  \<^item> Receiving (\<open>vssi_internal.c\<close>): the bytes of a socket are cut into messages, each is verified and
    goes to the connection, the negotiation, a notification or the command of its id.

  \<^bold>\<open>Which theory models what.\<close> Every definition has the name of the function, type or constant it
  models where it models one; parts of a long function have names of their own.

  \<^item> \<open>Vss_Prelude\<close>: checked accesses to buffers (\<open>rd_bytes\<close>, \<open>wr_bytes\<close>, \<open>memcpy_at\<close>; outside the buffer
    they give \<open>None\<close>), words as bytes, the collections \<open>wire\<close> and \<open>vssi_consts\<close>.
  \<^item> \<open>Vpl_Conv\<close>: \<open>vpl_conv.h\<close>, byte order on a little-endian host.
  \<^item> \<open>Vss_Comm_Header\<close>, \<open>Vss_Comm_Object\<close>, \<open>Vss_Comm_Change\<close>, \<open>Vss_Comm_File\<close>: \<open>vss_comm.h\<close>.
  \<^item> \<open>Csl_Sha\<close>, \<open>Csl_Hmac\<close>: \<open>cslsha.c\<close>, \<open>cslhmac.c\<close>; \<open>Csl_Sha_Correct\<close>.
  \<^item> \<open>Csl_Aes_Tables\<close>, \<open>Csl_Aes\<close>: \<open>aes_imp.c\<close>, \<open>aes_api.c\<close>, \<open>aes.c\<close>; \<open>Csl_Aes_Table_Facts\<close>,
    \<open>Csl_Aes_Correct\<close>.
  \<^item> \<open>Csl_Bigint\<close>: \<open>integer_math.c\<close>, \<open>convrsa.c\<close>; sums, products and shifts in \<open>Csl_Bigint_Correct\<close>,
    division in \<open>Csl_Bigint_Div\<close>, powers in \<open>Csl_Bigint_Exp\<close>, inverses in \<open>Csl_Bigint_Inv\<close>.
  \<^item> \<open>Csl_Rsa\<close>, \<open>Csl_Rsa_Correct\<close>: \<open>cslrsa.c\<close>, \<open>cslrsa_sign.c\<close>. \<open>Csl_Sha1\<close>: \<open>sha1.c\<close>, the library's other
    SHA-1. \<open>Csl_Oaep\<close>, \<open>Csl_Oaep_Correct\<close>: \<open>csloaep.c\<close>.
  \<^item> \<open>Vssi_Types\<close>, \<open>Vssi_Msg\<close>: results, sessions, objects; the message layer; \<open>Vssi_Msg_Correct\<close>.
  \<^item> \<open>Vssi_Slots\<close>: the send state and its table; \<open>Vssi_Slots_Correct\<close>, \<open>Vssi_Slots_Ops\<close> (what the lists
    thread, what each operation does to the commands), \<open>Vssi_Slots_Trace\<close> and \<open>Vssi_Slots_Table\<close>
    (histories of operations, and the map the table implements).
  \<^item> \<open>Vssi_Request\<close>, \<open>Vssi_Request_Correct\<close>; \<open>Vssi_Dir\<close>, \<open>Vssi_Dir_Correct\<close>; \<open>Vssi_Reply\<close>,
    \<open>Vssi_Reply_Correct\<close>: the requests, the walks, the results.
  \<^item> \<open>Vssi_Transport\<close>, \<open>Vssi_Transport_Correct\<close>: connections, the queue and the sends.
  \<^item> \<open>Vssi_Link\<close> (a session, a server and their objects together: \<open>vs_link\<close>), \<open>Vssi_Session\<close>,
    \<open>Vssi_Dispatch\<close> (the switch over the replies), \<open>Vssi_Receive\<close>; their invariant and what every
    operation does to it in \<open>Vssi_Link_Correct\<close>, \<open>Vssi_Session_Correct\<close>, \<open>Vssi_Receive_Correct\<close>;
    histories of a session in \<open>Vssi_Session_Run\<close>, the stream of bytes in \<open>Vssi_Receive_Stream\<close>.

  \<^bold>\<open>How the state corresponds.\<close> A C structure is a record with its fields, shortened to a prefix and
  the name (\<open>ss_\<close> for \<open>VSSI_SendState\<close>, \<open>pi_\<close> for \<open>VSSI_PendInfo\<close>, \<open>vc_\<close> and \<open>cn_\<close> for a connection and
  a server's node, \<open>lk_\<close> for the link). Machine integers keep their width. Pointers the code keeps in
  its structures are addresses (\<open>nat option\<close>) into an explicit memory: the commands of a send state
  are \<open>ss_cmds\<close>, and free, pending and waiting commands are the lists threaded through it. Buffers are
  lists of bytes. A read or write outside a buffer, a NULL dereference and a loop that does not end are
  \<open>None\<close>, so a theorem that an operation gives \<open>Some\<close> says it returns and stays in bounds.
  What comes from outside is an argument: whether an allocation succeeds, what fresh memory and the
  stack hold, what the sockets accept and deliver, in the record \<open>vs_env\<close> or by itself. What goes out
  (callbacks, bytes to a socket, proxy connects) is a list of events in their order.

  \<^bold>\<open>What the lemmas show.\<close>

  \<^item> Cryptography: AES decryption inverts encryption for every key, by the inverse key schedules and the
    facts of the tables, and so do the CBC loops; the streaming SHA-1 is SHA-1 of the whole.
  \<^item> Public keys: the value of an array of digits (\<open>bigval\<close>) turns every operation into arithmetic on
    numbers, carries and corrected estimates included; a signature verifies for its digest and for no
    other, and what the prepared powers leave out is shown on an exponent. \<open>sha1.c\<close> and \<open>cslsha.c\<close> compute the same
    hash; what OAEP pads comes back, as long as it is no longer than half the key.
  \<^item> Messages: a composed message verifies and decrypts to what was put in, for all modes; the check
    of a header decides exactly on its digest; every request's fields arrive as they were given.
  \<^item> The table: it implements a finite map from ids to commands, every callback is made once, and the
    operations end; the locale of histories with an account (\<open>accounted\<close>) is shared with sessions.
  \<^item> Transport: whatever the sockets take at a time, the bytes on each are whole messages in the order
    they were queued, and sending goes on while there is something to send.
  \<^item> Sessions: an invariant ties the table, the queue, the connections and the phase of the
    negotiation together; over every history it gives that commands are answered once, that nothing
    gets stuck, that commands that waited are sent in order once the server accepts.
  \<^item> Receiving: the window lies in the buffer, the cuts of the stream do not matter, and a message
    is handed over as it was composed.

  \<^bold>\<open>Bounds.\<close> The AES loops take their number of blocks, the SHA loops the bytes themselves. The loops
  whose end is not evident (\<open>send_waiting\<close>, the walks over lists in the command memory) are
  \<open>partial_function (option)\<close>, and that they give \<open>Some\<close> is proved from the invariants. A blocking send
  over the proxy follows a given list of what each turn's socket does. The loops that correct a digit of
  a quotient and the Euclidean algorithm are \<open>partial_function\<close>s, too; that they end is part of the
  theorems on division and inverses.

  \<^bold>\<open>Limits found.\<close> A request that never sets its version (\<open>VSSI_SendOpenFileCommand\<close>), reads that trust
  the server's length, directory entries cut short, a reply length that wraps in 32 bits, powers of
  uninitialised numbers, SHA-1 digests that are never signed and a copy between overlapping areas are
  stated as theorems about the model.

  \<^bold>\<open>Not modelled.\<close> Locks: the operations are the sections between them, in any order. The walks over
  all sessions and servers meet one session and one server. The tunnel and HTTP connections, the proxy
  and peer-to-peer connects (their results are inputs), the parsing of XML object descriptions, the
  elliptic curves of \<open>csl\<close>, and the API's front end apart from the walks. Beyond the storage client
  the repository holds daemons, applications, a portability layer and vendored code, most of it in
  other languages; none of it is used by what is modelled here except \<open>VPL\<close>'s calls into the system.
\<close>

end
